(* ===== verification/Prelude.thy ===== *)
theory Prelude
  imports Complex_Main "HOL-Library.AList"
begin

text \<open>
  The vocabulary every component theory shares.

  \<^item> \<open>exec\<close>: a computation over a state that may throw. A JavaScript \<open>throw\<close> does not
    undo the assignments made before it, so both outcomes carry the state reached.
  \<^item> \<open>app_error\<close>: the error classes of \<open>src/shared/errors.ts\<close> (message text and details are
    not modelled), plus \<open>JsError\<close> for a plain \<open>Error\<close> thrown by a library or the language.
  \<^item> \<open>jsmap\<close>: a JavaScript \<open>Map\<close> as an association list; \<open>AList.update\<close> keeps the
    position of an existing key, as \<open>Map.set\<close> does, so iteration order is kept.
  \<^item> \<open>json\<close>: the \<open>unknown\<close> values that are signed, hashed and logged.
  \<^item> \<open>ext\<close>: the third-party code the program calls (big.js, the date parser of the engine,
    \<open>@noble/hashes\<close>, \<open>@noble/ed25519\<close>, \<open>canonicalize\<close>, \<open>ulid\<close>), as a record of functions
    passed to every definition that calls it. Strings are byte strings in UTF-8.
  \<^item> \<open>keeps\<close> and \<open>yields\<close>: invariant preservation on both outcomes, and a postcondition of
    the normal outcome, with the rule collections \<open>keeps_rules\<close> and \<open>exec_simps\<close>.
\<close>

named_theorems exec_simps \<open>unfolding of the computation combinators\<close>
named_theorems keeps_rules \<open>structural rules for invariant preservation\<close>

section \<open>Errors\<close>

datatype app_error =
    ValidationError
  | AuthError
  | ForbiddenError
  | NotFoundError
  | ConflictError
  | PolicyViolationError
  | PaymentRequiredError
  | ReplayError
  | RailError
  | JsError

fun httpStatus :: "app_error \<Rightarrow> nat" where
  "httpStatus ValidationError = 400"
| "httpStatus AuthError = 401"
| "httpStatus ForbiddenError = 403"
| "httpStatus NotFoundError = 404"
| "httpStatus ConflictError = 409"
| "httpStatus PolicyViolationError = 403"
| "httpStatus PaymentRequiredError = 402"
| "httpStatus ReplayError = 409"
| "httpStatus RailError = 502"
| "httpStatus JsError = 500"

section \<open>Computations with state and exceptions\<close>

type_synonym ('s, 'a) exec = "'s \<Rightarrow> (app_error + 'a) \<times> 's"

definition ret :: "'a \<Rightarrow> ('s, 'a) exec" where
  "ret x = (\<lambda>s. (Inr x, s))"

definition throw :: "app_error \<Rightarrow> ('s, 'a) exec" where
  "throw e = (\<lambda>s. (Inl e, s))"

definition bindE :: "('s, 'a) exec \<Rightarrow> ('a \<Rightarrow> ('s, 'b) exec) \<Rightarrow> ('s, 'b) exec" where
  "bindE m k = (\<lambda>s. case m s of (Inl e, s') \<Rightarrow> (Inl e, s') | (Inr x, s') \<Rightarrow> k x s')"

definition gets :: "('s \<Rightarrow> 'a) \<Rightarrow> ('s, 'a) exec" where
  "gets f = (\<lambda>s. (Inr (f s), s))"

definition modify :: "('s \<Rightarrow> 's) \<Rightarrow> ('s, unit) exec" where
  "modify f = (\<lambda>s. (Inr (), f s))"

text \<open>\<open>if (b) throw e\<close>.\<close>

definition throwIf :: "bool \<Rightarrow> app_error \<Rightarrow> ('s, unit) exec" where
  "throwIf b e = (if b then throw e else ret ())"

text \<open>A nullable value: \<open>if (!x) throw e\<close>, then \<open>x\<close>.\<close>

definition orThrow :: "'a option \<Rightarrow> app_error \<Rightarrow> ('s, 'a) exec" where
  "orThrow x e = (case x of None \<Rightarrow> throw e | Some v \<Rightarrow> ret v)"

text \<open>\<open>for (const x of xs) body(x)\<close>.\<close>

fun forEach :: "'x list \<Rightarrow> ('x \<Rightarrow> ('s, unit) exec) \<Rightarrow> ('s, unit) exec" where
  "forEach [] body = ret ()"
| "forEach (x # xs) body = bindE (body x) (\<lambda>_. forEach xs body)"

text \<open>Run a component's computation on its part of a larger state.\<close>

definition zoom :: "('t \<Rightarrow> 's) \<Rightarrow> (('s \<Rightarrow> 's) \<Rightarrow> 't \<Rightarrow> 't) \<Rightarrow> ('s, 'a) exec \<Rightarrow> ('t, 'a) exec" where
  "zoom get upd m = (\<lambda>t. case m (get t) of (r, s) \<Rightarrow> (r, upd (\<lambda>_. s) t))"

lemma ret_app [exec_simps, simp]: "ret x s = (Inr x, s)"
  by (simp add: ret_def)

lemma throw_app [exec_simps, simp]: "throw e s = (Inl e, s)"
  by (simp add: throw_def)

lemma gets_app [exec_simps, simp]: "gets f s = (Inr (f s), s)"
  by (simp add: gets_def)

lemma modify_app [exec_simps, simp]: "modify f s = (Inr (), f s)"
  by (simp add: modify_def)

lemma throwIf_app [exec_simps]: "throwIf b e s = (if b then (Inl e, s) else (Inr (), s))"
  by (simp add: throwIf_def)

lemma orThrow_app [exec_simps]:
  "orThrow x e s = (case x of None \<Rightarrow> (Inl e, s) | Some v \<Rightarrow> (Inr v, s))"
  by (simp add: orThrow_def split: option.split)

lemma bindE_app [exec_simps]:
  "bindE m k s = (case m s of (Inl e, s') \<Rightarrow> (Inl e, s') | (Inr x, s') \<Rightarrow> k x s')"
  by (simp add: bindE_def)

lemma zoom_app [exec_simps]:
  "zoom get upd m t = (case m (get t) of (r, s) \<Rightarrow> (r, upd (\<lambda>_. s) t))"
  by (simp add: zoom_def)

lemma bindE_ok: "m s = (Inr x, s') \<Longrightarrow> bindE m k s = k x s'"
  by (simp add: bindE_def)

lemma bindE_err: "m s = (Inl e, s') \<Longrightarrow> bindE m k s = (Inl e, s')"
  by (simp add: bindE_def)

lemma bindE_InrE:
  assumes "bindE m k s = (Inr y, s')"
  obtains x s1 where "m s = (Inr x, s1)" "k x s1 = (Inr y, s')"
  using assms by (auto simp: bindE_def split: prod.splits sum.splits)

lemma bindE_throw: "bindE (throw e) k = throw e"
  by (rule ext) (simp add: bindE_def)

lemma bindE_ret: "bindE (ret x) k = k x"
  by (rule ext) (simp add: bindE_def)

lemma bindE_assoc: "bindE (bindE m k) h = bindE m (\<lambda>x. bindE (k x) h)"
  by (rule ext) (auto simp: bindE_def split: prod.splits sum.splits)

section \<open>Invariants of computations\<close>

text \<open>\<open>keeps P m\<close>: the computation re-establishes \<open>P\<close> whether it returns or throws.\<close>

definition keeps :: "('s \<Rightarrow> bool) \<Rightarrow> ('s, 'a) exec \<Rightarrow> bool" where
  "keeps P m \<longleftrightarrow> (\<forall>s. P s \<longrightarrow> P (snd (m s)))"

text \<open>\<open>yields P m Q\<close>: from \<open>P\<close>, a normal outcome satisfies \<open>Q\<close>.\<close>

definition yields :: "('s \<Rightarrow> bool) \<Rightarrow> ('s, 'a) exec \<Rightarrow> ('a \<Rightarrow> 's \<Rightarrow> bool) \<Rightarrow> bool" where
  "yields P m Q \<longleftrightarrow> (\<forall>s x s'. P s \<longrightarrow> m s = (Inr x, s') \<longrightarrow> Q x s')"

lemma keepsI: "(\<And>s. P s \<Longrightarrow> P (snd (m s))) \<Longrightarrow> keeps P m"
  by (simp add: keeps_def)

lemma keepsD: "keeps P m \<Longrightarrow> P s \<Longrightarrow> P (snd (m s))"
  by (simp add: keeps_def)

lemma keepsD_pair: "keeps P m \<Longrightarrow> P s \<Longrightarrow> m s = (r, s') \<Longrightarrow> P s'"
  using keepsD [of P m s] by simp

lemma keeps_ret [keeps_rules]: "keeps P (ret x)"
  by (simp add: keeps_def)

lemma keeps_throw [keeps_rules]: "keeps P (throw e)"
  by (simp add: keeps_def)

lemma keeps_gets [keeps_rules]: "keeps P (gets f)"
  by (simp add: keeps_def)

lemma keeps_throwIf [keeps_rules]: "keeps P (throwIf b e)"
  by (simp add: keeps_def throwIf_def)

lemma keeps_orThrow [keeps_rules]: "keeps P (orThrow x e)"
  by (simp add: keeps_def orThrow_def split: option.split)

lemma keeps_bindE [keeps_rules]:
  "keeps P m \<Longrightarrow> (\<And>x. keeps P (k x)) \<Longrightarrow> keeps P (bindE m k)"
  by (fastforce simp: keeps_def bindE_def split: prod.splits sum.splits dest: spec)

lemma keeps_forEach [keeps_rules]:
  "(\<And>x. x \<in> set xs \<Longrightarrow> keeps P (body x)) \<Longrightarrow> keeps P (forEach xs body)"
  by (induction xs) (auto intro: keeps_ret keeps_bindE)

lemma keeps_if [keeps_rules]:
  "(b \<Longrightarrow> keeps P m) \<Longrightarrow> (\<not> b \<Longrightarrow> keeps P n) \<Longrightarrow> keeps P (if b then m else n)"
  by simp

lemma keeps_case_option [keeps_rules]:
  "(x = None \<Longrightarrow> keeps P m) \<Longrightarrow> (\<And>v. x = Some v \<Longrightarrow> keeps P (k v)) \<Longrightarrow>
   keeps P (case x of None \<Rightarrow> m | Some v \<Rightarrow> k v)"
  by (cases x) simp_all

lemma keeps_case_sum [keeps_rules]:
  "(\<And>e. x = Inl e \<Longrightarrow> keeps P (m e)) \<Longrightarrow> (\<And>v. x = Inr v \<Longrightarrow> keeps P (k v)) \<Longrightarrow>
   keeps P (case x of Inl e \<Rightarrow> m e | Inr v \<Rightarrow> k v)"
  by (cases x) simp_all

lemma keeps_case_prod [keeps_rules]:
  "(\<And>a b. x = (a, b) \<Longrightarrow> keeps P (k a b)) \<Longrightarrow> keeps P (case x of (a, b) \<Rightarrow> k a b)"
  by (cases x) simp

lemma keeps_Let [keeps_rules]: "(\<And>x. keeps P (k x)) \<Longrightarrow> keeps P (Let v k)"
  by (simp add: Let_def)

lemma keeps_modify [keeps_rules]: "(\<And>s. P s \<Longrightarrow> P (f s)) \<Longrightarrow> keeps P (modify f)"
  by (simp add: keeps_def)

lemma keeps_zoom:
  assumes "keeps Q m" and "\<And>t. P t \<Longrightarrow> Q (get t)"
    and "\<And>t s. P t \<Longrightarrow> Q s \<Longrightarrow> P (upd (\<lambda>_. s) t)"
  shows "keeps P (zoom get upd m)"
  using assms by (auto simp: keeps_def zoom_def split: prod.split) (metis snd_conv)

lemma keeps_conj: "keeps P m \<Longrightarrow> keeps Q m \<Longrightarrow> keeps (\<lambda>s. P s \<and> Q s) m"
  by (simp add: keeps_def)

text \<open>A computation that leaves a part of the state alone keeps every predicate on that part.\<close>

definition frames :: "('s \<Rightarrow> 'v) \<Rightarrow> ('s, 'a) exec \<Rightarrow> bool" where
  "frames f m \<longleftrightarrow> (\<forall>v. keeps (\<lambda>s. f s = v) m)"

lemma frames_keeps: "frames f m \<Longrightarrow> keeps (\<lambda>s. Q (f s)) m"
  by (auto simp: frames_def keeps_def)

lemma frames_eq: "frames f m \<Longrightarrow> f (snd (m s)) = f s"
  by (auto simp: frames_def keeps_def)

lemma yields_ret [intro]: "(\<And>s. P s \<Longrightarrow> Q x s) \<Longrightarrow> yields P (ret x) Q"
  by (simp add: yields_def)

lemma yields_throw [intro]: "yields P (throw e) Q"
  by (simp add: yields_def)

lemma yields_bindE:
  "yields P m R \<Longrightarrow> (\<And>x. yields (R x) (k x) Q) \<Longrightarrow> yields P (bindE m k) Q"
  unfolding yields_def by (metis bindE_InrE)

section \<open>JavaScript maps\<close>

type_synonym ('k, 'v) jsmap = "('k \<times> 'v) list"

abbreviation mapGet :: "('k, 'v) jsmap \<Rightarrow> 'k \<Rightarrow> 'v option" where
  "mapGet m k \<equiv> map_of m k"

abbreviation mapSet :: "'k \<Rightarrow> 'v \<Rightarrow> ('k, 'v) jsmap \<Rightarrow> ('k, 'v) jsmap" where
  "mapSet k v m \<equiv> AList.update k v m"

abbreviation mapValues :: "('k, 'v) jsmap \<Rightarrow> 'v list" where
  "mapValues m \<equiv> map snd m"

abbreviation distinctKeys :: "('k, 'v) jsmap \<Rightarrow> bool" where
  "distinctKeys m \<equiv> distinct (map fst m)"

lemma mapGet_mapSet [simp]: "mapGet (mapSet k v m) k' = (if k' = k then Some v else mapGet m k')"
  by (simp add: update_conv')

lemma distinctKeys_mapSet [simp]: "distinctKeys m \<Longrightarrow> distinctKeys (mapSet k v m)"
  by (rule distinct_update)

lemma mapSet_new: "k \<notin> fst ` set m \<Longrightarrow> mapSet k v m = m @ [(k, v)]"
  by (induction m) auto

lemma mapGet_None_iff: "mapGet m k = None \<longleftrightarrow> k \<notin> fst ` set m"
  by (rule map_of_eq_None_iff)

lemma set_mapSet_subset: "set (mapSet k v m) \<subseteq> insert (k, v) (set m)"
  by (induction m) auto

text \<open>A sum over a map's entries changes by the difference at the key that is set.\<close>

definition sumEntries :: "('k \<times> 'v \<Rightarrow> rat) \<Rightarrow> ('k, 'v) jsmap \<Rightarrow> rat" where
  "sumEntries f m = sum_list (map f m)"

lemma sumEntries_Nil [simp]: "sumEntries f [] = 0"
  by (simp add: sumEntries_def)

lemma sumEntries_Cons [simp]: "sumEntries f (p # m) = f p + sumEntries f m"
  by (simp add: sumEntries_def)

lemma sumEntries_mapSet:
  "distinctKeys m \<Longrightarrow> sumEntries f (mapSet k v m) =
     sumEntries f m + f (k, v) - (case mapGet m k of None \<Rightarrow> 0 | Some w \<Rightarrow> f (k, w))"
proof (induction m)
  case Nil
  then show ?case by simp
next
  case (Cons p m)
  obtain a b where p: "p = (a, b)" by (cases p)
  show ?case
  proof (cases "a = k")
    case True
    with Cons.prems p show ?thesis by simp
  next
    case False
    with Cons p show ?thesis by (simp split: option.splits)
  qed
qed

lemma sumEntries_cong: "(\<And>p. p \<in> set m \<Longrightarrow> f p = g p) \<Longrightarrow> sumEntries f m = sumEntries g m"
  unfolding sumEntries_def by (rule arg_cong [where f = sum_list]) simp

lemma sumEntries_nonneg: "(\<And>p. p \<in> set m \<Longrightarrow> 0 \<le> f p) \<Longrightarrow> 0 \<le> sumEntries f m"
  by (induction m) auto

lemma sumEntries_member_le:
  "(\<And>p. p \<in> set m \<Longrightarrow> 0 \<le> f p) \<Longrightarrow> p \<in> set m \<Longrightarrow> f p \<le> sumEntries f m"
proof (induction m)
  case Nil
  then show ?case by simp
next
  case (Cons q m)
  have "0 \<le> sumEntries f m" using Cons.prems(1) by (auto intro: sumEntries_nonneg)
  with Cons show ?case by (cases "p = q") (auto simp: add_increasing)
qed

section \<open>JSON values\<close>

datatype json =
    JNull
  | JBool bool
  | JNum rat
  | JStr string
  | JArr "json list"
  | JObj "(string \<times> json) list"

text \<open>\<open>typeof v === 'string'\<close>, read as the string it holds.\<close>

fun asString :: "json option \<Rightarrow> string option" where
  "asString (Some (JStr s)) = Some s"
| "asString _ = None"

text \<open>Optional fields: an absent value is an absent key.\<close>

definition optField :: "string \<Rightarrow> string option \<Rightarrow> (string \<times> json) list" where
  "optField k v = (case v of None \<Rightarrow> [] | Some s \<Rightarrow> [(k, JStr s)])"

definition nullable :: "string option \<Rightarrow> json" where
  "nullable v = (case v of None \<Rightarrow> JNull | Some s \<Rightarrow> JStr s)"

section \<open>Third-party code\<close>

text \<open>
  \<open>bigVal s\<close> is the number \<open>new Big(s)\<close> denotes, \<open>None\<close> where the constructor throws;
  \<open>bigPlus a b\<close> is \<open>new Big(a).plus(b).toString()\<close>, and so on; \<open>bigTimes a f\<close> multiplies by
  a JavaScript number; \<open>bigShare a b\<close> is \<open>Number(new Big(a).div(b).toFixed(6))\<close>;
  \<open>bigRatio a b\<close> is \<open>new Big(a).div(b).toNumber()\<close>. \<open>numberOf\<close> is \<open>Number(s)\<close> (\<open>None\<close> for
  NaN). \<open>dateMs s\<close> is \<open>new Date(s).getTime()\<close> (\<open>None\<close> for NaN) and \<open>isoOf t\<close> is
  \<open>new Date(t).toISOString()\<close>. \<open>ulid n\<close> is the \<open>n\<close>-th identifier the generator returns.
\<close>

record ext =
  bigVal :: "string \<Rightarrow> rat option"
  bigPlus :: "string \<Rightarrow> string \<Rightarrow> string"
  bigMinus :: "string \<Rightarrow> string \<Rightarrow> string"
  bigTimes :: "string \<Rightarrow> rat \<Rightarrow> string"
  bigNorm :: "string \<Rightarrow> string"
  bigShare :: "string \<Rightarrow> string \<Rightarrow> rat"
  bigRatio :: "string \<Rightarrow> string \<Rightarrow> rat"
  numberOf :: "string \<Rightarrow> rat option"
  dateMs :: "string \<Rightarrow> int option"
  isoOf :: "int \<Rightarrow> string"
  ulid :: "nat \<Rightarrow> string"
  canon :: "json \<Rightarrow> string"
  sha256 :: "string \<Rightarrow> string"
  hexOf :: "string \<Rightarrow> string"
  hexBytes :: "string \<Rightarrow> string"
  b64uOf :: "string \<Rightarrow> string"
  b64uBytes :: "string \<Rightarrow> string"
  jsonText :: "json \<Rightarrow> string"
  jsonParse :: "string \<Rightarrow> json option"
  edSign :: "string \<Rightarrow> string \<Rightarrow> string"
  edVerify :: "string \<Rightarrow> string \<Rightarrow> string \<Rightarrow> bool"

text \<open>
  Documented behaviour of big.js: decimal addition, subtraction and multiplication are exact,
  \<open>toString\<close> denotes the same number, and \<open>'0'\<close> denotes zero.
\<close>

definition big_exact :: "ext \<Rightarrow> bool" where
  "big_exact E \<longleftrightarrow>
     bigVal E ''0'' = Some 0 \<and>
     (\<forall>a b x y. bigVal E a = Some x \<longrightarrow> bigVal E b = Some y \<longrightarrow>
        bigVal E (bigPlus E a b) = Some (x + y) \<and>
        bigVal E (bigMinus E a b) = Some (x - y)) \<and>
     (\<forall>a x. bigVal E a = Some x \<longrightarrow> bigVal E (bigNorm E a) = Some x)"

text \<open>
  Multiplication by a JavaScript number is exact too; a number with a finite decimal expansion
  is what \<open>Number(s.toFixed(6))\<close> and the literals of the code denote.
\<close>

definition six_digits :: "rat \<Rightarrow> bool" where
  "six_digits f \<longleftrightarrow> f * 1000000 \<in> \<int>"

definition times_exact :: "ext \<Rightarrow> bool" where
  "times_exact E \<longleftrightarrow>
     (\<forall>a x f. bigVal E a = Some x \<longrightarrow> six_digits f \<longrightarrow> bigVal E (bigTimes E a f) = Some (x * f))"

text \<open>The identifier generator never returns the same identifier twice.\<close>

definition ulid_fresh :: "ext \<Rightarrow> bool" where
  "ulid_fresh E \<longleftrightarrow> (\<forall>m n. ulid E m = ulid E n \<longrightarrow> m = n)"

lemma ulid_fresh_eq: "ulid_fresh E \<Longrightarrow> ulid E m = ulid E n \<longleftrightarrow> m = n"
  by (auto simp: ulid_fresh_def)

text \<open>The number a decimal string denotes, zero where it denotes none.\<close>

definition bv :: "ext \<Rightarrow> string \<Rightarrow> rat" where
  "bv E s = (case bigVal E s of None \<Rightarrow> 0 | Some v \<Rightarrow> v)"

lemma bv_Some [simp]: "bigVal E s = Some v \<Longrightarrow> bv E s = v"
  by (simp add: bv_def)

text \<open>\<open>new Big(a).plus(b).toString()\<close> and its kin as computations: a malformed operand throws.\<close>

definition bigE :: "ext \<Rightarrow> string \<Rightarrow> ('s, rat) exec" where
  "bigE E a = orThrow (bigVal E a) JsError"

definition plusE :: "ext \<Rightarrow> string \<Rightarrow> string \<Rightarrow> ('s, string) exec" where
  "plusE E a b = bindE (bigE E a) (\<lambda>_. bindE (bigE E b) (\<lambda>_. ret (bigPlus E a b)))"

definition minusE :: "ext \<Rightarrow> string \<Rightarrow> string \<Rightarrow> ('s, string) exec" where
  "minusE E a b = bindE (bigE E a) (\<lambda>_. bindE (bigE E b) (\<lambda>_. ret (bigMinus E a b)))"

definition timesE :: "ext \<Rightarrow> string \<Rightarrow> rat \<Rightarrow> ('s, string) exec" where
  "timesE E a f = bindE (bigE E a) (\<lambda>_. ret (bigTimes E a f))"

text \<open>\<open>new Big(a).cmp(b)\<close> compares the numbers.\<close>

definition ltE :: "ext \<Rightarrow> string \<Rightarrow> string \<Rightarrow> ('s, bool) exec" where
  "ltE E a b = bindE (bigE E a) (\<lambda>x. bindE (bigE E b) (\<lambda>y. ret (x < y)))"

lemma keeps_bigE [keeps_rules]: "keeps P (bigE E a)"
  by (simp add: bigE_def keeps_orThrow)

lemma keeps_plusE [keeps_rules]: "keeps P (plusE E a b)"
  unfolding plusE_def by (intro keeps_rules)

lemma keeps_minusE [keeps_rules]: "keeps P (minusE E a b)"
  unfolding minusE_def by (intro keeps_rules)

lemma keeps_timesE [keeps_rules]: "keeps P (timesE E a f)"
  unfolding timesE_def by (intro keeps_rules)

lemma keeps_ltE [keeps_rules]: "keeps P (ltE E a b)"
  unfolding ltE_def by (intro keeps_rules)

lemma bigE_ok [simp]: "bigVal E a = Some x \<Longrightarrow> bigE E a s = (Inr x, s)"
  by (simp add: bigE_def orThrow_def)

lemma bigE_bad [simp]: "bigVal E a = None \<Longrightarrow> bigE E a s = (Inl JsError, s)"
  by (simp add: bigE_def orThrow_def)

lemma plusE_ok:
  "bigVal E a = Some x \<Longrightarrow> bigVal E b = Some y \<Longrightarrow> plusE E a b s = (Inr (bigPlus E a b), s)"
  by (simp add: plusE_def bindE_app)

lemma minusE_ok:
  "bigVal E a = Some x \<Longrightarrow> bigVal E b = Some y \<Longrightarrow> minusE E a b s = (Inr (bigMinus E a b), s)"
  by (simp add: minusE_def bindE_app)

lemma timesE_ok: "bigVal E a = Some x \<Longrightarrow> timesE E a f s = (Inr (bigTimes E a f), s)"
  by (simp add: timesE_def bindE_app)

lemma ltE_ok: "bigVal E a = Some x \<Longrightarrow> bigVal E b = Some y \<Longrightarrow> ltE E a b s = (Inr (x < y), s)"
  by (simp add: ltE_def bindE_app)

lemma big_exact_zero: "big_exact E \<Longrightarrow> bigVal E ''0'' = Some 0"
  by (simp add: big_exact_def)

lemma big_exact_plus:
  "big_exact E \<Longrightarrow> bigVal E a = Some x \<Longrightarrow> bigVal E b = Some y \<Longrightarrow>
   bigVal E (bigPlus E a b) = Some (x + y)"
  by (simp add: big_exact_def)

lemma big_exact_minus:
  "big_exact E \<Longrightarrow> bigVal E a = Some x \<Longrightarrow> bigVal E b = Some y \<Longrightarrow>
   bigVal E (bigMinus E a b) = Some (x - y)"
  by (simp add: big_exact_def)

lemma big_exact_norm: "big_exact E \<Longrightarrow> bigVal E a = Some x \<Longrightarrow> bigVal E (bigNorm E a) = Some x"
  by (simp add: big_exact_def)

lemma times_exactD:
  "times_exact E \<Longrightarrow> bigVal E a = Some x \<Longrightarrow> six_digits f \<Longrightarrow> bigVal E (bigTimes E a f) = Some (x * f)"
  by (simp add: times_exact_def)

lemmas big_exact_rules = big_exact_zero big_exact_plus big_exact_minus big_exact_norm
lemmas big_ops_ok = plusE_ok minusE_ok timesE_ok ltE_ok

end
