(* ===== verification/Domain.thy ===== *)
theory Domain
  imports Prelude
begin

text \<open>
  The value types and pure rules of \<open>src/domain\<close> that several components share: money
  (\<open>money.ts\<close>), the capability taxonomy and its glob patterns (\<open>taxonomy.ts\<close>), delegation
  credentials (\<open>delegation.ts\<close>), passports (\<open>passport.ts\<close>), quotes (\<open>quote.ts\<close>), receipts
  (\<open>receipt.ts\<close>) and the signing envelope (\<open>envelope.ts\<close>). Amounts stay decimal strings; every
  arithmetic step goes through the big.js functions of \<open>ext\<close>.
\<close>

section \<open>Money\<close>

record money =
  amount :: string
  currency :: string

definition DEFAULT_CURRENCY :: string where
  "DEFAULT_CURRENCY = ''USDC''"

definition mZero :: "string \<Rightarrow> money" where
  "mZero c = \<lparr>amount = ''0'', currency = c\<rparr>"

definition mIsValidAmount :: "ext \<Rightarrow> string \<Rightarrow> bool" where
  "mIsValidAmount E a = (case bigVal E a of None \<Rightarrow> False | Some v \<Rightarrow> 0 \<le> v)"

definition mIsValid :: "ext \<Rightarrow> money \<Rightarrow> bool" where
  "mIsValid E m = mIsValidAmount E (amount m)"

definition mFromString :: "ext \<Rightarrow> string \<Rightarrow> string \<Rightarrow> ('s, money) exec" where
  "mFromString E a c =
     bindE (throwIf (\<not> mIsValidAmount E a) JsError) (\<lambda>_.
     bindE (bigE E a) (\<lambda>_. ret \<lparr>amount = bigNorm E a, currency = c\<rparr>))"

definition assertSameCurrency :: "money \<Rightarrow> money \<Rightarrow> ('s, unit) exec" where
  "assertSameCurrency a b = throwIf (currency a \<noteq> currency b) JsError"

definition mAdd :: "ext \<Rightarrow> money \<Rightarrow> money \<Rightarrow> ('s, money) exec" where
  "mAdd E a b =
     bindE (assertSameCurrency a b) (\<lambda>_.
     bindE (plusE E (amount a) (amount b)) (\<lambda>r. ret \<lparr>amount = r, currency = currency a\<rparr>))"

definition mSub :: "ext \<Rightarrow> money \<Rightarrow> money \<Rightarrow> ('s, money) exec" where
  "mSub E a b =
     bindE (assertSameCurrency a b) (\<lambda>_.
     bindE (minusE E (amount a) (amount b)) (\<lambda>r. ret \<lparr>amount = r, currency = currency a\<rparr>))"

definition mMul :: "ext \<Rightarrow> money \<Rightarrow> rat \<Rightarrow> ('s, money) exec" where
  "mMul E a f = bindE (timesE E (amount a) f) (\<lambda>r. ret \<lparr>amount = r, currency = currency a\<rparr>)"

definition mCmp :: "ext \<Rightarrow> money \<Rightarrow> money \<Rightarrow> ('s, int) exec" where
  "mCmp E a b =
     bindE (assertSameCurrency a b) (\<lambda>_.
     bindE (bigE E (amount a)) (\<lambda>x.
     bindE (bigE E (amount b)) (\<lambda>y. ret (if x < y then -1 else if x = y then 0 else 1))))"

definition mGte :: "ext \<Rightarrow> money \<Rightarrow> money \<Rightarrow> ('s, bool) exec" where
  "mGte E a b = bindE (mCmp E a b) (\<lambda>c. ret (c \<ge> 0))"

definition mGt :: "ext \<Rightarrow> money \<Rightarrow> money \<Rightarrow> ('s, bool) exec" where
  "mGt E a b = bindE (mCmp E a b) (\<lambda>c. ret (c > 0))"

definition mLte :: "ext \<Rightarrow> money \<Rightarrow> money \<Rightarrow> ('s, bool) exec" where
  "mLte E a b = bindE (mCmp E a b) (\<lambda>c. ret (c \<le> 0))"

definition mLt :: "ext \<Rightarrow> money \<Rightarrow> money \<Rightarrow> ('s, bool) exec" where
  "mLt E a b = bindE (mCmp E a b) (\<lambda>c. ret (c < 0))"

definition mEq :: "ext \<Rightarrow> money \<Rightarrow> money \<Rightarrow> ('s, bool) exec" where
  "mEq E a b = bindE (mCmp E a b) (\<lambda>c. ret (c = 0))"

definition mIsZero :: "ext \<Rightarrow> money \<Rightarrow> ('s, bool) exec" where
  "mIsZero E a = bindE (bigE E (amount a)) (\<lambda>x. ret (x = 0))"

definition mToString :: "ext \<Rightarrow> money \<Rightarrow> ('s, string) exec" where
  "mToString E m =
     bindE (bigE E (amount m)) (\<lambda>_. ret (bigNorm E (amount m) @ '' '' @ currency m))"

definition moneyJson :: "money \<Rightarrow> json" where
  "moneyJson m = JObj [(''amount'', JStr (amount m)), (''currency'', JStr (currency m))]"

lemma keeps_mCmp [keeps_rules]: "keeps P (mCmp E a b)"
  unfolding mCmp_def assertSameCurrency_def by (intro keeps_rules)

lemma keeps_mGt [keeps_rules]: "keeps P (mGt E a b)"
  unfolding mGt_def by (intro keeps_rules)

lemma keeps_mAdd [keeps_rules]: "keeps P (mAdd E a b)"
  unfolding mAdd_def assertSameCurrency_def by (intro keeps_rules)

lemma mGt_ok:
  "currency a = currency b \<Longrightarrow> bigVal E (amount a) = Some x \<Longrightarrow> bigVal E (amount b) = Some y \<Longrightarrow>
   mGt E a b s = (Inr (y < x), s)"
  by (simp add: mGt_def mCmp_def assertSameCurrency_def exec_simps)

lemma mGt_InrE:
  assumes "mGt E a b s = (Inr r, s')"
  obtains x y where "currency a = currency b" "bigVal E (amount a) = Some x"
    "bigVal E (amount b) = Some y" "r = (y < x)" "s' = s"
  using assms
  by (auto simp: mGt_def mCmp_def assertSameCurrency_def bigE_def exec_simps
      split: if_splits option.splits)

lemma mAdd_ok:
  "currency a = currency b \<Longrightarrow> bigVal E (amount a) = Some x \<Longrightarrow> bigVal E (amount b) = Some y \<Longrightarrow>
   mAdd E a b s = (Inr \<lparr>amount = bigPlus E (amount a) (amount b), currency = currency a\<rparr>, s)"
  by (simp add: mAdd_def assertSameCurrency_def exec_simps plusE_ok)

lemma mAdd_InrE:
  assumes "mAdd E a b s = (Inr r, s')"
  obtains x y where "currency a = currency b" "bigVal E (amount a) = Some x"
    "bigVal E (amount b) = Some y"
    "r = \<lparr>amount = bigPlus E (amount a) (amount b), currency = currency a\<rparr>" "s' = s"
  using assms
  by (auto simp: mAdd_def plusE_def assertSameCurrency_def bigE_def exec_simps
      split: if_splits option.splits)

section \<open>Strings\<close>

definition endsWith :: "string \<Rightarrow> string \<Rightarrow> bool" where
  "endsWith s t = (length t \<le> length s \<and> drop (length s - length t) s = t)"

definition startsWith :: "string \<Rightarrow> string \<Rightarrow> bool" where
  "startsWith s t = (take (length t) s = t)"

text \<open>\<open>s.split(c)\<close> for a one-character separator.\<close>

fun splitOn :: "char \<Rightarrow> string \<Rightarrow> string list" where
  "splitOn c [] = [[]]"
| "splitOn c (x # xs) =
     (if x = c then [] # splitOn c xs
      else (case splitOn c xs of [] \<Rightarrow> [[x]] | w # ws \<Rightarrow> (x # w) # ws))"

lemma splitOn_nonempty: "splitOn c s \<noteq> []"
  by (induction c s rule: splitOn.induct) (auto split: list.splits)

lemma splitOn_pieces: "w \<in> set (splitOn c s) \<Longrightarrow> c \<notin> set w"
  by (induction c s arbitrary: w rule: splitOn.induct)
    (auto split: if_splits list.splits simp: splitOn_nonempty)

lemma startsWith_append [simp]: "startsWith (s @ t) s"
  by (simp add: startsWith_def)

lemma startsWith_iff: "startsWith s t \<longleftrightarrow> (\<exists>u. s = t @ u)"
  unfolding startsWith_def by (metis append_eq_conv_conj append_take_drop_id)

lemma endsWith_iff: "endsWith s t \<longleftrightarrow> (\<exists>u. s = u @ t)"
  unfolding endsWith_def
  by (metis append_take_drop_id append_eq_conv_conj diff_diff_cancel diff_le_self
      length_append length_drop le_add2 add_diff_cancel_right')

section \<open>Taxonomy\<close>

text \<open>\<open>/^[a-z0-9]+(?:-[a-z0-9]+)*$/\<close>: hyphen-separated non-empty runs of \<open>[a-z0-9]\<close>.\<close>

definition lowerAlnum :: "char \<Rightarrow> bool" where
  "lowerAlnum c =
     (let n = (of_char c :: nat) in (97 \<le> n \<and> n \<le> 122) \<or> (48 \<le> n \<and> n \<le> 57))"

definition segmentOk :: "string \<Rightarrow> bool" where
  "segmentOk seg = list_all (\<lambda>w. w \<noteq> [] \<and> list_all lowerAlnum w) (splitOn (CHR ''-'') seg)"

definition validateTaxonomyId :: "string \<Rightarrow> bool" where
  "validateTaxonomyId i = (length i > 0 \<and> list_all segmentOk (splitOn (CHR ''.'') i))"

definition matchTaxonomy :: "string \<Rightarrow> string \<Rightarrow> bool" where
  "matchTaxonomy pattern i =
     (if pattern = ''*'' then True
      else if pattern = i then True
      else if endsWith pattern ''.*''
        then (let prefix = take (length pattern - 2) pattern
              in i = prefix \<or> startsWith i (prefix @ ''.''))
      else False)"

definition taxonomyAllowed :: "string \<Rightarrow> string list \<Rightarrow> string list \<Rightarrow> bool" where
  "taxonomyAllowed i allow deny =
     (if list_ex (\<lambda>p. matchTaxonomy p i) deny then False
      else list_ex (\<lambda>p. matchTaxonomy p i) allow)"

lemma matchTaxonomy_glob:
  "matchTaxonomy (p @ ''.*'') i \<longleftrightarrow> i = p @ ''.*'' \<or> i = p \<or> (\<exists>u. i = p @ ''.'' @ u)"
  by (auto simp: matchTaxonomy_def endsWith_def startsWith_iff Let_def)

section \<open>Delegation credentials\<close>

record spend_policy =
  per_tx_max :: money
  daily_max :: money
  total_max :: money

record messaging_policy =
  send_allowed :: bool
  max_postage_per_day :: string

record posting_policy =
  offers :: bool
  rfps :: bool
  max_post_spend_per_day :: string

record escrow_policy =
  may_commit :: bool
  max_escrow :: money

record delegation_policy =
  spend :: spend_policy
  categories_allow :: "string list"
  categories_deny :: "string list"
  counterparties_allow :: "string list"
  counterparties_deny :: "string list"
  require_human_approval_over :: money
  messaging :: messaging_policy
  posting :: posting_policy
  escrow_pol :: escrow_policy
  may_stake :: bool

record delegation =
  issuer :: string
  subject :: string
  policy :: delegation_policy
  issued :: string
  expires :: string
  revocation :: string
  del_sig :: string

text \<open>Comparing with NaN is false: an unparseable expiry is never expired here.\<close>

definition msLe :: "ext \<Rightarrow> string \<Rightarrow> string \<Rightarrow> bool" where
  "msLe E a b = (case dateMs E a of None \<Rightarrow> False
     | Some x \<Rightarrow> (case dateMs E b of None \<Rightarrow> False | Some y \<Rightarrow> x \<le> y))"

definition delegationIsExpired :: "ext \<Rightarrow> delegation \<Rightarrow> string \<Rightarrow> bool" where
  "delegationIsExpired E d nowIso = msLe E (expires d) nowIso"

section \<open>Passports\<close>

datatype kyc_level = Unverified | PrincipalVerified | Enhanced

record passport_key =
  key_id :: string
  key_pub :: string

record passport =
  did :: string
  controller :: string
  keys :: "passport_key list"
  services :: "(string \<times> string) list"
  delegation_ref :: "string option"
  kyc_level :: kyc_level
  pass_sig :: string

text \<open>The empty key id is falsy: it selects the first key too.\<close>

definition passportSigningKey :: "passport \<Rightarrow> string option \<Rightarrow> passport_key option" where
  "passportSigningKey p keyId =
     (case keyId of
        Some k \<Rightarrow> if k = [] then (case keys p of [] \<Rightarrow> None | x # _ \<Rightarrow> Some x)
                  else find (\<lambda>x. key_id x = k) (keys p)
      | None \<Rightarrow> (case keys p of [] \<Rightarrow> None | x # _ \<Rightarrow> Some x))"

section \<open>Quotes and receipts\<close>

record quote =
  quote_id :: string
  q_listing_id :: string
  listing_version :: string
  q_amount :: string
  q_currency :: string
  q_per :: string
  q_rail :: string
  requester :: string
  q_issued :: string
  q_expires :: string
  q_sig :: string

definition quoteIsExpired :: "ext \<Rightarrow> quote \<Rightarrow> string \<Rightarrow> bool" where
  "quoteIsExpired E q nowIso = msLe E (q_expires q) nowIso"

definition quoteMatchesListingVersion :: "quote \<Rightarrow> string \<Rightarrow> bool" where
  "quoteMatchesListingVersion q v = (listing_version q = v)"

datatype receipt_outcome = Delivered | Refunded | Partial | Disputed

record receipt =
  receipt_id :: string
  r_quote_id :: "string option"
  r_listing_id :: "string option"
  r_listing_version :: "string option"
  job_ref :: "string option"
  payer :: string
  payee :: string
  r_amount :: money
  rail :: string
  result_hash :: string
  latency_ms :: int
  outcome :: receipt_outcome
  settled_at :: string
  facilitator_sig :: string
  payee_sig :: string

fun outcomeText :: "receipt_outcome \<Rightarrow> string" where
  "outcomeText Delivered = ''delivered''"
| "outcomeText Refunded = ''refunded''"
| "outcomeText Partial = ''partial''"
| "outcomeText Disputed = ''disputed''"

text \<open>The receipt as the object that is signed and logged; \<open>job_ref\<close> is always present.\<close>

definition unsignedReceiptObj :: "receipt \<Rightarrow> (string \<times> json) list" where
  "unsignedReceiptObj r =
     [(''receipt_id'', JStr (receipt_id r)), (''quote_id'', nullable (r_quote_id r)),
      (''listing_id'', nullable (r_listing_id r)),
      (''listing_version'', nullable (r_listing_version r)),
      (''job_ref'', nullable (job_ref r)), (''payer'', JStr (payer r)),
      (''payee'', JStr (payee r)), (''amount'', moneyJson (r_amount r)),
      (''rail'', JStr (rail r)), (''result_hash'', JStr (result_hash r)),
      (''latency_ms'', JNum (of_int (latency_ms r))),
      (''outcome'', JStr (outcomeText (outcome r))), (''settled_at'', JStr (settled_at r))]"

definition receiptObj :: "receipt \<Rightarrow> (string \<times> json) list" where
  "receiptObj r = unsignedReceiptObj r @
     [(''facilitator_sig'', JStr (facilitator_sig r)), (''payee_sig'', JStr (payee_sig r))]"

section \<open>The signing envelope\<close>

definition stripForSigning :: "(string \<times> json) list \<Rightarrow> string list \<Rightarrow> (string \<times> json) list" where
  "stripForSigning obj omit = filter (\<lambda>(k, v). \<not> List.member omit k) obj"

lemma stripForSigning_idem: "stripForSigning (stripForSigning obj omit) omit = stripForSigning obj omit"
  by (simp add: stripForSigning_def)

lemma stripForSigning_receipt:
  "stripForSigning (receiptObj r) [''facilitator_sig'', ''payee_sig''] = unsignedReceiptObj r"
  by (simp add: stripForSigning_def receiptObj_def unsignedReceiptObj_def)

end
