(* ===== verification/Samples.thy ===== *)
theory Samples
  imports Domain
begin

text \<open>
  A concrete instance of the third-party functions, \<open>demo\<close>, used by the theorems that apply a
  property at concrete inputs. Numbers are written \<open>12\<close>, \<open>-3\<close>, \<open>0.5\<close> or \<open>7/2\<close>, instants as their
  milliseconds, hashes are the identity, the encoding escapes dots, the signature of a message under a key is
  the key and the message. It satisfies every hypothesis on \<open>ext\<close> that the development uses.
\<close>

section \<open>Numerals\<close>

definition digit :: "nat \<Rightarrow> char" where
  "digit n = char_of (48 + n)"

definition digitVal :: "char \<Rightarrow> nat option" where
  "digitVal c = (let n = of_char c in if 48 \<le> n \<and> n \<le> (57 :: nat) then Some (n - 48) else None)"

fun showNat :: "nat \<Rightarrow> string" where
  "showNat n = (if n < 10 then [digit n] else showNat (n div 10) @ [digit (n mod 10)])"

declare showNat.simps [simp del]

fun readDigits :: "nat \<Rightarrow> string \<Rightarrow> nat option" where
  "readDigits acc [] = Some acc"
| "readDigits acc (c # cs) =
     (case digitVal c of None \<Rightarrow> None | Some d \<Rightarrow> readDigits (10 * acc + d) cs)"

definition readNat :: "string \<Rightarrow> nat option" where
  "readNat s = (if s = [] then None else readDigits 0 s)"

definition showInt :: "int \<Rightarrow> string" where
  "showInt i = (if i < 0 then CHR ''-'' # showNat (nat (- i)) else showNat (nat i))"

definition readInt :: "string \<Rightarrow> int option" where
  "readInt s =
     (case s of
        [] \<Rightarrow> None
      | c # cs \<Rightarrow> if c = CHR ''-'' then map_option (\<lambda>n. - int n) (readNat cs)
                 else map_option int (readNat s))"

definition showRat :: "rat \<Rightarrow> string" where
  "showRat q =
     (case quotient_of q of
        (a, b) \<Rightarrow> if b = 1 then showInt a else showInt a @ ''/'' @ showInt b)"

text \<open>An integer, or digits around a decimal point.\<close>

definition readDec :: "string \<Rightarrow> rat option" where
  "readDec s =
     (case readInt s of
        Some i \<Rightarrow> Some (of_int i)
      | None \<Rightarrow>
          (case splitOn (CHR ''.'') s of
             [a, b] \<Rightarrow>
               (case (readNat a, readNat b) of
                  (Some x, Some y) \<Rightarrow> Some (of_nat x + of_nat y / 10 ^ length b)
                | _ \<Rightarrow> None)
           | _ \<Rightarrow> None))"

definition readRat :: "string \<Rightarrow> rat option" where
  "readRat s =
     (case splitOn (CHR ''/'') s of
        [a] \<Rightarrow> readDec a
      | [a, b] \<Rightarrow>
          (case (readInt a, readInt b) of
             (Some x, Some y) \<Rightarrow> if y = 0 then None else Some (of_int x / of_int y)
           | _ \<Rightarrow> None)
      | _ \<Rightarrow> None)"

lemma of_char_digit: "n < 10 \<Longrightarrow> of_char (digit n) = (48 + n :: nat)"
  by (simp add: digit_def)

lemma digitVal_digit [simp]: "n < 10 \<Longrightarrow> digitVal (digit n) = Some n"
  by (simp add: digitVal_def of_char_digit)

lemma digitVal_sign [simp]: "digitVal (CHR ''-'') = None" "digitVal (CHR ''/'') = None"
  by (simp_all add: digitVal_def)

lemma digit_no_sign [simp]: "n < 10 \<Longrightarrow> digit n \<noteq> CHR ''-''" "n < 10 \<Longrightarrow> digit n \<noteq> CHR ''/''"
  by (metis digitVal_digit digitVal_sign(1) option.distinct(1))
    (metis digitVal_digit digitVal_sign(2) option.distinct(1))

lemma showNat_digits: "c \<in> set (showNat n) \<Longrightarrow> \<exists>d < 10. c = digit d"
proof (induction n rule: showNat.induct)
  case (1 n)
  show ?case
  proof (cases "n < 10")
    case True
    with 1 show ?thesis by (auto simp: showNat.simps [of n])
  next
    case False
    with 1 show ?thesis by (auto simp: showNat.simps [of n] intro: exI [of _ "n mod 10"])
  qed
qed

lemma showNat_no_sign [simp]: "CHR ''-'' \<notin> set (showNat n)" "CHR ''/'' \<notin> set (showNat n)"
  using showNat_digits [of _ n] digit_no_sign by metis+

lemma showNat_nonempty [simp]: "showNat n \<noteq> []"
  by (simp add: showNat.simps [of n])

lemma readDigits_append:
  "readDigits acc (xs @ ys) = (case readDigits acc xs of None \<Rightarrow> None | Some a \<Rightarrow> readDigits a ys)"
  by (induction acc xs rule: readDigits.induct) (auto split: option.split)

lemma readDigits_showNat: "readDigits 0 (showNat n) = Some n"
proof (induction n rule: showNat.induct)
  case (1 n)
  show ?case
  proof (cases "n < 10")
    case True
    then show ?thesis by (simp add: showNat.simps [of n])
  next
    case False
    with 1 show ?thesis by (simp add: showNat.simps [of n] readDigits_append)
  qed
qed

lemma readNat_showNat [simp]: "readNat (showNat n) = Some n"
  by (simp add: readNat_def readDigits_showNat)

lemma showNat_hd [simp]: "showNat n \<noteq> CHR ''-'' # xs"
  using showNat_no_sign(1) [of n] by (metis list.set_intros(1))

lemma readInt_showInt [simp]: "readInt (showInt i) = Some i"
proof (cases "i < 0")
  case True
  then show ?thesis by (simp add: readInt_def showInt_def)
next
  case False
  obtain c cs where c: "showNat (nat i) = c # cs" by (cases "showNat (nat i)") auto
  then have "c \<noteq> CHR ''-''" using showNat_hd [of "nat i" cs] by auto
  then show ?thesis using False c readNat_showNat [of "nat i"] by (simp add: readInt_def showInt_def)
qed

lemma showInt_no_slash: "CHR ''/'' \<notin> set (showInt i)"
  by (simp add: showInt_def)

lemma splitOn_none: "c \<notin> set s \<Longrightarrow> splitOn c s = [s]"
  by (induction c s rule: splitOn.induct) auto

lemma splitOn_sep: "c \<notin> set s \<Longrightarrow> splitOn c (s @ c # t) = s # splitOn c t"
  by (induction c s rule: splitOn.induct) auto

lemma readRat_showRat [simp]: "readRat (showRat q) = Some q"
proof -
  obtain a b where q: "quotient_of q = (a, b)" by (cases "quotient_of q")
  then have b: "b \<noteq> 0" and val: "q = of_int a / of_int b"
    using quotient_of_denom_pos quotient_of_div by fastforce+
  have "splitOn (CHR ''/'') (showInt a @ ''/'' @ showInt b) = [showInt a, showInt b]"
    using splitOn_sep [OF showInt_no_slash, of a "showInt b"]
    by (simp add: splitOn_none [OF showInt_no_slash])
  then show ?thesis
    using b val q by (simp add: readRat_def readDec_def showRat_def splitOn_none [OF showInt_no_slash])
qed

lemma showNat_inj: "showNat m = showNat n \<Longrightarrow> m = n"
  by (metis option.inject readNat_showNat)

section \<open>The instance\<close>

definition ratOf :: "string \<Rightarrow> rat" where
  "ratOf s = (case readRat s of None \<Rightarrow> 0 | Some q \<Rightarrow> q)"

text \<open>A JSON printer: strings in quotes, the members of objects and arrays in braces.\<close>

fun showJson :: "json \<Rightarrow> string" and showJsons :: "json list \<Rightarrow> string"
  and showMembers :: "(string \<times> json) list \<Rightarrow> string" where
  "showJson JNull = ''null''"
| "showJson (JBool b) = (if b then ''true'' else ''false'')"
| "showJson (JNum q) = showRat q"
| "showJson (JStr s) = CHR 0x22 # s @ [CHR 0x22]"
| "showJson (JArr xs) = ''['' @ showJsons xs @ '']''"
| "showJson (JObj ms) = ''{'' @ showMembers ms @ ''}''"
| "showJsons [] = []"
| "showJsons (x # xs) = showJson x @ '','' @ showJsons xs"
| "showMembers [] = []"
| "showMembers ((k, v) # ms) = k @ '':'' @ showJson v @ '','' @ showMembers ms"

text \<open>An encoding without dots, and a parser for the one JSON text the program reads back.\<close>

fun hideDots :: "string \<Rightarrow> string" where
  "hideDots [] = []"
| "hideDots (c # cs) =
     (if c = CHR ''.'' then ''-d'' else if c = CHR ''-'' then ''--'' else [c]) @ hideDots cs"

fun showDots :: "string \<Rightarrow> string" where
  "showDots (a # b # cs) =
     (if a = CHR ''-'' then (if b = CHR ''d'' then CHR ''.'' else CHR ''-'') # showDots cs
      else a # showDots (b # cs))"
| "showDots cs = cs"

lemma hideDots_no_dot: "CHR ''.'' \<notin> set (hideDots s)"
  by (induction s) auto

lemma showDots_Cons: "c \<noteq> CHR ''-'' \<Longrightarrow> showDots (c # s) = c # showDots s"
  by (cases s) auto

lemma showDots_hideDots [simp]: "showDots (hideDots s) = s"
  by (induction s) (auto simp: showDots_Cons)

definition headText :: "string \<Rightarrow> string" where
  "headText kid = showJson (JObj [(''alg'', JStr ''EdDSA''), (''kid'', JStr kid)])"

definition readHead :: "string \<Rightarrow> json option" where
  "readHead s =
     (let pre = ''{alg:'' @ CHR 0x22 # ''EdDSA'' @ CHR 0x22 # '',kid:'' @ [CHR 0x22];
          suf = CHR 0x22 # '',}'';
          kid = take (length s - length pre - length suf) (drop (length pre) s)
      in if s = pre @ kid @ suf then Some (JObj [(''alg'', JStr ''EdDSA''), (''kid'', JStr kid)])
         else None)"

lemma readHead_headText [simp]:
  "readHead (headText kid) = Some (JObj [(''alg'', JStr ''EdDSA''), (''kid'', JStr kid)])"
  by (simp add: readHead_def headText_def Let_def)

definition demo :: ext where
  "demo = \<lparr>
     bigVal = readRat,
     bigPlus = (\<lambda>a b. showRat (ratOf a + ratOf b)),
     bigMinus = (\<lambda>a b. showRat (ratOf a - ratOf b)),
     bigTimes = (\<lambda>a f. showRat (ratOf a * f)),
     bigNorm = (\<lambda>a. showRat (ratOf a)),
     bigShare = (\<lambda>a b. of_int \<lfloor>ratOf a * 1000000 / ratOf b + 1 / 2\<rfloor> / 1000000),
     bigRatio = (\<lambda>a b. ratOf a / ratOf b),
     numberOf = readRat,
     dateMs = readInt,
     isoOf = showInt,
     ulid = showNat,
     canon = showJson,
     sha256 = (\<lambda>s. s),
     hexOf = (\<lambda>s. s),
     hexBytes = (\<lambda>s. s),
     b64uOf = hideDots,
     b64uBytes = showDots,
     jsonText = showJson,
     jsonParse = readHead,
     edSign = (\<lambda>sk msg. sk @ ''|'' @ msg),
     edVerify = (\<lambda>sig msg pk. sig = pk @ ''|'' @ msg)\<rparr>"

lemma demo_sel [simp]:
  "bigVal demo = readRat" "bigPlus demo a b = showRat (ratOf a + ratOf b)"
  "bigMinus demo a b = showRat (ratOf a - ratOf b)" "bigTimes demo a f = showRat (ratOf a * f)"
  "bigNorm demo a = showRat (ratOf a)" "dateMs demo = readInt" "isoOf demo = showInt"
  "ulid demo = showNat" "canon demo = showJson" "sha256 demo s = s" "hexOf demo s = s"
  "hexBytes demo s = s" "b64uOf demo = hideDots" "b64uBytes demo = showDots"
  "jsonText demo = showJson" "jsonParse demo = readHead" "edSign demo sk m = sk @ ''|'' @ m"
  "edVerify demo sg m pk = (sg = pk @ ''|'' @ m)"
  by (simp_all add: demo_def)

lemma ratOf_Some [simp]: "readRat s = Some q \<Longrightarrow> ratOf s = q"
  by (simp add: ratOf_def)

lemma demo_big_exact: "big_exact demo"
proof -
  have "readRat ''0'' = Some 0" by code_simp
  then show ?thesis by (simp add: big_exact_def)
qed

lemma demo_times_exact: "times_exact demo"
  by (simp add: times_exact_def)

lemma demo_ulid_fresh: "ulid_fresh demo"
  using showNat_inj by (auto simp: ulid_fresh_def)

end
