(* ===== verification/Merkle.thy ===== *)
theory Merkle
  imports Domain Samples
begin

text \<open>
  Hashing and the Merkle tree of \<open>src/shared/crypto\<close> (\<open>hash.ts\<close>, \<open>canonicalize.ts\<close>,
  \<open>merkle.ts\<close>). SHA-256, the hex codec and the canonical form are functions of \<open>ext\<close>. Nothing
  is assumed about the hash: where two inputs would have to collide, the collision is a case of
  the conclusion.
\<close>

section \<open>Hashes\<close>

definition sha256Hex :: "ext \<Rightarrow> string \<Rightarrow> string" where
  "sha256Hex E s = hexOf E (sha256 E s)"

definition sha256Canonical :: "ext \<Rightarrow> json \<Rightarrow> string" where
  "sha256Canonical E v = sha256Hex E (canon E v)"

definition hashChain :: "ext \<Rightarrow> string \<Rightarrow> json \<Rightarrow> string" where
  "hashChain E prev v = sha256Hex E (prev @ canon E v)"

definition sha256Tagged :: "ext \<Rightarrow> string \<Rightarrow> string" where
  "sha256Tagged E s = ''sha256:'' @ sha256Hex E s"

definition hashPair :: "ext \<Rightarrow> string \<Rightarrow> string \<Rightarrow> string" where
  "hashPair E a b = hexOf E (sha256 E (hexBytes E a @ hexBytes E b))"

section \<open>The tree\<close>

text \<open>The inner loop: one level to the next, the last node of an odd level paired with itself.\<close>

fun nextLevel :: "ext \<Rightarrow> string list \<Rightarrow> string list" where
  "nextLevel E [] = []"
| "nextLevel E [a] = [hashPair E a a]"
| "nextLevel E (a # b # rest) = hashPair E a b # nextLevel E rest"

lemma length_nextLevel: "length (nextLevel E xs) = (length xs + 1) div 2"
  by (induction E xs rule: nextLevel.induct) auto

text \<open>The outer loop, \<open>while (level.length > 1)\<close>.\<close>

function rootLoop :: "ext \<Rightarrow> string list \<Rightarrow> string" where
  "rootLoop E level = (if length level > 1 then rootLoop E (nextLevel E level) else level ! 0)"
  by auto
termination
  by (relation "measure (\<lambda>(E, level). length level)") (auto simp: length_nextLevel)

declare rootLoop.simps [simp del]

definition merkleRoot :: "ext \<Rightarrow> string list \<Rightarrow> string" where
  "merkleRoot E leaves = (if length leaves = 0 then hexOf E (sha256 E '''') else rootLoop E leaves)"

datatype side = SideLeft | SideRight

record proof_step =
  sibling :: string
  position :: side

function proofLoop :: "ext \<Rightarrow> string list \<Rightarrow> nat \<Rightarrow> proof_step list" where
  "proofLoop E level idx =
     (if length level > 1 then
        (let isRightNode = (idx mod 2 = 1);
             siblingIdx = (if isRightNode then idx - 1 else idx + 1);
             sib = (if siblingIdx < length level then level ! siblingIdx else level ! idx)
         in \<lparr>sibling = sib, position = (if isRightNode then SideLeft else SideRight)\<rparr>
            # proofLoop E (nextLevel E level) (idx div 2))
      else [])"
  by auto
termination
  by (relation "measure (\<lambda>(E, level, idx). length level)") (auto simp: length_nextLevel)

declare proofLoop.simps [simp del]

definition merkleProof :: "ext \<Rightarrow> string list \<Rightarrow> int \<Rightarrow> app_error + proof_step list" where
  "merkleProof E leaves index =
     (if index < 0 \<or> index \<ge> int (length leaves) then Inl JsError
      else Inr (proofLoop E leaves (nat index)))"

fun verifyLoop :: "ext \<Rightarrow> string \<Rightarrow> proof_step list \<Rightarrow> string" where
  "verifyLoop E computed [] = computed"
| "verifyLoop E computed (st # sts) =
     verifyLoop E
       (case position st of
          SideLeft \<Rightarrow> hashPair E (sibling st) computed
        | SideRight \<Rightarrow> hashPair E computed (sibling st)) sts"

definition verifyProof :: "ext \<Rightarrow> string \<Rightarrow> proof_step list \<Rightarrow> string \<Rightarrow> bool" where
  "verifyProof E leaf prf expected = (verifyLoop E leaf prf = expected)"

section \<open>Lemmas\<close>

lemma rootLoop_one: "length xs \<le> 1 \<Longrightarrow> rootLoop E xs = xs ! 0"
  by (simp add: rootLoop.simps [of E xs])

lemma rootLoop_more: "length xs > 1 \<Longrightarrow> rootLoop E xs = rootLoop E (nextLevel E xs)"
  by (simp add: rootLoop.simps [of E xs])

lemma nextLevel_nth:
  "2 * i + 1 < length xs \<Longrightarrow> nextLevel E xs ! i = hashPair E (xs ! (2 * i)) (xs ! (2 * i + 1))"
proof (induction E xs arbitrary: i rule: nextLevel.induct)
  case (3 E a b rest)
  then show ?case by (cases i) auto
qed auto

lemma nextLevel_nth_last:
  "2 * i + 1 = length xs \<Longrightarrow> nextLevel E xs ! i = hashPair E (xs ! (2 * i)) (xs ! (2 * i))"
proof (induction E xs arbitrary: i rule: nextLevel.induct)
  case (3 E a b rest)
  show ?case
  proof (cases i)
    case (Suc j)
    then have "2 * j + 1 = length rest" using "3.prems" by simp
    moreover from this have "length rest = Suc (2 * j)" by simp
    ultimately show ?thesis using "3.IH" [of j] Suc by simp
  qed (use "3.prems" in simp)
qed auto

lemma proof_step_correct:
  assumes "idx < length level"
  shows "nextLevel E level ! (idx div 2) =
    (let isRightNode = (idx mod 2 = 1);
         siblingIdx = (if isRightNode then idx - 1 else idx + 1);
         sib = (if siblingIdx < length level then level ! siblingIdx else level ! idx)
     in if isRightNode then hashPair E sib (level ! idx) else hashPair E (level ! idx) sib)"
proof (cases "idx mod 2 = 1")
  case True
  then have i: "idx = 2 * (idx div 2) + 1" by presburger
  then have "nextLevel E level ! (idx div 2) = hashPair E (level ! (2 * (idx div 2))) (level ! idx)"
    using nextLevel_nth [of "idx div 2" level E] assms by simp
  moreover have "idx - 1 = 2 * (idx div 2)" "2 * (idx div 2) < length level" using i assms by simp_all
  ultimately show ?thesis using True assms by (simp add: Let_def)
next
  case False
  then have i: "idx = 2 * (idx div 2)" by presburger
  show ?thesis
  proof (cases "idx + 1 < length level")
    case True
    then show ?thesis using False nextLevel_nth [of "idx div 2" level E] i by (simp add: Let_def)
  next
    case edge: False
    then have "2 * (idx div 2) + 1 = length level" using i assms by simp
    then show ?thesis using False edge nextLevel_nth_last [of "idx div 2" level E] i by (simp add: Let_def)
  qed
qed

lemma proofLoop_verifies:
  "idx < length level \<Longrightarrow> verifyLoop E (level ! idx) (proofLoop E level idx) = rootLoop E level"
proof (induction E level idx rule: proofLoop.induct)
  case (1 E level idx)
  show ?case
  proof (cases "length level > 1")
    case True
    have "idx div 2 < length (nextLevel E level)"
      using "1.prems" unfolding length_nextLevel by presburger
    then have IH: "verifyLoop E (nextLevel E level ! (idx div 2)) (proofLoop E (nextLevel E level) (idx div 2))
        = rootLoop E (nextLevel E level)"
      using 1 True by (auto simp: Let_def)
    show ?thesis
      using IH True rootLoop_more [OF True, of E] proof_step_correct [OF "1.prems", of E]
      by (subst proofLoop.simps) (auto simp: Let_def)
  next
    case False
    then have "idx = 0" using "1.prems" by simp
    with False show ?thesis by (simp add: proofLoop.simps [of E level] rootLoop.simps [of E level])
  qed
qed

text \<open>Two different pairs of nodes with the same parent.\<close>

definition pairCollision :: "ext \<Rightarrow> bool" where
  "pairCollision E \<longleftrightarrow> (\<exists>a b a' b'. (a, b) \<noteq> (a', b') \<and> hashPair E a b = hashPair E a' b')"

lemma nextLevel_inj:
  "length xs = length ys \<Longrightarrow> nextLevel E xs = nextLevel E ys \<Longrightarrow> xs = ys \<or> pairCollision E"
proof (induction E xs arbitrary: ys rule: nextLevel.induct)
  case (1 E)
  then show ?case by simp
next
  case (2 E a)
  then obtain b where "ys = [b]" by (cases ys) auto
  with 2 show ?case by (auto simp: pairCollision_def)
next
  case (3 E a b rest)
  then obtain c d rest' where ys: "ys = c # d # rest'" by (cases ys; cases "tl ys") auto
  with 3 have "rest = rest' \<or> pairCollision E" "hashPair E a b = hashPair E c d" by auto
  with ys show ?case unfolding pairCollision_def by blast
qed

lemma rootLoop_inj:
  "length xs = length ys \<Longrightarrow> rootLoop E xs = rootLoop E ys \<Longrightarrow> xs = ys \<or> pairCollision E"
proof (induction E xs arbitrary: ys rule: rootLoop.induct)
  case (1 E level)
  show ?case
  proof (cases "length level > 1")
    case True
    have "length (nextLevel E level) = length (nextLevel E ys)"
      using "1.prems"(1) by (simp add: length_nextLevel)
    then have "nextLevel E level = nextLevel E ys \<or> pairCollision E"
      using "1.IH" [OF True] rootLoop_more [OF True] rootLoop_more [of ys E] True "1.prems" by metis
    then show ?thesis using nextLevel_inj "1.prems"(1) by blast
  next
    case False
    then show ?thesis using "1.prems" rootLoop_one [of level E] rootLoop_one [of ys E]
      by (cases level; cases ys) auto
  qed
qed

lemma nextLevel_dup: "odd (length xs) \<Longrightarrow> nextLevel E (xs @ [last xs]) = nextLevel E xs"
  by (induction E xs rule: nextLevel.induct) auto

section \<open>How long the loops run\<close>

text \<open>The level after a number of rounds, and the number of rounds of a tree: \<open>k\<close> halvings reach one node.\<close>

definition levelAfter :: "ext \<Rightarrow> nat \<Rightarrow> string list \<Rightarrow> string list" where
  "levelAfter E k level = (nextLevel E ^^ k) level"

definition roundsFor :: "nat \<Rightarrow> nat \<Rightarrow> bool" where
  "roundsFor n k \<longleftrightarrow> n \<le> 2 ^ k \<and> (k = 0 \<or> 2 ^ (k - 1) < n)"

lemma levelAfter_0 [simp]: "levelAfter E 0 level = level"
  by (simp add: levelAfter_def)

lemma levelAfter_Suc [simp]: "levelAfter E (Suc k) level = levelAfter E k (nextLevel E level)"
  by (simp add: levelAfter_def funpow_swap1)

lemma roundsFor_halve:
  assumes "1 < n" "roundsFor ((n + 1) div 2) k"
  shows "roundsFor n (Suc k)"
proof (cases k)
  case 0
  then show ?thesis using assms by (simp add: roundsFor_def)
next
  case (Suc j)
  then have "(n + 1) div 2 \<le> 2 * 2 ^ j" "2 ^ j < (n + 1) div 2" using assms(2) by (simp_all add: roundsFor_def)
  then have "n \<le> 4 * 2 ^ j" "2 * 2 ^ j < n" by linarith+
  then show ?thesis using Suc by (simp add: roundsFor_def)
qed

lemma loop_rounds:
  "level \<noteq> [] \<Longrightarrow> \<exists>k. roundsFor (length level) k \<and> (\<forall>j < k. 1 < length (levelAfter E j level)) \<and>
     length (levelAfter E k level) = 1 \<and> rootLoop E level = levelAfter E k level ! 0 \<and>
     (\<forall>idx. length (proofLoop E level idx) = k)"
proof (induction E level rule: rootLoop.induct)
  case (1 E level)
  show ?case
  proof (cases "length level > 1")
    case True
    have "nextLevel E level \<noteq> []" using True length_nextLevel [of E level] by auto
    with 1 True obtain k where k: "roundsFor (length (nextLevel E level)) k"
        "\<forall>j < k. 1 < length (levelAfter E j (nextLevel E level))" "length (levelAfter E k (nextLevel E level)) = 1"
        "rootLoop E (nextLevel E level) = levelAfter E k (nextLevel E level) ! 0"
        "\<forall>idx. length (proofLoop E (nextLevel E level) idx) = k"
      by blast
    have "\<forall>j < Suc k. 1 < length (levelAfter E j level)" using k(2) True by (simp add: All_less_Suc2)
    moreover have "\<forall>idx. length (proofLoop E level idx) = Suc k"
      using k(5) True by (simp add: proofLoop.simps [of E level] Let_def)
    moreover have "roundsFor (length level) (Suc k)"
      using roundsFor_halve [OF True] k(1) by (simp add: length_nextLevel)
    ultimately show ?thesis using k(3,4) rootLoop_more [OF True]
      by (intro exI [of _ "Suc k"]) simp
  next
    case False
    then have "length level = 1" using "1.prems" by (cases level) auto
    then show ?thesis using rootLoop_one [of level E]
      by (intro exI [of _ 0]) (simp add: roundsFor_def proofLoop.simps [of E level])
  qed
qed

section \<open>Properties\<close>

text \<open>
  Claim C32. Inclusion proofs are complete: for every leaf of every tree, the proof the code builds
  for its index verifies against the root of the tree; an index outside the tree, below zero or
  past the last leaf, is an error.
\<close>

theorem merkle_proof_verifies:
  "if 0 \<le> index \<and> index < int (length leaves)
   then \<exists>prf. merkleProof E leaves index = Inr prf \<and>
     verifyProof E (leaves ! nat index) prf (merkleRoot E leaves)
   else merkleProof E leaves index = Inl JsError"
proof (cases "0 \<le> index \<and> index < int (length leaves)")
  case True
  then show ?thesis using proofLoop_verifies [of "nat index" leaves E]
    by (auto simp: merkleProof_def verifyProof_def merkleRoot_def)
next
  case False
  then show ?thesis by (auto simp: merkleProof_def)
qed

lemma merkle_proof_verifies_witness:
  "(\<exists>prf. merkleProof demo [''a'', ''b'', ''c''] 2 = Inr prf \<and>
     verifyProof demo ''c'' prf (merkleRoot demo [''a'', ''b'', ''c''])) \<and>
   merkleProof demo [''a'', ''b'', ''c''] 3 = Inl JsError \<and> merkleProof demo [''a''] (- 1) = Inl JsError"
  using merkle_proof_verifies [of 2 "[''a'', ''b'', ''c'']" demo] merkle_proof_verifies [of 3 "[''a'', ''b'', ''c'']" demo]
    merkle_proof_verifies [of "- 1" "[''a'']" demo] by simp

text \<open>
  The root binds the leaves: two leaf lists of the same length with the same root are
  equal, or the code's pair hash has two different preimages of one value.
\<close>

theorem merkle_root_binds:
  assumes "length xs = length ys" "merkleRoot E xs = merkleRoot E ys"
  shows "xs = ys \<or>
    (\<exists>a b a' b'. (a, b) \<noteq> (a', b') \<and> hashPair E a b = hashPair E a' b')"
  using rootLoop_inj [OF assms(1), of E] assms
  by (auto simp: merkleRoot_def pairCollision_def split: if_splits)

lemma merkle_root_binds_witness:
  "[''a'', ''b''] = [''a'', ''b''] \<or>
    (\<exists>a b a' b'. (a, b) \<noteq> (a', b') \<and> hashPair demo a b = hashPair demo a' b')"
  by (rule merkle_root_binds) simp_all

text \<open>
  The root does not bind the number of leaves: appending a copy of the last leaf to a
  tree with an odd number of leaves (three or more) leaves the root unchanged.
\<close>

theorem merkle_root_ignores_duplicate:
  assumes "odd (length xs)" "length xs \<ge> 3"
  shows "merkleRoot E (xs @ [last xs]) = merkleRoot E xs"
proof -
  have "rootLoop E (xs @ [last xs]) = rootLoop E (nextLevel E xs)"
    using rootLoop_more [of "xs @ [last xs]" E] nextLevel_dup [OF assms(1), of E] assms(2)
    by (cases "xs = []") auto
  also have "\<dots> = rootLoop E xs" using rootLoop_more [of xs E] assms(2) by simp
  finally show ?thesis using assms(2) by (cases "xs = []") (auto simp: merkleRoot_def)
qed

lemma merkle_root_ignores_duplicate_witness:
  "merkleRoot demo [''a'', ''b'', ''c'', ''c''] = merkleRoot demo [''a'', ''b'', ''c'']"
  using merkle_root_ignores_duplicate [of "[''a'', ''b'', ''c'']" demo] by simp

text \<open>
  Claim C33. Building a tree terminates after exactly as many rounds as it takes to halve the leaves down
  to one, rounding up (the logarithm to base two of their number): every level before has more than
  one node, the level after the last round is the root alone, and every inclusion proof has that
  many steps.
\<close>

theorem merkle_rounds:
  assumes "leaves \<noteq> []"
  shows "\<exists>k. length leaves \<le> 2 ^ k \<and> (k = 0 \<or> 2 ^ (k - 1) < length leaves) \<and>
    (\<forall>j < k. 1 < length ((nextLevel E ^^ j) leaves)) \<and>
    (nextLevel E ^^ k) leaves = [merkleRoot E leaves] \<and>
    (\<forall>i < length leaves. \<exists>prf. merkleProof E leaves (int i) = Inr prf \<and> length prf = k)"
proof -
  obtain k where k: "roundsFor (length leaves) k" "\<forall>j < k. 1 < length (levelAfter E j leaves)"
      "length (levelAfter E k leaves) = 1" "rootLoop E leaves = levelAfter E k leaves ! 0"
      "\<forall>idx. length (proofLoop E leaves idx) = k"
    using loop_rounds [OF assms] by blast
  have "levelAfter E k leaves = [merkleRoot E leaves]"
    using k(3,4) assms by (cases "levelAfter E k leaves") (auto simp: merkleRoot_def)
  then show ?thesis using k by (intro exI [of _ k]) (simp add: roundsFor_def levelAfter_def merkleProof_def)
qed

lemma merkle_rounds_witness:
  "\<exists>k. (nextLevel demo ^^ k) [''a'', ''b'', ''c''] = [merkleRoot demo [''a'', ''b'', ''c'']]"
  using merkle_rounds [of "[''a'', ''b'', ''c'']" demo] by blast

end
