(* ===== verification/Ports.thy ===== *)
theory Ports
  imports Domain
begin

text \<open>
  The contracts of \<open>src/shared/ports\<close> that the clients of a component rely on, as locales, with
  what the clients derive from them. \<open>value_port\<close> and \<open>hold_port\<close> are \<open>ValueTransferPort\<close>
  (settlement rails, escrow, stake and mailroom are its clients, the wallet provides it).
  \<open>single_use\<close> is a store of marks that are consumed once (replay nonces, approvals).
  \<open>hash_log\<close> is an append-only log whose entries are linked by hashes (the transparency log and
  the board).
\<close>

section \<open>Value transfer\<close>

locale value_port =
  fixes ok :: "'s \<Rightarrow> bool"
    and val :: "string \<Rightarrow> rat option"
    and acct :: "string \<Rightarrow> string \<Rightarrow> 'k"
    and avail :: "'s \<Rightarrow> 'k \<Rightarrow> rat"
    and funds :: "string \<Rightarrow> 's \<Rightarrow> rat"
    and inCur :: "string \<Rightarrow> string \<Rightarrow> bool"
    and credit_p :: "string \<Rightarrow> money \<Rightarrow> ('s, unit) exec"
    and debit_p :: "string \<Rightarrow> money \<Rightarrow> ('s, unit) exec"
  assumes credit_ok: "ok s \<Longrightarrow> val (amount m) = Some v \<Longrightarrow> 0 < v \<Longrightarrow>
      \<exists>s'. credit_p d m s = (Inr (), s') \<and> ok s' \<and>
        (\<forall>k. avail s' k = avail s k + (if k = acct d (currency m) then v else 0)) \<and>
        (\<forall>c. funds c s' = funds c s + (if inCur (currency m) c then v else 0))"
    and debit_ok: "ok s \<Longrightarrow> val (amount m) = Some v \<Longrightarrow> 0 < v \<Longrightarrow> v \<le> avail s (acct d (currency m)) \<Longrightarrow>
      \<exists>s'. debit_p d m s = (Inr (), s') \<and> ok s' \<and>
        (\<forall>k. avail s' k = avail s k - (if k = acct d (currency m) then v else 0)) \<and>
        (\<forall>c. funds c s' = funds c s - (if inCur (currency m) c then v else 0))"
    and debit_bad: "ok s \<Longrightarrow>
      \<nexists>v. val (amount m) = Some v \<and> 0 < v \<and> v \<le> avail s (acct d (currency m)) \<Longrightarrow>
      \<exists>e s'. debit_p d m s = (Inl e, s') \<and> ok s' \<and> (\<forall>k. avail s' k = avail s k) \<and>
        (\<forall>c. funds c s' = funds c s)"
begin

text \<open>A debit followed by a credit of the same amount is a transfer: it happens in full or not at all.\<close>

lemma transfer_ok:
  assumes "ok s" "val (amount m) = Some v" "0 < v" "v \<le> avail s (acct p (currency m))"
  obtains s' where "bindE (debit_p p m) (\<lambda>_. credit_p q m) s = (Inr (), s')" "ok s'"
    "\<And>k. avail s' k = avail s k - (if k = acct p (currency m) then v else 0)
       + (if k = acct q (currency m) then v else 0)"
    "\<And>c. funds c s' = funds c s"
proof -
  obtain s1 where s1: "debit_p p m s = (Inr (), s1)" "ok s1"
      "\<forall>k. avail s1 k = avail s k - (if k = acct p (currency m) then v else 0)"
      "\<forall>c. funds c s1 = funds c s - (if inCur (currency m) c then v else 0)"
    using debit_ok [OF assms] by blast
  obtain s2 where s2: "credit_p q m s1 = (Inr (), s2)" "ok s2"
      "\<forall>k. avail s2 k = avail s1 k + (if k = acct q (currency m) then v else 0)"
      "\<forall>c. funds c s2 = funds c s1 + (if inCur (currency m) c then v else 0)"
    using credit_ok [OF s1(2) assms(2,3)] by blast
  show ?thesis by (rule that [of s2]) (use s1 s2 in \<open>simp_all add: bindE_ok\<close>)
qed

lemma transfer_fail:
  assumes "ok s" "\<nexists>v. val (amount m) = Some v \<and> 0 < v \<and> v \<le> avail s (acct p (currency m))"
  obtains e s' where "bindE (debit_p p m) (\<lambda>_. credit_p q m) s = (Inl e, s')" "ok s'"
    "\<And>k. avail s' k = avail s k" "\<And>c. funds c s' = funds c s"
  using debit_bad [OF assms] by (metis bindE_err)

lemma transfer_cases:
  assumes "ok s"
  obtains (fail) e s' where "bindE (debit_p p m) (\<lambda>_. credit_p q m) s = (Inl e, s')" "ok s'"
    "\<And>k. avail s' k = avail s k" "\<And>c. funds c s' = funds c s"
  | (paid) v s' where "bindE (debit_p p m) (\<lambda>_. credit_p q m) s = (Inr (), s')" "ok s'"
    "val (amount m) = Some v" "0 < v" "v \<le> avail s (acct p (currency m))"
    "\<And>k. avail s' k = avail s k - (if k = acct p (currency m) then v else 0)
       + (if k = acct q (currency m) then v else 0)"
    "\<And>c. funds c s' = funds c s"
proof (cases "\<exists>v. val (amount m) = Some v \<and> 0 < v \<and> v \<le> avail s (acct p (currency m))")
  case True
  then obtain v where v: "val (amount m) = Some v" "0 < v" "v \<le> avail s (acct p (currency m))" by blast
  obtain s' where "bindE (debit_p p m) (\<lambda>_. credit_p q m) s = (Inr (), s')" "ok s'"
    "\<And>k. avail s' k = avail s k - (if k = acct p (currency m) then v else 0)
       + (if k = acct q (currency m) then v else 0)"
    "\<And>c. funds c s' = funds c s"
    using transfer_ok [OF assms v, of q] by metis
  then show ?thesis using paid v by blast
next
  case False
  obtain e s' where "bindE (debit_p p m) (\<lambda>_. credit_p q m) s = (Inl e, s')" "ok s'"
    "\<And>k. avail s' k = avail s k" "\<And>c. funds c s' = funds c s"
    using transfer_fail [OF assms False, of q] by metis
  then show ?thesis using fail by blast
qed

end

text \<open>
  With holds: \<open>locked s i\<close> is the account and amount an active hold has set aside. A hold is
  resolved once, by a release or by a capture.
\<close>

locale hold_port = value_port ok val acct avail funds inCur credit_p debit_p
  for ok :: "'s \<Rightarrow> bool" and val and acct :: "string \<Rightarrow> string \<Rightarrow> 'k" and avail funds inCur
    and credit_p debit_p +
  fixes locked :: "'s \<Rightarrow> string \<Rightarrow> (string \<times> string \<times> rat) option"
    and hold_p :: "int \<Rightarrow> string \<Rightarrow> money \<Rightarrow> string \<Rightarrow> ('s, string) exec"
    and release_p :: "string \<Rightarrow> ('s, unit) exec"
    and capture_p :: "string \<Rightarrow> string \<Rightarrow> ('s, unit) exec"
  assumes hold_ok: "ok s \<Longrightarrow> val (amount m) = Some v \<Longrightarrow> 0 < v \<Longrightarrow> v \<le> avail s (acct d (currency m)) \<Longrightarrow>
      \<exists>i s'. hold_p now d m ref s = (Inr i, s') \<and> ok s' \<and> locked s i = None \<and>
        locked s' = (locked s)(i \<mapsto> (d, currency m, v)) \<and>
        (\<forall>k. avail s' k = avail s k - (if k = acct d (currency m) then v else 0)) \<and>
        (\<forall>c. funds c s' = funds c s)"
    and hold_bad: "ok s \<Longrightarrow>
      \<nexists>v. val (amount m) = Some v \<and> 0 < v \<and> v \<le> avail s (acct d (currency m)) \<Longrightarrow>
      \<exists>e s'. hold_p now d m ref s = (Inl e, s') \<and> ok s' \<and> locked s' = locked s \<and>
        (\<forall>k. avail s' k = avail s k) \<and> (\<forall>c. funds c s' = funds c s)"
    and release_ok: "ok s \<Longrightarrow> locked s i = Some (d, c, v) \<Longrightarrow>
      \<exists>s'. release_p i s = (Inr (), s') \<and> ok s' \<and> locked s' = (locked s)(i := None) \<and>
        (\<forall>k. avail s' k = avail s k + (if k = acct d c then v else 0)) \<and>
        (\<forall>c. funds c s' = funds c s)"
    and release_bad: "ok s \<Longrightarrow> locked s i = None \<Longrightarrow> \<exists>e. release_p i s = (Inl e, s)"
    and capture_ok: "ok s \<Longrightarrow> locked s i = Some (d, c, v) \<Longrightarrow>
      \<exists>s'. capture_p i q s = (Inr (), s') \<and> ok s' \<and> locked s' = (locked s)(i := None) \<and>
        (\<forall>k. avail s' k = avail s k + (if k = acct q c then v else 0)) \<and>
        (\<forall>c. funds c s' = funds c s)"
    and capture_bad: "ok s \<Longrightarrow> locked s i = None \<Longrightarrow> \<exists>e. capture_p i q s = (Inl e, s)"
begin

text \<open>Whatever resolved a hold, a later attempt to resolve it throws and changes nothing.\<close>

lemma capture_once:
  assumes "ok s" "capture_p i q s = (Inr (), s')"
  shows "\<exists>e. capture_p i q2 s' = (Inl e, s')" "\<exists>e. release_p i s' = (Inl e, s')"
proof -
  obtain d c v where "locked s i = Some (d, c, v)"
    using capture_bad [OF assms(1), of i q] assms(2) by (cases "locked s i") auto
  then have "ok s'" "locked s' i = None"
    using capture_ok [OF assms(1), of i d c v q] assms(2) by auto
  then show "\<exists>e. capture_p i q2 s' = (Inl e, s')" "\<exists>e. release_p i s' = (Inl e, s')"
    using capture_bad release_bad by blast+
qed

lemma release_once:
  assumes "ok s" "release_p i s = (Inr (), s')"
  shows "\<exists>e. capture_p i q2 s' = (Inl e, s')" "\<exists>e. release_p i s' = (Inl e, s')"
proof -
  obtain d c v where "locked s i = Some (d, c, v)"
    using release_bad [OF assms(1), of i] assms(2) by (cases "locked s i") auto
  then have "ok s'" "locked s' i = None"
    using release_ok [OF assms(1), of i d c v] assms(2) by auto
  then show "\<exists>e. capture_p i q2 s' = (Inl e, s')" "\<exists>e. release_p i s' = (Inl e, s')"
    using capture_bad release_bad by blast+
qed

text \<open>Locking funds and capturing them later is a transfer.\<close>

lemma hold_then_capture:
  assumes "ok s" "hold_p now p m ref s = (Inr i, s1)"
  obtains v s2 where "capture_p i q s1 = (Inr (), s2)" "ok s2" "val (amount m) = Some v" "0 < v"
    "\<And>k. avail s2 k = avail s k - (if k = acct p (currency m) then v else 0)
       + (if k = acct q (currency m) then v else 0)"
    "\<And>c. funds c s2 = funds c s"
proof -
  obtain v where v: "val (amount m) = Some v" "0 < v" "v \<le> avail s (acct p (currency m))"
    using hold_bad [OF assms(1), of m p now ref] assms(2) by fastforce
  then have s1: "ok s1" "locked s1 = (locked s)(i \<mapsto> (p, currency m, v))"
      "\<forall>k. avail s1 k = avail s k - (if k = acct p (currency m) then v else 0)"
      "\<forall>c. funds c s1 = funds c s"
    using hold_ok [OF assms(1) v, of now ref] assms(2) by auto
  obtain s2 where "capture_p i q s1 = (Inr (), s2)" "ok s2"
      "\<forall>k. avail s2 k = avail s1 k + (if k = acct q (currency m) then v else 0)"
      "\<forall>c. funds c s2 = funds c s1"
    using capture_ok [OF s1(1), of i p "currency m" v q] s1(2) by auto
  then show ?thesis using that [of s2 v] s1 v by simp
qed

text \<open>Locking funds and releasing them changes no balance.\<close>

lemma hold_then_release:
  assumes "ok s" "hold_p now p m ref s = (Inr i, s1)"
  obtains s2 where "release_p i s1 = (Inr (), s2)" "ok s2" "\<And>k. avail s2 k = avail s k"
    "\<And>c. funds c s2 = funds c s"
proof -
  obtain v where v: "val (amount m) = Some v" "0 < v" "v \<le> avail s (acct p (currency m))"
    using hold_bad [OF assms(1), of m p now ref] assms(2) by fastforce
  then have s1: "ok s1" "locked s1 = (locked s)(i \<mapsto> (p, currency m, v))"
      "\<forall>k. avail s1 k = avail s k - (if k = acct p (currency m) then v else 0)"
      "\<forall>c. funds c s1 = funds c s"
    using hold_ok [OF assms(1) v, of now ref] assms(2) by auto
  obtain s2 where "release_p i s1 = (Inr (), s2)" "ok s2"
      "\<forall>k. avail s2 k = avail s1 k + (if k = acct p (currency m) then v else 0)"
      "\<forall>c. funds c s2 = funds c s1"
    using release_ok [OF s1(1), of i p "currency m" v] s1(2) by auto
  then show ?thesis using that [of s2] s1 by simp
qed

end

section \<open>Marks that are consumed once\<close>

text \<open>
  \<open>use m\<close> is the test-and-consume operation: it answers whether the mark was still usable. Once
  used, a mark is never usable again, whatever other marks are used in between.
\<close>

locale single_use =
  fixes ok :: "'s \<Rightarrow> bool"
    and spent :: "'s \<Rightarrow> 'm \<Rightarrow> bool"
    and use :: "'a \<Rightarrow> 's \<Rightarrow> bool \<times> 's"
    and mark :: "'a \<Rightarrow> 'm"
  assumes use_ok: "ok s \<Longrightarrow> ok (snd (use a s))"
    and use_true: "ok s \<Longrightarrow> fst (use a s) \<Longrightarrow> \<not> spent s (mark a) \<and> spent (snd (use a s)) (mark a)"
    and use_keeps: "ok s \<Longrightarrow> spent s m \<Longrightarrow> spent (snd (use a s)) m"
begin

fun uses :: "'a list \<Rightarrow> 's \<Rightarrow> bool list \<times> 's" where
  "uses [] s = ([], s)"
| "uses (a # as) s = (case use a s of (b, s') \<Rightarrow> case uses as s' of (bs, s'') \<Rightarrow> (b # bs, s''))"

lemma uses_spent:
  "ok s \<Longrightarrow> spent s m \<Longrightarrow> i < length as \<Longrightarrow> mark (as ! i) = m \<Longrightarrow> \<not> fst (uses as s) ! i"
proof (induction as arbitrary: s i)
  case Nil
  then show ?case by simp
next
  case (Cons a as)
  obtain b s' where u: "use a s = (b, s')" by (cases "use a s")
  obtain bs s'' where us: "uses as s' = (bs, s'')" by (cases "uses as s'")
  have s': "ok s'" "spent s' m" using use_ok use_keeps Cons.prems u by (metis snd_conv)+
  show ?case
  proof (cases i)
    case 0
    then show ?thesis using use_true [OF Cons.prems(1), of a] Cons.prems u us by auto
  next
    case (Suc j)
    then show ?thesis using Cons.IH [OF s', of j] Cons.prems u us by auto
  qed
qed

text \<open>In any sequence of uses a mark is accepted at most once.\<close>

lemma uses_once:
  "ok s \<Longrightarrow> i < j \<Longrightarrow> j < length as \<Longrightarrow> mark (as ! i) = mark (as ! j) \<Longrightarrow>
   fst (uses as s) ! i \<Longrightarrow> \<not> fst (uses as s) ! j"
proof (induction as arbitrary: s i j)
  case Nil
  then show ?case by simp
next
  case (Cons a as)
  obtain b s' where u: "use a s = (b, s')" by (cases "use a s")
  obtain bs s'' where us: "uses as s' = (bs, s'')" by (cases "uses as s'")
  obtain j' where j: "j = Suc j'" using Cons.prems(2) by (cases j) auto
  have ok': "ok s'" using use_ok Cons.prems(1) u by (metis snd_conv)
  show ?case
  proof (cases i)
    case 0
    then have "b" using Cons.prems u us by simp
    then have "spent s' (mark a)" using use_true [OF Cons.prems(1), of a] u by simp
    then show ?thesis using uses_spent [OF ok', of "mark a" j' as] Cons.prems u us 0 j by simp
  next
    case (Suc i')
    then show ?thesis using Cons.IH [OF ok', of i' j'] Cons.prems u us j by simp
  qed
qed

end

section \<open>Hash-linked logs\<close>

text \<open>
  An entry carries its own hash and the hash of its predecessor; \<open>hashOf p e\<close> is what the code
  recomputes from the predecessor's hash and the entry's content.
\<close>

locale hash_log =
  fixes prevOf :: "'e \<Rightarrow> string"
    and ownOf :: "'e \<Rightarrow> string"
    and hashOf :: "'e \<Rightarrow> string"
    and genesis :: string
begin

fun linkedFrom :: "string \<Rightarrow> 'e list \<Rightarrow> bool" where
  "linkedFrom p [] = True"
| "linkedFrom p (e # es) = (prevOf e = p \<and> ownOf e = hashOf e \<and> linkedFrom (ownOf e) es)"

definition tip :: "string \<Rightarrow> 'e list \<Rightarrow> string" where
  "tip p es = (if es = [] then p else ownOf (last es))"

lemma linkedFrom_snoc:
  "linkedFrom p (es @ [e]) \<longleftrightarrow> linkedFrom p es \<and> prevOf e = tip p es \<and> ownOf e = hashOf e"
  by (induction p es rule: linkedFrom.induct) (auto simp: tip_def)

lemma linkedFrom_append:
  "linkedFrom p (es @ fs) \<longleftrightarrow> linkedFrom p es \<and> linkedFrom (tip p es) fs"
  by (induction p es rule: linkedFrom.induct) (auto simp: tip_def)

lemma linkedFrom_take: "linkedFrom p es \<Longrightarrow> linkedFrom p (take n es)"
  by (metis append_take_drop_id linkedFrom_append)

text \<open>
  Two valid logs of the same length with the same last hash agree entry by entry in their hashed
  contents, or two different contents have the same hash.
\<close>

lemma linked_agree:
  assumes "linkedFrom p es" "linkedFrom q fs" "length es = length fs" "es \<noteq> []"
    and "ownOf (last es) = ownOf (last fs)"
    and cr: "\<And>e f. e \<in> set es \<Longrightarrow> f \<in> set fs \<Longrightarrow> hashOf e = hashOf f \<Longrightarrow> same e f"
    and link: "\<And>e f. same e f \<Longrightarrow> prevOf e = prevOf f"
  shows "list_all2 same es fs"
  using assms(1-5) cr
proof (induction es arbitrary: fs rule: rev_induct)
  case Nil
  then show ?case by simp
next
  case (snoc e es)
  obtain gs f where fs: "fs = gs @ [f]" using snoc.prems(3) by (cases fs rule: rev_cases) auto
  have l: "linkedFrom p es" "prevOf e = tip p es" "ownOf e = hashOf e"
    using snoc.prems(1) by (simp_all add: linkedFrom_snoc)
  have l': "linkedFrom q gs" "prevOf f = tip q gs" "ownOf f = hashOf f"
    using snoc.prems(2) by (simp_all add: fs linkedFrom_snoc)
  have s: "same e f" using snoc.prems(5) snoc.prems(6) [of e f] l l' fs by simp
  have len: "length es = length gs" using snoc.prems(3) fs by simp
  show ?case
  proof (cases "es = []")
    case True
    with len s fs show ?thesis by simp
  next
    case False
    then have "ownOf (last es) = ownOf (last gs)"
      using link [OF s] l(2) l'(2) len by (auto simp: tip_def split: if_splits)
    then have "list_all2 same es gs"
      using snoc.IH [OF l(1) l'(1) len False] snoc.prems(6) fs by auto
    with s fs len show ?thesis by (simp add: list_all2_append)
  qed
qed

end

end
