(* ===== verification/Envelope.thy ===== *)
theory Envelope
  imports Samples Merkle Ports
begin

text \<open>
  Signed objects: DIDs (\<open>shared/crypto/did.ts\<close>), detached JWS signatures (\<open>jws.ts\<close>,
  \<open>keys.ts\<close>), the nonce store (\<open>infrastructure/persistence/memory/nonce-store.ts\<close>) and
  \<open>verifySignedObject\<close> (\<open>shared/http/envelope.ts\<close>), which tests freshness, consumes the nonce
  and checks the signature, in this order. The identity resolver it is handed is a record of two
  functions, because registration passes one of its own. Acceptance is an instance of
  \<open>single_use\<close>: an object is accepted at most once.
\<close>

section \<open>DIDs\<close>

datatype did_role = RAgent | ROrg | RCore

fun roleText :: "did_role \<Rightarrow> string" where
  "roleText RAgent = ''agent''"
| "roleText ROrg = ''org''"
| "roleText RCore = ''core''"

definition didFromPublicKey :: "ext \<Rightarrow> string \<Rightarrow> did_role \<Rightarrow> string" where
  "didFromPublicKey E pk r = ''did:praxis:'' @ roleText r @ '':'' @ take 32 (sha256Hex E pk)"

definition roleOf :: "string \<Rightarrow> did_role option" where
  "roleOf s = (if s = ''agent'' then Some RAgent else if s = ''org'' then Some ROrg
     else if s = ''core'' then Some RCore else None)"

definition parseDid :: "string \<Rightarrow> app_error + did_role \<times> string" where
  "parseDid d =
     (let parts = splitOn (CHR '':'') d in
      if length parts \<noteq> 4 \<or> parts ! 0 \<noteq> ''did'' \<or> parts ! 1 \<noteq> ''praxis'' then Inl JsError
      else (case roleOf (parts ! 2) of None \<Rightarrow> Inl JsError | Some r \<Rightarrow> Inr (r, parts ! 3)))"

definition isPraxisDid :: "string \<Rightarrow> bool" where
  "isPraxisDid s = (case parseDid s of Inl _ \<Rightarrow> False | Inr _ \<Rightarrow> True)"

section \<open>Detached signatures\<close>

definition headerObj :: "string \<Rightarrow> json" where
  "headerObj kid = JObj [(''alg'', JStr ''EdDSA''), (''kid'', JStr kid)]"

definition encodeHeader :: "ext \<Rightarrow> string \<Rightarrow> string" where
  "encodeHeader E kid = b64uOf E (jsonText E (headerObj kid))"

definition signingInput :: "ext \<Rightarrow> string \<Rightarrow> json \<Rightarrow> string" where
  "signingInput E hdr p = hdr @ ''.'' @ b64uOf E (canon E p)"

definition signDetached :: "ext \<Rightarrow> json \<Rightarrow> string \<Rightarrow> string \<Rightarrow> string" where
  "signDetached E p sk kid =
     (let hdr = encodeHeader E kid
      in hdr @ ''..'' @ b64uOf E (edSign E sk (signingInput E hdr p)))"

definition isHeader :: "json \<Rightarrow> bool" where
  "isHeader v =
     (case v of
        JObj ms \<Rightarrow> mapGet ms ''alg'' = Some (JStr ''EdDSA'') \<and> asString (mapGet ms ''kid'') \<noteq> None
      | _ \<Rightarrow> False)"

definition verifyDetached :: "ext \<Rightarrow> json \<Rightarrow> string \<Rightarrow> string \<Rightarrow> bool" where
  "verifyDetached E p jws pk =
     (let parts = splitOn (CHR ''.'') jws in
      if length parts \<noteq> 3 \<or> parts ! 1 \<noteq> '''' then False
      else
        (case jsonParse E (b64uBytes E (parts ! 0)) of
           None \<Rightarrow> False
         | Some decoded \<Rightarrow>
             if \<not> isHeader decoded then False
             else edVerify E (b64uBytes E (parts ! 2)) (signingInput E (parts ! 0) p) pk))"

definition parseJwsHeader :: "ext \<Rightarrow> string \<Rightarrow> app_error + json" where
  "parseJwsHeader E jws =
     (let hdr = splitOn (CHR ''.'') jws ! 0 in
      if hdr = '''' then Inl JsError
      else
        (case jsonParse E (b64uBytes E hdr) of
           None \<Rightarrow> Inl JsError
         | Some decoded \<Rightarrow> if \<not> isHeader decoded then Inl JsError else Inr decoded))"

text \<open>
  Documented behaviour of the codecs and of Ed25519: base64url decodes what it encoded and has no
  dot, \<open>JSON.parse\<close> reads back what \<open>JSON.stringify\<close> wrote for a header, and a signature
  verifies under the public key \<open>pk\<close> of the private key \<open>sk\<close> that made it.
\<close>

definition jws_lib_ok :: "ext \<Rightarrow> string \<Rightarrow> string \<Rightarrow> bool" where
  "jws_lib_ok E sk pk \<longleftrightarrow>
     (\<forall>s. b64uBytes E (b64uOf E s) = s \<and> CHR ''.'' \<notin> set (b64uOf E s)) \<and>
     (\<forall>kid. jsonParse E (jsonText E (headerObj kid)) = Some (headerObj kid)) \<and>
     (\<forall>m. edVerify E (edSign E sk m) m pk)"

lemma signDetached_parts:
  assumes "\<forall>s. CHR ''.'' \<notin> set (b64uOf E s)"
  shows "splitOn (CHR ''.'') (signDetached E p sk kid) =
    [encodeHeader E kid, '''', b64uOf E (edSign E sk (signingInput E (encodeHeader E kid) p))]"
proof -
  let ?h = "encodeHeader E kid" and ?s = "b64uOf E (edSign E sk (signingInput E (encodeHeader E kid) p))"
  have nd: "CHR ''.'' \<notin> set ?h" "CHR ''.'' \<notin> set ?s" using assms by (simp_all add: encodeHeader_def)
  have "splitOn (CHR ''.'') (?h @ CHR ''.'' # CHR ''.'' # ?s) = ?h # splitOn (CHR ''.'') (CHR ''.'' # ?s)"
    by (rule splitOn_sep [OF nd(1)])
  then show ?thesis using nd by (simp add: signDetached_def Let_def splitOn_none)
qed

section \<open>Nonces\<close>

type_synonym nonce_st = "(string, int) jsmap"

definition prune :: "int \<Rightarrow> nonce_st \<Rightarrow> nonce_st" where
  "prune now seen = filter (\<lambda>(n, x). \<not> x \<le> now) seen"

definition checkAndConsume :: "ext \<Rightarrow> int \<Rightarrow> string \<Rightarrow> string \<Rightarrow> nonce_st \<Rightarrow> bool \<times> nonce_st" where
  "checkAndConsume E now nonce expISO seen =
     (let seen1 = prune now seen in
      case dateMs E expISO of
        None \<Rightarrow> (False, seen1)
      | Some expMs \<Rightarrow>
          if expMs \<le> now then (False, seen1)
          else if mapGet seen1 nonce \<noteq> None then (False, seen1)
          else (True, mapSet nonce expMs seen1))"

section \<open>Verification\<close>

record resolver =
  publicKeyFor :: "string \<Rightarrow> string option \<Rightarrow> string option"
  isRevokedAt :: "string \<Rightarrow> bool"

record verify_opts =
  signerDid :: string
  sigField :: string
  omitFields :: "string list"
  keyId :: "string option"
  skipNonce :: bool

definition sigOpts :: "string \<Rightarrow> verify_opts" where
  "sigOpts d = \<lparr>signerDid = d, sigField = ''sig'', omitFields = [''sig''], keyId = None, skipNonce = False\<rparr>"

abbreviation "field obj k \<equiv> asString (mapGet obj k)"

text \<open>The format and freshness tests before the nonce is consumed.\<close>

definition checkIat :: "ext \<Rightarrow> int \<Rightarrow> int \<Rightarrow> (string \<times> json) list \<Rightarrow> ('s, unit) exec" where
  "checkIat E now skew obj =
     (case field obj ''iat'' of
        None \<Rightarrow> ret ()
      | Some iat \<Rightarrow>
          (case dateMs E iat of
             None \<Rightarrow> throw ValidationError
           | Some iatMs \<Rightarrow> throwIf (iatMs > now + skew) ValidationError))"

definition nonEmpty :: "string option \<Rightarrow> bool" where
  "nonEmpty s = (case s of None \<Rightarrow> False | Some x \<Rightarrow> x \<noteq> '''')"

definition checkExp :: "ext \<Rightarrow> int \<Rightarrow> int \<Rightarrow> (string \<times> json) list \<Rightarrow> ('s, unit) exec" where
  "checkExp E now skew obj =
     (if nonEmpty (field obj ''exp'') then
        (case dateMs E (the (field obj ''exp'')) of
           None \<Rightarrow> throw ValidationError
         | Some expMs \<Rightarrow> throwIf (expMs < now - skew) AuthError)
      else ret ())"

definition consumeNonce :: "ext \<Rightarrow> int \<Rightarrow> (string \<times> json) list \<Rightarrow> (nonce_st, unit) exec" where
  "consumeNonce E now obj =
     (case (field obj ''nonce'', field obj ''exp'') of
        (Some n, Some x) \<Rightarrow>
          (\<lambda>seen. case checkAndConsume E now n x seen of
             (fresh, seen') \<Rightarrow> (if fresh then Inr () else Inl ReplayError, seen'))
      | _ \<Rightarrow> ret ())"

text \<open>The key look-up, the kill switch and the signature.\<close>

definition checkSigner ::
    "ext \<Rightarrow> resolver \<Rightarrow> (string \<times> json) list \<Rightarrow> string \<Rightarrow> verify_opts \<Rightarrow> ('s, unit) exec" where
  "checkSigner E rs obj sg opts =
     bindE (orThrow (publicKeyFor rs (signerDid opts) (keyId opts)) AuthError) (\<lambda>pk.
     bindE (throwIf (isRevokedAt rs (signerDid opts)) AuthError) (\<lambda>_.
     throwIf (\<not> verifyDetached E (JObj (stripForSigning obj (omitFields opts))) sg pk) AuthError))"

definition verifySignedObject ::
    "ext \<Rightarrow> int \<Rightarrow> int \<Rightarrow> resolver \<Rightarrow> (string \<times> json) list \<Rightarrow> verify_opts \<Rightarrow> (nonce_st, unit) exec" where
  "verifySignedObject E now skew rs obj opts =
     bindE (throwIf (\<not> nonEmpty (field obj (sigField opts))) ValidationError) (\<lambda>_.
     bindE (checkIat E now skew obj) (\<lambda>_.
     bindE (throwIf (\<not> skipNonce opts \<and> \<not> nonEmpty (field obj ''nonce'')) ValidationError) (\<lambda>_.
     bindE (throwIf (\<not> skipNonce opts \<and> \<not> nonEmpty (field obj ''exp'')) ValidationError) (\<lambda>_.
     bindE (checkExp E now skew obj) (\<lambda>_.
     bindE (if \<not> skipNonce opts then consumeNonce E now obj else ret ()) (\<lambda>_.
     checkSigner E rs obj (the (field obj (sigField opts))) opts))))))"

section \<open>What verification does to the nonce store\<close>

lemma mapGet_prune:
  "mapGet (prune now seen) n = Some x \<Longrightarrow> \<not> x \<le> now"
  by (auto simp: prune_def dest!: map_of_SomeD)

lemma prune_distinct: "distinctKeys seen \<Longrightarrow> distinctKeys (prune now seen)"
  unfolding prune_def by (rule distinct_map_filter)

lemma mapGet_prune_eq:
  "distinctKeys seen \<Longrightarrow>
   mapGet (prune now seen) n = (case mapGet seen n of None \<Rightarrow> None | Some x \<Rightarrow> if x \<le> now then None else Some x)"
proof (induction seen)
  case Nil
  then show ?case by (simp add: prune_def)
next
  case (Cons p seen)
  obtain k x where p: "p = (k, x)" by (cases p)
  have "mapGet (prune now seen) k = None" using Cons.prems p
    by (auto simp: prune_def mapGet_None_iff image_iff)
  then show ?case using Cons p by (auto simp: prune_def split: option.splits)
qed

text \<open>The accepting run of verification, taken apart.\<close>

lemma checkIat_cases: "checkIat E now skew obj s = (Inr (), s) \<or> checkIat E now skew obj s = (Inl ValidationError, s)"
  by (auto simp: checkIat_def exec_simps split: option.split)

lemma checkExp_cases: "\<exists>e. checkExp E now skew obj s = (Inr (), s) \<or> checkExp E now skew obj s = (Inl e, s)"
  by (auto simp: checkExp_def exec_simps split: option.split)

lemma checkSigner_state: "checkSigner E rs obj sg opts s = (r, s') \<Longrightarrow> s' = s"
  by (auto simp: checkSigner_def exec_simps split: option.splits if_splits)

lemma verify_accepts:
  assumes "verifySignedObject E now skew rs obj opts seen = (Inr (), seen')" "\<not> skipNonce opts"
  obtains sg n x xMs pk where "field obj (sigField opts) = Some sg" "sg \<noteq> ''''"
    "field obj ''nonce'' = Some n" "n \<noteq> ''''" "field obj ''exp'' = Some x" "dateMs E x = Some xMs"
    "xMs > now" "mapGet (prune now seen) n = None" "seen' = mapSet n xMs (prune now seen)"
    "publicKeyFor rs (signerDid opts) (keyId opts) = Some pk" "\<not> isRevokedAt rs (signerDid opts)"
    "verifyDetached E (JObj (stripForSigning obj (omitFields opts))) sg pk"
    "\<And>i. field obj ''iat'' = Some i \<Longrightarrow> \<exists>iMs. dateMs E i = Some iMs \<and> iMs \<le> now + skew"
  using assms
  by (auto simp: verifySignedObject_def exec_simps checkIat_def checkExp_def consumeNonce_def
      checkSigner_def checkAndConsume_def nonEmpty_def Let_def
      split: if_splits option.splits prod.splits sum.splits)

text \<open>Every run either leaves the store alone or runs the store's operation on the object's fields.\<close>

lemma verify_store:
  assumes "verifySignedObject E now skew rs obj opts seen = (r, seen')"
  shows "seen' = seen \<or>
    (\<exists>n x. field obj ''nonce'' = Some n \<and> field obj ''exp'' = Some x \<and> seen' = snd (checkAndConsume E now n x seen))"
  using assms
  by (auto simp: verifySignedObject_def exec_simps checkIat_def checkExp_def consumeNonce_def
      checkSigner_def nonEmpty_def
      split: if_splits option.splits prod.splits sum.splits)

section \<open>Acceptance is single use\<close>

text \<open>
  A presentation: the time since the previous one, and what is presented. The store is paired with
  the clock, which never runs backwards.
\<close>

record presentation =
  elapsed :: nat
  p_resolver :: resolver
  p_obj :: "(string \<times> json) list"
  p_opts :: verify_opts

definition present :: "ext \<Rightarrow> int \<Rightarrow> presentation \<Rightarrow> nonce_st \<times> int \<Rightarrow> bool \<times> (nonce_st \<times> int)" where
  "present E skew p sc =
     (case sc of (seen, clk) \<Rightarrow>
        let now = clk + int (elapsed p) in
        case verifySignedObject E now skew (p_resolver p) (p_obj p) ((p_opts p)\<lparr>skipNonce := False\<rparr>) seen of
          (r, seen') \<Rightarrow> ((case r of Inl _ \<Rightarrow> False | Inr _ \<Rightarrow> True), (seen', now)))"

definition nonceMark :: "ext \<Rightarrow> presentation \<Rightarrow> string option \<times> int option" where
  "nonceMark E p =
     (field (p_obj p) ''nonce'', (case field (p_obj p) ''exp'' of None \<Rightarrow> None | Some x \<Rightarrow> dateMs E x))"

definition nonceSpent :: "nonce_st \<times> int \<Rightarrow> string option \<times> int option \<Rightarrow> bool" where
  "nonceSpent sc m =
     (case (sc, m) of
        ((seen, clk), (Some n, Some x)) \<Rightarrow>
          x \<le> clk \<or> (case mapGet seen n of None \<Rightarrow> False | Some y \<Rightarrow> x \<le> y)
      | _ \<Rightarrow> False)"

definition storeOk :: "nonce_st \<times> int \<Rightarrow> bool" where
  "storeOk sc = distinctKeys (fst sc)"

lemma checkAndConsume_distinct: "distinctKeys seen \<Longrightarrow> distinctKeys (snd (checkAndConsume E now n x seen))"
  by (auto simp: checkAndConsume_def Let_def prune_distinct split: option.split)

lemma checkAndConsume_spent:
  assumes "distinctKeys seen" "nonceSpent (seen, clk) m" "clk \<le> now"
  shows "nonceSpent (snd (checkAndConsume E now n x seen), now) m"
proof -
  obtain k y where m: "m = (Some k, Some y)" using assms(2)
    by (cases m; cases "fst m"; cases "snd m") (auto simp: nonceSpent_def)
  have g: "y \<le> now \<or> (\<exists>z. mapGet (prune now seen) k = Some z \<and> y \<le> z)"
    using assms(2,3) unfolding mapGet_prune_eq [OF assms(1)]
    by (auto simp: m nonceSpent_def split: option.splits)
  then show ?thesis
    by (auto simp: m nonceSpent_def checkAndConsume_def Let_def split: option.split)
qed

lemma present_ok: "storeOk sc \<Longrightarrow> storeOk (snd (present E skew p sc))"
proof -
  assume ok: "storeOk sc"
  obtain seen clk where sc: "sc = (seen, clk)" by (cases sc)
  obtain r seen' where v: "verifySignedObject E (clk + int (elapsed p)) skew (p_resolver p) (p_obj p)
      ((p_opts p)\<lparr>skipNonce := False\<rparr>) seen = (r, seen')" by (metis prod.collapse)
  show ?thesis using verify_store [OF v] ok checkAndConsume_distinct
    by (auto simp: sc present_def v storeOk_def Let_def)
qed

lemma present_true:
  assumes "storeOk sc" "fst (present E skew p sc)"
  shows "\<not> nonceSpent sc (nonceMark E p) \<and> nonceSpent (snd (present E skew p sc)) (nonceMark E p)"
proof -
  obtain seen clk where sc: "sc = (seen, clk)" by (cases sc)
  let ?now = "clk + int (elapsed p)"
  obtain seen' where v: "verifySignedObject E ?now skew (p_resolver p) (p_obj p)
      ((p_opts p)\<lparr>skipNonce := False\<rparr>) seen = (Inr (), seen')"
    using assms(2) by (auto simp: present_def sc Let_def split: prod.splits sum.splits)
  have d: "distinctKeys seen" using assms(1) by (simp add: storeOk_def sc)
  have "\<not> skipNonce ((p_opts p)\<lparr>skipNonce := False\<rparr>)" by simp
  from v this show ?thesis
  proof (rule verify_accepts)
    fix n x xMs
    assume *: "field (p_obj p) ''nonce'' = Some n" "field (p_obj p) ''exp'' = Some x" "dateMs E x = Some xMs"
      "xMs > ?now" "mapGet (prune ?now seen) n = None" "seen' = mapSet n xMs (prune ?now seen)"
    have m: "nonceMark E p = (Some n, Some xMs)" using * by (simp add: nonceMark_def)
    have "\<not> nonceSpent (seen, clk) (Some n, Some xMs)"
      using *(4,5) mapGet_prune_eq [OF d, of ?now n]
      by (auto simp: nonceSpent_def split: option.splits if_splits)
    moreover have "snd (present E skew p sc) = (seen', ?now)"
      by (simp add: present_def sc Let_def v)
    ultimately show ?thesis using * by (simp add: m sc nonceSpent_def)
  qed
qed

lemma present_spent:
  assumes "storeOk sc" "nonceSpent sc m"
  shows "nonceSpent (snd (present E skew p sc)) m"
proof -
  obtain seen clk where sc: "sc = (seen, clk)" by (cases sc)
  let ?now = "clk + int (elapsed p)"
  obtain r seen' where v: "verifySignedObject E ?now skew (p_resolver p) (p_obj p)
      ((p_opts p)\<lparr>skipNonce := False\<rparr>) seen = (r, seen')" by (metis prod.collapse)
  have s: "snd (present E skew p sc) = (seen', ?now)" by (simp add: present_def sc Let_def v)
  have d: "distinctKeys seen" using assms(1) by (simp add: storeOk_def sc)
  have "nonceSpent (seen, ?now) m"
    using assms(2) by (auto simp: nonceSpent_def sc split: option.splits)
  then show ?thesis
    using verify_store [OF v] checkAndConsume_spent [OF d assms(2) [unfolded sc]] by (auto simp: s)
qed

interpretation nonces: single_use storeOk nonceSpent "present E skew" "nonceMark E" for E skew
  by unfold_locales (simp_all add: present_ok present_true present_spent)

fun presentAll :: "ext \<Rightarrow> int \<Rightarrow> presentation list \<Rightarrow> nonce_st \<times> int \<Rightarrow> bool list \<times> (nonce_st \<times> int)" where
  "presentAll E skew [] sc = ([], sc)"
| "presentAll E skew (p # ps) sc =
     (case present E skew p sc of (b, sc') \<Rightarrow> case presentAll E skew ps sc' of (bs, sc'') \<Rightarrow> (b # bs, sc''))"

lemma presentAll_uses: "presentAll E skew ps sc = nonces.uses E skew ps sc"
  by (induction ps arbitrary: sc) (auto split: prod.split)

lemma verify_signDetached:
  assumes "jws_lib_ok E sk pk"
  shows "verifyDetached E p (signDetached E p sk kid) pk"
  using assms signDetached_parts [of E p sk kid]
  by (simp add: verifyDetached_def Let_def jws_lib_ok_def encodeHeader_def isHeader_def headerObj_def)

section \<open>Properties\<close>

text \<open>
  Signing and verifying agree: a detached signature made with a private key over a
  payload verifies for that payload under the matching public key, whatever the payload and the
  key id.
\<close>

theorem detached_roundtrip:
  assumes "jws_lib_ok E sk pk"
  shows "verifyDetached E p (signDetached E p sk kid) pk"
  by (rule verify_signDetached [OF assms])

lemma demo_jws: "jws_lib_ok demo k k"
  using readHead_headText by (auto simp: jws_lib_ok_def hideDots_no_dot headText_def headerObj_def)

lemma detached_roundtrip_witness:
  "verifyDetached demo (JStr ''pay'') (signDetached demo (JStr ''pay'') ''k'' ''did:a#sign-1'') ''k''"
  by (rule detached_roundtrip [OF demo_jws])

text \<open>
  What acceptance means: when a nonce-protected object is accepted, it carries a
  non-empty nonce that the store did not know and now holds, an expiry strictly in the future, an
  issue time no later than now plus the skew, and a signature by the signer's key over the object
  without the omitted fields; and the signer is not revoked.
\<close>

theorem verify_accepts_sound:
  assumes "verifySignedObject E now skew rs obj opts seen = (Inr (), seen')" "\<not> skipNonce opts"
  shows "\<exists>sg n x xMs pk. field obj (sigField opts) = Some sg \<and>
    field obj ''nonce'' = Some n \<and> n \<noteq> '''' \<and> field obj ''exp'' = Some x \<and>
    dateMs E x = Some xMs \<and> now < xMs \<and>
    mapGet (prune now seen) n = None \<and> mapGet seen' n = Some xMs \<and>
    publicKeyFor rs (signerDid opts) (keyId opts) = Some pk \<and> \<not> isRevokedAt rs (signerDid opts) \<and>
    verifyDetached E (JObj (stripForSigning obj (omitFields opts))) sg pk \<and>
    (\<forall>i. field obj ''iat'' = Some i \<longrightarrow> (\<exists>iMs. dateMs E i = Some iMs \<and> iMs \<le> now + skew))"
  by (rule verify_accepts [OF assms]) auto

definition sampleResolver :: resolver where
  "sampleResolver = \<lparr>publicKeyFor = (\<lambda>d k. Some ''k''), isRevokedAt = (\<lambda>d. False)\<rparr>"

definition sampleBody :: "(string \<times> json) list" where
  "sampleBody = [(''nonce'', JStr ''n1''), (''iat'', JStr ''5''), (''exp'', JStr ''100'')]"

definition sampleSigned :: "(string \<times> json) list" where
  "sampleSigned = sampleBody @ [(''sig'', JStr (signDetached demo (JObj sampleBody) ''k'' ''kid''))]"

lemma sampleSigned_accepted:
  "verifySignedObject demo 10 2000 sampleResolver sampleSigned (sigOpts ''did:a'') [] = (Inr (), [(''n1'', 100)])"
  by code_simp

lemma verify_accepts_sound_witness:
  "verifyDetached demo (JObj (stripForSigning sampleSigned [''sig'']))
     (signDetached demo (JObj sampleBody) ''k'' ''kid'') ''k''"
  using verify_accepts_sound [OF sampleSigned_accepted]
  by (auto simp: sigOpts_def sampleSigned_def sampleBody_def sampleResolver_def)

text \<open>
  Claim C29. Replay protection: in any sequence of presentations of signed objects, whoever the
  signers are and however much time passes in between, of two presentations with the same nonce
  and expiry at most one is accepted.
\<close>

theorem signed_object_accepted_once:
  assumes "storeOk sc" "i < j" "j < length ps" "nonceMark E (ps ! i) = nonceMark E (ps ! j)"
    and "fst (presentAll E skew ps sc) ! i"
  shows "\<not> fst (presentAll E skew ps sc) ! j"
  using nonces.uses_once [OF assms(1-4)] assms(5) by (simp add: presentAll_uses)

definition samplePresentations :: "presentation list" where
  "samplePresentations =
     (let p = \<lparr>elapsed = 10, p_resolver = sampleResolver, p_obj = sampleSigned, p_opts = sigOpts ''did:a''\<rparr>
      in [p, p])"

lemma signed_object_accepted_once_witness:
  "fst (presentAll demo 2000 samplePresentations ([], 0)) ! 0 \<and>
   \<not> fst (presentAll demo 2000 samplePresentations ([], 0)) ! 1"
proof -
  have "fst (presentAll demo 2000 samplePresentations ([], 0)) ! 0" by code_simp
  moreover from this have "\<not> fst (presentAll demo 2000 samplePresentations ([], 0)) ! 1"
    by (rule signed_object_accepted_once [rotated -1])
      (simp_all add: storeOk_def samplePresentations_def Let_def)
  ultimately show ?thesis by simp
qed

text \<open>
  The nonce is consumed before the signature is checked: an object that passes the
  format and freshness tests but whose signature does not verify is rejected, yet its nonce is
  taken, and a genuine object with the same nonce is then rejected as a replay until the forged
  object's expiry.
\<close>

theorem forgery_burns_nonce:
  assumes forged: "field forgery (sigField opts) = Some sg" "sg \<noteq> ''''" "field forgery ''nonce'' = Some n" "n \<noteq> ''''"
      "field forgery ''iat'' = None" "field forgery ''exp'' = Some x" "x \<noteq> ''''" "dateMs E x = Some xMs" "now < xMs"
    and bad: "\<forall>pk. \<not> verifyDetached E (JObj (stripForSigning forgery (omitFields opts))) sg pk"
    and unseen: "mapGet (prune now seen) n = None" and dist: "distinctKeys seen"
    and genuine: "field obj ''nonce'' = Some n" "now \<le> later" "later < xMs"
    and opts: "\<not> skipNonce opts" "\<not> skipNonce opts2" and skew: "0 \<le> skew"
  shows "fst (verifySignedObject E now skew rs forgery opts seen) = Inl AuthError \<and>
    fst (verifySignedObject E later skew rs2 obj opts2 (snd (verifySignedObject E now skew rs forgery opts seen)))
      \<noteq> Inr ()"
proof -
  let ?s1 = "mapSet n xMs (prune now seen)"
  have run: "verifySignedObject E now skew rs forgery opts seen = (Inl AuthError, ?s1)"
    using forged bad unseen opts skew
    by (auto simp: verifySignedObject_def exec_simps checkIat_def checkExp_def consumeNonce_def
        checkSigner_def checkAndConsume_def nonEmpty_def Let_def split: option.splits)
  have d1: "distinctKeys ?s1" using prune_distinct [OF dist] by simp
  have taken: "mapGet (prune later ?s1) n = Some xMs"
    using mapGet_prune_eq [OF d1, of later n] genuine(3) by simp
  have "fst (verifySignedObject E later skew rs2 obj opts2 ?s1) \<noteq> Inr ()"
  proof
    assume "fst (verifySignedObject E later skew rs2 obj opts2 ?s1) = Inr ()"
    then obtain seen' where v: "verifySignedObject E later skew rs2 obj opts2 ?s1 = (Inr (), seen')"
      by (metis prod.collapse)
    show False by (rule verify_accepts [OF v opts(2)]) (use genuine(1) taken in auto)
  qed
  then show ?thesis by (simp add: run)
qed

definition sampleForgery :: "(string \<times> json) list" where
  "sampleForgery = [(''nonce'', JStr ''n1''), (''exp'', JStr ''100''), (''sig'', JStr ''junk'')]"

lemma forgery_burns_nonce_witness:
  "fst (verifySignedObject demo 10 2000 sampleResolver sampleSigned (sigOpts ''did:a'')
     (snd (verifySignedObject demo 9 2000 sampleResolver sampleForgery (sigOpts ''did:a'') []))) \<noteq> Inr ()"
proof -
  have "\<forall>pk. \<not> verifyDetached demo (JObj (stripForSigning sampleForgery (omitFields (sigOpts ''did:a'')))) ''junk'' pk"
    by (simp add: verifyDetached_def)
  moreover have "readInt ''100'' = Some 100" by code_simp
  ultimately show ?thesis
    using forgery_burns_nonce [where E = demo and now = 9 and later = 10 and skew = 2000 and seen = "[]"
        and forgery = sampleForgery and obj = sampleSigned and n = "''n1''" and x = "''100''" and xMs = 100
        and sg = "''junk''" and opts = "sigOpts ''did:a''" and ?opts2.0 = "sigOpts ''did:a''"
        and rs = sampleResolver and ?rs2.0 = sampleResolver]
    by (simp add: sampleForgery_def sampleSigned_def sampleBody_def sigOpts_def prune_def)
qed

end
