(* ===== verification/Identity.thy ===== *)
theory Identity
  imports Envelope
begin

text \<open>
  The DID registry, \<open>src/core/identity\<close>: passports, delegations, the revocation set and the
  keystore (\<open>memory.ts\<close>, \<open>keystore.ts\<close>), the resolver (\<open>identity-resolver.ts\<close>), registration,
  rotation and the kill switch (\<open>service.ts\<close>), the delegation administration
  (\<open>delegation-admin.ts\<close>) and the bootstrap surface (\<open>index.ts\<close>). Zod validation is the
  caller's: a policy arrives parsed, or as \<open>None\<close> where the schema rejects it. The handlers run
  on any state that holds the registry and the nonce store (\<open>auth\<close>), so that every component that
  verifies signatures extends it.
\<close>

section \<open>State\<close>

record identity_st =
  passports :: "(string, passport) jsmap"
  delegations :: "(string, delegation) jsmap"
  revokedDids :: "string list"
  keystore :: "(string, string) jsmap"

record auth =
  idn :: identity_st
  non :: nonce_st

record passport_input =
  in_passport :: passport
  in_nonce :: string
  in_iat :: string
  in_exp :: string

fun kycText :: "kyc_level \<Rightarrow> string" where
  "kycText Unverified = ''unverified''"
| "kycText PrincipalVerified = ''principal-verified''"
| "kycText Enhanced = ''enhanced''"

definition keyJson :: "passport_key \<Rightarrow> json" where
  "keyJson k = JObj [(''id'', JStr (key_id k)), (''type'', JStr ''Ed25519''), (''pub'', JStr (key_pub k))]"

text \<open>The wire object: the passport with its envelope.\<close>

definition passportObj :: "passport_input \<Rightarrow> (string \<times> json) list" where
  "passportObj i =
     (let p = in_passport i in
      [(''did'', JStr (did p)), (''controller'', JStr (controller p)),
       (''keys'', JArr (map keyJson (keys p))),
       (''services'', JObj (map (\<lambda>(k, v). (k, JStr v)) (services p))),
       (''delegation_ref'', nullable (delegation_ref p)),
       (''kyc_level'', JStr (kycText (kyc_level p))),
       (''nonce'', JStr (in_nonce i)), (''iat'', JStr (in_iat i)), (''exp'', JStr (in_exp i)),
       (''sig'', JStr (pass_sig p))])"

section \<open>Resolver\<close>

definition resolverOf :: "ext \<Rightarrow> identity_st \<Rightarrow> resolver" where
  "resolverOf E st =
     \<lparr>publicKeyFor = (\<lambda>d kid.
        case mapGet (passports st) d of
          None \<Rightarrow> None
        | Some p \<Rightarrow> (case passportSigningKey p kid of None \<Rightarrow> None | Some k \<Rightarrow> Some (b64uBytes E (key_pub k)))),
      isRevokedAt = (\<lambda>d. List.member (revokedDids st) d)\<rparr>"

definition activeDelegation :: "ext \<Rightarrow> int \<Rightarrow> string \<Rightarrow> identity_st \<Rightarrow> delegation option" where
  "activeDelegation E now d st =
     (if List.member (revokedDids st) d then None
      else
        (case mapGet (delegations st) d of
           None \<Rightarrow> None
         | Some dl \<Rightarrow> if delegationIsExpired E dl (isoOf E now) then None else Some dl))"

text \<open>Verification against the registry of the current state.\<close>

definition verifyAs ::
    "ext \<Rightarrow> int \<Rightarrow> int \<Rightarrow> (string \<times> json) list \<Rightarrow> verify_opts \<Rightarrow> ('a auth_scheme, unit) exec" where
  "verifyAs E now skew obj opts =
     (\<lambda>w. zoom non non_update (verifySignedObject E now skew (resolverOf E (idn w)) obj opts) w)"

definition onIdentity :: "(identity_st, 'r) exec \<Rightarrow> ('a auth_scheme, 'r) exec" where
  "onIdentity m = zoom idn idn_update m"

section \<open>Registration, rotation, revocation\<close>

definition putPassport :: "passport \<Rightarrow> (identity_st, unit) exec" where
  "putPassport p = modify (\<lambda>st. st\<lparr>passports := mapSet (did p) p (passports st)\<rparr>)"

definition didRole :: "string \<Rightarrow> ('s, did_role) exec" where
  "didRole d = (case parseDid d of Inl e \<Rightarrow> throw e | Inr (r, _) \<Rightarrow> ret r)"

text \<open>A resolver that knows one key: the passport's own.\<close>

definition selfResolver :: "string \<Rightarrow> resolver" where
  "selfResolver pub = \<lparr>publicKeyFor = (\<lambda>d kid. Some pub), isRevokedAt = (\<lambda>d. False)\<rparr>"

definition verifySelfSigned :: "ext \<Rightarrow> int \<Rightarrow> int \<Rightarrow> passport_input \<Rightarrow> ('a auth_scheme, unit) exec" where
  "verifySelfSigned E now skew i =
     (case keys (in_passport i) of
        [] \<Rightarrow> throw ValidationError
      | k # _ \<Rightarrow> zoom non non_update
          (verifySignedObject E now skew (selfResolver (b64uBytes E (key_pub k))) (passportObj i)
             (sigOpts (did (in_passport i)))))"

definition register :: "ext \<Rightarrow> int \<Rightarrow> int \<Rightarrow> passport_input \<Rightarrow> ('a auth_scheme, passport) exec" where
  "register E now skew i =
     (let p = in_passport i in
      bindE (gets (\<lambda>w. mapGet (passports (idn w)) (did p))) (\<lambda>existing.
      bindE (throwIf (existing \<noteq> None) ConflictError) (\<lambda>_.
      bindE (didRole (did p)) (\<lambda>role.
      let isSelfSigned = (controller p = did p) in
      bindE (throwIf (role = RAgent \<and> isSelfSigned) ValidationError) (\<lambda>_.
      bindE (throwIf (role \<noteq> RAgent \<and> \<not> isSelfSigned) ValidationError) (\<lambda>_.
      (case keys p of
         [] \<Rightarrow> throw ValidationError
       | firstKey # _ \<Rightarrow>
           bindE (throwIf (didFromPublicKey E (b64uBytes E (key_pub firstKey)) role \<noteq> did p) ValidationError) (\<lambda>_.
           bindE (if isSelfSigned then verifySelfSigned E now skew i
                  else
                    bindE (gets (\<lambda>w. mapGet (passports (idn w)) (controller p))) (\<lambda>c.
                    bindE (throwIf (c = None) ForbiddenError) (\<lambda>_.
                    verifyAs E now skew (passportObj i) (sigOpts (controller p))))) (\<lambda>_.
           bindE (onIdentity (putPassport p)) (\<lambda>_. ret p))))))))))"

definition resolvePassport :: "string \<Rightarrow> ('a auth_scheme, passport) exec" where
  "resolvePassport d =
     bindE (gets (\<lambda>w. mapGet (passports (idn w)) d)) (\<lambda>p. orThrow p NotFoundError)"

record rotate_input =
  new_key :: passport_key
  deprecate_key_id :: string
  rt_nonce :: string
  rt_iat :: string
  rt_exp :: string
  rt_sig :: string

definition rotateObj :: "rotate_input \<Rightarrow> (string \<times> json) list" where
  "rotateObj b =
     [(''new_key'', keyJson (new_key b)), (''deprecate_key_id'', JStr (deprecate_key_id b)),
      (''nonce'', JStr (rt_nonce b)), (''iat'', JStr (rt_iat b)), (''exp'', JStr (rt_exp b)),
      (''sig'', JStr (rt_sig b))]"

definition rotate :: "ext \<Rightarrow> int \<Rightarrow> int \<Rightarrow> string \<Rightarrow> rotate_input \<Rightarrow> ('a auth_scheme, passport \<times> string) exec" where
  "rotate E now skew d b =
     bindE (resolvePassport d) (\<lambda>p.
     bindE (throwIf (\<not> list_ex (\<lambda>k. key_id k = deprecate_key_id b) (keys p)) ValidationError) (\<lambda>_.
     bindE (throwIf (list_ex (\<lambda>k. key_id k = key_id (new_key b)) (keys p)) ConflictError) (\<lambda>_.
     bindE (verifyAs E now skew (rotateObj b) (sigOpts (controller p))) (\<lambda>_.
     let remaining = filter (\<lambda>k. key_id k \<noteq> deprecate_key_id b) (keys p);
         updated = p\<lparr>keys := remaining @ [new_key b]\<rparr> in
     bindE (onIdentity (putPassport updated)) (\<lambda>_. ret (updated, deprecate_key_id b))))))"

definition adminRevoke :: "string \<Rightarrow> (identity_st, unit) exec" where
  "adminRevoke d = modify (\<lambda>st. st\<lparr>revokedDids := List.insert d (revokedDids st)\<rparr>)"

text \<open>The revocation body as it arrives: \<open>reason\<close> is optional.\<close>

definition revoke :: "ext \<Rightarrow> int \<Rightarrow> int \<Rightarrow> string \<Rightarrow> (string \<times> json) list \<Rightarrow> ('a auth_scheme, unit) exec" where
  "revoke E now skew d body =
     bindE (resolvePassport d) (\<lambda>p.
     bindE (verifyAs E now skew body (sigOpts (controller p))) (\<lambda>_.
     onIdentity (adminRevoke d)))"

section \<open>Delegation administration\<close>

definition signingKid :: "string \<Rightarrow> string \<Rightarrow> string" where
  "signingKid d k = d @ k"

definition policyJson :: "delegation_policy \<Rightarrow> json" where
  "policyJson p =
     (let strs = (\<lambda>xs. JArr (map JStr xs)) in
      JObj [(''spend'', JObj [(''per_tx_max'', moneyJson (per_tx_max (spend p))),
                              (''daily_max'', moneyJson (daily_max (spend p))),
                              (''total_max'', moneyJson (total_max (spend p)))]),
            (''categories_allow'', strs (categories_allow p)),
            (''categories_deny'', strs (categories_deny p)),
            (''counterparties_allow'', strs (counterparties_allow p)),
            (''counterparties_deny'', strs (counterparties_deny p)),
            (''require_human_approval_over'', moneyJson (require_human_approval_over p)),
            (''messaging'', JObj [(''send'', JBool (send_allowed (messaging p))),
                                  (''max_postage_per_day'', JStr (max_postage_per_day (messaging p)))]),
            (''posting'', JObj [(''offers'', JBool (offers (posting p))), (''rfps'', JBool (rfps (posting p))),
                                (''max_post_spend_per_day'', JStr (max_post_spend_per_day (posting p)))]),
            (''escrow'', JObj [(''may_commit'', JBool (may_commit (escrow_pol p))),
                               (''max_escrow'', moneyJson (max_escrow (escrow_pol p)))]),
            (''may_stake'', JBool (may_stake p))])"

definition delegationBase :: "delegation \<Rightarrow> (string \<times> json) list" where
  "delegationBase dl =
     [(''type'', JArr [JStr ''VerifiableCredential'', JStr ''PraxisDelegation'']),
      (''issuer'', JStr (issuer dl)), (''subject'', JStr (subject dl)),
      (''policy'', policyJson (policy dl)), (''issued'', JStr (issued dl)),
      (''expires'', JStr (expires dl)), (''revocation'', JStr (revocation dl))]"

definition signWithIssuer :: "ext \<Rightarrow> identity_st \<Rightarrow> string \<Rightarrow> (string \<times> json) list \<Rightarrow> string" where
  "signWithIssuer E st who base =
     (case mapGet (passports st) who of
        None \<Rightarrow> ''''
      | Some p \<Rightarrow>
          (case passportSigningKey p None of
             None \<Rightarrow> ''''
           | Some k \<Rightarrow>
               (case mapGet (keystore st) (signingKid who (key_id k)) of
                  None \<Rightarrow> ''''
                | Some sk \<Rightarrow>
                    signDetached E (JObj (stripForSigning (base @ [(''sig'', JStr '''')]) [''sig''])) sk
                      (signingKid who (key_id k)))))"

definition buildDelegation ::
    "ext \<Rightarrow> int \<Rightarrow> identity_st \<Rightarrow> string \<Rightarrow> string \<Rightarrow> delegation_policy \<Rightarrow> string \<Rightarrow> delegation" where
  "buildDelegation E now st who subj pol expi =
     (let dl = \<lparr>issuer = who, subject = subj, policy = pol, issued = isoOf E now, expires = expi,
                revocation = ''praxis:revocations/'' @ subj, del_sig = ''''\<rparr>
      in dl\<lparr>del_sig := signWithIssuer E st who (delegationBase dl)\<rparr>)"

definition putDelegation :: "string \<Rightarrow> delegation \<Rightarrow> (identity_st, unit) exec" where
  "putDelegation d dl = modify (\<lambda>st. st\<lparr>delegations := mapSet d dl (delegations st)\<rparr>)"

definition issueDelegation ::
    "ext \<Rightarrow> int \<Rightarrow> string \<Rightarrow> string \<Rightarrow> delegation_policy option \<Rightarrow> string \<Rightarrow> (identity_st, delegation) exec" where
  "issueDelegation E now who subj parsed expi =
     bindE (orThrow parsed ValidationError) (\<lambda>pol.
     bindE (gets (\<lambda>st. buildDelegation E now st who subj pol expi)) (\<lambda>dl.
     bindE (putDelegation subj dl) (\<lambda>_. ret dl)))"

definition updateDelegation ::
    "ext \<Rightarrow> int \<Rightarrow> string \<Rightarrow> delegation_policy option \<Rightarrow> (identity_st, delegation) exec" where
  "updateDelegation E now subj parsed =
     bindE (gets (\<lambda>st. mapGet (delegations st) subj)) (\<lambda>x.
     bindE (orThrow x ValidationError) (\<lambda>existing.
     bindE (orThrow parsed ValidationError) (\<lambda>pol.
     bindE (gets (\<lambda>st. buildDelegation E now st (issuer existing) subj pol (expires existing))) (\<lambda>dl.
     bindE (putDelegation subj dl) (\<lambda>_. ret dl)))))"

definition listByPrincipal :: "string \<Rightarrow> identity_st \<Rightarrow> (string \<times> delegation option) list" where
  "listByPrincipal who st =
     map (\<lambda>p. (did p, mapGet (delegations st) (did p)))
       (filter (\<lambda>p. did p \<noteq> who)
         (filter (\<lambda>p. controller p = who) (mapValues (passports st))))"

section \<open>Bootstrap\<close>

definition registerKey :: "string \<Rightarrow> string \<Rightarrow> (identity_st, unit) exec" where
  "registerKey kid sk = modify (\<lambda>st. st\<lparr>keystore := mapSet kid sk (keystore st)\<rparr>)"

definition deriveKeyId :: "string \<Rightarrow> string \<Rightarrow> string" where
  "deriveKeyId d kid = (if startsWith kid d then drop (length d) kid else kid)"

definition seedCoreIdentity ::
    "ext \<Rightarrow> string \<Rightarrow> string \<Rightarrow> string \<Rightarrow> string \<Rightarrow> string \<Rightarrow> (identity_st, passport) exec" where
  "seedCoreIdentity E d ctl kid pub sk =
     (let p = \<lparr>did = d, controller = ctl, keys = [\<lparr>key_id = deriveKeyId d kid, key_pub = b64uOf E pub\<rparr>],
               services = [], delegation_ref = None, kyc_level = Enhanced, pass_sig = ''''\<rparr>
      in bindE (putPassport p) (\<lambda>_. bindE (registerKey kid sk) (\<lambda>_. ret p)))"

section \<open>What verification and the handlers touch\<close>

lemma verifyAs_idn: "verifyAs E now skew obj opts w = (r, w') \<Longrightarrow> idn w' = idn w"
  by (auto simp: verifyAs_def zoom_app split: prod.splits)

lemma verifySelfSigned_idn: "verifySelfSigned E now skew i w = (r, w') \<Longrightarrow> idn w' = idn w"
  by (auto simp: verifySelfSigned_def zoom_app split: list.splits prod.splits)

lemma onIdentity_app: "onIdentity m w = (case m (idn w) of (r, s) \<Rightarrow> (r, w\<lparr>idn := s\<rparr>))"
  by (simp add: onIdentity_def zoom_app)

lemma verify_not_revoked:
  "verifySignedObject E now skew rs obj opts seen = (Inr (), seen') \<Longrightarrow> \<not> isRevokedAt rs (signerDid opts)"
  by (auto simp: verifySignedObject_def exec_simps checkSigner_def
      split: if_splits option.splits prod.splits sum.splits)

lemma verifyAs_ok:
  assumes "verifyAs E now skew obj opts w = (Inr (), w')"
  shows "\<not> List.member (revokedDids (idn w)) (signerDid opts)"
    "\<exists>seen'. verifySignedObject E now skew (resolverOf E (idn w)) obj opts (non w) = (Inr (), seen')"
  using assms verify_not_revoked [of E now skew "resolverOf E (idn w)" obj opts "non w"]
  by (auto simp: verifyAs_def zoom_app resolverOf_def split: prod.splits)

text \<open>A successful registration, taken apart.\<close>

lemma register_ok:
  assumes "register E now skew i w = (Inr p, w')"
  obtains role did_id k ks w1 where "p = in_passport i" "mapGet (passports (idn w)) (did p) = None"
    "parseDid (did p) = Inr (role, did_id)" "role = RAgent \<longleftrightarrow> controller p \<noteq> did p"
    "keys p = k # ks" "didFromPublicKey E (b64uBytes E (key_pub k)) role = did p"
    "idn w' = (idn w)\<lparr>passports := mapSet (did p) p (passports (idn w))\<rparr>"
    "controller p = did p \<Longrightarrow> verifySelfSigned E now skew i w = (Inr (), w1)"
    "controller p \<noteq> did p \<Longrightarrow> mapGet (passports (idn w)) (controller p) \<noteq> None"
    "controller p \<noteq> did p \<Longrightarrow> verifyAs E now skew (passportObj i) (sigOpts (controller p)) w = (Inr (), w1)"
proof -
  let ?p = "in_passport i"
  have new: "mapGet (passports (idn w)) (did ?p) = None"
    using assms by (auto simp: register_def Let_def exec_simps split: if_splits)
  obtain role di where role: "parseDid (did ?p) = Inr (role, di)"
    using assms new by (auto simp: register_def Let_def exec_simps didRole_def split: sum.splits prod.splits)
  have self: "role = RAgent \<longleftrightarrow> controller ?p \<noteq> did ?p"
    using assms new role by (auto simp: register_def Let_def exec_simps didRole_def split: if_splits)
  obtain k ks where k: "keys ?p = k # ks"
    using assms new role self
    by (cases "keys ?p") (auto simp: register_def Let_def exec_simps didRole_def split: if_splits)
  have bind: "didFromPublicKey E (b64uBytes E (key_pub k)) role = did ?p"
    using assms new role self k by (auto simp: register_def Let_def exec_simps didRole_def split: if_splits)
  show ?thesis
  proof (cases "controller ?p = did ?p")
    case True
    then obtain w1 where v: "verifySelfSigned E now skew i w = (Inr (), w1)" "p = ?p"
        "w' = w1\<lparr>idn := (idn w1)\<lparr>passports := mapSet (did ?p) ?p (passports (idn w1))\<rparr>\<rparr>"
      using assms new role self k bind
      by (auto simp: register_def Let_def exec_simps didRole_def onIdentity_app putPassport_def
          split: if_splits prod.splits sum.splits)
    then show ?thesis using that [of role di k ks w1] new role self k bind True verifySelfSigned_idn [OF v(1)]
      by auto
  next
    case False
    then obtain w1 where v: "verifyAs E now skew (passportObj i) (sigOpts (controller ?p)) w = (Inr (), w1)" "p = ?p"
        "w' = w1\<lparr>idn := (idn w1)\<lparr>passports := mapSet (did ?p) ?p (passports (idn w1))\<rparr>\<rparr>"
        "mapGet (passports (idn w)) (controller ?p) \<noteq> None"
      using assms new role self k bind
      by (auto simp: register_def Let_def exec_simps didRole_def onIdentity_app putPassport_def
          split: if_splits prod.splits sum.splits)
    then show ?thesis using that [of role di k ks w1] new role self k bind False verifyAs_idn [OF v(1)]
      by auto
  qed
qed

lemma register_err:
  assumes "register E now skew i w = (Inl e, w')"
  shows "idn w' = idn w"
  using assms
  by (cases "mapGet (passports (idn w)) (did (in_passport i))"; cases "parseDid (did (in_passport i))";
      cases "keys (in_passport i)"; cases "controller (in_passport i) = did (in_passport i)")
    (auto simp: register_def Let_def exec_simps didRole_def onIdentity_app putPassport_def
      split: if_splits prod.splits sum.splits dest: verifyAs_idn verifySelfSigned_idn)

lemma rotate_out:
  assumes "rotate E now skew d b w = (r, w')"
  shows "idn w' = idn w \<or> (\<exists>p. mapGet (passports (idn w)) d = Some p \<and>
    list_ex (\<lambda>k. key_id k = deprecate_key_id b) (keys p) \<and>
    \<not> list_ex (\<lambda>k. key_id k = key_id (new_key b)) (keys p) \<and>
    fst (verifyAs E now skew (rotateObj b) (sigOpts (controller p)) w) = Inr () \<and>
    idn w' = (idn w)\<lparr>passports := mapSet (did p)
      (p\<lparr>keys := filter (\<lambda>k. key_id k \<noteq> deprecate_key_id b) (keys p) @ [new_key b]\<rparr>) (passports (idn w))\<rparr>)"
proof (cases "mapGet (passports (idn w)) d")
  case None
  then show ?thesis using assms by (auto simp: rotate_def resolvePassport_def exec_simps)
next
  case (Some p)
  obtain x w1 where v: "verifyAs E now skew (rotateObj b) (sigOpts (controller p)) w = (x, w1)"
    by (metis prod.collapse)
  show ?thesis using assms Some v verifyAs_idn [OF v]
    by (cases x) (auto simp: rotate_def resolvePassport_def exec_simps onIdentity_app putPassport_def Let_def
        split: if_splits)
qed

lemma revoke_out:
  assumes "revoke E now skew d body w = (r, w')"
  shows "(r \<noteq> Inr () \<and> idn w' = idn w) \<or> (r = Inr () \<and> (\<exists>p. mapGet (passports (idn w)) d = Some p \<and>
    fst (verifyAs E now skew body (sigOpts (controller p)) w) = Inr () \<and>
    idn w' = (idn w)\<lparr>revokedDids := List.insert d (revokedDids (idn w))\<rparr>))"
proof (cases "mapGet (passports (idn w)) d")
  case None
  then show ?thesis using assms by (auto simp: revoke_def resolvePassport_def exec_simps)
next
  case (Some p)
  obtain x w1 where v: "verifyAs E now skew body (sigOpts (controller p)) w = (x, w1)"
    by (metis prod.collapse)
  show ?thesis using assms Some v verifyAs_idn [OF v]
    by (cases x) (auto simp: revoke_def resolvePassport_def exec_simps onIdentity_app adminRevoke_def)
qed

section \<open>The registry invariant\<close>

text \<open>
  Every passport is stored under its own DID, has at least one key, and its controller is
  registered.
\<close>

definition identity_ok :: "identity_st \<Rightarrow> bool" where
  "identity_ok st \<longleftrightarrow> (\<forall>d p. mapGet (passports st) d = Some p \<longrightarrow>
     did p = d \<and> keys p \<noteq> [] \<and> mapGet (passports st) (controller p) \<noteq> None)"

lemma identity_ok_put:
  assumes "identity_ok st" "keys p \<noteq> []" "controller p = did p \<or> mapGet (passports st) (controller p) \<noteq> None"
  shows "identity_ok (st\<lparr>passports := mapSet (did p) p (passports st)\<rparr>)"
  using assms by (auto simp: identity_ok_def)

datatype id_op =
    Register int int passport_input
  | Rotate int int string rotate_input
  | Revoke int int string "(string \<times> json) list"
  | Issue int string string "delegation_policy option" string
  | Update int string "delegation_policy option"

fun runId :: "ext \<Rightarrow> id_op \<Rightarrow> ('a auth_scheme, unit) exec" where
  "runId E (Register now skew i) = bindE (register E now skew i) (\<lambda>_. ret ())"
| "runId E (Rotate now skew d b) = bindE (rotate E now skew d b) (\<lambda>_. ret ())"
| "runId E (Revoke now skew d body) = revoke E now skew d body"
| "runId E (Issue now who subj pol expi) = bindE (onIdentity (issueDelegation E now who subj pol expi)) (\<lambda>_. ret ())"
| "runId E (Update now subj pol) = bindE (onIdentity (updateDelegation E now subj pol)) (\<lambda>_. ret ())"

fun runIds :: "ext \<Rightarrow> id_op list \<Rightarrow> 'a auth_scheme \<Rightarrow> 'a auth_scheme" where
  "runIds E [] w = w"
| "runIds E (op # ops) w = runIds E ops (snd (runId E op w))"

lemma snd_bind_ret: "snd (bindE m (\<lambda>_. ret ()) w) = snd (m w)"
  by (simp add: bindE_app split: prod.split sum.split)

lemma runId_passports:
  assumes "identity_ok (idn w)"
  shows "identity_ok (idn (snd (runId E op w)))"
proof (cases op)
  case (Register now skew i)
  obtain r w' where r: "register E now skew i w = (r, w')" by (metis prod.collapse)
  show ?thesis
  proof (cases r)
    case (Inl e)
    then show ?thesis using r register_err [of E now skew i w e w'] assms Register by (simp add: snd_bind_ret)
  next
    case (Inr p)
    with r have "register E now skew i w = (Inr p, w')" by simp
    then show ?thesis
      by (rule register_ok) (use assms r Register identity_ok_put in \<open>auto simp: snd_bind_ret\<close>)
  qed
next
  case (Rotate now skew d b)
  obtain r w' where r: "rotate E now skew d b w = (r, w')" by (metis prod.collapse)
  from rotate_out [OF r] show ?thesis
  proof (elim disjE exE conjE)
    fix p
    assume p: "mapGet (passports (idn w)) d = Some p" and eq: "idn w' = (idn w)\<lparr>passports := mapSet (did p)
      (p\<lparr>keys := filter (\<lambda>k. key_id k \<noteq> deprecate_key_id b) (keys p) @ [new_key b]\<rparr>) (passports (idn w))\<rparr>"
    let ?p = "p\<lparr>keys := filter (\<lambda>k. key_id k \<noteq> deprecate_key_id b) (keys p) @ [new_key b]\<rparr>"
    have "mapGet (passports (idn w)) (controller ?p) \<noteq> None" using assms p by (simp add: identity_ok_def)
    then show ?thesis using identity_ok_put [OF assms, of ?p] eq r Rotate by (simp add: snd_bind_ret)
  qed (use r Rotate assms in \<open>simp add: snd_bind_ret\<close>)
next
  case (Revoke now skew d body)
  obtain r w' where r: "revoke E now skew d body w = (r, w')" by (metis prod.collapse)
  from revoke_out [OF r] show ?thesis using assms Revoke r by (auto simp: identity_ok_def)
next
  case (Issue now who subj pol expi)
  then show ?thesis using assms
    by (cases pol) (auto simp: snd_bind_ret onIdentity_app issueDelegation_def putDelegation_def exec_simps identity_ok_def)
next
  case (Update now subj pol)
  then show ?thesis using assms
    by (cases pol; cases "mapGet (delegations (idn w)) subj")
      (auto simp: snd_bind_ret onIdentity_app updateDelegation_def putDelegation_def exec_simps identity_ok_def)
qed

lemma runId_revoked:
  assumes "List.member (revokedDids (idn w)) d"
  shows "List.member (revokedDids (idn (snd (runId E op w)))) d"
proof (cases op)
  case (Register now skew i)
  obtain r w' where r: "register E now skew i w = (r, w')" by (metis prod.collapse)
  show ?thesis
  proof (cases r)
    case (Inl e)
    then show ?thesis using r register_err [of E now skew i w e w'] assms Register by (simp add: snd_bind_ret)
  next
    case (Inr p)
    with r have "register E now skew i w = (Inr p, w')" by simp
    then show ?thesis by (rule register_ok) (use assms r Register in \<open>auto simp: snd_bind_ret\<close>)
  qed
next
  case (Rotate now skew e b)
  obtain r w' where r: "rotate E now skew e b w = (r, w')" by (metis prod.collapse)
  from rotate_out [OF r] show ?thesis using assms Rotate r by (auto simp: snd_bind_ret)
next
  case (Revoke now skew e body)
  obtain r w' where r: "revoke E now skew e body w = (r, w')" by (metis prod.collapse)
  from revoke_out [OF r] show ?thesis using assms Revoke r by auto
next
  case (Issue now who subj pol expi)
  then show ?thesis using assms
    by (cases pol) (auto simp: snd_bind_ret onIdentity_app issueDelegation_def putDelegation_def exec_simps)
next
  case (Update now subj pol)
  then show ?thesis using assms
    by (cases pol; cases "mapGet (delegations (idn w)) subj")
      (auto simp: snd_bind_ret onIdentity_app updateDelegation_def putDelegation_def exec_simps)
qed

lemma runIds_revoked:
  "List.member (revokedDids (idn w)) d \<Longrightarrow> List.member (revokedDids (idn (runIds E ops w))) d"
proof (induction ops arbitrary: w)
  case (Cons op ops)
  show ?case using Cons.IH [OF runId_revoked [OF Cons.prems]] by simp
qed simp

lemma runIds_ok: "identity_ok (idn w) \<Longrightarrow> identity_ok (idn (runIds E ops w))"
  by (induction ops arbitrary: w) (simp_all add: runId_passports)

section \<open>Properties\<close>

definition orgKey :: string where
  "orgKey = ''OK''"

definition orgDid :: string where
  "orgDid = didFromPublicKey demo orgKey ROrg"

definition agentDid :: "string \<Rightarrow> string" where
  "agentDid k = didFromPublicKey demo k RAgent"

definition rawInput :: "string \<Rightarrow> string \<Rightarrow> string \<Rightarrow> string \<Rightarrow> passport_input" where
  "rawInput d ctl pub n =
     \<lparr>in_passport = \<lparr>did = d, controller = ctl, keys = [\<lparr>key_id = ''#1'', key_pub = pub\<rparr>], services = [],
        delegation_ref = None, kyc_level = Unverified, pass_sig = ''''\<rparr>,
      in_nonce = n, in_iat = ''5'', in_exp = ''100''\<rparr>"

definition signInput :: "string \<Rightarrow> passport_input \<Rightarrow> passport_input" where
  "signInput sk i = i\<lparr>in_passport := (in_passport i)\<lparr>pass_sig :=
     signDetached demo (JObj (stripForSigning (passportObj i) [''sig''])) sk ''kid''\<rparr>\<rparr>"

definition emptyAuth :: auth where
  "emptyAuth = \<lparr>idn = \<lparr>passports = [], delegations = [], revokedDids = [], keystore = []\<rparr>, non = []\<rparr>"

definition sampleIdOps :: "id_op list" where
  "sampleIdOps =
     [Register 10 2000 (signInput orgKey (rawInput orgDid orgDid orgKey ''n1'')),
      Register 11 2000 (signInput orgKey (rawInput (agentDid ''A1'') orgDid ''A1'' ''n2'')),
      Register 12 2000 (signInput orgKey (rawInput (agentDid ''A2'') orgDid ''A2'' ''n3''))]"

definition sampleAuth :: auth where
  "sampleAuth = runIds demo sampleIdOps emptyAuth"

lemma sampleAuth_ok: "identity_ok (idn sampleAuth)"
proof -
  have "identity_ok (idn emptyAuth)" by (simp add: identity_ok_def emptyAuth_def)
  then show ?thesis unfolding sampleAuth_def by (rule runIds_ok)
qed

definition sampleRegister :: "(app_error + passport) \<times> auth" where
  "sampleRegister = register demo 13 2000 (signInput orgKey (rawInput (agentDid ''A3'') orgDid ''A3'' ''n4'')) sampleAuth"

lemma sampleRegister_ok: "(case fst sampleRegister of Inl _ \<Rightarrow> False | Inr _ \<Rightarrow> True)"
  by code_simp

text \<open>
  Claim C35. Registration binds a DID to a key: when it returns, the DID was free, it is the hash
  of the first declared key under its role, the passport is stored under it, an agent is never
  its own controller and its controller is registered, and the object was signed with the first
  key of the controller (an organisation's own first key when it registers itself).
\<close>

theorem register_binds_key:
  assumes "register E now skew i w = (Inr p, w')"
  shows "\<exists>role did_id k ks pk sg. p = in_passport i \<and> parseDid (did p) = Inr (role, did_id) \<and> keys p = k # ks \<and>
    did p = didFromPublicKey E (b64uBytes E (key_pub k)) role \<and>
    mapGet (passports (idn w)) (did p) = None \<and> mapGet (passports (idn w')) (did p) = Some p \<and>
    (role = RAgent \<longleftrightarrow> controller p \<noteq> did p) \<and>
    (if controller p = did p then pk = b64uBytes E (key_pub k)
     else \<exists>c kc. mapGet (passports (idn w)) (controller p) = Some c \<and> passportSigningKey c None = Some kc \<and>
       pk = b64uBytes E (key_pub kc)) \<and>
    verifyDetached E (JObj (stripForSigning (passportObj i) [''sig''])) sg pk"
  using assms
proof (rule register_ok)
  fix role did_id k ks w1
  assume f: "p = in_passport i" "mapGet (passports (idn w)) (did p) = None"
    "parseDid (did p) = Inr (role, did_id)" "role = RAgent \<longleftrightarrow> controller p \<noteq> did p"
    "keys p = k # ks" "didFromPublicKey E (b64uBytes E (key_pub k)) role = did p"
    "idn w' = (idn w)\<lparr>passports := mapSet (did p) p (passports (idn w))\<rparr>"
    "controller p = did p \<Longrightarrow> verifySelfSigned E now skew i w = (Inr (), w1)"
    "controller p \<noteq> did p \<Longrightarrow> mapGet (passports (idn w)) (controller p) \<noteq> None"
    "controller p \<noteq> did p \<Longrightarrow> verifyAs E now skew (passportObj i) (sigOpts (controller p)) w = (Inr (), w1)"
  have "\<exists>pk sg. (if controller p = did p then pk = b64uBytes E (key_pub k)
     else \<exists>c kc. mapGet (passports (idn w)) (controller p) = Some c \<and> passportSigningKey c None = Some kc \<and>
       pk = b64uBytes E (key_pub kc)) \<and>
    verifyDetached E (JObj (stripForSigning (passportObj i) [''sig''])) sg pk"
  proof (cases "controller p = did p")
    case True
    then obtain seen' where "verifySignedObject E now skew (selfResolver (b64uBytes E (key_pub k)))
        (passportObj i) (sigOpts (did p)) (non w) = (Inr (), seen')"
      using f(8) f(1,5) by (auto simp: verifySelfSigned_def zoom_app split: prod.splits)
    then show ?thesis
      by (rule verify_accepts) (use True in \<open>auto simp: sigOpts_def selfResolver_def\<close>)
  next
    case False
    then obtain seen' where "verifySignedObject E now skew (resolverOf E (idn w)) (passportObj i)
        (sigOpts (controller p)) (non w) = (Inr (), seen')"
      using verifyAs_ok(2) [OF f(10)] by blast
    then show ?thesis
      by (rule verify_accepts) (use False in \<open>auto simp: sigOpts_def resolverOf_def split: option.splits\<close>)
  qed
  then show ?thesis using f(1-7) by auto
qed

lemma register_binds_key_witness:
  "\<exists>p w'. sampleRegister = (Inr p, w') \<and> mapGet (passports (idn w')) (did p) = Some p"
proof -
  obtain p where "fst sampleRegister = Inr p"
    using sampleRegister_ok by (cases "fst sampleRegister") auto
  then obtain w' where r: "sampleRegister = (Inr p, w')" by (metis prod.collapse)
  from register_binds_key [OF r [unfolded sampleRegister_def]] r show ?thesis by blast
qed

text \<open>
  The registry stays well formed under every sequence of registrations, rotations,
  revocations and delegation changes, failed ones included: every passport is stored under its own
  DID, has at least one key, and its controller is registered.
\<close>

theorem registry_well_formed:
  assumes "identity_ok (idn w)"
  shows "identity_ok (idn (runIds E ops w))"
  by (rule runIds_ok [OF assms])

lemma registry_well_formed_witness: "identity_ok (idn (runIds demo sampleIdOps sampleAuth))"
  by (rule registry_well_formed [OF sampleAuth_ok])

text \<open>
  The kill switch is immediate and permanent: once a revocation returns, no sequence of
  registry operations makes the agent usable again; it has no active delegation at any time and no
  object it signs passes verification.
\<close>

theorem revocation_is_final:
  assumes "revoke E now skew d body w = (Inr (), w')"
  shows "activeDelegation E t d (idn (runIds E ops w')) = None \<and>
    (signerDid opts = d \<longrightarrow> fst (verifyAs E t skew2 obj opts (runIds E ops w')) \<noteq> Inr ())"
proof -
  have "List.member (revokedDids (idn w')) d" using revoke_out [OF assms] by auto
  then have m: "List.member (revokedDids (idn (runIds E ops w'))) d" by (rule runIds_revoked)
  have "fst (verifyAs E t skew2 obj opts (runIds E ops w')) \<noteq> Inr ()" if "signerDid opts = d"
  proof
    assume "fst (verifyAs E t skew2 obj opts (runIds E ops w')) = Inr ()"
    then obtain x where "verifyAs E t skew2 obj opts (runIds E ops w') = (Inr (), x)" by (metis prod.collapse)
    from verifyAs_ok(1) [OF this] m that show False by simp
  qed
  then show ?thesis using m by (simp add: activeDelegation_def)
qed

definition sampleRevokeBody :: "(string \<times> json) list" where
  "sampleRevokeBody =
     (let b = [(''nonce'', JStr ''n9''), (''iat'', JStr ''5''), (''exp'', JStr ''100'')]
      in b @ [(''sig'', JStr (signDetached demo (JObj b) orgKey ''kid''))])"

lemma sampleRevoke: "\<exists>w'. revoke demo 20 2000 (agentDid ''A1'') sampleRevokeBody sampleAuth = (Inr (), w')"
proof -
  have "fst (revoke demo 20 2000 (agentDid ''A1'') sampleRevokeBody sampleAuth) = Inr ()" by code_simp
  then show ?thesis by (metis prod.collapse)
qed

lemma revocation_is_final_witness:
  "\<exists>w'. revoke demo 20 2000 (agentDid ''A1'') sampleRevokeBody sampleAuth = (Inr (), w') \<and>
     activeDelegation demo 21 (agentDid ''A1'') (idn (runIds demo sampleIdOps w')) = None"
  using sampleRevoke revocation_is_final by blast

text \<open>
  A revocation order does not name its target: the signed body covers no DID, so an
  order that is accepted for one agent is accepted in the same state for every other agent of the
  same controller, and revokes that agent instead.
\<close>

theorem revoke_order_redirects:
  assumes "revoke E now skew d body w = (Inr (), w1)"
    and "mapGet (passports (idn w)) d = Some p" "mapGet (passports (idn w)) d2 = Some p2"
    and "controller p2 = controller p"
  shows "\<exists>w2. revoke E now skew d2 body w = (Inr (), w2) \<and> List.member (revokedDids (idn w2)) d2"
proof -
  obtain x where "verifyAs E now skew body (sigOpts (controller p)) w = (Inr (), x)"
    using revoke_out [OF assms(1)] assms(2) by (metis option.inject prod.collapse)
  then show ?thesis using assms(3,4)
    by (simp add: revoke_def resolvePassport_def exec_simps onIdentity_app adminRevoke_def)
qed

lemma revoke_order_redirects_witness:
  "\<exists>w2. revoke demo 20 2000 (agentDid ''A2'') sampleRevokeBody sampleAuth = (Inr (), w2) \<and>
     List.member (revokedDids (idn w2)) (agentDid ''A2'')"
proof -
  have "map_option controller (mapGet (passports (idn sampleAuth)) (agentDid ''A1'')) = Some orgDid"
    "map_option controller (mapGet (passports (idn sampleAuth)) (agentDid ''A2'')) = Some orgDid"
    by code_simp+
  then obtain p p2 where "mapGet (passports (idn sampleAuth)) (agentDid ''A1'') = Some p"
      "mapGet (passports (idn sampleAuth)) (agentDid ''A2'') = Some p2" "controller p2 = controller p"
    by auto
  then show ?thesis using revoke_order_redirects sampleRevoke by blast
qed

end
