(* ===== verification/Wallet.thy ===== *)
theory Wallet
  imports Domain
begin

text \<open>
  The internal value store, \<open>src/features/settlement/wallet\<close>: rows of available and held funds
  keyed by \<open>did::currency\<close>, holds, and the spend accumulators that policy reads. The in-memory
  repositories hand out the stored object itself, so an assignment to a field of a row or hold is
  an update of the map (\<open>putRow\<close>, \<open>putHold\<close>) at the point of the assignment.

  The critical sections the service serialises with \<open>withLock\<close> run as one step. \<open>release\<close>,
  \<open>capture\<close> and \<open>forfeit\<close> read the hold and test its state before they enter the section;
  \<open>activeHold\<close> is that test and \<open>releaseLocked\<close>, \<open>captureLocked\<close>, \<open>forfeitLocked\<close> are the
  sections.

  The invariant \<open>wallet_ok\<close> says that all amounts are numbers, that available funds are never
  negative and that the held amount of every key is the sum of its active holds. \<open>worth\<close> is the
  total value of a currency. The locale \<open>value_store\<close> is the contract of \<open>ValueTransferPort\<close>.
\<close>

section \<open>State\<close>

record wallet_row =
  w_did :: string
  w_currency :: string
  available :: string
  held :: string

datatype hold_state = Active | Released | Captured | Forfeited

record hold_row =
  holdId :: string
  h_did :: string
  h_amount :: string
  h_currency :: string
  h_ref :: string
  h_state :: hold_state
  h_createdAt :: string

record spend_row =
  s_did :: string
  s_currency :: string
  s_total :: string
  dailyBucket :: string
  dailyAmount :: string

record wallet_st =
  rows :: "(string, wallet_row) jsmap"
  holds :: "(string, hold_row) jsmap"
  spends :: "(string, spend_row) jsmap"
  drawn :: nat

definition walletKey :: "string \<Rightarrow> string \<Rightarrow> string" where
  "walletKey d c = d @ ''::'' @ c"

abbreviation rowKey :: "wallet_row \<Rightarrow> string" where
  "rowKey r \<equiv> walletKey (w_did r) (w_currency r)"

abbreviation holdKey :: "hold_row \<Rightarrow> string" where
  "holdKey h \<equiv> walletKey (h_did h) (h_currency h)"

section \<open>Repositories\<close>

definition putRow :: "wallet_row \<Rightarrow> (wallet_st, unit) exec" where
  "putRow r = modify (\<lambda>st. st\<lparr>rows := mapSet (rowKey r) r (rows st)\<rparr>)"

definition putHold :: "hold_row \<Rightarrow> (wallet_st, unit) exec" where
  "putHold h = modify (\<lambda>st. st\<lparr>holds := mapSet (holdId h) h (holds st)\<rparr>)"

definition getOrCreate :: "string \<Rightarrow> string \<Rightarrow> (wallet_st, wallet_row) exec" where
  "getOrCreate d c =
     bindE (gets (\<lambda>st. mapGet (rows st) (walletKey d c))) (\<lambda>existing.
     case existing of
       Some r \<Rightarrow> ret r
     | None \<Rightarrow>
         (let fresh = \<lparr>w_did = d, w_currency = c, available = ''0'', held = ''0''\<rparr>
          in bindE (putRow fresh) (\<lambda>_. ret fresh)))"

definition listByDid :: "string \<Rightarrow> wallet_st \<Rightarrow> wallet_row list" where
  "listByDid d st = filter (\<lambda>r. w_did r = d) (mapValues (rows st))"

definition newHoldId :: "ext \<Rightarrow> (wallet_st, string) exec" where
  "newHoldId E =
     bindE (gets drawn) (\<lambda>n.
     bindE (modify (\<lambda>st. st\<lparr>drawn := Suc n\<rparr>)) (\<lambda>_. ret (''hold_'' @ ulid E n)))"

section \<open>Operations\<close>

definition assertPositive :: "ext \<Rightarrow> money \<Rightarrow> ('s, unit) exec" where
  "assertPositive E m =
     (case bigVal E (amount m) of
        None \<Rightarrow> throw ValidationError
      | Some v \<Rightarrow> if v \<le> 0 then throw ValidationError else ret ())"

definition balanceOf :: "string \<Rightarrow> string \<Rightarrow> wallet_st \<Rightarrow> money" where
  "balanceOf d c st =
     \<lparr>amount = (case mapGet (rows st) (walletKey d c) of None \<Rightarrow> ''0'' | Some r \<Rightarrow> available r),
      currency = c\<rparr>"

definition credit :: "ext \<Rightarrow> string \<Rightarrow> money \<Rightarrow> (wallet_st, unit) exec" where
  "credit E d m =
     bindE (assertPositive E m) (\<lambda>_.
     bindE (getOrCreate d (currency m)) (\<lambda>row.
     bindE (plusE E (available row) (amount m)) (\<lambda>a.
     putRow (row\<lparr>available := a\<rparr>))))"

definition debit :: "ext \<Rightarrow> string \<Rightarrow> money \<Rightarrow> (wallet_st, unit) exec" where
  "debit E d m =
     bindE (assertPositive E m) (\<lambda>_.
     bindE (getOrCreate d (currency m)) (\<lambda>row.
     bindE (ltE E (available row) (amount m)) (\<lambda>short.
     bindE (throwIf short PaymentRequiredError) (\<lambda>_.
     bindE (minusE E (available row) (amount m)) (\<lambda>a.
     putRow (row\<lparr>available := a\<rparr>))))))"

definition hold :: "ext \<Rightarrow> int \<Rightarrow> string \<Rightarrow> money \<Rightarrow> string \<Rightarrow> (wallet_st, string) exec" where
  "hold E now d m ref =
     bindE (assertPositive E m) (\<lambda>_.
     bindE (getOrCreate d (currency m)) (\<lambda>row.
     bindE (ltE E (available row) (amount m)) (\<lambda>short.
     bindE (throwIf short PaymentRequiredError) (\<lambda>_.
     bindE (minusE E (available row) (amount m)) (\<lambda>a.
     bindE (putRow (row\<lparr>available := a\<rparr>)) (\<lambda>_.
     bindE (plusE E (held row) (amount m)) (\<lambda>h.
     bindE (putRow (row\<lparr>available := a, held := h\<rparr>)) (\<lambda>_.
     bindE (newHoldId E) (\<lambda>i.
     bindE (putHold \<lparr>holdId = i, h_did = d, h_amount = amount m, h_currency = currency m,
                     h_ref = ref, h_state = Active, h_createdAt = isoOf E now\<rparr>) (\<lambda>_.
     ret i))))))))))"

text \<open>The look-up and state test that precede the critical section.\<close>

definition activeHold :: "string \<Rightarrow> (wallet_st, hold_row) exec" where
  "activeHold i =
     bindE (gets (\<lambda>st. mapGet (holds st) i)) (\<lambda>found.
     bindE (orThrow found NotFoundError) (\<lambda>h.
     bindE (throwIf (h_state h \<noteq> Active) ConflictError) (\<lambda>_. ret h)))"

definition releaseLocked :: "ext \<Rightarrow> hold_row \<Rightarrow> (wallet_st, unit) exec" where
  "releaseLocked E h =
     bindE (getOrCreate (h_did h) (h_currency h)) (\<lambda>row.
     bindE (minusE E (held row) (h_amount h)) (\<lambda>hd'.
     bindE (putRow (row\<lparr>held := hd'\<rparr>)) (\<lambda>_.
     bindE (plusE E (available row) (h_amount h)) (\<lambda>av'.
     bindE (putRow (row\<lparr>held := hd', available := av'\<rparr>)) (\<lambda>_.
     putHold (h\<lparr>h_state := Released\<rparr>))))))"

definition release :: "ext \<Rightarrow> string \<Rightarrow> (wallet_st, unit) exec" where
  "release E i = bindE (activeHold i) (\<lambda>h. releaseLocked E h)"

definition captureLocked :: "ext \<Rightarrow> hold_row \<Rightarrow> string \<Rightarrow> (wallet_st, unit) exec" where
  "captureLocked E h dest =
     bindE (getOrCreate (h_did h) (h_currency h)) (\<lambda>src.
     bindE (minusE E (held src) (h_amount h)) (\<lambda>hd'.
     bindE (putRow (src\<lparr>held := hd'\<rparr>)) (\<lambda>_.
     bindE (getOrCreate dest (h_currency h)) (\<lambda>recipient.
     bindE (plusE E (available recipient) (h_amount h)) (\<lambda>av'.
     bindE (putRow (recipient\<lparr>available := av'\<rparr>)) (\<lambda>_.
     putHold (h\<lparr>h_state := Captured\<rparr>)))))))"

definition capture :: "ext \<Rightarrow> string \<Rightarrow> string \<Rightarrow> (wallet_st, unit) exec" where
  "capture E i dest = bindE (activeHold i) (\<lambda>h. captureLocked E h dest)"

text \<open>\<open>split\<close> is \<open>Some (toRecipient, burnFraction)\<close>; without it the whole hold is burned.\<close>

definition forfeitLocked ::
    "ext \<Rightarrow> hold_row \<Rightarrow> (string \<times> rat) option \<Rightarrow> string \<Rightarrow> (wallet_st, unit) exec" where
  "forfeitLocked E h split toRecipientAmount =
     bindE (getOrCreate (h_did h) (h_currency h)) (\<lambda>src.
     bindE (minusE E (held src) (h_amount h)) (\<lambda>hd'.
     bindE (putRow (src\<lparr>held := hd'\<rparr>)) (\<lambda>_.
     bindE (bigE E toRecipientAmount) (\<lambda>part.
     bindE (case split of
              None \<Rightarrow> ret ()
            | Some (toRecipient, burnFraction) \<Rightarrow>
                if part > 0 then
                  bindE (getOrCreate toRecipient (h_currency h)) (\<lambda>recipient.
                  bindE (plusE E (available recipient) toRecipientAmount) (\<lambda>av'.
                  putRow (recipient\<lparr>available := av'\<rparr>)))
                else ret ()) (\<lambda>_.
     putHold (h\<lparr>h_state := Forfeited\<rparr>))))))"

definition forfeit :: "ext \<Rightarrow> string \<Rightarrow> (string \<times> rat) option \<Rightarrow> (wallet_st, unit) exec" where
  "forfeit E i split =
     bindE (activeHold i) (\<lambda>h.
     let burnFraction = (case split of None \<Rightarrow> 1 | Some (_, f) \<Rightarrow> f) in
     bindE (throwIf (burnFraction < 0 \<or> burnFraction > 1) ValidationError) (\<lambda>_.
     bindE (timesE E (h_amount h) burnFraction) (\<lambda>burned.
     bindE (minusE E (h_amount h) burned) (\<lambda>toRecipientAmount.
     forfeitLocked E h split toRecipientAmount))))"

definition walletRowToBalance :: "wallet_row \<Rightarrow> money \<times> money" where
  "walletRowToBalance r =
     (\<lparr>amount = available r, currency = w_currency r\<rparr>, \<lparr>amount = held r, currency = w_currency r\<rparr>)"

definition balances :: "string \<Rightarrow> wallet_st \<Rightarrow> (string \<times> money \<times> money) list" where
  "balances d st = map (\<lambda>r. (w_currency r, walletRowToBalance r)) (listByDid d st)"

section \<open>Spend accumulators\<close>

record spend_usage =
  dailySpent :: money
  totalSpent :: money

text \<open>\<open>new Date(nowMs).toISOString().slice(0, 10)\<close>: the UTC day.\<close>

definition utcDayBucket :: "ext \<Rightarrow> int \<Rightarrow> string" where
  "utcDayBucket E now = take 10 (isoOf E now)"

text \<open>Only the USDC row is fetched.\<close>

definition allSpendRows :: "string \<Rightarrow> wallet_st \<Rightarrow> spend_row list" where
  "allSpendRows d st =
     (case mapGet (spends st) (walletKey d ''USDC'') of None \<Rightarrow> [] | Some r \<Rightarrow> [r])"

fun usageLoop :: "ext \<Rightarrow> string \<Rightarrow> string \<Rightarrow> spend_row list \<Rightarrow> string \<Rightarrow> string \<Rightarrow>
    ('s, string \<times> string) exec" where
  "usageLoop E cur today [] tot day = ret (tot, day)"
| "usageLoop E cur today (r # rs) tot day =
     (if s_currency r \<noteq> cur then usageLoop E cur today rs tot day
      else
        bindE (plusE E tot (s_total r)) (\<lambda>tot'.
        bindE (if dailyBucket r = today then plusE E day (dailyAmount r) else ret day) (\<lambda>day'.
        usageLoop E cur today rs tot' day')))"

definition usage :: "ext \<Rightarrow> int \<Rightarrow> string \<Rightarrow> (wallet_st, spend_usage) exec" where
  "usage E now d =
     bindE (gets (allSpendRows d)) (\<lambda>rs.
     case rs of
       [] \<Rightarrow> ret \<lparr>dailySpent = mZero ''USDC'', totalSpent = mZero ''USDC''\<rparr>
     | r # _ \<Rightarrow>
         bindE (usageLoop E (s_currency r) (utcDayBucket E now) rs ''0'' ''0'') (\<lambda>(tot, day).
         ret \<lparr>dailySpent = \<lparr>amount = day, currency = s_currency r\<rparr>,
              totalSpent = \<lparr>amount = tot, currency = s_currency r\<rparr>\<rparr>))"

definition spendGetOrCreate :: "string \<Rightarrow> string \<Rightarrow> (wallet_st, spend_row) exec" where
  "spendGetOrCreate d c =
     bindE (gets (\<lambda>st. mapGet (spends st) (walletKey d c))) (\<lambda>existing.
     case existing of
       Some r \<Rightarrow> ret r
     | None \<Rightarrow>
         (let fresh = \<lparr>s_did = d, s_currency = c, s_total = ''0'', dailyBucket = '''', dailyAmount = ''0''\<rparr>
          in bindE (modify (\<lambda>st. st\<lparr>spends := mapSet (walletKey d c) fresh (spends st)\<rparr>))
               (\<lambda>_. ret fresh)))"

definition recordSpend :: "ext \<Rightarrow> int \<Rightarrow> string \<Rightarrow> money \<Rightarrow> (wallet_st, unit) exec" where
  "recordSpend E now d m =
     bindE (assertPositive E m) (\<lambda>_.
     let today = utcDayBucket E now in
     bindE (spendGetOrCreate d (currency m)) (\<lambda>row.
     bindE (plusE E (s_total row) (amount m)) (\<lambda>t.
     bindE (if dailyBucket row = today then plusE E (dailyAmount row) (amount m)
            else ret (amount m)) (\<lambda>a.
     let nxt = row\<lparr>s_total := t, dailyBucket := today, dailyAmount := a\<rparr> in
     modify (\<lambda>st. st\<lparr>spends := mapSet (walletKey (s_did nxt) (s_currency nxt)) nxt (spends st)\<rparr>)))))"

end
