(* ===== verification/Wallet_Laws.thy ===== *)
theory Wallet_Laws
  imports Wallet
begin

text \<open>
  What the wallet operations do to the accounts: \<open>availAt\<close> and \<open>heldAt\<close> read a row map as two
  functions from keys to numbers, and each operation is characterised as an update of these
  functions (the \<open>_effect\<close> lemmas). From the effects follow the invariant \<open>wallet_ok\<close> and the
  conservation of \<open>worth\<close>.
\<close>

section \<open>Accounts as functions of the key\<close>

definition availAt :: "ext \<Rightarrow> (string, wallet_row) jsmap \<Rightarrow> string \<Rightarrow> rat" where
  "availAt E rs k = (case mapGet rs k of None \<Rightarrow> 0 | Some r \<Rightarrow> bv E (available r))"

definition heldAt :: "ext \<Rightarrow> (string, wallet_row) jsmap \<Rightarrow> string \<Rightarrow> rat" where
  "heldAt E rs k = (case mapGet rs k of None \<Rightarrow> 0 | Some r \<Rightarrow> bv E (held r))"

definition rowsOk :: "ext \<Rightarrow> (string, wallet_row) jsmap \<Rightarrow> bool" where
  "rowsOk E rs \<longleftrightarrow> distinctKeys rs \<and>
     (\<forall>k r. mapGet rs k = Some r \<longrightarrow> k = rowKey r \<and>
        (\<exists>a. bigVal E (available r) = Some a \<and> 0 \<le> a) \<and> (\<exists>h. bigVal E (held r) = Some h))"

definition worthBy :: "ext \<Rightarrow> (string \<Rightarrow> bool) \<Rightarrow> (string, wallet_row) jsmap \<Rightarrow> rat" where
  "worthBy E K rs =
     sumEntries (\<lambda>(k, r). if K k then bv E (available r) + bv E (held r) else 0) rs"

definition goodRow :: "ext \<Rightarrow> wallet_row \<Rightarrow> rat \<Rightarrow> rat \<Rightarrow> bool" where
  "goodRow E r a h \<longleftrightarrow> bigVal E (available r) = Some a \<and> 0 \<le> a \<and> bigVal E (held r) = Some h"

lemma rowsOk_goodRow:
  "rowsOk E rs \<Longrightarrow> mapGet rs k = Some r \<Longrightarrow>
   k = rowKey r \<and> goodRow E r (availAt E rs k) (heldAt E rs k)"
  by (fastforce simp: rowsOk_def goodRow_def availAt_def heldAt_def)

lemma rowsOk_mapSet:
  "rowsOk E rs \<Longrightarrow> goodRow E r a h \<Longrightarrow> rowsOk E (mapSet (rowKey r) r rs)"
  by (auto simp: rowsOk_def goodRow_def)

lemma availAt_mapSet [simp]:
  "availAt E (mapSet k r rs) = (availAt E rs)(k := bv E (available r))"
  by (rule HOL.ext) (simp add: availAt_def)

lemma heldAt_mapSet [simp]:
  "heldAt E (mapSet k r rs) = (heldAt E rs)(k := bv E (held r))"
  by (rule HOL.ext) (simp add: heldAt_def)

lemma availAt_nonneg: "rowsOk E rs \<Longrightarrow> 0 \<le> availAt E rs k"
  by (fastforce simp: rowsOk_def availAt_def split: option.splits)

lemma worthBy_mapSet:
  "distinctKeys rs \<Longrightarrow> worthBy E K (mapSet k r rs) =
     worthBy E K rs +
     (if K k then bv E (available r) + bv E (held r) - (availAt E rs k + heldAt E rs k) else 0)"
  unfolding worthBy_def by (simp add: sumEntries_mapSet availAt_def heldAt_def split: option.splits)

lemma rowsOk_distinct: "rowsOk E rs \<Longrightarrow> distinctKeys rs"
  by (simp add: rowsOk_def)

section \<open>Effects of the operations on the accounts\<close>

text \<open>
  \<open>moves E rs rs' av hl\<close>: the row map goes from \<open>rs\<close> to \<open>rs'\<close>, available funds change by \<open>av\<close>
  and held funds by \<open>hl\<close>, both functions of the key.
\<close>

definition moves ::
    "ext \<Rightarrow> (string, wallet_row) jsmap \<Rightarrow> (string, wallet_row) jsmap \<Rightarrow>
     (string \<Rightarrow> rat) \<Rightarrow> (string \<Rightarrow> rat) \<Rightarrow> bool" where
  "moves E rs rs' av hl \<longleftrightarrow>
     rowsOk E rs' \<and> (\<forall>k. availAt E rs' k = availAt E rs k + av k) \<and>
     (\<forall>k. heldAt E rs' k = heldAt E rs k + hl k)"

definition bump :: "string \<Rightarrow> rat \<Rightarrow> string \<Rightarrow> rat" where
  "bump k v = (\<lambda>k'. if k' = k then v else 0)"

lemma bump_same [simp]: "bump k v k = v"
  by (simp add: bump_def)

lemma bump_other [simp]: "k' \<noteq> k \<Longrightarrow> bump k v k' = 0"
  by (simp add: bump_def)

lemma movesD:
  assumes "moves E rs rs' av hl"
  shows "rowsOk E rs'" "availAt E rs' k = availAt E rs k + av k" "heldAt E rs' k = heldAt E rs k + hl k"
  using assms by (simp_all add: moves_def)

lemma moves_refl: "rowsOk E rs \<Longrightarrow> moves E rs rs (\<lambda>_. 0) (\<lambda>_. 0)"
  by (simp add: moves_def)

lemma moves_trans:
  "moves E rs rs1 a1 h1 \<Longrightarrow> moves E rs1 rs2 a2 h2 \<Longrightarrow>
   moves E rs rs2 (\<lambda>k. a1 k + a2 k) (\<lambda>k. h1 k + h2 k)"
  by (simp add: moves_def)

text \<open>Worth is a sum of the accounts over the keys of the map.\<close>

lemma worthBy_keys:
  assumes "distinctKeys rs"
  shows "worthBy E K rs = (\<Sum>k | k \<in> fst ` set rs \<and> K k. availAt E rs k + heldAt E rs k)"
  using assms
proof (induction rs)
  case Nil
  then show ?case by (simp add: worthBy_def)
next
  case (Cons p rs)
  obtain k r where p: "p = (k, r)" by (cases p)
  with Cons.prems have k: "k \<notin> fst ` set rs" by simp
  let ?S = "{j \<in> fst ` set rs. K j}"
  have same: "(\<Sum>j\<in>?S. availAt E (p # rs) j + heldAt E (p # rs) j)
      = (\<Sum>j\<in>?S. availAt E rs j + heldAt E rs j)"
    using k p by (intro sum.cong) (auto simp: availAt_def heldAt_def)
  have step: "worthBy E K (p # rs) =
      (if K k then bv E (available r) + bv E (held r) else 0) + worthBy E K rs"
    by (simp add: worthBy_def p)
  have keys: "{j. j \<in> fst ` set (p # rs) \<and> K j} = (if K k then insert k ?S else ?S)"
    using p by auto
  have head: "availAt E (p # rs) k = bv E (available r)" "heldAt E (p # rs) k = bv E (held r)"
    by (simp_all add: availAt_def heldAt_def p)
  have IH: "worthBy E K rs = (\<Sum>j\<in>?S. availAt E rs j + heldAt E rs j)"
    using Cons by (simp add: conj_commute)
  show ?case
    unfolding step keys IH using k same head by (simp add: sum.insert_if)
qed

lemma worthBy_superset:
  assumes "distinctKeys rs" "finite S" "fst ` set rs \<subseteq> S"
  shows "worthBy E K rs = (\<Sum>k | k \<in> S \<and> K k. availAt E rs k + heldAt E rs k)"
  unfolding worthBy_keys [OF assms(1)]
proof (rule sum.mono_neutral_left)
  show "finite {k. k \<in> S \<and> K k}" using assms(2) by simp
  show "{k. k \<in> fst ` set rs \<and> K k} \<subseteq> {k. k \<in> S \<and> K k}" using assms(3) by auto
  show "\<forall>k\<in>{k. k \<in> S \<and> K k} - {k. k \<in> fst ` set rs \<and> K k}.
      availAt E rs k + heldAt E rs k = 0"
  proof
    fix k
    assume "k \<in> {k. k \<in> S \<and> K k} - {k. k \<in> fst ` set rs \<and> K k}"
    then have "mapGet rs k = None" by (auto simp: mapGet_None_iff)
    then show "availAt E rs k + heldAt E rs k = 0" by (simp add: availAt_def heldAt_def)
  qed
qed

lemma moves_worth:
  assumes ok: "rowsOk E rs" and m: "moves E rs rs' av hl"
    and fin: "finite ks" and supp: "\<And>k. k \<notin> ks \<Longrightarrow> av k + hl k = 0"
  shows "worthBy E K rs' = worthBy E K rs + (\<Sum>k | k \<in> ks \<and> K k. av k + hl k)"
proof -
  let ?S = "fst ` set rs \<union> fst ` set rs' \<union> ks"
  have S: "finite ?S" using fin by simp
  have w: "worthBy E K rs = (\<Sum>k | k \<in> ?S \<and> K k. availAt E rs k + heldAt E rs k)"
    using rowsOk_distinct [OF ok] S by (rule worthBy_superset) auto
  have "worthBy E K rs' = (\<Sum>k | k \<in> ?S \<and> K k. availAt E rs' k + heldAt E rs' k)"
    using m by (intro worthBy_superset) (auto simp: moves_def rowsOk_def fin)
  also have "\<dots> = (\<Sum>k | k \<in> ?S \<and> K k. (availAt E rs k + heldAt E rs k) + (av k + hl k))"
    using m by (intro sum.cong) (auto simp: moves_def)
  also have "\<dots> = worthBy E K rs + (\<Sum>k | k \<in> ?S \<and> K k. av k + hl k)"
    using w by (simp add: sum.distrib)
  also have "(\<Sum>k | k \<in> ?S \<and> K k. av k + hl k) = (\<Sum>k | k \<in> ks \<and> K k. av k + hl k)"
    using S fin supp by (intro sum.mono_neutral_right) auto
  finally show ?thesis .
qed

lemma moves_mapSet:
  assumes "rowsOk E rs" "goodRow E r a h" "rowKey r = k"
  shows "moves E rs (mapSet k r rs) (bump k (a - availAt E rs k)) (bump k (h - heldAt E rs k))"
  using assms rowsOk_mapSet [OF assms(1,2)] by (auto simp: moves_def goodRow_def bump_def)

lemma getOrCreate_effect:
  assumes ok: "rowsOk E (rows st)" and E: "big_exact E"
  obtains r rs where
    "getOrCreate d c st = (Inr r, st\<lparr>rows := rs\<rparr>)" "rowKey r = walletKey d c"
    "moves E (rows st) rs (\<lambda>_. 0) (\<lambda>_. 0)"
    "goodRow E r (availAt E (rows st) (walletKey d c)) (heldAt E (rows st) (walletKey d c))"
proof (cases "mapGet (rows st) (walletKey d c)")
  case (Some r)
  then have "getOrCreate d c st = (Inr r, st\<lparr>rows := rows st\<rparr>)"
    by (simp add: getOrCreate_def exec_simps)
  then show ?thesis using that rowsOk_goodRow [OF ok Some] moves_refl [OF ok] by metis
next
  case None
  let ?r = "\<lparr>w_did = d, w_currency = c, available = ''0'', held = ''0''\<rparr>"
  have g: "goodRow E ?r 0 0" using big_exact_zero [OF E] by (simp add: goodRow_def)
  have "availAt E (rows st) (walletKey d c) = 0" "heldAt E (rows st) (walletKey d c) = 0"
    using None by (simp_all add: availAt_def heldAt_def)
  moreover have "bump k 0 = (\<lambda>_. 0)" for k by (simp add: bump_def)
  moreover have "getOrCreate d c st = (Inr ?r, st\<lparr>rows := mapSet (walletKey d c) ?r (rows st)\<rparr>)"
    using None by (simp add: getOrCreate_def putRow_def exec_simps Let_def)
  ultimately show ?thesis
    using that [of ?r "mapSet (walletKey d c) ?r (rows st)"] g moves_mapSet [OF ok g refl] by simp
qed

lemma putRow_eq: "putRow r st = (Inr (), st\<lparr>rows := mapSet (rowKey r) r (rows st)\<rparr>)"
  by (simp add: putRow_def)

lemma putHold_eq: "putHold h st = (Inr (), st\<lparr>holds := mapSet (holdId h) h (holds st)\<rparr>)"
  by (simp add: putHold_def)

text \<open>A row read by \<open>getOrCreate\<close> and then set: the accounts at its key move to its fields.\<close>

lemma moves_set:
  assumes m: "moves E rs0 rs av hl" and g: "goodRow E r a h" and k: "rowKey r = k"
  shows "moves E rs0 (mapSet k r rs)
           (av(k := a - availAt E rs0 k)) (hl(k := h - heldAt E rs0 k))"
  using rowsOk_mapSet [OF movesD(1) [OF m] g] m g k by (auto simp: moves_def goodRow_def)

text \<open>
  Each operation either throws, leaving every account as it was, or has its effect. Under
  \<open>rowsOk\<close> nothing else can happen: no arithmetic step meets a malformed amount.
\<close>

lemma assertPositive_cases:
  obtains (bad) "assertPositive E m st = (Inl ValidationError, st)"
    "\<nexists>v. bigVal E (amount m) = Some v \<and> 0 < v"
  | (ok) v where "bigVal E (amount m) = Some v" "0 < v" "assertPositive E m st = (Inr (), st)"
  by (cases "bigVal E (amount m)") (auto simp: assertPositive_def not_le dest: leD)

lemma rows_id [simp]: "st\<lparr>rows := rows st\<rparr> = st"
  by simp

lemma credit_cases:
  assumes rok: "rowsOk E (rows st)" and E: "big_exact E"
  obtains (fail) "credit E d m st = (Inl ValidationError, st)"
    "\<nexists>v. bigVal E (amount m) = Some v \<and> 0 < v"
  | (ok) v rs where "bigVal E (amount m) = Some v" "0 < v"
    "credit E d m st = (Inr (), st\<lparr>rows := rs\<rparr>)"
    "moves E (rows st) rs (bump (walletKey d (currency m)) v) (\<lambda>_. 0)"
proof (cases rule: assertPositive_cases [of E m st])
  case bad
  then show ?thesis using fail by (simp add: credit_def exec_simps)
next
  case (ok v)
  let ?k = "walletKey d (currency m)"
  obtain r rs where g: "getOrCreate d (currency m) st = (Inr r, st\<lparr>rows := rs\<rparr>)" "rowKey r = ?k"
    and mv: "moves E (rows st) rs (\<lambda>_. 0) (\<lambda>_. 0)"
    and gr: "goodRow E r (availAt E (rows st) ?k) (heldAt E (rows st) ?k)"
    using getOrCreate_effect [OF assms] by metis
  let ?r = "r\<lparr>available := bigPlus E (available r) (amount m)\<rparr>"
  have gr2: "goodRow E ?r (availAt E (rows st) ?k + v) (heldAt E (rows st) ?k)"
    using gr ok E by (simp add: goodRow_def big_exact_plus)
  have "credit E d m st = (Inr (), st\<lparr>rows := mapSet ?k ?r rs\<rparr>)"
    using g gr ok by (simp add: credit_def exec_simps plusE_ok goodRow_def putRow_eq)
  moreover have "moves E (rows st) (mapSet ?k ?r rs) (bump ?k v) (\<lambda>_. 0)"
    using moves_set [OF mv gr2, of ?k] g(2) by (simp add: bump_def fun_upd_def)
  ultimately show ?thesis using that(2) ok by blast
qed

lemma debit_cases:
  assumes rok: "rowsOk E (rows st)" and E: "big_exact E"
  obtains (fail) e rs where "debit E d m st = (Inl e, st\<lparr>rows := rs\<rparr>)"
    "moves E (rows st) rs (\<lambda>_. 0) (\<lambda>_. 0)"
    "\<nexists>v. bigVal E (amount m) = Some v \<and> 0 < v \<and> v \<le> availAt E (rows st) (walletKey d (currency m))"
  | (ok) v rs where "bigVal E (amount m) = Some v" "0 < v"
    "v \<le> availAt E (rows st) (walletKey d (currency m))"
    "debit E d m st = (Inr (), st\<lparr>rows := rs\<rparr>)"
    "moves E (rows st) rs (bump (walletKey d (currency m)) (- v)) (\<lambda>_. 0)"
proof (cases rule: assertPositive_cases [of E m st])
  case bad
  then have "debit E d m st = (Inl ValidationError, st\<lparr>rows := rows st\<rparr>)"
    by (simp add: debit_def exec_simps)
  then show ?thesis using fail bad moves_refl [OF rok] by metis
next
  case (ok v)
  let ?k = "walletKey d (currency m)"
  let ?a = "availAt E (rows st) ?k"
  obtain r rs where g: "getOrCreate d (currency m) st = (Inr r, st\<lparr>rows := rs\<rparr>)" "rowKey r = ?k"
    and mv: "moves E (rows st) rs (\<lambda>_. 0) (\<lambda>_. 0)"
    and gr: "goodRow E r ?a (heldAt E (rows st) ?k)"
    using getOrCreate_effect [OF assms] by metis
  show ?thesis
  proof (cases "?a < v")
    case True
    then have "debit E d m st = (Inl PaymentRequiredError, st\<lparr>rows := rs\<rparr>)"
      using g gr ok by (simp add: debit_def exec_simps ltE_ok goodRow_def)
    then show ?thesis using fail mv ok True by fastforce
  next
    case False
    let ?r = "r\<lparr>available := bigMinus E (available r) (amount m)\<rparr>"
    have gr2: "goodRow E ?r (?a - v) (heldAt E (rows st) ?k)"
      using gr ok E False by (simp add: goodRow_def big_exact_minus)
    have "debit E d m st = (Inr (), st\<lparr>rows := mapSet ?k ?r rs\<rparr>)"
      using g gr ok False by (simp add: debit_def exec_simps ltE_ok minusE_ok goodRow_def putRow_eq)
    moreover have "moves E (rows st) (mapSet ?k ?r rs) (bump ?k (- v)) (\<lambda>_. 0)"
      using moves_set [OF mv gr2, of ?k] g(2) by (simp add: bump_def fun_upd_def)
    ultimately show ?thesis using that(2) ok False by fastforce
  qed
qed

lemma hold_cases:
  assumes rok: "rowsOk E (rows st)" and E: "big_exact E"
  obtains (fail) e rs where "hold E now d m ref st = (Inl e, st\<lparr>rows := rs\<rparr>)"
    "moves E (rows st) rs (\<lambda>_. 0) (\<lambda>_. 0)"
    "\<nexists>v. bigVal E (amount m) = Some v \<and> 0 < v \<and> v \<le> availAt E (rows st) (walletKey d (currency m))"
  | (ok) v rs i h where "bigVal E (amount m) = Some v" "0 < v"
    "v \<le> availAt E (rows st) (walletKey d (currency m))"
    "i = ''hold_'' @ ulid E (drawn st)"
    "h = \<lparr>holdId = i, h_did = d, h_amount = amount m, h_currency = currency m, h_ref = ref,
          h_state = Active, h_createdAt = isoOf E now\<rparr>"
    "hold E now d m ref st =
       (Inr i, st\<lparr>rows := rs, drawn := Suc (drawn st), holds := mapSet i h (holds st)\<rparr>)"
    "moves E (rows st) rs (bump (walletKey d (currency m)) (- v)) (bump (walletKey d (currency m)) v)"
proof (cases rule: assertPositive_cases [of E m st])
  case bad
  then have "hold E now d m ref st = (Inl ValidationError, st\<lparr>rows := rows st\<rparr>)"
    by (simp add: hold_def exec_simps)
  then show ?thesis using fail bad moves_refl [OF rok] by metis
next
  case (ok v)
  let ?k = "walletKey d (currency m)"
  let ?a = "availAt E (rows st) ?k" and ?h = "heldAt E (rows st) ?k"
  obtain r rs where g: "getOrCreate d (currency m) st = (Inr r, st\<lparr>rows := rs\<rparr>)" "rowKey r = ?k"
    and mv: "moves E (rows st) rs (\<lambda>_. 0) (\<lambda>_. 0)" and gr: "goodRow E r ?a ?h"
    using getOrCreate_effect [OF assms] by metis
  show ?thesis
  proof (cases "?a < v")
    case True
    then have "hold E now d m ref st = (Inl PaymentRequiredError, st\<lparr>rows := rs\<rparr>)"
      using g gr ok by (simp add: hold_def exec_simps ltE_ok goodRow_def)
    then show ?thesis using fail mv ok True by fastforce
  next
    case False
    let ?r = "r\<lparr>available := bigMinus E (available r) (amount m),
                held := bigPlus E (held r) (amount m)\<rparr>"
    let ?i = "''hold_'' @ ulid E (drawn st)"
    let ?hr = "\<lparr>holdId = ?i, h_did = d, h_amount = amount m, h_currency = currency m,
                h_ref = ref, h_state = Active, h_createdAt = isoOf E now\<rparr>"
    have gr2: "goodRow E ?r (?a - v) (?h + v)"
      using gr ok E False by (simp add: goodRow_def big_exact_minus big_exact_plus)
    have res: "hold E now d m ref st = (Inr ?i,
        st\<lparr>rows := mapSet ?k ?r rs, drawn := Suc (drawn st), holds := mapSet ?i ?hr (holds st)\<rparr>)"
      using g gr ok False
      by (simp add: hold_def exec_simps ltE_ok minusE_ok plusE_ok goodRow_def putRow_eq putHold_eq
          newHoldId_def)
    have "moves E (rows st) (mapSet ?k ?r rs) (bump ?k (- v)) (bump ?k v)"
      using moves_set [OF mv gr2, of ?k] g(2) by (simp add: bump_def fun_upd_def)
    then show ?thesis using that(2) [OF _ _ _ refl refl res] ok False by simp
  qed
qed

section \<open>Resolving a hold\<close>

lemma releaseLocked_effect:
  assumes rok: "rowsOk E (rows st)" and E: "big_exact E"
    and v: "bigVal E (h_amount h) = Some v" "0 < v"
  obtains rs where
    "releaseLocked E h st =
       (Inr (), st\<lparr>rows := rs, holds := mapSet (holdId h) (h\<lparr>h_state := Released\<rparr>) (holds st)\<rparr>)"
    "moves E (rows st) rs (bump (holdKey h) v) (bump (holdKey h) (- v))"
proof -
  let ?k = "holdKey h"
  let ?a = "availAt E (rows st) ?k" and ?h = "heldAt E (rows st) ?k"
  obtain r rs where g: "getOrCreate (h_did h) (h_currency h) st = (Inr r, st\<lparr>rows := rs\<rparr>)"
      "rowKey r = ?k"
    and mv: "moves E (rows st) rs (\<lambda>_. 0) (\<lambda>_. 0)" and gr: "goodRow E r ?a ?h"
    using getOrCreate_effect [OF rok E] by metis
  let ?r = "r\<lparr>held := bigMinus E (held r) (h_amount h),
              available := bigPlus E (available r) (h_amount h)\<rparr>"
  have gr2: "goodRow E ?r (?a + v) (?h - v)"
    using gr v E by (simp add: goodRow_def big_exact_minus big_exact_plus)
  have "releaseLocked E h st =
      (Inr (), st\<lparr>rows := mapSet ?k ?r rs,
                  holds := mapSet (holdId h) (h\<lparr>h_state := Released\<rparr>) (holds st)\<rparr>)"
    using g gr v
    by (simp add: releaseLocked_def exec_simps minusE_ok plusE_ok goodRow_def putRow_eq putHold_eq)
  moreover have "moves E (rows st) (mapSet ?k ?r rs) (bump ?k v) (bump ?k (- v))"
    using moves_set [OF mv gr2, of ?k] g(2) by (simp add: bump_def fun_upd_def)
  ultimately show ?thesis using that by blast
qed

text \<open>The first half of a capture or a forfeiture: the held amount leaves the holder's row.\<close>

lemma takeHeld_effect:
  assumes rok: "rowsOk E (rows st)" and E: "big_exact E"
    and v: "bigVal E (h_amount h) = Some v"
  obtains r rs where "getOrCreate (h_did h) (h_currency h) st = (Inr r, st\<lparr>rows := rs\<rparr>)"
    "rowKey r = holdKey h" "\<exists>x. bigVal E (held r) = Some x"
    "moves E (rows st) (mapSet (holdKey h) (r\<lparr>held := bigMinus E (held r) (h_amount h)\<rparr>) rs)
       (\<lambda>_. 0) (bump (holdKey h) (- v))"
proof -
  let ?k = "holdKey h"
  obtain r rs where g: "getOrCreate (h_did h) (h_currency h) st = (Inr r, st\<lparr>rows := rs\<rparr>)"
      "rowKey r = ?k"
    and mv: "moves E (rows st) rs (\<lambda>_. 0) (\<lambda>_. 0)"
    and gr: "goodRow E r (availAt E (rows st) ?k) (heldAt E (rows st) ?k)"
    using getOrCreate_effect [OF rok E] by metis
  let ?r = "r\<lparr>held := bigMinus E (held r) (h_amount h)\<rparr>"
  have "goodRow E ?r (availAt E (rows st) ?k) (heldAt E (rows st) ?k - v)"
    using gr v E by (simp add: goodRow_def big_exact_minus)
  from moves_set [OF mv this, of ?k] g(2)
  have "moves E (rows st) (mapSet ?k ?r rs) (\<lambda>_. 0) (bump ?k (- v))"
    by (simp add: bump_def fun_upd_def)
  then show ?thesis using that g gr by (auto simp: goodRow_def)
qed

text \<open>The second half: an amount is added to the recipient's available funds.\<close>

lemma giveAvailable_effect:
  assumes rok: "rowsOk E (rows st)" and E: "big_exact E"
    and v: "bigVal E a = Some v" "0 \<le> v"
  obtains r rs where "getOrCreate d c st = (Inr r, st\<lparr>rows := rs\<rparr>)"
    "rowKey r = walletKey d c" "\<exists>x. bigVal E (available r) = Some x"
    "moves E (rows st) (mapSet (walletKey d c) (r\<lparr>available := bigPlus E (available r) a\<rparr>) rs)
       (bump (walletKey d c) v) (\<lambda>_. 0)"
proof -
  let ?k = "walletKey d c"
  obtain r rs where g: "getOrCreate d c st = (Inr r, st\<lparr>rows := rs\<rparr>)" "rowKey r = ?k"
    and mv: "moves E (rows st) rs (\<lambda>_. 0) (\<lambda>_. 0)"
    and gr: "goodRow E r (availAt E (rows st) ?k) (heldAt E (rows st) ?k)"
    using getOrCreate_effect [OF rok E] by metis
  let ?r = "r\<lparr>available := bigPlus E (available r) a\<rparr>"
  have "goodRow E ?r (availAt E (rows st) ?k + v) (heldAt E (rows st) ?k)"
    using gr v E by (simp add: goodRow_def big_exact_plus)
  from moves_set [OF mv this, of ?k] g(2)
  have "moves E (rows st) (mapSet ?k ?r rs) (bump ?k v) (\<lambda>_. 0)"
    by (simp add: bump_def fun_upd_def)
  then show ?thesis using that g gr by (auto simp: goodRow_def)
qed

lemma captureLocked_effect:
  assumes rok: "rowsOk E (rows st)" and E: "big_exact E"
    and v: "bigVal E (h_amount h) = Some v" "0 < v"
  obtains rs where
    "captureLocked E h dest st =
       (Inr (), st\<lparr>rows := rs, holds := mapSet (holdId h) (h\<lparr>h_state := Captured\<rparr>) (holds st)\<rparr>)"
    "moves E (rows st) rs (bump (walletKey dest (h_currency h)) v) (bump (holdKey h) (- v))"
proof -
  obtain r rs where g: "getOrCreate (h_did h) (h_currency h) st = (Inr r, st\<lparr>rows := rs\<rparr>)"
      "rowKey r = holdKey h" "\<exists>x. bigVal E (held r) = Some x"
    and mv: "moves E (rows st) (mapSet (holdKey h) (r\<lparr>held := bigMinus E (held r) (h_amount h)\<rparr>) rs)
       (\<lambda>_. 0) (bump (holdKey h) (- v))"
    using takeHeld_effect [OF rok E v(1)] by metis
  let ?s1 = "st\<lparr>rows := mapSet (holdKey h) (r\<lparr>held := bigMinus E (held r) (h_amount h)\<rparr>) rs\<rparr>"
  have rok1: "rowsOk E (rows ?s1)" using movesD(1) [OF mv] by simp
  obtain r2 rs2 where g2: "getOrCreate dest (h_currency h) ?s1 = (Inr r2, ?s1\<lparr>rows := rs2\<rparr>)"
      "rowKey r2 = walletKey dest (h_currency h)" "\<exists>x. bigVal E (available r2) = Some x"
    and mv2: "moves E (rows ?s1)
       (mapSet (walletKey dest (h_currency h)) (r2\<lparr>available := bigPlus E (available r2) (h_amount h)\<rparr>) rs2)
       (bump (walletKey dest (h_currency h)) v) (\<lambda>_. 0)"
    using giveAvailable_effect [OF rok1 E v(1) less_imp_le [OF v(2)]] by metis
  show ?thesis
  proof (rule that)
    show "captureLocked E h dest st =
        (Inr (), st\<lparr>rows := mapSet (walletKey dest (h_currency h))
           (r2\<lparr>available := bigPlus E (available r2) (h_amount h)\<rparr>) rs2,
         holds := mapSet (holdId h) (h\<lparr>h_state := Captured\<rparr>) (holds st)\<rparr>)"
      using g g2 v
      by (auto simp: captureLocked_def exec_simps minusE_ok plusE_ok putRow_eq putHold_eq)
    show "moves E (rows st) (mapSet (walletKey dest (h_currency h))
           (r2\<lparr>available := bigPlus E (available r2) (h_amount h)\<rparr>) rs2)
        (bump (walletKey dest (h_currency h)) v) (bump (holdKey h) (- v))"
      using moves_trans [OF mv mv2 [simplified]] by simp
  qed
qed

text \<open>What a forfeiture pays out: nothing without a split or when the whole hold is burned.\<close>

definition payout :: "(string \<times> rat) option \<Rightarrow> string \<Rightarrow> rat \<Rightarrow> string \<Rightarrow> rat" where
  "payout split c v =
     (case split of None \<Rightarrow> (\<lambda>_. 0) | Some (d, f) \<Rightarrow> bump (walletKey d c) (v - v * f))"

lemma forfeitLocked_effect:
  assumes rok: "rowsOk E (rows st)" and E: "big_exact E"
    and v: "bigVal E (h_amount h) = Some v" and p: "bigVal E a = Some p" "0 \<le> p"
    and split: "\<And>d f. split = Some (d, f) \<Longrightarrow> p = v - v * f"
  obtains rs where
    "forfeitLocked E h split a st =
       (Inr (), st\<lparr>rows := rs, holds := mapSet (holdId h) (h\<lparr>h_state := Forfeited\<rparr>) (holds st)\<rparr>)"
    "moves E (rows st) rs (payout split (h_currency h) v) (bump (holdKey h) (- v))"
proof -
  obtain r rs where g: "getOrCreate (h_did h) (h_currency h) st = (Inr r, st\<lparr>rows := rs\<rparr>)"
      "rowKey r = holdKey h" "\<exists>x. bigVal E (held r) = Some x"
    and mv: "moves E (rows st) (mapSet (holdKey h) (r\<lparr>held := bigMinus E (held r) (h_amount h)\<rparr>) rs)
       (\<lambda>_. 0) (bump (holdKey h) (- v))"
    using takeHeld_effect [OF rok E v(1)] by metis
  let ?rs1 = "mapSet (holdKey h) (r\<lparr>held := bigMinus E (held r) (h_amount h)\<rparr>) rs"
  let ?s1 = "st\<lparr>rows := ?rs1\<rparr>"
  let ?hs = "mapSet (holdId h) (h\<lparr>h_state := Forfeited\<rparr>) (holds st)"
  have rok1: "rowsOk E (rows ?s1)" using movesD(1) [OF mv] by simp
  show ?thesis
  proof (cases "split = None \<or> p = 0")
    case True
    then have "forfeitLocked E h split a st = (Inr (), st\<lparr>rows := ?rs1, holds := ?hs\<rparr>)"
      using g v p by (auto simp: forfeitLocked_def exec_simps minusE_ok putRow_eq putHold_eq split: option.split)
    moreover have "payout split (h_currency h) v = (\<lambda>_. 0)"
      using True split by (auto simp: payout_def bump_def split: option.split)
    ultimately show ?thesis using that mv by simp
  next
    case False
    then obtain d f where df: "split = Some (d, f)" and pos: "0 < p" using p by (cases split) auto
    obtain r2 rs2 where g2: "getOrCreate d (h_currency h) ?s1 = (Inr r2, ?s1\<lparr>rows := rs2\<rparr>)"
        "rowKey r2 = walletKey d (h_currency h)" "\<exists>x. bigVal E (available r2) = Some x"
      and mv2: "moves E (rows ?s1)
         (mapSet (walletKey d (h_currency h)) (r2\<lparr>available := bigPlus E (available r2) a\<rparr>) rs2)
         (bump (walletKey d (h_currency h)) p) (\<lambda>_. 0)"
      using giveAvailable_effect [OF rok1 E p] by metis
    let ?rs2 = "mapSet (walletKey d (h_currency h)) (r2\<lparr>available := bigPlus E (available r2) a\<rparr>) rs2"
    have "forfeitLocked E h split a st = (Inr (), st\<lparr>rows := ?rs2, holds := ?hs\<rparr>)"
      using g g2 v p pos df
      by (auto simp: forfeitLocked_def exec_simps minusE_ok plusE_ok putRow_eq putHold_eq)
    moreover have "moves E (rows st) ?rs2 (payout split (h_currency h) v) (bump (holdKey h) (- v))"
      using moves_trans [OF mv mv2 [simplified]] split [OF df] df by (simp add: payout_def)
    ultimately show ?thesis using that by blast
  qed
qed

section \<open>The invariant\<close>

text \<open>The held amount of a key is the sum of its active holds; the next identifiers are unused.\<close>

definition activeSum :: "ext \<Rightarrow> (string, hold_row) jsmap \<Rightarrow> string \<Rightarrow> rat" where
  "activeSum E hs k =
     sumEntries (\<lambda>(i, h). if h_state h = Active \<and> holdKey h = k then bv E (h_amount h) else 0) hs"

definition holdOk :: "ext \<Rightarrow> string \<Rightarrow> hold_row \<Rightarrow> bool" where
  "holdOk E i h \<longleftrightarrow> holdId h = i \<and> (\<exists>v. bigVal E (h_amount h) = Some v \<and> 0 < v)"

definition lib_ok :: "ext \<Rightarrow> bool" where
  "lib_ok E \<longleftrightarrow> big_exact E \<and> times_exact E \<and> ulid_fresh E"

definition wallet_ok :: "ext \<Rightarrow> wallet_st \<Rightarrow> bool" where
  "wallet_ok E st \<longleftrightarrow> lib_ok E \<and> rowsOk E (rows st) \<and> distinctKeys (holds st) \<and>
     (\<forall>i h. mapGet (holds st) i = Some h \<longrightarrow> holdOk E i h) \<and>
     (\<forall>n \<ge> drawn st. mapGet (holds st) (''hold_'' @ ulid E n) = None) \<and>
     (\<forall>k. heldAt E (rows st) k = activeSum E (holds st) k)"

text \<open>The part of a key after its last colon; for a plain currency code it is the currency.\<close>

definition keyCurrency :: "string \<Rightarrow> string" where
  "keyCurrency k = rev (takeWhile (\<lambda>c. c \<noteq> CHR '':'') (rev k))"

definition worth :: "ext \<Rightarrow> string \<Rightarrow> wallet_st \<Rightarrow> rat" where
  "worth E c st = worthBy E (\<lambda>k. keyCurrency k = c) (rows st)"

abbreviation availOf :: "ext \<Rightarrow> wallet_st \<Rightarrow> string \<Rightarrow> string \<Rightarrow> rat" where
  "availOf E st d c \<equiv> availAt E (rows st) (walletKey d c)"

abbreviation heldOf :: "ext \<Rightarrow> wallet_st \<Rightarrow> string \<Rightarrow> string \<Rightarrow> rat" where
  "heldOf E st d c \<equiv> heldAt E (rows st) (walletKey d c)"

definition emptyWallet :: wallet_st where
  "emptyWallet = \<lparr>rows = [], holds = [], spends = [], drawn = 0\<rparr>"

lemma keyCurrency_walletKey: "keyCurrency (walletKey d c) = keyCurrency c"
proof (cases "CHR '':'' \<in> set c")
  case True
  have "takeWhile (\<lambda>x. x \<noteq> CHR '':'') (rev c @ zs) = takeWhile (\<lambda>x. x \<noteq> CHR '':'') (rev c)" for zs
    using True by (intro takeWhile_append1 [of "CHR '':''"]) auto
  from this [of "CHR '':'' # CHR '':'' # rev d"]
  show ?thesis by (simp add: keyCurrency_def walletKey_def)
next
  case False
  have "takeWhile (\<lambda>x. x \<noteq> CHR '':'') (rev c @ zs) = rev c @ takeWhile (\<lambda>x. x \<noteq> CHR '':'') zs" for zs
    using False by (intro takeWhile_append2) auto
  from this [of "CHR '':'' # CHR '':'' # rev d"] this [of "[]"]
  show ?thesis unfolding keyCurrency_def walletKey_def by (simp del: takeWhile_eq_all_conv)
qed

lemma keyCurrency_plain [simp]: "CHR '':'' \<notin> set c \<Longrightarrow> keyCurrency c = c"
  by (subst keyCurrency_def, subst takeWhile_eq_all_conv [THEN iffD2]) auto

lemma wallet_okD:
  assumes "wallet_ok E st"
  shows "big_exact E" "times_exact E" "ulid_fresh E" "rowsOk E (rows st)" "distinctKeys (holds st)"
    "mapGet (holds st) i = Some h \<Longrightarrow> holdOk E i h"
    "n \<ge> drawn st \<Longrightarrow> mapGet (holds st) (''hold_'' @ ulid E n) = None"
    "heldAt E (rows st) k = activeSum E (holds st) k"
  using assms by (auto simp: wallet_ok_def lib_ok_def)

lemma wallet_ok_empty: "lib_ok E \<Longrightarrow> wallet_ok E emptyWallet"
  by (simp add: wallet_ok_def emptyWallet_def rowsOk_def heldAt_def activeSum_def)

lemma wallet_ok_held_nonneg:
  assumes ok: "wallet_ok E st"
  shows "0 \<le> heldAt E (rows st) k"
  unfolding wallet_okD(8) [OF ok] activeSum_def
proof (rule sumEntries_nonneg)
  fix p
  assume "p \<in> set (holds st)"
  moreover obtain i h where p: "p = (i, h)" by (cases p)
  ultimately have "holdOk E i h"
    using wallet_okD(5,6) [OF ok] by (metis map_of_is_SomeI)
  then show "0 \<le> (case p of (i, h) \<Rightarrow>
      if h_state h = Active \<and> holdKey h = k then bv E (h_amount h) else 0)"
    by (auto simp: p holdOk_def)
qed

lemma wallet_ok_rows:
  assumes "wallet_ok E st" "moves E (rows st) rs av (\<lambda>_. 0)"
  shows "wallet_ok E (st\<lparr>rows := rs\<rparr>)"
  using assms by (simp add: wallet_ok_def moves_def)

lemma activeSum_mapSet:
  "distinctKeys hs \<Longrightarrow> activeSum E (mapSet i h hs) k = activeSum E hs k +
     (if h_state h = Active \<and> holdKey h = k then bv E (h_amount h) else 0) -
     (case mapGet hs i of None \<Rightarrow> 0
      | Some g \<Rightarrow> if h_state g = Active \<and> holdKey g = k then bv E (h_amount g) else 0)"
  unfolding activeSum_def by (simp add: sumEntries_mapSet split: option.split)

text \<open>A new hold under a fresh identifier.\<close>

lemma wallet_ok_newHold:
  assumes ok: "wallet_ok E st" and m: "moves E (rows st) rs av (bump (holdKey h) v)"
    and h: "holdId h = ''hold_'' @ ulid E (drawn st)" "h_state h = Active"
      "bigVal E (h_amount h) = Some v" "0 < v"
  shows "wallet_ok E (st\<lparr>rows := rs, drawn := Suc (drawn st), holds := mapSet (holdId h) h (holds st)\<rparr>)"
proof -
  have new: "mapGet (holds st) (holdId h) = None" using wallet_okD(7) [OF ok order_refl] h by simp
  have "heldAt E rs k = activeSum E (mapSet (holdId h) h (holds st)) k" for k
    using movesD(3) [OF m, of k] wallet_okD(8) [OF ok, of k] wallet_okD(5) [OF ok] new h
    by (simp add: activeSum_mapSet bump_def)
  moreover have "mapGet (mapSet (holdId h) h (holds st)) (''hold_'' @ ulid E n) = None"
    if "n \<ge> Suc (drawn st)" for n
    using that wallet_okD(7) [OF ok, of n] wallet_okD(3) [OF ok] h
    by (auto simp: ulid_fresh_eq)
  ultimately show ?thesis
    using ok m h unfolding wallet_ok_def moves_def by (auto simp: holdOk_def)
qed

text \<open>Resolving an active hold.\<close>

lemma wallet_ok_resolve:
  assumes ok: "wallet_ok E st" and m: "moves E (rows st) rs av (bump (holdKey h) (- v))"
    and h: "mapGet (holds st) i = Some h" "h_state h = Active" "bigVal E (h_amount h) = Some v"
    and x: "x \<noteq> Active"
  shows "wallet_ok E (st\<lparr>rows := rs, holds := mapSet (holdId h) (h\<lparr>h_state := x\<rparr>) (holds st)\<rparr>)"
proof -
  have i: "holdId h = i" using wallet_okD(6) [OF ok h(1)] by (simp add: holdOk_def)
  have "heldAt E rs k = activeSum E (mapSet i (h\<lparr>h_state := x\<rparr>) (holds st)) k" for k
    using movesD(3) [OF m, of k] wallet_okD(8) [OF ok, of k] wallet_okD(5) [OF ok] h x
    by (simp add: activeSum_mapSet bump_def)
  moreover have "mapGet (mapSet i (h\<lparr>h_state := x\<rparr>) (holds st)) (''hold_'' @ ulid E n) = None"
    if "n \<ge> drawn st" for n
    using that wallet_okD(7) [OF ok, of n] h(1) by auto
  ultimately show ?thesis
    using ok m i wallet_okD(6) [OF ok h(1)] unfolding wallet_ok_def moves_def
    by (auto simp: holdOk_def)
qed

section \<open>Operations under the invariant\<close>

lemma worth_moves:
  assumes ok: "wallet_ok E st" and m: "moves E (rows st) rs (bump k1 a) (bump k2 b)"
  shows "worthBy E K rs = worthBy E K (rows st) + (if K k1 then a else 0) + (if K k2 then b else 0)"
proof -
  have "worthBy E K rs = worthBy E K (rows st) +
      (\<Sum>k | k \<in> {k1, k2} \<and> K k. bump k1 a k + bump k2 b k)"
    using m by (intro moves_worth [OF wallet_okD(4) [OF ok]]) (auto simp: bump_def)
  also have "(\<Sum>k | k \<in> {k1, k2} \<and> K k. bump k1 a k + bump k2 b k)
      = (\<Sum>k | k \<in> {k1, k2} \<and> K k. bump k1 a k) + (\<Sum>k | k \<in> {k1, k2} \<and> K k. bump k2 b k)"
    by (simp add: sum.distrib)
  also have "\<dots> = (if K k1 then a else 0) + (if K k2 then b else 0)"
    by (simp add: bump_def sum.delta)
  finally show ?thesis by simp
qed

lemma bump_zero [simp]: "bump k 0 = (\<lambda>_. 0)"
  by (simp add: bump_def)

lemma worth_still:
  assumes ok: "wallet_ok E st" and m: "moves E (rows st) rs (\<lambda>_. 0) (\<lambda>_. 0)"
  shows "worthBy E K rs = worthBy E K (rows st)"
  using worth_moves [OF ok, of rs undefined 0 undefined 0 K] m by simp

lemma worth_rows: "worth E c st = worthBy E (\<lambda>k. keyCurrency k = c) (rows st)"
  by (simp add: worth_def)

text \<open>
  \<open>wmove E st st' av hl\<close>: the call re-established the invariant, moved the accounts by \<open>av\<close> and
  \<open>hl\<close>, and left the spend accumulators alone.
\<close>

definition wmove ::
    "ext \<Rightarrow> wallet_st \<Rightarrow> wallet_st \<Rightarrow> (string \<Rightarrow> rat) \<Rightarrow> (string \<Rightarrow> rat) \<Rightarrow> bool" where
  "wmove E st st' av hl \<longleftrightarrow>
     wallet_ok E st' \<and> moves E (rows st) (rows st') av hl \<and> spends st' = spends st"

lemma wmoveD:
  assumes "wmove E st st' av hl"
  shows "wallet_ok E st'" "moves E (rows st) (rows st') av hl" "spends st' = spends st"
    "availAt E (rows st') k = availAt E (rows st) k + av k"
    "heldAt E (rows st') k = heldAt E (rows st) k + hl k"
  using assms by (auto simp: wmove_def moves_def)

lemma wmove_worth:
  assumes "wallet_ok E st" "wmove E st st' (bump k1 a) (bump k2 b)"
  shows "worth E c st' = worth E c st + (if keyCurrency k1 = c then a else 0)
     + (if keyCurrency k2 = c then b else 0)"
  using worth_moves [OF assms(1) wmoveD(2) [OF assms(2)]] by (simp add: worth_rows)

lemma wmove_worth_0:
  assumes "wallet_ok E st" "wmove E st st' (\<lambda>_. 0) (\<lambda>_. 0)"
  shows "worth E c st' = worth E c st"
  using wmove_worth [OF assms(1), of st' undefined 0 undefined 0 c] assms(2) by simp

lemma wmove_worth_av:
  assumes "wallet_ok E st" "wmove E st st' (bump k1 a) (\<lambda>_. 0)"
  shows "worth E c st' = worth E c st + (if keyCurrency k1 = c then a else 0)"
  using wmove_worth [OF assms(1), of st' k1 a undefined 0 c] assms(2) by simp

lemma wmove_refl: "wallet_ok E st \<Longrightarrow> wmove E st st (\<lambda>_. 0) (\<lambda>_. 0)"
  by (simp add: wmove_def moves_refl wallet_okD(4))

lemma credit_out:
  assumes ok: "wallet_ok E st"
  obtains (fail) "credit E d m st = (Inl ValidationError, st)"
    "\<nexists>v. bigVal E (amount m) = Some v \<and> 0 < v"
  | (ok_case) v st' where "credit E d m st = (Inr (), st')" "bigVal E (amount m) = Some v" "0 < v"
    "wmove E st st' (bump (walletKey d (currency m)) v) (\<lambda>_. 0)" "holds st' = holds st"
proof (cases rule: credit_cases [OF wallet_okD(4,1) [OF ok], of d m])
  case 1
  then show ?thesis by (rule fail)
next
  case (2 v rs)
  then show ?thesis using wallet_ok_rows [OF ok]
    by (intro ok_case [of "st\<lparr>rows := rs\<rparr>" v]) (auto simp: wmove_def)
qed

lemma debit_out:
  assumes ok: "wallet_ok E st"
  obtains (fail) e st' where "debit E d m st = (Inl e, st')"
    "wmove E st st' (\<lambda>_. 0) (\<lambda>_. 0)" "holds st' = holds st"
    "\<nexists>v. bigVal E (amount m) = Some v \<and> 0 < v \<and> v \<le> availOf E st d (currency m)"
  | (ok_case) v st' where "debit E d m st = (Inr (), st')" "bigVal E (amount m) = Some v" "0 < v"
    "v \<le> availOf E st d (currency m)"
    "wmove E st st' (bump (walletKey d (currency m)) (- v)) (\<lambda>_. 0)" "holds st' = holds st"
proof (cases rule: debit_cases [OF wallet_okD(4,1) [OF ok], of d m])
  case (1 e rs)
  then show ?thesis using wallet_ok_rows [OF ok]
    by (intro fail [of e "st\<lparr>rows := rs\<rparr>"]) (auto simp: wmove_def)
next
  case (2 v rs)
  then show ?thesis using wallet_ok_rows [OF ok]
    by (intro ok_case [of "st\<lparr>rows := rs\<rparr>" v]) (auto simp: wmove_def)
qed

lemma hold_out:
  assumes ok: "wallet_ok E st"
  obtains (fail) e st' where "hold E now d m ref st = (Inl e, st')"
    "wmove E st st' (\<lambda>_. 0) (\<lambda>_. 0)" "holds st' = holds st" "drawn st' = drawn st"
    "\<nexists>v. bigVal E (amount m) = Some v \<and> 0 < v \<and> v \<le> availOf E st d (currency m)"
  | (ok_case) v i h st' where "hold E now d m ref st = (Inr i, st')" "bigVal E (amount m) = Some v"
    "0 < v" "v \<le> availOf E st d (currency m)"
    "wmove E st st' (bump (walletKey d (currency m)) (- v)) (bump (walletKey d (currency m)) v)"
    "i = ''hold_'' @ ulid E (drawn st)" "drawn st' = Suc (drawn st)"
    "mapGet (holds st) i = None" "holds st' = mapSet i h (holds st)"
    "h = \<lparr>holdId = i, h_did = d, h_amount = amount m, h_currency = currency m, h_ref = ref,
          h_state = Active, h_createdAt = isoOf E now\<rparr>"
proof (cases rule: hold_cases [OF wallet_okD(4,1) [OF ok], of now d m ref])
  case (1 e rs)
  then show ?thesis using wallet_ok_rows [OF ok]
    by (intro fail [of e "st\<lparr>rows := rs\<rparr>"]) (auto simp: wmove_def)
next
  case (2 v rs i h)
  let ?s = "st\<lparr>rows := rs, drawn := Suc (drawn st), holds := mapSet i h (holds st)\<rparr>"
  have "wallet_ok E ?s"
    using wallet_ok_newHold [OF ok, of rs "bump (walletKey d (currency m)) (- v)" h v] 2
    by simp
  then have "wmove E st ?s (bump (walletKey d (currency m)) (- v)) (bump (walletKey d (currency m)) v)"
    using 2 by (simp add: wmove_def)
  moreover have "mapGet (holds st) i = None" using wallet_okD(7) [OF ok order_refl] 2 by simp
  ultimately show ?thesis using 2 by (intro ok_case [of i ?s v h]) auto
qed

lemma activeHold_cases:
  obtains (none) "mapGet (holds st) i = None" "activeHold i st = (Inl NotFoundError, st)"
  | (spent) h where "mapGet (holds st) i = Some h" "h_state h \<noteq> Active"
    "activeHold i st = (Inl ConflictError, st)"
  | (active) h where "mapGet (holds st) i = Some h" "h_state h = Active"
    "activeHold i st = (Inr h, st)"
  by (cases "mapGet (holds st) i") (auto simp: activeHold_def exec_simps split: if_splits)

text \<open>A hold that is absent or no longer active: the operation throws and nothing changes.\<close>

definition deadHold :: "wallet_st \<Rightarrow> string \<Rightarrow> app_error \<Rightarrow> bool" where
  "deadHold st i e \<longleftrightarrow>
     (case mapGet (holds st) i of
        None \<Rightarrow> e = NotFoundError | Some h \<Rightarrow> h_state h \<noteq> Active \<and> e = ConflictError)"

definition resolvedTo :: "hold_state \<Rightarrow> string \<Rightarrow> wallet_st \<Rightarrow> wallet_st \<Rightarrow> bool" where
  "resolvedTo x i st st' \<longleftrightarrow> (\<exists>h. mapGet (holds st) i = Some h \<and>
     holds st' = mapSet i (h\<lparr>h_state := x\<rparr>) (holds st) \<and> drawn st' = drawn st)"

lemma wmove_resolve:
  assumes ok: "wallet_ok E st" and h: "mapGet (holds st) i = Some h" "h_state h = Active"
    and m: "moves E (rows st) rs av (bump (holdKey h) (- bv E (h_amount h)))" and x: "x \<noteq> Active"
  defines "st' \<equiv> st\<lparr>rows := rs, holds := mapSet (holdId h) (h\<lparr>h_state := x\<rparr>) (holds st)\<rparr>"
  shows "wmove E st st' av (bump (holdKey h) (- bv E (h_amount h)))" "resolvedTo x i st st'"
proof -
  obtain v where v: "bigVal E (h_amount h) = Some v" "holdId h = i"
    using wallet_okD(6) [OF ok h(1)] by (auto simp: holdOk_def)
  show "wmove E st st' av (bump (holdKey h) (- bv E (h_amount h)))"
    using wallet_ok_resolve [OF ok _ h v(1) x] m v by (simp add: wmove_def st'_def)
  show "resolvedTo x i st st'" using h v by (simp add: resolvedTo_def st'_def)
qed

lemma holdAmount:
  assumes "wallet_ok E st" "mapGet (holds st) i = Some h"
  shows "bigVal E (h_amount h) = Some (bv E (h_amount h))" "0 < bv E (h_amount h)" "holdId h = i"
  using wallet_okD(6) [OF assms] by (auto simp: holdOk_def)

lemma release_out:
  assumes ok: "wallet_ok E st"
  obtains (dead) e where "release E i st = (Inl e, st)" "deadHold st i e"
  | (ok_case) h st' where "release E i st = (Inr (), st')" "mapGet (holds st) i = Some h"
    "h_state h = Active" "resolvedTo Released i st st'"
    "wmove E st st' (bump (holdKey h) (bv E (h_amount h))) (bump (holdKey h) (- bv E (h_amount h)))"
proof (cases rule: activeHold_cases [of st i])
  case none
  then show ?thesis using dead by (simp add: release_def deadHold_def exec_simps)
next
  case (spent h)
  then show ?thesis using dead by (simp add: release_def deadHold_def exec_simps)
next
  case (active h)
  note v = holdAmount [OF ok active(1)]
  obtain rs where
    r: "releaseLocked E h st =
       (Inr (), st\<lparr>rows := rs, holds := mapSet (holdId h) (h\<lparr>h_state := Released\<rparr>) (holds st)\<rparr>)"
    and m: "moves E (rows st) rs (bump (holdKey h) (bv E (h_amount h)))
        (bump (holdKey h) (- bv E (h_amount h)))"
    using releaseLocked_effect [OF wallet_okD(4,1) [OF ok] v(1,2)] by metis
  have "release E i st = releaseLocked E h st" using active by (simp add: release_def exec_simps)
  then show ?thesis
    using ok_case [OF _ active(1,2)] r wmove_resolve [OF ok active(1,2) m, of Released] by simp
qed

lemma capture_out:
  assumes ok: "wallet_ok E st"
  obtains (dead) e where "capture E i dest st = (Inl e, st)" "deadHold st i e"
  | (ok_case) h st' where "capture E i dest st = (Inr (), st')" "mapGet (holds st) i = Some h"
    "h_state h = Active" "resolvedTo Captured i st st'"
    "wmove E st st' (bump (walletKey dest (h_currency h)) (bv E (h_amount h)))
       (bump (holdKey h) (- bv E (h_amount h)))"
proof (cases rule: activeHold_cases [of st i])
  case none
  then show ?thesis using dead by (simp add: capture_def deadHold_def exec_simps)
next
  case (spent h)
  then show ?thesis using dead by (simp add: capture_def deadHold_def exec_simps)
next
  case (active h)
  note v = holdAmount [OF ok active(1)]
  obtain rs where
    r: "captureLocked E h dest st =
       (Inr (), st\<lparr>rows := rs, holds := mapSet (holdId h) (h\<lparr>h_state := Captured\<rparr>) (holds st)\<rparr>)"
    and m: "moves E (rows st) rs (bump (walletKey dest (h_currency h)) (bv E (h_amount h)))
        (bump (holdKey h) (- bv E (h_amount h)))"
    using captureLocked_effect [OF wallet_okD(4,1) [OF ok] v(1,2), of dest] by metis
  have "capture E i dest st = captureLocked E h dest st" using active by (simp add: capture_def exec_simps)
  then show ?thesis
    using ok_case [OF _ active(1,2)] r wmove_resolve [OF ok active(1,2) m, of Captured] by simp
qed

text \<open>The burned fraction of a forfeiture: everything when no split is given.\<close>

definition burnOf :: "(string \<times> rat) option \<Rightarrow> rat" where
  "burnOf split = (case split of None \<Rightarrow> 1 | Some (_, f) \<Rightarrow> f)"

lemma six_digits_1 [simp]: "six_digits 1"
proof -
  have "(1000000 :: rat) \<in> \<int>" by (metis Ints_of_int of_int_numeral)
  then show ?thesis by (simp add: six_digits_def)
qed

lemma forfeit_out:
  assumes ok: "wallet_ok E st" and six: "six_digits (burnOf split)"
  obtains (dead) e where "forfeit E i split st = (Inl e, st)" "deadHold st i e"
  | (bad) "forfeit E i split st = (Inl ValidationError, st)" "\<not> (0 \<le> burnOf split \<and> burnOf split \<le> 1)"
  | (ok_case) h st' where "forfeit E i split st = (Inr (), st')" "mapGet (holds st) i = Some h"
    "h_state h = Active" "resolvedTo Forfeited i st st'"
    "0 \<le> burnOf split" "burnOf split \<le> 1"
    "wmove E st st' (payout split (h_currency h) (bv E (h_amount h)))
       (bump (holdKey h) (- bv E (h_amount h)))"
proof (cases rule: activeHold_cases [of st i])
  case none
  then show ?thesis using dead by (simp add: forfeit_def deadHold_def exec_simps)
next
  case (spent h)
  then show ?thesis using dead by (simp add: forfeit_def deadHold_def exec_simps)
next
  case (active h)
  let ?f = "burnOf split" and ?v = "bv E (h_amount h)"
  note v = holdAmount [OF ok active(1)]
  let ?a = "bigMinus E (h_amount h) (bigTimes E (h_amount h) ?f)"
  have b: "bigVal E (bigTimes E (h_amount h) ?f) = Some (?v * ?f)"
    using times_exactD [OF wallet_okD(2) [OF ok] v(1) six] .
  have a: "bigVal E ?a = Some (?v - ?v * ?f)"
    using big_exact_minus [OF wallet_okD(1) [OF ok] v(1) b] .
  show ?thesis
  proof (cases "0 \<le> ?f \<and> ?f \<le> 1")
    case False
    then have "?f < 0 \<or> 1 < ?f" by auto
    then show ?thesis using bad active False
      by (simp add: forfeit_def exec_simps Let_def burnOf_def [symmetric])
  next
    case True
    then have nn: "0 \<le> ?v - ?v * ?f" using v(2) by (simp add: mult_left_le)
    obtain rs where
      r: "forfeitLocked E h split ?a st =
         (Inr (), st\<lparr>rows := rs, holds := mapSet (holdId h) (h\<lparr>h_state := Forfeited\<rparr>) (holds st)\<rparr>)"
      and m: "moves E (rows st) rs (payout split (h_currency h) ?v) (bump (holdKey h) (- ?v))"
      using forfeitLocked_effect [OF wallet_okD(4,1) [OF ok] v(1) a nn, of split]
      by (auto simp: burnOf_def)
    have "forfeit E i split st = forfeitLocked E h split ?a st"
      using active True b v(1)
      by (simp add: forfeit_def exec_simps Let_def burnOf_def [symmetric] big_ops_ok del: bv_Some)
    then show ?thesis
      using ok_case [OF _ active(1,2)] r True wmove_resolve [OF ok active(1,2) m, of Forfeited] by simp
  qed
qed

section \<open>Sequences of calls\<close>

datatype wallet_op =
    Credit string money
  | Debit string money
  | Hold int string money string
  | Release string
  | Capture string string
  | Forfeit string "(string \<times> rat) option"

fun runOp :: "ext \<Rightarrow> wallet_op \<Rightarrow> (wallet_st, unit) exec" where
  "runOp E (Credit d m) = credit E d m"
| "runOp E (Debit d m) = debit E d m"
| "runOp E (Hold now d m ref) = bindE (hold E now d m ref) (\<lambda>_. ret ())"
| "runOp E (Release i) = release E i"
| "runOp E (Capture i dest) = capture E i dest"
| "runOp E (Forfeit i split) = forfeit E i split"

text \<open>What a call that returns adds to the funds of a currency: only credits, debits and burns count.\<close>

fun minted :: "ext \<Rightarrow> string \<Rightarrow> wallet_op \<Rightarrow> wallet_st \<Rightarrow> rat" where
  "minted E c (Credit d m) st = (if keyCurrency (currency m) = c then bv E (amount m) else 0)"
| "minted E c (Debit d m) st = (if keyCurrency (currency m) = c then - bv E (amount m) else 0)"
| "minted E c (Forfeit i split) st =
     (case mapGet (holds st) i of
        None \<Rightarrow> 0
      | Some h \<Rightarrow> if keyCurrency (h_currency h) = c then - (bv E (h_amount h) * burnOf split) else 0)"
| "minted E c _ st = 0"

fun runOps :: "ext \<Rightarrow> string \<Rightarrow> wallet_op list \<Rightarrow> wallet_st \<Rightarrow> rat \<times> wallet_st" where
  "runOps E c [] st = (0, st)"
| "runOps E c (op # ops) st =
     (case runOp E op st of
        (Inl _, st') \<Rightarrow> runOps E c ops st'
      | (Inr _, st') \<Rightarrow> (case runOps E c ops st' of (f, st'') \<Rightarrow> (minted E c op st + f, st'')))"

text \<open>The burned fractions of the code have at most six decimal places.\<close>

fun opOk :: "wallet_op \<Rightarrow> bool" where
  "opOk (Forfeit i split) = (burnOf split * 1000000 \<in> \<int>)"
| "opOk _ = True"

lemma runOp_step:
  assumes ok: "wallet_ok E st" and op: "opOk op" and r: "runOp E op st = (r, st')"
  shows "wallet_ok E st' \<and> spends st' = spends st \<and>
    worth E c st' = worth E c st + (case r of Inl _ \<Rightarrow> 0 | Inr _ \<Rightarrow> minted E c op st)"
proof (cases op)
  case (Credit d m)
  then show ?thesis using r
    by (cases rule: credit_out [OF ok, of d m])
      (insert ok, auto simp: wmoveD wmove_worth_av [OF ok] keyCurrency_walletKey)
next
  case (Debit d m)
  then show ?thesis using r
    by (cases rule: debit_out [OF ok, of d m])
      (auto simp: wmoveD wmove_worth_av [OF ok] wmove_worth_0 [OF ok] keyCurrency_walletKey)
next
  case (Hold now d m ref)
  then show ?thesis using r
    by (cases rule: hold_out [OF ok, of now d m ref])
      (auto simp: exec_simps wmoveD wmove_worth [OF ok] wmove_worth_0 [OF ok] keyCurrency_walletKey)
next
  case (Release i)
  then show ?thesis using r
    by (cases rule: release_out [OF ok, of i])
      (insert ok, auto simp: wmoveD wmove_worth [OF ok] keyCurrency_walletKey)
next
  case (Capture i dest)
  then show ?thesis using r
    by (cases rule: capture_out [OF ok, of i dest])
      (insert ok, auto simp: wmoveD wmove_worth [OF ok] keyCurrency_walletKey)
next
  case (Forfeit i split)
  then have six: "six_digits (burnOf split)" using op by (simp add: six_digits_def)
  show ?thesis
  proof (cases rule: forfeit_out [OF ok six, of i])
    case (1 e)
    then show ?thesis using r Forfeit ok by auto
  next
    case 2
    then show ?thesis using r Forfeit ok by auto
  next
    case (3 h st1)
    let ?v = "bv E (h_amount h)"
    have pay: "\<exists>k. payout split (h_currency h) ?v = bump k (?v - ?v * burnOf split) \<and>
        keyCurrency k = keyCurrency (h_currency h)"
      by (cases split)
        (auto simp: payout_def burnOf_def keyCurrency_walletKey
          intro: exI [of _ "walletKey [] (h_currency h)"])
    then obtain k where k: "payout split (h_currency h) ?v = bump k (?v - ?v * burnOf split)"
        "keyCurrency k = keyCurrency (h_currency h)" by blast
    from wmove_worth [OF ok, of st1 k "?v - ?v * burnOf split" "holdKey h" "- ?v" c] 3 k
    show ?thesis using r Forfeit
      by (auto simp: wmoveD keyCurrency_walletKey)
  qed
qed

lemma runOps_step:
  assumes "wallet_ok E st" "list_all opOk ops"
  shows "wallet_ok E (snd (runOps E c ops st)) \<and>
    worth E c (snd (runOps E c ops st)) = worth E c st + fst (runOps E c ops st)"
  using assms
proof (induction ops arbitrary: st)
  case Nil
  then show ?case by simp
next
  case (Cons op ops)
  obtain r st' where r: "runOp E op st = (r, st')" by (cases "runOp E op st")
  note step = runOp_step [OF Cons.prems(1) _ r, of c]
  have IH: "wallet_ok E (snd (runOps E c ops st')) \<and>
      worth E c (snd (runOps E c ops st')) = worth E c st' + fst (runOps E c ops st')"
    using Cons step by simp
  show ?case using IH step Cons.prems(2)
    by (cases r; cases "runOps E c ops st'") (simp_all add: r)
qed

text \<open>Preservation in the form the callers use.\<close>

lemma keeps_runOp: "opOk op \<Longrightarrow> keeps (wallet_ok E) (runOp E op)"
  by (rule keepsI) (metis runOp_step prod.collapse)

lemma keeps_credit [keeps_rules]: "keeps (wallet_ok E) (credit E d m)"
  using keeps_runOp [of "Credit d m"] by simp

lemma keeps_debit [keeps_rules]: "keeps (wallet_ok E) (debit E d m)"
  using keeps_runOp [of "Debit d m"] by simp

lemma keeps_hold [keeps_rules]: "keeps (wallet_ok E) (hold E now d m ref)"
proof (rule keepsI)
  fix st
  assume "wallet_ok E st"
  then show "wallet_ok E (snd (hold E now d m ref st))"
    by (cases rule: hold_out [of E st now d m ref]) (simp_all add: wmoveD(1))
qed

lemma keeps_release [keeps_rules]: "keeps (wallet_ok E) (release E i)"
  using keeps_runOp [of "Release i"] by simp

lemma keeps_capture [keeps_rules]: "keeps (wallet_ok E) (capture E i dest)"
  using keeps_runOp [of "Capture i dest"] by simp

lemma keeps_forfeit [keeps_rules]:
  "six_digits (burnOf split) \<Longrightarrow> keeps (wallet_ok E) (forfeit E i split)"
  using keeps_runOp [of "Forfeit i split"] by (simp add: six_digits_def)

end
