(* ===== verification/Wallet_Spec.thy ===== *)
theory Wallet_Spec
  imports Wallet_Laws Ports Samples
begin

text \<open>
  What the wallet promises. The wallet provides the contracts \<open>value_port\<close> and \<open>hold_port\<close>
  (interpretation \<open>wal\<close>): funds are conserved by every sequence of calls, a hold is resolved
  once, a forfeiture splits the hold exactly, and the spend accumulators add up. The last part
  shows what the state test outside the critical section allows.
\<close>

section \<open>The wallet as a provider of value transfer\<close>

definition lockedBy :: "ext \<Rightarrow> wallet_st \<Rightarrow> string \<Rightarrow> (string \<times> string \<times> rat) option" where
  "lockedBy E st i =
     (case mapGet (holds st) i of
        None \<Rightarrow> None
      | Some h \<Rightarrow> if h_state h = Active then Some (h_did h, h_currency h, bv E (h_amount h)) else None)"

lemma lockedBy_dead: "deadHold st i e \<Longrightarrow> lockedBy E st i = None"
  by (auto simp: deadHold_def lockedBy_def split: option.splits)

lemma lockedBy_SomeD:
  "lockedBy E st i = Some (d, c, v) \<Longrightarrow>
   \<exists>h. mapGet (holds st) i = Some h \<and> h_state h = Active \<and> h_did h = d \<and> h_currency h = c \<and>
     bv E (h_amount h) = v"
  by (auto simp: lockedBy_def split: option.splits if_splits)

lemma lockedBy_resolved:
  "resolvedTo x i st st' \<Longrightarrow> x \<noteq> Active \<Longrightarrow> lockedBy E st' = (lockedBy E st)(i := None)"
  by (rule HOL.ext) (auto simp: resolvedTo_def lockedBy_def split: option.splits if_splits)

lemma lockedBy_same: "holds st' = holds st \<Longrightarrow> lockedBy E st' = lockedBy E st"
  by (rule HOL.ext) (simp add: lockedBy_def)

lemma wallet_credit_ok:
  assumes ok: "wallet_ok E s" and v: "bigVal E (amount m) = Some v" "0 < v"
  shows "\<exists>s'. credit E d m s = (Inr (), s') \<and> wallet_ok E s' \<and>
    (\<forall>k. availAt E (rows s') k = availAt E (rows s) k + (if k = walletKey d (currency m) then v else 0)) \<and>
    (\<forall>c. worth E c s' = worth E c s + (if keyCurrency (currency m) = c then v else 0))"
proof (cases rule: credit_out [OF ok, of d m])
  case (2 w s')
  then have "w = v" using v by simp
  then show ?thesis using 2 wmoveD [OF 2(4)] wmove_worth_av [OF ok, of s' _ v]
    by (auto simp: bump_def keyCurrency_walletKey)
qed (use v in auto)

lemma wallet_debit_ok:
  assumes ok: "wallet_ok E s" and v: "bigVal E (amount m) = Some v" "0 < v"
    and le: "v \<le> availAt E (rows s) (walletKey d (currency m))"
  shows "\<exists>s'. debit E d m s = (Inr (), s') \<and> wallet_ok E s' \<and>
    (\<forall>k. availAt E (rows s') k = availAt E (rows s) k - (if k = walletKey d (currency m) then v else 0)) \<and>
    (\<forall>c. worth E c s' = worth E c s - (if keyCurrency (currency m) = c then v else 0))"
proof (cases rule: debit_out [OF ok, of d m])
  case (2 w s')
  then have "w = v" using v by simp
  then show ?thesis using 2 wmoveD [OF 2(5)] wmove_worth_av [OF ok, of s' _ "- v"]
    by (auto simp: bump_def keyCurrency_walletKey)
qed (use v le in auto)

lemma wallet_debit_bad:
  assumes ok: "wallet_ok E s"
    and bad: "\<nexists>v. bigVal E (amount m) = Some v \<and> 0 < v \<and> v \<le> availAt E (rows s) (walletKey d (currency m))"
  shows "\<exists>e s'. debit E d m s = (Inl e, s') \<and> wallet_ok E s' \<and>
    (\<forall>k. availAt E (rows s') k = availAt E (rows s) k) \<and> (\<forall>c. worth E c s' = worth E c s)"
proof (cases rule: debit_out [OF ok, of d m])
  case (1 e s')
  then show ?thesis using wmoveD [OF 1(2)] wmove_worth_0 [OF ok 1(2)] by auto
qed (use bad in auto)

lemma wallet_hold_ok:
  assumes ok: "wallet_ok E s" and v: "bigVal E (amount m) = Some v" "0 < v"
    and le: "v \<le> availAt E (rows s) (walletKey d (currency m))"
  shows "\<exists>i s'. hold E now d m ref s = (Inr i, s') \<and> wallet_ok E s' \<and> lockedBy E s i = None \<and>
    lockedBy E s' = (lockedBy E s)(i \<mapsto> (d, currency m, v)) \<and>
    (\<forall>k. availAt E (rows s') k = availAt E (rows s) k - (if k = walletKey d (currency m) then v else 0)) \<and>
    (\<forall>c. worth E c s' = worth E c s)"
proof (cases rule: hold_out [OF ok, of now d m ref])
  case (2 w i h s')
  then have w: "w = v" using v by simp
  have "lockedBy E s' = (lockedBy E s)(i \<mapsto> (d, currency m, v))"
    by (rule HOL.ext) (use 2 v in \<open>simp add: lockedBy_def\<close>)
  moreover have "lockedBy E s i = None" using 2 by (simp add: lockedBy_def)
  ultimately show ?thesis
    using 2 w wmoveD [OF 2(5)] wmove_worth [OF ok 2(5)]
    by (intro exI [of _ i] exI [of _ s']) (auto simp: bump_def)
qed (use v le in auto)

lemma wallet_hold_bad:
  assumes ok: "wallet_ok E s"
    and bad: "\<nexists>v. bigVal E (amount m) = Some v \<and> 0 < v \<and> v \<le> availAt E (rows s) (walletKey d (currency m))"
  shows "\<exists>e s'. hold E now d m ref s = (Inl e, s') \<and> wallet_ok E s' \<and> lockedBy E s' = lockedBy E s \<and>
    (\<forall>k. availAt E (rows s') k = availAt E (rows s) k) \<and> (\<forall>c. worth E c s' = worth E c s)"
proof (cases rule: hold_out [OF ok, of now d m ref])
  case (1 e s')
  then show ?thesis using wmoveD [OF 1(2)] wmove_worth_0 [OF ok 1(2)] lockedBy_same [OF 1(3)] by auto
qed (use bad in auto)

lemma wallet_release_ok:
  assumes ok: "wallet_ok E s" and l: "lockedBy E s i = Some (d, c, v)"
  shows "\<exists>s'. release E i s = (Inr (), s') \<and> wallet_ok E s' \<and> lockedBy E s' = (lockedBy E s)(i := None) \<and>
    (\<forall>k. availAt E (rows s') k = availAt E (rows s) k + (if k = walletKey d c then v else 0)) \<and>
    (\<forall>c. worth E c s' = worth E c s)"
proof (cases rule: release_out [OF ok, of i])
  case (1 e)
  then show ?thesis using l lockedBy_dead by fastforce
next
  case (2 h s')
  then show ?thesis
    using wmoveD [OF 2(5)] wmove_worth [OF ok 2(5)] lockedBy_resolved [OF 2(4)] lockedBy_SomeD [OF l]
    by (intro exI [of _ s']) (auto simp: bump_def)
qed

lemma wallet_capture_ok:
  assumes ok: "wallet_ok E s" and l: "lockedBy E s i = Some (d, c, v)"
  shows "\<exists>s'. capture E i q s = (Inr (), s') \<and> wallet_ok E s' \<and> lockedBy E s' = (lockedBy E s)(i := None) \<and>
    (\<forall>k. availAt E (rows s') k = availAt E (rows s) k + (if k = walletKey q c then v else 0)) \<and>
    (\<forall>c. worth E c s' = worth E c s)"
proof (cases rule: capture_out [OF ok, of i q])
  case (1 e)
  then show ?thesis using l lockedBy_dead by fastforce
next
  case (2 h s')
  then show ?thesis
    using wmoveD [OF 2(5)] wmove_worth [OF ok 2(5)] lockedBy_resolved [OF 2(4)] lockedBy_SomeD [OF l]
    by (intro exI [of _ s']) (auto simp: bump_def keyCurrency_walletKey)
qed

lemma wallet_release_bad:
  "wallet_ok E s \<Longrightarrow> lockedBy E s i = None \<Longrightarrow> \<exists>e. release E i s = (Inl e, s)"
  by (cases rule: release_out [of E s i]) (auto simp: lockedBy_def)

lemma wallet_capture_bad:
  "wallet_ok E s \<Longrightarrow> lockedBy E s i = None \<Longrightarrow> \<exists>e. capture E i q s = (Inl e, s)"
  by (cases rule: capture_out [of E s i q]) (auto simp: lockedBy_def)

interpretation wal: hold_port "wallet_ok E" "bigVal E" walletKey "\<lambda>s. availAt E (rows s)" "worth E"
    "\<lambda>cur c. keyCurrency cur = c" "credit E" "debit E" "lockedBy E" "hold E" "release E" "capture E"
  for E
  by unfold_locales
    (rule wallet_credit_ok wallet_debit_ok wallet_debit_bad wallet_hold_ok wallet_hold_bad
      wallet_release_ok wallet_capture_ok wallet_release_bad wallet_capture_bad; assumption)+

section \<open>Properties\<close>

lemma worth_empty: "worth E c emptyWallet = 0"
  by (simp add: worth_def worthBy_def emptyWallet_def)

definition usdc :: "string \<Rightarrow> money" where
  "usdc a = \<lparr>amount = a, currency = ''USDC''\<rparr>"

lemma demo_lib_ok: "lib_ok demo"
  by (simp add: lib_ok_def demo_big_exact demo_times_exact demo_ulid_fresh)

text \<open>
  Claim C10. The wallet never creates or loses funds: after any sequence of credits, debits, holds,
  releases, captures and forfeitures, failed calls included, the funds of a currency (available
  and held, over all accounts) have changed by exactly the amounts credited minus those debited
  and burned by the calls that returned; and the invariant still holds: no available balance is
  negative and the held funds of every account are the sum of its active holds.
\<close>

theorem wallet_conserves:
  assumes "wallet_ok E st" "list_all opOk ops" "runOps E c ops st = (f, st')"
  shows "worth E c st' = worth E c st + f \<and> wallet_ok E st'"
  using runOps_step [OF assms(1,2), of c] assms(3) by simp

definition sampleOps :: "wallet_op list" where
  "sampleOps = [Credit ''a'' (usdc ''10''), Hold 5 ''a'' (usdc ''4'') ''ref'',
     Debit ''a'' (usdc ''7''), Forfeit ''hold_0'' (Some (''b'', 1 / 2)), Capture ''hold_0'' ''c'']"

lemma sampleOps_run: "fst (runOps demo ''USDC'' sampleOps emptyWallet) = 8"
  by code_simp

lemma half_six: "(1 / 2 :: rat) * 1000000 \<in> \<int>"
proof -
  have "(500000 :: rat) \<in> \<int>" by (metis Ints_of_int of_int_numeral)
  then show ?thesis by simp
qed

lemma sampleOps_ok: "list_all opOk sampleOps"
  using half_six by (simp add: sampleOps_def burnOf_def)

lemma wallet_conserves_witness:
  "worth demo ''USDC'' (snd (runOps demo ''USDC'' sampleOps emptyWallet)) = 8 \<and>
   wallet_ok demo (snd (runOps demo ''USDC'' sampleOps emptyWallet))"
  using wallet_conserves [OF wallet_ok_empty [OF demo_lib_ok] sampleOps_ok
      prod.collapse [symmetric], of "''USDC''"]
  by (simp add: sampleOps_run worth_empty)

lemma deadHold_stays:
  assumes ok: "wallet_ok E st" and op: "opOk op" and r: "runOp E op st = (r, st')"
    and h: "mapGet (holds st) i = Some h" "h_state h \<noteq> Active"
  shows "mapGet (holds st') i = Some h"
proof (cases op)
  case (Credit d m)
  then show ?thesis using r h by (cases rule: credit_out [OF ok, of d m]) auto
next
  case (Debit d m)
  then show ?thesis using r h by (cases rule: debit_out [OF ok, of d m]) auto
next
  case (Hold now d m ref)
  then show ?thesis using r h
    by (cases rule: hold_out [OF ok, of now d m ref]) (auto simp: exec_simps)
next
  case (Release j)
  then show ?thesis using r h
    by (cases rule: release_out [OF ok, of j]) (auto simp: resolvedTo_def)
next
  case (Capture j dest)
  then show ?thesis using r h
    by (cases rule: capture_out [OF ok, of j dest]) (auto simp: resolvedTo_def)
next
  case (Forfeit j split)
  then have six: "six_digits (burnOf split)" using op by (simp add: six_digits_def)
  from Forfeit show ?thesis using r h
    by (cases rule: forfeit_out [OF ok six, of j]) (auto simp: resolvedTo_def)
qed

lemma runOps_dead:
  assumes "wallet_ok E st" "list_all opOk ops" "mapGet (holds st) i = Some h" "h_state h \<noteq> Active"
  shows "mapGet (holds (snd (runOps E c ops st))) i = Some h"
  using assms
proof (induction ops arbitrary: st)
  case Nil
  then show ?case by simp
next
  case (Cons op ops)
  obtain r st' where r: "runOp E op st = (r, st')" by (cases "runOp E op st")
  have "wallet_ok E st'" using runOp_step [OF Cons.prems(1) _ r] Cons.prems(2) by simp
  moreover have "mapGet (holds st') i = Some h"
    using deadHold_stays [OF Cons.prems(1) _ r] Cons.prems by simp
  ultimately have "mapGet (holds (snd (runOps E c ops st'))) i = Some h"
    using Cons.IH Cons.prems by simp
  then show ?case by (cases r; cases "runOps E c ops st'") (simp_all add: r)
qed

lemma dead_throws:
  assumes "mapGet (holds st) i = Some h" "h_state h \<noteq> Active"
  shows "release E i st = (Inl ConflictError, st)" "capture E i d st = (Inl ConflictError, st)"
    "forfeit E i split st = (Inl ConflictError, st)"
  using assms by (simp_all add: release_def capture_def forfeit_def activeHold_def exec_simps)

text \<open>
  Claim C27. A hold is resolved once: after it has been released, captured or forfeited, no later
  sequence of calls changes its record, and every further attempt to release, capture or forfeit
  it throws a conflict and leaves the whole store untouched.
\<close>

theorem hold_resolved_once:
  assumes "wallet_ok E st" "list_all opOk ops" "mapGet (holds st) i = Some h" "h_state h \<noteq> Active"
    and "runOps E c ops st = (f, st')"
  shows "mapGet (holds st') i = Some h \<and> release E i st' = (Inl ConflictError, st') \<and>
    capture E i dest st' = (Inl ConflictError, st') \<and>
    forfeit E i split st' = (Inl ConflictError, st')"
proof -
  have "mapGet (holds st') i = Some h" using runOps_dead [OF assms(1-4), of c] assms(5) by simp
  then show ?thesis using dead_throws [OF _ assms(4)] by simp
qed

definition sampleWallet :: wallet_st where
  "sampleWallet = snd (runOps demo ''USDC'' sampleOps emptyWallet)"

lemma sampleWallet_ok: "wallet_ok demo sampleWallet"
  using runOps_step [OF wallet_ok_empty [OF demo_lib_ok] sampleOps_ok] by (simp add: sampleWallet_def)

lemma sampleWallet_hold:
  "map_option h_state (mapGet (holds sampleWallet) ''hold_0'') = Some Forfeited"
  by code_simp

lemma hold_resolved_once_witness:
  "\<exists>h. h_state h = Forfeited \<and>
     mapGet (holds (snd (runOps demo ''USDC'' sampleOps sampleWallet))) ''hold_0'' = Some h"
proof -
  obtain h where h: "mapGet (holds sampleWallet) ''hold_0'' = Some h" "h_state h = Forfeited"
    using sampleWallet_hold by auto
  then have "h_state h \<noteq> Active" by simp
  from hold_resolved_once [OF sampleWallet_ok sampleOps_ok h(1) this prod.collapse [symmetric]] h(2)
  show ?thesis by blast
qed

text \<open>
  Escrowing then paying is a transfer: capturing a hold in favour of a recipient moves
  exactly the amount that was held from the holder's available funds to the recipient's, changes
  no other balance and no currency's total; and no second capture or release of it is possible.
\<close>

theorem hold_capture_transfers:
  assumes "wallet_ok E st" "hold E now p m ref st = (Inr i, st1)"
  shows "\<exists>v st2. bigVal E (amount m) = Some v \<and> 0 < v \<and> capture E i q st1 = (Inr (), st2) \<and>
    (\<forall>k. availAt E (rows st2) k = availAt E (rows st) k - (if k = walletKey p (currency m) then v else 0)
        + (if k = walletKey q (currency m) then v else 0)) \<and>
    (\<forall>c. worth E c st2 = worth E c st) \<and>
    (\<exists>e. capture E i q st2 = (Inl e, st2)) \<and> (\<exists>e. release E i st2 = (Inl e, st2))"
proof -
  have ok1: "wallet_ok E st1" using keepsD_pair [OF keeps_hold assms] .
  obtain v st2 where *: "capture E i q st1 = (Inr (), st2)" "bigVal E (amount m) = Some v" "0 < v"
    "\<And>k. availAt E (rows st2) k = availAt E (rows st) k - (if k = walletKey p (currency m) then v else 0)
        + (if k = walletKey q (currency m) then v else 0)"
    "\<And>c. worth E c st2 = worth E c st"
    using wal.hold_then_capture [OF assms, of q] by metis
  with wal.capture_once [OF ok1 *(1)] show ?thesis by blast
qed

lemma sampleHold: "\<exists>st1. hold demo 5 ''b'' (usdc ''1'') ''r'' sampleWallet = (Inr ''hold_1'', st1)"
proof -
  have "fst (hold demo 5 ''b'' (usdc ''1'') ''r'' sampleWallet) = Inr ''hold_1''" by code_simp
  then show ?thesis by (metis prod.collapse)
qed

lemma hold_capture_transfers_witness:
  "\<exists>st1 st2. hold demo 5 ''b'' (usdc ''1'') ''r'' sampleWallet = (Inr ''hold_1'', st1) \<and>
     capture demo ''hold_1'' ''d'' st1 = (Inr (), st2)"
  using sampleHold hold_capture_transfers [OF sampleWallet_ok] by metis

text \<open>
  Slashing is exact: when a forfeiture with a split returns, the recipient's available
  funds grow by the part that is not burned, the holder's held funds shrink by the whole hold, no
  other account changes, and the currency loses exactly the burned part.
\<close>

theorem forfeit_splits_exactly:
  assumes "wallet_ok E st" "six_digits f" "forfeit E i (Some (q, f)) st = (Inr (), st')"
  shows "\<exists>h v. mapGet (holds st) i = Some h \<and> h_state h = Active \<and> bigVal E (h_amount h) = Some v \<and>
    0 \<le> f \<and> f \<le> 1 \<and>
    (\<forall>k. availAt E (rows st') k = availAt E (rows st) k +
        (if k = walletKey q (h_currency h) then v - v * f else 0)) \<and>
    (\<forall>k. heldAt E (rows st') k = heldAt E (rows st) k - (if k = holdKey h then v else 0)) \<and>
    (\<forall>c. worth E c st' = worth E c st - (if keyCurrency (h_currency h) = c then v * f else 0))"
proof -
  have six: "six_digits (burnOf (Some (q, f)))" using assms(2) by (simp add: burnOf_def)
  show ?thesis
  proof (cases rule: forfeit_out [OF assms(1) six, of i])
    case (3 h st1)
    then have [simp]: "st1 = st'" using assms(3) by simp
    have m: "wmove E st st' (bump (walletKey q (h_currency h)) (bv E (h_amount h) - bv E (h_amount h) * f))
        (bump (holdKey h) (- bv E (h_amount h)))"
      using 3 by (simp add: payout_def)
    show ?thesis
      using 3(2,3,5,6) holdAmount(1) [OF assms(1) 3(2)] wmoveD(4,5) [OF m] wmove_worth [OF assms(1) m]
      by (intro exI [of _ h] exI [of _ "bv E (h_amount h)"])
        (auto simp: burnOf_def bump_def keyCurrency_walletKey simp del: bv_Some)
  qed (use assms(3) in auto)
qed

lemma sampleForfeit:
  "fst (forfeit demo ''hold_1'' (Some (''c'', 1 / 2))
     (snd (hold demo 5 ''b'' (usdc ''1'') ''r'' sampleWallet))) = Inr ()"
  by code_simp

lemma forfeit_splits_exactly_witness:
  "\<exists>st st' h. forfeit demo ''hold_1'' (Some (''c'', 1 / 2)) st = (Inr (), st') \<and>
     mapGet (holds st) ''hold_1'' = Some h \<and> h_state h = Active"
proof -
  let ?st = "snd (hold demo 5 ''b'' (usdc ''1'') ''r'' sampleWallet)"
  obtain st' where r: "forfeit demo ''hold_1'' (Some (''c'', 1 / 2)) ?st = (Inr (), st')"
    using sampleForfeit by (metis prod.collapse)
  have "wallet_ok demo ?st" using keepsD [OF keeps_hold sampleWallet_ok] .
  moreover have "six_digits (1 / 2)" using half_six by (simp add: six_digits_def)
  ultimately show ?thesis using forfeit_splits_exactly [OF _ _ r] r by blast
qed

section \<open>Spend accumulators\<close>

text \<open>Days that come back to an earlier value are never separated: the clock does not run backwards.\<close>

fun contiguous :: "'a list \<Rightarrow> bool" where
  "contiguous [] = True"
| "contiguous (x # xs) = ((List.member xs x \<longrightarrow> hd xs = x) \<and> contiguous xs)"

lemma contiguous_snocD: "contiguous (xs @ [x]) \<Longrightarrow> contiguous xs"
  by (induction xs) (auto simp: hd_append split: if_splits)

lemma contiguous_last: "contiguous (xs @ [x]) \<Longrightarrow> x \<in> set xs \<Longrightarrow> last xs = x"
proof (induction xs)
  case Nil
  then show ?case by simp
next
  case (Cons y xs)
  show ?case
  proof (cases "xs = []")
    case True
    with Cons show ?thesis by simp
  next
    case False
    have "x \<in> set xs" using Cons.prems False by (cases xs) auto
    then show ?thesis using Cons False by simp
  qed
qed

fun recordAll :: "ext \<Rightarrow> string \<Rightarrow> (int \<times> string) list \<Rightarrow> (wallet_st, unit) exec" where
  "recordAll E d [] = ret ()"
| "recordAll E d ((t, a) # h) = bindE (recordSpend E t d (usdc a)) (\<lambda>_. recordAll E d h)"

definition daySum :: "ext \<Rightarrow> string \<Rightarrow> (int \<times> string) list \<Rightarrow> rat" where
  "daySum E day h = sum_list (map (\<lambda>(t, a). if utcDayBucket E t = day then bv E a else 0) h)"

definition totalSum :: "ext \<Rightarrow> (int \<times> string) list \<Rightarrow> rat" where
  "totalSum E h = sum_list (map (\<lambda>(t, a). bv E a) h)"

definition buckets :: "ext \<Rightarrow> (int \<times> string) list \<Rightarrow> string list" where
  "buckets E h = map (\<lambda>(t, a). utcDayBucket E t) h"

definition spendRowFits :: "ext \<Rightarrow> string \<Rightarrow> (int \<times> string) list \<Rightarrow> wallet_st \<Rightarrow> bool" where
  "spendRowFits E d h st \<longleftrightarrow>
     (case mapGet (spends st) (walletKey d ''USDC'') of
        None \<Rightarrow> h = []
      | Some r \<Rightarrow> h \<noteq> [] \<and> s_did r = d \<and> s_currency r = ''USDC'' \<and>
          dailyBucket r = last (buckets E h) \<and>
          bigVal E (s_total r) = Some (totalSum E h) \<and>
          bigVal E (dailyAmount r) = Some (daySum E (dailyBucket r) h))"

lemma daySum_none: "day \<notin> set (buckets E h) \<Longrightarrow> daySum E day h = 0"
  by (induction h) (auto simp: daySum_def buckets_def)

lemma recordSpend_fits:
  assumes E: "big_exact E" and fits: "spendRowFits E d h st" and con: "contiguous (buckets E (h @ [(t, a)]))"
    and a: "bigVal E a = Some v" "0 < v" and new: "utcDayBucket E t \<noteq> []"
  obtains st' where "recordSpend E t d (usdc a) st = (Inr (), st')" "spendRowFits E d (h @ [(t, a)]) st'"
proof -
  let ?k = "walletKey d ''USDC''" and ?b = "utcDayBucket E t"
  have ap: "assertPositive E (usdc a) st = (Inr (), st)"
    using a by (simp add: assertPositive_def usdc_def)
  have con': "contiguous (buckets E h @ [?b])" using con by (simp add: buckets_def)
  show ?thesis
  proof (cases "mapGet (spends st) ?k")
    case None
    then have h: "h = []" using fits by (simp add: spendRowFits_def)
    let ?r = "\<lparr>s_did = d, s_currency = ''USDC'', s_total = bigPlus E ''0'' a, dailyBucket = ?b,
               dailyAmount = a\<rparr>"
    let ?f = "\<lparr>s_did = d, s_currency = ''USDC'', s_total = ''0'', dailyBucket = [], dailyAmount = ''0''\<rparr>"
    let ?s = "st\<lparr>spends := mapSet ?k ?r (mapSet ?k ?f (spends st))\<rparr>"
    have "recordSpend E t d (usdc a) st = (Inr (), ?s)"
      using None ap a new big_exact_zero [OF E]
      by (simp add: recordSpend_def spendGetOrCreate_def exec_simps Let_def plusE_ok usdc_def)
    moreover have "spendRowFits E d (h @ [(t, a)]) ?s"
      using h a big_exact_plus [OF E big_exact_zero [OF E] a(1)]
      by (simp add: spendRowFits_def buckets_def totalSum_def daySum_def)
    ultimately show ?thesis using that by blast
  next
    case (Some r)
    then have r: "h \<noteq> []" "s_did r = d" "s_currency r = ''USDC''" "dailyBucket r = last (buckets E h)"
        "bigVal E (s_total r) = Some (totalSum E h)"
        "bigVal E (dailyAmount r) = Some (daySum E (dailyBucket r) h)"
      using fits by (simp_all add: spendRowFits_def)
    let ?day = "if dailyBucket r = ?b then bigPlus E (dailyAmount r) a else a"
    let ?r = "r\<lparr>s_total := bigPlus E (s_total r) a, dailyBucket := ?b, dailyAmount := ?day\<rparr>"
    let ?s = "st\<lparr>spends := mapSet ?k ?r (spends st)\<rparr>"
    have "recordSpend E t d (usdc a) st = (Inr (), ?s)"
      using Some ap a r
      by (auto simp: recordSpend_def spendGetOrCreate_def exec_simps Let_def plusE_ok usdc_def)
    moreover have "bigVal E ?day = Some (daySum E ?b (h @ [(t, a)]))"
    proof (cases "dailyBucket r = ?b")
      case True
      then show ?thesis using big_exact_plus [OF E r(6) a(1)] a by (simp add: daySum_def)
    next
      case False
      then have "?b \<notin> set (buckets E h)" using contiguous_last [OF con'] r(4) by metis
      then show ?thesis using daySum_none [of ?b E h] False a by (simp add: daySum_def)
    qed
    then have "spendRowFits E d (h @ [(t, a)]) ?s"
      using r a big_exact_plus [OF E r(5) a(1)]
      by (simp add: spendRowFits_def buckets_def totalSum_def)
    ultimately show ?thesis using that by blast
  qed
qed

lemma recordAll_fits:
  assumes E: "big_exact E" and "spendRowFits E d h st" "contiguous (buckets E (h @ g))"
    and "\<forall>(t, a) \<in> set g. \<exists>v. bigVal E a = Some v \<and> 0 < v" "\<forall>b \<in> set (buckets E g). b \<noteq> []"
  shows "\<exists>st'. recordAll E d g st = (Inr (), st') \<and> spendRowFits E d (h @ g) st'"
  using assms(2-)
proof (induction g arbitrary: h st)
  case Nil
  then show ?case by simp
next
  case (Cons x g)
  obtain t a where x: "x = (t, a)" by (cases x)
  obtain v where v: "bigVal E a = Some v" "0 < v" using Cons.prems(3) x by auto
  have pre: "contiguous xs" if "contiguous (xs @ ys)" for xs ys :: "string list"
    using that by (induction ys rule: rev_induct)
      (auto dest: contiguous_snocD simp del: append_assoc simp: append_assoc [symmetric])
  have "buckets E (h @ x # g) = buckets E (h @ [(t, a)]) @ buckets E g"
    by (simp add: buckets_def x)
  then have con: "contiguous (buckets E (h @ [(t, a)]))" using pre Cons.prems(2) by metis
  have "utcDayBucket E t \<noteq> []" using Cons.prems(4) x by (simp add: buckets_def)
  then obtain st1 where s1: "recordSpend E t d (usdc a) st = (Inr (), st1)"
      "spendRowFits E d (h @ [(t, a)]) st1"
    using recordSpend_fits [OF E Cons.prems(1) con v] by metis
  then show ?case using Cons.IH [OF s1(2)] Cons.prems x
    by (simp add: buckets_def exec_simps)
qed

lemma usage_fits:
  assumes E: "big_exact E" and fits: "spendRowFits E d h st"
    and con: "contiguous (buckets E h @ [utcDayBucket E now])"
  shows "\<exists>u. usage E now d st = (Inr u, st) \<and>
    bigVal E (amount (totalSpent u)) = Some (totalSum E h) \<and>
    bigVal E (amount (dailySpent u)) = Some (daySum E (utcDayBucket E now) h) \<and>
    currency (totalSpent u) = ''USDC'' \<and> currency (dailySpent u) = ''USDC''"
proof (cases "mapGet (spends st) (walletKey d ''USDC'')")
  case None
  then show ?thesis using fits big_exact_zero [OF E]
    by (simp add: spendRowFits_def usage_def allSpendRows_def exec_simps mZero_def totalSum_def daySum_def)
next
  case (Some r)
  then have r: "h \<noteq> []" "s_currency r = ''USDC''" "dailyBucket r = last (buckets E h)"
      "bigVal E (s_total r) = Some (totalSum E h)"
      "bigVal E (dailyAmount r) = Some (daySum E (dailyBucket r) h)"
    using fits by (simp_all add: spendRowFits_def)
  note plus = big_exact_plus [OF E big_exact_zero [OF E] r(4)] big_exact_plus [OF E big_exact_zero [OF E] r(5)]
  show ?thesis
  proof (cases "dailyBucket r = utcDayBucket E now")
    case True
    then show ?thesis using Some r plus big_exact_zero [OF E]
      by (simp add: usage_def allSpendRows_def exec_simps plusE_ok)
  next
    case False
    then have "utcDayBucket E now \<notin> set (buckets E h)" using contiguous_last [OF con] r(3) by metis
    then show ?thesis using Some r False plus big_exact_zero [OF E] daySum_none
      by (simp add: usage_def allSpendRows_def exec_simps plusE_ok)
  qed
qed

text \<open>
  The accumulators that the spending caps read are exact: after a run of recorded USDC
  spends, on a clock whose UTC days do not go back, every record succeeds and usage reports as
  lifetime total the sum of all amounts and as daily total the sum of the amounts recorded on the
  current UTC day; on a new day the daily total reads zero.
\<close>

theorem usage_sums_spends:
  assumes "big_exact E" "mapGet (spends st) (walletKey d ''USDC'') = None"
    and "contiguous (buckets E h @ [utcDayBucket E now])" "\<forall>b \<in> set (buckets E h). b \<noteq> []"
    and "\<forall>(t, a) \<in> set h. \<exists>v. bigVal E a = Some v \<and> 0 < v"
  shows "\<exists>st' u. recordAll E d h st = (Inr (), st') \<and> usage E now d st' = (Inr u, st') \<and>
    bigVal E (amount (totalSpent u)) = Some (totalSum E h) \<and>
    bigVal E (amount (dailySpent u)) = Some (daySum E (utcDayBucket E now) h)"
proof -
  have "spendRowFits E d [] st" using assms(2) by (simp add: spendRowFits_def)
  moreover have "contiguous (buckets E ([] @ h))" using contiguous_snocD [OF assms(3)] by simp
  ultimately obtain st' where "recordAll E d h st = (Inr (), st')" "spendRowFits E d ([] @ h) st'"
    using recordAll_fits [OF assms(1) _ _ assms(5,4)] by blast
  then show ?thesis using usage_fits [OF assms(1) _ assms(3)] by fastforce
qed

definition sampleSpends :: "(int \<times> string) list" where
  "sampleSpends = [(1, ''3''), (1, ''4''), (2, ''5'')]"

lemma usage_sums_spends_witness:
  "\<exists>st' u. recordAll demo ''a'' sampleSpends emptyWallet = (Inr (), st') \<and>
     usage demo 2 ''a'' st' = (Inr u, st') \<and>
     readRat (amount (totalSpent u)) = Some 12 \<and> readRat (amount (dailySpent u)) = Some 5"
proof -
  have con: "contiguous (buckets demo sampleSpends @ [utcDayBucket demo 2])" by code_simp
  have ne: "\<forall>b \<in> set (buckets demo sampleSpends). b \<noteq> []" by code_simp
  have sums: "totalSum demo sampleSpends = 12" "daySum demo (utcDayBucket demo 2) sampleSpends = 5"
    by code_simp+
  have "readRat ''3'' = Some 3" "readRat ''4'' = Some 4" "readRat ''5'' = Some 5" by code_simp+
  then have pos: "\<forall>(t, a) \<in> set sampleSpends. \<exists>v. bigVal demo a = Some v \<and> 0 < v"
    by (auto simp: sampleSpends_def)
  have none: "mapGet (spends emptyWallet) (walletKey ''a'' ''USDC'') = None"
    by (simp add: emptyWallet_def)
  from usage_sums_spends [OF demo_big_exact none con ne pos] show ?thesis by (simp add: sums)
qed

lemma usageLoop_pure:
  "\<exists>r. \<forall>s :: wallet_st. usageLoop E c b rs tot day s = (r, s)"
proof (induction E c b rs tot day rule: usageLoop.induct)
  case (1 E cur today tot day)
  then show ?case by simp
next
  case (2 E cur today r rs tot day)
  let ?go = "\<lambda>x. usageLoop E cur today rs (bigPlus E tot (s_total r)) x"
  show ?case
  proof (cases "s_currency r \<noteq> cur")
    case True
    then show ?thesis using 2(1) by simp
  next
    case False
    obtain r1 where r1: "\<And>s :: wallet_st. ?go day s = (r1, s)" using 2(2) [OF False] by blast
    obtain r2 where r2: "\<And>s :: wallet_st. ?go (bigPlus E day (dailyAmount r)) s = (r2, s)"
      using 2(2) [OF False] by blast
    show ?thesis
      using False by (cases "bigVal E tot"; cases "bigVal E (s_total r)"; cases "bigVal E day";
        cases "bigVal E (dailyAmount r)") (simp_all add: plusE_def exec_simps r1 r2)
  qed
qed

lemma usage_reads_row:
  assumes "allSpendRows d st' = allSpendRows d st"
  shows "fst (usage E now d st') = fst (usage E now d st)"
proof (cases "allSpendRows d st")
  case Nil
  then show ?thesis using assms by (simp add: usage_def exec_simps)
next
  case (Cons r rs)
  obtain x where "\<And>s :: wallet_st. usageLoop E (s_currency r) (utcDayBucket E now) (r # rs) ''0'' ''0'' s = (x, s)"
    using usageLoop_pure by metis
  then show ?thesis using assms Cons
    by (simp add: usage_def exec_simps del: usageLoop.simps split: sum.split)
qed

text \<open>
  Only USDC counts towards the caps: recording a spend in any other currency goes to a
  row that usage never reads and leaves what usage reports for an agent unchanged, so the daily
  and lifetime caps never accumulate for it.
\<close>

theorem other_currency_uncounted:
  assumes "walletKey d (currency m) \<noteq> walletKey d ''USDC''"
    and "\<forall>k r. mapGet (spends st) k = Some r \<longrightarrow> walletKey (s_did r) (s_currency r) = k"
  shows "fst (usage E now d (snd (recordSpend E t d m st))) = fst (usage E now d st)"
proof (rule usage_reads_row)
  show "allSpendRows d (snd (recordSpend E t d m st)) = allSpendRows d st"
    using assms
    by (auto simp: allSpendRows_def recordSpend_def spendGetOrCreate_def assertPositive_def exec_simps
        plusE_def bigE_def Let_def split: option.splits)
qed

lemma other_currency_uncounted_witness:
  "fst (usage demo 2 ''a'' (snd (recordSpend demo 2 ''a'' \<lparr>amount = ''9'', currency = ''EUR''\<rparr> emptyWallet)))
     = fst (usage demo 2 ''a'' emptyWallet)"
  by (rule other_currency_uncounted) (simp_all add: walletKey_def emptyWallet_def)

section \<open>Interleaved resolutions\<close>

text \<open>
  \<open>release\<close>, \<open>capture\<close> and \<open>forfeit\<close> read the hold and test its state before they wait for the
  lock of its account, and do not test it again inside. Two captures of one hold may therefore
  both pass the test; the second one to enter the critical section then runs with the hold the
  first one has resolved.
\<close>

definition racingCaptures :: "ext \<Rightarrow> string \<Rightarrow> string \<Rightarrow> (wallet_st, unit) exec" where
  "racingCaptures E i dest =
     bindE (activeHold i) (\<lambda>h1.
     bindE (activeHold i) (\<lambda>h2.
     bindE (captureLocked E h1 dest) (\<lambda>_.
     captureLocked E (h2\<lparr>h_state := Captured\<rparr>) dest)))"

text \<open>
  The state test outside the lock is not enough: whenever an active hold is captured by
  two calls that both pass the test before either enters the critical section, both succeed, the
  recipient is paid twice the held amount, and the held funds of the holder's account end lower
  than the sum of its remaining active holds by one amount (the invariant is lost).
\<close>

theorem racing_captures_pay_twice:
  assumes "wallet_ok E st" "mapGet (holds st) i = Some h" "h_state h = Active"
    and "bigVal E (h_amount h) = Some v"
  shows "\<exists>st'. racingCaptures E i dest st = (Inr (), st') \<and>
    availAt E (rows st') (walletKey dest (h_currency h)) =
      availAt E (rows st) (walletKey dest (h_currency h)) + 2 * v \<and>
    heldAt E (rows st') (holdKey h) = activeSum E (holds st') (holdKey h) - v \<and>
    \<not> wallet_ok E st'"
proof -
  note E = wallet_okD(1) [OF assms(1)]
  have v: "0 < v" and i: "holdId h = i"
    using wallet_okD(6) [OF assms(1,2)] assms(4) by (auto simp: holdOk_def)
  obtain rs1 where r1: "captureLocked E h dest st =
       (Inr (), st\<lparr>rows := rs1, holds := mapSet i (h\<lparr>h_state := Captured\<rparr>) (holds st)\<rparr>)"
    and m1: "moves E (rows st) rs1 (bump (walletKey dest (h_currency h)) v) (bump (holdKey h) (- v))"
    using captureLocked_effect [OF wallet_okD(4) [OF assms(1)] E assms(4) v, of dest] i by metis
  let ?s1 = "st\<lparr>rows := rs1, holds := mapSet i (h\<lparr>h_state := Captured\<rparr>) (holds st)\<rparr>"
  let ?h2 = "h\<lparr>h_state := Captured\<rparr>"
  have "rowsOk E (rows ?s1)" "bigVal E (h_amount ?h2) = Some v"
    using movesD(1) [OF m1] assms(4) by simp_all
  from captureLocked_effect [OF this(1) E this(2) v, of dest]
  obtain rs2 where r2: "captureLocked E ?h2 dest ?s1 =
       (Inr (), ?s1\<lparr>rows := rs2, holds := mapSet i ?h2 (holds ?s1)\<rparr>)"
    and m2: "moves E rs1 rs2 (bump (walletKey dest (h_currency h)) v) (bump (holdKey h) (- v))"
    using i by auto
  let ?s2 = "?s1\<lparr>rows := rs2, holds := mapSet i ?h2 (holds ?s1)\<rparr>"
  have run: "racingCaptures E i dest st = (Inr (), ?s2)"
    using assms(2,3) r1 r2 by (simp add: racingCaptures_def activeHold_def exec_simps)
  have held: "heldAt E rs2 (holdKey h) = heldAt E (rows st) (holdKey h) - 2 * v"
    using movesD(3) [OF m1, of "holdKey h"] movesD(3) [OF m2, of "holdKey h"] by simp
  have sum: "activeSum E (mapSet i ?h2 (mapSet i ?h2 (holds st))) (holdKey h)
      = activeSum E (holds st) (holdKey h) - v"
    using wallet_okD(5) [OF assms(1)] assms(2-4) by (simp add: activeSum_mapSet)
  have gap: "heldAt E (rows ?s2) (holdKey h) = activeSum E (holds ?s2) (holdKey h) - v"
    using held sum wallet_okD(8) [OF assms(1), of "holdKey h"] by simp
  then have "\<not> wallet_ok E ?s2" using v wallet_okD(8) [of E ?s2 "holdKey h"] by auto
  moreover have "availAt E (rows ?s2) (walletKey dest (h_currency h)) =
      availAt E (rows st) (walletKey dest (h_currency h)) + 2 * v"
    using movesD(2) [OF m1, of "walletKey dest (h_currency h)"]
      movesD(2) [OF m2, of "walletKey dest (h_currency h)"] by simp
  ultimately show ?thesis using run gap by blast
qed

lemma racing_captures_pay_twice_witness:
  "\<exists>st st'. racingCaptures demo ''hold_1'' ''d'' st = (Inr (), st') \<and> \<not> wallet_ok demo st'"
proof -
  obtain st1 where h: "hold demo 5 ''b'' (usdc ''1'') ''r'' sampleWallet = (Inr ''hold_1'', st1)"
    using sampleHold by blast
  have ok1: "wallet_ok demo st1" using keepsD_pair [OF keeps_hold sampleWallet_ok h] .
  have one: "readRat ''1'' = Some 1" by code_simp
  show ?thesis
  proof (cases rule: hold_out [OF sampleWallet_ok, of 5 "''b''" "usdc ''1''" "''r''"])
    case (1 e s)
    then show ?thesis using h by simp
  next
    case (2 v i hr s)
    then have "mapGet (holds st1) ''hold_1'' = Some hr" "h_state hr = Active"
        "bigVal demo (h_amount hr) = Some 1"
      using h one by (auto simp: usdc_def)
    then show ?thesis using racing_captures_pay_twice [OF ok1] by metis
  qed
qed

end
