(* ===== verification/Ledger.thy ===== *)
theory Ledger
  imports Merkle Ports
begin

text \<open>
  The transparency log, \<open>src/core/ledger\<close>: an append-only list of entries, each carrying its
  position, the hash of its predecessor and the hash of its own content. The log is an instance
  of \<open>hash_log\<close> (interpretation \<open>led\<close>), from which tamper evidence follows; \<open>chainOk\<close> is what
  \<open>verifyChain\<close> checks and every \<open>append\<close> keeps.
\<close>

section \<open>State and operations\<close>

record entry =
  seq :: nat
  prevHash :: string
  entryHash :: string
  ts :: string
  kind :: string
  subj :: "string option"
  payload :: json

type_synonym ledger_st = "entry list"

definition GENESIS_PREV_HASH :: string where
  "GENESIS_PREV_HASH = replicate 64 (CHR ''0'')"

text \<open>An absent subject is an absent key of the canonical form.\<close>

definition hashedContent :: "nat \<Rightarrow> string \<Rightarrow> string \<Rightarrow> string option \<Rightarrow> json \<Rightarrow> json" where
  "hashedContent sq t k sb p =
     JObj ([(''seq'', JNum (of_nat sq)), (''ts'', JStr t), (''kind'', JStr k)]
           @ optField ''subject'' sb @ [(''payload'', p)])"

abbreviation contentOf :: "entry \<Rightarrow> json" where
  "contentOf e \<equiv> hashedContent (seq e) (ts e) (kind e) (subj e) (payload e)"

definition lastEntry :: "ledger_st \<Rightarrow> entry option" where
  "lastEntry es = (if es = [] then None else Some (last es))"

definition append_entry :: "ext \<Rightarrow> int \<Rightarrow> string \<Rightarrow> string option \<Rightarrow> json \<Rightarrow> (ledger_st, entry) exec" where
  "append_entry E now k sb p =
     bindE (gets lastEntry) (\<lambda>prev.
     let sq = (case prev of None \<Rightarrow> 1 | Some e \<Rightarrow> seq e + 1);
         ph = (case prev of None \<Rightarrow> GENESIS_PREV_HASH | Some e \<Rightarrow> entryHash e);
         t = isoOf E now;
         e = \<lparr>seq = sq, prevHash = ph, entryHash = hashChain E ph (hashedContent sq t k sb p),
              ts = t, kind = k, subj = sb, payload = p\<rparr>
     in
     bindE (gets lastEntry) (\<lambda>headNow.
     bindE (throwIf ((case headNow of None \<Rightarrow> 0 | Some e \<Rightarrow> seq e) \<noteq>
                     (case prev of None \<Rightarrow> 0 | Some e \<Rightarrow> seq e)) ConflictError) (\<lambda>_.
     bindE (modify (\<lambda>es. es @ [e])) (\<lambda>_. ret e))))"

record list_filter =
  f_kind :: "string option"
  f_subject :: "string option"
  f_since :: "int option"
  f_until :: "string option"
  f_from :: "string option"

text \<open>\<open>payload[key] === from\<close>: the last member of that name counts.\<close>

definition memberIs :: "(string \<times> json) list \<Rightarrow> string \<Rightarrow> string \<Rightarrow> bool" where
  "memberIs ms k v = (case mapGet (rev ms) k of Some (JStr s) \<Rightarrow> s = v | _ \<Rightarrow> False)"

definition matchesFrom :: "json \<Rightarrow> string \<Rightarrow> bool" where
  "matchesFrom p who =
     (case p of JObj ms \<Rightarrow> memberIs ms ''payer'' who \<or> memberIs ms ''from'' who | _ \<Rightarrow> False)"

text \<open>Comparing with an unparseable date is false, so such an entry or bound excludes nothing.\<close>

definition afterUntil :: "ext \<Rightarrow> string \<Rightarrow> string \<Rightarrow> bool" where
  "afterUntil E t u = (case dateMs E t of None \<Rightarrow> False
     | Some x \<Rightarrow> (case dateMs E u of None \<Rightarrow> False | Some y \<Rightarrow> x > y))"

definition filterKeeps :: "ext \<Rightarrow> list_filter \<Rightarrow> entry \<Rightarrow> bool" where
  "filterKeeps E f e =
     (if (case f_kind f of None \<Rightarrow> False | Some k \<Rightarrow> kind e \<noteq> k) then False
      else if (case f_subject f of None \<Rightarrow> False | Some s \<Rightarrow> subj e \<noteq> Some s) then False
      else if (case f_since f of None \<Rightarrow> False | Some n \<Rightarrow> int (seq e) < n) then False
      else if (case f_until f of None \<Rightarrow> False | Some u \<Rightarrow> afterUntil E (ts e) u) then False
      else if (case f_from f of None \<Rightarrow> False | Some w \<Rightarrow> \<not> matchesFrom (payload e) w) then False
      else True)"

definition list_entries :: "ext \<Rightarrow> list_filter \<Rightarrow> ledger_st \<Rightarrow> entry list" where
  "list_entries E f es = filter (filterKeeps E f) es"

definition ledgerRoot :: "ext \<Rightarrow> ledger_st \<Rightarrow> string" where
  "ledgerRoot E es = merkleRoot E (map entryHash es)"

fun verifyFrom :: "ext \<Rightarrow> string \<Rightarrow> nat \<Rightarrow> entry list \<Rightarrow> bool" where
  "verifyFrom E ph ps [] = True"
| "verifyFrom E ph ps (e # es) =
     (if seq e \<noteq> ps + 1 then False
      else if prevHash e \<noteq> ph then False
      else if entryHash e \<noteq> hashChain E ph (contentOf e) then False
      else verifyFrom E (entryHash e) (seq e) es)"

definition verifyChain :: "ext \<Rightarrow> ledger_st \<Rightarrow> bool" where
  "verifyChain E es = verifyFrom E GENESIS_PREV_HASH 0 es"

section \<open>The log as a hash-linked log\<close>

interpretation led: hash_log prevHash entryHash "\<lambda>e. hashChain E (prevHash e) (contentOf e)"
    GENESIS_PREV_HASH for E .

lemma verifyFrom_iff:
  "verifyFrom E ph ps es \<longleftrightarrow>
     led.linkedFrom E ph es \<and> (\<forall>i < length es. seq (es ! i) = ps + 1 + i)"
proof (induction E ph ps es rule: verifyFrom.induct)
  case (1 E ph ps)
  then show ?case by simp
next
  case (2 E ph ps e es)
  then show ?case by (auto simp: All_less_Suc2)
qed

lemma verifyChain_iff:
  "verifyChain E es \<longleftrightarrow>
     led.linkedFrom E GENESIS_PREV_HASH es \<and> (\<forall>i < length es. seq (es ! i) = 1 + i)"
  by (simp add: verifyChain_def verifyFrom_iff)

lemma verifyChain_last_seq: "verifyChain E es \<Longrightarrow> es \<noteq> [] \<Longrightarrow> seq (last es) = length es"
  by (simp add: verifyChain_iff last_conv_nth)

lemma append_entry_out:
  obtains e where "append_entry E now k sb p es = (Inr e, es @ [e])" "ts e = isoOf E now" "kind e = k"
    "subj e = sb" "payload e = p" "seq e = (case lastEntry es of None \<Rightarrow> 1 | Some x \<Rightarrow> seq x + 1)"
    "prevHash e = led.tip GENESIS_PREV_HASH es"
    "entryHash e = hashChain E (prevHash e) (contentOf e)"
  by (rule that)
    (auto simp: append_entry_def exec_simps Let_def lastEntry_def led.tip_def split: option.splits)

lemma append_entry_chain:
  assumes "verifyChain E es" "append_entry E now k sb p es = (r, es')"
  shows "verifyChain E es'"
proof (cases rule: append_entry_out [of E now k sb p es])
  case (1 e)
  have "seq e = length es + 1"
    using 1(6) verifyChain_last_seq [OF assms(1)] by (cases "es = []") (simp_all add: lastEntry_def)
  then show ?thesis using assms 1(1,7,8)
    by (auto simp: verifyChain_iff led.linkedFrom_snoc nth_append less_Suc_eq)
qed

lemma hashedContent_inj:
  "hashedContent a b c d x = hashedContent a' b' c' d' x' \<longleftrightarrow>
   a = a' \<and> b = b' \<and> c = c' \<and> d = d' \<and> x = x'"
  by (auto simp: hashedContent_def optField_def split: option.splits)

text \<open>Two entries whose different links have the same hash.\<close>

definition linkCollision :: "ext \<Rightarrow> entry \<Rightarrow> entry \<Rightarrow> bool" where
  "linkCollision E e f \<longleftrightarrow>
     (prevHash e, contentOf e) \<noteq> (prevHash f, contentOf f) \<and>
     hashChain E (prevHash e) (contentOf e) = hashChain E (prevHash f) (contentOf f)"

lemma verifyChain_own: "verifyChain E es \<Longrightarrow> es \<noteq> [] \<Longrightarrow>
   entryHash (last es) = hashChain E (prevHash (last es)) (contentOf (last es))"
  by (cases es rule: rev_cases) (auto simp: verifyChain_iff led.linkedFrom_snoc)

lemma linked_own:
  "led.linkedFrom E p es \<Longrightarrow> e \<in> set es \<Longrightarrow> entryHash e = hashChain E (prevHash e) (contentOf e)"
  by (induction es arbitrary: p) (auto)

lemma entry_eqI:
  "prevHash e = prevHash f \<Longrightarrow> contentOf e = contentOf f \<Longrightarrow>
   entryHash e = hashChain E (prevHash e) (contentOf e) \<Longrightarrow>
   entryHash f = hashChain E (prevHash f) (contentOf f) \<Longrightarrow> e = f"
  by (cases e; cases f) (simp add: hashedContent_inj)

section \<open>Properties\<close>

text \<open>
  Appending never fails, only adds: it returns an entry that carries the given record at
  the next position, the earlier entries stay as they were, and a log that verifies still verifies.
\<close>

theorem ledger_append_verifies:
  assumes "verifyChain E es" "append_entry E now k sb p es = (r, es')"
  shows "\<exists>e. r = Inr e \<and> es' = es @ [e] \<and> verifyChain E es' \<and> seq e = length es' \<and>
    kind e = k \<and> subj e = sb \<and> payload e = p \<and> ts e = isoOf E now"
proof (cases rule: append_entry_out [of E now k sb p es])
  case (1 e)
  have "verifyChain E es'" using append_entry_chain [OF assms] .
  then show ?thesis using 1(1-5) assms(2) verifyChain_last_seq [of E es'] by auto
qed

definition sampleLog :: ledger_st where
  "sampleLog = snd (append_entry demo 1 ''receipt'' (Some ''did:a'') (JStr ''x'') [])"

lemma ledger_append_verifies_witness:
  "verifyChain demo [] \<and>
   (\<exists>e. append_entry demo 1 ''receipt'' (Some ''did:a'') (JStr ''x'') [] = (Inr e, [e]) \<and>
      verifyChain demo [e])"
proof -
  have v: "verifyChain demo []" by (simp add: verifyChain_def)
  obtain r es' where a: "append_entry demo 1 ''receipt'' (Some ''did:a'') (JStr ''x'') [] = (r, es')"
    by (metis prod.collapse)
  from ledger_append_verifies [OF v a] v a show ?thesis by auto
qed

text \<open>
  Claim C31. The log is tamper evident: two non-empty logs that both verify and have the same head
  hash are the same log, entry by entry and of the same length, unless two of their entries have
  different links (predecessor hash and content) with the same hash.
\<close>

theorem ledger_tamper_evident:
  assumes "verifyChain E es" "verifyChain E fs" "es \<noteq> []" "fs \<noteq> []"
    and "entryHash (last es) = entryHash (last fs)"
  shows "es = fs \<or> (\<exists>e f. List.member es e \<and> List.member fs f \<and> linkCollision E e f)"
proof (cases "\<exists>e \<in> set es. \<exists>f \<in> set fs. linkCollision E e f")
  case True
  then show ?thesis by auto
next
  case False
  let ?same = "\<lambda>e f. prevHash e = prevHash f \<and> contentOf e = contentOf f"
  have cr: "?same e f" if "e \<in> set es" "f \<in> set fs"
      "hashChain E (prevHash e) (contentOf e) = hashChain E (prevHash f) (contentOf f)" for e f
    using False that by (auto simp: linkCollision_def)
  have "?same (last es) (last fs)"
    using cr [of "last es" "last fs"] verifyChain_own [OF assms(1,3)] verifyChain_own [OF assms(2,4)] assms(3-5)
    by simp
  then have len: "length es = length fs"
    using verifyChain_last_seq [OF assms(1,3)] verifyChain_last_seq [OF assms(2,4)]
    by (simp add: hashedContent_inj)
  have l: "led.linkedFrom E GENESIS_PREV_HASH es" "led.linkedFrom E GENESIS_PREV_HASH fs"
    using assms(1,2) by (simp_all add: verifyChain_iff)
  have pw: "list_all2 ?same es fs"
    by (rule led.linked_agree [OF l len assms(3,5) cr]) auto
  have "list_all2 (=) es fs"
  proof (rule list.rel_mono_strong [OF pw])
    fix e f
    assume "e \<in> set es" "f \<in> set fs" "?same e f"
    then show "e = f" using linked_own [OF l(1)] linked_own [OF l(2)] by (intro entry_eqI) auto
  qed
  then show ?thesis by (simp add: list.rel_eq)
qed

text \<open>
  A log of two entries that the service writes, the same log put together by hand, as an auditor
  would receive it, and a forgery: the payload of the first entry is changed, the hashes are kept.
\<close>

definition auditedLog :: ledger_st where
  "auditedLog = snd (append_entry demo 2 ''receipt'' None (JStr ''y'') sampleLog)"

definition importedLog :: ledger_st where
  "importedLog =
     (let h1 = hashChain demo GENESIS_PREV_HASH (hashedContent 1 ''1'' ''receipt'' (Some ''did:a'') (JStr ''x''));
          h2 = hashChain demo h1 (hashedContent 2 ''2'' ''receipt'' None (JStr ''y''))
      in [\<lparr>seq = 1, prevHash = GENESIS_PREV_HASH, entryHash = h1, ts = ''1'', kind = ''receipt'', subj = Some ''did:a'',
            payload = JStr ''x''\<rparr>,
          \<lparr>seq = 2, prevHash = h1, entryHash = h2, ts = ''2'', kind = ''receipt'', subj = None, payload = JStr ''y''\<rparr>])"

definition forgedLog :: ledger_st where
  "forgedLog = (case importedLog of [] \<Rightarrow> [] | e # es \<Rightarrow> e\<lparr>payload := JStr ''z''\<rparr> # es)"

lemma ledger_tamper_evident_witness:
  "verifyChain demo auditedLog \<and> verifyChain demo importedLog \<and> length auditedLog = 2 \<and>
   entryHash (last auditedLog) = entryHash (last importedLog) \<and> auditedLog = importedLog \<and>
   entryHash (last forgedLog) = entryHash (last auditedLog) \<and> auditedLog \<noteq> forgedLog \<and> \<not> verifyChain demo forgedLog"
proof -
  have v: "verifyChain demo auditedLog" "verifyChain demo importedLog" by code_simp+
  have ne: "auditedLog \<noteq> []" "importedLog \<noteq> []" "forgedLog \<noteq> []" "length auditedLog = 2" by code_simp+
  have h: "entryHash (last auditedLog) = entryHash (last importedLog)"
    "entryHash (last forgedLog) = entryHash (last auditedLog)" "auditedLog \<noteq> forgedLog" by code_simp+
  have "list_all (\<lambda>e. list_all (\<lambda>f. \<not> linkCollision demo e f) (importedLog @ forgedLog)) auditedLog" by code_simp
  then have free: "\<not> linkCollision demo e f" if "List.member auditedLog e" "List.member (importedLog @ forgedLog) f" for e f
    using that by (auto simp: list_all_iff)
  have same: "auditedLog = importedLog"
    using ledger_tamper_evident [OF v ne(1,2) h(1)] free by auto
  have "\<not> verifyChain demo forgedLog"
    using ledger_tamper_evident [OF v(1) _ ne(1,3) h(2) [symmetric]] h(3) free by auto
  then show ?thesis using v ne h same by simp
qed

end
