(* ===== verification/Policy.thy ===== *)
theory Policy
  imports Domain Samples
begin

text \<open>
  The policy evaluator, \<open>src/core/policy/evaluator.ts\<close>: a pure function from a delegation, an
  action and the spend usage to a decision. \<open>mGt\<close> and \<open>mAdd\<close> throw on a currency mismatch or a
  malformed amount, so the decision is the outcome of a computation. \<open>verdict\<close> is the abstract
  rule for spends, over numbers.
\<close>

section \<open>Actions and decisions\<close>

datatype action_kind =
    KSpend | KMessage | KPost | KEscrow | KStake | KTip | KOther string

record policy_action =
  a_kind :: action_kind
  a_agent :: string
  a_amount :: "money option"
  a_category :: "string option"
  a_counterparty :: "string option"
  a_subKind :: "string option"

datatype policy_decision =
    Allow
  | Deny "string list"
  | NeedsApproval money "string list"

record usage_totals =
  u_daily :: money
  u_total :: money

section \<open>The evaluator\<close>

definition counterpartyAllowed :: "string \<Rightarrow> string list \<Rightarrow> string list \<Rightarrow> bool" where
  "counterpartyAllowed cp allowList denyList =
     (if list_ex (\<lambda>p. matchTaxonomy p cp) denyList then False
      else list_ex (\<lambda>p. matchTaxonomy p cp) allowList)"

definition usageIn :: "money \<Rightarrow> string \<Rightarrow> money" where
  "usageIn m c = (if currency m = c then m else mZero c)"

definition approvalTail :: "ext \<Rightarrow> money \<Rightarrow> money \<Rightarrow> ('s, policy_decision) exec" where
  "approvalTail E a threshold =
     (if currency a = currency threshold then
        bindE (mGt E a threshold) (\<lambda>over.
        if over then ret (NeedsApproval threshold
          [''amount '' @ amount a @ '' exceeds approval threshold '' @ amount threshold])
        else ret Allow)
      else ret Allow)"

definition evaluateSpend ::
    "ext \<Rightarrow> delegation \<Rightarrow> policy_action \<Rightarrow> usage_totals \<Rightarrow> ('s, policy_decision) exec" where
  "evaluateSpend E dl act us =
     (let pol = policy dl; sp = spend pol in
      case a_category act of
        None \<Rightarrow> ret (Deny [''spend requires a category''])
      | Some cat \<Rightarrow>
      (case a_amount act of
        None \<Rightarrow> ret (Deny [''spend requires an amount''])
      | Some a \<Rightarrow>
        if \<not> taxonomyAllowed cat (categories_allow pol) (categories_deny pol)
        then ret (Deny [''category not allowed: '' @ cat])
        else if currency a \<noteq> currency (per_tx_max sp)
        then ret (Deny [''currency mismatch: '' @ currency a @ '' vs policy '' @ currency (per_tx_max sp)])
        else
          bindE (mGt E a (per_tx_max sp)) (\<lambda>overTx.
          if overTx
          then ret (Deny [''per_tx_max exceeded: '' @ amount a @ '' > '' @ amount (per_tx_max sp)])
          else
            bindE (mAdd E (usageIn (u_daily us) (currency a)) a) (\<lambda>dailyTotal.
            bindE (mGt E dailyTotal (daily_max sp)) (\<lambda>overDaily.
            if overDaily
            then ret (Deny [''daily_max exceeded: '' @ amount dailyTotal @ '' > '' @ amount (daily_max sp)])
            else
              bindE (mAdd E (usageIn (u_total us) (currency a)) a) (\<lambda>totalTotal.
              bindE (mGt E totalTotal (total_max sp)) (\<lambda>overTotal.
              if overTotal
              then ret (Deny [''total_max exceeded: '' @ amount totalTotal @ '' > '' @ amount (total_max sp)])
              else approvalTail E a (require_human_approval_over pol))))))))"

definition evaluateMessage :: "delegation \<Rightarrow> policy_decision" where
  "evaluateMessage dl =
     (if \<not> send_allowed (messaging (policy dl)) then Deny [''messaging.send is disabled''] else Allow)"

definition evaluatePost :: "delegation \<Rightarrow> policy_action \<Rightarrow> policy_decision" where
  "evaluatePost dl act =
     (let po = posting (policy dl) in
      if \<not> (offers po \<or> rfps po) then Deny [''posting is disabled'']
      else if a_subKind act = Some ''offer'' \<and> \<not> offers po then Deny [''posting.offers is disabled'']
      else if a_subKind act = Some ''rfp'' \<and> \<not> rfps po then Deny [''posting.rfps is disabled'']
      else Allow)"

definition evaluateEscrow ::
    "ext \<Rightarrow> delegation \<Rightarrow> policy_action \<Rightarrow> ('s, policy_decision) exec" where
  "evaluateEscrow E dl act =
     (let es = escrow_pol (policy dl) in
      if \<not> may_commit es then ret (Deny [''escrow.may_commit is disabled''])
      else
        (case a_amount act of
           None \<Rightarrow> ret (Deny [''escrow requires an amount''])
         | Some a \<Rightarrow>
             if currency a \<noteq> currency (max_escrow es)
             then ret (Deny [''currency mismatch: '' @ currency a @ '' vs escrow '' @ currency (max_escrow es)])
             else
               bindE (mGt E a (max_escrow es)) (\<lambda>over.
               if over
               then ret (Deny [''max_escrow exceeded: '' @ amount a @ '' > '' @ amount (max_escrow es)])
               else approvalTail E a (require_human_approval_over (policy dl)))))"

definition evaluateStake :: "delegation \<Rightarrow> policy_decision" where
  "evaluateStake dl = (if \<not> may_stake (policy dl) then Deny [''may_stake is disabled''] else Allow)"

definition evaluate ::
    "ext \<Rightarrow> delegation \<Rightarrow> policy_action \<Rightarrow> usage_totals \<Rightarrow> ('s, policy_decision) exec" where
  "evaluate E dl act us =
     (let pol = policy dl;
          dispatch =
            (case a_kind act of
               KSpend \<Rightarrow> evaluateSpend E dl act us
             | KTip \<Rightarrow> evaluateSpend E dl act us
             | KMessage \<Rightarrow> ret (evaluateMessage dl)
             | KPost \<Rightarrow> ret (evaluatePost dl act)
             | KEscrow \<Rightarrow> evaluateEscrow E dl act
             | KStake \<Rightarrow> ret (evaluateStake dl)
             | KOther k \<Rightarrow> ret (Deny [''unknown action kind: '' @ k]))
      in
      case a_counterparty act of
        None \<Rightarrow> dispatch
      | Some cp \<Rightarrow>
          if \<not> counterpartyAllowed cp (counterparties_allow pol) (counterparties_deny pol)
          then ret (Deny [if list_ex (\<lambda>p. matchTaxonomy p cp) (counterparties_deny pol)
                          then ''counterparty denied: '' @ cp else ''counterparty not allowed: '' @ cp])
          else dispatch)"

lemma keeps_approvalTail [keeps_rules]: "keeps P (approvalTail E a t)"
  unfolding approvalTail_def by (intro keeps_rules)

lemma keeps_evaluateSpend [keeps_rules]: "keeps P (evaluateSpend E dl act us)"
  unfolding evaluateSpend_def by (intro keeps_rules)

lemma keeps_evaluateEscrow [keeps_rules]: "keeps P (evaluateEscrow E dl act)"
  unfolding evaluateEscrow_def by (intro keeps_rules)

lemma keeps_evaluate [keeps_rules]: "keeps P (evaluate E dl act us)"
  unfolding evaluate_def Let_def
  by (cases "a_kind act") (auto intro!: keeps_rules)

lemma evaluate_state: "evaluate E dl act us s = (r, s') \<Longrightarrow> s' = s"
  using keepsD [OF keeps_evaluate [of "\<lambda>x. x = s" E dl act us], of s] by simp

section \<open>The abstract rule\<close>

text \<open>A policy whose amounts are numbers, with one currency for the three spending caps.\<close>

definition policyNumbers :: "ext \<Rightarrow> delegation_policy \<Rightarrow> bool" where
  "policyNumbers E pol \<longleftrightarrow>
     bigVal E (amount (per_tx_max (spend pol))) \<noteq> None \<and>
     bigVal E (amount (daily_max (spend pol))) \<noteq> None \<and>
     bigVal E (amount (total_max (spend pol))) \<noteq> None \<and>
     bigVal E (amount (require_human_approval_over pol)) \<noteq> None \<and>
     bigVal E (amount (max_escrow (escrow_pol pol))) \<noteq> None \<and>
     currency (daily_max (spend pol)) = currency (per_tx_max (spend pol)) \<and>
     currency (total_max (spend pol)) = currency (per_tx_max (spend pol))"

definition usageNumbers :: "ext \<Rightarrow> usage_totals \<Rightarrow> bool" where
  "usageNumbers E us \<longleftrightarrow> bigVal E (amount (u_daily us)) \<noteq> None \<and> bigVal E (amount (u_total us)) \<noteq> None"

definition spentIn :: "ext \<Rightarrow> string \<Rightarrow> money \<Rightarrow> rat" where
  "spentIn E c m = (if currency m = c then bv E (amount m) else 0)"

definition gateOpen :: "delegation_policy \<Rightarrow> policy_action \<Rightarrow> bool" where
  "gateOpen pol act \<longleftrightarrow>
     (case a_counterparty act of None \<Rightarrow> True
      | Some cp \<Rightarrow> counterpartyAllowed cp (counterparties_allow pol) (counterparties_deny pol))"

definition categoryOpen :: "delegation_policy \<Rightarrow> policy_action \<Rightarrow> bool" where
  "categoryOpen pol act \<longleftrightarrow>
     (case a_category act of None \<Rightarrow> False
      | Some c \<Rightarrow> taxonomyAllowed c (categories_allow pol) (categories_deny pol))"

definition withinCaps :: "ext \<Rightarrow> delegation_policy \<Rightarrow> usage_totals \<Rightarrow> money \<Rightarrow> bool" where
  "withinCaps E pol us a \<longleftrightarrow>
     (let v = bv E (amount a); c = currency a; sp = spend pol in
      c = currency (per_tx_max sp) \<and> v \<le> bv E (amount (per_tx_max sp)) \<and>
      spentIn E c (u_daily us) + v \<le> bv E (amount (daily_max sp)) \<and>
      spentIn E c (u_total us) + v \<le> bv E (amount (total_max sp)))"

definition overThreshold :: "ext \<Rightarrow> delegation_policy \<Rightarrow> money \<Rightarrow> bool" where
  "overThreshold E pol a \<longleftrightarrow>
     currency a = currency (require_human_approval_over pol) \<and>
     bv E (amount (require_human_approval_over pol)) < bv E (amount a)"

datatype verdict = VAllow | VDeny | VApproval

fun verdictOf :: "policy_decision \<Rightarrow> verdict" where
  "verdictOf Allow = VAllow"
| "verdictOf (Deny rs) = VDeny"
| "verdictOf (NeedsApproval t rs) = VApproval"

text \<open>What the policy says of a spend or a tip of amount \<open>a\<close>.\<close>

definition spendVerdict :: "ext \<Rightarrow> delegation_policy \<Rightarrow> policy_action \<Rightarrow> usage_totals \<Rightarrow> money \<Rightarrow> verdict" where
  "spendVerdict E pol act us a =
     (if gateOpen pol act \<and> categoryOpen pol act \<and> withinCaps E pol us a
      then (if overThreshold E pol a then VApproval else VAllow) else VDeny)"

definition escrowVerdict :: "ext \<Rightarrow> delegation_policy \<Rightarrow> policy_action \<Rightarrow> money \<Rightarrow> verdict" where
  "escrowVerdict E pol act a =
     (let es = escrow_pol pol in
      if gateOpen pol act \<and> may_commit es \<and> currency a = currency (max_escrow es) \<and>
         bv E (amount a) \<le> bv E (amount (max_escrow es))
      then (if overThreshold E pol a then VApproval else VAllow) else VDeny)"

lemma approvalTail_verdict:
  assumes "bigVal E (amount a) = Some v" "bigVal E (amount (require_human_approval_over pol)) \<noteq> None"
  shows "\<exists>d. approvalTail E a (require_human_approval_over pol) s = (Inr d, s) \<and>
    verdictOf d = (if overThreshold E pol a then VApproval else VAllow)"
  using assms by (auto simp: approvalTail_def overThreshold_def exec_simps mGt_ok)

lemma evaluateSpend_verdict:
  assumes E: "big_exact E" and pn: "policyNumbers E (policy dl)" and un: "usageNumbers E us"
    and a: "a_amount act = Some a" "bigVal E (amount a) = Some v"
  shows "\<exists>d. evaluateSpend E dl act us s = (Inr d, s) \<and>
    verdictOf d = (if categoryOpen (policy dl) act \<and> withinCaps E (policy dl) us a
      then (if overThreshold E (policy dl) a then VApproval else VAllow) else VDeny)"
proof -
  let ?pol = "policy dl"
  let ?sp = "spend ?pol"
  show ?thesis
  proof (cases "categoryOpen ?pol act \<and> currency a = currency (per_tx_max ?sp)")
    case False
    then show ?thesis using a
      by (auto simp: evaluateSpend_def Let_def categoryOpen_def withinCaps_def split: option.split)
  next
    case True
    then obtain cat where cat: "a_category act = Some cat"
        "taxonomyAllowed cat (categories_allow ?pol) (categories_deny ?pol)"
      by (auto simp: categoryOpen_def split: option.splits)
    obtain tx dm tm where caps: "bigVal E (amount (per_tx_max ?sp)) = Some tx"
        "bigVal E (amount (daily_max ?sp)) = Some dm" "bigVal E (amount (total_max ?sp)) = Some tm"
      using pn by (auto simp: policyNumbers_def)
    have cur: "currency (per_tx_max ?sp) = currency a" "currency (daily_max ?sp) = currency a"
        "currency (total_max ?sp) = currency a"
      using pn True by (simp_all add: policyNumbers_def)
    have th: "bigVal E (amount (require_human_approval_over ?pol)) \<noteq> None"
      using pn by (simp add: policyNumbers_def)
    have use: "bigVal E (amount (usageIn m (currency a))) = Some (spentIn E (currency a) m)"
      "currency (usageIn m (currency a)) = currency a"
      if "bigVal E (amount m) \<noteq> None" for m
      using that big_exact_zero [OF E] by (auto simp: usageIn_def spentIn_def mZero_def)
    have u: "bigVal E (amount (u_daily us)) \<noteq> None" "bigVal E (amount (u_total us)) \<noteq> None"
      using un by (simp_all add: usageNumbers_def)
    note daily = use [OF u(1)] and tot = use [OF u(2)]
    obtain d where d: "\<And>s :: 'a. approvalTail E a (require_human_approval_over ?pol) s = (Inr d, s)"
        "verdictOf d = (if overThreshold E ?pol a then VApproval else VAllow)"
    proof -
      have "\<exists>d. \<forall>s :: 'a. approvalTail E a (require_human_approval_over ?pol) s = (Inr d, s)"
        using a th by (auto simp: approvalTail_def exec_simps mGt_ok)
      then show ?thesis using that approvalTail_verdict [OF a(2) th] by (metis sum.inject(2) prod.inject)
    qed
    have wc: "withinCaps E ?pol us a \<longleftrightarrow> v \<le> tx \<and> spentIn E (currency a) (u_daily us) + v \<le> dm \<and>
        spentIn E (currency a) (u_total us) + v \<le> tm"
      using True caps a(2) by (simp add: withinCaps_def Let_def)
    let ?D = "\<lparr>amount = bigPlus E (amount (usageIn (u_daily us) (currency a))) (amount a), currency = currency a\<rparr>"
    let ?T = "\<lparr>amount = bigPlus E (amount (usageIn (u_total us) (currency a))) (amount a), currency = currency a\<rparr>"
    have add: "mAdd E (usageIn (u_daily us) (currency a)) a s = (Inr ?D, s)"
        "mAdd E (usageIn (u_total us) (currency a)) a s = (Inr ?T, s)"
      using mAdd_ok [OF daily(2) daily(1) a(2)] mAdd_ok [OF tot(2) tot(1) a(2)] daily(2) tot(2) by simp_all
    have gt: "mGt E a (per_tx_max ?sp) s = (Inr (tx < v), s)"
        "mGt E ?D (daily_max ?sp) s = (Inr (dm < spentIn E (currency a) (u_daily us) + v), s)"
        "mGt E ?T (total_max ?sp) s = (Inr (tm < spentIn E (currency a) (u_total us) + v), s)"
      using cur caps a(2) big_exact_plus [OF E daily(1) a(2)] big_exact_plus [OF E tot(1) a(2)]
      by (simp_all add: mGt_ok)
    have "evaluateSpend E dl act us s =
        (if tx < v \<or> dm < spentIn E (currency a) (u_daily us) + v \<or> tm < spentIn E (currency a) (u_total us) + v
         then (Inr (Deny [if tx < v then ''per_tx_max exceeded: '' @ amount a @ '' > '' @ amount (per_tx_max ?sp)
             else if dm < spentIn E (currency a) (u_daily us) + v
             then ''daily_max exceeded: '' @ amount ?D @ '' > '' @ amount (daily_max ?sp)
             else ''total_max exceeded: '' @ amount ?T @ '' > '' @ amount (total_max ?sp)]), s)
         else (Inr d, s))"
      using cat a cur(1) d(1) by (simp add: evaluateSpend_def Let_def exec_simps add gt)
    moreover have "categoryOpen ?pol act" using cat by (simp add: categoryOpen_def)
    ultimately show ?thesis using wc d(2) by (auto simp: not_less)
  qed
qed

lemma evaluate_gate:
  "\<not> gateOpen (policy dl) act \<Longrightarrow> \<exists>rs. evaluate E dl act us s = (Inr (Deny rs), s)"
  by (auto simp: gateOpen_def evaluate_def Let_def split: option.splits)

lemma evaluate_open:
  "gateOpen (policy dl) act \<Longrightarrow> a_kind act = KSpend \<or> a_kind act = KTip \<Longrightarrow>
     evaluate E dl act us = evaluateSpend E dl act us"
  "gateOpen (policy dl) act \<Longrightarrow> a_kind act = KEscrow \<Longrightarrow> evaluate E dl act us = evaluateEscrow E dl act"
  by (auto simp: gateOpen_def evaluate_def Let_def split: option.splits)

lemma evaluateEscrow_verdict:
  assumes pn: "policyNumbers E (policy dl)" and a: "a_amount act = Some a" "bigVal E (amount a) = Some v"
  shows "\<exists>d. evaluateEscrow E dl act s = (Inr d, s) \<and>
    verdictOf d = (if may_commit (escrow_pol (policy dl)) \<and>
        currency a = currency (max_escrow (escrow_pol (policy dl))) \<and>
        bv E (amount a) \<le> bv E (amount (max_escrow (escrow_pol (policy dl))))
      then (if overThreshold E (policy dl) a then VApproval else VAllow) else VDeny)"
proof -
  let ?es = "escrow_pol (policy dl)"
  obtain mx where mx: "bigVal E (amount (max_escrow ?es)) = Some mx"
    using pn by (auto simp: policyNumbers_def)
  have th: "bigVal E (amount (require_human_approval_over (policy dl))) \<noteq> None"
    using pn by (simp add: policyNumbers_def)
  obtain d where d: "approvalTail E a (require_human_approval_over (policy dl)) s = (Inr d, s)"
      "verdictOf d = (if overThreshold E (policy dl) a then VApproval else VAllow)"
    using approvalTail_verdict [OF a(2) th, of s] that by (elim exE conjE) presburger
  show ?thesis
  proof (cases "may_commit ?es \<and> currency a = currency (max_escrow ?es)")
    case False
    then show ?thesis using a by (auto simp: evaluateEscrow_def Let_def)
  next
    case True
    have gt: "mGt E a (max_escrow ?es) s = (Inr (mx < v), s)" using True a mx by (simp add: mGt_ok)
    show ?thesis using True a mx d
      by (cases "mx < v") (auto simp: evaluateEscrow_def Let_def exec_simps gt)
  qed
qed

section \<open>Properties\<close>

definition sampleDelegation :: delegation where
  "sampleDelegation = (let m = (\<lambda>a. \<lparr>amount = a, currency = ''USDC''\<rparr>) in
     \<lparr>issuer = ''did:p'', subject = ''did:a'',
      policy = \<lparr>spend = \<lparr>per_tx_max = m ''100'', daily_max = m ''500'', total_max = m ''1000''\<rparr>,
        categories_allow = [''doc.*''], categories_deny = [''doc.secret''],
        counterparties_allow = [''*''], counterparties_deny = [''did:evil''],
        require_human_approval_over = m ''50'',
        messaging = \<lparr>send_allowed = True, max_postage_per_day = ''10''\<rparr>,
        posting = \<lparr>offers = True, rfps = False, max_post_spend_per_day = ''10''\<rparr>,
        escrow_pol = \<lparr>may_commit = True, max_escrow = m ''200''\<rparr>, may_stake = True\<rparr>,
      issued = ''0'', expires = ''1000'', revocation = ''r'', del_sig = ''s''\<rparr>)"

definition sampleUsage :: usage_totals where
  "sampleUsage = \<lparr>u_daily = \<lparr>amount = ''30'', currency = ''USDC''\<rparr>, u_total = \<lparr>amount = ''90'', currency = ''USDC''\<rparr>\<rparr>"

definition sampleSpend :: "string \<Rightarrow> policy_action" where
  "sampleSpend a = \<lparr>a_kind = KSpend, a_agent = ''did:a'', a_amount = Some \<lparr>amount = a, currency = ''USDC''\<rparr>,
     a_category = Some ''doc.extract'', a_counterparty = Some ''did:b'', a_subKind = None\<rparr>"

lemma sample_numbers:
  "readRat ''100'' = Some 100" "readRat ''500'' = Some 500" "readRat ''1000'' = Some 1000"
  "readRat ''50'' = Some 50" "readRat ''200'' = Some 200" "readRat ''30'' = Some 30"
  "readRat ''90'' = Some 90" "readRat ''60'' = Some 60"
  by code_simp+

lemma sample_policyNumbers: "policyNumbers demo (policy sampleDelegation)" "usageNumbers demo sampleUsage"
  by code_simp+

text \<open>
  The evaluator implements the spending rule: for every spend or tip with a well-formed
  amount it returns a decision, and it allows exactly when the counterparty and the category are
  allowed and not denied, the amount is in the policy's currency and within the per-transaction
  cap, and today's and lifetime's totals plus the amount are within the daily and total caps; it
  asks for approval exactly when all of this holds and the amount is over the human-approval
  threshold; and it denies in every other case.
\<close>

theorem evaluate_spend_refines:
  assumes "big_exact E" "policyNumbers E (policy dl)" "usageNumbers E us"
    and "a_kind act = KSpend \<or> a_kind act = KTip" "a_amount act = Some a" "bigVal E (amount a) = Some v"
  shows "\<exists>d. evaluate E dl act us s = (Inr d, s) \<and> verdictOf d = spendVerdict E (policy dl) act us a"
proof (cases "gateOpen (policy dl) act")
  case True
  then show ?thesis
    using evaluateSpend_verdict [OF assms(1-3,5,6), of s]
    by (simp add: spendVerdict_def evaluate_open(1) [OF True assms(4)])
next
  case False
  then show ?thesis using evaluate_gate [OF False] by (fastforce simp: spendVerdict_def)
qed

lemma evaluate_spend_refines_witness:
  "\<exists>d. evaluate demo sampleDelegation (sampleSpend ''60'') sampleUsage () = (Inr d, ()) \<and> verdictOf d = VApproval"
proof -
  have "spendVerdict demo (policy sampleDelegation) (sampleSpend ''60'') sampleUsage
      \<lparr>amount = ''60'', currency = ''USDC''\<rparr> = VApproval"
    by code_simp
  then show ?thesis
    using evaluate_spend_refines [OF demo_big_exact sample_policyNumbers, of "sampleSpend ''60''"]
    by (fastforce simp: sampleSpend_def sample_numbers)
qed

text \<open>
  Escrow commitments obey their own cap: the evaluator allows one exactly when the
  counterparty gate is open, escrow is enabled and the amount is in the cap's currency and within
  it, asks for approval when such an amount is over the human-approval threshold, and denies
  otherwise.
\<close>

theorem evaluate_escrow_refines:
  assumes "policyNumbers E (policy dl)" "a_kind act = KEscrow" "a_amount act = Some a"
    and "bigVal E (amount a) = Some v"
  shows "\<exists>d. evaluate E dl act us s = (Inr d, s) \<and> verdictOf d = escrowVerdict E (policy dl) act a"
proof (cases "gateOpen (policy dl) act")
  case True
  then show ?thesis
    using evaluateEscrow_verdict [OF assms(1,3,4), of s]
    by (simp add: escrowVerdict_def Let_def evaluate_open(2) [OF True assms(2)])
next
  case False
  then show ?thesis using evaluate_gate [OF False] by (fastforce simp: escrowVerdict_def Let_def)
qed

lemma evaluate_escrow_refines_witness:
  "\<exists>d. evaluate demo sampleDelegation ((sampleSpend ''30'')\<lparr>a_kind := KEscrow\<rparr>) sampleUsage () = (Inr d, ()) \<and>
     verdictOf d = VAllow"
proof -
  have "escrowVerdict demo (policy sampleDelegation) ((sampleSpend ''30'')\<lparr>a_kind := KEscrow\<rparr>)
      \<lparr>amount = ''30'', currency = ''USDC''\<rparr> = VAllow"
    by code_simp
  then show ?thesis
    using evaluate_escrow_refines [OF sample_policyNumbers(1), of "(sampleSpend ''30'')\<lparr>a_kind := KEscrow\<rparr>"]
    by (fastforce simp: sampleSpend_def sample_numbers)
qed

text \<open>
  Deny by default: an action that is not denied has a known kind, its counterparty (when
  it names one) matches the allow list and no pattern of the deny list, and the switch of its
  surface is on: a category that is allowed and an amount for spends and tips, sending for
  messages, offers or RFPs (and the one that is posted) for posts, committing for escrow, staking
  for stake.
\<close>

theorem evaluate_denies_by_default:
  assumes "evaluate E dl act us s = (Inr d, s')" "verdictOf d \<noteq> VDeny"
  shows "(\<forall>cp. a_counterparty act = Some cp \<longrightarrow>
      (\<exists>p \<in> set (counterparties_allow (policy dl)). matchTaxonomy p cp) \<and>
      (\<forall>p \<in> set (counterparties_deny (policy dl)). \<not> matchTaxonomy p cp)) \<and>
    (case a_kind act of
       KSpend \<Rightarrow> categoryOpen (policy dl) act \<and> a_amount act \<noteq> None
     | KTip \<Rightarrow> categoryOpen (policy dl) act \<and> a_amount act \<noteq> None
     | KMessage \<Rightarrow> send_allowed (messaging (policy dl))
     | KPost \<Rightarrow> (offers (posting (policy dl)) \<or> rfps (posting (policy dl))) \<and>
         (a_subKind act = Some ''offer'' \<longrightarrow> offers (posting (policy dl))) \<and>
         (a_subKind act = Some ''rfp'' \<longrightarrow> rfps (posting (policy dl)))
     | KEscrow \<Rightarrow> may_commit (escrow_pol (policy dl)) \<and> a_amount act \<noteq> None
     | KStake \<Rightarrow> may_stake (policy dl)
     | KOther k \<Rightarrow> False)"
proof -
  have gate: "gateOpen (policy dl) act"
    using evaluate_gate [of dl act E us s] assms by fastforce
  then have cp: "\<forall>cp. a_counterparty act = Some cp \<longrightarrow>
      (\<exists>p \<in> set (counterparties_allow (policy dl)). matchTaxonomy p cp) \<and>
      (\<forall>p \<in> set (counterparties_deny (policy dl)). \<not> matchTaxonomy p cp)"
    by (auto simp: gateOpen_def counterpartyAllowed_def list_ex_iff split: if_splits option.splits)
  have spend_cat: "categoryOpen (policy dl) act \<and> a_amount act \<noteq> None"
    if "evaluateSpend E dl act us s = (Inr d, s')"
    using that assms(2)
    by (auto simp: evaluateSpend_def Let_def categoryOpen_def split: option.splits if_splits)
  have esc: "may_commit (escrow_pol (policy dl)) \<and> a_amount act \<noteq> None"
    if "evaluateEscrow E dl act s = (Inr d, s')"
    using that assms(2) by (auto simp: evaluateEscrow_def Let_def split: option.splits if_splits)
  have kind: "(case a_kind act of
       KSpend \<Rightarrow> evaluateSpend E dl act us | KTip \<Rightarrow> evaluateSpend E dl act us
     | KMessage \<Rightarrow> ret (evaluateMessage dl) | KPost \<Rightarrow> ret (evaluatePost dl act)
     | KEscrow \<Rightarrow> evaluateEscrow E dl act | KStake \<Rightarrow> ret (evaluateStake dl)
     | KOther k \<Rightarrow> ret (Deny [''unknown action kind: '' @ k])) s = (Inr d, s')"
    using gate assms(1) by (auto simp: gateOpen_def evaluate_def Let_def split: option.splits)
  show ?thesis
  proof (intro conjI cp)
  qed (use kind spend_cat esc assms(2) in
    \<open>auto simp: evaluateMessage_def evaluatePost_def evaluateStake_def Let_def
       split: action_kind.splits if_splits\<close>)
qed

lemma evaluate_denies_by_default_witness:
  "categoryOpen (policy sampleDelegation) (sampleSpend ''60'')"
proof -
  obtain d where "evaluate demo sampleDelegation (sampleSpend ''60'') sampleUsage () = (Inr d, ())"
      "verdictOf d = VApproval"
    using evaluate_spend_refines_witness by blast
  then show ?thesis
    using evaluate_denies_by_default [of demo sampleDelegation "sampleSpend ''60''" sampleUsage "()" d]
    by (simp add: sampleSpend_def)
qed

end
