(* ===== verification/Approvals.thy ===== *)
theory Approvals
  imports Policy Ports
begin

text \<open>
  The human-approval queue, \<open>src/features/governance/approvals.ts\<close> and its in-memory
  repository: an approval is pending until a supervisor resolves it, and a resolved approval is
  redeemed at most once, for exactly the agent and action it was granted for. \<open>approval_step\<close> is
  the life cycle as a relation; redemption is an instance of \<open>single_use\<close>.
\<close>

section \<open>State and operations\<close>

datatype approval_status = Pending | Approved | Denied | Consumed

datatype ruling = RApproved | RDenied

record approval =
  approvalId :: string
  ap_agent :: string
  ap_action :: policy_action
  ap_payload :: json
  ap_createdAt :: string
  status :: approval_status
  ruled :: "ruling option"

record approvals_st =
  byId :: "(string, approval) jsmap"
  ap_drawn :: nat

definition emptyApprovals :: approvals_st where
  "emptyApprovals = \<lparr>byId = [], ap_drawn = 0\<rparr>"

text \<open>\<open>new Big(x).eq(y)\<close> throws on a malformed amount; it is reached only when both are present.\<close>

definition policyActionMatches :: "ext \<Rightarrow> policy_action \<Rightarrow> policy_action \<Rightarrow> ('s, bool) exec" where
  "policyActionMatches E a b =
     (if a_kind a \<noteq> a_kind b \<or> a_agent a \<noteq> a_agent b then ret False
      else if a_counterparty a \<noteq> a_counterparty b then ret False
      else if a_category a \<noteq> a_category b then ret False
      else if a_subKind a \<noteq> a_subKind b then ret False
      else
        (case (a_amount a, a_amount b) of
           (Some x, Some y) \<Rightarrow>
             if currency x \<noteq> currency y then ret False
             else bindE (bigE E (amount x)) (\<lambda>u. bindE (bigE E (amount y)) (\<lambda>v. ret (u = v)))
         | (None, None) \<Rightarrow> ret True
         | _ \<Rightarrow> ret False))"

definition putApproval :: "approval \<Rightarrow> (approvals_st, unit) exec" where
  "putApproval a = modify (\<lambda>st. st\<lparr>byId := mapSet (approvalId a) a (byId st)\<rparr>)"

definition getApproval :: "string \<Rightarrow> (approvals_st, approval) exec" where
  "getApproval i = bindE (gets (\<lambda>st. mapGet (byId st) i)) (\<lambda>x. orThrow x NotFoundError)"

definition enqueue ::
    "ext \<Rightarrow> int \<Rightarrow> string \<Rightarrow> policy_action \<Rightarrow> json \<Rightarrow> (approvals_st, approval) exec" where
  "enqueue E now agent act p =
     bindE (gets ap_drawn) (\<lambda>n.
     bindE (modify (\<lambda>st. st\<lparr>ap_drawn := Suc n\<rparr>)) (\<lambda>_.
     let a = \<lparr>approvalId = ''apr_'' @ ulid E n, ap_agent = agent, ap_action = act, ap_payload = p,
              ap_createdAt = isoOf E now, status = Pending, ruled = None\<rparr> in
     bindE (putApproval a) (\<lambda>_. ret a)))"

definition status_of :: "string \<Rightarrow> approvals_st \<Rightarrow> approval option" where
  "status_of i st = mapGet (byId st) i"

definition listPending :: "approvals_st \<Rightarrow> approval list" where
  "listPending st = filter (\<lambda>a. status a = Pending) (mapValues (byId st))"

definition resolve :: "string \<Rightarrow> bool \<Rightarrow> (approvals_st, approval) exec" where
  "resolve i approve =
     bindE (getApproval i) (\<lambda>existing.
     let target = (if approve then Approved else Denied) in
     if status existing \<noteq> Pending then
       (if status existing = target then ret existing else throw ConflictError)
     else
       (let resolved = existing\<lparr>status := target, ruled := Some (if approve then RApproved else RDenied)\<rparr>
        in bindE (putApproval resolved) (\<lambda>_. ret resolved)))"

definition consume :: "ext \<Rightarrow> string \<Rightarrow> string \<Rightarrow> policy_action \<Rightarrow> (approvals_st, approval) exec" where
  "consume E i agent act =
     bindE (getApproval i) (\<lambda>existing.
     bindE (throwIf (status existing = Consumed) ConflictError) (\<lambda>_.
     bindE (throwIf (status existing = Pending) ConflictError) (\<lambda>_.
     bindE (throwIf (ap_agent existing \<noteq> agent) ForbiddenError) (\<lambda>_.
     bindE (policyActionMatches E (ap_action existing) act) (\<lambda>same.
     bindE (throwIf (\<not> same) ForbiddenError) (\<lambda>_.
     let consumed = existing\<lparr>status := Consumed\<rparr> in
     bindE (putApproval consumed) (\<lambda>_. ret consumed)))))))"

section \<open>Invariant\<close>

text \<open>
  Every record is stored under its own id, the ruling is absent exactly while the approval is
  pending and agrees with the status while it is resolved, and the next ids are unused.
\<close>

definition rulingOk :: "approval \<Rightarrow> bool" where
  "rulingOk a \<longleftrightarrow>
     (case status a of
        Pending \<Rightarrow> ruled a = None
      | Approved \<Rightarrow> ruled a = Some RApproved
      | Denied \<Rightarrow> ruled a = Some RDenied
      | Consumed \<Rightarrow> ruled a \<noteq> None)"

definition approvals_ok :: "ext \<Rightarrow> approvals_st \<Rightarrow> bool" where
  "approvals_ok E st \<longleftrightarrow> ulid_fresh E \<and>
     (\<forall>i a. mapGet (byId st) i = Some a \<longrightarrow> approvalId a = i \<and> rulingOk a) \<and>
     (\<forall>n \<ge> ap_drawn st. mapGet (byId st) (''apr_'' @ ulid E n) = None)"

lemma policyActionMatches_pure:
  "policyActionMatches E a b s = (r, s') \<Longrightarrow> s' = s"
  by (auto simp: policyActionMatches_def bigE_def exec_simps split: if_splits option.splits)

lemma policyActionMatches_true:
  "policyActionMatches E a b s = (Inr True, s') \<Longrightarrow>
   a_kind a = a_kind b \<and> a_agent a = a_agent b \<and> a_counterparty a = a_counterparty b \<and>
   a_category a = a_category b \<and> a_subKind a = a_subKind b \<and>
   (case (a_amount a, a_amount b) of
      (None, None) \<Rightarrow> True
    | (Some x, Some y) \<Rightarrow> currency x = currency y \<and>
        (\<exists>v. bigVal E (amount x) = Some v \<and> bigVal E (amount y) = Some v)
    | _ \<Rightarrow> False)"
  by (auto simp: policyActionMatches_def bigE_def exec_simps split: if_splits option.splits)

lemma policyActionMatches_refl:
  "(\<And>m. a_amount a = Some m \<Longrightarrow> bigVal E (amount m) \<noteq> None) \<Longrightarrow> policyActionMatches E a a s = (Inr True, s)"
  by (auto simp: policyActionMatches_def exec_simps split: option.splits)

text \<open>The two outcomes of a redemption.\<close>

lemma consume_cases:
  obtains (fail) e where "consume E i agent act st = (Inl e, st)"
  | (redeemed) a where "mapGet (byId st) i = Some a" "status a = Approved \<or> status a = Denied"
    "ap_agent a = agent" "policyActionMatches E (ap_action a) act st = (Inr True, st)"
    "consume E i agent act st =
       (Inr (a\<lparr>status := Consumed\<rparr>),
        st\<lparr>byId := mapSet (approvalId a) (a\<lparr>status := Consumed\<rparr>) (byId st)\<rparr>)"
proof (cases "mapGet (byId st) i")
  case None
  then show ?thesis using fail by (simp add: consume_def getApproval_def exec_simps)
next
  case (Some a)
  obtain r where r: "policyActionMatches E (ap_action a) act st = (r, st)"
    using policyActionMatches_pure by (metis prod.collapse)
  show ?thesis
  proof (cases "(status a = Approved \<or> status a = Denied) \<and> ap_agent a = agent \<and> r = Inr True")
    case True
    then show ?thesis using redeemed Some r
      by (auto simp: consume_def getApproval_def putApproval_def exec_simps Let_def)
  next
    case False
    then have "\<exists>e. consume E i agent act st = (Inl e, st)"
      using Some r by (cases r; cases "status a") (auto simp: consume_def getApproval_def exec_simps)
    then show ?thesis using fail by blast
  qed
qed

lemma resolve_cases:
  obtains (fail) e where "resolve i b st = (Inl e, st)"
  | (again) a where "mapGet (byId st) i = Some a" "status a \<noteq> Pending" "resolve i b st = (Inr a, st)"
  | (ruled) a a' where "mapGet (byId st) i = Some a" "status a = Pending"
    "a' = a\<lparr>status := (if b then Approved else Denied), ruled := Some (if b then RApproved else RDenied)\<rparr>"
    "resolve i b st = (Inr a', st\<lparr>byId := mapSet (approvalId a) a' (byId st)\<rparr>)"
proof (cases "mapGet (byId st) i")
  case None
  then show ?thesis using fail by (simp add: resolve_def getApproval_def exec_simps)
next
  case (Some a)
  show ?thesis
  proof (cases "status a = Pending")
    case True
    then show ?thesis using ruled Some
      by (simp add: resolve_def getApproval_def putApproval_def exec_simps Let_def)
  next
    case False
    then show ?thesis using fail again Some
      by (cases "status a = (if b then Approved else Denied)")
        (simp_all add: resolve_def getApproval_def exec_simps Let_def)
  qed
qed

lemma enqueue_out:
  "enqueue E now agent act p st =
     (let a = \<lparr>approvalId = ''apr_'' @ ulid E (ap_drawn st), ap_agent = agent, ap_action = act,
               ap_payload = p, ap_createdAt = isoOf E now, status = Pending, ruled = None\<rparr>
      in (Inr a, st\<lparr>ap_drawn := Suc (ap_drawn st), byId := mapSet (approvalId a) a (byId st)\<rparr>))"
  by (simp add: enqueue_def putApproval_def exec_simps Let_def)

lemma approvals_okD:
  assumes "approvals_ok E st"
  shows "mapGet (byId st) i = Some a \<Longrightarrow> approvalId a = i" "mapGet (byId st) i = Some a \<Longrightarrow> rulingOk a"
    "ulid_fresh E" "n \<ge> ap_drawn st \<Longrightarrow> mapGet (byId st) (''apr_'' @ ulid E n) = None"
  using assms by (auto simp: approvals_ok_def)

lemma approvals_ok_put:
  assumes "approvals_ok E st" "mapGet (byId st) i = Some a" "approvalId a' = i" "rulingOk a'"
  shows "approvals_ok E (st\<lparr>byId := mapSet i a' (byId st)\<rparr>)"
  using assms by (auto simp: approvals_ok_def)

lemma keeps_enqueue [keeps_rules]: "keeps (approvals_ok E) (enqueue E now agent act p)"
  by (rule keepsI)
    (auto simp: enqueue_out Let_def approvals_ok_def rulingOk_def ulid_fresh_eq Suc_le_eq)

lemma keeps_resolve [keeps_rules]: "keeps (approvals_ok E) (resolve i b)"
proof (rule keepsI)
  fix st
  assume ok: "approvals_ok E st"
  show "approvals_ok E (snd (resolve i b st))"
  proof (cases rule: resolve_cases [of i b st])
    case (ruled a a')
    then have "approvalId a' = i" "rulingOk a'"
      using approvals_okD(1) [OF ok ruled(1)] by (simp_all add: rulingOk_def)
    then show ?thesis using approvals_ok_put [OF ok ruled(1)] ruled(4) approvals_okD(1) [OF ok ruled(1)]
      by simp
  qed (use ok in auto)
qed

lemma keeps_consume [keeps_rules]: "keeps (approvals_ok E) (consume E i agent act)"
proof (rule keepsI)
  fix st
  assume ok: "approvals_ok E st"
  show "approvals_ok E (snd (consume E i agent act st))"
  proof (cases rule: consume_cases [of E i agent act st])
    case (redeemed a)
    have "rulingOk (a\<lparr>status := Consumed\<rparr>)"
      using approvals_okD(2) [OF ok redeemed(1)] redeemed(2) by (auto simp: rulingOk_def)
    then show ?thesis
      using approvals_ok_put [OF ok redeemed(1)] redeemed(5) approvals_okD(1) [OF ok redeemed(1)] by simp
  qed (use ok in auto)
qed

section \<open>The life cycle\<close>

text \<open>What one call can do to a stored approval.\<close>

inductive approval_step :: "approval_status \<Rightarrow> approval_status \<Rightarrow> bool" where
  stay: "approval_step s s"
| approve: "approval_step Pending Approved"
| refuse: "approval_step Pending Denied"
| redeem: "s = Approved \<or> s = Denied \<Longrightarrow> approval_step s Consumed"

inductive_simps approval_step_from [simp]:
  "approval_step Consumed s" "approval_step Pending s" "approval_step Approved s" "approval_step Denied s"

datatype approval_op =
    Enqueue int string policy_action json
  | Resolve string bool
  | Consume string string policy_action

fun runApproval :: "ext \<Rightarrow> approval_op \<Rightarrow> (approvals_st, approval) exec" where
  "runApproval E (Enqueue now agent act p) = enqueue E now agent act p"
| "runApproval E (Resolve i b) = resolve i b"
| "runApproval E (Consume i agent act) = consume E i agent act"

lemma runApproval_step:
  assumes ok: "approvals_ok E st" and r: "runApproval E op st = (r, st')"
    and a: "mapGet (byId st) i = Some a"
  shows "approvals_ok E st' \<and> (\<exists>a'. mapGet (byId st') i = Some a' \<and>
    approval_step (status a) (status a') \<and> ap_agent a' = ap_agent a \<and> ap_action a' = ap_action a \<and>
    (ruled a \<noteq> None \<longrightarrow> ruled a' = ruled a))"
proof (cases op)
  case (Enqueue now agent act p)
  have "keeps (approvals_ok E) (runApproval E op)" using Enqueue by (simp add: keeps_enqueue)
  then have "approvals_ok E st'" using ok r by (rule keepsD_pair)
  moreover have "''apr_'' @ ulid E (ap_drawn st) \<noteq> i" using approvals_okD(4) [OF ok order_refl] a by auto
  ultimately show ?thesis using Enqueue r a
    by (auto simp: enqueue_out Let_def intro: approval_step.stay)
next
  case (Resolve j b)
  have k: "approvals_ok E st'" using keepsD_pair [OF keeps_resolve ok] r Resolve by simp
  show ?thesis
  proof (cases rule: resolve_cases [of j b st])
    case (ruled c c')
    have "ruled c = None" "approvalId c = j"
      using approvals_okD(1,2) [OF ok ruled(1)] ruled(2) by (simp_all add: rulingOk_def)
    then show ?thesis using ruled r Resolve a k by (auto simp: approval_step.stay)
  qed (use r Resolve a k in \<open>auto intro: approval_step.stay\<close>)
next
  case (Consume j agent act)
  have k: "approvals_ok E st'" using keepsD_pair [OF keeps_consume ok] r Consume by simp
  show ?thesis
  proof (cases rule: consume_cases [of E j agent act st])
    case (redeemed c)
    then show ?thesis using r Consume a k approvals_okD(1) [OF ok]
      by (auto simp: approval_step.stay)
  qed (use r Consume a k in \<open>auto intro: approval_step.stay\<close>)
qed

section \<open>Redemption is single use\<close>

definition redeemed :: "approvals_st \<Rightarrow> string \<Rightarrow> bool" where
  "redeemed st i \<longleftrightarrow> (case mapGet (byId st) i of None \<Rightarrow> False | Some a \<Rightarrow> status a = Consumed)"

text \<open>A call as an attempt: whether it is a redemption that returned.\<close>

definition attempt :: "ext \<Rightarrow> approval_op \<Rightarrow> approvals_st \<Rightarrow> bool \<times> approvals_st" where
  "attempt E op st =
     (case runApproval E op st of
        (r, st') \<Rightarrow> ((case (op, r) of (Consume i agent act, Inr _) \<Rightarrow> True | _ \<Rightarrow> False), st'))"

fun approvalMark :: "approval_op \<Rightarrow> string option" where
  "approvalMark (Consume i agent act) = Some i"
| "approvalMark _ = None"

definition markSpent :: "approvals_st \<Rightarrow> string option \<Rightarrow> bool" where
  "markSpent st m \<longleftrightarrow> (case m of None \<Rightarrow> False | Some i \<Rightarrow> redeemed st i)"

lemma attempt_keeps: "approvals_ok E st \<Longrightarrow> approvals_ok E (snd (attempt E op st))"
  by (cases op) (auto simp: attempt_def split: prod.splits
    dest: keepsD_pair [OF keeps_enqueue] keepsD_pair [OF keeps_resolve] keepsD_pair [OF keeps_consume])

lemma attempt_true:
  "approvals_ok E st \<Longrightarrow> fst (attempt E op st) \<Longrightarrow>
   \<not> markSpent st (approvalMark op) \<and> markSpent (snd (attempt E op st)) (approvalMark op)"
proof (cases op)
  case (Consume i agent act)
  assume ok: "approvals_ok E st" and t: "fst (attempt E op st)"
  show ?thesis
  proof (cases rule: consume_cases [of E i agent act st])
    case (redeemed a)
    then show ?thesis using Consume approvals_okD(1) [OF ok]
      by (auto simp: attempt_def markSpent_def redeemed_def)
  qed (use Consume t in \<open>auto simp: attempt_def\<close>)
qed (auto simp: attempt_def split: prod.splits)

lemma attempt_spent:
  "approvals_ok E st \<Longrightarrow> markSpent st m \<Longrightarrow> markSpent (snd (attempt E op st)) m"
proof -
  assume ok: "approvals_ok E st" and m: "markSpent st m"
  obtain i a where i: "m = Some i" "mapGet (byId st) i = Some a" "status a = Consumed"
    using m by (auto simp: markSpent_def redeemed_def split: option.splits)
  obtain r st' where r: "runApproval E op st = (r, st')" by (cases "runApproval E op st")
  from runApproval_step [OF ok r i(2)] i(3) have "redeemed st' i" by (auto simp: redeemed_def)
  then show ?thesis using i r by (simp add: attempt_def markSpent_def)
qed

text \<open>An enqueue or a resolution carries no mark and is never accepted as a redemption.\<close>

interpretation apr: single_use "approvals_ok E" markSpent "attempt E" approvalMark for E
  by unfold_locales (simp_all add: attempt_keeps attempt_true attempt_spent)

fun attempts :: "ext \<Rightarrow> approval_op list \<Rightarrow> approvals_st \<Rightarrow> bool list \<times> approvals_st" where
  "attempts E [] st = ([], st)"
| "attempts E (op # ops) st =
     (case attempt E op st of (b, st') \<Rightarrow> case attempts E ops st' of (bs, st'') \<Rightarrow> (b # bs, st''))"

lemma attempts_uses: "attempts E ops st = apr.uses E ops st"
  by (induction ops arbitrary: st) (auto split: prod.split)

fun runApprovals :: "ext \<Rightarrow> approval_op list \<Rightarrow> approvals_st \<Rightarrow> approvals_st" where
  "runApprovals E [] st = st"
| "runApprovals E (op # ops) st = runApprovals E ops (snd (runApproval E op st))"

lemma approval_step_trans2:
  "approval_step s t \<Longrightarrow> approval_step t u \<Longrightarrow> approval_step s u \<or> (s = Pending \<and> u = Consumed)"
  by (cases s) (auto)

lemma runApprovals_step:
  assumes "approvals_ok E st" "mapGet (byId st) i = Some a"
  shows "approvals_ok E (runApprovals E ops st) \<and> (\<exists>a'. mapGet (byId (runApprovals E ops st)) i = Some a' \<and>
    (status a \<noteq> Pending \<longrightarrow> approval_step (status a) (status a')) \<and>
    ap_agent a' = ap_agent a \<and> ap_action a' = ap_action a \<and>
    (ruled a \<noteq> None \<longrightarrow> ruled a' = ruled a))"
  using assms
proof (induction ops arbitrary: st a)
  case Nil
  then show ?case by (auto intro: approval_step.stay)
next
  case (Cons op ops)
  obtain r st' where r: "runApproval E op st = (r, st')" by (cases "runApproval E op st")
  obtain b where b: "approvals_ok E st'" "mapGet (byId st') i = Some b" "approval_step (status a) (status b)"
      "ap_agent b = ap_agent a" "ap_action b = ap_action a" "ruled a \<noteq> None \<longrightarrow> ruled b = ruled a"
    using runApproval_step [OF Cons.prems(1) r Cons.prems(2)] by auto
  have "status a \<noteq> Pending \<Longrightarrow> status b \<noteq> Pending" using b(3) by (cases "status a") auto
  then show ?case
    using Cons.IH [OF b(1,2)] b r approval_step_trans2 [OF b(3)] by simp metis
qed

section \<open>Properties\<close>

definition sampleApprovals :: approvals_st where
  "sampleApprovals = snd (enqueue demo 1 ''did:a'' (sampleSpend ''60'') JNull emptyApprovals)"

definition sampleApprovalOps :: "approval_op list" where
  "sampleApprovalOps = [Consume ''apr_0'' ''did:a'' (sampleSpend ''60''), Resolve ''apr_0'' True,
     Consume ''apr_0'' ''did:a'' (sampleSpend ''60''), Consume ''apr_0'' ''did:a'' (sampleSpend ''60'')]"

lemma emptyApprovals_ok: "ulid_fresh E \<Longrightarrow> approvals_ok E emptyApprovals"
  by (simp add: approvals_ok_def emptyApprovals_def)

lemma sampleApprovals_ok: "approvals_ok demo sampleApprovals"
  unfolding sampleApprovals_def
  by (rule keepsD [OF keeps_enqueue emptyApprovals_ok [OF demo_ulid_fresh]])

text \<open>
  Claim C30. An approval is redeemed at most once: in any sequence of enqueues, resolutions and
  redemptions, of two attempts to redeem the same approval at most one succeeds.
\<close>

theorem approval_redeemed_once:
  assumes "approvals_ok E st" "i < j" "j < length ops"
    and "approvalMark (ops ! i) = Some k" "approvalMark (ops ! j) = Some k"
    and "fst (attempts E ops st) ! i"
  shows "\<not> fst (attempts E ops st) ! j"
  using apr.uses_once [OF assms(1-3)] assms(4-6) by (simp add: attempts_uses)

lemma approval_redeemed_once_witness:
  "fst (attempts demo sampleApprovalOps sampleApprovals) ! 2 \<and>
   \<not> fst (attempts demo sampleApprovalOps sampleApprovals) ! 3"
proof -
  have "fst (attempts demo sampleApprovalOps sampleApprovals) ! 2" by code_simp
  moreover from this have "\<not> fst (attempts demo sampleApprovalOps sampleApprovals) ! 3"
    by (rule approval_redeemed_once [OF sampleApprovals_ok, where k = "''apr_0''", rotated -1])
      (simp_all add: sampleApprovalOps_def)
  ultimately show ?thesis by simp
qed

text \<open>
  A redemption authorises exactly one action: when it returns, the approval had been
  resolved (not pending, not consumed), was granted to the presenting agent, and for an action
  with the same kind, agent, category, counterparty, sub-kind and numerically equal amount; the
  result carries the supervisor's ruling.
\<close>

theorem consume_binds_action:
  assumes "approvals_ok E st" "consume E i agent act st = (Inr a, st')"
  shows "\<exists>a0. mapGet (byId st) i = Some a0 \<and> ap_agent a0 = agent \<and>
    (status a0 = Approved \<and> ruled a = Some RApproved \<or> status a0 = Denied \<and> ruled a = Some RDenied) \<and>
    (let b = ap_action a0 in
     a_kind b = a_kind act \<and> a_agent b = a_agent act \<and> a_category b = a_category act \<and>
     a_counterparty b = a_counterparty act \<and> a_subKind b = a_subKind act \<and>
     (case (a_amount b, a_amount act) of
        (None, None) \<Rightarrow> True
      | (Some x, Some y) \<Rightarrow> currency x = currency y \<and>
          (\<exists>v. bigVal E (amount x) = Some v \<and> bigVal E (amount y) = Some v)
      | _ \<Rightarrow> False))"
proof (cases rule: consume_cases [of E i agent act st])
  case (redeemed a0)
  have "rulingOk a0" using approvals_okD(2) [OF assms(1) redeemed(1)] .
  then have "status a0 = Approved \<and> ruled a = Some RApproved \<or> status a0 = Denied \<and> ruled a = Some RDenied"
    using redeemed assms(2) by (auto simp: rulingOk_def)
  then show ?thesis using redeemed(1,3) policyActionMatches_true [OF redeemed(4)]
    by (intro exI [of _ a0]) (simp add: Let_def)
qed (use assms(2) in auto)

definition resolvedApprovals :: approvals_st where
  "resolvedApprovals = snd (resolve ''apr_0'' True sampleApprovals)"

lemma resolvedApprovals_ok: "approvals_ok demo resolvedApprovals"
  unfolding resolvedApprovals_def by (rule keepsD [OF keeps_resolve sampleApprovals_ok])

lemma consume_binds_action_witness:
  "\<exists>a0 a st'. consume demo ''apr_0'' ''did:a'' (sampleSpend ''60'') resolvedApprovals = (Inr a, st') \<and>
     mapGet (byId resolvedApprovals) ''apr_0'' = Some a0 \<and> ap_agent a0 = ''did:a''"
proof -
  have "(case fst (consume demo ''apr_0'' ''did:a'' (sampleSpend ''60'') resolvedApprovals) of
      Inl e \<Rightarrow> False | Inr a \<Rightarrow> True)"
    by code_simp
  then obtain a st' where r: "consume demo ''apr_0'' ''did:a'' (sampleSpend ''60'') resolvedApprovals = (Inr a, st')"
    by (cases "consume demo ''apr_0'' ''did:a'' (sampleSpend ''60'') resolvedApprovals") (auto split: sum.splits)
  from consume_binds_action [OF resolvedApprovals_ok r] r show ?thesis by blast
qed

text \<open>
  A ruling is final: once an approval is resolved, no sequence of calls changes its
  ruling, the agent or the action it was granted for, and its status can only become consumed.
\<close>

theorem approval_ruling_final:
  assumes "approvals_ok E st" "mapGet (byId st) i = Some a" "status a \<noteq> Pending"
  shows "\<exists>a'. mapGet (byId (runApprovals E ops st)) i = Some a' \<and>
    approval_step (status a) (status a') \<and> ruled a' = ruled a \<and>
    ap_agent a' = ap_agent a \<and> ap_action a' = ap_action a"
proof -
  have "ruled a \<noteq> None" using approvals_okD(2) [OF assms(1,2)] assms(3)
    by (cases "status a") (auto simp: rulingOk_def)
  then show ?thesis using runApprovals_step [OF assms(1,2), of ops] assms(3) by auto
qed

lemma approval_ruling_final_witness:
  "\<exists>a a'. mapGet (byId resolvedApprovals) ''apr_0'' = Some a \<and>
     mapGet (byId (runApprovals demo sampleApprovalOps resolvedApprovals)) ''apr_0'' = Some a' \<and>
     ruled a' = ruled a"
proof -
  have "map_option status (mapGet (byId resolvedApprovals) ''apr_0'') = Some Approved" by code_simp
  then obtain a where a: "mapGet (byId resolvedApprovals) ''apr_0'' = Some a" "status a \<noteq> Pending"
    by auto
  from approval_ruling_final [OF resolvedApprovals_ok a] a(1) show ?thesis by blast
qed

end
