(* ===== verification/Reputation.thy ===== *)
theory Reputation
  imports Envelope
begin

text \<open>
  Reputation, \<open>src/core/reputation\<close> and \<open>src/domain/reputation.ts\<close>: settled receipts and
  observed signals are folded into one accumulator per subject, metrics are a projection of it, and
  the trust score is a public formula over the metrics. The repository hands out copies, so nothing
  is stored before \<open>put\<close>. JavaScript numbers are read as rationals; a trust of \<open>None\<close> is NaN.
\<close>

section \<open>Metrics and trust\<close>

record metrics =
  success_rate :: rat
  dispute_rate :: rat
  refund_rate :: rat
  p50 :: rat
  p95 :: rat
  uptime :: rat
  m_jobs :: nat
  settled_value :: string
  m_stake :: string
  first_seen :: "string option"
  last_settled :: "string option"
  counterparty_diversity :: rat
  spam_flags :: rat
  post_flags :: rat

definition clamp01 :: "rat \<Rightarrow> rat" where
  "clamp01 x = (if x < 0 then 0 else if x > 1 then 1 else x)"

definition latencyAdherence :: "metrics \<Rightarrow> rat" where
  "latencyAdherence m = clamp01 (4000 / max (p95 m) 1)"

definition trustBase :: "metrics \<Rightarrow> rat \<Rightarrow> rat" where
  "trustBase m stakeNum =
     clamp01 ((45 / 100) * clamp01 (success_rate m) + (20 / 100) * clamp01 (uptime m)
       + (20 / 100) * latencyAdherence m + (15 / 100) * clamp01 (stakeNum / 250)
       - (30 / 100) * clamp01 (dispute_rate m) - (15 / 100) * clamp01 (refund_rate m))"

definition diversityFactor :: "metrics \<Rightarrow> rat" where
  "diversityFactor m = 6 / 10 + (4 / 10) * clamp01 (counterparty_diversity m)"

definition flagFactor :: "metrics \<Rightarrow> rat" where
  "flagFactor m = clamp01 (1 - (2 / 100) * spam_flags m - (2 / 100) * post_flags m)"

definition computeTrust :: "ext \<Rightarrow> metrics \<Rightarrow> rat option" where
  "computeTrust E m =
     (case numberOf E (m_stake m) of
        None \<Rightarrow> None
      | Some stakeNum \<Rightarrow> Some (clamp01 (trustBase m stakeNum * diversityFactor m * flagFactor m)))"

definition emptyMetrics :: metrics where
  "emptyMetrics = \<lparr>success_rate = 0, dispute_rate = 0, refund_rate = 0, p50 = 0, p95 = 0, uptime = 1,
     m_jobs = 0, settled_value = ''0'', m_stake = ''0'', first_seen = None, last_settled = None,
     counterparty_diversity = 0, spam_flags = 0, post_flags = 0\<rparr>"

section \<open>Accumulators\<close>

record accumulator =
  jobs :: nat
  successCredit :: rat
  disputes :: nat
  refunds :: nat
  latencySamples :: "int list"
  settledValue :: string
  settledCurrency :: "string option"
  firstSeen :: "string option"
  lastSettled :: "string option"
  counterparties :: "string list"
  stake :: string
  spamFlags :: rat
  postFlags :: rat
  ingestedReceipts :: "string list"

definition emptyAccumulator :: accumulator where
  "emptyAccumulator = \<lparr>jobs = 0, successCredit = 0, disputes = 0, refunds = 0, latencySamples = [],
     settledValue = ''0'', settledCurrency = None, firstSeen = None, lastSettled = None,
     counterparties = [], stake = ''0'', spamFlags = 0, postFlags = 0, ingestedReceipts = []\<rparr>"

text \<open>\<open>sorted[idx] ?? 0\<close> at the nearest rank.\<close>

definition nearestRank :: "int list \<Rightarrow> rat \<Rightarrow> rat" where
  "nearestRank sorted_samples q =
     (let n = int (length sorted_samples);
          rank = \<lceil>q * of_int n\<rceil>;
          idx = min (max rank 1) n - 1
      in if 0 \<le> idx \<and> idx < n then of_int (sorted_samples ! nat idx) else 0)"

definition percentiles :: "int list \<Rightarrow> rat \<times> rat" where
  "percentiles samples =
     (if samples = [] then (0, 0)
      else (let s = sort samples in (nearestRank s (1 / 2), nearestRank s (95 / 100))))"

definition metricsFromAccumulator :: "accumulator \<Rightarrow> metrics" where
  "metricsFromAccumulator acc =
     (let n = jobs acc; rate = (\<lambda>x. if n = 0 then 0 else clamp01 (x / of_nat n));
          pc = percentiles (latencySamples acc)
      in \<lparr>success_rate = rate (successCredit acc), dispute_rate = rate (of_nat (disputes acc)),
          refund_rate = rate (of_nat (refunds acc)), p50 = fst pc, p95 = snd pc, uptime = 1,
          m_jobs = n, settled_value = settledValue acc, m_stake = stake acc,
          first_seen = firstSeen acc, last_settled = lastSettled acc,
          counterparty_diversity = rate (of_nat (length (counterparties acc))),
          spam_flags = spamFlags acc, post_flags = postFlags acc\<rparr>)"

section \<open>State and operations\<close>

record snapshot =
  snapshot_id :: string
  sn_subject :: string
  sn_window :: string
  sn_metrics :: metrics
  sn_trust :: "rat option"
  sn_issued :: string
  sn_expires :: string
  sn_issuer :: string
  sn_sig :: string

record reputation_st =
  accs :: "(string, accumulator) jsmap"
  snaps :: "(string, snapshot) jsmap"
  rep_drawn :: nat

record core_signer =
  cs_did :: string
  cs_kid :: string
  cs_sk :: string

definition emptyReputation :: reputation_st where
  "emptyReputation = \<lparr>accs = [], snaps = [], rep_drawn = 0\<rparr>"

definition accGetOrCreate :: "string \<Rightarrow> (reputation_st, accumulator) exec" where
  "accGetOrCreate d =
     bindE (gets (\<lambda>st. mapGet (accs st) d)) (\<lambda>x.
     case x of
       Some a \<Rightarrow> ret a
     | None \<Rightarrow> bindE (modify (\<lambda>st. st\<lparr>accs := mapSet d emptyAccumulator (accs st)\<rparr>))
                 (\<lambda>_. ret emptyAccumulator))"

definition putAcc :: "string \<Rightarrow> accumulator \<Rightarrow> (reputation_st, unit) exec" where
  "putAcc d a = modify (\<lambda>st. st\<lparr>accs := mapSet d a (accs st)\<rparr>)"

definition metricsJson :: "metrics \<Rightarrow> json" where
  "metricsJson m =
     JObj [(''success_rate'', JNum (success_rate m)), (''dispute_rate'', JNum (dispute_rate m)),
           (''refund_rate'', JNum (refund_rate m)),
           (''latency_ms'', JObj [(''p50'', JNum (p50 m)), (''p95'', JNum (p95 m))]),
           (''uptime'', JNum (uptime m)), (''jobs'', JNum (of_nat (m_jobs m))),
           (''settled_value'', JStr (settled_value m)), (''stake'', JStr (m_stake m)),
           (''first_seen'', nullable (first_seen m)), (''last_settled'', nullable (last_settled m)),
           (''counterparty_diversity'', JNum (counterparty_diversity m)),
           (''spam_flags'', JNum (spam_flags m)), (''post_flags'', JNum (post_flags m))]"

text \<open>The snapshot without its signature; NaN is serialised as null.\<close>

definition snapshotObj :: "snapshot \<Rightarrow> (string \<times> json) list" where
  "snapshotObj s =
     [(''snapshot_id'', JStr (snapshot_id s)), (''subject'', JStr (sn_subject s)),
      (''window'', JStr (sn_window s)), (''metrics'', metricsJson (sn_metrics s)),
      (''trust'', (case sn_trust s of None \<Rightarrow> JNull | Some t \<Rightarrow> JNum t)),
      (''issued'', JStr (sn_issued s)), (''expires'', JStr (sn_expires s)),
      (''issuer'', JStr (sn_issuer s))]"

definition SNAPSHOT_TTL_MS :: int where
  "SNAPSHOT_TTL_MS = 24 * 60 * 60 * 1000"

definition issueSnapshot ::
    "ext \<Rightarrow> core_signer \<Rightarrow> int \<Rightarrow> string \<Rightarrow> accumulator \<Rightarrow> (reputation_st, snapshot) exec" where
  "issueSnapshot E cs now d a =
     bindE (gets rep_drawn) (\<lambda>n.
     bindE (modify (\<lambda>st. st\<lparr>rep_drawn := Suc n\<rparr>)) (\<lambda>_.
     let m = metricsFromAccumulator a;
         u = \<lparr>snapshot_id = ''rep_'' @ ulid E n, sn_subject = d, sn_window = ''30d'', sn_metrics = m,
              sn_trust = computeTrust E m, sn_issued = isoOf E now,
              sn_expires = isoOf E (now + SNAPSHOT_TTL_MS), sn_issuer = cs_did cs, sn_sig = ''''\<rparr>;
         s = u\<lparr>sn_sig := signDetached E (JObj (stripForSigning (snapshotObj u) [''sig''])) (cs_sk cs) (cs_kid cs)\<rparr>
     in bindE (modify (\<lambda>st. st\<lparr>snaps := mapSet (sn_subject s) s (snaps st)\<rparr>)) (\<lambda>_. ret s)))"

text \<open>Persist the accumulator and re-issue the signed snapshot.\<close>

definition saveAcc :: "ext \<Rightarrow> core_signer \<Rightarrow> int \<Rightarrow> string \<Rightarrow> accumulator \<Rightarrow> (reputation_st, unit) exec" where
  "saveAcc E cs now d a = bindE (putAcc d a) (\<lambda>_. bindE (issueSnapshot E cs now d a) (\<lambda>_. ret ()))"

text \<open>Comparisons with an unparseable date are false.\<close>

definition msBefore :: "ext \<Rightarrow> string \<Rightarrow> string \<Rightarrow> bool" where
  "msBefore E a b = (case dateMs E a of None \<Rightarrow> False
     | Some x \<Rightarrow> (case dateMs E b of None \<Rightarrow> False | Some y \<Rightarrow> x < y))"

definition earliest :: "ext \<Rightarrow> string option \<Rightarrow> string \<Rightarrow> string" where
  "earliest E a b = (case a of None \<Rightarrow> b | Some x \<Rightarrow> if msBefore E b x then b else x)"

definition latest :: "ext \<Rightarrow> string option \<Rightarrow> string \<Rightarrow> string" where
  "latest E a b = (case a of None \<Rightarrow> b | Some x \<Rightarrow> if msBefore E x b then b else x)"

definition addValue :: "ext \<Rightarrow> accumulator \<Rightarrow> money \<Rightarrow> ('s, accumulator) exec" where
  "addValue E a m =
     bindE (throwIf (case settledCurrency a of None \<Rightarrow> False | Some c \<Rightarrow> c \<noteq> currency m) ValidationError) (\<lambda>_.
     bindE (plusE E (settledValue a) (amount m)) (\<lambda>v.
     ret (a\<lparr>settledValue := v,
            settledCurrency := (case settledCurrency a of None \<Rightarrow> Some (currency m) | Some c \<Rightarrow> Some c)\<rparr>)))"

definition foldOutcome :: "accumulator \<Rightarrow> receipt_outcome \<Rightarrow> accumulator" where
  "foldOutcome a oc =
     (case oc of
        Delivered \<Rightarrow> a\<lparr>successCredit := successCredit a + 1\<rparr>
      | Partial \<Rightarrow> a\<lparr>successCredit := successCredit a + 1 / 2\<rparr>
      | Refunded \<Rightarrow> a\<lparr>refunds := refunds a + 1\<rparr>
      | Disputed \<Rightarrow> a\<lparr>disputes := disputes a + 1\<rparr>)"

definition countReceipt :: "accumulator \<Rightarrow> receipt \<Rightarrow> accumulator" where
  "countReceipt a r =
     (let a1 = a\<lparr>ingestedReceipts := List.insert (receipt_id r) (ingestedReceipts a), jobs := jobs a + 1,
                 counterparties := List.insert (payer r) (counterparties a)\<rparr>;
          a2 = (if latency_ms r \<ge> 0 then a1\<lparr>latencySamples := latencySamples a1 @ [latency_ms r]\<rparr> else a1)
      in foldOutcome a2 (outcome r))"

definition ingestReceipt :: "ext \<Rightarrow> core_signer \<Rightarrow> int \<Rightarrow> receipt \<Rightarrow> (reputation_st, unit) exec" where
  "ingestReceipt E cs now r =
     (let d = payee r in
      bindE (throwIf (d = '''') ValidationError) (\<lambda>_.
      bindE (throwIf (payer r = '''') ValidationError) (\<lambda>_.
      bindE (accGetOrCreate d) (\<lambda>a0.
      if List.member (ingestedReceipts a0) (receipt_id r) then ret ()
      else
        (let a1 = countReceipt a0 r in
         bindE (if outcome r \<noteq> Refunded then addValue E a1 (r_amount r) else ret a1) (\<lambda>a2.
         let a3 = a2\<lparr>firstSeen := Some (earliest E (firstSeen a2) (settled_at r)),
                     lastSettled := Some (latest E (lastSettled a2) (settled_at r))\<rparr> in
         saveAcc E cs now d a3))))))"

text \<open>A weight arrives as a finite number.\<close>

definition ingestSignal ::
    "ext \<Rightarrow> core_signer \<Rightarrow> int \<Rightarrow> string \<Rightarrow> string \<Rightarrow> rat \<Rightarrow> (reputation_st, unit) exec" where
  "ingestSignal E cs now d knd weight =
     bindE (throwIf (d = '''') ValidationError) (\<lambda>_.
     bindE (throwIf (weight < 0) ValidationError) (\<lambda>_.
     bindE (accGetOrCreate d) (\<lambda>a.
     bindE (if knd = ''message_spam'' then ret (a\<lparr>spamFlags := spamFlags a + weight\<rparr>)
            else if knd = ''post_flag'' then ret (a\<lparr>postFlags := postFlags a + weight\<rparr>)
            else if knd = ''frivolous_dispute'' then ret (a\<lparr>postFlags := postFlags a + weight\<rparr>)
            else throw ValidationError) (\<lambda>a'.
     saveAcc E cs now d a'))))"

definition getRaw :: "string \<Rightarrow> reputation_st \<Rightarrow> metrics option" where
  "getRaw d st = map_option metricsFromAccumulator (mapGet (accs st) d)"

definition snapshotExpired :: "ext \<Rightarrow> int \<Rightarrow> snapshot \<Rightarrow> bool" where
  "snapshotExpired E now s = (case dateMs E (sn_expires s) of None \<Rightarrow> True | Some x \<Rightarrow> x \<le> now)"

definition getSnapshot :: "ext \<Rightarrow> core_signer \<Rightarrow> int \<Rightarrow> string \<Rightarrow> (reputation_st, snapshot option) exec" where
  "getSnapshot E cs now d =
     bindE (gets (\<lambda>st. (mapGet (accs st) d, mapGet (snaps st) d))) (\<lambda>(a, cached).
     case a of
       None \<Rightarrow> ret None
     | Some acc \<Rightarrow>
         (case cached of
            Some s \<Rightarrow> if \<not> snapshotExpired E now s then ret (Some s)
                      else bindE (issueSnapshot E cs now d acc) (\<lambda>s'. ret (Some s'))
          | None \<Rightarrow> bindE (issueSnapshot E cs now d acc) (\<lambda>s'. ret (Some s'))))"

definition setStake :: "ext \<Rightarrow> core_signer \<Rightarrow> int \<Rightarrow> string \<Rightarrow> string \<Rightarrow> (reputation_st, unit) exec" where
  "setStake E cs now d am =
     bindE (throwIf (d = '''') ValidationError) (\<lambda>_.
     bindE (throwIf (\<not> mIsValidAmount E am) ValidationError) (\<lambda>_.
     bindE (accGetOrCreate d) (\<lambda>a.
     let a' = a\<lparr>stake := bigNorm E am\<rparr> in
     saveAcc E cs now d a')))"

section \<open>Lemmas\<close>

lemma clamp01_bounds: "0 \<le> clamp01 x" "clamp01 x \<le> 1"
  by (simp_all add: clamp01_def)

lemma clamp01_mono: "x \<le> y \<Longrightarrow> clamp01 x \<le> clamp01 y"
  by (simp add: clamp01_def)

lemma clamp01_id: "0 \<le> x \<Longrightarrow> x \<le> 1 \<Longrightarrow> clamp01 x = x"
  by (simp add: clamp01_def)

lemma diversityFactor_bounds: "0 \<le> diversityFactor m" "diversityFactor m \<le> 1"
  using clamp01_bounds [of "counterparty_diversity m"] by (simp_all add: diversityFactor_def)

lemma accGetOrCreate_out:
  obtains a where "accGetOrCreate d st = (Inr a, st\<lparr>accs := mapSet d a (accs st)\<rparr>)"
    "a = (case mapGet (accs st) d of None \<Rightarrow> emptyAccumulator | Some x \<Rightarrow> x)"
  | a where "accGetOrCreate d st = (Inr a, st)" "mapGet (accs st) d = Some a"
  by (cases "mapGet (accs st) d") (auto simp: accGetOrCreate_def exec_simps)

lemma issueSnapshot_out:
  "\<exists>s. issueSnapshot E cs now d a st =
     (Inr s, st\<lparr>rep_drawn := Suc (rep_drawn st), snaps := mapSet d s (snaps st)\<rparr>) \<and>
     sn_metrics s = metricsFromAccumulator a \<and> sn_trust s = computeTrust E (metricsFromAccumulator a) \<and>
     sn_subject s = d"
  by (simp add: issueSnapshot_def exec_simps Let_def)

text \<open>An operation on a subject either throws with at most a fresh accumulator, or stores one.\<close>

lemma issueSnapshot_accs: "accs (snd (issueSnapshot E cs now d a st)) = accs st"
  by (simp add: issueSnapshot_def exec_simps Let_def)

section \<open>The accumulator invariant\<close>

definition acc_ok :: "accumulator \<Rightarrow> bool" where
  "acc_ok a \<longleftrightarrow>
     jobs a = length (ingestedReceipts a) \<and> distinct (ingestedReceipts a) \<and>
     0 \<le> successCredit a \<and> successCredit a + of_nat (disputes a) + of_nat (refunds a) \<le> of_nat (jobs a) \<and>
     length (counterparties a) \<le> jobs a \<and> length (latencySamples a) \<le> jobs a \<and>
     0 \<le> spamFlags a \<and> 0 \<le> postFlags a"

definition rep_ok :: "reputation_st \<Rightarrow> bool" where
  "rep_ok st \<longleftrightarrow> (\<forall>d a. mapGet (accs st) d = Some a \<longrightarrow> acc_ok a)"

lemma acc_ok_empty: "acc_ok emptyAccumulator"
  by (simp add: acc_ok_def emptyAccumulator_def)

lemma rep_ok_put: "rep_ok st \<Longrightarrow> acc_ok a \<Longrightarrow> accs st' = mapSet d a (accs st) \<Longrightarrow> rep_ok st'"
  by (auto simp: rep_ok_def)

lemma acc_ok_count:
  assumes "acc_ok a" "receipt_id r \<notin> set (ingestedReceipts a)"
  shows "acc_ok (countReceipt a r)"
  using assms
  by (cases "outcome r")
    (auto simp: acc_ok_def countReceipt_def foldOutcome_def Let_def List.insert_def)

lemma acc_ok_fields:
  "acc_ok a \<Longrightarrow> acc_ok (a\<lparr>settledValue := v, settledCurrency := c\<rparr>)"
  "acc_ok a \<Longrightarrow> acc_ok (a\<lparr>firstSeen := x, lastSettled := y\<rparr>)"
  "acc_ok a \<Longrightarrow> acc_ok (a\<lparr>stake := s\<rparr>)"
  "acc_ok a \<Longrightarrow> 0 \<le> w \<Longrightarrow> acc_ok (a\<lparr>spamFlags := spamFlags a + w\<rparr>)"
  "acc_ok a \<Longrightarrow> 0 \<le> w \<Longrightarrow> acc_ok (a\<lparr>postFlags := postFlags a + w\<rparr>)"
  by (simp_all add: acc_ok_def)

lemma keeps_accGetOrCreate: "keeps rep_ok (accGetOrCreate d)"
  by (rule keepsI) (auto simp: accGetOrCreate_def exec_simps rep_ok_def acc_ok_empty split: option.splits)

lemma accGetOrCreate_val:
  "accGetOrCreate d st = (Inr a, st') \<Longrightarrow> rep_ok st \<Longrightarrow> rep_ok st' \<and> acc_ok a \<and>
     mapGet (accs st') d = Some a \<and> a = (case mapGet (accs st) d of None \<Rightarrow> emptyAccumulator | Some x \<Rightarrow> x)"
  by (auto simp: accGetOrCreate_def exec_simps rep_ok_def acc_ok_empty split: option.splits if_splits)

lemma accGetOrCreate_never: "\<exists>a st'. accGetOrCreate d st = (Inr a, st')"
  by (auto simp: accGetOrCreate_def exec_simps split: option.splits)

lemma saveAcc_out:
  "\<exists>s. saveAcc E cs now d a st =
     (Inr (), st\<lparr>accs := mapSet d a (accs st), rep_drawn := Suc (rep_drawn st), snaps := mapSet d s (snaps st)\<rparr>)"
  using issueSnapshot_out [of E cs now d a "st\<lparr>accs := mapSet d a (accs st)\<rparr>"]
  by (auto simp: saveAcc_def putAcc_def exec_simps)

lemma rep_ok_save: "rep_ok st \<Longrightarrow> acc_ok a \<Longrightarrow> rep_ok (snd (saveAcc E cs now d a st))"
  using saveAcc_out [of E cs now d a st] by (auto simp: rep_ok_def split: if_splits)

lemma addValue_pure: "addValue E a m st = (r, st') \<Longrightarrow> st' = st"
  by (auto simp: addValue_def plusE_def bigE_def exec_simps split: if_splits option.splits)

lemma addValue_ok:
  "addValue E a m st = (Inr a', st') \<Longrightarrow> \<exists>v c. a' = a\<lparr>settledValue := v, settledCurrency := c\<rparr>"
  by (auto simp: addValue_def plusE_def bigE_def exec_simps split: if_splits option.splits)

lemma maybeAdd_pure: "\<exists>x. (if b then addValue E a m else ret a) st = (x, st)"
  by (cases "addValue E a m st") (auto dest: addValue_pure)

lemma keeps_ingestReceipt [keeps_rules]: "keeps rep_ok (ingestReceipt E cs now r)"
proof (rule keepsI)
  fix st
  assume ok: "rep_ok st"
  obtain a0 st1 where g: "accGetOrCreate (payee r) st = (Inr a0, st1)"
    using accGetOrCreate_never by blast
  have ok1: "rep_ok st1" "acc_ok a0" using accGetOrCreate_val [OF g ok] by blast+
  show "rep_ok (snd (ingestReceipt E cs now r st))"
  proof (cases "payee r = '''' \<or> payer r = '''' \<or> receipt_id r \<in> set (ingestedReceipts a0)")
    case True
    then show ?thesis using ok g ok1 by (auto simp: ingestReceipt_def Let_def exec_simps)
  next
    case False
    let ?a1 = "countReceipt a0 r"
    have a1: "acc_ok ?a1" using acc_ok_count ok1(2) False by blast
    obtain x where v: "(if outcome r \<noteq> Refunded then addValue E ?a1 (r_amount r) else ret ?a1) st1 = (x, st1)"
      using maybeAdd_pure [of "outcome r \<noteq> Refunded" E ?a1 "r_amount r" st1] by blast
    show ?thesis
    proof (cases x)
      case (Inl e)
      then show ?thesis using False g v ok1 by (simp add: ingestReceipt_def Let_def exec_simps)
    next
      case (Inr a2)
      have a2: "acc_ok a2" using v Inr a1 addValue_ok acc_ok_fields(1) by (fastforce split: if_splits)
      show ?thesis using False g v Inr rep_ok_save [OF ok1(1) acc_ok_fields(2) [OF a2]]
        by (simp add: ingestReceipt_def Let_def exec_simps)
    qed
  qed
qed

lemma keeps_ingestSignal [keeps_rules]: "keeps rep_ok (ingestSignal E cs now d knd w)"
proof (rule keepsI)
  fix st
  assume ok: "rep_ok st"
  obtain a0 st1 where g: "accGetOrCreate d st = (Inr a0, st1)" using accGetOrCreate_never by blast
  have ok1: "rep_ok st1" "acc_ok a0" using accGetOrCreate_val [OF g ok] by blast+
  show "rep_ok (snd (ingestSignal E cs now d knd w st))"
    using ok g ok1 rep_ok_save [OF ok1(1) acc_ok_fields(4) [OF ok1(2)]]
      rep_ok_save [OF ok1(1) acc_ok_fields(5) [OF ok1(2)]]
    by (simp add: ingestSignal_def exec_simps not_less)
qed

lemma keeps_setStake [keeps_rules]: "keeps rep_ok (setStake E cs now d am)"
proof (rule keepsI)
  fix st
  assume ok: "rep_ok st"
  obtain a0 st1 where g: "accGetOrCreate d st = (Inr a0, st1)" using accGetOrCreate_never by blast
  have ok1: "rep_ok st1" "acc_ok a0" using accGetOrCreate_val [OF g ok] by blast+
  show "rep_ok (snd (setStake E cs now d am st))"
    using ok g ok1 rep_ok_save [OF ok1(1) acc_ok_fields(3) [OF ok1(2)]]
    by (simp add: setStake_def Let_def exec_simps)
qed

lemma keeps_getSnapshot [keeps_rules]: "keeps rep_ok (getSnapshot E cs now d)"
  by (rule keepsI)
    (simp add: getSnapshot_def exec_simps issueSnapshot_def Let_def rep_ok_def split: option.split)

text \<open>The rates that are published never need clamping.\<close>

lemma metrics_rates:
  assumes "acc_ok a"
  defines "m \<equiv> metricsFromAccumulator a"
  shows "0 \<le> success_rate m" "0 \<le> dispute_rate m" "0 \<le> refund_rate m"
    "success_rate m + dispute_rate m + refund_rate m \<le> 1"
    "0 \<le> counterparty_diversity m" "counterparty_diversity m \<le> 1"
proof -
  have a: "0 \<le> successCredit a" "length (counterparties a) \<le> jobs a"
    "successCredit a + of_nat (disputes a) + of_nat (refunds a) \<le> (of_nat (jobs a) :: rat)"
    using assms(1) by (simp_all add: acc_ok_def)
  show "0 \<le> success_rate m" "0 \<le> dispute_rate m" "0 \<le> refund_rate m"
    "0 \<le> counterparty_diversity m" "counterparty_diversity m \<le> 1"
    using clamp01_bounds by (simp_all add: m_def metricsFromAccumulator_def Let_def)
  show "success_rate m + dispute_rate m + refund_rate m \<le> 1"
  proof (cases "jobs a = 0")
    case True
    then show ?thesis by (simp add: m_def metricsFromAccumulator_def Let_def)
  next
    case False
    let ?n = "of_nat (jobs a) :: rat"
    have n: "0 < ?n" using False by simp
    have le: "successCredit a \<le> ?n" "of_nat (disputes a) \<le> ?n" "of_nat (refunds a) \<le> ?n"
      using a of_nat_0_le_iff [of "disputes a", where 'a = rat] of_nat_0_le_iff [of "refunds a", where 'a = rat]
      by linarith+
    have "success_rate m + dispute_rate m + refund_rate m =
        (successCredit a + of_nat (disputes a) + of_nat (refunds a)) / ?n"
      using False n a(1) le
      by (simp add: m_def metricsFromAccumulator_def Let_def clamp01_id divide_le_eq_1_pos add_divide_distrib)
    also have "\<dots> \<le> 1" using a(3) n by (simp add: divide_le_eq_1_pos)
    finally show ?thesis .
  qed
qed

section \<open>Properties\<close>

datatype rep_op =
    OpReceipt core_signer int receipt
  | OpSignal core_signer int string string rat
  | OpStake core_signer int string string
  | OpSnapshot core_signer int string

fun runRep :: "ext \<Rightarrow> rep_op \<Rightarrow> (reputation_st, unit) exec" where
  "runRep E (OpReceipt cs now r) = ingestReceipt E cs now r"
| "runRep E (OpSignal cs now d knd w) = ingestSignal E cs now d knd w"
| "runRep E (OpStake cs now d am) = setStake E cs now d am"
| "runRep E (OpSnapshot cs now d) = bindE (getSnapshot E cs now d) (\<lambda>_. ret ())"

fun runReps :: "ext \<Rightarrow> rep_op list \<Rightarrow> reputation_st \<Rightarrow> reputation_st" where
  "runReps E [] st = st"
| "runReps E (op # ops) st = runReps E ops (snd (runRep E op st))"

lemma keeps_runRep: "keeps rep_ok (runRep E op)"
  by (cases op) (auto intro!: keeps_rules)

lemma runReps_ok: "rep_ok st \<Longrightarrow> rep_ok (runReps E ops st)"
  by (induction ops arbitrary: st) (simp_all add: keepsD [OF keeps_runRep])

definition sampleSigner :: core_signer where
  "sampleSigner = \<lparr>cs_did = ''did:praxis:core:rep'', cs_kid = ''k1'', cs_sk = ''SK''\<rparr>"

definition sampleReceipt :: "string \<Rightarrow> receipt_outcome \<Rightarrow> receipt" where
  "sampleReceipt i oc = \<lparr>receipt_id = i, r_quote_id = None, r_listing_id = None, r_listing_version = None,
     job_ref = None, payer = ''did:p'', payee = ''did:q'', r_amount = \<lparr>amount = ''5'', currency = ''USDC''\<rparr>,
     rail = ''dev'', result_hash = ''h'', latency_ms = 900, outcome = oc, settled_at = ''7'',
     facilitator_sig = ''f'', payee_sig = ''''\<rparr>"

definition sampleRepOps :: "rep_op list" where
  "sampleRepOps = [OpReceipt sampleSigner 8 (sampleReceipt ''r1'' Delivered)]"

definition sampleRep1 :: reputation_st where
  "sampleRep1 = snd (ingestReceipt demo sampleSigner 8 (sampleReceipt ''r1'' Delivered) emptyReputation)"

lemma sampleRep1_run:
  "ingestReceipt demo sampleSigner 8 (sampleReceipt ''r1'' Delivered) emptyReputation = (Inr (), sampleRep1)"
  "\<exists>a. mapGet (accs sampleRep1) ''did:q'' = Some a"
proof -
  have n: "readRat ''0'' = Some 0" "readRat ''5'' = Some 5" by code_simp+
  let ?e = emptyAccumulator and ?r = "sampleReceipt ''r1'' Delivered"
  let ?s = "emptyReputation\<lparr>accs := [(''did:q'', ?e)]\<rparr>"
  have "\<exists>a. ingestReceipt demo sampleSigner 8 ?r emptyReputation = saveAcc demo sampleSigner 8 ''did:q'' a ?s"
    by (simp add: ingestReceipt_def exec_simps Let_def accGetOrCreate_def emptyReputation_def emptyAccumulator_def
        sampleReceipt_def countReceipt_def foldOutcome_def addValue_def plusE_def n)
      (rule exI, rule refl)
  then obtain a where a: "ingestReceipt demo sampleSigner 8 ?r emptyReputation =
      saveAcc demo sampleSigner 8 ''did:q'' a ?s" by blast
  then show "ingestReceipt demo sampleSigner 8 ?r emptyReputation = (Inr (), sampleRep1)"
      "\<exists>a. mapGet (accs sampleRep1) ''did:q'' = Some a"
    using saveAcc_out [of demo sampleSigner 8 "''did:q''" a ?s] by (auto simp: sampleRep1_def)
qed

lemma emptyReputation_ok: "rep_ok emptyReputation"
  by (simp add: rep_ok_def emptyReputation_def)

text \<open>
  The published metrics are consistent after every sequence of receipts, signals, stake
  changes and snapshot reads, failed ones included: the job count is the number of distinct
  receipts folded in, the success, dispute and refund rates are non-negative and together at most
  one, and counterparty diversity lies between zero and one.
\<close>

theorem metrics_consistent:
  assumes "rep_ok st" "getRaw d (runReps E ops st) = Some m"
  shows "\<exists>a. mapGet (accs (runReps E ops st)) d = Some a \<and> m = metricsFromAccumulator a \<and>
    m_jobs m = length (ingestedReceipts a) \<and> distinct (ingestedReceipts a) \<and>
    0 \<le> success_rate m \<and> 0 \<le> dispute_rate m \<and> 0 \<le> refund_rate m \<and>
    success_rate m + dispute_rate m + refund_rate m \<le> 1 \<and>
    0 \<le> counterparty_diversity m \<and> counterparty_diversity m \<le> 1"
proof -
  obtain a where a: "mapGet (accs (runReps E ops st)) d = Some a" "m = metricsFromAccumulator a"
    using assms(2) by (auto simp: getRaw_def)
  have ok: "acc_ok a" using runReps_ok [OF assms(1)] a(1) by (auto simp: rep_ok_def)
  then have "m_jobs m = length (ingestedReceipts a)" "distinct (ingestedReceipts a)"
    by (simp_all add: a(2) acc_ok_def metricsFromAccumulator_def Let_def)
  then show ?thesis using a metrics_rates [OF ok] by blast
qed

lemma metrics_consistent_witness:
  "\<exists>m. getRaw ''did:q'' (runReps demo sampleRepOps emptyReputation) = Some m \<and>
     success_rate m + dispute_rate m + refund_rate m \<le> 1"
proof -
  obtain m where m: "getRaw ''did:q'' (runReps demo sampleRepOps emptyReputation) = Some m"
    using sampleRep1_run by (auto simp: sampleRepOps_def getRaw_def)
  from metrics_consistent [OF emptyReputation_ok m] m show ?thesis by blast
qed

text \<open>
  Claim C34. A receipt counts once: when a receipt has been folded in, folding any receipt with the
  same identifier for the same payee, and with a payer that is not empty, returns normally and leaves
  the whole store as it is.
\<close>

theorem receipt_counts_once:
  assumes "ingestReceipt E cs now r st = (Inr (), st')"
    and "receipt_id r2 = receipt_id r" "payee r2 = payee r" "payer r2 \<noteq> ''''"
  shows "ingestReceipt E cs2 later r2 st' = (Inr (), st')"
proof -
  let ?d = "payee r"
  have d: "?d \<noteq> ''''" "payer r \<noteq> ''''" using assms(1) by (auto simp: ingestReceipt_def Let_def exec_simps split: if_splits)
  obtain a0 st1 where g: "accGetOrCreate ?d st = (Inr a0, st1)" using accGetOrCreate_never by blast
  have g1: "mapGet (accs st1) ?d = Some a0"
    using g by (auto simp: accGetOrCreate_def exec_simps split: option.splits)
  have "\<exists>a. mapGet (accs st') ?d = Some a \<and> List.member (ingestedReceipts a) (receipt_id r)"
  proof (cases "receipt_id r \<in> set (ingestedReceipts a0)")
    case True
    then show ?thesis using assms(1) d g g1 by (simp add: ingestReceipt_def Let_def exec_simps)
  next
    case False
    let ?a1 = "countReceipt a0 r"
    obtain a2 where v: "(if outcome r \<noteq> Refunded then addValue E ?a1 (r_amount r) else ret ?a1) st1 = (Inr a2, st1)"
    proof -
      obtain x where "(if outcome r \<noteq> Refunded then addValue E ?a1 (r_amount r) else ret ?a1) st1 = (x, st1)"
        using maybeAdd_pure [of "outcome r \<noteq> Refunded" E ?a1 "r_amount r" st1] by blast
      then show ?thesis using that assms(1) d g False
        by (cases x) (simp_all add: ingestReceipt_def Let_def exec_simps)
    qed
    have "ingestedReceipts ?a1 = List.insert (receipt_id r) (ingestedReceipts a0)"
      by (simp add: countReceipt_def foldOutcome_def Let_def split: receipt_outcome.split)
    then have in2: "receipt_id r \<in> set (ingestedReceipts a2)"
      using v addValue_ok by (fastforce split: if_splits)
    let ?a3 = "a2\<lparr>firstSeen := Some (earliest E (firstSeen a2) (settled_at r)),
                  lastSettled := Some (latest E (lastSettled a2) (settled_at r))\<rparr>"
    have "ingestReceipt E cs now r st = saveAcc E cs now ?d ?a3 st1"
      using d g v False by (simp add: ingestReceipt_def Let_def exec_simps)
    then have "mapGet (accs st') ?d = Some ?a3"
      using assms(1) saveAcc_out [of E cs now ?d ?a3 st1] by auto
    then show ?thesis using in2 by simp
  qed
  then obtain a where "mapGet (accs st') ?d = Some a" "receipt_id r \<in> set (ingestedReceipts a)" by auto
  then show ?thesis using d assms(2-4)
    by (simp add: ingestReceipt_def Let_def exec_simps accGetOrCreate_def)
qed

lemma receipt_counts_once_witness:
  "ingestReceipt demo sampleSigner 9 (sampleReceipt ''r1'' Disputed) sampleRep1 = (Inr (), sampleRep1)"
  by (rule receipt_counts_once [OF sampleRep1_run(1)]) (simp_all add: sampleReceipt_def)

definition worseThan :: "metrics \<Rightarrow> metrics \<Rightarrow> bool" where
  "worseThan m n \<longleftrightarrow> success_rate m \<le> success_rate n \<and> dispute_rate n \<le> dispute_rate m \<and>
     refund_rate n \<le> refund_rate m \<and> p95 n \<le> p95 m \<and> uptime m = uptime n \<and> m_stake m = m_stake n \<and>
     counterparty_diversity m \<le> counterparty_diversity n \<and>
     spam_flags n \<le> spam_flags m \<and> post_flags n \<le> post_flags m"

lemma latencyAdherence_antimono: "p95 n \<le> p95 m \<Longrightarrow> latencyAdherence m \<le> latencyAdherence n"
proof -
  assume le: "p95 n \<le> p95 m"
  have "(4000 :: rat) / max (p95 m) 1 \<le> 4000 / max (p95 n) 1"
    using le by (intro divide_left_mono) auto
  then show ?thesis unfolding latencyAdherence_def by (rule clamp01_mono)
qed

lemma trustBase_mono: "worseThan m n \<Longrightarrow> trustBase m s \<le> trustBase n s"
  unfolding trustBase_def
proof (rule clamp01_mono)
  assume w: "worseThan m n"
  note c = clamp01_mono [of "success_rate m" "success_rate n"] clamp01_mono [of "dispute_rate n" "dispute_rate m"]
    clamp01_mono [of "refund_rate n" "refund_rate m"] latencyAdherence_antimono [of n m]
  show "(45 / 100) * clamp01 (success_rate m) + (20 / 100) * clamp01 (uptime m)
       + (20 / 100) * latencyAdherence m + (15 / 100) * clamp01 (s / 250)
       - (30 / 100) * clamp01 (dispute_rate m) - (15 / 100) * clamp01 (refund_rate m)
     \<le> (45 / 100) * clamp01 (success_rate n) + (20 / 100) * clamp01 (uptime n)
       + (20 / 100) * latencyAdherence n + (15 / 100) * clamp01 (s / 250)
       - (30 / 100) * clamp01 (dispute_rate n) - (15 / 100) * clamp01 (refund_rate n)"
    using w c by (simp add: worseThan_def)
qed

lemma factors_mono:
  assumes "worseThan m n"
  shows "diversityFactor m \<le> diversityFactor n" "flagFactor m \<le> flagFactor n"
  using assms clamp01_mono [of "counterparty_diversity m" "counterparty_diversity n"]
  by (auto simp: worseThan_def diversityFactor_def flagFactor_def intro: clamp01_mono)

lemma trustProduct_mono:
  assumes "worseThan m n"
  shows "clamp01 (trustBase m s * diversityFactor m * flagFactor m)
    \<le> clamp01 (trustBase n s * diversityFactor n * flagFactor n)"
proof (rule clamp01_mono, rule mult_mono, rule mult_mono)
  show "0 \<le> trustBase n s" "0 \<le> flagFactor m" using clamp01_bounds by (simp_all add: trustBase_def flagFactor_def)
  show "0 \<le> trustBase n s * diversityFactor n"
    using clamp01_bounds diversityFactor_bounds by (simp add: trustBase_def)
qed (use assms trustBase_mono factors_mono diversityFactor_bounds in auto)

lemma trust_mono:
  assumes "worseThan m n" "computeTrust E n = Some t"
  shows "\<exists>u. computeTrust E m = Some u \<and> 0 \<le> u \<and> u \<le> t \<and> t \<le> 1"
  using assms clamp01_bounds trustProduct_mono [OF assms(1)]
  by (auto simp: computeTrust_def worseThan_def split: option.splits)

text \<open>
  Claim C38. Trust is bounded and points the right way: it lies between zero and one, and worse
  metrics never raise it: fewer successes, more disputes or refunds, slower deliveries, less
  diverse counterparties, or more spam and post flags, with the stake and uptime unchanged.
\<close>

theorem trust_bounded_monotone:
  assumes "worseThan m n" "computeTrust E n = Some t"
  shows "\<exists>u. computeTrust E m = Some u \<and> 0 \<le> u \<and> u \<le> t \<and> t \<le> 1"
  by (rule trust_mono [OF assms])

definition sampleMetrics :: "rat \<Rightarrow> metrics" where
  "sampleMetrics flags = emptyMetrics\<lparr>success_rate := 1, counterparty_diversity := 1, spam_flags := flags\<rparr>"

lemma trust_bounded_monotone_witness:
  "\<exists>u t. computeTrust demo (sampleMetrics 3) = Some u \<and> computeTrust demo (sampleMetrics 1) = Some t \<and> u \<le> t"
proof -
  have z: "numberOf demo ''0'' = Some 0" by code_simp
  have "worseThan (sampleMetrics 3) (sampleMetrics 1)" by (simp add: worseThan_def sampleMetrics_def)
  moreover obtain t where t: "computeTrust demo (sampleMetrics 1) = Some t"
    using z by (simp add: computeTrust_def sampleMetrics_def emptyMetrics_def)
  ultimately show ?thesis using trust_bounded_monotone by blast
qed

text \<open>
  Snapshots can be checked by anyone: the snapshot that is issued for a subject carries
  the metrics of its accumulator, the trust recomputed from exactly these metrics by the public
  formula, and a signature that verifies over the snapshot without it under the core key.
\<close>

theorem snapshot_verifiable:
  assumes "jws_lib_ok E (cs_sk cs) pk" "issueSnapshot E cs now d a st = (Inr s, st')"
  shows "sn_metrics s = metricsFromAccumulator a \<and> sn_trust s = computeTrust E (sn_metrics s) \<and>
    mapGet (snaps st') d = Some s \<and>
    verifyDetached E (JObj (stripForSigning (snapshotObj s @ [(''sig'', JStr (sn_sig s))]) [''sig''])) (sn_sig s) pk"
proof -
  have strip2: "stripForSigning (snapshotObj x @ [(''sig'', y)]) [''sig''] = snapshotObj x" for x y
    by (simp add: stripForSigning_def snapshotObj_def)
  have s: "sn_sig s = signDetached E (JObj (snapshotObj s)) (cs_sk cs) (cs_kid cs)"
      "sn_metrics s = metricsFromAccumulator a" "sn_trust s = computeTrust E (metricsFromAccumulator a)"
      "mapGet (snaps st') d = Some s"
    using assms(2) by (auto simp: issueSnapshot_def exec_simps Let_def stripForSigning_def snapshotObj_def)
  then have "verifyDetached E (JObj (snapshotObj s)) (sn_sig s) pk"
    using verify_signDetached [OF assms(1)] by simp
  then show ?thesis using s(2-4) by (simp add: strip2)
qed

lemma snapshot_verifiable_witness:
  "\<exists>s st'. issueSnapshot demo sampleSigner 8 ''did:q'' emptyAccumulator emptyReputation = (Inr s, st') \<and>
     sn_trust s = computeTrust demo (sn_metrics s)"
proof -
  obtain s where "issueSnapshot demo sampleSigner 8 ''did:q'' emptyAccumulator emptyReputation =
      (Inr s, emptyReputation\<lparr>rep_drawn := Suc (rep_drawn emptyReputation),
        snaps := mapSet ''did:q'' s (snaps emptyReputation)\<rparr>)"
    using issueSnapshot_out by blast
  then show ?thesis using snapshot_verifiable [OF demo_jws] by blast
qed

lemma nat_pred_less: "ys \<noteq> [] \<Longrightarrow> m - 1 < int (length ys) \<Longrightarrow> nat (m - 1) < length ys"
  by (cases ys) (auto simp: nat_less_iff)

text \<open>
  No history reads as perfect latency: a subject without a single latency sample gets
  the full latency contribution, so its trust is never below that of a subject with the same
  metrics and any measured latency; the comment on the percentile function says the opposite.
\<close>

theorem no_history_latency_is_perfect:
  assumes "latencySamples a = []" "computeTrust E (metricsFromAccumulator a) = Some t"
    and "acc_samples = a\<lparr>latencySamples := xs\<rparr>" "\<forall>x \<in> set xs. 0 \<le> x"
  shows "latencyAdherence (metricsFromAccumulator a) = 1 \<and>
    (\<exists>u. computeTrust E (metricsFromAccumulator acc_samples) = Some u \<and> u \<le> t)"
proof -
  have nn: "0 \<le> nearestRank ys q" if "\<forall>x \<in> set ys. 0 \<le> x" for ys q
    using that by (auto simp: nearestRank_def Let_def intro!: that [rule_format] nth_mem nat_pred_less)
  have "0 \<le> snd (percentiles xs)"
    using nn [of "sort xs" "95 / 100"] assms(4) by (simp add: percentiles_def Let_def)
  then have "worseThan (metricsFromAccumulator acc_samples) (metricsFromAccumulator a)"
    using assms(1,3) by (simp add: worseThan_def metricsFromAccumulator_def Let_def percentiles_def)
  moreover have "latencyAdherence (metricsFromAccumulator a) = 1"
    using assms(1) by (simp add: latencyAdherence_def metricsFromAccumulator_def Let_def percentiles_def clamp01_def)
  ultimately show ?thesis using trust_mono [OF _ assms(2)] by blast
qed

lemma no_history_latency_is_perfect_witness:
  "latencyAdherence (metricsFromAccumulator emptyAccumulator) = 1"
proof -
  have "numberOf demo ''0'' = Some 0" by code_simp
  then obtain t where "computeTrust demo (metricsFromAccumulator emptyAccumulator) = Some t"
    by (simp add: computeTrust_def metricsFromAccumulator_def emptyAccumulator_def Let_def)
  moreover have "latencySamples emptyAccumulator = []" by (simp add: emptyAccumulator_def)
  ultimately show ?thesis
    using no_history_latency_is_perfect [of emptyAccumulator demo _ _ "[5000]", OF _ _ refl] by auto
qed

end
