(* ===== verification/Core.thy ===== *)
theory Core
  imports Identity Wallet_Spec Ledger Approvals Reputation
begin

text \<open>
  The state the services share, as \<open>src/container.ts\<close> wires it: the registry and the nonce store
  (from \<open>auth\<close>), the wallet, the approval queue, the transparency log and the reputation engine.
  A service that keeps state of its own extends \<open>core\<close>. \<open>core_ok\<close> collects the invariants of
  the parts; a call to a part keeps it when the part keeps its own.
\<close>

record core = auth +
  wal :: wallet_st
  apr :: approvals_st
  led :: ledger_st
  rep :: reputation_st

definition inWallet :: "(wallet_st, 'r) exec \<Rightarrow> ('a core_scheme, 'r) exec" where
  "inWallet m = zoom wal wal_update m"

definition inApprovals :: "(approvals_st, 'r) exec \<Rightarrow> ('a core_scheme, 'r) exec" where
  "inApprovals m = zoom apr apr_update m"

definition inLedger :: "(ledger_st, 'r) exec \<Rightarrow> ('a core_scheme, 'r) exec" where
  "inLedger m = zoom led led_update m"

definition inReputation :: "(reputation_st, 'r) exec \<Rightarrow> ('a core_scheme, 'r) exec" where
  "inReputation m = zoom rep rep_update m"

definition appendLedger :: "ext \<Rightarrow> int \<Rightarrow> string \<Rightarrow> string option \<Rightarrow> json \<Rightarrow> ('a core_scheme, unit) exec" where
  "appendLedger E now k sb p = bindE (inLedger (append_entry E now k sb p)) (\<lambda>_. ret ())"

lemma inWallet_app: "inWallet m w = (case m (wal w) of (r, s) \<Rightarrow> (r, w\<lparr>wal := s\<rparr>))"
  by (simp add: inWallet_def zoom_app)

lemma inApprovals_app: "inApprovals m w = (case m (apr w) of (r, s) \<Rightarrow> (r, w\<lparr>apr := s\<rparr>))"
  by (simp add: inApprovals_def zoom_app)

lemma inLedger_app: "inLedger m w = (case m (led w) of (r, s) \<Rightarrow> (r, w\<lparr>led := s\<rparr>))"
  by (simp add: inLedger_def zoom_app)

lemma inReputation_app: "inReputation m w = (case m (rep w) of (r, s) \<Rightarrow> (r, w\<lparr>rep := s\<rparr>))"
  by (simp add: inReputation_def zoom_app)

lemmas core_app = inWallet_app inApprovals_app inLedger_app inReputation_app

definition core_ok :: "ext \<Rightarrow> 'a core_scheme \<Rightarrow> bool" where
  "core_ok E w \<longleftrightarrow> wallet_ok E (wal w) \<and> approvals_ok E (apr w) \<and> verifyChain E (led w) \<and>
     rep_ok (rep w) \<and> distinctKeys (non w)"

lemma core_okD:
  assumes "core_ok E w"
  shows "wallet_ok E (wal w)" "approvals_ok E (apr w)" "verifyChain E (led w)" "rep_ok (rep w)"
    "distinctKeys (non w)"
  using assms by (simp_all add: core_ok_def)

lemma keeps_inWallet [keeps_rules]: "keeps (wallet_ok E) m \<Longrightarrow> keeps (core_ok E) (inWallet m)"
  unfolding inWallet_def by (rule keeps_zoom) (auto simp: core_ok_def)

lemma keeps_inApprovals [keeps_rules]: "keeps (approvals_ok E) m \<Longrightarrow> keeps (core_ok E) (inApprovals m)"
  unfolding inApprovals_def by (rule keeps_zoom) (auto simp: core_ok_def)

lemma keeps_inReputation [keeps_rules]: "keeps rep_ok m \<Longrightarrow> keeps (core_ok E) (inReputation m)"
  unfolding inReputation_def by (rule keeps_zoom) (auto simp: core_ok_def)

lemma keeps_append_entry: "keeps (verifyChain E) (append_entry E now k sb p)"
  by (rule keepsI) (rule append_entry_chain [OF _ prod.collapse [symmetric]])

lemma keeps_appendLedger [keeps_rules]: "keeps (core_ok E) (appendLedger E now k sb p)"
  unfolding appendLedger_def inLedger_def
  by (intro keeps_rules keeps_zoom [OF keeps_append_entry]) (auto simp: core_ok_def)

lemma keeps_verifySignedObject: "keeps distinctKeys (verifySignedObject E now skew rs obj opts)"
proof (rule keepsI)
  fix seen :: nonce_st
  assume d: "distinctKeys seen"
  show "distinctKeys (snd (verifySignedObject E now skew rs obj opts seen))"
    using verify_store [OF prod.collapse [symmetric]] checkAndConsume_distinct [OF d] d by metis
qed

lemma keeps_verifyAs [keeps_rules]: "keeps (core_ok E) (verifyAs E now skew obj opts)"
  using keepsD [OF keeps_verifySignedObject]
  by (intro keepsI) (auto simp: verifyAs_def zoom_app core_ok_def split: prod.split, metis snd_conv)

lemma appendLedger_out:
  obtains e where "appendLedger E now k sb p w = (Inr (), w\<lparr>led := led w @ [e]\<rparr>)" "kind e = k" "subj e = sb"
    "payload e = p"
proof (cases rule: append_entry_out [of E now k sb p "led w"])
  case (1 e)
  then show ?thesis using that [of e] by (simp add: appendLedger_def exec_simps core_app)
qed

lemma verifyAs_out:
  obtains r n where "verifyAs E now skew obj opts w = (r, w\<lparr>non := n\<rparr>)"
  by (cases "verifySignedObject E now skew (resolverOf E (idn w)) obj opts (non w)")
    (auto simp: verifyAs_def zoom_app)

definition emptyCore :: core where
  "emptyCore = \<lparr>idn = \<lparr>passports = [], delegations = [], revokedDids = [], keystore = []\<rparr>, non = [],
     wal = emptyWallet, apr = emptyApprovals, led = [], rep = emptyReputation\<rparr>"

end
