(* ===== verification/Idempotency.thy ===== *)
theory Idempotency
  imports Domain
begin

text \<open>
  The single-flight idempotency store,
  \<open>src/infrastructure/persistence/memory/idempotency-store.ts\<close>, behind \<open>withIdempotency\<close> of
  \<open>src/shared/http/idempotency.ts\<close>. \<open>execute\<close> is one call that is not overtaken by another.
  Overlapping calls are an event system: a call arrives (it is served from the cache, joins the
  run in flight, or starts one), and a run finishes, which serves every call that waits for it.
\<close>

section \<open>A call on its own\<close>

definition composite :: "string \<Rightarrow> string \<Rightarrow> string" where
  "composite scope key = scope @ ''::'' @ key"

text \<open>\<open>get\<close> and \<open>upd\<close> reach the cache \<open>done\<close> in the caller's state.\<close>

definition execute ::
    "('s \<Rightarrow> (string, 'r) jsmap) \<Rightarrow> (((string, 'r) jsmap \<Rightarrow> (string, 'r) jsmap) \<Rightarrow> 's \<Rightarrow> 's) \<Rightarrow>
     string \<Rightarrow> string \<Rightarrow> ('s, 'r) exec \<Rightarrow> ('s, 'r) exec" where
  "execute get upd scope key fn =
     (let i = composite scope key in
      bindE (gets (\<lambda>w. mapGet (get w) i)) (\<lambda>cached.
      case cached of
        Some r \<Rightarrow> ret r
      | None \<Rightarrow> bindE fn (\<lambda>r. bindE (modify (upd (mapSet i r))) (\<lambda>_. ret r))))"

lemma execute_hit: "mapGet (get w) (composite scope key) = Some r \<Longrightarrow> execute get upd scope key fn w = (Inr r, w)"
  by (simp add: execute_def exec_simps Let_def)

lemma execute_miss:
  "mapGet (get w) (composite scope key) = None \<Longrightarrow> execute get upd scope key fn w =
     (case fn w of (Inl e, w') \<Rightarrow> (Inl e, w') | (Inr r, w') \<Rightarrow> (Inr r, upd (mapSet (composite scope key) r) w'))"
  by (simp add: execute_def exec_simps Let_def split: prod.split sum.split)

lemma keeps_execute:
  assumes "keeps P fn" "\<And>w f. P w \<Longrightarrow> P (upd f w)"
  shows "keeps P (execute get upd scope key fn)"
  unfolding execute_def Let_def by (intro keeps_rules assms)

section \<open>Overlapping calls\<close>

text \<open>
  \<open>settled\<close> is the map \<open>done\<close>; \<open>waiting\<close> the map \<open>inFlight\<close>, with the callers that await each
  run. \<open>delivered\<close> records what each caller got, \<open>started\<close> and \<open>failed\<close> the runs of \<open>fn\<close>.
\<close>

record 'r idem_st =
  settled :: "(string, 'r) jsmap"
  waiting :: "(string, nat list) jsmap"
  delivered :: "(string \<times> nat \<times> (app_error + 'r)) list"
  started :: "string list"
  failed :: "string list"

definition arrive :: "string \<Rightarrow> nat \<Rightarrow> 'r idem_st \<Rightarrow> 'r idem_st" where
  "arrive k c st =
     (case mapGet (settled st) k of
        Some r \<Rightarrow> st\<lparr>delivered := delivered st @ [(k, c, Inr r)]\<rparr>
      | None \<Rightarrow>
          (case mapGet (waiting st) k of
             Some cs \<Rightarrow> st\<lparr>waiting := mapSet k (cs @ [c]) (waiting st)\<rparr>
           | None \<Rightarrow> st\<lparr>waiting := mapSet k [c] (waiting st), started := started st @ [k]\<rparr>))"

definition finish :: "string \<Rightarrow> app_error + 'r \<Rightarrow> 'r idem_st \<Rightarrow> 'r idem_st" where
  "finish k res st =
     (case mapGet (waiting st) k of
        None \<Rightarrow> st
      | Some cs \<Rightarrow>
          (let st1 = (case res of Inr r \<Rightarrow> st\<lparr>settled := mapSet k r (settled st)\<rparr>
                      | Inl e \<Rightarrow> st\<lparr>failed := failed st @ [k]\<rparr>)
           in st1\<lparr>waiting := AList.delete k (waiting st1),
                  delivered := delivered st1 @ map (\<lambda>c. (k, c, res)) cs\<rparr>))"

datatype 'r idem_event = Arrive string nat | Finish string "app_error + 'r"

fun idemStep :: "'r idem_event \<Rightarrow> 'r idem_st \<Rightarrow> 'r idem_st" where
  "idemStep (Arrive k c) st = arrive k c st"
| "idemStep (Finish k res) st = finish k res st"

fun idemRun :: "'r idem_event list \<Rightarrow> 'r idem_st \<Rightarrow> 'r idem_st" where
  "idemRun [] st = st"
| "idemRun (e # es) st = idemRun es (idemStep e st)"

definition idemEmpty :: "'r idem_st" where
  "idemEmpty = \<lparr>settled = [], waiting = [], delivered = [], started = [], failed = []\<rparr>"

definition busy :: "'r idem_st \<Rightarrow> string \<Rightarrow> bool" where
  "busy st k \<longleftrightarrow> mapGet (settled st) k \<noteq> None \<or> mapGet (waiting st) k \<noteq> None"

definition idem_ok :: "'r idem_st \<Rightarrow> bool" where
  "idem_ok st \<longleftrightarrow>
     (\<forall>k c r. (k, c, Inr r) \<in> set (delivered st) \<longrightarrow> mapGet (settled st) k = Some r) \<and>
     (\<forall>k. mapGet (settled st) k = None \<or> mapGet (waiting st) k = None) \<and>
     (\<forall>k. count_list (started st) k = count_list (failed st) k + (if busy st k then 1 else 0))"

lemma idem_okD:
  assumes "idem_ok st"
  shows "(k, c, Inr r) \<in> set (delivered st) \<Longrightarrow> mapGet (settled st) k = Some r"
    "mapGet (settled st) k = None \<or> mapGet (waiting st) k = None"
    "count_list (started st) k = count_list (failed st) k + (if busy st k then 1 else 0)"
  using assms by (auto simp: idem_ok_def)

lemma idem_okI:
  assumes "\<And>k c r. (k, c, Inr r) \<in> set (delivered st) \<Longrightarrow> mapGet (settled st) k = Some r"
    and "\<And>k. mapGet (settled st) k = None \<or> mapGet (waiting st) k = None"
    and "\<And>k. count_list (started st) k = count_list (failed st) k + (if busy st k then 1 else 0)"
  shows "idem_ok st"
  using assms by (simp add: idem_ok_def)

lemma mapGet_delete: "mapGet (AList.delete k m) k' = (if k' = k then None else mapGet m k')"
  by (simp add: delete_conv')

lemma idem_ok_arrive:
  assumes "idem_ok st"
  shows "idem_ok (arrive k c st)"
proof (cases "mapGet (settled st) k")
  case (Some r)
  show ?thesis by (rule idem_okI) (use idem_okD [OF assms] Some in \<open>auto simp: arrive_def busy_def\<close>)
next
  case None
  show ?thesis
  proof (cases "mapGet (waiting st) k")
    case (Some cs)
    show ?thesis
      by (rule idem_okI) (use idem_okD [OF assms] None Some in \<open>auto simp: arrive_def busy_def\<close>)
  next
    case unseen: None
    show ?thesis
    proof (rule idem_okI)
      fix j
      show "count_list (started (arrive k c st)) j =
          count_list (failed (arrive k c st)) j + (if busy (arrive k c st) j then 1 else 0)"
        using idem_okD(3) [OF assms, of j] None unseen by (cases "j = k") (auto simp: arrive_def busy_def)
    qed (use idem_okD [OF assms] None unseen in \<open>auto simp: arrive_def\<close>)
  qed
qed

lemma idem_ok_finish:
  assumes "idem_ok st"
  shows "idem_ok (finish k res st)"
proof (cases "mapGet (waiting st) k")
  case None
  then show ?thesis using assms by (simp add: finish_def)
next
  case (Some cs)
  have s: "mapGet (settled st) k = None" using idem_okD(2) [OF assms, of k] Some by auto
  show ?thesis
  proof (rule idem_okI)
    fix j
    show "count_list (started (finish k res st)) j =
        count_list (failed (finish k res st)) j + (if busy (finish k res st) j then 1 else 0)"
      using idem_okD(3) [OF assms, of j] Some s
      by (cases "j = k"; cases res) (auto simp: finish_def busy_def mapGet_delete)
  next
    fix j
    show "mapGet (settled (finish k res st)) j = None \<or> mapGet (waiting (finish k res st)) j = None"
      using idem_okD(2) [OF assms, of j] Some
      by (cases "j = k"; cases res) (auto simp: finish_def mapGet_delete)
  next
    fix j c r
    assume "(j, c, Inr r) \<in> set (delivered (finish k res st))"
    then show "mapGet (settled (finish k res st)) j = Some r"
      using idem_okD(1) [OF assms, of j c r] Some s by (cases res) (auto simp: finish_def)
  qed
qed

lemma idem_ok_run: "idem_ok st \<Longrightarrow> idem_ok (idemRun es st)"
proof (induction es arbitrary: st)
  case (Cons e es)
  then show ?case by (cases e) (simp_all add: idem_ok_arrive idem_ok_finish)
qed simp

lemma idem_ok_empty: "idem_ok idemEmpty"
  by (simp add: idem_ok_def idemEmpty_def busy_def)

text \<open>A call that nobody overtakes behaves as \<open>execute\<close>.\<close>

lemma execute_refines:
  assumes "mapGet (waiting st) k = None" "k = composite scope key"
    and "execute settled settled_update scope key fn st = (res, st')" "\<And>x. fn x = (out, x)"
  shows "settled (idemRun [Arrive k c, Finish k out] st) = settled st'"
    "(k, c, res) \<in> set (delivered (idemRun [Arrive k c, Finish k out] st))"
  using assms by (auto simp: execute_def exec_simps Let_def arrive_def finish_def split: option.splits sum.splits)

section \<open>Properties\<close>

text \<open>
  Claim C24. The side effect behind an idempotency key runs at most once to success: whatever calls
  overlap, the runs started for a key are the failed ones plus at most one more, which exists
  exactly when the key is settled or in flight; once the key is settled every call that was
  answered normally got the one settled result, and a further call gets that result without a run.
\<close>

theorem single_flight:
  fixes es :: "'r idem_event list"
  defines "st \<equiv> idemRun es idemEmpty"
  shows "count_list (started st) k = count_list (failed st) k + (if busy st k then 1 else 0) \<and>
    (\<forall>c r. (k, c, Inr r) \<in> set (delivered st) \<longrightarrow> mapGet (settled st) k = Some r) \<and>
    (\<forall>c r. mapGet (settled st) k = Some r \<longrightarrow>
       started (arrive k c st) = started st \<and> (k, c, Inr r) \<in> set (delivered (arrive k c st)))"
proof -
  have "idem_ok st" unfolding st_def by (rule idem_ok_run [OF idem_ok_empty])
  note * = idem_okD [OF this]
  show ?thesis using *(1) *(3) by (auto simp: arrive_def)
qed

definition sampleIdem :: "nat idem_event list" where
  "sampleIdem = [Arrive ''pay::k'' 1, Arrive ''pay::k'' 2, Finish ''pay::k'' (Inl RailError),
     Arrive ''pay::k'' 3, Arrive ''pay::k'' 4, Finish ''pay::k'' (Inr 7), Arrive ''pay::k'' 5]"

lemma single_flight_witness:
  "mapGet (settled (idemRun sampleIdem idemEmpty)) ''pay::k'' = Some 7 \<and>
   count_list (started (idemRun sampleIdem idemEmpty)) ''pay::k'' = 2 \<and>
   (''pay::k'', 4, Inr 7) \<in> set (delivered (idemRun sampleIdem idemEmpty))"
proof -
  have s: "mapGet (settled (idemRun sampleIdem idemEmpty)) ''pay::k'' = Some 7"
    "count_list (failed (idemRun sampleIdem idemEmpty)) ''pay::k'' = 1"
    "(''pay::k'', 4, Inr 7) \<in> set (delivered (idemRun sampleIdem idemEmpty))"
    by (simp_all add: sampleIdem_def arrive_def finish_def idemEmpty_def)
  have "busy (idemRun sampleIdem idemEmpty) ''pay::k''" using s(1) by (simp add: busy_def)
  moreover note conjunct1 [OF single_flight [of sampleIdem "''pay::k''"]]
  ultimately have "count_list (started (idemRun sampleIdem idemEmpty)) ''pay::k'' = 2" using s(2) by simp
  then show ?thesis using s by blast
qed

end
