(* ===== verification/Signer.thy ===== *)
theory Signer
  imports Core
begin

text \<open>
  The policy-enforcing signer, \<open>src/core/policy/signer.ts\<close>: it resolves the delegation, the
  usage and the key itself, re-runs the policy, redeems a supervisor's approval where the policy
  asks for one, and only then signs. A cap that it checks against usage holds for the recorded
  spends over time.
\<close>

datatype sign_result = Signed string | Refused policy_decision

definition usageTotals :: "spend_usage \<Rightarrow> usage_totals" where
  "usageTotals u = \<lparr>u_daily = dailySpent u, u_total = totalSpent u\<rparr>"

text \<open>The signing step: the first key of the passport, looked up in the keystore.\<close>

definition signWithKey :: "ext \<Rightarrow> identity_st \<Rightarrow> string \<Rightarrow> json \<Rightarrow> sign_result" where
  "signWithKey E st d p =
     (case mapGet (passports st) d of
        None \<Rightarrow> Refused (Deny [''no passport''])
      | Some pass \<Rightarrow>
          (case keys pass of
             [] \<Rightarrow> Refused (Deny [''no signing key''])
           | firstKey # _ \<Rightarrow>
               (let kid = d @ key_id firstKey in
                case mapGet (keystore st) kid of
                  None \<Rightarrow> Refused (Deny [''no signing key''])
                | Some sk \<Rightarrow> Signed (signDetached E p sk kid))))"

definition signWithinPolicy ::
    "ext \<Rightarrow> int \<Rightarrow> string \<Rightarrow> json \<Rightarrow> policy_action \<Rightarrow> string option \<Rightarrow> ('a core_scheme, sign_result) exec" where
  "signWithinPolicy E now d p act approval =
     bindE (gets (\<lambda>w. activeDelegation E now d (idn w))) (\<lambda>del.
     case del of
       None \<Rightarrow> ret (Refused (Deny [''no active delegation'']))
     | Some dl \<Rightarrow>
         bindE (gets (\<lambda>w. List.member (revokedDids (idn w)) d)) (\<lambda>killed.
         if killed then ret (Refused (Deny [''revoked / kill-switch'']))
         else if delegationIsExpired E dl (isoOf E now) then ret (Refused (Deny [''delegation expired'']))
         else
           bindE (inWallet (usage E now d)) (\<lambda>u.
           bindE (evaluate E dl act (usageTotals u)) (\<lambda>decision.
           case decision of
             Deny rs \<Rightarrow> ret (Refused decision)
           | Allow \<Rightarrow> gets (\<lambda>w. signWithKey E (idn w) d p)
           | NeedsApproval threshold rs \<Rightarrow>
               (case approval of
                  None \<Rightarrow> ret (Refused decision)
                | Some i \<Rightarrow>
                    bindE (inApprovals (consume E i d act)) (\<lambda>redeemed.
                    if ruled redeemed \<noteq> Some RApproved
                    then ret (Refused (Deny [''approval '' @ i @ '' was '' @
                           (case ruled redeemed of Some RDenied \<Rightarrow> ''denied'' | _ \<Rightarrow> ''not approved'')]))
                    else gets (\<lambda>w. signWithKey E (idn w) d p)))))))"

lemma signWithKey_Signed:
  "signWithKey E st d p = Signed sg \<Longrightarrow> \<exists>pass k ks sk. mapGet (passports st) d = Some pass \<and> keys pass = k # ks \<and>
     mapGet (keystore st) (d @ key_id k) = Some sk \<and> sg = signDetached E p sk (d @ key_id k)"
  by (auto simp: signWithKey_def Let_def split: option.splits list.splits)

lemma usageLoop_keeps: "keeps P (usageLoop E c b rs tot day)"
  by (induction E c b rs tot day rule: usageLoop.induct) (auto intro!: keeps_rules simp del: ret_app)

lemma keeps_usage [keeps_rules]: "keeps P (usage E now d)"
  unfolding usage_def
  by (intro keeps_bindE keeps_gets) (auto split: list.split intro!: keeps_rules usageLoop_keeps)

lemma keeps_signWithinPolicy [keeps_rules]: "keeps (core_ok E) (signWithinPolicy E now d p act approval)"
  unfolding signWithinPolicy_def
  by (intro keeps_bindE keeps_gets keeps_case_option keeps_if keeps_ret keeps_inWallet keeps_usage keeps_evaluate)
    (auto split: policy_decision.split option.split intro!: keeps_rules)

text \<open>
  What a signature presupposes: the run is taken apart into the delegation, the decision and,
  where the policy asked for one, the redeemed approval.
\<close>

definition approvalUsed ::
    "ext \<Rightarrow> string \<Rightarrow> policy_action \<Rightarrow> string option \<Rightarrow> approvals_st \<Rightarrow> approvals_st \<Rightarrow> bool" where
  "approvalUsed E d act approval a a' \<longleftrightarrow>
     (\<exists>i rec0. approval = Some i \<and> mapGet (byId a) i = Some rec0 \<and> status rec0 = Approved \<and>
        ap_agent rec0 = d \<and> redeemed a' i)"

lemma usage_state: "usage E now d s = (r, s') \<Longrightarrow> s' = s"
  using keepsD [OF keeps_usage [of "\<lambda>x. x = s" E now d], of s] by simp

lemma signed_cases:
  assumes ok: "approvals_ok E (apr w)" and r: "signWithinPolicy E now d p act approval w = (Inr (Signed sg), w')"
  obtains dl u decision where "activeDelegation E now d (idn w) = Some dl"
    "\<not> List.member (revokedDids (idn w)) d" "\<not> delegationIsExpired E dl (isoOf E now)"
    "usage E now d (wal w) = (Inr u, wal w)"
    "evaluate E dl act (usageTotals u) w = (Inr decision, w)"
    "decision = Allow \<and> w' = w \<or> (\<exists>t rs. decision = NeedsApproval t rs) \<and>
       approvalUsed E d act approval (apr w) (apr w') \<and> w' = w\<lparr>apr := apr w'\<rparr>"
    "signWithKey E (idn w) d p = Signed sg"
proof -
  obtain dl where dl: "activeDelegation E now d (idn w) = Some dl"
    using r by (auto simp: signWithinPolicy_def exec_simps split: option.splits)
  have live: "\<not> List.member (revokedDids (idn w)) d" "\<not> delegationIsExpired E dl (isoOf E now)"
    using dl by (auto simp: activeDelegation_def split: if_splits option.splits)
  obtain x where x: "usage E now d (wal w) = (x, wal w)" using usage_state by (metis prod.collapse)
  obtain u where u: "x = Inr u"
    using r dl live x by (cases x) (auto simp: signWithinPolicy_def exec_simps core_app)
  obtain y where y: "evaluate E dl act (usageTotals u) w = (y, w)"
    using evaluate_state by (metis prod.collapse)
  obtain decision where dec: "y = Inr decision"
    using r dl live x u y by (cases y) (auto simp: signWithinPolicy_def exec_simps core_app)
  show ?thesis
  proof (cases decision)
    case Allow
    then show ?thesis using that [OF dl live _ _ _ ] r dl live x u y dec
      by (auto simp: signWithinPolicy_def exec_simps core_app)
  next
    case (Deny rs)
    then show ?thesis using r dl live x u y dec by (auto simp: signWithinPolicy_def exec_simps core_app)
  next
    case (NeedsApproval t rs)
    then obtain i where i: "approval = Some i"
      using r dl live x u y dec by (auto simp: signWithinPolicy_def exec_simps core_app split: option.splits)
    show ?thesis
    proof (cases rule: consume_cases [of E i d act "apr w"])
      case (fail e)
      then show ?thesis using r dl live x u y dec NeedsApproval i
        by (auto simp: signWithinPolicy_def exec_simps core_app)
    next
      case (redeemed a)
      note two = redeemed
      then have run: "ruled a = Some RApproved" "signWithKey E (idn w) d p = Signed sg"
          "w' = w\<lparr>apr := (apr w)\<lparr>byId := mapSet (approvalId a) (a\<lparr>status := Consumed\<rparr>) (byId (apr w))\<rparr>\<rparr>"
        using r dl live x u y dec NeedsApproval i
        by (auto simp: signWithinPolicy_def exec_simps core_app split: if_splits)
      have "status a = Approved" using run(1) two(2) approvals_okD(2) [OF ok two(1)] by (auto simp: rulingOk_def)
      then have "approvalUsed E d act approval (apr w) (apr w')"
        using i two(1,3) run(3) approvals_okD(1) [OF ok two(1)]
        by (auto simp: approvalUsed_def redeemed_def)
      then show ?thesis using that [OF dl live] x u y dec NeedsApproval run by auto
    qed
  qed
qed

text \<open>The usage totals are numbers when the accumulator row is.\<close>

definition spendRowsOk :: "ext \<Rightarrow> wallet_st \<Rightarrow> bool" where
  "spendRowsOk E st \<longleftrightarrow> (\<forall>k r. mapGet (spends st) k = Some r \<longrightarrow>
     bigVal E (s_total r) \<noteq> None \<and> bigVal E (dailyAmount r) \<noteq> None)"

lemma usage_numbers:
  assumes E: "big_exact E" and ok: "spendRowsOk E st" and u: "usage E now d st = (Inr u, st')"
  shows "usageNumbers E (usageTotals u)"
proof (cases "mapGet (spends st) (walletKey d ''USDC'')")
  case None
  then show ?thesis using u big_exact_zero [OF E]
    by (auto simp: usage_def allSpendRows_def exec_simps usageNumbers_def usageTotals_def mZero_def)
next
  case (Some r)
  then obtain x y where n: "bigVal E (s_total r) = Some x" "bigVal E (dailyAmount r) = Some y"
    using ok unfolding spendRowsOk_def by (meson not_Some_eq)
  note z = big_exact_zero [OF E]
  show ?thesis using u Some n z big_exact_plus [OF E z n(1)] big_exact_plus [OF E z n(2)]
    by (auto simp: usage_def allSpendRows_def exec_simps usageNumbers_def usageTotals_def plusE_ok
        split: if_splits)
qed

section \<open>Properties\<close>

text \<open>
  Claim C1. The hard stop: whenever the signer signs a spend or a tip, the agent had an active
  delegation that is neither revoked nor expired, the counterparty and the category are allowed by
  it, the amount is within its per-transaction cap and, added to the recorded usage, within its
  daily and lifetime caps; and if the amount is over the human-approval threshold, an approval that
  a supervisor granted to this agent was presented and is consumed by this very call, which changes
  nothing else. The signature is made over the given payload with the agent's own key: the private
  key that the keystore holds under the first key id of the passport registered for its DID.
\<close>

theorem signer_hard_stop:
  assumes "core_ok E w" "spendRowsOk E (wal w)"
    and "signWithinPolicy E now d p act approval w = (Inr (Signed sg), w')"
    and "a_kind act = KSpend \<or> a_kind act = KTip" "a_amount act = Some a" "bigVal E (amount a) = Some v"
    and "\<And>dl. mapGet (delegations (idn w)) d = Some dl \<Longrightarrow> policyNumbers E (policy dl)"
  shows "\<exists>dl u pass k ks sk. activeDelegation E now d (idn w) = Some dl \<and> \<not> List.member (revokedDids (idn w)) d \<and>
    \<not> delegationIsExpired E dl (isoOf E now) \<and> usage E now d (wal w) = (Inr u, wal w) \<and>
    gateOpen (policy dl) act \<and> categoryOpen (policy dl) act \<and>
    withinCaps E (policy dl) (usageTotals u) a \<and>
    (overThreshold E (policy dl) a \<longrightarrow> approvalUsed E d act approval (apr w) (apr w')) \<and>
    w' = w\<lparr>apr := apr w'\<rparr> \<and>
    mapGet (passports (idn w)) d = Some pass \<and> keys pass = k # ks \<and>
    mapGet (keystore (idn w)) (d @ key_id k) = Some sk \<and> sg = signDetached E p sk (d @ key_id k)"
proof (rule signed_cases [OF core_okD(2) [OF assms(1)] assms(3)])
  fix dl u decision
  assume dl: "activeDelegation E now d (idn w) = Some dl" and live: "\<not> List.member (revokedDids (idn w)) d"
    "\<not> delegationIsExpired E dl (isoOf E now)" and u: "usage E now d (wal w) = (Inr u, wal w)"
    and ev: "evaluate E dl act (usageTotals u) w = (Inr decision, w)"
    and dec: "decision = Allow \<and> w' = w \<or> (\<exists>t rs. decision = NeedsApproval t rs) \<and>
       approvalUsed E d act approval (apr w) (apr w') \<and> w' = w\<lparr>apr := apr w'\<rparr>"
    and sig: "signWithKey E (idn w) d p = Signed sg"
  note E = wallet_okD(1) [OF core_okD(1) [OF assms(1)]]
  have "mapGet (delegations (idn w)) d = Some dl"
    using dl by (auto simp: activeDelegation_def split: if_splits option.splits)
  then have pn: "policyNumbers E (policy dl)" by (rule assms(7))
  have un: "usageNumbers E (usageTotals u)" using usage_numbers [OF E assms(2) u] .
  have gate: "gateOpen (policy dl) act" using evaluate_gate [of dl act E "usageTotals u" w] ev dec by fastforce
  obtain dd where "evaluateSpend E dl act (usageTotals u) w = (Inr dd, w)"
      "verdictOf dd = (if categoryOpen (policy dl) act \<and> withinCaps E (policy dl) (usageTotals u) a
      then (if overThreshold E (policy dl) a then VApproval else VAllow) else VDeny)"
    using evaluateSpend_verdict [OF E pn un assms(5,6), of w] by (elim exE conjE) presburger
  then have ver: "verdictOf decision = (if categoryOpen (policy dl) act \<and> withinCaps E (policy dl) (usageTotals u) a
      then (if overThreshold E (policy dl) a then VApproval else VAllow) else VDeny)"
    using ev evaluate_open(1) [OF gate assms(4)] by (metis prod.inject sum.inject(2))
  obtain pass k ks sk where key: "mapGet (passports (idn w)) d = Some pass" "keys pass = k # ks"
      "mapGet (keystore (idn w)) (d @ key_id k) = Some sk" "sg = signDetached E p sk (d @ key_id k)"
    using signWithKey_Signed [OF sig] by blast
  have rest: "w' = w\<lparr>apr := apr w'\<rparr>" using dec by auto
  from dec have "verdictOf decision \<noteq> VDeny" by auto
  then have in_caps: "categoryOpen (policy dl) act" "withinCaps E (policy dl) (usageTotals u) a"
    and over: "overThreshold E (policy dl) a \<Longrightarrow> decision \<noteq> Allow"
    using ver by (auto split: if_splits)
  show ?thesis using dl live u gate in_caps over dec rest key by blast
qed

definition sampleCore :: core where
  "sampleCore = emptyCore\<lparr>idn := \<lparr>passports = [(''did:a'', \<lparr>did = ''did:a'', controller = ''did:p'',
       keys = [\<lparr>key_id = ''#1'', key_pub = ''K''\<rparr>], services = [], delegation_ref = None,
       kyc_level = Unverified, pass_sig = ''s''\<rparr>)],
     delegations = [(''did:a'', sampleDelegation)], revokedDids = [], keystore = [(''did:a#1'', ''K'')]\<rparr>,
     apr := resolvedApprovals\<rparr>"

lemma sampleCore_ok: "core_ok demo sampleCore" "spendRowsOk demo (wal sampleCore)"
    "\<And>dl. mapGet (delegations (idn sampleCore)) ''did:a'' = Some dl \<Longrightarrow> policyNumbers demo (policy dl)"
  using wallet_ok_empty [OF demo_lib_ok] resolvedApprovals_ok emptyReputation_ok sample_policyNumbers(1)
  by (auto simp: core_ok_def sampleCore_def emptyCore_def spendRowsOk_def emptyWallet_def verifyChain_def)

lemma signer_hard_stop_witness:
  "\<exists>sg w'. signWithinPolicy demo 5 ''did:a'' JNull (sampleSpend ''60'') (Some ''apr_0'') sampleCore =
      (Inr (Signed sg), w') \<and> sg = signDetached demo JNull ''K'' ''did:a#1'' \<and>
     approvalUsed demo ''did:a'' (sampleSpend ''60'') (Some ''apr_0'') (apr sampleCore) (apr w')"
proof -
  let ?m = "signWithinPolicy demo 5 ''did:a'' JNull (sampleSpend ''60'') (Some ''apr_0'') sampleCore"
  have "(case fst ?m of Inr (Signed sg) \<Rightarrow> True | _ \<Rightarrow> False)" by code_simp
  then obtain sg w' where r: "?m = (Inr (Signed sg), w')"
    by (cases ?m) (auto split: sum.splits sign_result.splits)
  have a: "a_kind (sampleSpend ''60'') = KSpend \<or> a_kind (sampleSpend ''60'') = KTip"
      "a_amount (sampleSpend ''60'') = Some \<lparr>amount = ''60'', currency = ''USDC''\<rparr>"
      "bigVal demo (amount \<lparr>amount = ''60'', currency = ''USDC''\<rparr>) = Some 60"
    using sample_numbers by (simp_all add: sampleSpend_def)
  have over: "overThreshold demo (policy sampleDelegation) \<lparr>amount = ''60'', currency = ''USDC''\<rparr>"
    by code_simp
  have del: "dl = sampleDelegation" if "activeDelegation demo 5 ''did:a'' (idn sampleCore) = Some dl" for dl
    using that by (auto simp: activeDelegation_def sampleCore_def split: if_splits)
  have own: "sg' = signDetached demo JNull ''K'' ''did:a#1''"
    if "mapGet (passports (idn sampleCore)) ''did:a'' = Some pass" "keys pass = k # ks"
      "mapGet (keystore (idn sampleCore)) (''did:a'' @ key_id k) = Some s" "sg' = signDetached demo JNull s (''did:a'' @ key_id k)"
    for pass k ks s sg'
    using that by (auto simp: sampleCore_def)
  from signer_hard_stop [OF sampleCore_ok(1,2) r a sampleCore_ok(3)]
  obtain dl pass k ks s where h: "activeDelegation demo 5 ''did:a'' (idn sampleCore) = Some dl"
    "overThreshold demo (policy dl) \<lparr>amount = ''60'', currency = ''USDC''\<rparr> \<longrightarrow>
       approvalUsed demo ''did:a'' (sampleSpend ''60'') (Some ''apr_0'') (apr sampleCore) (apr w')"
    "mapGet (passports (idn sampleCore)) ''did:a'' = Some pass" "keys pass = k # ks"
    "mapGet (keystore (idn sampleCore)) (''did:a'' @ key_id k) = Some s" "sg = signDetached demo JNull s (''did:a'' @ key_id k)"
    by blast
  have "sg = signDetached demo JNull ''K'' ''did:a#1''" by (rule own [OF h(3-6)])
  moreover have "approvalUsed demo ''did:a'' (sampleSpend ''60'') (Some ''apr_0'') (apr sampleCore) (apr w')"
    using h(2) over del [OF h(1)] by simp
  ultimately show ?thesis using r by auto
qed

text \<open>
  Claim C5. Spending caps hold over time, not only per transaction: when the recorded USDC spends
  of an agent are a given history and the signer signs another USDC spend, then the whole history
  with the new spend stays within the lifetime cap, and the spends of the current UTC day with the
  new one stay within the daily cap; recording it succeeds and re-establishes the history, so the
  bound carries on from spend to spend.
\<close>

theorem caps_hold_over_time:
  assumes "core_ok E w" "spendRowsOk E (wal w)"
    and "signWithinPolicy E now d p act approval w = (Inr (Signed sg), w')"
    and "a_kind act = KSpend" "a_amount act = Some (usdc am)" "bigVal E am = Some v" "0 < v"
    and "\<And>dl. mapGet (delegations (idn w)) d = Some dl \<Longrightarrow> policyNumbers E (policy dl)"
    and "spendRowFits E d h (wal w)" "contiguous (buckets E (h @ [(now, am)]))" "utcDayBucket E now \<noteq> ''''"
  shows "\<exists>dl st'. mapGet (delegations (idn w)) d = Some dl \<and>
    totalSum E (h @ [(now, am)]) \<le> bv E (amount (total_max (spend (policy dl)))) \<and>
    daySum E (utcDayBucket E now) (h @ [(now, am)]) \<le> bv E (amount (daily_max (spend (policy dl)))) \<and>
    recordSpend E now d (usdc am) (wal w') = (Inr (), st') \<and> spendRowFits E d (h @ [(now, am)]) st'"
proof (rule signed_cases [OF core_okD(2) [OF assms(1)] assms(3)])
  fix dl u decision
  assume dl: "activeDelegation E now d (idn w) = Some dl" and u: "usage E now d (wal w) = (Inr u, wal w)"
    and ev: "evaluate E dl act (usageTotals u) w = (Inr decision, w)"
    and dec: "decision = Allow \<and> w' = w \<or> (\<exists>t rs. decision = NeedsApproval t rs) \<and>
       approvalUsed E d act approval (apr w) (apr w') \<and> w' = w\<lparr>apr := apr w'\<rparr>"
  note E = wallet_okD(1) [OF core_okD(1) [OF assms(1)]]
  have del: "mapGet (delegations (idn w)) d = Some dl"
    using dl by (auto simp: activeDelegation_def split: if_splits option.splits)
  then have pn: "policyNumbers E (policy dl)" by (rule assms(8))
  have un: "usageNumbers E (usageTotals u)" using usage_numbers [OF E assms(2) u] .
  have a: "bigVal E (amount (usdc am)) = Some v" using assms(6) by (simp add: usdc_def)
  have gate: "gateOpen (policy dl) act" using evaluate_gate [of dl act E "usageTotals u" w] ev dec by fastforce
  obtain dd where dd: "evaluateSpend E dl act (usageTotals u) w = (Inr dd, w)"
      "verdictOf dd = (if categoryOpen (policy dl) act \<and> withinCaps E (policy dl) (usageTotals u) (usdc am)
      then (if overThreshold E (policy dl) (usdc am) then VApproval else VAllow) else VDeny)"
    using evaluateSpend_verdict [OF E pn un assms(5) a, of w] by (elim exE conjE) presburger
  have "dd = decision" using ev dd(1) evaluate_open(1) [OF gate, of E "usageTotals u"] assms(4)
    by (metis prod.inject sum.inject(2))
  then have caps: "withinCaps E (policy dl) (usageTotals u) (usdc am)"
    using dd(2) dec by (auto split: if_splits)
  have con: "contiguous (buckets E h @ [utcDayBucket E now])" using assms(10) by (simp add: buckets_def)
  obtain u2 where "usage E now d (wal w) = (Inr u2, wal w)"
      "bigVal E (amount (totalSpent u2)) = Some (totalSum E h)"
      "bigVal E (amount (dailySpent u2)) = Some (daySum E (utcDayBucket E now) h)"
      "currency (totalSpent u2) = ''USDC''" "currency (dailySpent u2) = ''USDC''"
    using usage_fits [OF E assms(9) con] by blast
  then have us: "spentIn E ''USDC'' (u_total (usageTotals u)) = totalSum E h"
      "spentIn E ''USDC'' (u_daily (usageTotals u)) = daySum E (utcDayBucket E now) h"
    using u by (simp_all add: spentIn_def usageTotals_def)
  have sums: "totalSum E (h @ [(now, am)]) = totalSum E h + v"
      "daySum E (utcDayBucket E now) (h @ [(now, am)]) = daySum E (utcDayBucket E now) h + v"
    using assms(6) by (simp_all add: totalSum_def daySum_def)
  have bounds: "totalSum E h + v \<le> bv E (amount (total_max (spend (policy dl))))"
      "daySum E (utcDayBucket E now) h + v \<le> bv E (amount (daily_max (spend (policy dl))))"
    using caps us assms(6) by (simp_all add: withinCaps_def Let_def usdc_def)
  have same: "wal w' = wal w" using dec by (auto dest: arg_cong [where f = wal])
  obtain st' where "recordSpend E now d (usdc am) (wal w) = (Inr (), st')"
      "spendRowFits E d (h @ [(now, am)]) st'"
    by (rule recordSpend_fits [OF E assms(9,10,6,7,11)])
  then show ?thesis using del bounds sums same by (intro exI [of _ dl] exI [of _ st']) simp
qed

lemma caps_hold_over_time_witness:
  "\<exists>(w' :: core) st'. recordSpend demo 5 ''did:a'' (usdc ''30'') (wal w') = (Inr (), st') \<and>
     spendRowFits demo ''did:a'' [(5, ''30'')] st'"
proof -
  let ?m = "signWithinPolicy demo 5 ''did:a'' JNull (sampleSpend ''30'') None sampleCore"
  have "(case fst ?m of Inr (Signed sg) \<Rightarrow> True | _ \<Rightarrow> False)" by code_simp
  then obtain sg w' where r: "?m = (Inr (Signed sg), w')"
    by (cases ?m) (auto split: sum.splits sign_result.splits)
  have a: "a_kind (sampleSpend ''30'') = KSpend" "a_amount (sampleSpend ''30'') = Some (usdc ''30'')"
      "bigVal demo ''30'' = Some 30" "(0::rat) < 30"
    using sample_numbers by (simp_all add: sampleSpend_def usdc_def)
  have h: "spendRowFits demo ''did:a'' [] (wal sampleCore)" "contiguous (buckets demo ([] @ [(5, ''30'')]))"
      "utcDayBucket demo 5 \<noteq> []"
    by code_simp+
  from caps_hold_over_time [OF sampleCore_ok(1,2) r a sampleCore_ok(3) h]
  show ?thesis unfolding append_Nil by blast
qed

end
