(* ===== verification/Frames.thy ===== *)
theory Frames
  imports Signer Idempotency
begin

text \<open>
  Which parts of the shared state an operation can touch. \<open>frames f m\<close> says that \<open>m\<close> leaves
  \<open>f\<close> of the state as it was, on every outcome; the rules of \<open>frames_rules\<close> take a handler apart
  and leave the side condition that the part written is not the part observed.
\<close>

named_theorems frames_rules \<open>structural rules for untouched parts of the state\<close>

lemma frames_ret [frames_rules]: "frames f (ret x)"
  by (simp add: frames_def keeps_ret)

lemma frames_throw [frames_rules]: "frames f (throw e)"
  by (simp add: frames_def keeps_throw)

lemma frames_gets [frames_rules]: "frames f (gets g)"
  by (simp add: frames_def keeps_gets)

lemma frames_throwIf [frames_rules]: "frames f (throwIf b e)"
  by (simp add: frames_def keeps_throwIf)

lemma frames_orThrow [frames_rules]: "frames f (orThrow x e)"
  by (simp add: frames_def keeps_orThrow)

lemma frames_bindE [frames_rules]: "frames f m \<Longrightarrow> (\<And>x. frames f (k x)) \<Longrightarrow> frames f (bindE m k)"
  by (simp add: frames_def keeps_bindE)

lemma frames_if [frames_rules]: "frames f m \<Longrightarrow> frames f n \<Longrightarrow> frames f (if b then m else n)"
  by simp

lemma frames_case_option [frames_rules]:
  "frames f m \<Longrightarrow> (\<And>v. frames f (k v)) \<Longrightarrow> frames f (case x of None \<Rightarrow> m | Some v \<Rightarrow> k v)"
  by (simp split: option.split)

lemma frames_case_prod [frames_rules]: "(\<And>a b. frames f (k a b)) \<Longrightarrow> frames f (case x of (a, b) \<Rightarrow> k a b)"
  by (simp split: prod.split)

lemma frames_case_list [frames_rules]:
  "frames f m \<Longrightarrow> (\<And>y ys. frames f (k y ys)) \<Longrightarrow> frames f (case x of [] \<Rightarrow> m | y # ys \<Rightarrow> k y ys)"
  by (simp split: list.split)

lemma frames_Let [frames_rules]: "(\<And>x. frames f (k x)) \<Longrightarrow> frames f (Let v k)"
  by simp

lemma frames_case_decision [frames_rules]:
  "frames f m \<Longrightarrow> (\<And>r. frames f (k r)) \<Longrightarrow> (\<And>t r. frames f (j t r)) \<Longrightarrow>
   frames f (case x of Allow \<Rightarrow> m | Deny r \<Rightarrow> k r | NeedsApproval t r \<Rightarrow> j t r)"
  by (simp split: policy_decision.split)

lemma frames_case_signed [frames_rules]:
  "(\<And>s. frames f (m s)) \<Longrightarrow> (\<And>d. frames f (k d)) \<Longrightarrow> frames f (case x of Signed s \<Rightarrow> m s | Refused d \<Rightarrow> k d)"
  by (simp split: sign_result.split)

lemma frames_modify [frames_rules]: "(\<And>s. f (g s) = f s) \<Longrightarrow> frames f (modify g)"
  by (simp add: frames_def keeps_modify)

lemma frames_forEach [frames_rules]: "(\<And>x. frames f (body x)) \<Longrightarrow> frames f (forEach xs body)"
  by (simp add: frames_def keeps_forEach)

lemma frames_zoom: "(\<And>w s. f (upd (\<lambda>_. s) w) = f w) \<Longrightarrow> frames f (zoom get upd m)"
  by (auto simp: frames_def keeps_def zoom_def split: prod.split)

lemma frames_inWallet [frames_rules]: "(\<And>w s. f (w\<lparr>wal := s\<rparr>) = f w) \<Longrightarrow> frames f (inWallet m)"
  unfolding inWallet_def by (rule frames_zoom)

lemma frames_inApprovals [frames_rules]: "(\<And>w s. f (w\<lparr>apr := s\<rparr>) = f w) \<Longrightarrow> frames f (inApprovals m)"
  unfolding inApprovals_def by (rule frames_zoom)

lemma frames_inLedger [frames_rules]: "(\<And>w s. f (w\<lparr>led := s\<rparr>) = f w) \<Longrightarrow> frames f (inLedger m)"
  unfolding inLedger_def by (rule frames_zoom)

lemma frames_inReputation [frames_rules]: "(\<And>w s. f (w\<lparr>rep := s\<rparr>) = f w) \<Longrightarrow> frames f (inReputation m)"
  unfolding inReputation_def by (rule frames_zoom)

lemma frames_appendLedger [frames_rules]:
  "(\<And>w s. f (w\<lparr>led := s\<rparr>) = f w) \<Longrightarrow> frames f (appendLedger E now k sb p)"
  unfolding appendLedger_def by (intro frames_rules)

lemma frames_verifyAs [frames_rules]:
  "(\<And>w s. f (w\<lparr>non := s\<rparr>) = f w) \<Longrightarrow> frames f (verifyAs E now skew obj opts)"
  unfolding frames_def by (intro allI keepsI) (metis verifyAs_out snd_conv)

lemma frames_evaluate [frames_rules]: "frames f (evaluate E dl act us)"
  by (simp add: frames_def keeps_evaluate)

lemma frames_bigE [frames_rules]: "frames f (bigE E a)"
  by (simp add: frames_def keeps_bigE)

lemma frames_ltE [frames_rules]: "frames f (ltE E a b)"
  by (simp add: frames_def keeps_ltE)

text \<open>The signer only reads the wallet.\<close>

lemma frames_inWallet_usage: "frames f (inWallet (usage E now d))"
  unfolding frames_def by (intro allI keepsI) (auto simp: inWallet_app dest: usage_state split: prod.split)

lemma frames_signWithinPolicy [frames_rules]:
  "(\<And>w s. f (w\<lparr>apr := s\<rparr>) = f w) \<Longrightarrow> frames f (signWithinPolicy E now d p act ap)"
  unfolding signWithinPolicy_def by (intro frames_inWallet_usage frames_rules)

lemma frames_out: "frames f m \<Longrightarrow> m w = (r, w') \<Longrightarrow> f w' = f w"
  using frames_eq [of f m w] by simp

text \<open>Verification writes the nonces only, the signer the approvals only.\<close>

lemma verifyAs_only: "verifyAs E now skew obj opts w = (r, w') \<Longrightarrow> w' = w\<lparr>non := non w'\<rparr>"
  by (cases rule: verifyAs_out [of E now skew obj opts w]) auto

lemma signWithinPolicy_only:
  assumes "signWithinPolicy E now d p act ap w = (r, w')"
  shows "w' = w\<lparr>apr := apr w'\<rparr>"
proof -
  have "w'\<lparr>apr := apr w'\<rparr> = w\<lparr>apr := apr w'\<rparr>"
    by (rule frames_out [OF frames_signWithinPolicy assms, where f = "\<lambda>x. x\<lparr>apr := apr w'\<rparr>"]) simp
  then show ?thesis by simp
qed

end
