(* ===== verification/Guarantee.thy ===== *)
theory Guarantee
  imports Frames
begin

text \<open>
  A program logic for handlers. \<open>guar R P m Q\<close>: started in a state that satisfies \<open>P\<close>, the
  computation relates the start state to the state it stops in by \<open>R\<close>, whether it returns or
  throws, and a value it returns satisfies \<open>Q\<close> in the final state. For a reflexive and transitive
  \<open>R\<close> (locale \<open>guarantee\<close>) the guarantee composes along \<open>bindE\<close> with \<open>Q\<close> as the intermediate
  assertion, so a handler is verified once for every property of the form "each step may only
  change the state like this": invariants, monotone quantities and life cycles.
\<close>

named_theorems guar_rules \<open>rules that compute the strongest intermediate assertion\<close>

definition guar :: "('s \<Rightarrow> 's \<Rightarrow> bool) \<Rightarrow> ('s \<Rightarrow> bool) \<Rightarrow> ('s, 'a) exec \<Rightarrow> ('a \<Rightarrow> 's \<Rightarrow> bool) \<Rightarrow> bool" where
  "guar R P m Q \<longleftrightarrow> (\<forall>s. P s \<longrightarrow> R s (snd (m s)) \<and> (\<forall>x s'. m s = (Inr x, s') \<longrightarrow> Q x s'))"

abbreviation always :: "'s \<Rightarrow> bool" where
  "always \<equiv> \<lambda>_. True"

abbreviation whatever :: "'a \<Rightarrow> 's \<Rightarrow> bool" where
  "whatever \<equiv> \<lambda>_ _. True"

lemma guarI:
  "(\<And>s. P s \<Longrightarrow> R s (snd (m s))) \<Longrightarrow> (\<And>s x s'. P s \<Longrightarrow> m s = (Inr x, s') \<Longrightarrow> Q x s') \<Longrightarrow> guar R P m Q"
  by (simp add: guar_def)

lemma guarD: "guar R P m Q \<Longrightarrow> P s \<Longrightarrow> m s = (r, s') \<Longrightarrow> R s s'"
  unfolding guar_def by (metis snd_conv)

lemma guar_post: "guar R P m Q \<Longrightarrow> P s \<Longrightarrow> m s = (Inr x, s') \<Longrightarrow> Q x s'"
  by (auto simp: guar_def)

lemma guar_weaken:
  "guar R P' m Q' \<Longrightarrow> (\<And>s. P s \<Longrightarrow> P' s) \<Longrightarrow> (\<And>x s. Q' x s \<Longrightarrow> Q x s) \<Longrightarrow> guar R P m Q"
  unfolding guar_def by blast

lemma guar_pre: "guar R P' m Q \<Longrightarrow> (\<And>s. P s \<Longrightarrow> P' s) \<Longrightarrow> guar R P m Q"
  by (auto simp: guar_def)

lemma guar_whatever: "guar R P m Q \<Longrightarrow> guar R P m whatever"
  by (auto simp: guar_def)

text \<open>An assertion that does not depend on the parts a computation writes survives it.\<close>

lemma guar_keep:
  assumes "guar R P m Q" "\<And>s x s'. P s \<Longrightarrow> m s = (Inr x, s') \<Longrightarrow> P s'"
  shows "guar R P m (\<lambda>x s. P s \<and> Q x s)"
  using assms by (auto simp: guar_def)

lemma guar_keep_frames:
  assumes "guar R P m Q" "frames f m" "\<And>s. P s \<Longrightarrow> S (f s)"
  shows "guar R P m (\<lambda>x s. S (f s) \<and> Q x s)"
  using assms frames_out [OF assms(2)] by (fastforce simp: guar_def)

lemma guar_if:
  "(b \<Longrightarrow> guar R P m Q) \<Longrightarrow> (\<not> b \<Longrightarrow> guar R P n Q) \<Longrightarrow> guar R P (if b then m else n) Q"
  by simp

lemma guar_Let: "(\<And>x. x = v \<Longrightarrow> guar R P (k x) Q) \<Longrightarrow> guar R P (Let v k) Q"
  by simp

lemma guar_option:
  "(x = None \<Longrightarrow> guar R P m Q) \<Longrightarrow> (\<And>v. x = Some v \<Longrightarrow> guar R P (k v) Q) \<Longrightarrow>
   guar R P (case x of None \<Rightarrow> m | Some v \<Rightarrow> k v) Q"
  by (cases x) simp_all

lemma guar_list:
  "(x = [] \<Longrightarrow> guar R P m Q) \<Longrightarrow> (\<And>v vs. x = v # vs \<Longrightarrow> guar R P (k v vs) Q) \<Longrightarrow>
   guar R P (case x of [] \<Rightarrow> m | v # vs \<Rightarrow> k v vs) Q"
  by (cases x) simp_all

lemma guar_prod: "(\<And>a b. x = (a, b) \<Longrightarrow> guar R P (k a b) Q) \<Longrightarrow> guar R P (case x of (a, b) \<Rightarrow> k a b) Q"
  by (cases x) simp

lemma guar_decision:
  "guar R P m Q \<Longrightarrow> (\<And>r. guar R P (k r) Q) \<Longrightarrow> (\<And>t r. guar R P (j t r) Q) \<Longrightarrow>
   guar R P (case x of Allow \<Rightarrow> m | Deny r \<Rightarrow> k r | NeedsApproval t r \<Rightarrow> j t r) Q"
  by (simp split: policy_decision.split)

lemma guar_signed:
  "(\<And>s. x = Signed s \<Longrightarrow> guar R P (m s) Q) \<Longrightarrow> (\<And>d. x = Refused d \<Longrightarrow> guar R P (k d) Q) \<Longrightarrow>
   guar R P (case x of Signed s \<Rightarrow> m s | Refused d \<Rightarrow> k d) Q"
  by (simp split: sign_result.split)

lemmas guar_cases = guar_if guar_Let guar_option guar_list guar_prod guar_decision guar_signed

locale guarantee =
  fixes R :: "'s \<Rightarrow> 's \<Rightarrow> bool"
  assumes refl: "R s s" and trans: "R s t \<Longrightarrow> R t u \<Longrightarrow> R s u"
begin

lemma g_ret [guar_rules]: "guar R P (ret x) (\<lambda>y s. P s \<and> y = x)"
  by (simp add: guar_def refl)

lemma g_done: "guar R P (ret x) whatever"
  by (simp add: guar_def refl)

lemma g_throw: "guar R P (throw e) Q"
  by (simp add: guar_def refl)

lemma g_gets [guar_rules]: "guar R P (gets f) (\<lambda>y s. P s \<and> y = f s)"
  by (simp add: guar_def refl)

lemma g_orThrow [guar_rules]: "guar R P (orThrow x e) (\<lambda>y s. P s \<and> x = Some y)"
  by (auto simp: guar_def refl orThrow_def split: option.split)

lemma g_throwIf [guar_rules]: "guar R P (throwIf b e) (\<lambda>_ s. P s \<and> \<not> b)"
  by (auto simp: guar_def refl throwIf_def)

lemma g_bigE [guar_rules]: "guar R P (bigE E a) (\<lambda>y s. P s \<and> bigVal E a = Some y)"
  unfolding bigE_def by (rule g_orThrow)

lemma g_bindE: "guar R P m Q \<Longrightarrow> (\<And>x. guar R (Q x) (k x) T) \<Longrightarrow> guar R P (bindE m k) T"
  unfolding guar_def by (auto simp: bindE_def split: prod.splits sum.splits) (metis snd_conv trans)+

text \<open>Without an intermediate assertion.\<close>

lemma g_seq: "guar R P m Q \<Longrightarrow> (\<And>x. guar R always (k x) T) \<Longrightarrow> guar R P (bindE m k) T"
  by (rule g_bindE [OF guar_whatever])

lemma g_forEach:
  "(\<And>x. x \<in> set xs \<Longrightarrow> guar R P (body x) (\<lambda>_. P)) \<Longrightarrow> guar R P (forEach xs body) (\<lambda>_. P)"
proof (induction xs)
  case Nil
  show ?case unfolding forEach.simps by (rule guar_weaken [OF g_ret [of P "()"]]) simp_all
next
  case (Cons x xs)
  show ?case unfolding forEach.simps by (rule g_bindE [of _ _ "\<lambda>_. P"]) (use Cons in auto)
qed

lemma g_each: "(\<And>x. x \<in> set xs \<Longrightarrow> guar R always (body x) whatever) \<Longrightarrow> guar R P (forEach xs body) whatever"
  by (rule guar_pre [OF g_forEach]) auto

text \<open>A computation that changes nothing \<open>R\<close> looks at.\<close>

lemma g_frames: "frames f m \<Longrightarrow> (\<And>s s'. f s' = f s \<Longrightarrow> R s s') \<Longrightarrow> guar R P m whatever"
  unfolding guar_def by (simp add: frames_eq)

lemma g_step: "(\<And>s. P s \<Longrightarrow> R s (f s)) \<Longrightarrow> guar R P (modify f) whatever"
  by (simp add: guar_def)

end

end
