(* ===== verification/Governance.thy ===== *)
theory Governance
  imports Guarantee "HOL-Library.Word"
begin

unbundle bit_operations_syntax

text \<open>
  The governance plane, \<open>src/features/governance\<close>: the supervisor's guard and the routes
  (\<open>routes.ts\<close>) over the oversight view, the policy update, the kill switch, the rulings on parked
  approvals and the audit read (\<open>service.ts\<close>). The plane keeps no state of its own: it writes the
  registry, the approval queue and the transparency log of \<open>core\<close>, so it runs on any state that
  extends it. A policy arrives parsed, or as \<open>None\<close> where the re-validation of the registry
  rejects it. The requests that \<open>Promise.all\<close> starts together run one after the other.
\<close>

section \<open>The supervisor's guard\<close>

text \<open>
  The \<open>for\<close> loop of \<open>constantTimeEqual\<close>. The bitwise operators of JavaScript work on 32-bit
  integers; an index past the end contributes \<open>-1\<close> or \<open>-2\<close>.
\<close>

definition unitAt :: "string \<Rightarrow> 32 word \<Rightarrow> nat \<Rightarrow> 32 word" where
  "unitAt s beyond i = (if i < length s then of_char (s ! i) else beyond)"

fun diffLoop :: "string \<Rightarrow> string \<Rightarrow> nat list \<Rightarrow> 32 word \<Rightarrow> 32 word" where
  "diffLoop a b [] diff = diff"
| "diffLoop a b (i # is) diff =
     (let ca = unitAt a (- 1) i;
          cb = unitAt b (- 2) i
      in diffLoop a b is (diff OR (ca XOR cb)))"

definition constantTimeEqual :: "string \<Rightarrow> string \<Rightarrow> bool" where
  "constantTimeEqual a b =
     (let len = max (length a) (length b);
          diff = of_nat (length a) XOR of_nat (length b)
      in diffLoop a b [0..<len] diff = 0)"

definition requireSupervisor :: "string option \<Rightarrow> string \<Rightarrow> ('s, unit) exec" where
  "requireSupervisor header expected =
     (case header of
        None \<Rightarrow> throw AuthError
      | Some h \<Rightarrow>
          if \<not> startsWith h ''Bearer '' then throw AuthError
          else
            (let token = drop (length ''Bearer '') h in
             bindE (throwIf (length token = 0) AuthError) (\<lambda>_.
             throwIf (\<not> constantTimeEqual token expected) AuthError)))"

section \<open>The service\<close>

datatype gov_audit_kind = GovPolicyChange | GovKill | GovApproval

fun GOV_AUDIT_KIND :: "gov_audit_kind \<Rightarrow> string" where
  "GOV_AUDIT_KIND GovPolicyChange = ''gov_policy_change''"
| "GOV_AUDIT_KIND GovKill = ''gov_kill''"
| "GOV_AUDIT_KIND GovApproval = ''gov_approval''"

definition SUPERVISOR :: string where
  "SUPERVISOR = ''supervisor''"

record gov_agent_view =
  gv_did :: string
  gv_policy :: "delegation_policy option"
  gv_expires :: "string option"
  gv_balances :: "(string \<times> money \<times> money) list"
  gv_standing :: "(rat option \<times> nat) option"

record audit_view =
  av_entries :: "entry list"
  av_root :: string
  av_valid :: bool

record policy_result =
  pr_subject :: string
  pr_issuer :: string
  pr_issued :: string
  pr_expires :: string
  pr_policy :: delegation_policy

definition agentView ::
    "ext \<Rightarrow> core_signer \<Rightarrow> int \<Rightarrow> string \<times> delegation option \<Rightarrow> ('a core_scheme, gov_agent_view) exec" where
  "agentView E cs now entry =
     (case entry of (d, del) \<Rightarrow>
        bindE (gets (\<lambda>w. balances d (wal w))) (\<lambda>bs.
        bindE (inReputation (getSnapshot E cs now d)) (\<lambda>snap.
        ret \<lparr>gv_did = d, gv_policy = map_option policy del, gv_expires = map_option expires del,
             gv_balances = bs,
             gv_standing = map_option (\<lambda>s. (sn_trust s, m_jobs (sn_metrics s))) snap\<rparr>)))"

fun agentViews ::
    "ext \<Rightarrow> core_signer \<Rightarrow> int \<Rightarrow> (string \<times> delegation option) list \<Rightarrow> ('a core_scheme, gov_agent_view list) exec" where
  "agentViews E cs now [] = ret []"
| "agentViews E cs now (x # xs) =
     bindE (agentView E cs now x) (\<lambda>v. bindE (agentViews E cs now xs) (\<lambda>vs. ret (v # vs)))"

definition listAgents ::
    "ext \<Rightarrow> core_signer \<Rightarrow> int \<Rightarrow> string \<Rightarrow> ('a core_scheme, gov_agent_view list) exec" where
  "listAgents E cs now who =
     bindE (gets (\<lambda>w. listByPrincipal who (idn w))) (\<lambda>entries. agentViews E cs now entries)"

definition policyChangePayload ::
    "ext \<Rightarrow> int \<Rightarrow> delegation_policy option \<Rightarrow> delegation_policy \<Rightarrow> json" where
  "policyChangePayload E now before after =
     JObj ((case before of None \<Rightarrow> [] | Some p \<Rightarrow> [(''before'', policyJson p)]) @
       [(''after'', policyJson after), (''by'', JStr SUPERVISOR), (''ts'', JStr (isoOf E now))])"

definition updatePolicy ::
    "ext \<Rightarrow> int \<Rightarrow> string \<Rightarrow> delegation_policy option \<Rightarrow> ('a core_scheme, policy_result) exec" where
  "updatePolicy E now d parsed =
     bindE (gets (\<lambda>w. map_option policy (activeDelegation E now d (idn w)))) (\<lambda>before.
     bindE (onIdentity (updateDelegation E now d parsed)) (\<lambda>credential.
     bindE (appendLedger E now (GOV_AUDIT_KIND GovPolicyChange) (Some d)
              (policyChangePayload E now before (policy credential))) (\<lambda>_.
     ret \<lparr>pr_subject = subject credential, pr_issuer = issuer credential, pr_issued = issued credential,
          pr_expires = expires credential, pr_policy = policy credential\<rparr>)))"

definition killPayload :: "ext \<Rightarrow> int \<Rightarrow> string \<Rightarrow> json" where
  "killPayload E now d = JObj [(''did'', JStr d), (''by'', JStr SUPERVISOR), (''ts'', JStr (isoOf E now))]"

definition kill :: "ext \<Rightarrow> int \<Rightarrow> string \<Rightarrow> ('a core_scheme, string \<times> string) exec" where
  "kill E now d =
     bindE (onIdentity (adminRevoke d)) (\<lambda>_.
     bindE (appendLedger E now (GOV_AUDIT_KIND GovKill) (Some d) (killPayload E now d)) (\<lambda>_.
     ret (d, isoOf E now)))"

definition listPendingApprovals :: "('a core_scheme, approval list) exec" where
  "listPendingApprovals = gets (\<lambda>w. listPending (apr w))"

definition decisionText :: "bool \<Rightarrow> string" where
  "decisionText approve = (if approve then ''approve'' else ''deny'')"

definition approvalPayload :: "ext \<Rightarrow> int \<Rightarrow> string \<Rightarrow> bool \<Rightarrow> string option \<Rightarrow> json" where
  "approvalPayload E now i approve note =
     JObj ([(''id'', JStr i), (''decision'', JStr (decisionText approve))] @ optField ''note'' note @
       [(''by'', JStr SUPERVISOR), (''ts'', JStr (isoOf E now))])"

definition resolveApproval ::
    "ext \<Rightarrow> int \<Rightarrow> string \<Rightarrow> bool \<Rightarrow> string option \<Rightarrow> ('a core_scheme, approval) exec" where
  "resolveApproval E now i approve note =
     bindE (inApprovals (resolve i approve)) (\<lambda>resolved.
     bindE (appendLedger E now (GOV_AUDIT_KIND GovApproval) (Some (ap_agent resolved))
              (approvalPayload E now i approve note)) (\<lambda>_.
     ret resolved))"

definition audit :: "ext \<Rightarrow> list_filter \<Rightarrow> ('a core_scheme, audit_view) exec" where
  "audit E f =
     gets (\<lambda>w. \<lparr>av_entries = list_entries E f (led w), av_root = ledgerRoot E (led w),
                 av_valid = verifyChain E (led w)\<rparr>)"

section \<open>The routes\<close>

definition policyToResponse :: "delegation_policy \<Rightarrow> delegation_policy" where
  "policyToResponse p =
     p\<lparr>spend := \<lparr>per_tx_max = per_tx_max (spend p), daily_max = daily_max (spend p),
                 total_max = total_max (spend p)\<rparr>,
       messaging := \<lparr>send_allowed = send_allowed (messaging p),
                     max_postage_per_day = max_postage_per_day (messaging p)\<rparr>,
       posting := \<lparr>offers = offers (posting p), rfps = rfps (posting p),
                   max_post_spend_per_day = max_post_spend_per_day (posting p)\<rparr>,
       escrow_pol := \<lparr>may_commit = may_commit (escrow_pol p), max_escrow = max_escrow (escrow_pol p)\<rparr>\<rparr>"

text \<open>The requests, with their parameters parsed, and the bodies of the answers.\<close>

datatype gov_request =
    GetAgents string
  | PutPolicy string "delegation_policy option"
  | PostKill string
  | GetApprovals
  | PostApproval string bool "string option"
  | GetAudit list_filter

datatype gov_response =
    AgentsBody string "gov_agent_view list"
  | PolicyBody policy_result
  | KillBody string string
  | ApprovalsBody "approval list"
  | ApprovalBody approval
  | AuditBody audit_view

fun handleGov :: "ext \<Rightarrow> core_signer \<Rightarrow> int \<Rightarrow> gov_request \<Rightarrow> ('a core_scheme, gov_response) exec" where
  "handleGov E cs now (GetAgents who) =
     bindE (listAgents E cs now who) (\<lambda>vs.
     ret (AgentsBody who (map (\<lambda>a. a\<lparr>gv_policy := map_option policyToResponse (gv_policy a)\<rparr>) vs)))"
| "handleGov E cs now (PutPolicy d parsed) =
     bindE (updatePolicy E now d parsed) (\<lambda>res.
     ret (PolicyBody (res\<lparr>pr_policy := policyToResponse (pr_policy res)\<rparr>)))"
| "handleGov E cs now (PostKill d) =
     bindE (kill E now d) (\<lambda>(d', t). ret (KillBody d' t))"
| "handleGov E cs now GetApprovals =
     bindE listPendingApprovals (\<lambda>as. ret (ApprovalsBody as))"
| "handleGov E cs now (PostApproval i approve note) =
     bindE (resolveApproval E now i approve note) (\<lambda>a. ret (ApprovalBody a))"
| "handleGov E cs now (GetAudit f) =
     bindE (audit E (f\<lparr>f_until := None\<rparr>)) (\<lambda>v. ret (AuditBody v))"

text \<open>The \<open>onRequest\<close> hook runs the guard before every handler of the plugin.\<close>

definition governed ::
    "ext \<Rightarrow> core_signer \<Rightarrow> string \<Rightarrow> int \<Rightarrow> string option \<Rightarrow> gov_request \<Rightarrow> ('a core_scheme, gov_response) exec" where
  "governed E cs govApiKey now header req =
     bindE (requireSupervisor header govApiKey) (\<lambda>_. handleGov E cs now req)"

end
