(* ===== verification/Governance_Spec.thy ===== *)
theory Governance_Spec
  imports Governance
begin

text \<open>
  What the governance plane guarantees: the guard admits the supervisor's token and nothing else,
  every change made through it is on the audit trail, the kill switch is final, and a ruling frees
  the parked action exactly once.
\<close>

section \<open>The guard\<close>

lemma unat_of_char: "unat (of_char c :: 32 word) = of_char c"
proof -
  have "unat (of_nat (of_char c) :: 32 word) = of_char c"
    using less_trans [OF nat_of_char_less_256 [of c], of 4294967296] by (simp add: unat_of_nat)
  then show ?thesis by (simp only: of_nat_of_char)
qed

lemma of_char_word_inj: "(of_char c :: 32 word) = of_char d \<longleftrightarrow> c = d"
  by (metis unat_of_char of_char_eq_iff)

lemma of_char_beyond: "(of_char c :: 32 word) \<noteq> - 1" "(of_char c :: 32 word) \<noteq> - 2"
proof -
  have less: "unat (of_char c :: 32 word) < 256" unfolding unat_of_char by (rule nat_of_char_less_256)
  have "unat (- 1 :: 32 word) = 4294967295" "unat (- 2 :: 32 word) = 4294967294" by (simp_all add: unsigned_minus_1_eq_mask mask_eq_exp_minus_1)
  then have "\<not> unat (- 1 :: 32 word) < 256" "\<not> unat (- 2 :: 32 word) < 256" by simp_all
  then show "(of_char c :: 32 word) \<noteq> - 1" "(of_char c :: 32 word) \<noteq> - 2"
    using less by metis+
qed

lemma xor_zero: "(x :: 32 word) XOR y = 0 \<longleftrightarrow> x = y"
proof
  assume "x XOR y = 0"
  then have "(x XOR y) XOR y = y" by simp
  then show "x = y" by (simp add: xor.assoc)
qed simp

lemma diffLoop_zero:
  "diffLoop a b is diff = 0 \<longleftrightarrow> diff = 0 \<and> (\<forall>i \<in> set is. unitAt a (- 1) i = unitAt b (- 2) i)"
  by (induction "is" arbitrary: diff) (auto simp: Let_def or_eq_0_iff xor_zero)

lemma constantTimeEqual_iff: "constantTimeEqual a b \<longleftrightarrow> a = b"
proof
  assume "constantTimeEqual a b"
  then have u: "\<And>i. i < max (length a) (length b) \<Longrightarrow> unitAt a (- 1) i = unitAt b (- 2) i"
    by (auto simp: constantTimeEqual_def Let_def diffLoop_zero)
  have "\<not> length a < length b"
  proof
    assume "length a < length b"
    then show False using u [of "length a"] of_char_beyond by (auto simp: unitAt_def)
  qed
  moreover have "\<not> length b < length a"
  proof
    assume "length b < length a"
    then show False using u [of "length b"] of_char_beyond by (auto simp: unitAt_def)
  qed
  ultimately have "length a = length b" by simp
  moreover from this have "a ! i = b ! i" if "i < length a" for i
    using u [of i] that by (simp add: unitAt_def of_char_word_inj)
  ultimately show "a = b" by (rule nth_equalityI)
next
  assume "a = b"
  then show "constantTimeEqual a b"
    by (simp add: constantTimeEqual_def Let_def diffLoop_zero unitAt_def)
qed

lemma startsWith_split: "startsWith h t \<longleftrightarrow> (\<exists>r. h = t @ r)"
  by (metis append_eq_conv_conj append_take_drop_id startsWith_def)

lemma requireSupervisor_run:
  "requireSupervisor header key w =
     (if key \<noteq> [] \<and> header = Some (''Bearer '' @ key) then (Inr (), w) else (Inl AuthError, w))"
proof (cases header)
  case None
  then show ?thesis by (simp add: requireSupervisor_def)
next
  case (Some h)
  show ?thesis
  proof (cases "startsWith h ''Bearer ''")
    case True
    then obtain t where "h = ''Bearer '' @ t" by (auto simp: startsWith_split)
    then show ?thesis using Some True
      by (auto simp: requireSupervisor_def constantTimeEqual_iff exec_simps)
  next
    case False
    then have "h \<noteq> ''Bearer '' @ key" using startsWith_append by metis
    then show ?thesis using Some False by (simp add: requireSupervisor_def)
  qed
qed

section \<open>The audit trail\<close>

lemma keeps_onIdentity [keeps_rules]: "keeps (core_ok E) (onIdentity m)"
  by (intro keepsI) (auto simp: onIdentity_app core_ok_def split: prod.split)

lemma frames_onIdentity [frames_rules]: "(\<And>w s. f (w\<lparr>idn := s\<rparr>) = f w) \<Longrightarrow> frames f (onIdentity m)"
  unfolding onIdentity_def by (rule frames_zoom)

lemma keeps_agentViews: "keeps (core_ok E) (agentViews E cs now xs)"
proof (induction xs)
  case (Cons x xs)
  then show ?case
    by (cases x) (simp only: agentViews.simps agentView_def prod.case,
      intro keeps_bindE keeps_gets keeps_inReputation keeps_getSnapshot keeps_ret)
qed (simp only: agentViews.simps keeps_ret)

lemma frames_agentViews:
  "(\<And>w s. f (w\<lparr>rep := s\<rparr>) = f w) \<Longrightarrow> frames f (agentViews E cs now xs)"
proof (induction xs)
  case (Cons x xs)
  have "frames f (agentView E cs now x)"
    unfolding agentView_def by (intro frames_rules) (rule Cons.prems)
  then show ?case using Cons by (auto intro: frames_rules)
qed (simp only: agentViews.simps frames_ret)

lemma frames_listAgents [frames_rules]:
  "(\<And>w s. f (w\<lparr>rep := s\<rparr>) = f w) \<Longrightarrow> frames f (listAgents E cs now who)"
  unfolding listAgents_def by (intro frames_bindE frames_gets frames_agentViews)

lemma keeps_requireSupervisor [keeps_rules]: "keeps P (requireSupervisor header key)"
  unfolding requireSupervisor_def Let_def by (intro keeps_rules keeps_case_option keeps_if)

lemma keeps_handleGov: "keeps (core_ok E) (handleGov E cs now req)"
  by (cases req)
    (auto simp: listAgents_def updatePolicy_def kill_def resolveApproval_def listPendingApprovals_def audit_def
      split: prod.split intro!: keeps_bindE keeps_rules keeps_agentViews)

lemma keeps_governed: "keeps (core_ok E) (governed E cs key now header req)"
  unfolding governed_def by (intro keeps_bindE keeps_requireSupervisor keeps_handleGov)

text \<open>The three operations that write, taken apart.\<close>

lemma updatePolicy_out:
  obtains (rejected) e where "updatePolicy E now d parsed w = (Inl e, w)"
  | (updated) res e ds where "updatePolicy E now d parsed w =
      (Inr res, w\<lparr>idn := (idn w)\<lparr>delegations := ds\<rparr>, led := led w @ [e]\<rparr>)"
    "parsed = Some (pr_policy res)"
    "kind e = ''gov_policy_change''" "subj e = Some d"
    "payload e = policyChangePayload E now (map_option policy (activeDelegation E now d (idn w))) (pr_policy res)"
proof (cases parsed)
  case None
  then show ?thesis using rejected
    by (cases "mapGet (delegations (idn w)) d")
      (auto simp: updatePolicy_def updateDelegation_def onIdentity_app exec_simps)
next
  case (Some pol)
  show ?thesis
  proof (cases "mapGet (delegations (idn w)) d")
    case None
    then show ?thesis using rejected
      by (auto simp: updatePolicy_def updateDelegation_def onIdentity_app exec_simps)
  next
    case (Some old)
    note two = Some
    let ?dl = "buildDelegation E now (idn w) (issuer old) d pol (expires old)"
    let ?ds = "mapSet d ?dl (delegations (idn w))"
    let ?p = "policyChangePayload E now (map_option policy (activeDelegation E now d (idn w))) pol"
    have pol: "policy ?dl = pol" by (simp add: buildDelegation_def Let_def)
    show ?thesis
    proof (cases rule: appendLedger_out [of E now "''gov_policy_change''" "Some d" ?p "w\<lparr>idn := (idn w)\<lparr>delegations := ?ds\<rparr>\<rparr>"])
      case (1 e)
      then show ?thesis
        using updated [of "\<lparr>pr_subject = subject ?dl, pr_issuer = issuer ?dl, pr_issued = issued ?dl,
            pr_expires = expires ?dl, pr_policy = pol\<rparr>" e ?ds] two pol \<open>parsed = Some pol\<close>
        by (simp add: updatePolicy_def updateDelegation_def putDelegation_def onIdentity_app exec_simps)
    qed
  qed
qed

lemma kill_out:
  obtains e where "kill E now d w = (Inr (d, isoOf E now),
      w\<lparr>idn := (idn w)\<lparr>revokedDids := List.insert d (revokedDids (idn w))\<rparr>, led := led w @ [e]\<rparr>)"
    "kind e = ''gov_kill''" "subj e = Some d" "payload e = killPayload E now d"
proof -
  let ?w = "w\<lparr>idn := (idn w)\<lparr>revokedDids := List.insert d (revokedDids (idn w))\<rparr>\<rparr>"
  show ?thesis
  proof (cases rule: appendLedger_out [of E now "''gov_kill''" "Some d" "killPayload E now d" ?w])
    case (1 e)
    then show ?thesis using that [of e] by (simp add: kill_def adminRevoke_def onIdentity_app exec_simps)
  qed
qed

lemma resolveApproval_out:
  obtains (refused) e where "resolve i b (apr w) = (Inl e, apr w)"
    "resolveApproval E now i b note w = (Inl e, w)"
  | (ruled) a st e where "resolve i b (apr w) = (Inr a, st)"
    "resolveApproval E now i b note w = (Inr a, w\<lparr>apr := st, led := led w @ [e]\<rparr>)"
    "kind e = ''gov_approval''" "subj e = Some (ap_agent a)" "payload e = approvalPayload E now i b note"
proof -
  obtain r st where r: "resolve i b (apr w) = (r, st)" by (metis prod.collapse)
  show ?thesis
  proof (cases r)
    case (Inl e)
    have "st = apr w" using r Inl
      by (cases rule: resolve_cases [of i b "apr w"]) auto
    then show ?thesis using refused r Inl by (simp add: resolveApproval_def exec_simps core_app)
  next
    case (Inr a)
    show ?thesis
    proof (cases rule: appendLedger_out [of E now "''gov_approval''" "Some (ap_agent a)"
        "approvalPayload E now i b note" "w\<lparr>apr := st\<rparr>"])
      case (1 e)
      then show ?thesis using ruled [of a st e] r Inr by (simp add: resolveApproval_def exec_simps core_app)
    qed
  qed
qed

text \<open>What a request that was answered must leave on the trail.\<close>

definition entryMark :: "entry \<Rightarrow> string \<times> string option \<times> json" where
  "entryMark e = (kind e, subj e, payload e)"

fun auditOf ::
    "ext \<Rightarrow> int \<Rightarrow> 'a core_scheme \<Rightarrow> gov_request \<Rightarrow> gov_response \<Rightarrow> (string \<times> string option \<times> json) list" where
  "auditOf E now w (PutPolicy d parsed) (PolicyBody res) =
     [(''gov_policy_change'', Some d,
       policyChangePayload E now (map_option policy (activeDelegation E now d (idn w))) (pr_policy res))]"
| "auditOf E now w (PostKill d) b = [(''gov_kill'', Some d, killPayload E now d)]"
| "auditOf E now w (PostApproval i approve note) (ApprovalBody a) =
     [(''gov_approval'', Some (ap_agent a), approvalPayload E now i approve note)]"
| "auditOf E now w req b = []"

definition trail :: "ext \<Rightarrow> int \<Rightarrow> 'a core_scheme \<Rightarrow> gov_request \<Rightarrow> app_error + gov_response \<Rightarrow>
    (string \<times> string option \<times> json) list" where
  "trail E now w req r = (case r of Inl e \<Rightarrow> [] | Inr b \<Rightarrow> auditOf E now w req b)"

definition audited :: "'a core_scheme \<Rightarrow> 'a core_scheme \<Rightarrow> (string \<times> string option \<times> json) list \<Rightarrow> bool" where
  "audited w w' marks \<longleftrightarrow> (\<exists>es. led w' = led w @ es \<and> map entryMark es = marks) \<and> wal w' = wal w \<and>
     (marks = [] \<longrightarrow> idn w' = idn w \<and> apr w' = apr w)"

lemma policyToResponse_id [simp]: "policyToResponse p = p"
  by (simp add: policyToResponse_def)

lemma audited_refl: "audited w w []"
  by (simp add: audited_def)

lemma handleGov_audited:
  assumes "handleGov E cs now req w = (r, w')"
  shows "audited w w' (trail E now w req r)"
proof (cases req)
  case (GetAgents who)
  have "frames (\<lambda>x. (led x, wal x, idn x, apr x)) (handleGov E cs now req)"
    unfolding GetAgents handleGov.simps by (intro frames_rules) simp
  from frames_out [OF this assms] have "led w' = led w" "wal w' = wal w" "idn w' = idn w" "apr w' = apr w" by auto
  then show ?thesis using GetAgents by (auto simp: audited_def trail_def split: sum.split)
next
  case (PutPolicy d parsed)
  show ?thesis
  proof (cases rule: updatePolicy_out [of E now d parsed w])
    case (rejected e)
    then show ?thesis using assms PutPolicy by (auto simp: exec_simps trail_def audited_refl)
  next
    case (updated res e ds)
    then show ?thesis using assms PutPolicy by (auto simp: exec_simps trail_def audited_def entryMark_def)
  qed
next
  case (PostKill d)
  show ?thesis
  proof (cases rule: kill_out [of E now d w])
    case (1 e)
    then show ?thesis using assms PostKill by (auto simp: exec_simps trail_def audited_def entryMark_def)
  qed
next
  case GetApprovals
  then show ?thesis using assms
    by (auto simp: listPendingApprovals_def exec_simps trail_def audited_refl)
next
  case (PostApproval i b nt)
  show ?thesis
  proof (cases rule: resolveApproval_out [of i b w E now nt])
    case (refused e)
    then show ?thesis using assms PostApproval by (auto simp: exec_simps trail_def audited_refl)
  next
    case (ruled a st e)
    then show ?thesis using assms PostApproval by (auto simp: exec_simps trail_def audited_def entryMark_def)
  qed
next
  case (GetAudit f)
  then show ?thesis using assms by (auto simp: audit_def exec_simps trail_def audited_refl)
qed

lemma governed_run:
  "governed E cs key now header req w =
     (if key \<noteq> [] \<and> header = Some (''Bearer '' @ key) then handleGov E cs now req w else (Inl AuthError, w))"
  by (simp add: governed_def bindE_app requireSupervisor_run)

section \<open>Properties\<close>

text \<open>
  Claim C36. The guard of the governance routes is exact: it lets a request through when its
  header is the Bearer scheme with the configured key, which is not empty, and every other request
  is an authentication error; the bitwise comparison of constant time decides equality.
\<close>

theorem supervisor_guard_exact:
  "requireSupervisor header key w =
     (if key \<noteq> [] \<and> header = Some (''Bearer '' @ key) then (Inr (), w) else (Inl AuthError, w))"
  by (rule requireSupervisor_run)

text \<open>
  Claim C8. The governance plane is accountable: a request that is answered leaves exactly the entry
  that records it at the end of the log (the policy before and after, the kill, the ruling with its
  note, each with the time and the agent it is about), a request that is only a read or
  that throws leaves none; the log stays a valid chain, no request moves money, and without a new entry
  neither the registry nor the approval queue has changed.
\<close>

theorem governance_audited:
  assumes "core_ok E w" "governed E cs key now header req w = (r, w')"
  shows "verifyChain E (led w') \<and> wal w' = wal w \<and>
    (\<exists>es. led w' = led w @ es \<and> map entryMark es = trail E now w req r \<and>
       (es = [] \<longrightarrow> idn w' = idn w \<and> apr w' = apr w))"
proof -
  have "verifyChain E (led w')" using core_okD(3) [OF keepsD_pair [OF keeps_governed assms]] .
  moreover have "audited w w' (trail E now w req r)"
    using assms(2) handleGov_audited [of E cs now req w r w']
    by (auto simp: governed_run trail_def audited_refl split: if_splits)
  ultimately show ?thesis by (auto simp: audited_def)
qed

end
