(* ===== verification/Platform.thy ===== *)
theory Platform
  imports Governance_Spec
begin

text \<open>
  The governance plane against the rest of the platform: what a kill means for everything
  that may happen afterwards, and what a ruling means for the action it is about.
\<close>

section \<open>Steps of the platform\<close>

text \<open>
  What can happen between two moments: a governance request, a registry operation, or an
  operation of a service, its answer dropped, which reaches the registry only to read it
  (\<open>frames idn\<close>).
\<close>

inductive platform_step :: "ext \<Rightarrow> 'a core_scheme \<Rightarrow> 'a core_scheme \<Rightarrow> bool" for E where
  governs: "platform_step E w (snd (governed E cs key now header req w))"
| registers: "platform_step E w (snd (runId E op w))"
| serves: "frames idn (m :: ('a core_scheme, unit) exec) \<Longrightarrow> platform_step E w (snd (m w))"

inductive platform_run :: "ext \<Rightarrow> 'a core_scheme \<Rightarrow> 'a core_scheme \<Rightarrow> bool" for E where
  stop: "platform_run E w w"
| go: "platform_step E w w1 \<Longrightarrow> platform_run E w1 w2 \<Longrightarrow> platform_run E w w2"

definition killed :: "string \<Rightarrow> 'a auth_scheme \<Rightarrow> bool" where
  "killed d w \<longleftrightarrow> List.member (revokedDids (idn w)) d"

lemma killed_same: "idn w' = idn w \<Longrightarrow> killed d w \<Longrightarrow> killed d w'"
  by (simp add: killed_def)

lemma handleGov_revoked:
  assumes "handleGov E cs now req w = (r, w')" "killed d w"
  shows "killed d w'"
proof (cases req)
  case (PutPolicy e parsed)
  show ?thesis
    by (cases rule: updatePolicy_out [of E now e parsed w])
      (use assms PutPolicy in \<open>auto simp: exec_simps killed_def\<close>)
next
  case (PostKill e)
  show ?thesis
    by (cases rule: kill_out [of E now e w]) (use assms PostKill in \<open>auto simp: exec_simps killed_def\<close>)
next
  case (PostApproval i b nt)
  show ?thesis
    by (cases rule: resolveApproval_out [of i b w E now nt])
      (use assms PostApproval in \<open>auto simp: exec_simps killed_def\<close>)
qed (use handleGov_audited [OF assms(1)] killed_same [OF _ assms(2)] in
  \<open>auto simp: audited_def trail_def split: sum.splits\<close>)

lemma platform_step_killed: "platform_step E w w' \<Longrightarrow> killed d w \<Longrightarrow> killed d w'"
proof (induction rule: platform_step.induct)
  case (governs w cs key now header req)
  obtain r w1 where r: "handleGov E cs now req w = (r, w1)" by (metis prod.collapse)
  show ?case using handleGov_revoked [OF r governs] governs r by (simp add: governed_run)
next
  case (registers w op)
  then show ?case using runId_revoked by (simp add: killed_def)
next
  case (serves m w)
  from killed_same [OF frames_eq [OF serves(1), of w] serves(2)] show ?case .
qed

lemma platform_run_killed: "platform_run E w w' \<Longrightarrow> killed d w \<Longrightarrow> killed d w'"
  by (induction rule: platform_run.induct) (auto dest: platform_step_killed)

text \<open>A killed agent is dead to every component that asks the registry.\<close>

lemma killed_inactive: "killed d w \<Longrightarrow> activeDelegation E t d (idn w) = None"
  by (simp add: killed_def activeDelegation_def)

lemma killed_signs_nothing:
  "killed d w \<Longrightarrow> signWithinPolicy E t d p act ap w = (Inr (Refused (Deny [''no active delegation''])), w)"
  by (simp add: signWithinPolicy_def exec_simps killed_inactive)

lemma killed_unverified:
  assumes "killed d w" "signerDid opts = d"
  shows "\<exists>e. fst (verifyAs E t skew obj opts w) = Inl e"
proof (cases "verifyAs E t skew obj opts w")
  case (Pair r w1)
  then show ?thesis using verifyAs_ok(1) [of E t skew obj opts w w1] assms by (cases r) (auto simp: killed_def)
qed

section \<open>Rulings and parked actions\<close>

text \<open>The policy decision does not read the state, so it is the same before and after a ruling.\<close>

definition stateless :: "('s, 'a) exec \<Rightarrow> bool" where
  "stateless m \<longleftrightarrow> (\<exists>r. m = (\<lambda>s. (r, s)))"

lemma stateless_eq: "stateless m \<Longrightarrow> m s = (r, s') \<Longrightarrow> m t = (r, t)"
  by (auto simp: stateless_def)

lemma stateless_ret: "stateless (ret x)"
  by (auto simp: stateless_def ret_def)

lemma stateless_throw: "stateless (throw e)"
  by (auto simp: stateless_def throw_def)

lemma stateless_orThrow: "stateless (orThrow x e)"
  by (cases x) (simp_all add: orThrow_def stateless_ret stateless_throw)

lemma stateless_throwIf: "stateless (throwIf b e)"
  by (simp add: throwIf_def stateless_ret stateless_throw)

lemma stateless_bindE:
  assumes "stateless m" "\<And>x. stateless (k x)"
  shows "stateless (bindE m k)"
proof -
  obtain r where r: "m = (\<lambda>s. (r, s))" using assms(1) by (auto simp: stateless_def)
  show ?thesis
  proof (cases r)
    case (Inl e)
    then show ?thesis using r by (auto simp: stateless_def bindE_def)
  next
    case (Inr x)
    then have "bindE m k = k x" using r by (auto simp: bindE_def)
    then show ?thesis using assms(2) by simp
  qed
qed

lemmas stateless_rules = stateless_ret stateless_throw stateless_orThrow stateless_throwIf stateless_bindE

lemma stateless_big: "stateless (bigE E x)" "stateless (plusE E x y)"
  unfolding bigE_def plusE_def by (auto intro!: stateless_rules split: option.split)

lemma stateless_money: "stateless (mGt E a b)" "stateless (mAdd E a b)" "stateless (approvalTail E a c)"
  unfolding mGt_def mAdd_def mCmp_def assertSameCurrency_def approvalTail_def by (auto intro!: stateless_rules stateless_big)

lemma stateless_if: "stateless m \<Longrightarrow> stateless n \<Longrightarrow> stateless (if b then m else n)"
  by simp

lemma stateless_case_option:
  "stateless m \<Longrightarrow> (\<And>v. stateless (k v)) \<Longrightarrow> stateless (case x of None \<Rightarrow> m | Some v \<Rightarrow> k v)"
  by (cases x) simp_all

lemma stateless_evaluateSpend: "stateless (evaluateSpend E dl act us)"
  unfolding evaluateSpend_def Let_def by (intro stateless_if stateless_case_option stateless_rules stateless_money)

lemma stateless_evaluateEscrow: "stateless (evaluateEscrow E dl act)"
  unfolding evaluateEscrow_def Let_def by (intro stateless_if stateless_case_option stateless_rules stateless_money)

lemma stateless_evaluate: "stateless (evaluate E dl act us)"
proof -
  have "stateless (case a_kind act of
      KSpend \<Rightarrow> evaluateSpend E dl act us | KTip \<Rightarrow> evaluateSpend E dl act us
    | KMessage \<Rightarrow> ret (evaluateMessage dl) | KPost \<Rightarrow> ret (evaluatePost dl act)
    | KEscrow \<Rightarrow> evaluateEscrow E dl act | KStake \<Rightarrow> ret (evaluateStake dl)
    | KOther k \<Rightarrow> ret (Deny [''unknown action kind: '' @ k]))"
    by (cases "a_kind act") (simp_all add: stateless_evaluateSpend stateless_evaluateEscrow stateless_ret)
  then show ?thesis unfolding evaluate_def Let_def
    by (intro stateless_if stateless_case_option stateless_ret)
qed

lemma parked_cases:
  assumes "signWithinPolicy E t d p act None w = (Inr (Refused (NeedsApproval th rs)), w')"
  obtains dl u where "activeDelegation E t d (idn w) = Some dl" "usage E t d (wal w) = (Inr u, wal w)"
    "evaluate E dl act (usageTotals u) w = (Inr (NeedsApproval th rs), w)"
proof -
  obtain dl where dl: "activeDelegation E t d (idn w) = Some dl"
    using assms by (auto simp: signWithinPolicy_def exec_simps split: option.splits)
  have live: "\<not> List.member (revokedDids (idn w)) d" "\<not> delegationIsExpired E dl (isoOf E t)"
    using dl by (auto simp: activeDelegation_def split: if_splits option.splits)
  obtain x where x: "usage E t d (wal w) = (x, wal w)" using usage_state by (metis prod.collapse)
  obtain u where u: "x = Inr u"
    using assms dl live x by (cases x) (auto simp: signWithinPolicy_def exec_simps core_app)
  obtain y where y: "evaluate E dl act (usageTotals u) w = (y, w)"
    using evaluate_state by (metis prod.collapse)
  have "y = Inr (NeedsApproval th rs)"
    using assms dl live x u y
    by (auto simp: signWithinPolicy_def exec_simps core_app signWithKey_def Let_def
        split: sum.splits policy_decision.splits option.splits list.splits)
  then show ?thesis using that dl x u y by simp
qed

lemma parked_redeem:
  fixes w w' :: "'a core_scheme"
  assumes parked: "signWithinPolicy E t d p act None w = (Inr (Refused (NeedsApproval th rs)), w0)"
    and same: "idn w' = idn w" "wal w' = wal w"
  shows "signWithinPolicy E t d p act (Some i) w' =
    bindE (inApprovals (consume E i d act)) (\<lambda>redeemed.
      if ruled redeemed \<noteq> Some RApproved
      then ret (Refused (Deny [''approval '' @ i @ '' was '' @
             (case ruled redeemed of Some RDenied \<Rightarrow> ''denied'' | _ \<Rightarrow> ''not approved'')]))
      else gets (\<lambda>w. signWithKey E (idn w) d p)) w'"
proof (cases rule: parked_cases [OF parked])
  case (1 dl u)
  have live: "\<not> List.member (revokedDids (idn w)) d" "\<not> delegationIsExpired E dl (isoOf E t)"
    using 1(1) by (auto simp: activeDelegation_def split: if_splits option.splits)
  have "evaluate E dl act (usageTotals u) w' = (Inr (NeedsApproval th rs), w')"
    using stateless_eq [OF stateless_evaluate 1(3)] .
  moreover have "inWallet (usage E t d) w' = (Inr u, w')" using 1(2) same(2) by (simp add: inWallet_app)
  ultimately show ?thesis using 1(1) live same(1)
    by (simp add: signWithinPolicy_def bindE_app)
qed


text \<open>Within the UTC day, as long as the delegation is active, the answer stays that an approval is needed.\<close>

lemma usage_day:
  assumes same: "utcDayBucket E t1 = utcDayBucket E t"
  shows "usage E t1 d = usage E t d"
  unfolding usage_def same ..

lemma activeDelegation_same:
  "activeDelegation E t d st = Some dl \<Longrightarrow> activeDelegation E t1 d st \<noteq> None \<Longrightarrow> activeDelegation E t1 d st = Some dl"
  by (auto simp: activeDelegation_def split: if_splits option.splits)

lemma parked_later:
  assumes parked: "signWithinPolicy E t d p act None w = (Inr (Refused (NeedsApproval th rs)), w0)"
    and later: "utcDayBucket E t1 = utcDayBucket E t" "activeDelegation E t1 d (idn w) \<noteq> None"
  shows "signWithinPolicy E t1 d p act None w = (Inr (Refused (NeedsApproval th rs)), w)"
proof (cases rule: parked_cases [OF parked])
  case (1 dl u)
  have dl: "activeDelegation E t1 d (idn w) = Some dl" by (rule activeDelegation_same [OF 1(1) later(2)])
  then have live: "\<not> List.member (revokedDids (idn w)) d" "\<not> delegationIsExpired E dl (isoOf E t1)"
    by (auto simp: activeDelegation_def split: if_splits option.splits)
  have "inWallet (usage E t1 d) w = (Inr u, w)" using 1(2) by (simp add: inWallet_app usage_day [OF later(1)])
  then show ?thesis using dl live 1(3) by (simp add: signWithinPolicy_def bindE_app)
qed

section \<open>Properties\<close>

text \<open>
  Claim C6. The kill switch is final: once a supervisor's kill of an agent has been answered, no sequence of
  governance requests, of registry operations and of operations of the services brings
  the agent back: its DID stays revoked, it has no active delegation, the signer refuses everything it asks for and changes
  nothing, and the check of signed objects rejects every object that is presented with the agent as
  its signer and changes nothing but the nonces. The signatures that the code checks by the key
  alone, without this check (the provider's on a listing, the payee's on an escrow contract and the
  counterparty's on a work record), are not covered.
\<close>

theorem kill_switch_final:
  assumes "governed E cs key now header (PostKill d) w = (Inr b, w1)" "platform_run E w1 w2"
  shows "killed d w2 \<and> activeDelegation E t d (idn w2) = None \<and>
    signWithinPolicy E t d p act ap w2 = (Inr (Refused (Deny [''no active delegation''])), w2) \<and>
    (\<exists>e n. verifyAs E t skew obj (opts\<lparr>signerDid := d\<rparr>) w2 = (Inl e, w2\<lparr>non := n\<rparr>))"
proof -
  have "killed d w1"
    by (cases rule: kill_out [of E now d w])
      (use assms(1) in \<open>auto simp: governed_run exec_simps killed_def split: if_splits\<close>)
  then have k: "killed d w2" using platform_run_killed [OF assms(2)] by simp
  obtain r n where v: "verifyAs E t skew obj (opts\<lparr>signerDid := d\<rparr>) w2 = (r, w2\<lparr>non := n\<rparr>)" by (rule verifyAs_out)
  moreover obtain e where "r = Inl e"
    using killed_unverified [OF k, of "opts\<lparr>signerDid := d\<rparr>" E t skew obj] v by auto
  ultimately have "\<exists>e n. verifyAs E t skew obj (opts\<lparr>signerDid := d\<rparr>) w2 = (Inl e, w2\<lparr>non := n\<rparr>)" by blast
  then show ?thesis using k by (simp add: killed_inactive killed_signs_nothing)
qed

text \<open>
  Claim C26. A ruling frees the parked action exactly once: when the signer refuses an action because it needs
  an approval and that action waits in the queue, the supervisor's answer to it is accepted,
  and the agent that presents it later on the same UTC day, under a delegation that is still active,
  gets a signature with its own key over the payload when the ruling was to approve and a refusal
  when it was to deny; either way the approval is used up, and presenting it once more is a conflict.
  The agent is one whose registered first key is in the keystore.
\<close>

theorem ruling_frees_once:
  assumes "core_ok E w" "key \<noteq> []"
    and "signWithinPolicy E t d p act None w = (Inr (Refused (NeedsApproval th rs)), w0)"
    and "mapGet (byId (apr w)) i = Some a" "status a = Pending" "ap_agent a = d" "ap_action a = act"
    and "\<And>m. a_amount act = Some m \<Longrightarrow> bigVal E (amount m) \<noteq> None"
    and "mapGet (passports (idn w)) d = Some pass" "keys pass = k # ks" "mapGet (keystore (idn w)) (d @ key_id k) = Some sk"
    and "utcDayBucket E t1 = utcDayBucket E t" "activeDelegation E t1 d (idn w) \<noteq> None"
    and "utcDayBucket E t2 = utcDayBucket E t" "activeDelegation E t2 d (idn w) \<noteq> None"
  shows "\<exists>body w1 w2.
    governed E cs key now (Some (''Bearer '' @ key)) (PostApproval i approve note) w = (Inr body, w1) \<and>
    signWithinPolicy E t1 d p act (Some i) w1 =
      (Inr (if approve then Signed (signDetached E p sk (d @ key_id k))
            else Refused (Deny [''approval '' @ i @ '' was denied''])), w2) \<and>
    redeemed (apr w2) i \<and> w2 = w1\<lparr>apr := apr w2\<rparr> \<and>
    signWithinPolicy E t2 d p act (Some i) w2 = (Inl ConflictError, w2)"
proof -
  let ?a = "a\<lparr>status := (if approve then Approved else Denied), ruled := Some (if approve then RApproved else RDenied)\<rparr>"
  let ?st = "(apr w)\<lparr>byId := mapSet i ?a (byId (apr w))\<rparr>"
  let ?st2 = "(apr w)\<lparr>byId := mapSet i (?a\<lparr>status := Consumed\<rparr>) (mapSet i ?a (byId (apr w)))\<rparr>"
  have id: "approvalId a = i" using approvals_okD(1) [OF core_okD(2) [OF assms(1)] assms(4)] .
  have res: "resolve i approve (apr w) = (Inr ?a, ?st)"
    using assms(4,5) id by (simp add: resolve_def getApproval_def putApproval_def exec_simps Let_def)
  obtain e where run: "resolveApproval E now i approve note w = (Inr ?a, w\<lparr>apr := ?st, led := led w @ [e]\<rparr>)"
    by (cases rule: resolveApproval_out [of i approve w E now "note"])
      (use res in auto)
  let ?w1 = "w\<lparr>apr := ?st, led := led w @ [e]\<rparr>"
  let ?w2 = "w\<lparr>apr := ?st2, led := led w @ [e]\<rparr>"
  have gov: "governed E cs key now (Some (''Bearer '' @ key)) (PostApproval i approve note) w = (Inr (ApprovalBody ?a), ?w1)"
    using assms(2) run by (simp add: governed_run exec_simps)
  have match: "policyActionMatches E act act st = (Inr True, st)" for st :: approvals_st
    by (rule policyActionMatches_refl) (rule assms(8))
  have con: "consume E i d act ?st = (Inr (?a\<lparr>status := Consumed\<rparr>), ?st2)"
    using assms(6,7) id match by (cases approve) (simp_all add: consume_def getApproval_def putApproval_def exec_simps Let_def)
  have con2: "consume E i d act ?st2 = (Inl ConflictError, ?st2)"
    by (simp add: consume_def getApproval_def exec_simps)
  have own: "signWithKey E (idn w) d p = Signed (signDetached E p sk (d @ key_id k))"
    using assms(9-11) by (simp add: signWithKey_def Let_def)
  note at1 = parked_later [OF assms(3,12,13)] and at2 = parked_later [OF assms(3,14,15)]
  have sign: "signWithinPolicy E t1 d p act (Some i) ?w1 =
      (Inr (if approve then Signed (signDetached E p sk (d @ key_id k))
            else Refused (Deny [''approval '' @ i @ '' was denied''])), ?w2)"
    using con own by (subst parked_redeem [OF at1]) (simp_all add: bindE_app inApprovals_app)
  have again: "signWithinPolicy E t2 d p act (Some i) ?w2 = (Inl ConflictError, ?w2)"
    using con2 by (subst parked_redeem [OF at2]) (simp_all add: bindE_app inApprovals_app)
  have "redeemed (apr ?w2) i \<and> ?w2 = ?w1\<lparr>apr := apr ?w2\<rparr>" by (simp add: redeemed_def)
  then show ?thesis using gov sign again by blast
qed

end
