(* ===== verification/Rails.thy ===== *)
theory Rails
  imports Wallet_Spec
begin

text \<open>
  Settlement rails: the payment objects of \<open>src/domain/payment.ts\<close>, the adapters
  \<open>dev-rail.ts\<close> and \<open>x402-rail.ts\<close> and the registry \<open>rail/registry.ts\<close>. A rail is an adapter
  over the wallet; the locale \<open>rail_port\<close> states what the facilitator relies on, and both
  adapters are shown to provide it.
\<close>

section \<open>Payment objects\<close>

datatype pay_scheme = Exact | Upto | Streaming

record requirements =
  rq_scheme :: pay_scheme
  rq_rail :: string
  network :: string
  asset :: string
  rq_amount :: string
  pay_to :: string
  rq_quote_id :: string
  rq_nonce :: string
  rq_expires :: string
  facilitator :: string

record authorization =
  au_from :: string
  au_to :: string
  au_value :: string
  validAfter :: string
  validBefore :: string
  au_nonce :: string

record payment =
  p_scheme :: pay_scheme
  p_rail :: string
  authorization :: authorization
  p_quote_id :: string
  p_from :: string
  p_to :: string
  p_amount :: string
  p_currency :: string
  p_nonce :: string
  p_iat :: string
  p_exp :: string
  p_sig :: string

abbreviation payMoney :: "payment \<Rightarrow> money" where
  "payMoney p \<equiv> \<lparr>amount = p_amount p, currency = p_currency p\<rparr>"

text \<open>The result of \<open>verify\<close>: \<open>{ok: true}\<close>, or \<open>{ok: false, reason}\<close>.\<close>

datatype verify_result = VOk | VBad string

record settlement_result =
  sr_settledAt :: string
  railRef :: string

section \<open>The adapters\<close>

definition amountsEqual :: "ext \<Rightarrow> string \<Rightarrow> string \<Rightarrow> bool" where
  "amountsEqual E a b =
     (case bigVal E a of None \<Rightarrow> False
      | Some x \<Rightarrow> (case bigVal E b of None \<Rightarrow> False | Some y \<Rightarrow> x = y))"

text \<open>\<open>isNonEmpty\<close> on a field that the schema already made a string.\<close>

definition isNonEmpty :: "string \<Rightarrow> bool" where
  "isNonEmpty s = (s \<noteq> [])"

definition checkFunds :: "ext \<Rightarrow> payment \<Rightarrow> (wallet_st, verify_result) exec" where
  "checkFunds E p =
     bindE (gets (balanceOf (p_from p) (p_currency p))) (\<lambda>b.
     bindE (ltE E (amount b) (p_amount p)) (\<lambda>low.
     ret (if low then VBad ''insufficient funds'' else VOk)))"

definition devVerify :: "ext \<Rightarrow> int \<Rightarrow> payment \<Rightarrow> requirements \<Rightarrow> (wallet_st, verify_result) exec" where
  "devVerify E now p rq =
     (if p_to p \<noteq> pay_to rq then ret (VBad ''payee mismatch'')
      else if p_quote_id p \<noteq> rq_quote_id rq then ret (VBad ''quote_id mismatch'')
      else if p_currency p \<noteq> asset rq then ret (VBad ''currency mismatch'')
      else if \<not> amountsEqual E (p_amount p) (rq_amount rq) then ret (VBad ''amount mismatch'')
      else checkFunds E p)"

definition devSettle :: "ext \<Rightarrow> int \<Rightarrow> payment \<Rightarrow> requirements \<Rightarrow> (wallet_st, settlement_result) exec" where
  "devSettle E now p rq =
     bindE (devVerify E now p rq) (\<lambda>verified.
     bindE (throwIf (verified \<noteq> VOk) RailError) (\<lambda>_.
     bindE (debit E (p_from p) (payMoney p)) (\<lambda>_.
     bindE (credit E (p_to p) (payMoney p)) (\<lambda>_.
     ret \<lparr>sr_settledAt = isoOf E now, railRef = ''dev:'' @ p_quote_id p @ '':'' @ p_nonce p\<rparr>))))"

definition validateAuthShape :: "ext \<Rightarrow> int \<Rightarrow> authorization \<Rightarrow> payment \<Rightarrow> requirements \<Rightarrow> verify_result" where
  "validateAuthShape E now au p rq =
     (if \<not> isNonEmpty (au_from au) \<or> \<not> isNonEmpty (au_to au) \<or> \<not> isNonEmpty (au_value au)
      then VBad ''authorization missing from/to/value''
      else if \<not> isNonEmpty (au_nonce au) then VBad ''authorization missing nonce''
      else if au_from au \<noteq> p_from p then VBad ''authorization.from does not match payer''
      else if au_to au \<noteq> pay_to rq then VBad ''authorization.to does not match pay_to''
      else if \<not> amountsEqual E (au_value au) (rq_amount rq)
      then VBad ''authorization.value does not match amount''
      else (case (dateMs E (validAfter au), dateMs E (validBefore au)) of
          (Some after, Some before) \<Rightarrow>
            if \<not> before > now then VBad ''authorization expired (validBefore <= now)''
            else if \<not> now > after then VBad ''authorization not yet valid (validAfter >= now)''
            else VOk
        | _ \<Rightarrow> VBad ''authorization time window malformed''))"

definition x402Verify :: "ext \<Rightarrow> int \<Rightarrow> payment \<Rightarrow> requirements \<Rightarrow> (wallet_st, verify_result) exec" where
  "x402Verify E now p rq =
     (if p_to p \<noteq> pay_to rq then ret (VBad ''payee mismatch'')
      else if p_quote_id p \<noteq> rq_quote_id rq then ret (VBad ''quote_id mismatch'')
      else if p_currency p \<noteq> asset rq then ret (VBad ''currency mismatch'')
      else if \<not> amountsEqual E (p_amount p) (rq_amount rq) then ret (VBad ''amount mismatch'')
      else
        (let shape = validateAuthShape E now (authorization p) p rq in
         if shape \<noteq> VOk then ret shape else checkFunds E p))"

definition x402Settle :: "ext \<Rightarrow> int \<Rightarrow> payment \<Rightarrow> requirements \<Rightarrow> (wallet_st, settlement_result) exec" where
  "x402Settle E now p rq =
     bindE (x402Verify E now p rq) (\<lambda>verified.
     bindE (throwIf (verified \<noteq> VOk) RailError) (\<lambda>_.
     bindE (debit E (p_from p) (payMoney p)) (\<lambda>_.
     bindE (credit E (p_to p) (payMoney p)) (\<lambda>_.
     ret \<lparr>sr_settledAt = isoOf E now, railRef = ''x402:'' @ au_nonce (authorization p)\<rparr>))))"

section \<open>The registry\<close>

record rail_adapter =
  rail_id :: string
  rail_verify :: "int \<Rightarrow> payment \<Rightarrow> requirements \<Rightarrow> (wallet_st, verify_result) exec"
  rail_settle :: "int \<Rightarrow> payment \<Rightarrow> requirements \<Rightarrow> (wallet_st, settlement_result) exec"

type_synonym rail_registry = "(string, rail_adapter) jsmap"

definition devRail :: "ext \<Rightarrow> rail_adapter" where
  "devRail E = \<lparr>rail_id = ''dev'', rail_verify = devVerify E, rail_settle = devSettle E\<rparr>"

definition x402Rail :: "ext \<Rightarrow> rail_adapter" where
  "x402Rail E = \<lparr>rail_id = ''x402'', rail_verify = x402Verify E, rail_settle = x402Settle E\<rparr>"

definition registerRail :: "rail_adapter \<Rightarrow> rail_registry \<Rightarrow> app_error + rail_registry" where
  "registerRail r rails =
     (if mapGet rails (rail_id r) \<noteq> None then Inl RailError else Inr (mapSet (rail_id r) r rails))"

fun registerRails :: "rail_adapter list \<Rightarrow> rail_registry \<Rightarrow> app_error + rail_registry" where
  "registerRails [] rails = Inr rails"
| "registerRails (r # rs) rails =
     (case registerRail r rails of Inl e \<Rightarrow> Inl e | Inr rails' \<Rightarrow> registerRails rs rails')"

definition buildRailRegistry :: "ext \<Rightarrow> rail_adapter list \<Rightarrow> app_error + rail_registry" where
  "buildRailRegistry E extraRails = registerRails (devRail E # x402Rail E # extraRails) []"

definition listRails :: "rail_registry \<Rightarrow> string list" where
  "listRails rails = map fst rails"

definition getRailOrThrow :: "rail_registry \<Rightarrow> string \<Rightarrow> ('s, rail_adapter) exec" where
  "getRailOrThrow rails i = orThrow (mapGet rails i) RailError"

section \<open>What a rail promises\<close>

locale rail_port =
  fixes ok :: "'s \<Rightarrow> bool"
    and val :: "string \<Rightarrow> rat option"
    and acct :: "string \<Rightarrow> string \<Rightarrow> 'k"
    and avail :: "'s \<Rightarrow> 'k \<Rightarrow> rat"
    and funds :: "string \<Rightarrow> 's \<Rightarrow> rat"
    and book :: "'s \<Rightarrow> 'b"
    and verify_p :: "int \<Rightarrow> payment \<Rightarrow> requirements \<Rightarrow> ('s, verify_result) exec"
    and settle_p :: "int \<Rightarrow> payment \<Rightarrow> requirements \<Rightarrow> ('s, settlement_result) exec"
  assumes verify_state: "snd (verify_p now p rq s) = s"
    and settle_book: "book (snd (settle_p now p rq s)) = book s"
    and settle_bad: "ok s \<Longrightarrow> settle_p now p rq s = (Inl e, s') \<Longrightarrow>
      ok s' \<and> (\<forall>k. avail s' k = avail s k) \<and> (\<forall>c. funds c s' = funds c s)"
    and settle_ok: "ok s \<Longrightarrow> settle_p now p rq s = (Inr r, s') \<Longrightarrow>
      \<exists>v. val (p_amount p) = Some v \<and> val (rq_amount rq) = Some v \<and> 0 < v \<and>
        p_to p = pay_to rq \<and> p_currency p = asset rq \<and> p_quote_id p = rq_quote_id rq \<and>
        v \<le> avail s (acct (p_from p) (p_currency p)) \<and> ok s' \<and>
        (\<forall>k. avail s' k = avail s k - (if k = acct (p_from p) (p_currency p) then v else 0)
           + (if k = acct (p_to p) (p_currency p) then v else 0)) \<and>
        (\<forall>c. funds c s' = funds c s)"
begin

text \<open>Verifying and settling: nothing but the settlement moves value, and it moves the required amount.\<close>

definition runRail :: "int \<Rightarrow> payment \<Rightarrow> requirements \<Rightarrow> ('s, settlement_result) exec" where
  "runRail now p rq =
     bindE (verify_p now p rq) (\<lambda>v.
     bindE (throwIf (v \<noteq> VOk) PaymentRequiredError) (\<lambda>_. settle_p now p rq))"

lemma runRail_cases:
  assumes "ok s"
  obtains (fail) e s' where "runRail now p rq s = (Inl e, s')" "ok s'" "\<And>k. avail s' k = avail s k"
    "\<And>c. funds c s' = funds c s"
  | (paid) r v s' where "runRail now p rq s = (Inr r, s')" "ok s'" "book s' = book s" "settle_p now p rq s = (Inr r, s')"
    "val (p_amount p) = Some v" "val (rq_amount rq) = Some v" "0 < v" "p_to p = pay_to rq"
    "v \<le> avail s (acct (p_from p) (p_currency p))"
    "\<And>k. avail s' k = avail s k - (if k = acct (p_from p) (p_currency p) then v else 0)
       + (if k = acct (p_to p) (p_currency p) then v else 0)"
    "\<And>c. funds c s' = funds c s"
proof -
  obtain x where v: "verify_p now p rq s = (x, s)" using verify_state by (metis prod.collapse)
  show ?thesis
  proof (cases "x = Inr VOk")
    case False
    then have "\<exists>e. runRail now p rq s = (Inl e, s)"
      using v by (cases x) (auto simp: runRail_def exec_simps)
    then show ?thesis using fail assms by blast
  next
    case True
    then have r: "runRail now p rq s = settle_p now p rq s" using v by (simp add: runRail_def exec_simps)
    obtain y s' where y: "settle_p now p rq s = (y, s')" by (metis prod.collapse)
    show ?thesis
    proof (cases y)
      case (Inl e)
      then show ?thesis using settle_bad [OF assms] r y fail by auto
    next
      case (Inr res)
      note st = y [unfolded Inr]
      from settle_ok [OF assms st] obtain v where
        "val (p_amount p) = Some v" "val (rq_amount rq) = Some v" "0 < v" "p_to p = pay_to rq"
        "v \<le> avail s (acct (p_from p) (p_currency p))" "ok s'"
        "\<forall>k. avail s' k = avail s k - (if k = acct (p_from p) (p_currency p) then v else 0)
           + (if k = acct (p_to p) (p_currency p) then v else 0)"
        "\<forall>c. funds c s' = funds c s"
        by (elim exE conjE)
      then show ?thesis using paid [of res s' v] r st settle_book [of now p rq s] by simp
    qed
  qed
qed

end

section \<open>The built-in rails keep the promise\<close>

lemma keeps_checkFunds: "keeps P (checkFunds E p)"
  unfolding checkFunds_def by (intro keeps_rules)

lemma keeps_devVerify: "keeps P (devVerify E now p rq)"
  unfolding devVerify_def by (intro keeps_if keeps_ret keeps_checkFunds)

lemma keeps_x402Verify: "keeps P (x402Verify E now p rq)"
  unfolding x402Verify_def Let_def by (intro keeps_if keeps_ret keeps_checkFunds)

lemma keeps_state: "(\<And>P. keeps P m) \<Longrightarrow> snd (m s) = s"
  using keepsD [of "\<lambda>t. t = s" m s] by simp

lemma amountsEqual_val: "amountsEqual E a b \<Longrightarrow> bigVal E a = Some v \<Longrightarrow> bigVal E b = Some v"
  by (auto simp: amountsEqual_def split: option.splits)

definition agreed :: "ext \<Rightarrow> payment \<Rightarrow> requirements \<Rightarrow> bool" where
  "agreed E p rq \<longleftrightarrow> p_to p = pay_to rq \<and> p_quote_id p = rq_quote_id rq \<and> p_currency p = asset rq \<and>
     amountsEqual E (p_amount p) (rq_amount rq)"

lemma devVerify_agreed: "devVerify E now p rq s = (Inr VOk, s') \<Longrightarrow> agreed E p rq"
  by (auto simp: devVerify_def agreed_def split: if_splits)

lemma x402Verify_agreed:
  "x402Verify E now p rq s = (Inr VOk, s') \<Longrightarrow> agreed E p rq \<and> validateAuthShape E now (authorization p) p rq = VOk"
  by (auto simp: x402Verify_def agreed_def Let_def split: if_splits)

text \<open>The common tail of both settlements.\<close>

definition railTransfer :: "ext \<Rightarrow> payment \<Rightarrow> settlement_result \<Rightarrow> (wallet_st, settlement_result) exec" where
  "railTransfer E p res =
     bindE (debit E (p_from p) (payMoney p)) (\<lambda>_. bindE (credit E (p_to p) (payMoney p)) (\<lambda>_. ret res))"

lemma railTransfer_cases:
  assumes "wallet_ok E s"
  obtains (fail) e s' where "railTransfer E p res s = (Inl e, s')" "wallet_ok E s'"
    "\<And>k. availAt E (rows s') k = availAt E (rows s) k" "\<And>c. worth E c s' = worth E c s"
  | (paid) v s' where "railTransfer E p res s = (Inr res, s')" "wallet_ok E s'"
    "bigVal E (p_amount p) = Some v" "0 < v" "v \<le> availAt E (rows s) (walletKey (p_from p) (p_currency p))"
    "\<And>k. availAt E (rows s') k = availAt E (rows s) k
       - (if k = walletKey (p_from p) (p_currency p) then v else 0)
       + (if k = walletKey (p_to p) (p_currency p) then v else 0)"
    "\<And>c. worth E c s' = worth E c s"
proof -
  have eq: "railTransfer E p res = bindE (bindE (debit E (p_from p) (payMoney p)) (\<lambda>_. credit E (p_to p) (payMoney p)))
      (\<lambda>_. ret res)"
    by (simp add: railTransfer_def bindE_assoc)
  show ?thesis
  proof (cases rule: wal.transfer_cases [OF assms, of "p_from p" "payMoney p" "p_to p"])
    case (1 e s')
    then show ?thesis by (intro fail [of e s']) (simp_all add: eq bindE_err)
  next
    case (2 v s')
    then show ?thesis by (intro paid [of s' v]) (simp_all add: eq bindE_ok)
  qed
qed

definition railSound :: "ext \<Rightarrow> rail_adapter \<Rightarrow> bool" where
  "railSound E ad \<longleftrightarrow> rail_port (wallet_ok E) (bigVal E) walletKey (\<lambda>s. availAt E (rows s)) (worth E) spends
     (rail_verify ad) (rail_settle ad)"

lemma settle_law:
  assumes pure: "\<And>P. keeps P vf"
    and agr: "\<forall>t. vf s = (Inr VOk, t) \<longrightarrow> agreed E p rq"
    and ok: "wallet_ok E s"
    and r: "bindE vf (\<lambda>verified. bindE (throwIf (verified \<noteq> VOk) RailError) (\<lambda>_. railTransfer E p res)) s = (x, s')"
  shows "wallet_ok E s'" "\<And>c. worth E c s' = worth E c s"
    "x = Inl e \<Longrightarrow> \<forall>k. availAt E (rows s') k = availAt E (rows s) k"
    "x = Inr res' \<Longrightarrow> \<exists>v. bigVal E (p_amount p) = Some v \<and> agreed E p rq \<and> 0 < v \<and>
       v \<le> availAt E (rows s) (walletKey (p_from p) (p_currency p)) \<and>
       (\<forall>k. availAt E (rows s') k = availAt E (rows s) k
          - (if k = walletKey (p_from p) (p_currency p) then v else 0)
          + (if k = walletKey (p_to p) (p_currency p) then v else 0))"
proof -
  obtain y where y: "vf s = (y, s)" using keeps_state [OF pure] by (metis prod.collapse)
  have "(\<exists>e. x = Inl e) \<and> s' = s \<or> (y = Inr VOk \<and> railTransfer E p res s = (x, s'))"
    using r y by (cases y) (auto simp: exec_simps split: if_splits)
  then show "wallet_ok E s'" "\<And>c. worth E c s' = worth E c s"
    "x = Inl e \<Longrightarrow> \<forall>k. availAt E (rows s') k = availAt E (rows s) k"
    "x = Inr res' \<Longrightarrow> \<exists>v. bigVal E (p_amount p) = Some v \<and> agreed E p rq \<and> 0 < v \<and>
       v \<le> availAt E (rows s) (walletKey (p_from p) (p_currency p)) \<and>
       (\<forall>k. availAt E (rows s') k = availAt E (rows s) k
          - (if k = walletKey (p_from p) (p_currency p) then v else 0)
          + (if k = walletKey (p_to p) (p_currency p) then v else 0))"
    by (cases rule: railTransfer_cases [OF ok, of p res]; use ok agr y in auto)+
qed

lemma devSettle_eq: "devSettle E now p rq =
    bindE (devVerify E now p rq) (\<lambda>verified. bindE (throwIf (verified \<noteq> VOk) RailError) (\<lambda>_.
      railTransfer E p \<lparr>sr_settledAt = isoOf E now, railRef = ''dev:'' @ p_quote_id p @ '':'' @ p_nonce p\<rparr>))"
  by (simp add: devSettle_def railTransfer_def)

lemma x402Settle_eq: "x402Settle E now p rq =
    bindE (x402Verify E now p rq) (\<lambda>verified. bindE (throwIf (verified \<noteq> VOk) RailError) (\<lambda>_.
      railTransfer E p \<lparr>sr_settledAt = isoOf E now, railRef = ''x402:'' @ au_nonce (authorization p)\<rparr>))"
  by (simp add: x402Settle_def railTransfer_def)

lemma agreedD: "agreed E p rq \<Longrightarrow> bigVal E (p_amount p) = Some v \<Longrightarrow> bigVal E (rq_amount rq) = Some v \<and>
    p_to p = pay_to rq \<and> p_currency p = asset rq \<and> p_quote_id p = rq_quote_id rq"
  using amountsEqual_val by (auto simp: agreed_def)

lemma devSettle_law:
  assumes "wallet_ok E s" "devSettle E now p rq s = (x, s')"
  shows "wallet_ok E s'" "worth E c s' = worth E c s"
    "x = Inl e \<Longrightarrow> \<forall>k. availAt E (rows s') k = availAt E (rows s) k"
    "x = Inr res \<Longrightarrow> \<exists>v. bigVal E (p_amount p) = Some v \<and> agreed E p rq \<and> 0 < v \<and>
       v \<le> availAt E (rows s) (walletKey (p_from p) (p_currency p)) \<and>
       (\<forall>k. availAt E (rows s') k = availAt E (rows s) k
          - (if k = walletKey (p_from p) (p_currency p) then v else 0)
          + (if k = walletKey (p_to p) (p_currency p) then v else 0))"
proof -
  have "\<forall>t. devVerify E now p rq s = (Inr VOk, t) \<longrightarrow> agreed E p rq"
    using devVerify_agreed by blast
  note law = settle_law [OF keeps_devVerify this assms(1) assms(2) [unfolded devSettle_eq]]
  show "wallet_ok E s'" "worth E c s' = worth E c s" by (rule law(1), rule law(2))
  show "x = Inl e \<Longrightarrow> \<forall>k. availAt E (rows s') k = availAt E (rows s) k" by (rule law(3))
  show "x = Inr res \<Longrightarrow> \<exists>v. bigVal E (p_amount p) = Some v \<and> agreed E p rq \<and> 0 < v \<and>
       v \<le> availAt E (rows s) (walletKey (p_from p) (p_currency p)) \<and>
       (\<forall>k. availAt E (rows s') k = availAt E (rows s) k
          - (if k = walletKey (p_from p) (p_currency p) then v else 0)
          + (if k = walletKey (p_to p) (p_currency p) then v else 0))" by (rule law(4))
qed

lemma x402Settle_law:
  assumes "wallet_ok E s" "x402Settle E now p rq s = (x, s')"
  shows "wallet_ok E s'" "worth E c s' = worth E c s"
    "x = Inl e \<Longrightarrow> \<forall>k. availAt E (rows s') k = availAt E (rows s) k"
    "x = Inr res \<Longrightarrow> \<exists>v. bigVal E (p_amount p) = Some v \<and> agreed E p rq \<and> 0 < v \<and>
       v \<le> availAt E (rows s) (walletKey (p_from p) (p_currency p)) \<and>
       (\<forall>k. availAt E (rows s') k = availAt E (rows s) k
          - (if k = walletKey (p_from p) (p_currency p) then v else 0)
          + (if k = walletKey (p_to p) (p_currency p) then v else 0))"
proof -
  have "\<forall>t. x402Verify E now p rq s = (Inr VOk, t) \<longrightarrow> agreed E p rq"
    using x402Verify_agreed by blast
  note law = settle_law [OF keeps_x402Verify this assms(1) assms(2) [unfolded x402Settle_eq]]
  show "wallet_ok E s'" "worth E c s' = worth E c s" by (rule law(1), rule law(2))
  show "x = Inl e \<Longrightarrow> \<forall>k. availAt E (rows s') k = availAt E (rows s) k" by (rule law(3))
  show "x = Inr res \<Longrightarrow> \<exists>v. bigVal E (p_amount p) = Some v \<and> agreed E p rq \<and> 0 < v \<and>
       v \<le> availAt E (rows s) (walletKey (p_from p) (p_currency p)) \<and>
       (\<forall>k. availAt E (rows s') k = availAt E (rows s) k
          - (if k = walletKey (p_from p) (p_currency p) then v else 0)
          + (if k = walletKey (p_to p) (p_currency p) then v else 0))" by (rule law(4))
qed

lemma railTransfer_spends: "keeps (\<lambda>s. spends s = b) (railTransfer E p res)"
  unfolding railTransfer_def debit_def credit_def getOrCreate_def putRow_def assertPositive_def
  by (intro keeps_rules) simp_all

lemma settle_spends:
  "spends (snd (devSettle E now p rq s)) = spends s" "spends (snd (x402Settle E now p rq s)) = spends s"
  by (rule keepsD [where P = "\<lambda>t. spends t = spends s"];
      simp add: devSettle_eq x402Settle_eq keeps_bindE keeps_devVerify keeps_x402Verify keeps_throwIf railTransfer_spends)+

interpretation dev: rail_port "wallet_ok E" "bigVal E" walletKey "\<lambda>s. availAt E (rows s)" "worth E" spends
    "devVerify E" "devSettle E" for E
proof unfold_locales
  fix now p rq s
  show "snd (devVerify E now p rq s) = s" by (rule keeps_state) (rule keeps_devVerify)
next
  fix now p rq s
  show "spends (snd (devSettle E now p rq s)) = spends s" by (rule settle_spends)
next
  fix now p rq s e s'
  assume a: "wallet_ok E s" "devSettle E now p rq s = (Inl e, s')"
  show "wallet_ok E s' \<and> (\<forall>k. availAt E (rows s') k = availAt E (rows s) k) \<and> (\<forall>c. worth E c s' = worth E c s)"
    using devSettle_law(1,2) [OF a] devSettle_law(3) [OF a refl] by blast
next
  fix now p rq s r s'
  assume a: "wallet_ok E s" "devSettle E now p rq s = (Inr r, s')"
  show "\<exists>v. bigVal E (p_amount p) = Some v \<and> bigVal E (rq_amount rq) = Some v \<and> 0 < v \<and>
        p_to p = pay_to rq \<and> p_currency p = asset rq \<and> p_quote_id p = rq_quote_id rq \<and>
        v \<le> availAt E (rows s) (walletKey (p_from p) (p_currency p)) \<and> wallet_ok E s' \<and>
        (\<forall>k. availAt E (rows s') k = availAt E (rows s) k
           - (if k = walletKey (p_from p) (p_currency p) then v else 0)
           + (if k = walletKey (p_to p) (p_currency p) then v else 0)) \<and>
        (\<forall>c. worth E c s' = worth E c s)"
    using devSettle_law(1,2) [OF a] devSettle_law(4) [OF a refl] agreedD [of E p rq] by blast
qed

interpretation x402: rail_port "wallet_ok E" "bigVal E" walletKey "\<lambda>s. availAt E (rows s)" "worth E" spends
    "x402Verify E" "x402Settle E" for E
proof unfold_locales
  fix now p rq s
  show "snd (x402Verify E now p rq s) = s" by (rule keeps_state) (rule keeps_x402Verify)
next
  fix now p rq s
  show "spends (snd (x402Settle E now p rq s)) = spends s" by (rule settle_spends)
next
  fix now p rq s e s'
  assume a: "wallet_ok E s" "x402Settle E now p rq s = (Inl e, s')"
  show "wallet_ok E s' \<and> (\<forall>k. availAt E (rows s') k = availAt E (rows s) k) \<and> (\<forall>c. worth E c s' = worth E c s)"
    using x402Settle_law(1,2) [OF a] x402Settle_law(3) [OF a refl] by blast
next
  fix now p rq s r s'
  assume a: "wallet_ok E s" "x402Settle E now p rq s = (Inr r, s')"
  show "\<exists>v. bigVal E (p_amount p) = Some v \<and> bigVal E (rq_amount rq) = Some v \<and> 0 < v \<and>
        p_to p = pay_to rq \<and> p_currency p = asset rq \<and> p_quote_id p = rq_quote_id rq \<and>
        v \<le> availAt E (rows s) (walletKey (p_from p) (p_currency p)) \<and> wallet_ok E s' \<and>
        (\<forall>k. availAt E (rows s') k = availAt E (rows s) k
           - (if k = walletKey (p_from p) (p_currency p) then v else 0)
           + (if k = walletKey (p_to p) (p_currency p) then v else 0)) \<and>
        (\<forall>c. worth E c s' = worth E c s)"
    using x402Settle_law(1,2) [OF a] x402Settle_law(4) [OF a refl] agreedD [of E p rq] by blast
qed

lemma builtin_sound: "railSound E (devRail E)" "railSound E (x402Rail E)"
  using dev.rail_port_axioms [of E] x402.rail_port_axioms [of E]
  by (simp_all add: railSound_def devRail_def x402Rail_def)

definition builtinRails :: "ext \<Rightarrow> rail_registry" where
  "builtinRails E = [(''dev'', devRail E), (''x402'', x402Rail E)]"

lemma buildRailRegistry_builtin: "buildRailRegistry E [] = Inr (builtinRails E)"
  by (simp add: buildRailRegistry_def builtinRails_def registerRail_def devRail_def x402Rail_def)

lemma builtinRails_sound: "mapGet (builtinRails E) i = Some ad \<Longrightarrow> railSound E ad"
  using builtin_sound by (auto simp: builtinRails_def split: if_splits)

end
