(* ===== verification/Facilitator.thy ===== *)
theory Facilitator
  imports Frames Rails
begin

text \<open>
  The payment facilitator, \<open>src/features/settlement/facilitator/service.ts\<close>: the atomic pay
  call, from the registry's quote and the payer's signed payload through the policy signer and the
  rail to the signed receipt, the ledger, the reputation engine and the spend accumulator. Every
  call is run under the single-flight idempotency store. \<open>t0\<close> is the clock when the call
  arrives and \<open>t1\<close> when the rail settles.
\<close>

section \<open>Requests and results\<close>

record pay_body =
  b_quote :: quote
  b_payee :: string
  b_payment :: "payment option"
  b_result :: "json option"
  b_approval :: "string option"

datatype pay_result = Settled receipt | Parked string money "string list"

datatype pay_outcome =
    Requirements requirements
  | AwaitsApproval string money "string list"
  | GotReceipt receipt

record fac_cfg =
  facSigner :: core_signer
  repSigner :: core_signer
  registryDid :: string
  skewMs :: int
  facilitatorUrl :: string
  railReg :: rail_registry

record settle_world = core +
  rcpDrawn :: nat
  payCache :: "(string, pay_result) jsmap"

section \<open>The objects that are signed\<close>

fun schemeText :: "pay_scheme \<Rightarrow> string" where
  "schemeText Exact = ''exact''"
| "schemeText Upto = ''upto''"
| "schemeText Streaming = ''stream''"

definition authorizationJson :: "authorization \<Rightarrow> json" where
  "authorizationJson a = JObj [(''from'', JStr (au_from a)), (''to'', JStr (au_to a)),
     (''value'', JStr (au_value a)), (''validAfter'', JStr (validAfter a)),
     (''validBefore'', JStr (validBefore a)), (''nonce'', JStr (au_nonce a))]"

definition paymentObj :: "payment \<Rightarrow> (string \<times> json) list" where
  "paymentObj p = [(''scheme'', JStr (schemeText (p_scheme p))), (''rail'', JStr (p_rail p)),
     (''authorization'', authorizationJson (authorization p)), (''quote_id'', JStr (p_quote_id p)),
     (''from'', JStr (p_from p)), (''to'', JStr (p_to p)), (''amount'', JStr (p_amount p)),
     (''currency'', JStr (p_currency p)), (''nonce'', JStr (p_nonce p)), (''iat'', JStr (p_iat p)),
     (''exp'', JStr (p_exp p)), (''sig'', JStr (p_sig p))]"

definition quoteObj :: "quote \<Rightarrow> (string \<times> json) list" where
  "quoteObj q = [(''quote_id'', JStr (quote_id q)), (''listing_id'', JStr (q_listing_id q)),
     (''listing_version'', JStr (listing_version q)),
     (''price'', JObj [(''amount'', JStr (q_amount q)), (''currency'', JStr (q_currency q)), (''per'', JStr (q_per q))]),
     (''rail'', JStr (q_rail q)), (''requester'', JStr (requester q)), (''issued'', JStr (q_issued q)),
     (''expires'', JStr (q_expires q)), (''sig'', JStr (q_sig q))]"

section \<open>The pay call\<close>

definition validateQuote :: "ext \<Rightarrow> fac_cfg \<Rightarrow> int \<Rightarrow> quote \<Rightarrow> string \<Rightarrow> ('a core_scheme, unit) exec" where
  "validateQuote E cfg now q listingId =
     bindE (throwIf (q_listing_id q \<noteq> listingId) ValidationError) (\<lambda>_.
     bindE (throwIf (quoteIsExpired E q (isoOf E now)) PaymentRequiredError) (\<lambda>_.
     verifyAs E now (skewMs cfg) (quoteObj q) ((sigOpts (registryDid cfg))\<lparr>skipNonce := True\<rparr>)))"

definition buildRequirements :: "fac_cfg \<Rightarrow> quote \<Rightarrow> string \<Rightarrow> requirements" where
  "buildRequirements cfg q payeeDid =
     \<lparr>rq_scheme = Exact, rq_rail = q_rail q, network = ''praxis-internal'', asset = q_currency q,
      rq_amount = q_amount q, pay_to = payeeDid, rq_quote_id = quote_id q,
      rq_nonce = ''req:'' @ quote_id q, rq_expires = q_expires q, facilitator = facilitatorUrl cfg\<rparr>"

definition assertPayloadConsistent :: "quote \<Rightarrow> payment \<Rightarrow> string \<Rightarrow> ('s, unit) exec" where
  "assertPayloadConsistent q p payeeDid =
     bindE (throwIf (p_quote_id p \<noteq> quote_id q) ValidationError) (\<lambda>_.
     bindE (throwIf (p_to p \<noteq> payeeDid) ValidationError) (\<lambda>_.
     bindE (throwIf (p_currency p \<noteq> q_currency q) ValidationError) (\<lambda>_.
     bindE (throwIf (p_amount p \<noteq> q_amount q) ValidationError) (\<lambda>_.
     throwIf (p_rail p \<noteq> q_rail q) ValidationError))))"

definition spendAction :: "quote \<Rightarrow> payment \<Rightarrow> string \<Rightarrow> policy_action" where
  "spendAction q p payeeDid =
     \<lparr>a_kind = KSpend, a_agent = p_from p, a_amount = Some (payMoney p),
      a_category = Some (q_listing_id q), a_counterparty = Some payeeDid, a_subKind = None\<rparr>"

definition newReceiptId :: "ext \<Rightarrow> ('a settle_world_scheme, string) exec" where
  "newReceiptId E =
     bindE (gets rcpDrawn) (\<lambda>n.
     bindE (modify (\<lambda>w. w\<lparr>rcpDrawn := Suc n\<rparr>)) (\<lambda>_. ret (''rcp_'' @ ulid E n)))"

definition unsignedReceipt ::
    "ext \<Rightarrow> quote \<Rightarrow> payment \<Rightarrow> string \<Rightarrow> json option \<Rightarrow> string \<Rightarrow> string \<Rightarrow> int \<Rightarrow> string \<Rightarrow> receipt" where
  "unsignedReceipt E q p payeeDid result rid railId latency settledTime =
     \<lparr>receipt_id = rid, r_quote_id = Some (quote_id q), r_listing_id = Some (q_listing_id q),
      r_listing_version = Some (listing_version q), job_ref = None, payer = p_from p,
      payee = payeeDid, r_amount = payMoney p, rail = railId,
      result_hash = sha256Tagged E (canon E (case result of Some r \<Rightarrow> r | None \<Rightarrow> JObj (quoteObj q))),
      latency_ms = latency, outcome = Delivered, settled_at = settledTime, facilitator_sig = '''', payee_sig = ''''\<rparr>"

definition signReceipt :: "ext \<Rightarrow> core_signer \<Rightarrow> receipt \<Rightarrow> receipt" where
  "signReceipt E cs r =
     r\<lparr>facilitator_sig := signDetached E (JObj (unsignedReceiptObj r)) (cs_sk cs) (cs_kid cs)\<rparr>"

text \<open>The receipt and its records, once the rail has settled.\<close>

definition issueReceipt ::
    "ext \<Rightarrow> fac_cfg \<Rightarrow> int \<Rightarrow> int \<Rightarrow> quote \<Rightarrow> payment \<Rightarrow> string \<Rightarrow> json option \<Rightarrow> string \<Rightarrow> string \<Rightarrow>
     ('a settle_world_scheme, pay_result) exec" where
  "issueReceipt E cfg t0 t1 q p payeeDid result railId settledTime =
     bindE (newReceiptId E) (\<lambda>rid.
     let r = signReceipt E (facSigner cfg)
               (unsignedReceipt E q p payeeDid result rid railId (max 0 (t1 - t0)) settledTime) in
     bindE (appendLedger E t1 ''receipt'' (Some payeeDid) (JObj (receiptObj r))) (\<lambda>_.
     bindE (inReputation (ingestReceipt E (repSigner cfg) t1 r)) (\<lambda>_.
     bindE (inWallet (recordSpend E t1 (p_from p) (payMoney p))) (\<lambda>_.
     ret (Settled r)))))"

text \<open>The settlement once the signer has agreed.\<close>

definition charge ::
    "ext \<Rightarrow> fac_cfg \<Rightarrow> int \<Rightarrow> int \<Rightarrow> quote \<Rightarrow> payment \<Rightarrow> string \<Rightarrow> json option \<Rightarrow> ('a settle_world_scheme, pay_result) exec" where
  "charge E cfg t0 t1 q p payeeDid result =
     (let rq = buildRequirements cfg q payeeDid in
      bindE (getRailOrThrow (railReg cfg) (q_rail q)) (\<lambda>ad.
      bindE (inWallet (rail_verify ad t1 p rq)) (\<lambda>verified.
      bindE (throwIf (verified \<noteq> VOk) PaymentRequiredError) (\<lambda>_.
      bindE (inWallet (rail_settle ad t1 p rq)) (\<lambda>st.
      issueReceipt E cfg t0 t1 q p payeeDid result (rail_id ad) (sr_settledAt st))))))"

definition settle ::
    "ext \<Rightarrow> fac_cfg \<Rightarrow> int \<Rightarrow> int \<Rightarrow> quote \<Rightarrow> payment \<Rightarrow> string \<Rightarrow> json option \<Rightarrow> string option \<Rightarrow>
     ('a settle_world_scheme, pay_result) exec" where
  "settle E cfg t0 t1 q p payeeDid result approval =
     bindE (verifyAs E t0 (skewMs cfg) (paymentObj p) (sigOpts (p_from p))) (\<lambda>_.
     bindE (signWithinPolicy E t0 (p_from p) (JObj (paymentObj p)) (spendAction q p payeeDid) approval) (\<lambda>signed.
     case signed of
       Refused decision \<Rightarrow>
         (case decision of
            NeedsApproval threshold rs \<Rightarrow>
              bindE (inApprovals (enqueue E t0 (p_from p) (spendAction q p payeeDid) (JObj (paymentObj p)))) (\<lambda>pending.
              ret (Parked (approvalId pending) threshold rs))
          | _ \<Rightarrow> throw ForbiddenError)
     | Signed _ \<Rightarrow> charge E cfg t0 t1 q p payeeDid result))"

definition pay ::
    "ext \<Rightarrow> fac_cfg \<Rightarrow> int \<Rightarrow> int \<Rightarrow> string \<Rightarrow> string option \<Rightarrow> pay_body \<Rightarrow> ('a settle_world_scheme, pay_outcome) exec" where
  "pay E cfg t0 t1 listingId idempotencyKey body =
     (let q = b_quote body in
      bindE (validateQuote E cfg t0 q listingId) (\<lambda>_.
      case b_payment body of
        None \<Rightarrow> ret (Requirements (buildRequirements cfg q (b_payee body)))
      | Some p \<Rightarrow>
          bindE (throwIf (idempotencyKey = None \<or> idempotencyKey = Some '''') ValidationError) (\<lambda>_.
          bindE (assertPayloadConsistent q p (b_payee body)) (\<lambda>_.
          bindE (execute payCache payCache_update ''pay'' (the idempotencyKey @ '':'' @ quote_id q)
            (settle E cfg t0 t1 q p (b_payee body) (b_result body) (b_approval body))) (\<lambda>res.
          ret (case res of Parked i threshold rs \<Rightarrow> AwaitsApproval i threshold rs | Settled r \<Rightarrow> GotReceipt r))))))"

section \<open>What a settlement does\<close>

lemma recordSpend_keeps_rows:
  "rows (snd (recordSpend E now d m st)) = rows st" "holds (snd (recordSpend E now d m st)) = holds st"
  "drawn (snd (recordSpend E now d m st)) = drawn st"
  by (auto simp: recordSpend_def spendGetOrCreate_def assertPositive_def plusE_def bigE_def exec_simps Let_def
      split: option.splits sum.splits prod.splits)

lemma wallet_ok_cong:
  "rows st' = rows st \<Longrightarrow> holds st' = holds st \<Longrightarrow> drawn st' = drawn st \<Longrightarrow> wallet_ok E st' = wallet_ok E st"
  by (simp add: wallet_ok_def)

lemma keeps_recordSpend [keeps_rules]: "keeps (wallet_ok E) (recordSpend E now d m)"
  by (rule keepsI) (simp add: wallet_ok_cong [of "snd (recordSpend E now d m _)"] recordSpend_keeps_rows)

definition receiptFor ::
    "ext \<Rightarrow> fac_cfg \<Rightarrow> int \<Rightarrow> int \<Rightarrow> quote \<Rightarrow> payment \<Rightarrow> string \<Rightarrow> json option \<Rightarrow> string \<Rightarrow> string \<Rightarrow> nat \<Rightarrow> receipt" where
  "receiptFor E cfg t0 t1 q p payeeDid result railId settledTime n =
     signReceipt E (facSigner cfg)
       (unsignedReceipt E q p payeeDid result (''rcp_'' @ ulid E n) railId (max 0 (t1 - t0)) settledTime)"

lemma issueReceipt_out:
  assumes "r = receiptFor E cfg t0 t1 q p payeeDid result railId settledTime (rcpDrawn w)"
  obtains x w' en where "issueReceipt E cfg t0 t1 q p payeeDid result railId settledTime w = (x, w')"
    "x = Inr (Settled r) \<or> (\<exists>e. x = Inl e)" "led w' = led w @ [en]" "kind en = ''receipt''"
    "payload en = JObj (receiptObj r)" "rows (wal w') = rows (wal w)" "holds (wal w') = holds (wal w)"
    "drawn (wal w') = drawn (wal w)" "idn w' = idn w" "non w' = non w" "apr w' = apr w" "payCache w' = payCache w"
proof -
  have rr: "signReceipt E (facSigner cfg) (unsignedReceipt E q p payeeDid result (''rcp_'' @ ulid E (rcpDrawn w))
      railId (max 0 (t1 - t0)) settledTime) = r"
    by (simp add: assms receiptFor_def)
  let ?w1 = "w\<lparr>rcpDrawn := Suc (rcpDrawn w)\<rparr>"
  obtain en where a: "appendLedger E t1 ''receipt'' (Some payeeDid) (JObj (receiptObj r)) ?w1 =
      (Inr (), ?w1\<lparr>led := led ?w1 @ [en]\<rparr>)" "kind en = ''receipt''" "payload en = JObj (receiptObj r)"
    by (rule appendLedger_out)
  let ?w2 = "?w1\<lparr>led := led w @ [en]\<rparr>"
  obtain y s where i: "ingestReceipt E (repSigner cfg) t1 r (rep ?w2) = (y, s)" by (metis prod.collapse)
  let ?w3 = "?w2\<lparr>rep := s\<rparr>"
  have run: "issueReceipt E cfg t0 t1 q p payeeDid result railId settledTime w =
      (case y of Inl e \<Rightarrow> (Inl e, ?w3) | Inr _ \<Rightarrow>
        (bindE (inWallet (recordSpend E t1 (p_from p) (payMoney p))) (\<lambda>_. ret (Settled r))) ?w3)"
    using a(1) i
    by (simp add: issueReceipt_def newReceiptId_def exec_simps Let_def rr inReputation_app del: append_Cons)
  show ?thesis
  proof (cases y)
    case (Inl e)
    then show ?thesis using a run by (intro that [of "Inl e" ?w3 en]) auto
  next
    case (Inr u)
    obtain z t where z: "recordSpend E t1 (p_from p) (payMoney p) (wal ?w3) = (z, t)" by (metis prod.collapse)
    have t: "rows t = rows (wal w)" "holds t = holds (wal w)" "drawn t = drawn (wal w)"
      using recordSpend_keeps_rows [of E t1 "p_from p" "payMoney p" "wal ?w3"] z by simp_all
    have "issueReceipt E cfg t0 t1 q p payeeDid result railId settledTime w =
        (case z of Inl e \<Rightarrow> Inl e | Inr _ \<Rightarrow> Inr (Settled r), ?w3\<lparr>wal := t\<rparr>)"
      using run Inr z by (cases z) (simp_all add: exec_simps inWallet_app)
    then show ?thesis using a t by (intro that [of _ "?w3\<lparr>wal := t\<rparr>" en]) (auto split: sum.split)
  qed
qed

text \<open>Value moved from one account to another, or nowhere.\<close>

definition transferred :: "ext \<Rightarrow> string \<Rightarrow> string \<Rightarrow> string \<Rightarrow> rat \<Rightarrow> wallet_st \<Rightarrow> wallet_st \<Rightarrow> bool" where
  "transferred E src dst c v st st' \<longleftrightarrow> 0 < v \<and> v \<le> availAt E (rows st) (walletKey src c) \<and>
     (\<forall>k. availAt E (rows st') k = availAt E (rows st) k - (if k = walletKey src c then v else 0)
        + (if k = walletKey dst c then v else 0)) \<and>
     (\<forall>c. worth E c st' = worth E c st)"

definition fundsSame :: "ext \<Rightarrow> wallet_st \<Rightarrow> wallet_st \<Rightarrow> bool" where
  "fundsSame E st st' \<longleftrightarrow> (\<forall>k. availAt E (rows st') k = availAt E (rows st) k) \<and> (\<forall>c. worth E c st' = worth E c st)"

lemma fundsSame_refl [simp]: "fundsSame E st st"
  by (simp add: fundsSame_def)

lemma worth_rows_cong: "rows st' = rows st \<Longrightarrow> worth E c st' = worth E c st"
  by (simp add: worth_def)

lemma transferred_cong: "rows st'' = rows st' \<Longrightarrow> transferred E a b c v st st'' = transferred E a b c v st st'"
  by (simp add: transferred_def worth_def)

definition railsSound :: "ext \<Rightarrow> fac_cfg \<Rightarrow> bool" where
  "railsSound E cfg \<longleftrightarrow> (\<forall>i ad. mapGet (railReg cfg) i = Some ad \<longrightarrow> railSound E ad)"

lemma inWallet_bindE: "inWallet (bindE m k) = bindE (inWallet m) (\<lambda>x. inWallet (k x))"
  by (rule HOL.ext) (auto simp: inWallet_app bindE_app split: prod.split sum.split)

lemma inWallet_throwIf: "inWallet (throwIf b e) = throwIf b e"
  by (rule HOL.ext) (simp add: inWallet_app throwIf_app)

lemma charge_eq:
  assumes "mapGet (railReg cfg) (q_rail q) = Some ad" "railSound E ad"
  shows "charge E cfg t0 t1 q p payeeDid result =
    bindE (inWallet (rail_port.runRail (rail_verify ad) (rail_settle ad) t1 p (buildRequirements cfg q payeeDid)))
      (\<lambda>st. issueReceipt E cfg t0 t1 q p payeeDid result (rail_id ad) (sr_settledAt st))"
  unfolding charge_def Let_def getRailOrThrow_def assms(1) orThrow_def option.case bindE_ret bindE_assoc
    inWallet_bindE inWallet_throwIf rail_port.runRail_def [OF assms(2) [unfolded railSound_def]]
  by (rule refl)

lemma charge_out:
  assumes ok: "core_ok E w" and rs: "railsSound E cfg"
  obtains (refused) e w' where "charge E cfg t0 t1 q p payeeDid result w = (Inl e, w')"
    "fundsSame E (wal w) (wal w')" "led w' = led w" "payCache w' = payCache w"
  | (charged) v x w' en ad st n where "charge E cfg t0 t1 q p payeeDid result w = (x, w')"
    "mapGet (railReg cfg) (q_rail q) = Some ad"
    "x = Inr (Settled (receiptFor E cfg t0 t1 q p payeeDid result (rail_id ad) st n)) \<or> (\<exists>e. x = Inl e)"
    "led w' = led w @ [en]" "kind en = ''receipt''"
    "payload en = JObj (receiptObj (receiptFor E cfg t0 t1 q p payeeDid result (rail_id ad) st n))"
    "bigVal E (p_amount p) = Some v" "bigVal E (q_amount q) = Some v" "p_to p = payeeDid"
    "transferred E (p_from p) (p_to p) (p_currency p) v (wal w) (wal w')" "payCache w' = payCache w"
proof (cases "mapGet (railReg cfg) (q_rail q)")
  case None
  then have "charge E cfg t0 t1 q p payeeDid result w = (Inl RailError, w)"
    by (simp add: charge_def Let_def getRailOrThrow_def exec_simps)
  then show ?thesis by (intro refused [of RailError w]) auto
next
  case (Some ad)
  then have snd: "railSound E ad" using rs by (simp add: railsSound_def)
  note eq = charge_eq [OF Some snd, of t0 t1 p payeeDid result]
  let ?run = "rail_port.runRail (rail_verify ad) (rail_settle ad) t1 p (buildRequirements cfg q payeeDid)"
  show ?thesis
  proof (cases rule: rail_port.runRail_cases [OF snd [unfolded railSound_def] core_okD(1) [OF ok],
        of t1 p "buildRequirements cfg q payeeDid"])
    case (1 e s')
    then show ?thesis
      by (intro refused [of e "w\<lparr>wal := s'\<rparr>"]) (simp_all add: eq bindE_app inWallet_app fundsSame_def)
  next
    case (2 res v s')
    let ?w1 = "w\<lparr>wal := s'\<rparr>" and ?r = "receiptFor E cfg t0 t1 q p payeeDid result (rail_id ad) (sr_settledAt res) (rcpDrawn w)"
    obtain x w' en where i: "issueReceipt E cfg t0 t1 q p payeeDid result (rail_id ad) (sr_settledAt res) ?w1 = (x, w')"
      "x = Inr (Settled ?r) \<or> (\<exists>e. x = Inl e)" "led w' = led ?w1 @ [en]" "kind en = ''receipt''"
      "payload en = JObj (receiptObj ?r)" "rows (wal w') = rows (wal ?w1)" "payCache w' = payCache ?w1"
      by (rule issueReceipt_out [of ?r E cfg t0 t1 q p payeeDid result "rail_id ad" "sr_settledAt res" ?w1]) simp_all
    have "charge E cfg t0 t1 q p payeeDid result w = (x, w')"
      using 2(1) i(1) by (simp add: eq bindE_app inWallet_app)
    moreover have "transferred E (p_from p) (p_to p) (p_currency p) v (wal w) (wal w')"
      using 2 i(6) by (simp add: transferred_def worth_rows_cong [of "wal w'" s'])
    moreover have "bigVal E (q_amount q) = Some v" "p_to p = payeeDid"
      using 2 by (simp_all add: buildRequirements_def)
    ultimately show ?thesis using 2 i Some
      by (intro charged [of x w' ad "sr_settledAt res" "rcpDrawn w" en v]) simp_all
  qed
qed

section \<open>Replay\<close>

definition payMark :: "ext \<Rightarrow> payment \<Rightarrow> string option \<times> int option" where
  "payMark E p = (Some (p_nonce p), dateMs E (p_exp p))"

lemma paymentObj_field:
  "field (paymentObj p) ''nonce'' = Some (p_nonce p)" "field (paymentObj p) ''exp'' = Some (p_exp p)"
  "field (paymentObj p) ''sig'' = Some (p_sig p)"
  by (simp_all add: paymentObj_def)

lemma quoteObj_field:
  "field (quoteObj q) ''nonce'' = None" "field (quoteObj q) ''exp'' = None" "field (quoteObj q) ''sig'' = Some (q_sig q)"
  by (simp_all add: quoteObj_def)

text \<open>Verification as a presentation to the nonce store.\<close>

definition verification :: "ext \<Rightarrow> int \<Rightarrow> int \<Rightarrow> 'a auth_scheme \<Rightarrow> (string \<times> json) list \<Rightarrow> verify_opts \<Rightarrow> presentation" where
  "verification E now clk w obj opts =
     \<lparr>elapsed = nat (now - clk), p_resolver = resolverOf E (idn w), p_obj = obj, p_opts = opts\<rparr>"

lemma verifyAs_present:
  assumes "clk \<le> now" "\<not> skipNonce opts"
  shows "present E skew (verification E now clk w obj opts) (non w, clk) =
    ((case fst (verifyAs E now skew obj opts w) of Inl _ \<Rightarrow> False | Inr _ \<Rightarrow> True),
     (non (snd (verifyAs E now skew obj opts w)), now))"
  using assms by (cases opts) (auto simp: present_def verification_def verifyAs_def zoom_app Let_def split: prod.splits)

lemma verifyAs_spends_nonce:
  assumes "core_ok E w" "verifyAs E now skew (paymentObj p) (sigOpts d) w = (Inr (), w')"
  shows "nonceSpent (non w', now) (payMark E p)" "\<not> nonceSpent (non w, now) (payMark E p)"
proof -
  have m: "nonceMark E (verification E now now w (paymentObj p) (sigOpts d)) = payMark E p"
    by (simp add: nonceMark_def payMark_def verification_def paymentObj_field)
  have pr: "present E skew (verification E now now w (paymentObj p) (sigOpts d)) (non w, now) = (True, (non w', now))"
    using verifyAs_present [of now now "sigOpts d" E skew w "paymentObj p"] assms(2) by (simp add: sigOpts_def)
  have "storeOk (non w, now)" using core_okD(5) [OF assms(1)] by (simp add: storeOk_def)
  from nonces.use_true [OF this, of E skew "verification E now now w (paymentObj p) (sigOpts d)"]
  show "nonceSpent (non w', now) (payMark E p)" "\<not> nonceSpent (non w, now) (payMark E p)"
    by (simp_all add: pr m)
qed

definition spentBy :: "(string option \<times> int option) \<Rightarrow> int \<Rightarrow> 'a core_scheme \<Rightarrow> bool" where
  "spentBy m clk w \<longleftrightarrow> distinctKeys (non w) \<and> nonceSpent (non w, clk) m"

lemma spentBy_later: "spentBy m clk w \<Longrightarrow> clk \<le> now \<Longrightarrow> spentBy m now w"
  by (cases m; cases "fst m"; cases "snd m"; cases "mapGet (non w) (the (fst m))")
    (auto simp: spentBy_def nonceSpent_def)

lemma keeps_spentBy_verifyAs: "keeps (spentBy m now) (verifyAs E now skew obj opts)"
proof (rule keepsI)
  fix w :: "'a core_scheme"
  assume s: "spentBy m now w"
  obtain r n where v: "verifySignedObject E now skew (resolverOf E (idn w)) obj opts (non w) = (r, n)"
    by (metis prod.collapse)
  have w: "snd (verifyAs E now skew obj opts w) = w\<lparr>non := n\<rparr>" by (simp add: verifyAs_def zoom_app v)
  show "spentBy m now (snd (verifyAs E now skew obj opts w))"
    unfolding w using verify_store [OF v] checkAndConsume_spent [of "non w" now m now E]
      checkAndConsume_distinct s
    by (auto simp: spentBy_def)
qed

lemma keeps_spentBy_frames: "frames non m \<Longrightarrow> keeps (spentBy k now) m"
  by (auto simp: spentBy_def frames_def keeps_def)

lemma frames_issueReceipt [frames_rules]:
  "(\<And>w s. f (w\<lparr>wal := s\<rparr>) = f w) \<Longrightarrow> (\<And>w s. f (w\<lparr>led := s\<rparr>) = f w) \<Longrightarrow> (\<And>w s. f (w\<lparr>rep := s\<rparr>) = f w) \<Longrightarrow>
   (\<And>w s. f (w\<lparr>rcpDrawn := s\<rparr>) = f w) \<Longrightarrow> frames f (issueReceipt E cfg t0 t1 q p d res i t)"
  unfolding issueReceipt_def newReceiptId_def by (intro frames_rules)

lemma frames_charge [frames_rules]:
  "(\<And>w s. f (w\<lparr>wal := s\<rparr>) = f w) \<Longrightarrow> (\<And>w s. f (w\<lparr>led := s\<rparr>) = f w) \<Longrightarrow> (\<And>w s. f (w\<lparr>rep := s\<rparr>) = f w) \<Longrightarrow>
   (\<And>w s. f (w\<lparr>rcpDrawn := s\<rparr>) = f w) \<Longrightarrow> frames f (charge E cfg t0 t1 q p d res)"
  unfolding charge_def getRailOrThrow_def by (intro frames_rules)

lemma frames_assertPayloadConsistent [frames_rules]: "frames f (assertPayloadConsistent q p d)"
  unfolding assertPayloadConsistent_def by (intro frames_rules)

lemma keeps_spentBy_settle: "keeps (spentBy m t0) (settle E cfg t0 t1 q p d res ap)"
  unfolding settle_def
  by (intro keeps_bindE keeps_spentBy_verifyAs; (rule keeps_spentBy_frames)?; intro frames_rules)
    (auto split: sign_result.split policy_decision.split)

lemma keeps_spentBy_validateQuote: "keeps (spentBy m now) (validateQuote E cfg now q l)"
  unfolding validateQuote_def by (intro keeps_bindE keeps_throwIf keeps_spentBy_verifyAs)

lemma keeps_spentBy_pay: "keeps (spentBy m t0) (pay E cfg t0 t1 l k body)"
  unfolding pay_def Let_def
  by (intro keeps_bindE keeps_case_option keeps_spentBy_validateQuote keeps_ret keeps_throwIf
      keeps_execute keeps_spentBy_settle keeps_spentBy_frames [OF frames_assertPayloadConsistent])
    (simp add: spentBy_def)

section \<open>A pay call from end to end\<close>

definition signedBy :: "ext \<Rightarrow> identity_st \<Rightarrow> (string \<times> json) list \<Rightarrow> string \<Rightarrow> bool" where
  "signedBy E st obj d \<longleftrightarrow> (\<exists>sg pk. field obj ''sig'' = Some sg \<and>
     publicKeyFor (resolverOf E st) d None = Some pk \<and> \<not> isRevokedAt (resolverOf E st) d \<and>
     verifyDetached E (JObj (stripForSigning obj [''sig''])) sg pk)"

lemma verify_signature:
  assumes "verifySignedObject E now skew rs obj opts seen = (Inr (), seen')"
  shows "\<exists>sg pk. field obj (sigField opts) = Some sg \<and> publicKeyFor rs (signerDid opts) (keyId opts) = Some pk \<and>
    \<not> isRevokedAt rs (signerDid opts) \<and> verifyDetached E (JObj (stripForSigning obj (omitFields opts))) sg pk"
  using assms
  by (auto simp: verifySignedObject_def exec_simps checkSigner_def checkIat_def checkExp_def consumeNonce_def nonEmpty_def
      split: if_splits option.splits prod.splits sum.splits)

lemma verifyAs_signedBy:
  assumes "verifyAs E now skew obj opts w = (Inr (), w')" "sigField opts = ''sig''" "omitFields opts = [''sig'']"
    "keyId opts = None"
  shows "signedBy E (idn w) obj (signerDid opts)"
proof -
  obtain n where "verifySignedObject E now skew (resolverOf E (idn w)) obj opts (non w) = (Inr (), n)"
    using assms(1) by (auto simp: verifyAs_def zoom_app split: prod.splits)
  from verify_signature [OF this] assms show ?thesis by (simp add: signedBy_def)
qed

lemma sound_keeps:
  assumes "railSound E ad"
  shows "keeps (wallet_ok E) (rail_verify ad t p rq)" "keeps (wallet_ok E) (rail_settle ad t p rq)"
proof -
  note R = assms [unfolded railSound_def]
  show "keeps (wallet_ok E) (rail_verify ad t p rq)"
    by (rule keepsI) (simp add: rail_port.verify_state [OF R])
  show "keeps (wallet_ok E) (rail_settle ad t p rq)"
  proof (rule keepsI)
    fix s
    assume ok: "wallet_ok E s"
    obtain x s' where x: "rail_settle ad t p rq s = (x, s')" by (metis prod.collapse)
    then show "wallet_ok E (snd (rail_settle ad t p rq s))"
      using rail_port.settle_bad [OF R ok, of t p rq] rail_port.settle_ok [OF R ok, of t p rq]
      by (cases x) fastforce+
  qed
qed

lemma keeps_issueReceipt [keeps_rules]: "keeps (core_ok E) (issueReceipt E cfg t0 t1 q p d res i t)"
  unfolding issueReceipt_def newReceiptId_def Let_def
  by (intro keeps_bindE keeps_gets keeps_ret keeps_appendLedger keeps_inReputation keeps_ingestReceipt
      keeps_inWallet keeps_recordSpend keeps_modify) (simp add: core_ok_def)

lemma keeps_charge: "railsSound E cfg \<Longrightarrow> keeps (core_ok E) (charge E cfg t0 t1 q p d res)"
proof -
  assume rs: "railsSound E cfg"
  show ?thesis
  proof (cases "mapGet (railReg cfg) (q_rail q)")
    case None
    then show ?thesis unfolding charge_def Let_def getRailOrThrow_def orThrow_def
      by (simp add: bindE_throw keeps_throw)
  next
    case (Some ad)
    then have "railSound E ad" using rs by (simp add: railsSound_def)
    note k = sound_keeps [OF this]
    show ?thesis unfolding charge_def Let_def getRailOrThrow_def Some orThrow_def option.case bindE_ret
      by (intro keeps_bindE keeps_ret keeps_inWallet k keeps_throwIf keeps_issueReceipt)
  qed
qed

lemma keeps_settle: "railsSound E cfg \<Longrightarrow> keeps (core_ok E) (settle E cfg t0 t1 q p d res ap)"
  unfolding settle_def
  by (intro keeps_bindE keeps_verifyAs keeps_signWithinPolicy)
    (auto intro!: keeps_rules keeps_charge split: sign_result.split policy_decision.split)

lemma keeps_pay: "railsSound E cfg \<Longrightarrow> keeps (core_ok E) (pay E cfg t0 t1 l k body)"
  unfolding pay_def Let_def validateQuote_def assertPayloadConsistent_def
  by (intro keeps_bindE keeps_case_option keeps_verifyAs keeps_ret keeps_throwIf keeps_execute keeps_settle)
    (simp_all add: core_ok_def)

text \<open>The outcomes of a settlement.\<close>

lemma settle_out:
  assumes ok: "core_ok E w" and rs: "railsSound E cfg"
  obtains (refused) e w' where "settle E cfg t0 t1 q p d res ap w = (Inl e, w')" "fundsSame E (wal w) (wal w')"
    "led w' = led w" "payCache w' = payCache w"
  | (parked) i th rsn w' w1 where "settle E cfg t0 t1 q p d res ap w = (Inr (Parked i th rsn), w')"
    "fundsSame E (wal w) (wal w')" "led w' = led w" "payCache w' = payCache w"
    "verifyAs E t0 (skewMs cfg) (paymentObj p) (sigOpts (p_from p)) w = (Inr (), w1)"
    "spentBy (payMark E p) t0 w'"
  | (ran) w1 w2 sg where
    "verifyAs E t0 (skewMs cfg) (paymentObj p) (sigOpts (p_from p)) w = (Inr (), w1)"
    "signWithinPolicy E t0 (p_from p) (JObj (paymentObj p)) (spendAction q p d) ap w1 = (Inr (Signed sg), w2)"
    "settle E cfg t0 t1 q p d res ap w = charge E cfg t0 t1 q p d res w2"
    "wal w2 = wal w" "led w2 = led w" "payCache w2 = payCache w" "idn w2 = idn w" "core_ok E w2" "rep w2 = rep w"
    "spentBy (payMark E p) t0 w2"
proof -
  let ?V = "verifyAs E t0 (skewMs cfg) (paymentObj p) (sigOpts (p_from p))"
  let ?S = "signWithinPolicy E t0 (p_from p) (JObj (paymentObj p)) (spendAction q p d) ap"
  obtain x w1 where v: "?V w = (x, w1)" by (metis prod.collapse)
  have w1: "wal w1 = wal w" "led w1 = led w" "payCache w1 = payCache w" "idn w1 = idn w" "rep w1 = rep w"
    by (subst verifyAs_only [OF v], simp)+
  obtain y w2 where s: "?S w1 = (y, w2)" by (metis prod.collapse)
  have w2: "wal w2 = wal w" "led w2 = led w" "payCache w2 = payCache w" "idn w2 = idn w" "rep w2 = rep w" "non w2 = non w1"
    by (subst signWithinPolicy_only [OF s], simp add: w1)+
  have ok2: "core_ok E w2"
    using keepsD_pair [OF keeps_signWithinPolicy _ s] keepsD_pair [OF keeps_verifyAs ok v] by blast
  show ?thesis
  proof (cases x)
    case (Inl e)
    then have "settle E cfg t0 t1 q p d res ap w = (Inl e, w1)" by (simp add: settle_def bindE_app v)
    then show ?thesis by (rule refused) (simp_all add: w1)
  next
    case (Inr u)
    have spent: "spentBy (payMark E p) t0 w2"
      using verifyAs_spends_nonce(1) [OF ok, of t0 "skewMs cfg" p "p_from p" w1] v Inr w2(6) core_okD(5) [OF ok2]
      by (simp add: spentBy_def)
    show ?thesis
    proof (cases y)
      case Inl2: (Inl e)
      then have "settle E cfg t0 t1 q p d res ap w = (Inl e, w2)" using Inr by (simp add: settle_def bindE_app v s)
      then show ?thesis by (rule refused) (simp_all add: w2)
    next
      case Inr2: (Inr z)
      show ?thesis
      proof (cases z)
        case (Signed sg)
        then show ?thesis using Inr Inr2 v s w2 ok2 spent
          by (intro ran [of w1 sg w2]) (simp_all add: settle_def bindE_app)
      next
        case (Refused dec)
        show ?thesis
        proof (cases dec)
          case (NeedsApproval th rsn)
          obtain a ap' where "enqueue E t0 (p_from p) (spendAction q p d) (JObj (paymentObj p)) (apr w2) = (Inr a, ap')"
            by (simp add: enqueue_def exec_simps Let_def putApproval_def)
          then have "settle E cfg t0 t1 q p d res ap w = (Inr (Parked (approvalId a) th rsn), w2\<lparr>apr := ap'\<rparr>)"
            using Inr Inr2 Refused NeedsApproval by (simp add: settle_def bindE_app v s inApprovals_app)
          note run = this
          have v1: "?V w = (Inr (), w1)" using v Inr by simp
          show ?thesis
            by (rule parked [OF run _ _ _ v1]) (use spent in \<open>simp_all add: w2 spentBy_def\<close>)
        next
          case Allow
          then have "settle E cfg t0 t1 q p d res ap w = (Inl ForbiddenError, w2)"
            using Inr Inr2 Refused by (simp add: settle_def bindE_app v s)
          then show ?thesis by (rule refused) (simp_all add: w2)
        next
          case (Deny x)
          then have "settle E cfg t0 t1 q p d res ap w = (Inl ForbiddenError, w2)"
            using Inr Inr2 Refused by (simp add: settle_def bindE_app v s)
          then show ?thesis by (rule refused) (simp_all add: w2)
        qed
      qed
    qed
  qed
qed

end
