(* ===== verification/Facilitator_Spec.thy ===== *)
theory Facilitator_Spec
  imports Facilitator
begin

text \<open>
  What the pay call promises: a receipt means that exactly the quoted price moved from the payer
  to the payee, was logged and was signed for by both sides; every other normal answer moves
  nothing; a retry gets the same receipt without a second charge; and a signed payment is charged
  once whatever idempotency key it is presented under. The last part shows which failures leave a
  charge without a receipt.
\<close>

section \<open>The call before the settlement\<close>

lemma verify_skip_state:
  assumes "skipNonce opts"
  shows "snd (verifySignedObject E now skew rs obj opts seen) = seen"
proof (rule keeps_state)
  fix P :: "nonce_st \<Rightarrow> bool"
  have skip: "(if \<not> skipNonce opts then consumeNonce E now obj else ret ()) = ret ()" using assms by simp
  show "keeps P (verifySignedObject E now skew rs obj opts)"
    unfolding verifySignedObject_def checkIat_def checkExp_def checkSigner_def skip
    by (intro keeps_rules)
qed

lemma validateQuote_state: "snd (validateQuote E cfg now q l w) = w"
proof -
  have "snd (verifyAs E now (skewMs cfg) (quoteObj q) ((sigOpts (registryDid cfg))\<lparr>skipNonce := True\<rparr>) w) = w"
    using verify_skip_state [of "(sigOpts (registryDid cfg))\<lparr>skipNonce := True\<rparr>" E now "skewMs cfg"
        "resolverOf E (idn w)" "quoteObj q" "non w"]
    by (auto simp: verifyAs_def zoom_app split: prod.split)
  then show ?thesis
    by (auto simp: validateQuote_def exec_simps split: prod.splits sum.splits)
qed

lemma validateQuote_ok:
  assumes "validateQuote E cfg now q l w = (Inr (), w')"
  shows "q_listing_id q = l" "\<not> quoteIsExpired E q (isoOf E now)" "signedBy E (idn w) (quoteObj q) (registryDid cfg)"
proof -
  have v: "verifyAs E now (skewMs cfg) (quoteObj q) ((sigOpts (registryDid cfg))\<lparr>skipNonce := True\<rparr>) w = (Inr (), w')"
    using assms by (auto simp: validateQuote_def exec_simps split: if_splits)
  show "q_listing_id q = l" "\<not> quoteIsExpired E q (isoOf E now)"
    using assms by (auto simp: validateQuote_def exec_simps split: if_splits)
  show "signedBy E (idn w) (quoteObj q) (registryDid cfg)"
    using verifyAs_signedBy [OF v] by (simp add: sigOpts_def)
qed

lemma assertPayloadConsistent_ok:
  "assertPayloadConsistent q p d w = (Inr (), w') \<Longrightarrow>
   p_quote_id p = quote_id q \<and> p_to p = d \<and> p_currency p = q_currency q \<and> p_amount p = q_amount q \<and> p_rail p = q_rail q"
  by (auto simp: assertPayloadConsistent_def exec_simps split: if_splits)

lemma assertPayloadConsistent_state: "snd (assertPayloadConsistent q p d w) = w"
  by (simp add: assertPayloadConsistent_def exec_simps)

definition payKey :: "string \<Rightarrow> quote \<Rightarrow> string" where
  "payKey key q = composite ''pay'' (key @ '':'' @ quote_id q)"

definition answer :: "pay_result \<Rightarrow> pay_outcome" where
  "answer res = (case res of Parked i th rs \<Rightarrow> AwaitsApproval i th rs | Settled r \<Rightarrow> GotReceipt r)"

text \<open>The call with a payment: refused at the door, served from the cache, or settled.\<close>

lemma pay_cases:
  assumes "b_payment body = Some p"
  obtains (door) e where "pay E cfg t0 t1 l k body w = (Inl e, w)"
  | (hit) key res where "k = Some key" "mapGet (payCache w) (payKey key (b_quote body)) = Some res"
    "pay E cfg t0 t1 l k body w = (Inr (answer res), w)"
  | (fail) key e w' where "k = Some key" "mapGet (payCache w) (payKey key (b_quote body)) = None"
    "settle E cfg t0 t1 (b_quote body) p (b_payee body) (b_result body) (b_approval body) w = (Inl e, w')"
    "pay E cfg t0 t1 l k body w = (Inl e, w')"
    "assertPayloadConsistent (b_quote body) p (b_payee body) w = (Inr (), w)"
    "validateQuote E cfg t0 (b_quote body) l w = (Inr (), w)"
  | (ran) key res w' where "k = Some key" "mapGet (payCache w) (payKey key (b_quote body)) = None"
    "settle E cfg t0 t1 (b_quote body) p (b_payee body) (b_result body) (b_approval body) w = (Inr res, w')"
    "pay E cfg t0 t1 l k body w =
       (Inr (answer res), w'\<lparr>payCache := mapSet (payKey key (b_quote body)) res (payCache w')\<rparr>)"
    "assertPayloadConsistent (b_quote body) p (b_payee body) w = (Inr (), w)"
    "validateQuote E cfg t0 (b_quote body) l w = (Inr (), w)"
proof -
  let ?q = "b_quote body" and ?d = "b_payee body"
  obtain x where v: "validateQuote E cfg t0 ?q l w = (x, w)" using validateQuote_state by (metis prod.collapse)
  obtain y where a: "assertPayloadConsistent ?q p ?d w = (y, w)"
    using assertPayloadConsistent_state by (metis prod.collapse)
  show ?thesis
  proof (cases "\<exists>e. x = Inl e \<or> y = Inl e \<or> k = None \<or> k = Some ''''")
    case True
    then have "\<exists>e. pay E cfg t0 t1 l k body w = (Inl e, w)"
      using v a assms by (cases x; cases y) (auto simp: pay_def Let_def bindE_app throwIf_app)
    then show ?thesis using door by blast
  next
    case False
    then obtain key where k: "k = Some key" "key \<noteq> ''''" and v1: "x = Inr ()" "y = Inr ()"
      by (cases k; cases x; cases y) auto
    let ?S = "settle E cfg t0 t1 ?q p ?d (b_result body) (b_approval body)"
    let ?X = "execute payCache payCache_update ''pay'' (key @ '':'' @ quote_id ?q) ?S w"
    have run: "pay E cfg t0 t1 l k body w =
        (case ?X of (Inl e, w') \<Rightarrow> (Inl e, w') | (Inr res, w') \<Rightarrow> (Inr (answer res), w'))"
      using v a assms k v1
      by (auto simp: pay_def Let_def bindE_app throwIf_app answer_def split: prod.split sum.split pay_result.split)
    show ?thesis
    proof (cases "mapGet (payCache w) (payKey key ?q)")
      case (Some res)
      then show ?thesis using hit k run execute_hit [of payCache w "''pay''" "key @ '':'' @ quote_id ?q" res]
        by (simp add: payKey_def)
    next
      case None
      obtain z w' where z: "?S w = (z, w')" by (metis prod.collapse)
      have X: "?X = (case z of Inl e \<Rightarrow> (Inl e, w')
          | Inr r \<Rightarrow> (Inr r, w'\<lparr>payCache := mapSet (payKey key ?q) r (payCache w')\<rparr>))"
        using None execute_miss [of payCache w "''pay''" "key @ '':'' @ quote_id ?q" payCache_update ?S] z
        by (cases z) (simp_all add: payKey_def)
      show ?thesis
      proof (cases z)
        case (Inl e)
        then show ?thesis using fail [of key e w'] k None z run X v a v1 by simp
      next
        case (Inr res)
        then show ?thesis using ran [of key res w'] k None z run X v a v1 by simp
      qed
    qed
  qed
qed

section \<open>When the bookkeeping accepts a settled payment\<close>

definition repAccepts :: "ext \<Rightarrow> reputation_st \<Rightarrow> string \<Rightarrow> string \<Rightarrow> bool" where
  "repAccepts E st d c \<longleftrightarrow> d \<noteq> '''' \<and>
     (case mapGet (accs st) d of
        None \<Rightarrow> True
      | Some a \<Rightarrow> (settledCurrency a = None \<or> settledCurrency a = Some c) \<and> bigVal E (settledValue a) \<noteq> None)"

lemma countReceipt_value: "settledCurrency (countReceipt a r) = settledCurrency a" "settledValue (countReceipt a r) = settledValue a"
  by (auto simp: countReceipt_def foldOutcome_def Let_def split: receipt_outcome.split)

lemma addValue_accepts:
  assumes "settledCurrency a = None \<or> settledCurrency a = Some (currency m)" "bigVal E (settledValue a) = Some x"
    "bigVal E (amount m) = Some y"
  shows "\<exists>a'. addValue E a m st = (Inr a', st)"
  using assms by (auto simp: addValue_def exec_simps plusE_def)

lemma ingest_accepts:
  assumes "big_exact E" "repAccepts E st (payee r) (currency (r_amount r))" "payer r \<noteq> ''''"
    "bigVal E (amount (r_amount r)) = Some v"
  shows "\<exists>st'. ingestReceipt E cs now r st = (Inr (), st')"
proof -
  let ?d = "payee r"
  obtain a st1 where g: "accGetOrCreate ?d st = (Inr a, st1)" using accGetOrCreate_never by blast
  have a: "a = (case mapGet (accs st) ?d of None \<Rightarrow> emptyAccumulator | Some x \<Rightarrow> x)"
    using g by (auto simp: accGetOrCreate_def exec_simps split: option.splits)
  have d: "?d \<noteq> ''''" using assms(2) by (simp add: repAccepts_def)
  have cur: "settledCurrency a = None \<or> settledCurrency a = Some (currency (r_amount r))"
      "bigVal E (settledValue a) \<noteq> None"
    using assms(2) big_exact_zero [OF assms(1)] unfolding a
    by (auto simp: repAccepts_def emptyAccumulator_def split: option.splits)
  then obtain x where x: "bigVal E (settledValue a) = Some x" by blast
  have "\<exists>a2. (if outcome r \<noteq> Refunded then addValue E (countReceipt a r) (r_amount r)
      else ret (countReceipt a r)) st1 = (Inr a2, st1)"
    using addValue_accepts [of "countReceipt a r" "r_amount r" E x v st1] cur(1) x assms(4)
    by (cases "outcome r = Refunded") (simp_all add: countReceipt_value)
  then obtain a2 where v: "(if outcome r \<noteq> Refunded then addValue E (countReceipt a r) (r_amount r)
      else ret (countReceipt a r)) st1 = (Inr a2, st1)" by (elim exE)
  define a3 where "a3 = a2\<lparr>firstSeen := Some (earliest E (firstSeen a2) (settled_at r)),
      lastSettled := Some (latest E (lastSettled a2) (settled_at r))\<rparr>"
  have "ingestReceipt E cs now r st =
      (if List.member (ingestedReceipts a) (receipt_id r) then (Inr (), st1) else saveAcc E cs now ?d a3 st1)"
    using d assms(3) g v by (simp add: ingestReceipt_def Let_def bindE_app throwIf_app a3_def)
  then show ?thesis using saveAcc_out [of E cs now ?d a3 st1] by auto
qed

lemma ingest_clash:
  assumes "mapGet (accs st) (payee r) = Some a" "settledCurrency a = Some c" "c \<noteq> currency (r_amount r)"
    "receipt_id r \<notin> set (ingestedReceipts a)" "outcome r = Delivered" "payee r \<noteq> ''''" "payer r \<noteq> ''''"
  shows "ingestReceipt E cs now r st = (Inl ValidationError, st)"
  using assms countReceipt_value [of a r]
  by (simp add: ingestReceipt_def Let_def bindE_app throwIf_app accGetOrCreate_def addValue_def)

lemma recordSpend_accepts:
  assumes "big_exact E" "spendRowsOk E st" "bigVal E (amount m) = Some v" "0 < v"
  shows "\<exists>st'. recordSpend E now d m st = (Inr (), st')"
proof -
  have ap: "assertPositive E m st = (Inr (), st)" using assms by (simp add: assertPositive_def)
  have "\<exists>row st1. spendGetOrCreate d (currency m) st = (Inr row, st1) \<and>
      bigVal E (s_total row) \<noteq> None \<and> bigVal E (dailyAmount row) \<noteq> None"
    using assms(2) big_exact_zero [OF assms(1)]
    by (cases "mapGet (spends st) (walletKey d (currency m))")
      (simp_all add: spendGetOrCreate_def exec_simps spendRowsOk_def Let_def)
  then show ?thesis using ap assms(3)
    by (auto simp: recordSpend_def Let_def bindE_app plusE_def split: if_splits)
qed

lemma issueReceipt_accepts:
  assumes E: "big_exact E" and rep: "repAccepts E (rep w) payeeDid (p_currency p)" and sp: "spendRowsOk E (wal w)"
    and v: "bigVal E (p_amount p) = Some v" "0 < v" and pf: "p_from p \<noteq> ''''"
  shows "\<exists>r w'. issueReceipt E cfg t0 t1 q p payeeDid result railId settledTime w = (Inr (Settled r), w')"
proof -
  let ?w1 = "w\<lparr>rcpDrawn := Suc (rcpDrawn w)\<rparr>"
  define r where "r = receiptFor E cfg t0 t1 q p payeeDid result railId settledTime (rcpDrawn w)"
  have rr: "signReceipt E (facSigner cfg) (unsignedReceipt E q p payeeDid result (''rcp_'' @ ulid E (rcpDrawn w))
      railId (max 0 (t1 - t0)) settledTime) = r"
    by (simp add: r_def receiptFor_def)
  have rf: "payee r = payeeDid" "payer r = p_from p" "r_amount r = payMoney p"
    by (simp_all add: r_def receiptFor_def signReceipt_def unsignedReceipt_def)
  obtain en where a: "appendLedger E t1 ''receipt'' (Some payeeDid) (JObj (receiptObj r)) ?w1 =
      (Inr (), ?w1\<lparr>led := led ?w1 @ [en]\<rparr>)"
    by (rule appendLedger_out)
  obtain s where i: "ingestReceipt E (repSigner cfg) t1 r (rep w) = (Inr (), s)"
    using ingest_accepts [OF E, of "rep w" r v] rep pf v rf by auto
  obtain t where z: "recordSpend E t1 (p_from p) (payMoney p) (wal w) = (Inr (), t)"
    using recordSpend_accepts [OF E sp, of "payMoney p" v] v by auto
  have "issueReceipt E cfg t0 t1 q p payeeDid result railId settledTime w =
     (Inr (Settled r), ?w1\<lparr>led := led w @ [en], rep := s, wal := t\<rparr>)"
    using a i z
    by (simp add: issueReceipt_def newReceiptId_def exec_simps Let_def rr inReputation_app inWallet_app del: append_Cons)
  then show ?thesis by blast
qed

lemma issueReceipt_clash:
  assumes a: "mapGet (accs (rep w)) payeeDid = Some a" "settledCurrency a = Some c" "c \<noteq> p_currency p"
    and n: "\<And>n. ''rcp_'' @ ulid E n \<notin> set (ingestedReceipts a)" "payeeDid \<noteq> []" "p_from p \<noteq> []"
  obtains w' where "issueReceipt E cfg t0 t1 q p payeeDid result railId settledTime w = (Inl ValidationError, w')"
    "wal w' = wal w" "length (led w') = Suc (length (led w))" "payCache w' = payCache w"
proof -
  let ?w1 = "w\<lparr>rcpDrawn := Suc (rcpDrawn w)\<rparr>"
  define r where "r = receiptFor E cfg t0 t1 q p payeeDid result railId settledTime (rcpDrawn w)"
  have rr: "signReceipt E (facSigner cfg) (unsignedReceipt E q p payeeDid result (''rcp_'' @ ulid E (rcpDrawn w))
      railId (max 0 (t1 - t0)) settledTime) = r"
    by (simp add: r_def receiptFor_def)
  obtain en where led: "appendLedger E t1 ''receipt'' (Some payeeDid) (JObj (receiptObj r)) ?w1 =
      (Inr (), ?w1\<lparr>led := led ?w1 @ [en]\<rparr>)"
    by (rule appendLedger_out)
  have rf: "payee r = payeeDid" "payer r = p_from p" "r_amount r = payMoney p" "outcome r = Delivered"
      "receipt_id r = ''rcp_'' @ ulid E (rcpDrawn w)"
    by (simp_all add: r_def receiptFor_def signReceipt_def unsignedReceipt_def)
  have i: "ingestReceipt E (repSigner cfg) t1 r (rep w) = (Inl ValidationError, rep w)"
    by (rule ingest_clash [of _ _ a c]) (use a n(1) [of "rcpDrawn w"] n(2,3) rf in simp_all)
  have "issueReceipt E cfg t0 t1 q p payeeDid result railId settledTime w =
     (Inl ValidationError, ?w1\<lparr>led := led w @ [en], rep := rep w\<rparr>)"
    using led i
    by (simp add: issueReceipt_def newReceiptId_def exec_simps Let_def rr inReputation_app del: append_Cons)
  then show ?thesis by (rule that) simp_all
qed

lemma charge_clash:
  assumes ok: "core_ok E w" and rs: "railsSound E cfg"
    and a: "mapGet (accs (rep w)) payeeDid = Some a" "settledCurrency a = Some c" "c \<noteq> p_currency p"
      "\<And>n. ''rcp_'' @ ulid E n \<notin> set (ingestedReceipts a)" "payeeDid \<noteq> []" "p_from p \<noteq> []"
    and r: "charge E cfg t0 t1 q p payeeDid result w = (x, w')"
  shows "fundsSame E (wal w) (wal w') \<or> x = Inl ValidationError \<and> length (led w') = Suc (length (led w)) \<and>
    spends (wal w') = spends (wal w) \<and> payCache w' = payCache w"
proof (cases "mapGet (railReg cfg) (q_rail q)")
  case None
  then show ?thesis using r by (auto simp: charge_def Let_def getRailOrThrow_def exec_simps)
next
  case (Some ad)
  then have snd: "railSound E ad" using rs by (simp add: railsSound_def)
  note eq = charge_eq [OF Some snd, of t0 t1 p payeeDid result]
  show ?thesis
  proof (cases rule: rail_port.runRail_cases [OF snd [unfolded railSound_def] core_okD(1) [OF ok],
        of t1 p "buildRequirements cfg q payeeDid"])
    case (1 e s')
    then show ?thesis using r by (auto simp: eq bindE_app inWallet_app fundsSame_def)
  next
    case (2 res v s')
    obtain w1 where "issueReceipt E cfg t0 t1 q p payeeDid result (rail_id ad) (sr_settledAt res) (w\<lparr>wal := s'\<rparr>) =
        (Inl ValidationError, w1)"
      "wal w1 = wal (w\<lparr>wal := s'\<rparr>)" "length (led w1) = Suc (length (led (w\<lparr>wal := s'\<rparr>)))"
      "payCache w1 = payCache (w\<lparr>wal := s'\<rparr>)"
      by (rule issueReceipt_clash [of "w\<lparr>wal := s'\<rparr>" payeeDid a c p E cfg t0 t1 q result "rail_id ad" "sr_settledAt res"])
        (use a in simp_all)
    then show ?thesis using r 2 by (simp add: eq bindE_app inWallet_app)
  qed
qed

section \<open>Sequences of calls\<close>

record pay_call =
  pc_t0 :: int
  pc_t1 :: int
  pc_listing :: string
  pc_key :: "string option"
  pc_body :: pay_body

definition runPay :: "ext \<Rightarrow> fac_cfg \<Rightarrow> pay_call \<Rightarrow> ('a settle_world_scheme, pay_outcome) exec" where
  "runPay E cfg c = pay E cfg (pc_t0 c) (pc_t1 c) (pc_listing c) (pc_key c) (pc_body c)"

fun runPays :: "ext \<Rightarrow> fac_cfg \<Rightarrow> pay_call list \<Rightarrow> 'a settle_world_scheme \<Rightarrow> 'a settle_world_scheme" where
  "runPays E cfg [] w = w"
| "runPays E cfg (c # cs) w = runPays E cfg cs (snd (runPay E cfg c w))"

text \<open>The clock does not run backwards.\<close>

fun timesFrom :: "int \<Rightarrow> pay_call list \<Rightarrow> bool" where
  "timesFrom t [] = True"
| "timesFrom t (c # cs) = (t \<le> pc_t0 c \<and> timesFrom (pc_t0 c) cs)"

fun lastTime :: "int \<Rightarrow> pay_call list \<Rightarrow> int" where
  "lastTime t [] = t"
| "lastTime t (c # cs) = lastTime (pc_t0 c) cs"

lemma runPays_ok: "core_ok E w \<Longrightarrow> railsSound E cfg \<Longrightarrow> core_ok E (runPays E cfg cs w)"
proof (induction cs arbitrary: w)
  case (Cons c cs)
  have "core_ok E (snd (runPay E cfg c w))"
    unfolding runPay_def by (rule keepsD [OF keeps_pay [OF Cons.prems(2)] Cons.prems(1)])
  then show ?case using Cons.IH Cons.prems(2) by simp
qed simp

lemma runPays_spent:
  "spentBy m t w \<Longrightarrow> timesFrom t cs \<Longrightarrow> spentBy m (lastTime t cs) (runPays E cfg cs w)"
proof (induction cs arbitrary: w t)
  case (Cons c cs)
  then have "spentBy m (pc_t0 c) w" by (intro spentBy_later [OF Cons.prems(1)]) simp
  then have "spentBy m (pc_t0 c) (snd (runPay E cfg c w))"
    unfolding runPay_def by (rule keepsD [OF keeps_spentBy_pay])
  then show ?case using Cons by simp
qed simp

text \<open>An entry of the cache stays.\<close>

lemma pay_cached:
  assumes "core_ok E w" "railsSound E cfg" "mapGet (payCache w) i = Some res"
  shows "mapGet (payCache (snd (pay E cfg t0 t1 l k body w))) i = Some res"
proof (cases "b_payment body")
  case None
  then show ?thesis using assms(3) validateQuote_state [of E cfg t0 "b_quote body" l w]
    by (auto simp: pay_def Let_def bindE_app split: prod.split sum.split)
next
  case (Some p)
  have same: "payCache (snd (settle E cfg t0 t1 (b_quote body) p (b_payee body) (b_result body) (b_approval body) w)) =
      payCache w"
  proof (cases rule: settle_out [OF assms(1,2), of t0 t1 "b_quote body" p "b_payee body" "b_result body" "b_approval body"])
    case (3 w1 w2 sg)
    show ?thesis
      by (cases rule: charge_out [OF 3(8) assms(2), of t0 t1 "b_quote body" p "b_payee body" "b_result body"])
        (use 3 in auto)
  qed auto
  show ?thesis
  proof (cases rule: pay_cases [OF Some, of E cfg t0 t1 l k w])
    case (4 key res' w')
    then show ?thesis using assms(3) same by auto
  qed (use assms(3) same in auto)
qed

lemma runPays_cached:
  "core_ok E w \<Longrightarrow> railsSound E cfg \<Longrightarrow> mapGet (payCache w) i = Some res \<Longrightarrow>
   mapGet (payCache (runPays E cfg cs w)) i = Some res"
proof (induction cs arbitrary: w)
  case (Cons c cs)
  have "core_ok E (snd (runPay E cfg c w))"
    unfolding runPay_def by (rule keepsD [OF keeps_pay [OF Cons.prems(2)] Cons.prems(1)])
  moreover have "mapGet (payCache (snd (runPay E cfg c w))) i = Some res"
    unfolding runPay_def by (rule pay_cached [OF Cons.prems])
  ultimately show ?case using Cons.IH Cons.prems(2) by simp
qed simp

text \<open>Once the nonce of a payment is spent, the payment is refused or served from the cache.\<close>

lemma spent_payment:
  assumes ok: "core_ok E w" and rs: "railsSound E cfg" and p: "b_payment body = Some p"
    and s: "spentBy (payMark E p) t w" "t \<le> t0"
  shows "(\<exists>e. fst (pay E cfg t0 t1 l k body w) = Inl e \<and> fundsSame E (wal w) (wal (snd (pay E cfg t0 t1 l k body w)))) \<or>
    (\<exists>key res. k = Some key \<and> mapGet (payCache w) (payKey key (b_quote body)) = Some res \<and>
       pay E cfg t0 t1 l k body w = (Inr (answer res), w))"
proof -
  have no: "verifyAs E t0 (skewMs cfg) (paymentObj p) (sigOpts (p_from p)) w \<noteq> (Inr (), w1)" for w1
    using verifyAs_spends_nonce(2) [OF ok] spentBy_later [OF s] by (auto simp: spentBy_def)
  show ?thesis
  proof (cases rule: pay_cases [OF p, of E cfg t0 t1 l k w])
    case (1 e)
    then show ?thesis by simp
  next
    case (2 key res)
    then show ?thesis by blast
  next
    case (3 key e w')
    show ?thesis
      by (cases rule: settle_out [OF ok rs, of t0 t1 "b_quote body" p "b_payee body" "b_result body" "b_approval body"])
        (use 3 no in auto)
  next
    case (4 key res w')
    show ?thesis
      by (cases rule: settle_out [OF ok rs, of t0 t1 "b_quote body" p "b_payee body" "b_result body" "b_approval body"])
        (use 4 no in auto)
  qed
qed

text \<open>A call whose payment passed verification has spent the nonce.\<close>

lemma pay_spends:
  assumes ok: "core_ok E w" and rs: "railsSound E cfg" and p: "b_payment body = Some p"
    and r: "pay E cfg t0 t1 l k body w = (x, w')"
    and new: "\<And>key. k = Some key \<Longrightarrow> mapGet (payCache w) (payKey key (b_quote body)) = None"
    and moved: "\<not> fundsSame E (wal w) (wal w') \<or> (\<exists>i th rs. x = Inr (AwaitsApproval i th rs))"
  shows "spentBy (payMark E p) t0 w'"
proof -
  let ?S = "settle E cfg t0 t1 (b_quote body) p (b_payee body) (b_result body) (b_approval body) w"
  have "spentBy (payMark E p) t0 (snd ?S) \<or> (\<exists>e w1. ?S = (Inl e, w1) \<and> fundsSame E (wal w) (wal w1))"
  proof (cases rule: settle_out [OF ok rs, of t0 t1 "b_quote body" p "b_payee body" "b_result body" "b_approval body"])
    case (3 w1 w2 sg)
    have "spentBy (payMark E p) t0 (snd (charge E cfg t0 t1 (b_quote body) p (b_payee body) (b_result body) w2))"
      by (rule keepsD [OF keeps_spentBy_frames [OF frames_charge] 3(10)]) simp_all
    then show ?thesis using 3 by simp
  qed auto
  then show ?thesis
    using r moved new by (cases rule: pay_cases [OF p, of E cfg t0 t1 l k w]) (auto simp: spentBy_def answer_def)
qed

lemma balanceOf_val:
  assumes "wallet_ok E s"
  shows "bigVal E (amount (balanceOf d c s)) = Some (availAt E (rows s) (walletKey d c))"
proof (cases "mapGet (rows s) (walletKey d c)")
  case None
  then show ?thesis using big_exact_zero [OF wallet_okD(1) [OF assms]] by (simp add: balanceOf_def availAt_def)
next
  case (Some r)
  from rowsOk_goodRow [OF wallet_okD(4) [OF assms] Some] show ?thesis
    using Some by (auto simp: balanceOf_def goodRow_def)
qed

text \<open>The dev rail pays when the payload agrees with the requirements and the payer has the funds.\<close>

lemma devRail_pays:
  assumes ok: "wallet_ok E s" and ag: "agreed E p rq"
    and v: "bigVal E (p_amount p) = Some v" "0 < v" "v \<le> availAt E (rows s) (walletKey (p_from p) (p_currency p))"
  obtains res s' where "rail_port.runRail (devVerify E) (devSettle E) t p rq s = (Inr res, s')" "spends s' = spends s"
    "availAt E (rows s') (walletKey (p_to p) (p_currency p)) = availAt E (rows s) (walletKey (p_to p) (p_currency p)) + v
      - (if walletKey (p_to p) (p_currency p) = walletKey (p_from p) (p_currency p) then v else 0)"
proof -
  have ver: "devVerify E t p rq s = (Inr VOk, s)"
    using ag v balanceOf_val [OF ok, of "p_from p" "p_currency p"]
    by (simp add: devVerify_def agreed_def checkFunds_def bindE_app ltE_ok)
  obtain s' where tr: "bindE (debit E (p_from p) (payMoney p)) (\<lambda>_. credit E (p_to p) (payMoney p)) s = (Inr (), s')"
      "availAt E (rows s') (walletKey (p_to p) (p_currency p)) = availAt E (rows s) (walletKey (p_to p) (p_currency p)) + v
        - (if walletKey (p_to p) (p_currency p) = walletKey (p_from p) (p_currency p) then v else 0)"
    by (rule wal.transfer_ok [OF ok, of "payMoney p" v "p_from p" "p_to p"]) (use v in simp_all)
  have "\<exists>res. devSettle E t p rq s = (Inr res, s')"
    using tr(1) ver by (auto simp: devSettle_def bindE_app throwIf_app split: prod.splits sum.splits)
  then obtain res where st: "devSettle E t p rq s = (Inr res, s')" by blast
  then have "rail_port.runRail (devVerify E) (devSettle E) t p rq s = (Inr res, s')"
    using ver by (simp add: dev.runRail_def bindE_app throwIf_app)
  moreover have "spends s' = spends s" using settle_spends(1) [of E t p rq s] st by simp
  ultimately show ?thesis using tr(2) by (rule that)
qed

section \<open>Properties\<close>

lemma pay_goes_through:
  assumes ok: "core_ok E w" "spendRowsOk E (wal w)" and p: "b_payment body = Some p" and key: "key \<noteq> []"
    and new: "mapGet (payCache w) (payKey key (b_quote body)) = None"
    and quote: "fst (validateQuote E cfg t0 (b_quote body) l w) = Inr ()"
    and con: "fst (assertPayloadConsistent (b_quote body) p (b_payee body) w) = Inr ()"
    and ver: "verifyAs E t0 (skewMs cfg) (paymentObj p) (sigOpts (p_from p)) w = (Inr (), w1)"
    and sign: "signWithinPolicy E t0 (p_from p) (JObj (paymentObj p)) (spendAction (b_quote body) p (b_payee body))
      (b_approval body) w1 = (Inr (Signed sg), w2)"
    and rail: "mapGet (railReg cfg) (q_rail (b_quote body)) = Some (devRail E)"
    and v: "bigVal E (q_amount (b_quote body)) = Some v" "0 < v"
      "v \<le> availAt E (rows (wal w)) (walletKey (p_from p) (q_currency (b_quote body)))"
    and rep: "repAccepts E (rep w) (b_payee body) (q_currency (b_quote body))" and pf: "p_from p \<noteq> []"
  shows "\<exists>r w'. pay E cfg t0 t1 l (Some key) body w = (Inr (GotReceipt r), w')"
proof -
  let ?q = "b_quote body" and ?d = "b_payee body"
  let ?S = "settle E cfg t0 t1 ?q p ?d (b_result body) (b_approval body) w"
  have q: "validateQuote E cfg t0 ?q l w = (Inr (), w)" using quote validateQuote_state by (metis prod.collapse)
  have c: "assertPayloadConsistent ?q p ?d w = (Inr (), w)"
    using con assertPayloadConsistent_state by (metis prod.collapse)
  note cc = assertPayloadConsistent_ok [OF c]
  have w2: "wal w2 = wal w" "rep w2 = rep w"
    by (subst signWithinPolicy_only [OF sign], subst verifyAs_only [OF ver], simp)+
  let ?rq = "buildRequirements cfg ?q ?d"
  have ag: "agreed E p ?rq" using cc v(1) by (simp add: agreed_def buildRequirements_def amountsEqual_def)
  obtain res s' where run: "rail_port.runRail (devVerify E) (devSettle E) t1 p ?rq (wal w) = (Inr res, s')"
      and sp: "spends s' = spends (wal w)"
    by (rule devRail_pays [OF core_okD(1) [OF ok(1)] ag, of v t1]) (use v cc in simp_all)
  note E = wallet_okD(1) [OF core_okD(1) [OF ok(1)]]
  have pa: "bigVal E (p_amount p) = Some v" "repAccepts E (rep w) ?d (p_currency p)" using v rep cc by simp_all
  have "spendRowsOk E s'" using ok(2) sp by (simp add: spendRowsOk_def)
  then obtain r w3 where iss: "issueReceipt E cfg t0 t1 ?q p ?d (b_result body) (rail_id (devRail E)) (sr_settledAt res)
      (w2\<lparr>wal := s'\<rparr>) = (Inr (Settled r), w3)"
    using issueReceipt_accepts [OF E, of "w2\<lparr>wal := s'\<rparr>" ?d p v cfg t0 t1 ?q "b_result body" "rail_id (devRail E)"
        "sr_settledAt res"] pa v(2) pf w2 by auto
  have "charge E cfg t0 t1 ?q p ?d (b_result body) w2 = (Inr (Settled r), w3)"
    unfolding charge_eq [OF rail builtin_sound(1)] using run iss w2
    by (simp add: bindE_app inWallet_app devRail_def)
  then have S: "?S = (Inr (Settled r), w3)" using ver sign by (simp add: settle_def bindE_app)
  show ?thesis
    by (cases rule: pay_cases [OF p, of E cfg t0 t1 l "Some key" w])
      (use new S q c key p in \<open>auto simp: answer_def pay_def Let_def bindE_app throwIf_app execute_def payKey_def\<close>)
qed

text \<open>With a dev-rail quote and the funds, the money moves whatever the bookkeeping says.\<close>

lemma pay_moves_funds:
  assumes ok: "core_ok E w" and p: "b_payment body = Some p" and key: "key \<noteq> []"
    and new: "mapGet (payCache w) (payKey key (b_quote body)) = None"
    and quote: "fst (validateQuote E cfg t0 (b_quote body) l w) = Inr ()"
    and con: "fst (assertPayloadConsistent (b_quote body) p (b_payee body) w) = Inr ()"
    and ver: "verifyAs E t0 (skewMs cfg) (paymentObj p) (sigOpts (p_from p)) w = (Inr (), w1)"
    and sign: "signWithinPolicy E t0 (p_from p) (JObj (paymentObj p)) (spendAction (b_quote body) p (b_payee body))
      (b_approval body) w1 = (Inr (Signed sg), w2)"
    and rail: "mapGet (railReg cfg) (q_rail (b_quote body)) = Some (devRail E)"
    and v: "bigVal E (q_amount (b_quote body)) = Some v" "0 < v"
      "v \<le> availAt E (rows (wal w)) (walletKey (p_from p) (q_currency (b_quote body)))"
    and neq: "walletKey (b_payee body) (q_currency (b_quote body)) \<noteq> walletKey (p_from p) (q_currency (b_quote body))"
  shows "\<not> fundsSame E (wal w) (wal (snd (pay E cfg t0 t1 l (Some key) body w)))"
proof -
  let ?q = "b_quote body" and ?d = "b_payee body"
  let ?S = "settle E cfg t0 t1 ?q p ?d (b_result body) (b_approval body) w"
  have q: "validateQuote E cfg t0 ?q l w = (Inr (), w)" using quote validateQuote_state by (metis prod.collapse)
  have c: "assertPayloadConsistent ?q p ?d w = (Inr (), w)"
    using con assertPayloadConsistent_state by (metis prod.collapse)
  note cc = assertPayloadConsistent_ok [OF c]
  have w2: "wal w2 = wal w" by (subst signWithinPolicy_only [OF sign], subst verifyAs_only [OF ver], simp)
  let ?rq = "buildRequirements cfg ?q ?d" and ?k = "walletKey ?d (q_currency ?q)"
  have ag: "agreed E p ?rq" using cc v(1) by (simp add: agreed_def buildRequirements_def amountsEqual_def)
  obtain res s' where run: "rail_port.runRail (devVerify E) (devSettle E) t1 p ?rq (wal w) = (Inr res, s')"
      and av: "availAt E (rows s') ?k = availAt E (rows (wal w)) ?k + v"
    by (rule devRail_pays [OF core_okD(1) [OF ok(1)] ag, of v t1]) (use v cc neq in simp_all)
  obtain x w3 where iss: "issueReceipt E cfg t0 t1 ?q p ?d (b_result body) (rail_id (devRail E)) (sr_settledAt res)
      (w2\<lparr>wal := s'\<rparr>) = (x, w3)" "rows (wal w3) = rows s'"
    by (rule issueReceipt_out [OF refl, of E cfg t0 t1 ?q p ?d "b_result body" "rail_id (devRail E)" "sr_settledAt res"
        "w2\<lparr>wal := s'\<rparr>"]) simp
  have "charge E cfg t0 t1 ?q p ?d (b_result body) w2 = (x, w3)"
    unfolding charge_eq [OF rail builtin_sound(1)] using run iss w2
    by (simp add: bindE_app inWallet_app devRail_def)
  then have S: "?S = (x, w3)" using ver sign by (simp add: settle_def bindE_app)
  have "\<not> fundsSame E (wal w) (wal w3)"
    using av iss(2) v(2) by (auto simp: fundsSame_def dest: spec [of _ ?k])
  then show ?thesis
    by (cases rule: pay_cases [OF p, of E cfg t0 t1 l "Some key" w]; cases x)
      (use new S q c key p in \<open>auto simp: answer_def pay_def Let_def bindE_app throwIf_app execute_def payKey_def\<close>)
qed

section \<open>Sample\<close>

definition sampleQuote :: "string \<Rightarrow> quote" where
  "sampleQuote a = (let q = \<lparr>quote_id = ''qt_1'', q_listing_id = ''doc.extract'', listing_version = ''v1'',
       q_amount = a, q_currency = ''USDC'', q_per = ''call'', q_rail = ''dev'', requester = ''did:a'',
       q_issued = ''1'', q_expires = ''100'', q_sig = []\<rparr>
     in q\<lparr>q_sig := signDetached demo (JObj (stripForSigning (quoteObj q) [''sig''])) ''R'' ''k''\<rparr>)"

definition samplePayment :: "string \<Rightarrow> payment" where
  "samplePayment a = (let p = \<lparr>p_scheme = Exact, p_rail = ''dev'',
       authorization = \<lparr>au_from = ''did:a'', au_to = ''did:b'', au_value = a, validAfter = ''0'',
         validBefore = ''100'', au_nonce = ''n''\<rparr>,
       p_quote_id = ''qt_1'', p_from = ''did:a'', p_to = ''did:b'', p_amount = a, p_currency = ''USDC'',
       p_nonce = ''n1'', p_iat = ''4'', p_exp = ''50'', p_sig = []\<rparr>
     in p\<lparr>p_sig := signDetached demo (JObj (stripForSigning (paymentObj p) [''sig''])) ''K'' ''k''\<rparr>)"

definition samplePayBody :: "string \<Rightarrow> pay_body" where
  "samplePayBody a = \<lparr>b_quote = sampleQuote a, b_payee = ''did:b'', b_payment = Some (samplePayment a),
     b_result = None, b_approval = None\<rparr>"

definition sampleCfg :: fac_cfg where
  "sampleCfg = \<lparr>facSigner = sampleSigner, repSigner = sampleSigner, registryDid = ''did:r'', skewMs = 2,
     facilitatorUrl = ''url'', railReg = builtinRails demo\<rparr>"

definition sampleWorld :: settle_world where
  "sampleWorld = (let w = core.extend sampleCore \<lparr>rcpDrawn = 0, payCache = []\<rparr>
     in w\<lparr>idn := (idn w)\<lparr>passports := (''did:r'', \<lparr>did = ''did:r'', controller = ''did:r'',
       keys = [\<lparr>key_id = ''#1'', key_pub = ''R''\<rparr>], services = [], delegation_ref = None,
       kyc_level = Unverified, pass_sig = ''s''\<rparr>) # passports (idn w)\<rparr>,
     wal := snd (credit demo ''did:a'' (usdc ''100'') emptyWallet)\<rparr>)"

text \<open>The same, with a payee whose reputation is kept in another currency.\<close>

definition clashWorld :: settle_world where
  "clashWorld = sampleWorld\<lparr>rep := \<lparr>accs = [(''did:b'', emptyAccumulator\<lparr>settledCurrency := Some ''EUR''\<rparr>)],
     snaps = [], rep_drawn = 0\<rparr>\<rparr>"

lemma sampleCfg_sound: "railsSound demo sampleCfg"
  using builtinRails_sound by (auto simp: railsSound_def sampleCfg_def)

lemma sampleWorld_ok: "core_ok demo sampleWorld" "core_ok demo clashWorld" "spendRowsOk demo (wal sampleWorld)"
proof -
  have w: "wallet_ok demo (snd (credit demo ''did:a'' (usdc ''100'') emptyWallet))"
    by (rule keepsD [OF keeps_credit wallet_ok_empty [OF demo_lib_ok]])
  show ok: "core_ok demo sampleWorld"
    using sampleCore_ok(1) w by (simp add: core_ok_def sampleWorld_def core.defs Let_def)
  then show "core_ok demo clashWorld"
    using acc_ok_empty by (auto simp: core_ok_def clashWorld_def rep_ok_def acc_ok_def split: if_splits)
  have "spends (snd (credit demo ''did:a'' (usdc ''100'') emptyWallet)) = []" by code_simp
  then show "spendRowsOk demo (wal sampleWorld)" by (simp add: sampleWorld_def core.defs Let_def spendRowsOk_def)
qed

lemma samplePay_parts:
  obtains w1 sg w2 where "verifyAs demo 5 (skewMs sampleCfg) (paymentObj (samplePayment ''30''))
      (sigOpts (p_from (samplePayment ''30''))) sampleWorld = (Inr (), w1)"
    "signWithinPolicy demo 5 (p_from (samplePayment ''30'')) (JObj (paymentObj (samplePayment ''30'')))
      (spendAction (b_quote (samplePayBody ''30'')) (samplePayment ''30'') (b_payee (samplePayBody ''30'')))
      (b_approval (samplePayBody ''30'')) w1 = (Inr (Signed sg), w2)"
proof -
  let ?b = "samplePayBody ''30''" and ?p = "samplePayment ''30''"
  let ?V = "verifyAs demo 5 (skewMs sampleCfg) (paymentObj ?p) (sigOpts (p_from ?p)) sampleWorld"
  let ?G = "signWithinPolicy demo 5 (p_from ?p) (JObj (paymentObj ?p)) (spendAction (b_quote ?b) ?p (b_payee ?b))
      (b_approval ?b)"
  have "fst ?V = Inr ()" by code_simp
  then obtain w1 where v: "?V = (Inr (), w1)" by (metis prod.collapse)
  have "(case fst (?G (snd ?V)) of Inr (Signed _) \<Rightarrow> True | _ \<Rightarrow> False)" by code_simp
  then obtain sg w2 where "?G w1 = (Inr (Signed sg), w2)" using v
    by (cases "?G w1") (auto split: sum.splits sign_result.splits)
  then show ?thesis using that v by blast
qed

lemma samplePay_facts:
  defines "b \<equiv> samplePayBody ''30''" and "p \<equiv> samplePayment ''30''"
  shows "b_payment b = Some p" "''key'' \<noteq> []" "mapGet (payCache sampleWorld) (payKey ''key'' (b_quote b)) = None"
    "fst (validateQuote demo sampleCfg 5 (b_quote b) ''doc.extract'' sampleWorld) = Inr ()"
    "fst (assertPayloadConsistent (b_quote b) p (b_payee b) sampleWorld) = Inr ()"
    "mapGet (railReg sampleCfg) (q_rail (b_quote b)) = Some (devRail demo)"
    "bigVal demo (q_amount (b_quote b)) = Some 30" "(0::rat) < 30"
    "(30 :: rat) \<le> availAt demo (rows (wal sampleWorld)) (walletKey (p_from p) (q_currency (b_quote b)))"
    "repAccepts demo (rep sampleWorld) (b_payee b) (q_currency (b_quote b))"
    "p_from p \<noteq> []"
proof -
  show "b_payment b = Some p" "mapGet (payCache sampleWorld) (payKey ''key'' (b_quote b)) = None"
    by (simp_all add: b_def p_def samplePayBody_def sampleWorld_def core.defs Let_def)
  show "mapGet (railReg sampleCfg) (q_rail (b_quote b)) = Some (devRail demo)"
    by (simp add: sampleCfg_def builtinRails_def b_def samplePayBody_def sampleQuote_def Let_def)
  show "bigVal demo (q_amount (b_quote b)) = Some 30"
    using sample_numbers by (simp add: b_def samplePayBody_def sampleQuote_def Let_def)
  show "p_from p \<noteq> []" by (simp add: p_def samplePayment_def Let_def)
qed (simp_all add: b_def p_def, code_simp+)

lemma samplePay_run:
  obtains r w' where "pay demo sampleCfg 5 6 ''doc.extract'' (Some ''key'') (samplePayBody ''30'') sampleWorld =
    (Inr (GotReceipt r), w')"
proof (rule samplePay_parts)
  fix w1 w2 sg
  assume v: "verifyAs demo 5 (skewMs sampleCfg) (paymentObj (samplePayment ''30''))
      (sigOpts (p_from (samplePayment ''30''))) sampleWorld = (Inr (), w1)"
    and g: "signWithinPolicy demo 5 (p_from (samplePayment ''30'')) (JObj (paymentObj (samplePayment ''30'')))
      (spendAction (b_quote (samplePayBody ''30'')) (samplePayment ''30'') (b_payee (samplePayBody ''30'')))
      (b_approval (samplePayBody ''30'')) w1 = (Inr (Signed sg), w2)"
  have "\<exists>r w'. pay demo sampleCfg 5 6 ''doc.extract'' (Some ''key'') (samplePayBody ''30'') sampleWorld = (Inr (GotReceipt r), w')"
    by (rule pay_goes_through [OF sampleWorld_ok(1,3) samplePay_facts(1-5) v g samplePay_facts(6-11)])
  then show ?thesis using that by blast
qed

lemma receiptFor_fields:
  assumes "r = receiptFor E cfg t0 t1 q p d result i t n"
  shows "payer r = p_from p" "payee r = d" "r_amount r = payMoney p" "r_quote_id r = Some (quote_id q)"
    "facilitator_sig r = signDetached E (JObj (unsignedReceiptObj r)) (cs_sk (facSigner cfg)) (cs_kid (facSigner cfg))"
    "outcome r = Delivered" "receipt_id r = ''rcp_'' @ ulid E n"
  by (simp_all add: assms receiptFor_def signReceipt_def unsignedReceipt_def unsignedReceiptObj_def)

lemma pay_no_payment:
  "b_payment body = None \<Longrightarrow> pay E cfg t0 t1 l k body w = (Inr out, w') \<Longrightarrow>
   w' = w \<and> out = Requirements (buildRequirements cfg (b_quote body) (b_payee body))"
  using validateQuote_state [of E cfg t0 "b_quote body" l w]
  by (auto simp: pay_def Let_def bindE_app split: prod.splits sum.splits)

text \<open>
  Claim C9. A receipt means paid: when a pay call that is not answered from the idempotency cache
  returns a receipt, the quote carried the registry's signature, bound the listing and was not
  expired; the payload carried the payer's signature and the policy signer had agreed to it;
  exactly the quoted price moved from the payer's available funds to the payee's, no other balance
  and no currency's total changed; one ledger entry was appended, holding this receipt; the receipt
  names payer, payee, price and quote, is signed by the facilitator, and is what the idempotency
  key will answer from now on.
\<close>

theorem pay_receipt_means_paid:
  assumes "core_ok E w" "railsSound E cfg"
    and "pay E cfg t0 t1 l (Some key) body w = (Inr (GotReceipt r), w')"
    and "mapGet (payCache w) (payKey key (b_quote body)) = None"
  shows "let q = b_quote body in \<exists>p v en. b_payment body = Some p \<and>
    q_listing_id q = l \<and> \<not> quoteIsExpired E q (isoOf E t0) \<and> signedBy E (idn w) (quoteObj q) (registryDid cfg) \<and>
    signedBy E (idn w) (paymentObj p) (p_from p) \<and>
    (\<exists>w1 w2 sg. signWithinPolicy E t0 (p_from p) (JObj (paymentObj p)) (spendAction q p (b_payee body))
        (b_approval body) w1 = (Inr (Signed sg), w2) \<and> w1 = w\<lparr>non := non w1\<rparr>) \<and>
    bigVal E (q_amount q) = Some v \<and>
    transferred E (p_from p) (b_payee body) (q_currency q) v (wal w) (wal w') \<and>
    led w' = led w @ [en] \<and> kind en = ''receipt'' \<and> payload en = JObj (receiptObj r) \<and>
    payer r = p_from p \<and> payee r = b_payee body \<and> r_amount r = \<lparr>amount = q_amount q, currency = q_currency q\<rparr> \<and>
    r_quote_id r = Some (quote_id q) \<and>
    facilitator_sig r = signDetached E (JObj (unsignedReceiptObj r)) (cs_sk (facSigner cfg)) (cs_kid (facSigner cfg)) \<and>
    mapGet (payCache w') (payKey key q) = Some (Settled r)"
proof -
  obtain p where p: "b_payment body = Some p"
    using assms(3) pay_no_payment [of body E cfg t0 t1 l "Some key" w] by (cases "b_payment body") auto
  let ?q = "b_quote body" and ?d = "b_payee body"
  show ?thesis
  proof (cases rule: pay_cases [OF p, of E cfg t0 t1 l "Some key" w])
    case (4 k res w0)
    have r: "res = Settled r" "w' = w0\<lparr>payCache := mapSet (payKey key ?q) res (payCache w0)\<rparr>"
      using 4 assms(3) by (auto simp: answer_def split: pay_result.splits)
    note con = assertPayloadConsistent_ok [OF 4(5)]
    show ?thesis
    proof (cases rule: settle_out [OF assms(1,2), of t0 t1 ?q p ?d "b_result body" "b_approval body"])
      case (3 w1 w2 sg)
      have sb: "signedBy E (idn w) (paymentObj p) (p_from p)"
        using verifyAs_signedBy [OF 3(1)] by (simp add: sigOpts_def)
      show ?thesis
      proof (cases rule: charge_out [OF 3(8) assms(2), of t0 t1 ?q p ?d "b_result body"])
        case (2 v x w3 en ad st n)
        have x: "x = Inr res" "w3 = w0" using 2(1) 3(3) 4(3) by auto
        have rr: "r = receiptFor E cfg t0 t1 ?q p ?d (b_result body) (rail_id ad) st n"
          using 2(3) x r by auto
        have sign: "\<exists>w1 w2 sg. signWithinPolicy E t0 (p_from p) (JObj (paymentObj p)) (spendAction ?q p ?d)
            (b_approval body) w1 = (Inr (Signed sg), w2) \<and> w1 = w\<lparr>non := non w1\<rparr>"
          using 3(2) verifyAs_only [OF 3(1)] by blast
        show ?thesis unfolding Let_def
          by (rule exI [of _ p], rule exI [of _ v], rule exI [of _ en])
            (use sign validateQuote_ok [OF 4(6)] sb p 2 3 x r con in \<open>simp add: receiptFor_fields [OF refl]\<close>)
      qed (use 3 4 in auto)
    qed (use 4 r in auto)
  qed (use assms in auto)
qed

lemma pay_receipt_means_paid_witness:
  "\<exists>r w' en. pay demo sampleCfg 5 6 ''doc.extract'' (Some ''key'') (samplePayBody ''30'') sampleWorld =
     (Inr (GotReceipt r), w') \<and> payer r = ''did:a'' \<and> payee r = ''did:b'' \<and>
     led w' = led sampleWorld @ [en] \<and> payload en = JObj (receiptObj r)"
proof -
  obtain r w' where r: "pay demo sampleCfg 5 6 ''doc.extract'' (Some ''key'') (samplePayBody ''30'') sampleWorld =
      (Inr (GotReceipt r), w')"
    by (rule samplePay_run)
  have "mapGet (payCache sampleWorld) (payKey ''key'' (b_quote (samplePayBody ''30''))) = None"
    by (simp add: sampleWorld_def core.defs Let_def)
  from pay_receipt_means_paid [OF sampleWorld_ok(1) sampleCfg_sound r this]
  obtain p en where "b_payment (samplePayBody ''30'') = Some p" "led w' = led sampleWorld @ [en]"
      "payload en = JObj (receiptObj r)" "payer r = p_from p" "payee r = b_payee (samplePayBody ''30'')"
    unfolding Let_def by (elim exE conjE)
  then show ?thesis using r by (auto simp: samplePayBody_def samplePayment_def Let_def)
qed

text \<open>
  Every other normal answer of the pay call is free: when it returns the payment
  requirements or parks the payment for a supervisor, no balance and no currency's total changed
  and nothing was appended to the ledger.
\<close>

theorem pay_unpaid_answers_are_free:
  assumes "core_ok E w" "railsSound E cfg" "pay E cfg t0 t1 l k body w = (Inr out, w')"
    and "\<And>r. out \<noteq> GotReceipt r"
  shows "fundsSame E (wal w) (wal w') \<and> led w' = led w"
proof (cases "b_payment body")
  case None
  then show ?thesis using pay_no_payment [OF None assms(3)] by simp
next
  case (Some p)
  show ?thesis
  proof (cases rule: pay_cases [OF Some, of E cfg t0 t1 l k w])
    case (4 key res w0)
    obtain i th rs where res: "res = Parked i th rs" using 4 assms(3,4) by (cases res) (auto simp: answer_def)
    show ?thesis
    proof (cases rule: settle_out [OF assms(1,2), of t0 t1 "b_quote body" p "b_payee body" "b_result body" "b_approval body"])
      case (3 w1 w2 sg)
      show ?thesis
        by (cases rule: charge_out [OF 3(8) assms(2), of t0 t1 "b_quote body" p "b_payee body" "b_result body"])
          (use 3 4 res in auto)
    qed (use 4 assms(3) in auto)
  qed (use assms(3) in auto)
qed

lemma samplePark_run:
  obtains i th rs w' where "pay demo sampleCfg 5 6 ''doc.extract'' (Some ''key'') (samplePayBody ''60'') sampleWorld =
    (Inr (AwaitsApproval i th rs), w')"
proof -
  let ?m = "pay demo sampleCfg 5 6 ''doc.extract'' (Some ''key'') (samplePayBody ''60'') sampleWorld"
  have "(case fst ?m of Inr (AwaitsApproval _ _ _) \<Rightarrow> True | _ \<Rightarrow> False)" by code_simp
  then show ?thesis using that by (cases ?m) (auto split: sum.splits pay_outcome.splits)
qed

lemma pay_unpaid_answers_are_free_witness:
  "fundsSame demo (wal sampleWorld)
     (wal (snd (pay demo sampleCfg 5 6 ''doc.extract'' (Some ''key'') (samplePayBody ''60'') sampleWorld)))"
proof (rule samplePark_run)
  fix i th rs w'
  assume r: "pay demo sampleCfg 5 6 ''doc.extract'' (Some ''key'') (samplePayBody ''60'') sampleWorld =
    (Inr (AwaitsApproval i th rs), w')"
  from pay_unpaid_answers_are_free [OF sampleWorld_ok(1) sampleCfg_sound r] r show ?thesis by simp
qed

text \<open>
  A retry is safe: after a call that was settled or parked under an idempotency key, and
  after any further pay calls of anybody, a call with the same key for the same quote is either
  refused at the door or gives the very same answer, and it changes nothing at all.
\<close>

theorem pay_retry_same_answer:
  assumes "core_ok E w" "railsSound E cfg" "pay E cfg t0 t1 l (Some key) body w = (Inr out, w')"
    and "b_payment body \<noteq> None" "b_payment body2 \<noteq> None" "quote_id (b_quote body2) = quote_id (b_quote body)"
  shows "let w2 = runPays E cfg calls w' in
    pay E cfg t0' t1' l2 (Some key) body2 w2 = (Inr out, w2) \<or>
    (\<exists>e. pay E cfg t0' t1' l2 (Some key) body2 w2 = (Inl e, w2))"
proof -
  obtain p p2 where p: "b_payment body = Some p" "b_payment body2 = Some p2" using assms(4,5) by auto
  have key: "payKey key (b_quote body2) = payKey key (b_quote body)" using assms(6) by (simp add: payKey_def)
  have ok: "core_ok E w'" by (rule keepsD_pair [OF keeps_pay [OF assms(2)] assms(1,3)])
  have "\<exists>res. mapGet (payCache w') (payKey key (b_quote body)) = Some res \<and> out = answer res"
    by (cases rule: pay_cases [OF p(1), of E cfg t0 t1 l "Some key" w]) (use assms(3) in auto)
  then obtain res where res: "mapGet (payCache w') (payKey key (b_quote body)) = Some res" "out = answer res" by blast
  note c = runPays_cached [OF ok assms(2) res(1), of calls]
  show ?thesis unfolding Let_def
    by (cases rule: pay_cases [OF p(2), of E cfg t0' t1' l2 "Some key" "runPays E cfg calls w'"])
      (use c res(2) key in auto)
qed

lemma pay_retry_same_answer_witness:
  "\<exists>r w'. pay demo sampleCfg 5 6 ''doc.extract'' (Some ''key'') (samplePayBody ''30'') sampleWorld =
     (Inr (GotReceipt r), w') \<and>
     (pay demo sampleCfg 7 8 ''doc.extract'' (Some ''key'') (samplePayBody ''30'') w' = (Inr (GotReceipt r), w') \<or>
      (\<exists>e. pay demo sampleCfg 7 8 ''doc.extract'' (Some ''key'') (samplePayBody ''30'') w' = (Inl e, w')))"
proof (rule samplePay_run)
  fix r w'
  assume r: "pay demo sampleCfg 5 6 ''doc.extract'' (Some ''key'') (samplePayBody ''30'') sampleWorld =
    (Inr (GotReceipt r), w')"
  have b: "b_payment (samplePayBody ''30'') \<noteq> None" by (simp add: samplePayBody_def)
  from pay_retry_same_answer [OF sampleWorld_ok(1) sampleCfg_sound r b b refl, of "[]" 7 8 "''doc.extract''"] r
  show ?thesis by auto
qed

text \<open>
  Claim C3. A signed payment is charged once: if a pay call moved money for a payment, then no later
  call that carries the same payment moves money again, whatever its idempotency key, its quote or
  its approval, and whatever pay calls come in between.
\<close>

theorem payment_charged_once:
  assumes "core_ok E w" "railsSound E cfg" "b_payment body = Some p" "b_payment body2 = Some p"
    and "pay E cfg t0 t1 l k body w = (x, w')" "\<not> fundsSame E (wal w) (wal w')"
    and "timesFrom t0 calls" "lastTime t0 calls \<le> t0'"
  shows "let w2 = runPays E cfg calls w' in
    fundsSame E (wal w2) (wal (snd (pay E cfg t0' t1' l2 k2 body2 w2)))"
proof -
  have ok: "core_ok E w'" by (rule keepsD_pair [OF keeps_pay [OF assms(2)] assms(1,5)])
  have "mapGet (payCache w) (payKey key (b_quote body)) = None" if "k = Some key" for key
    by (cases rule: pay_cases [OF assms(3), of E cfg t0 t1 l k w]) (use assms(5,6) that in auto)
  then have "spentBy (payMark E p) t0 w'" using pay_spends [OF assms(1-3,5)] assms(6) by blast
  from runPays_spent [OF this assms(7)]
  have s: "spentBy (payMark E p) (lastTime t0 calls) (runPays E cfg calls w')" .
  show ?thesis unfolding Let_def
    using spent_payment [OF runPays_ok [OF ok assms(2)] assms(2,4) s assms(8), of t1' l2 k2] by auto
qed

lemma clash_moves:
  "\<not> fundsSame demo (wal clashWorld)
     (wal (snd (pay demo sampleCfg 5 6 ''doc.extract'' (Some ''key'') (samplePayBody ''30'') clashWorld)))"
proof -
  let ?b = "samplePayBody ''30''" and ?p = "samplePayment ''30''"
  let ?V = "verifyAs demo 5 (skewMs sampleCfg) (paymentObj ?p) (sigOpts (p_from ?p)) clashWorld"
  let ?G = "signWithinPolicy demo 5 (p_from ?p) (JObj (paymentObj ?p)) (spendAction (b_quote ?b) ?p (b_payee ?b))
      (b_approval ?b)"
  have "fst ?V = Inr ()" by code_simp
  then obtain w1 where v: "?V = (Inr (), w1)" by (metis prod.collapse)
  have "(case fst (?G (snd ?V)) of Inr (Signed _) \<Rightarrow> True | _ \<Rightarrow> False)" by code_simp
  then obtain sg w2 where g: "?G w1 = (Inr (Signed sg), w2)" using v
    by (cases "?G w1") (auto split: sum.splits sign_result.splits)
  have same: "idn clashWorld = idn sampleWorld" "payCache clashWorld = payCache sampleWorld" "wal clashWorld = wal sampleWorld"
    by (simp_all add: clashWorld_def)
  have q: "fst (validateQuote demo sampleCfg 5 (b_quote ?b) ''doc.extract'' clashWorld) = Inr ()"
      "fst (assertPayloadConsistent (b_quote ?b) ?p (b_payee ?b) clashWorld) = Inr ()"
      "walletKey (b_payee ?b) (q_currency (b_quote ?b)) \<noteq> walletKey (p_from ?p) (q_currency (b_quote ?b))"
    by code_simp+
  show ?thesis
    by (rule pay_moves_funds [OF sampleWorld_ok(2) samplePay_facts(1,2) _ q(1,2) v g samplePay_facts(6-8) _ q(3)])
      (simp_all only: same samplePay_facts(3,9))
qed

lemma payment_charged_once_witness:
  "let w2 = snd (pay demo sampleCfg 5 6 ''doc.extract'' (Some ''key'') (samplePayBody ''30'') clashWorld) in
    fundsSame demo (wal w2) (wal (snd (pay demo sampleCfg 9 9 ''doc.extract'' (Some ''other'') (samplePayBody ''30'') w2)))"
proof -
  have b: "b_payment (samplePayBody ''30'') = Some (samplePayment ''30'')" by (simp add: samplePayBody_def)
  have t: "timesFrom 5 []" "lastTime 5 [] \<le> 9" by simp_all
  from payment_charged_once [OF sampleWorld_ok(2) sampleCfg_sound b b prod.collapse [symmetric] clash_moves t,
      of 9 "''doc.extract''" "Some ''other''"]
  show ?thesis by simp
qed

text \<open>
  A parked payment cannot be submitted again: after a call that parked a payment for a
  supervisor, every later call that carries the same signed payment under an idempotency key that
  has no answer yet throws, whatever the supervisor ruled, because the payment's nonce is spent.
\<close>

theorem parked_payment_refused:
  assumes "core_ok E w" "railsSound E cfg" "b_payment body = Some p" "b_payment body2 = Some p"
    and "pay E cfg t0 t1 l (Some key) body w = (Inr (AwaitsApproval i th rs), w')"
    and "mapGet (payCache w) (payKey key (b_quote body)) = None"
    and "core_ok E w2" "non w2 = non w'" "t0 \<le> t0'" "mapGet (payCache w2) (payKey key2 (b_quote body2)) = None"
  shows "\<exists>e. fst (pay E cfg t0' t1' l2 (Some key2) body2 w2) = Inl e"
proof -
  have "spentBy (payMark E p) t0 w'" using pay_spends [OF assms(1-3,5)] assms(6) by blast
  then have "spentBy (payMark E p) t0 w2" using assms(8) by (simp add: spentBy_def)
  from spent_payment [OF assms(7,2,4) this assms(9), of t1' l2 "Some key2"] assms(10) show ?thesis by auto
qed

lemma parked_payment_refused_witness:
  "\<exists>e. fst (pay demo sampleCfg 9 9 ''doc.extract'' (Some ''other'') (samplePayBody ''60'')
     (snd (pay demo sampleCfg 5 6 ''doc.extract'' (Some ''key'') (samplePayBody ''60'') sampleWorld))) = Inl e"
proof (rule samplePark_run)
  fix i th rs w'
  assume r: "pay demo sampleCfg 5 6 ''doc.extract'' (Some ''key'') (samplePayBody ''60'') sampleWorld =
    (Inr (AwaitsApproval i th rs), w')"
  have b: "b_payment (samplePayBody ''60'') = Some (samplePayment ''60'')" by (simp add: samplePayBody_def)
  have n: "mapGet (payCache sampleWorld) (payKey ''key'' (b_quote (samplePayBody ''60''))) = None"
    by (simp add: sampleWorld_def core.defs Let_def)
  have ok: "core_ok demo w'" by (rule keepsD_pair [OF keeps_pay [OF sampleCfg_sound] sampleWorld_ok(1) r])
  have "mapGet (payCache (snd (pay demo sampleCfg 5 6 ''doc.extract'' (Some ''key'') (samplePayBody ''60'') sampleWorld)))
      (payKey ''other'' (b_quote (samplePayBody ''60''))) = None"
    by code_simp
  then have n2: "mapGet (payCache w') (payKey ''other'' (b_quote (samplePayBody ''60''))) = None" using r by simp
  have t: "(5::int) \<le> 9" by simp
  from parked_payment_refused [OF sampleWorld_ok(1) sampleCfg_sound b b r n ok refl t n2, of 9 "''doc.extract''"] r
  show ?thesis by simp
qed

text \<open>
  A charge without a receipt: when the payee's reputation was accumulated in another
  currency than the payment's, a pay call that moves the money throws all the same; the receipt is in the
  ledger, but the payer's recorded spend is unchanged and the idempotency key is not settled.
\<close>

theorem charged_without_receipt:
  assumes "core_ok E w" "railsSound E cfg" "b_payment body = Some p"
    and "pay E cfg t0 t1 l (Some key) body w = (x, w')" "\<not> fundsSame E (wal w) (wal w')"
    and "mapGet (accs (rep w)) (b_payee body) = Some a" "settledCurrency a = Some c" "c \<noteq> p_currency p"
    and "\<And>n. ''rcp_'' @ ulid E n \<notin> set (ingestedReceipts a)" "b_payee body \<noteq> ''''" "p_from p \<noteq> ''''"
  shows "x = Inl ValidationError \<and> length (led w') = Suc (length (led w)) \<and> spends (wal w') = spends (wal w) \<and>
    mapGet (payCache w') (payKey key (b_quote body)) = None"
proof -
  have new: "mapGet (payCache w) (payKey key (b_quote body)) = None"
    by (cases rule: pay_cases [OF assms(3), of E cfg t0 t1 l "Some key" w]) (use assms(4,5) in auto)
  let ?S = "settle E cfg t0 t1 (b_quote body) p (b_payee body) (b_result body) (b_approval body) w"
  obtain y w1 where S: "?S = (y, w1)" by (metis prod.collapse)
  have y: "fundsSame E (wal w) (wal w1) \<or> y = Inl ValidationError \<and> length (led w1) = Suc (length (led w)) \<and>
      spends (wal w1) = spends (wal w) \<and> payCache w1 = payCache w"
  proof (cases rule: settle_out [OF assms(1,2), of t0 t1 "b_quote body" p "b_payee body" "b_result body" "b_approval body"])
    case (3 v1 v2 sg)
    show ?thesis
      using charge_clash [OF 3(8) assms(2), of "b_payee body" a c p t0 t1 "b_quote body" "b_result body" y w1]
        assms(6-11) 3 S by auto
  qed (use S in auto)
  show ?thesis
    by (cases rule: pay_cases [OF assms(3), of E cfg t0 t1 l "Some key" w])
      (use assms(4,5) new y S in auto)
qed

lemma charged_without_receipt_witness:
  "fst (pay demo sampleCfg 5 6 ''doc.extract'' (Some ''key'') (samplePayBody ''30'') clashWorld) = Inl ValidationError"
proof -
  have b: "b_payment (samplePayBody ''30'') = Some (samplePayment ''30'')" by (simp add: samplePayBody_def)
  have a: "mapGet (accs (rep clashWorld)) (b_payee (samplePayBody ''30'')) =
      Some (emptyAccumulator\<lparr>settledCurrency := Some ''EUR''\<rparr>)"
    by (simp add: clashWorld_def samplePayBody_def)
  from charged_without_receipt [OF sampleWorld_ok(2) sampleCfg_sound b prod.collapse [symmetric] clash_moves a, of "''EUR''"]
  show ?thesis by (simp add: samplePayment_def Let_def samplePayBody_def emptyAccumulator_def)
qed

text \<open>
  Claim C25. A payment that is in order goes through: if the quote is valid for the listing, the
  payload agrees with it and carries the payer's signature, the policy signer signs, the payer has
  the funds, the quote names the dev rail, the payee's reputation can take the amount, and the
  idempotency key has no answer yet, then the pay call returns a receipt.
\<close>

theorem pay_completes:
  assumes ok: "core_ok E w" "spendRowsOk E (wal w)" and p: "b_payment body = Some p" and key: "key \<noteq> []"
    and new: "mapGet (payCache w) (payKey key (b_quote body)) = None"
    and quote: "fst (validateQuote E cfg t0 (b_quote body) l w) = Inr ()"
    and con: "fst (assertPayloadConsistent (b_quote body) p (b_payee body) w) = Inr ()"
    and ver: "verifyAs E t0 (skewMs cfg) (paymentObj p) (sigOpts (p_from p)) w = (Inr (), w1)"
    and sign: "signWithinPolicy E t0 (p_from p) (JObj (paymentObj p)) (spendAction (b_quote body) p (b_payee body))
      (b_approval body) w1 = (Inr (Signed sg), w2)"
    and rail: "mapGet (railReg cfg) (q_rail (b_quote body)) = Some (devRail E)"
    and v: "bigVal E (q_amount (b_quote body)) = Some v" "0 < v"
      "v \<le> availAt E (rows (wal w)) (walletKey (p_from p) (q_currency (b_quote body)))"
    and rep: "repAccepts E (rep w) (b_payee body) (q_currency (b_quote body))" and pf: "p_from p \<noteq> []"
  shows "\<exists>r w'. pay E cfg t0 t1 l (Some key) body w = (Inr (GotReceipt r), w')"
  by (rule pay_goes_through [OF assms])

lemma pay_completes_witness:
  "\<exists>r w'. pay demo sampleCfg 5 6 ''doc.extract'' (Some ''key'') (samplePayBody ''30'') sampleWorld = (Inr (GotReceipt r), w')"
proof -
  let ?b = "samplePayBody ''30''" and ?p = "samplePayment ''30''"
  show ?thesis
  proof (rule samplePay_parts)
    fix w1 w2 sg
    assume v: "verifyAs demo 5 (skewMs sampleCfg) (paymentObj ?p) (sigOpts (p_from ?p)) sampleWorld = (Inr (), w1)"
      and g: "signWithinPolicy demo 5 (p_from ?p) (JObj (paymentObj ?p)) (spendAction (b_quote ?b) ?p (b_payee ?b))
        (b_approval ?b) w1 = (Inr (Signed sg), w2)"
    show ?thesis
      by (rule pay_completes [OF sampleWorld_ok(1,3) samplePay_facts(1-5) v g samplePay_facts(6-11)])
  qed
qed

end
