(* ===== verification/Escrow.thy ===== *)
theory Escrow
  imports Facilitator
begin

text \<open>
  Escrow, \<open>src/features/settlement/escrow\<close>: the signed contract, the milestones with their holds,
  and the operations open, deliver, accept, dispute, timeout and resolution.

  The in-memory repository hands out the stored record, and the service assigns to its fields, so
  an assignment is an update of the map at the point of the assignment (\<open>updEscrow\<close>,
  \<open>updRuntime\<close>) and stays when a later step throws. A handler reads the clock once (\<open>now\<close>). The
  plain objects \<open>milestones\<close> and \<open>milestoneHoldIds\<close> are maps; an id that is missing reads as
  \<open>undefined\<close> and a field access on it throws \<open>JsError\<close>.
\<close>

section \<open>Contracts and records\<close>

datatype acceptance_type = SchemaOnly | Checksum | SchemaChecksum | Oracle

record acceptance_spec =
  acc_type :: acceptance_type
  schema_ref :: "string option"
  expected :: "string option"

record milestone =
  ms_id :: string
  ms_amount :: string
  acceptance :: acceptance_spec

datatype on_timeout = TimeoutRefund | TimeoutRelease | TimeoutArbitrate

record provider_stake =
  ps_amount :: string
  ps_currency :: string
  slashable :: bool

record escrow_contract =
  escrow_id :: string
  es_job_ref :: string
  es_payer :: string
  es_payee :: string
  es_amount :: money
  milestones :: "milestone list"
  deliver_by :: string
  on_timeout :: on_timeout
  dispute_window_ms :: int
  provider_stake :: provider_stake
  sig_payer :: string
  sig_payee :: string

datatype escrow_state = EOpen | EDelivered | EReleased | EDisputed | EResolved | ERefunded | ETimedOut

datatype milestone_state = MPending | MDelivered | MAccepted | MRejected | MDisputed | MReleased | MRefunded

record milestone_runtime =
  rt_state :: milestone_state
  resultHash :: "string option"
  deliveredAt :: "string option"
  resultSchemaRef :: "string option"

datatype escalation_kind = EscDispute | EscTimeout

record escrow_escalation =
  esl_approvalId :: string
  esl_kind :: escalation_kind
  esl_agent :: string
  esl_action :: policy_action
  milestoneIds :: "string list"
  esl_disputer :: "string option"

record escrow_record =
  contract :: escrow_contract
  e_state :: escrow_state
  runtimes :: "(string, milestone_runtime) jsmap"
  fundsHoldId :: "string option"
  stakeHoldId :: "string option"
  milestoneHoldIds :: "(string, string) jsmap"
  disputeBondHoldId :: "string option"
  e_disputer :: "string option"
  escalation :: "escrow_escalation option"
  e_createdAt :: string

record public_escrow =
  pub_id :: string
  pub_state :: escrow_state
  pub_milestones :: "(string \<times> milestone_state \<times> string option) list"

datatype escrow_mutation = EscrowIs public_escrow | EscrowParked string money "string list"

section \<open>Requests\<close>

record open_input = escrow_contract +
  oi_nonce :: string
  oi_iat :: string
  oi_exp :: string
  oi_approval :: "string option"

text \<open>The replay envelope of the other calls.\<close>

record signed_call =
  sc_nonce :: string
  sc_iat :: string
  sc_exp :: string
  sc_sig :: string

record deliver_input = signed_call +
  dl_milestone :: string
  dl_resultHash :: string
  dl_schemaRef :: "string option"
  dl_provider :: string

record accept_input = signed_call +
  ac_milestone :: string
  ac_payer :: string

record dispute_input = signed_call +
  dp_milestone :: string
  dp_disputer :: string
  dp_reason :: string
  dp_bond :: "money option"

record resolve_input = signed_call +
  rv_caller :: string

record esc_cfg =
  escSigner :: core_signer
  escRepSigner :: core_signer
  escSkew :: int

record escrow_world = settle_world +
  escrows :: "(string, escrow_record) jsmap"

section \<open>The objects that are signed and logged\<close>

fun acceptanceText :: "acceptance_type \<Rightarrow> string" where
  "acceptanceText SchemaOnly = ''schema''"
| "acceptanceText Checksum = ''checksum''"
| "acceptanceText SchemaChecksum = ''schema+checksum''"
| "acceptanceText Oracle = ''oracle''"

fun timeoutText :: "on_timeout \<Rightarrow> string" where
  "timeoutText TimeoutRefund = ''refund''"
| "timeoutText TimeoutRelease = ''release''"
| "timeoutText TimeoutArbitrate = ''arbitrate''"

definition milestoneJson :: "milestone \<Rightarrow> json" where
  "milestoneJson m = JObj [(''id'', JStr (ms_id m)), (''amount'', JStr (ms_amount m)),
     (''acceptance'', JObj ((''type'', JStr (acceptanceText (acc_type (acceptance m))))
        # optField ''schema_ref'' (schema_ref (acceptance m)) @ optField ''expected'' (expected (acceptance m))))]"

definition contractObj :: "'a escrow_contract_scheme \<Rightarrow> (string \<times> json) list" where
  "contractObj c = [(''escrow_id'', JStr (escrow_id c)), (''job_ref'', JStr (es_job_ref c)),
     (''payer'', JStr (es_payer c)), (''payee'', JStr (es_payee c)), (''amount'', moneyJson (es_amount c)),
     (''milestones'', JArr (map milestoneJson (milestones c))), (''deliver_by'', JStr (deliver_by c)),
     (''on_timeout'', JStr (timeoutText (on_timeout c))),
     (''dispute_window_ms'', JNum (of_int (dispute_window_ms c))),
     (''provider_stake'', JObj [(''amount'', JStr (ps_amount (provider_stake c))),
        (''currency'', JStr (ps_currency (provider_stake c))), (''slashable'', JBool (slashable (provider_stake c)))]),
     (''sig_payer'', JStr (sig_payer c)), (''sig_payee'', JStr (sig_payee c))]"

definition openObj :: "open_input \<Rightarrow> (string \<times> json) list" where
  "openObj i = contractObj i @ [(''nonce'', JStr (oi_nonce i)), (''iat'', JStr (oi_iat i)),
     (''exp'', JStr (oi_exp i))] @ optField ''approval_id'' (oi_approval i)"

definition callObj :: "'a signed_call_scheme \<Rightarrow> (string \<times> json) list" where
  "callObj c = [(''nonce'', JStr (sc_nonce c)), (''iat'', JStr (sc_iat c)), (''exp'', JStr (sc_exp c)),
     (''sig'', JStr (sc_sig c))]"

definition deliverObj :: "deliver_input \<Rightarrow> (string \<times> json) list" where
  "deliverObj i = [(''milestone_id'', JStr (dl_milestone i)), (''result_hash'', JStr (dl_resultHash i))]
     @ optField ''result_schema_ref'' (dl_schemaRef i) @ [(''provider'', JStr (dl_provider i))] @ callObj i"

definition acceptObj :: "accept_input \<Rightarrow> (string \<times> json) list" where
  "acceptObj i = [(''milestone_id'', JStr (ac_milestone i)), (''payer'', JStr (ac_payer i))] @ callObj i"

definition disputeObj :: "dispute_input \<Rightarrow> (string \<times> json) list" where
  "disputeObj i = [(''milestone_id'', JStr (dp_milestone i)), (''disputer'', JStr (dp_disputer i)),
     (''reason_code'', JStr (dp_reason i))]
     @ (case dp_bond i of None \<Rightarrow> [] | Some b \<Rightarrow> [(''bond'', moneyJson b)]) @ callObj i"

definition resolveObj :: "resolve_input \<Rightarrow> (string \<times> json) list" where
  "resolveObj i = (''caller'', JStr (rv_caller i)) # callObj i"

text \<open>Both parties sign the contract without the signatures, the envelope and the approval.\<close>

definition CONTRACT_OMIT :: "string list" where
  "CONTRACT_OMIT = [''sig_payer'', ''sig_payee'', ''nonce'', ''iat'', ''exp'', ''approval_id'']"

definition toContract :: "open_input \<Rightarrow> escrow_contract" where
  "toContract i = escrow_contract.truncate i"

section \<open>The repository and the record\<close>

definition recordAt :: "string \<Rightarrow> ('a escrow_world_scheme, escrow_record) exec" where
  "recordAt eid = bindE (gets (\<lambda>w. mapGet (escrows w) eid)) (\<lambda>r. orThrow r JsError)"

definition putEscrow :: "escrow_record \<Rightarrow> ('a escrow_world_scheme, unit) exec" where
  "putEscrow r = modify (\<lambda>w. w\<lparr>escrows := mapSet (escrow_id (contract r)) r (escrows w)\<rparr>)"

definition updEscrow :: "string \<Rightarrow> (escrow_record \<Rightarrow> escrow_record) \<Rightarrow> ('a escrow_world_scheme, unit) exec" where
  "updEscrow eid f = modify (\<lambda>w. w\<lparr>escrows := AList.map_entry eid f (escrows w)\<rparr>)"

definition updRuntime ::
    "string \<Rightarrow> string \<Rightarrow> (milestone_runtime \<Rightarrow> milestone_runtime) \<Rightarrow> ('a escrow_world_scheme, unit) exec" where
  "updRuntime eid mid f = updEscrow eid (\<lambda>r. r\<lparr>runtimes := AList.map_entry mid f (runtimes r)\<rparr>)"

definition runtimeOf :: "string \<Rightarrow> string \<Rightarrow> ('a escrow_world_scheme, milestone_runtime) exec" where
  "runtimeOf eid mid = bindE (recordAt eid) (\<lambda>r. orThrow (mapGet (runtimes r) mid) JsError)"

definition getByJobRef :: "string \<Rightarrow> 'a escrow_world_scheme \<Rightarrow> escrow_record list" where
  "getByJobRef j w = filter (\<lambda>r. es_job_ref (contract r) = j) (mapValues (escrows w))"

text \<open>The runtime states of the milestones, in order; a milestone without one throws.\<close>

fun runtimesOf :: "(string, milestone_runtime) jsmap \<Rightarrow> milestone list \<Rightarrow> ('s, (string \<times> milestone_runtime) list) exec" where
  "runtimesOf rts [] = ret []"
| "runtimesOf rts (m # ms) =
     bindE (orThrow (mapGet rts (ms_id m)) JsError) (\<lambda>rt.
     bindE (runtimesOf rts ms) (\<lambda>rest. ret ((ms_id m, rt) # rest)))"

definition toPublic :: "string \<Rightarrow> ('a escrow_world_scheme, escrow_mutation) exec" where
  "toPublic eid =
     bindE (recordAt eid) (\<lambda>r.
     bindE (runtimesOf (runtimes r) (milestones (contract r))) (\<lambda>rts.
     ret (EscrowIs \<lparr>pub_id = escrow_id (contract r), pub_state = e_state r,
       pub_milestones = map (\<lambda>(i, rt). (i, rt_state rt, resultHash rt)) rts\<rparr>)))"

text \<open>The states in which no party may act: the four outcomes and a dispute that awaits a ruling.\<close>

definition nonActionable :: "escrow_state \<Rightarrow> bool" where
  "nonActionable s \<longleftrightarrow> s = EReleased \<or> s = ERefunded \<or> s = EResolved \<or> s = ETimedOut \<or> s = EDisputed"

definition requireOpenish :: "string \<Rightarrow> ('a escrow_world_scheme, escrow_record) exec" where
  "requireOpenish eid =
     bindE (gets (\<lambda>w. mapGet (escrows w) eid)) (\<lambda>found.
     bindE (orThrow found NotFoundError) (\<lambda>r.
     bindE (throwIf (nonActionable (e_state r)) ConflictError) (\<lambda>_. ret r)))"

definition requireMilestone :: "escrow_contract \<Rightarrow> string \<Rightarrow> ('s, milestone) exec" where
  "requireMilestone c mid = orThrow (find (\<lambda>m. ms_id m = mid) (milestones c)) NotFoundError"

definition otherParty :: "escrow_contract \<Rightarrow> string \<Rightarrow> string" where
  "otherParty c d = (if d = es_payer c then es_payee c else es_payer c)"

definition settledState :: "milestone_state \<Rightarrow> bool" where
  "settledState s \<longleftrightarrow> s = MReleased \<or> s = MRefunded"

definition recomputeEscrowState :: "string \<Rightarrow> ('a escrow_world_scheme, unit) exec" where
  "recomputeEscrowState eid =
     bindE (recordAt eid) (\<lambda>r.
     bindE (runtimesOf (runtimes r) (milestones (contract r))) (\<lambda>rts.
     let states = map (rt_state \<circ> snd) rts in
     if list_all (\<lambda>s. s = MReleased) states then updEscrow eid (\<lambda>r. r\<lparr>e_state := EReleased\<rparr>)
     else if list_all settledState states then
       updEscrow eid (\<lambda>r. r\<lparr>e_state := if list_ex (\<lambda>s. s = MRefunded) states then EResolved else EReleased\<rparr>)
     else ret ()))"


section \<open>Settling one milestone\<close>

definition milestoneMoney :: "escrow_contract \<Rightarrow> milestone \<Rightarrow> money" where
  "milestoneMoney c m = \<lparr>amount = ms_amount m, currency = currency (es_amount c)\<rparr>"

definition milestoneReceipt ::
    "ext \<Rightarrow> esc_cfg \<Rightarrow> int \<Rightarrow> escrow_contract \<Rightarrow> milestone \<Rightarrow> milestone_runtime \<Rightarrow> receipt_outcome \<Rightarrow> string \<Rightarrow> receipt" where
  "milestoneReceipt E cfg now c m rt oc rid =
     signReceipt E (escSigner cfg)
       \<lparr>receipt_id = rid, r_quote_id = None, r_listing_id = None, r_listing_version = None,
        job_ref = Some (es_job_ref c), payer = es_payer c, payee = es_payee c, r_amount = milestoneMoney c m,
        rail = ''escrow'',
        result_hash = (case resultHash rt of Some h \<Rightarrow> h
          | None \<Rightarrow> (case expected (acceptance m) of Some h \<Rightarrow> h | None \<Rightarrow> ''sha256:'' @ ms_id m)),
        latency_ms = 0, outcome = oc, settled_at = isoOf E now, facilitator_sig = '''', payee_sig = ''''\<rparr>"

definition issueMilestoneReceipt ::
    "ext \<Rightarrow> esc_cfg \<Rightarrow> int \<Rightarrow> string \<Rightarrow> milestone \<Rightarrow> receipt_outcome \<Rightarrow> ('a escrow_world_scheme, unit) exec" where
  "issueMilestoneReceipt E cfg now eid m oc =
     bindE (recordAt eid) (\<lambda>r.
     bindE (runtimeOf eid (ms_id m)) (\<lambda>rt.
     bindE (newReceiptId E) (\<lambda>rid.
     let rc = milestoneReceipt E cfg now (contract r) m rt oc rid in
     bindE (appendLedger E now ''receipt'' (Some (es_payee (contract r))) (JObj (receiptObj rc))) (\<lambda>_.
     inReputation (ingestReceipt E (escRepSigner cfg) now rc)))))"

text \<open>The stake goes back once every milestone is released or refunded; a slashed stake is gone by then.\<close>

definition maybeReleaseStake :: "ext \<Rightarrow> string \<Rightarrow> ('a escrow_world_scheme, unit) exec" where
  "maybeReleaseStake E eid =
     bindE (recordAt eid) (\<lambda>r.
     case stakeHoldId r of
       None \<Rightarrow> ret ()
     | Some h \<Rightarrow>
         bindE (runtimesOf (runtimes r) (milestones (contract r))) (\<lambda>rts.
         if list_all (settledState \<circ> rt_state \<circ> snd) rts then
           bindE (inWallet (release E h)) (\<lambda>_. updEscrow eid (\<lambda>r. r\<lparr>stakeHoldId := None\<rparr>))
         else ret ()))"

definition captureMilestone ::
    "ext \<Rightarrow> esc_cfg \<Rightarrow> int \<Rightarrow> string \<Rightarrow> milestone \<Rightarrow> receipt_outcome \<Rightarrow> ('a escrow_world_scheme, unit) exec" where
  "captureMilestone E cfg now eid m oc =
     bindE (recordAt eid) (\<lambda>r.
     bindE (orThrow (mapGet (milestoneHoldIds r) (ms_id m)) ConflictError) (\<lambda>h.
     bindE (runtimeOf eid (ms_id m)) (\<lambda>rt.
     if rt_state rt = MReleased \<or> rt_state rt = MAccepted then ret ()
     else
       bindE (inWallet (capture E h (es_payee (contract r)))) (\<lambda>_.
       bindE (updRuntime eid (ms_id m) (\<lambda>rt. rt\<lparr>rt_state := MReleased\<rparr>)) (\<lambda>_.
       bindE (inWallet (recordSpend E now (es_payer (contract r)) (milestoneMoney (contract r) m))) (\<lambda>_.
       bindE (issueMilestoneReceipt E cfg now eid m oc) (\<lambda>_.
       maybeReleaseStake E eid)))))))"

definition refundMilestone ::
    "ext \<Rightarrow> esc_cfg \<Rightarrow> int \<Rightarrow> string \<Rightarrow> milestone \<Rightarrow> receipt_outcome \<Rightarrow> ('a escrow_world_scheme, unit) exec" where
  "refundMilestone E cfg now eid m oc =
     bindE (recordAt eid) (\<lambda>r.
     bindE (orThrow (mapGet (milestoneHoldIds r) (ms_id m)) ConflictError) (\<lambda>h.
     bindE (runtimeOf eid (ms_id m)) (\<lambda>rt.
     if rt_state rt = MRefunded then ret ()
     else
       bindE (inWallet (release E h)) (\<lambda>_.
       bindE (updRuntime eid (ms_id m) (\<lambda>rt. rt\<lparr>rt_state := MRefunded\<rparr>)) (\<lambda>_.
       bindE (issueMilestoneReceipt E cfg now eid m oc) (\<lambda>_.
       maybeReleaseStake E eid))))))"

text \<open>The payer's share of a slashed stake; the rest of the hold is burned.\<close>

definition burnFraction :: "rat \<Rightarrow> rat" where
  "burnFraction share = max 0 (min 1 (1 - share))"

definition slashProviderStake :: "ext \<Rightarrow> string \<Rightarrow> milestone \<Rightarrow> ('a escrow_world_scheme, unit) exec" where
  "slashProviderStake E eid m =
     bindE (recordAt eid) (\<lambda>r.
     case stakeHoldId r of
       None \<Rightarrow> ret ()
     | Some h \<Rightarrow>
         bindE (bigE E (amount (es_amount (contract r)))) (\<lambda>total.
         bindE (if total = 0 then ret 0
                else bindE (bigE E (ms_amount m)) (\<lambda>_. ret (bigShare E (ms_amount m) (amount (es_amount (contract r))))))
           (\<lambda>share.
         bindE (inWallet (forfeit E h (Some (es_payer (contract r), burnFraction share)))) (\<lambda>_.
         updEscrow eid (\<lambda>r. r\<lparr>stakeHoldId := None\<rparr>)))))"

definition refundRemainingPending ::
    "ext \<Rightarrow> esc_cfg \<Rightarrow> int \<Rightarrow> string \<Rightarrow> escrow_contract \<Rightarrow> string option \<Rightarrow> ('a escrow_world_scheme, unit) exec" where
  "refundRemainingPending E cfg now eid c exceptId =
     forEach (milestones c) (\<lambda>m.
       if Some (ms_id m) = exceptId then ret ()
       else
         bindE (runtimeOf eid (ms_id m)) (\<lambda>rt.
         if rt_state rt = MPending \<or> rt_state rt = MDelivered then refundMilestone E cfg now eid m Refunded
         else ret ()))"

section \<open>Opening\<close>

text \<open>\<open>acc.plus(m.amount)\<close> over the milestones, from zero.\<close>

fun sumAmounts :: "ext \<Rightarrow> rat \<Rightarrow> milestone list \<Rightarrow> ('s, rat) exec" where
  "sumAmounts E acc [] = ret acc"
| "sumAmounts E acc (m # ms) = bindE (bigE E (ms_amount m)) (\<lambda>v. sumAmounts E (acc + v) ms)"

definition milestonesSumToTotal :: "ext \<Rightarrow> escrow_contract \<Rightarrow> ('s, bool) exec" where
  "milestonesSumToTotal E c =
     bindE (sumAmounts E 0 (milestones c)) (\<lambda>total.
     bindE (bigE E (amount (es_amount c))) (\<lambda>t. ret (total = t)))"

definition verifyContractSig :: "ext \<Rightarrow> escrow_contract \<Rightarrow> open_input \<Rightarrow> ('a escrow_world_scheme, unit) exec" where
  "verifyContractSig E c input =
     bindE (gets (\<lambda>w. publicKeyFor (resolverOf E (idn w)) (es_payee c) None)) (\<lambda>key.
     bindE (orThrow key AuthError) (\<lambda>pk.
     throwIf (\<not> verifyDetached E (JObj (stripForSigning (openObj input) CONTRACT_OMIT)) (sig_payee input) pk)
       AuthError))"

definition commitAction :: "escrow_contract \<Rightarrow> policy_action" where
  "commitAction c = \<lparr>a_kind = KEscrow, a_agent = es_payer c, a_amount = Some (es_amount c), a_category = None,
     a_counterparty = Some (es_payee c), a_subKind = None\<rparr>"

definition parkOrDeny ::
    "ext \<Rightarrow> int \<Rightarrow> policy_decision \<Rightarrow> escrow_contract \<Rightarrow> ('a escrow_world_scheme, escrow_mutation) exec" where
  "parkOrDeny E now decision c =
     (case decision of
        NeedsApproval threshold rs \<Rightarrow>
          bindE (inApprovals (enqueue E now (es_payer c) (commitAction c) (JObj (contractObj c)))) (\<lambda>pending.
          ret (EscrowParked (approvalId pending) threshold rs))
      | _ \<Rightarrow> throw ForbiddenError)"

text \<open>One hold per milestone, in order; the ids are collected under the milestone's id.\<close>

fun holdMilestones ::
    "ext \<Rightarrow> int \<Rightarrow> escrow_contract \<Rightarrow> milestone list \<Rightarrow> (string, string) jsmap \<Rightarrow>
     ('a escrow_world_scheme, (string, string) jsmap) exec" where
  "holdMilestones E now c [] ids = ret ids"
| "holdMilestones E now c (m # ms) ids =
     bindE (inWallet (hold E now (es_payer c) (milestoneMoney c m) (''escrow:'' @ escrow_id c @ '':'' @ ms_id m)))
       (\<lambda>h. holdMilestones E now c ms (mapSet (ms_id m) h ids))"

definition freshRuntime :: milestone_runtime where
  "freshRuntime = \<lparr>rt_state = MPending, resultHash = None, deliveredAt = None, resultSchemaRef = None\<rparr>"

definition freshRuntimes :: "milestone list \<Rightarrow> (string, milestone_runtime) jsmap" where
  "freshRuntimes ms = foldl (\<lambda>mp m. mapSet (ms_id m) freshRuntime mp) [] ms"

definition holdStake :: "ext \<Rightarrow> int \<Rightarrow> escrow_contract \<Rightarrow> ('a escrow_world_scheme, string option) exec" where
  "holdStake E now c =
     (let ps = provider_stake c in
      if \<not> slashable ps then ret None
      else
        bindE (bigE E (ps_amount ps)) (\<lambda>v.
        if v > 0 then
          bindE (inWallet (hold E now (es_payee c) \<lparr>amount = ps_amount ps, currency = ps_currency ps\<rparr>
            (''escrow-stake:'' @ escrow_id c))) (\<lambda>h. ret (Some h))
        else ret None))"

definition openRecord ::
    "ext \<Rightarrow> int \<Rightarrow> escrow_contract \<Rightarrow> (string, string) jsmap \<Rightarrow> string option \<Rightarrow> escrow_record" where
  "openRecord E now c ids stk =
     \<lparr>contract = c, e_state = EOpen, runtimes = freshRuntimes (milestones c), fundsHoldId = None,
      stakeHoldId = stk, milestoneHoldIds = ids, disputeBondHoldId = None, e_disputer = None,
      escalation = None, e_createdAt = isoOf E now\<rparr>"

text \<open>The funds are locked once both parties and the policy have agreed.\<close>

definition lockFunds :: "ext \<Rightarrow> int \<Rightarrow> escrow_contract \<Rightarrow> ('a escrow_world_scheme, escrow_mutation) exec" where
  "lockFunds E now c =
     bindE (holdMilestones E now c (milestones c) []) (\<lambda>ids.
     bindE (holdStake E now c) (\<lambda>stk.
     bindE (putEscrow (openRecord E now c ids stk)) (\<lambda>_.
     bindE (appendLedger E now ''escrow_open'' (Some (escrow_id c)) (JObj (contractObj c))) (\<lambda>_.
     toPublic (escrow_id c)))))"

definition openEscrow :: "ext \<Rightarrow> esc_cfg \<Rightarrow> int \<Rightarrow> open_input \<Rightarrow> ('a escrow_world_scheme, escrow_mutation) exec" where
  "openEscrow E cfg now input =
     (let c = toContract input in
      bindE (milestonesSumToTotal E c) (\<lambda>balanced.
      bindE (throwIf (\<not> balanced) ValidationError) (\<lambda>_.
      bindE (bigE E (amount (es_amount c))) (\<lambda>total.
      bindE (throwIf (total \<le> 0) ValidationError) (\<lambda>_.
      bindE (gets (\<lambda>w. mapGet (escrows w) (escrow_id c))) (\<lambda>existing.
      bindE (throwIf (existing \<noteq> None) ConflictError) (\<lambda>_.
      bindE (verifyAs E now (escSkew cfg) (openObj input)
        \<lparr>signerDid = es_payer c, sigField = ''sig_payer'', omitFields = CONTRACT_OMIT, keyId = None, skipNonce = False\<rparr>) (\<lambda>_.
      bindE (verifyContractSig E c input) (\<lambda>_.
      bindE (signWithinPolicy E now (es_payer c) (JObj (contractObj c)) (commitAction c) (oi_approval input)) (\<lambda>signed.
      case signed of
        Refused decision \<Rightarrow> parkOrDeny E now decision c
      | Signed _ \<Rightarrow> lockFunds E now c))))))))))"

section \<open>Delivery and acceptance\<close>

datatype objective = Pass | Fail | Subjective

definition objectivePass :: "acceptance_spec \<Rightarrow> string \<Rightarrow> objective" where
  "objectivePass a deliveredHash =
     (case expected a of
        None \<Rightarrow> Subjective
      | Some x \<Rightarrow>
          if x \<noteq> '''' \<and> (acc_type a = Checksum \<or> acc_type a = SchemaChecksum)
          then (if deliveredHash = x then Pass else Fail)
          else Subjective)"

definition deliver ::
    "ext \<Rightarrow> esc_cfg \<Rightarrow> int \<Rightarrow> string \<Rightarrow> deliver_input \<Rightarrow> ('a escrow_world_scheme, escrow_mutation) exec" where
  "deliver E cfg now eid input =
     bindE (requireOpenish eid) (\<lambda>r.
     bindE (throwIf (dl_provider input \<noteq> es_payee (contract r)) ForbiddenError) (\<lambda>_.
     bindE (verifyAs E now (escSkew cfg) (deliverObj input) (sigOpts (es_payee (contract r)))) (\<lambda>_.
     bindE (requireMilestone (contract r) (dl_milestone input)) (\<lambda>m.
     bindE (runtimeOf eid (dl_milestone input)) (\<lambda>rt.
     if rt_state rt = MAccepted \<or> rt_state rt = MReleased then toPublic eid
     else
       bindE (updRuntime eid (dl_milestone input) (\<lambda>rt. rt\<lparr>resultHash := Some (dl_resultHash input),
         resultSchemaRef := dl_schemaRef input, deliveredAt := Some (isoOf E now), rt_state := MDelivered\<rparr>)) (\<lambda>_.
       bindE (if acc_type (acceptance m) = Checksum then
                (case objectivePass (acceptance m) (dl_resultHash input) of
                   Pass \<Rightarrow> captureMilestone E cfg now eid m Delivered
                 | Fail \<Rightarrow> refundMilestone E cfg now eid m Refunded
                 | Subjective \<Rightarrow> ret ())
              else ret ()) (\<lambda>_.
       bindE (recomputeEscrowState eid) (\<lambda>_.
       toPublic eid))))))))"

definition accept ::
    "ext \<Rightarrow> esc_cfg \<Rightarrow> int \<Rightarrow> string \<Rightarrow> accept_input \<Rightarrow> ('a escrow_world_scheme, escrow_mutation) exec" where
  "accept E cfg now eid input =
     bindE (requireOpenish eid) (\<lambda>r.
     bindE (throwIf (ac_payer input \<noteq> es_payer (contract r)) ForbiddenError) (\<lambda>_.
     bindE (verifyAs E now (escSkew cfg) (acceptObj input) (sigOpts (es_payer (contract r)))) (\<lambda>_.
     bindE (requireMilestone (contract r) (ac_milestone input)) (\<lambda>m.
     bindE (runtimeOf eid (ac_milestone input)) (\<lambda>rt.
     if rt_state rt = MAccepted \<or> rt_state rt = MReleased then toPublic eid
     else
       bindE (throwIf (rt_state rt \<noteq> MDelivered) ConflictError) (\<lambda>_.
       bindE (captureMilestone E cfg now eid m Delivered) (\<lambda>_.
       bindE (recomputeEscrowState eid) (\<lambda>_.
       toPublic eid))))))))"

section \<open>Disputes\<close>

definition assertWithinDisputeWindow ::
    "ext \<Rightarrow> int \<Rightarrow> escrow_record \<Rightarrow> milestone_runtime \<Rightarrow> ('s, unit) exec" where
  "assertWithinDisputeWindow E now r rt =
     (let anchor = (case deliveredAt rt of Some d \<Rightarrow> d | None \<Rightarrow> e_createdAt r) in
      throwIf (case dateMs E anchor of None \<Rightarrow> False | Some t \<Rightarrow> now > t + dispute_window_ms (contract r)) ConflictError)"

definition disputeAction :: "escrow_contract \<Rightarrow> milestone \<Rightarrow> string \<Rightarrow> policy_action" where
  "disputeAction c m d = \<lparr>a_kind = KEscrow, a_agent = d, a_amount = Some (milestoneMoney c m), a_category = None,
     a_counterparty = Some (otherParty c d), a_subKind = None\<rparr>"

definition releaseBond :: "ext \<Rightarrow> string \<Rightarrow> ('a escrow_world_scheme, unit) exec" where
  "releaseBond E eid =
     bindE (recordAt eid) (\<lambda>r.
     case disputeBondHoldId r of
       None \<Rightarrow> ret ()
     | Some h \<Rightarrow> bindE (inWallet (release E h)) (\<lambda>_. updEscrow eid (\<lambda>r. r\<lparr>disputeBondHoldId := None\<rparr>)))"

definition escalateDispute ::
    "ext \<Rightarrow> int \<Rightarrow> string \<Rightarrow> milestone \<Rightarrow> dispute_input \<Rightarrow> ('a escrow_world_scheme, escrow_mutation) exec" where
  "escalateDispute E now eid m input =
     bindE (recordAt eid) (\<lambda>r.
     bindE (runtimeOf eid (ms_id m)) (\<lambda>rt.
     let c = contract r; act = disputeAction c m (dp_disputer input) in
     bindE (inApprovals (enqueue E now (dp_disputer input) act
       (JObj [(''escrow_id'', JStr (escrow_id c)), (''milestone_id'', JStr (ms_id m)),
         (''reason_code'', JStr (dp_reason input)), (''result_hash'', nullable (resultHash rt))]))) (\<lambda>pending.
     bindE (updEscrow eid (\<lambda>r. r\<lparr>escalation := Some \<lparr>esl_approvalId = approvalId pending, esl_kind = EscDispute,
         esl_agent = dp_disputer input, esl_action = act, milestoneIds = [ms_id m],
         esl_disputer = Some (dp_disputer input)\<rparr>\<rparr>)) (\<lambda>_.
     bindE (appendLedger E now ''escrow_dispute_escalated'' (Some (escrow_id c))
       (JObj [(''milestone_id'', JStr (ms_id m)), (''disputer'', JStr (dp_disputer input)),
         (''approval_id'', JStr (approvalId pending))])) (\<lambda>_.
     ret (EscrowParked (approvalId pending) (milestoneMoney c m) [''subjective acceptance requires arbiter ruling'']))))))"

text \<open>A dispute of work that objectively passes: the provider is paid and the disputer's bond goes to the provider.\<close>

definition frivolousDispute ::
    "ext \<Rightarrow> esc_cfg \<Rightarrow> int \<Rightarrow> string \<Rightarrow> escrow_contract \<Rightarrow> milestone \<Rightarrow> string \<Rightarrow> ('a escrow_world_scheme, unit) exec" where
  "frivolousDispute E cfg now eid c m d =
     bindE (captureMilestone E cfg now eid m Delivered) (\<lambda>_.
     bindE (recordAt eid) (\<lambda>r.
     bindE (case disputeBondHoldId r of
              None \<Rightarrow> ret ()
            | Some h \<Rightarrow>
                bindE (inWallet (forfeit E h (Some (es_payee c, 0)))) (\<lambda>_.
                updEscrow eid (\<lambda>r. r\<lparr>disputeBondHoldId := None\<rparr>))) (\<lambda>_.
     bindE (inReputation (ingestSignal E (escRepSigner cfg) now d ''frivolous_dispute'' 1)) (\<lambda>_.
     appendLedger E now ''escrow_dispute_resolved'' (Some (escrow_id c))
       (JObj [(''milestone_id'', JStr (ms_id m)), (''ruling'', JStr ''for_provider''), (''slashed'', JStr ''disputer_bond'')])))))"

text \<open>A dispute of work that objectively fails: the stake is slashed, then the milestone refunded.\<close>

definition upheldDispute ::
    "ext \<Rightarrow> esc_cfg \<Rightarrow> int \<Rightarrow> string \<Rightarrow> escrow_contract \<Rightarrow> milestone \<Rightarrow> ('a escrow_world_scheme, unit) exec" where
  "upheldDispute E cfg now eid c m =
     bindE (slashProviderStake E eid m) (\<lambda>_.
     bindE (refundMilestone E cfg now eid m Disputed) (\<lambda>_.
     bindE (releaseBond E eid) (\<lambda>_.
     appendLedger E now ''escrow_dispute_resolved'' (Some (escrow_id c))
       (JObj [(''milestone_id'', JStr (ms_id m)), (''ruling'', JStr ''for_requester''), (''slashed'', JStr ''provider_stake'')]))))"

definition postBond ::
    "ext \<Rightarrow> int \<Rightarrow> string \<Rightarrow> escrow_contract \<Rightarrow> milestone \<Rightarrow> dispute_input \<Rightarrow> ('a escrow_world_scheme, unit) exec" where
  "postBond E now eid c m input =
     (case dp_bond input of
        None \<Rightarrow> ret ()
      | Some b \<Rightarrow>
          bindE (inWallet (hold E now (dp_disputer input) b (''dispute-bond:'' @ escrow_id c @ '':'' @ ms_id m))) (\<lambda>h.
          updEscrow eid (\<lambda>r. r\<lparr>disputeBondHoldId := Some h\<rparr>)))"

definition dispute ::
    "ext \<Rightarrow> esc_cfg \<Rightarrow> int \<Rightarrow> string \<Rightarrow> dispute_input \<Rightarrow> ('a escrow_world_scheme, escrow_mutation) exec" where
  "dispute E cfg now eid input =
     bindE (requireOpenish eid) (\<lambda>r.
     let c = contract r in
     bindE (throwIf (dp_disputer input \<noteq> es_payer c \<and> dp_disputer input \<noteq> es_payee c) ForbiddenError) (\<lambda>_.
     bindE (verifyAs E now (escSkew cfg) (disputeObj input) (sigOpts (dp_disputer input))) (\<lambda>_.
     bindE (requireMilestone c (dp_milestone input)) (\<lambda>m.
     bindE (runtimeOf eid (dp_milestone input)) (\<lambda>rt.
     bindE (throwIf (rt_state rt = MAccepted \<or> settledState (rt_state rt)) ConflictError) (\<lambda>_.
     bindE (assertWithinDisputeWindow E now r rt) (\<lambda>_.
     bindE (postBond E now eid c m input) (\<lambda>_.
     bindE (updEscrow eid (\<lambda>r. r\<lparr>e_state := EDisputed, e_disputer := Some (dp_disputer input)\<rparr>)) (\<lambda>_.
     bindE (updRuntime eid (dp_milestone input) (\<lambda>rt. rt\<lparr>rt_state := MDisputed\<rparr>)) (\<lambda>_.
     case (case resultHash rt of None \<Rightarrow> Subjective | Some h \<Rightarrow> objectivePass (acceptance m) h) of
       Subjective \<Rightarrow> escalateDispute E now eid m input
     | obj \<Rightarrow>
         bindE (if obj = Pass then frivolousDispute E cfg now eid c m (dp_disputer input)
                else upheldDispute E cfg now eid c m) (\<lambda>_.
         bindE (updEscrow eid (\<lambda>r. r\<lparr>e_state := EResolved, e_disputer := None\<rparr>)) (\<lambda>_.
         bindE (recomputeEscrowState eid) (\<lambda>_.
         toPublic eid)))))))))))))"

section \<open>Timeout and escalation\<close>

definition unsettled :: "milestone_state \<Rightarrow> bool" where
  "unsettled s \<longleftrightarrow> s = MPending \<or> s = MDelivered"

definition timeoutAction :: "escrow_contract \<Rightarrow> policy_action" where
  "timeoutAction c = \<lparr>a_kind = KEscrow, a_agent = es_payer c, a_amount = Some (es_amount c), a_category = None,
     a_counterparty = Some (es_payee c), a_subKind = None\<rparr>"

text \<open>The reason text \<open>timeout -> arbitration\<close>, its arrow in UTF-8.\<close>

definition arbitrationReason :: string where
  "arbitrationReason = ''timeout '' @ [CHR 0xE2, CHR 0x86, CHR 0x92] @ '' arbitration''"

definition escalateTimeout ::
    "ext \<Rightarrow> int \<Rightarrow> string \<Rightarrow> escrow_contract \<Rightarrow> milestone list \<Rightarrow> ('a escrow_world_scheme, escrow_mutation) exec" where
  "escalateTimeout E now eid c pending =
     (let ids = JArr (map (JStr \<circ> ms_id) pending) in
      bindE (inApprovals (enqueue E now (es_payer c) (timeoutAction c)
        (JObj [(''escrow_id'', JStr (escrow_id c)), (''reason'', JStr ''timeout_arbitrate''), (''pending'', ids)]))) (\<lambda>apr.
      bindE (updEscrow eid (\<lambda>r. r\<lparr>e_state := EDisputed,
        escalation := Some \<lparr>esl_approvalId = approvalId apr, esl_kind = EscTimeout, esl_agent = es_payer c,
          esl_action = timeoutAction c, milestoneIds = map ms_id pending, esl_disputer = None\<rparr>\<rparr>)) (\<lambda>_.
      bindE (appendLedger E now ''escrow_timeout_escalated'' (Some (escrow_id c))
        (JObj [(''approval_id'', JStr (approvalId apr)), (''pending'', ids)])) (\<lambda>_.
      ret (EscrowParked (approvalId apr) (es_amount c) [arbitrationReason])))))"

definition onTimeout ::
    "ext \<Rightarrow> esc_cfg \<Rightarrow> int \<Rightarrow> string \<Rightarrow> ('a escrow_world_scheme, escrow_mutation) exec" where
  "onTimeout E cfg now eid =
     bindE (requireOpenish eid) (\<lambda>r.
     let c = contract r in
     bindE (throwIf (case dateMs E (deliver_by c) of None \<Rightarrow> False | Some t \<Rightarrow> now < t) ConflictError) (\<lambda>_.
     bindE (runtimesOf (runtimes r) (milestones c)) (\<lambda>rts.
     let pending = map fst (filter (\<lambda>(m, i, rt). unsettled (rt_state rt)) (zip (milestones c) rts)) in
     if on_timeout c = TimeoutArbitrate then escalateTimeout E now eid c pending
     else
       bindE (forEach pending (\<lambda>m.
         if on_timeout c = TimeoutRefund then refundMilestone E cfg now eid m Refunded
         else captureMilestone E cfg now eid m Delivered)) (\<lambda>_.
       bindE (updEscrow eid (\<lambda>r. r\<lparr>e_state := ETimedOut\<rparr>)) (\<lambda>_.
       bindE (recomputeEscrowState eid) (\<lambda>_.
       toPublic eid))))))"

text \<open>The disputer's bond after a ruling: returned, or forfeited to the other party with a penalty.\<close>

definition settleBond ::
    "ext \<Rightarrow> esc_cfg \<Rightarrow> int \<Rightarrow> string \<Rightarrow> escrow_contract \<Rightarrow> string \<Rightarrow> bool \<Rightarrow> ('a escrow_world_scheme, unit) exec" where
  "settleBond E cfg now eid c d upheld =
     bindE (recordAt eid) (\<lambda>r.
     case disputeBondHoldId r of
       None \<Rightarrow> ret ()
     | Some h \<Rightarrow>
         bindE (if upheld then inWallet (release E h)
                else
                  bindE (inWallet (forfeit E h (Some (otherParty c d, 0)))) (\<lambda>_.
                  inReputation (ingestSignal E (escRepSigner cfg) now d ''frivolous_dispute'' 1))) (\<lambda>_.
         updEscrow eid (\<lambda>r. r\<lparr>disputeBondHoldId := None\<rparr>)))"

definition settleDisputeEscalation ::
    "ext \<Rightarrow> esc_cfg \<Rightarrow> int \<Rightarrow> string \<Rightarrow> escrow_contract \<Rightarrow> escrow_escalation \<Rightarrow> bool \<Rightarrow> ('a escrow_world_scheme, unit) exec" where
  "settleDisputeEscalation E cfg now eid c esl upheld =
     bindE (orThrow (esl_disputer esl) ConflictError) (\<lambda>d.
     bindE (case milestoneIds esl of [] \<Rightarrow> throw ConflictError | mid # _ \<Rightarrow> ret mid) (\<lambda>mid.
     bindE (requireMilestone c mid) (\<lambda>m.
     bindE (if (if upheld then d else otherParty c d) = es_payee c
            then captureMilestone E cfg now eid m Delivered
            else bindE (slashProviderStake E eid m) (\<lambda>_. refundMilestone E cfg now eid m Disputed)) (\<lambda>_.
     bindE (settleBond E cfg now eid c d upheld) (\<lambda>_.
     refundRemainingPending E cfg now eid c (Some mid))))))"

definition settleTimeoutEscalation ::
    "ext \<Rightarrow> esc_cfg \<Rightarrow> int \<Rightarrow> string \<Rightarrow> escrow_contract \<Rightarrow> escrow_escalation \<Rightarrow> bool \<Rightarrow> ('a escrow_world_scheme, unit) exec" where
  "settleTimeoutEscalation E cfg now eid c esl upheld =
     bindE (forEach (milestoneIds esl) (\<lambda>mid.
       bindE (recordAt eid) (\<lambda>r.
       case mapGet (runtimes r) mid of
         None \<Rightarrow> ret ()
       | Some rt \<Rightarrow>
           if \<not> unsettled (rt_state rt) then ret ()
           else
             bindE (requireMilestone c mid) (\<lambda>m.
             if upheld then captureMilestone E cfg now eid m Delivered
             else refundMilestone E cfg now eid m Refunded)))) (\<lambda>_.
     refundRemainingPending E cfg now eid c None)"

definition resolveEscalation ::
    "ext \<Rightarrow> esc_cfg \<Rightarrow> int \<Rightarrow> string \<Rightarrow> resolve_input \<Rightarrow> ('a escrow_world_scheme, escrow_mutation) exec" where
  "resolveEscalation E cfg now eid input =
     bindE (gets (\<lambda>w. mapGet (escrows w) eid)) (\<lambda>found.
     bindE (orThrow found NotFoundError) (\<lambda>r.
     let c = contract r in
     bindE (throwIf (e_state r \<noteq> EDisputed) ConflictError) (\<lambda>_.
     bindE (orThrow (escalation r) ConflictError) (\<lambda>esl.
     bindE (throwIf (rv_caller input \<noteq> es_payer c \<and> rv_caller input \<noteq> es_payee c) ForbiddenError) (\<lambda>_.
     bindE (verifyAs E now (escSkew cfg) (resolveObj input) (sigOpts (rv_caller input))) (\<lambda>_.
     bindE (inApprovals (consume E (esl_approvalId esl) (esl_agent esl) (esl_action esl))) (\<lambda>redeemed.
     let upheld = (ruled redeemed = Some RApproved) in
     bindE (if esl_kind esl = EscDispute then settleDisputeEscalation E cfg now eid c esl upheld
            else settleTimeoutEscalation E cfg now eid c esl upheld) (\<lambda>_.
     bindE (updEscrow eid (\<lambda>r. r\<lparr>e_state := if esl_kind esl = EscDispute then EResolved else ETimedOut,
       e_disputer := None, escalation := None\<rparr>)) (\<lambda>_.
     bindE (appendLedger E now ''escrow_escalation_resolved'' (Some (escrow_id c))
       (JObj [(''kind'', JStr (if esl_kind esl = EscDispute then ''dispute'' else ''timeout'')),
         (''ruling'', JStr (if upheld then ''upheld'' else ''rejected'')),
         (''approval_id'', JStr (esl_approvalId esl))])) (\<lambda>_.
     toPublic eid))))))))))"

end
