(* ===== verification/Escrow_Laws.thy ===== *)
theory Escrow_Laws
  imports Escrow Guarantee
begin

text \<open>
  What every escrow operation may do to the shared state, as one guarantee \<open>estep\<close>: the invariant
  \<open>escrow_ok\<close> is kept, no currency gains funds, every account changes by what its holds say was paid,
  earned or slashed, contracts never change and every milestone moves along its life cycle. \<open>record_ok\<close> ties a record to the wallet: each milestone has a hold of its
  own on the payer's account, captured exactly when the milestone is released, and the stake
  and the bond have holds of their own, the stake a live one.
\<close>

section \<open>The life cycle of a milestone\<close>

text \<open>
  A milestone that is released stays so. One that was refunded can be delivered again; then its
  hold is spent, and no further payment or refund can follow.
\<close>

inductive lifecycle :: "milestone_state \<Rightarrow> milestone_state \<Rightarrow> bool" where
  delivered: "s \<noteq> MReleased \<Longrightarrow> s \<noteq> MAccepted \<Longrightarrow> lifecycle s MDelivered"
| disputed: "s \<noteq> MAccepted \<Longrightarrow> \<not> settledState s \<Longrightarrow> lifecycle s MDisputed"
| paid: "\<not> settledState s \<Longrightarrow> lifecycle s MReleased"
| returned: "\<not> settledState s \<Longrightarrow> lifecycle s MRefunded"

inductive_simps lifecycle_from [simp]: "lifecycle MReleased s"
inductive_simps lifecycle_to_released: "lifecycle s MReleased"
inductive_cases lifecycleE: "lifecycle s t"

abbreviation evolves :: "milestone_state \<Rightarrow> milestone_state \<Rightarrow> bool" where
  "evolves \<equiv> lifecycle\<^sup>*\<^sup>*"

lemma released_final: "evolves MReleased s \<Longrightarrow> s = MReleased"
  by (induction rule: rtranclp_induct) (auto simp: settledState_def)

section \<open>The invariant\<close>

definition refsOf :: "escrow_record \<Rightarrow> string set" where
  "refsOf r = ran (mapGet (milestoneHoldIds r)) \<union> set_option (stakeHoldId r) \<union> set_option (disputeBondHoldId r)"

fun holdFits :: "milestone_state \<Rightarrow> hold_state \<Rightarrow> bool" where
  "holdFits s Active \<longleftrightarrow> s = MPending \<or> s = MDelivered \<or> s = MDisputed"
| "holdFits s Captured \<longleftrightarrow> s = MReleased"
| "holdFits s Released \<longleftrightarrow> s = MRefunded \<or> s = MDelivered \<or> s = MDisputed"
| "holdFits s Forfeited \<longleftrightarrow> False"

definition uniqueIds :: "escrow_contract \<Rightarrow> bool" where
  "uniqueIds c \<longleftrightarrow> distinct (map ms_id (milestones c))"

definition milestoneHeld :: "wallet_st \<Rightarrow> escrow_record \<Rightarrow> milestone \<Rightarrow> bool" where
  "milestoneHeld st r m \<longleftrightarrow> (\<exists>i rt h. mapGet (milestoneHoldIds r) (ms_id m) = Some i \<and>
     mapGet (runtimes r) (ms_id m) = Some rt \<and> mapGet (holds st) i = Some h \<and>
     h_did h = es_payer (contract r) \<and> h_currency h = currency (es_amount (contract r)) \<and>
     (uniqueIds (contract r) \<longrightarrow> h_amount h = ms_amount m) \<and> holdFits (rt_state rt) (h_state h))"

definition liveHold :: "wallet_st \<Rightarrow> string option \<Rightarrow> bool" where
  "liveHold st i \<longleftrightarrow> (case i of None \<Rightarrow> True | Some j \<Rightarrow> (\<exists>h. mapGet (holds st) j = Some h \<and> h_state h = Active))"

definition separateRefs :: "escrow_record \<Rightarrow> bool" where
  "separateRefs r \<longleftrightarrow>
     (\<forall>k k' i. mapGet (milestoneHoldIds r) k = Some i \<longrightarrow> mapGet (milestoneHoldIds r) k' = Some i \<longrightarrow> k = k') \<and>
     set_option (stakeHoldId r) \<inter> ran (mapGet (milestoneHoldIds r)) = {} \<and>
     set_option (disputeBondHoldId r) \<inter> ran (mapGet (milestoneHoldIds r)) = {} \<and>
     set_option (stakeHoldId r) \<inter> set_option (disputeBondHoldId r) = {}"

definition record_ok :: "ext \<Rightarrow> wallet_st \<Rightarrow> escrow_record \<Rightarrow> bool" where
  "record_ok E st r \<longleftrightarrow> separateRefs r \<and> liveHold st (stakeHoldId r) \<and>
     (\<forall>m \<in> set (milestones (contract r)). milestoneHeld st r m) \<and>
     bv E (amount (es_amount (contract r))) = (\<Sum>m\<leftarrow>milestones (contract r). bv E (ms_amount m)) \<and>
     refsOf r \<subseteq> dom (mapGet (holds st))"

definition escrow_ok :: "ext \<Rightarrow> 'a escrow_world_scheme \<Rightarrow> bool" where
  "escrow_ok E w \<longleftrightarrow> core_ok E w \<and>
     (\<forall>eid r. mapGet (escrows w) eid = Some r \<longrightarrow> escrow_id (contract r) = eid \<and> record_ok E (wal w) r) \<and>
     (\<forall>e1 r1 e2 r2. mapGet (escrows w) e1 = Some r1 \<longrightarrow> mapGet (escrows w) e2 = Some r2 \<longrightarrow>
        e1 \<noteq> e2 \<longrightarrow> refsOf r1 \<inter> refsOf r2 = {})"

lemma escrow_okD:
  assumes "escrow_ok E w"
  shows "core_ok E w" "wallet_ok E (wal w)"
    "mapGet (escrows w) eid = Some r \<Longrightarrow> escrow_id (contract r) = eid"
    "mapGet (escrows w) eid = Some r \<Longrightarrow> record_ok E (wal w) r"
    "mapGet (escrows w) eid = Some r \<Longrightarrow> mapGet (escrows w) e2 = Some r2 \<Longrightarrow> e2 \<noteq> eid \<Longrightarrow> refsOf r \<inter> refsOf r2 = {}"
  using assms by (auto simp: escrow_ok_def core_ok_def)

lemma milestoneHeld_cong:
  assumes "milestoneHeld st r m"
    and "\<And>i. mapGet (milestoneHoldIds r) (ms_id m) = Some i \<Longrightarrow> mapGet (holds st') i = mapGet (holds st) i"
  shows "milestoneHeld st' r m"
  using assms by (auto simp: milestoneHeld_def)

text \<open>A record only looks at the holds it refers to.\<close>

lemma record_ok_cong:
  assumes "record_ok E st r" "\<And>i. i \<in> refsOf r \<Longrightarrow> mapGet (holds st') i = mapGet (holds st) i"
  shows "record_ok E st' r"
proof -
  have ids: "mapGet (holds st') i = mapGet (holds st) i" if "mapGet (milestoneHoldIds r) k = Some i" for k i
    using assms(2) [of i] that by (auto simp: refsOf_def ranI)
  have st: "mapGet (holds st') i = mapGet (holds st) i" if "stakeHoldId r = Some i \<or> disputeBondHoldId r = Some i" for i
    using assms(2) [of i] that by (auto simp: refsOf_def)
  have "milestoneHeld st' r m" if "milestoneHeld st r m" for m
    by (rule milestoneHeld_cong [OF that]) (rule ids)
  moreover have "liveHold st' (stakeHoldId r)"
    using assms(1) st by (auto simp: record_ok_def liveHold_def split: option.splits)
  moreover have "refsOf r \<subseteq> dom (mapGet (holds st'))"
    using assms by (fastforce simp: record_ok_def dom_def)
  ultimately show ?thesis using assms(1) by (auto simp: record_ok_def)
qed

section \<open>The guarantee\<close>

definition advances :: "(string, escrow_record) jsmap \<Rightarrow> (string, escrow_record) jsmap \<Rightarrow> bool" where
  "advances es es' \<longleftrightarrow> (\<forall>eid r. mapGet es eid = Some r \<longrightarrow> (\<exists>r'. mapGet es' eid = Some r' \<and> contract r' = contract r \<and>
     (\<forall>mid rt. mapGet (runtimes r) mid = Some rt \<longrightarrow>
        (\<exists>rt'. mapGet (runtimes r') mid = Some rt' \<and> evolves (rt_state rt) (rt_state rt')))))"

lemma advances_refl [simp]: "advances es es"
  by (auto simp: advances_def)

lemma advances_trans: "advances es es' \<Longrightarrow> advances es' es'' \<Longrightarrow> advances es es''"
  unfolding advances_def by (fastforce intro: rtranclp_trans)

text \<open>
  The accounts. \<open>balanceAt\<close> is what an account has, locked or not. A captured hold has left the
  account it was made on; when a record refers to it as the hold of a milestone, its amount is due to the account
  of that record's provider in the contract's currency. A forfeited hold has left its account too.
  \<open>standing\<close> is the balance with those amounts undone: it stays the same when every payment goes
  from the hold's owner to the provider and every refund back to the hold's owner.
\<close>

definition balanceAt :: "ext \<Rightarrow> wallet_st \<Rightarrow> string \<Rightarrow> rat" where
  "balanceAt E st k = availAt E (rows st) k + heldAt E (rows st) k"

definition payeeKey :: "escrow_contract \<Rightarrow> string" where
  "payeeKey c = walletKey (es_payee c) (currency (es_amount c))"

definition paysKey :: "(string, escrow_record) jsmap \<Rightarrow> string \<Rightarrow> string \<Rightarrow> bool" where
  "paysKey es i k \<longleftrightarrow> (\<exists>eid r. mapGet es eid = Some r \<and> i \<in> ran (mapGet (milestoneHoldIds r)) \<and> k = payeeKey (contract r))"

definition paidFrom :: "ext \<Rightarrow> wallet_st \<Rightarrow> string \<Rightarrow> rat" where
  "paidFrom E st k = sumEntries (\<lambda>(i, h). if h_state h = Captured \<and> holdKey h = k then bv E (h_amount h) else 0) (holds st)"

definition earnedBy :: "ext \<Rightarrow> (string, escrow_record) jsmap \<Rightarrow> wallet_st \<Rightarrow> string \<Rightarrow> rat" where
  "earnedBy E es st k = sumEntries (\<lambda>(i, h). if h_state h = Captured \<and> paysKey es i k then bv E (h_amount h) else 0) (holds st)"

definition slashedFrom :: "ext \<Rightarrow> wallet_st \<Rightarrow> string \<Rightarrow> rat" where
  "slashedFrom E st k = sumEntries (\<lambda>(i, h). if h_state h = Forfeited \<and> holdKey h = k then bv E (h_amount h) else 0) (holds st)"

definition standing :: "ext \<Rightarrow> 'a escrow_world_scheme \<Rightarrow> string \<Rightarrow> rat" where
  "standing E w k = balanceAt E (wal w) k + paidFrom E (wal w) k - earnedBy E (escrows w) (wal w) k + slashedFrom E (wal w) k"

text \<open>The holds that were slashed, and the accounts of the parties of the escrows.\<close>

definition slashedIds :: "wallet_st \<Rightarrow> string set" where
  "slashedIds st = {i. \<exists>h. mapGet (holds st) i = Some h \<and> h_state h = Forfeited}"

definition partyKey :: "(string, escrow_record) jsmap \<Rightarrow> string \<Rightarrow> bool" where
  "partyKey es k \<longleftrightarrow> (\<exists>eid r d cur. mapGet es eid = Some r \<and> (d = es_payer (contract r) \<or> d = es_payee (contract r)) \<and>
     k = walletKey d cur)"

definition squares :: "ext \<Rightarrow> 'a escrow_world_scheme \<Rightarrow> 'a escrow_world_scheme \<Rightarrow> bool" where
  "squares E w w' \<longleftrightarrow> slashedIds (wal w) \<subseteq> slashedIds (wal w') \<and>
     (\<forall>k. standing E w' k = standing E w k \<or>
        standing E w k \<le> standing E w' k \<and> slashedIds (wal w') \<noteq> slashedIds (wal w) \<and> partyKey (escrows w') k)"

lemma squares_refl [simp]: "squares E w w"
  by (simp add: squares_def)

lemma partyKeyI:
  "mapGet es eid = Some r \<Longrightarrow> d = es_payer (contract r) \<or> d = es_payee (contract r) \<Longrightarrow> partyKey es (walletKey d cur)"
  unfolding partyKey_def by blast

lemma partyKey_advances: "partyKey es k \<Longrightarrow> advances es es' \<Longrightarrow> partyKey es' k"
  unfolding partyKey_def advances_def by metis

lemma squares_trans:
  assumes "squares E s t" "squares E t u" "advances (escrows t) (escrows u)"
  shows "squares E s u"
  unfolding squares_def
proof (intro conjI allI)
  show "slashedIds (wal s) \<subseteq> slashedIds (wal u)" using assms(1,2) by (auto simp: squares_def)
  fix k
  have st: "standing E t k = standing E s k \<or>
      standing E s k \<le> standing E t k \<and> slashedIds (wal t) \<noteq> slashedIds (wal s) \<and> partyKey (escrows t) k"
    and tu: "standing E u k = standing E t k \<or>
      standing E t k \<le> standing E u k \<and> slashedIds (wal u) \<noteq> slashedIds (wal t) \<and> partyKey (escrows u) k"
    and sub: "slashedIds (wal s) \<subseteq> slashedIds (wal t)" "slashedIds (wal t) \<subseteq> slashedIds (wal u)"
    using assms(1,2) by (simp_all add: squares_def)
  show "standing E u k = standing E s k \<or>
      standing E s k \<le> standing E u k \<and> slashedIds (wal u) \<noteq> slashedIds (wal s) \<and> partyKey (escrows u) k"
    using st tu sub partyKey_advances [OF _ assms(3), of k] by auto
qed

definition noGain :: "ext \<Rightarrow> wallet_st \<Rightarrow> wallet_st \<Rightarrow> bool" where
  "noGain E st st' \<longleftrightarrow> (\<forall>c. worth E c st' \<le> worth E c st)"

definition estep :: "ext \<Rightarrow> 'a escrow_world_scheme \<Rightarrow> 'a escrow_world_scheme \<Rightarrow> bool" where
  "estep E w w' \<longleftrightarrow> (escrow_ok E w \<longrightarrow> escrow_ok E w' \<and> noGain E (wal w) (wal w') \<and> squares E w w' \<and>
     advances (escrows w) (escrows w'))"

interpretation esc: guarantee "estep E" for E
proof
  show "estep E s s" for s :: "'a escrow_world_scheme" by (simp add: estep_def noGain_def)
  show "estep E s u" if "estep E s t" "estep E t u" for s t u :: "'a escrow_world_scheme"
    using that by (auto simp: estep_def noGain_def intro: advances_trans order_trans squares_trans)
qed

lemma estepD:
  assumes "estep E w w'" "escrow_ok E w"
  shows "escrow_ok E w'" "worth E c (wal w') \<le> worth E c (wal w)" "advances (escrows w) (escrows w')" "squares E w w'"
  using assms by (auto simp: estep_def noGain_def)

section \<open>How a step re-establishes the invariant\<close>

definition grown :: "wallet_st \<Rightarrow> wallet_st \<Rightarrow> bool" where
  "grown st st' \<longleftrightarrow> (\<forall>i. mapGet (holds st) i \<noteq> None \<longrightarrow> mapGet (holds st') i = mapGet (holds st) i)"

lemma grown_refl [simp]: "grown st st"
  by (simp add: grown_def)

lemma grown_trans: "grown st st' \<Longrightarrow> grown st' st'' \<Longrightarrow> grown st st''"
  by (simp add: grown_def)

lemma record_ok_grown: "record_ok E st r \<Longrightarrow> grown st st' \<Longrightarrow> record_ok E st' r"
  by (rule record_ok_cong [of E st r st'], assumption) (auto simp: record_ok_def grown_def dom_def)

text \<open>Holds are only added, on the account they are taken from.\<close>

definition flat :: "ext \<Rightarrow> wallet_st \<Rightarrow> wallet_st \<Rightarrow> bool" where
  "flat E st st' \<longleftrightarrow> grown st st' \<and> (\<forall>k. balanceAt E st' k = balanceAt E st k) \<and>
     (\<forall>i h. mapGet (holds st) i = None \<longrightarrow> mapGet (holds st') i = Some h \<longrightarrow> h_state h = Active)"

lemma flat_refl [simp]: "flat E st st"
  by (simp add: flat_def)

lemma flat_trans: "flat E st st' \<Longrightarrow> flat E st' st'' \<Longrightarrow> flat E st st''"
  unfolding flat_def grown_def by (metis option.distinct(1))

lemma flat_grown: "flat E st st' \<Longrightarrow> grown st st'"
  by (simp add: flat_def)

lemma sumEntries_keys:
  "distinctKeys m \<Longrightarrow> sumEntries f m = (\<Sum>k \<in> dom (mapGet m). f (k, the (mapGet m k)))"
proof (induction m)
  case (Cons p m)
  obtain a b where p: "p = (a, b)" by (cases p)
  have a: "a \<notin> dom (mapGet m)" using Cons.prems p by (simp add: dom_map_of_conv_image_fst)
  have "(\<Sum>k \<in> dom (mapGet m). f (k, the (mapGet (p # m) k))) = (\<Sum>k \<in> dom (mapGet m). f (k, the (mapGet m k)))"
    by (rule sum.cong) (use a p in auto)
  moreover have dom: "dom (mapGet (p # m)) = insert a (dom (mapGet m))" using p by auto
  have "(\<Sum>k \<in> dom (mapGet (p # m)). f (k, the (mapGet (p # m) k))) =
      f (a, the (mapGet (p # m) a)) + (\<Sum>k \<in> dom (mapGet m). f (k, the (mapGet (p # m) k)))"
    unfolding dom by (rule sum.insert) (use a in \<open>simp_all add: finite_dom_map_of\<close>)
  moreover have "sumEntries f (p # m) = f (a, the (mapGet (p # m) a)) + (\<Sum>k \<in> dom (mapGet m). f (k, the (mapGet m k)))"
    using Cons p by simp
  ultimately show ?case by metis
qed simp

lemma sumEntries_grown:
  assumes d: "distinctKeys (holds st)" "distinctKeys (holds st')" and g: "grown st st'"
    and old: "\<And>i h. mapGet (holds st) i = Some h \<Longrightarrow> f' (i, h) = f (i, h)"
    and new: "\<And>i h. mapGet (holds st) i = None \<Longrightarrow> mapGet (holds st') i = Some h \<Longrightarrow> f' (i, h) = 0"
  shows "sumEntries f' (holds st') = sumEntries f (holds st)"
proof -
  have keep: "mapGet (holds st') i = mapGet (holds st) i" if "i \<in> dom (mapGet (holds st))" for i
    using g that by (auto simp: grown_def)
  have sub: "dom (mapGet (holds st)) \<subseteq> dom (mapGet (holds st'))" using keep by (auto simp: dom_def)
  have "(\<Sum>i \<in> dom (mapGet (holds st')). f' (i, the (mapGet (holds st') i))) =
      (\<Sum>i \<in> dom (mapGet (holds st)). f' (i, the (mapGet (holds st') i)))"
  proof (rule sum.mono_neutral_right)
    show "\<forall>i \<in> dom (mapGet (holds st')) - dom (mapGet (holds st)). f' (i, the (mapGet (holds st') i)) = 0"
    proof
      fix i
      assume "i \<in> dom (mapGet (holds st')) - dom (mapGet (holds st))"
      then obtain h where "mapGet (holds st') i = Some h" "mapGet (holds st) i = None" by auto
      then show "f' (i, the (mapGet (holds st') i)) = 0" using new by simp
    qed
  qed (use sub in \<open>simp_all add: finite_dom_map_of\<close>)
  also have "\<dots> = (\<Sum>i \<in> dom (mapGet (holds st)). f (i, the (mapGet (holds st) i)))"
    by (rule sum.cong) (use keep old in auto)
  finally show ?thesis by (simp add: sumEntries_keys d)
qed

lemma squares_flat:
  assumes ok: "wallet_ok E (wal w)" "wallet_ok E (wal w')" and fl: "flat E (wal w) (wal w')"
    and refs: "\<And>i k. mapGet (holds (wal w)) i \<noteq> None \<Longrightarrow> paysKey (escrows w') i k = paysKey (escrows w) i k"
  shows "squares E w w'"
proof -
  have g: "grown (wal w) (wal w')" using fl by (rule flat_grown)
  have act: "h_state h = Active" if "mapGet (holds (wal w)) i = None" "mapGet (holds (wal w')) i = Some h" for i h
    using fl that by (simp add: flat_def)
  note sums = sumEntries_grown [OF wallet_okD(5) [OF ok(1)] wallet_okD(5) [OF ok(2)] g]
  have "paidFrom E (wal w') k = paidFrom E (wal w) k" "slashedFrom E (wal w') k = slashedFrom E (wal w) k"
    "earnedBy E (escrows w') (wal w') k = earnedBy E (escrows w) (wal w) k" for k
    unfolding paidFrom_def slashedFrom_def earnedBy_def by (rule sums; use act refs in force)+
  then have "standing E w' k = standing E w k" for k using fl by (simp add: standing_def flat_def)
  moreover have "slashedIds (wal w') = slashedIds (wal w)"
  proof (rule set_eqI)
    fix i
    show "i \<in> slashedIds (wal w') \<longleftrightarrow> i \<in> slashedIds (wal w)"
      using g act [of i] by (cases "mapGet (holds (wal w)) i") (fastforce simp: slashedIds_def grown_def)+
  qed
  ultimately show ?thesis by (simp add: squares_def)
qed

lemma estep_grown:
  assumes "core_ok E w \<Longrightarrow> core_ok E w'" "escrows w' = escrows w" "flat E (wal w) (wal w')" "noGain E (wal w) (wal w')"
  shows "estep E w w'"
proof -
  have "escrow_ok E w' \<and> squares E w w'" if ok: "escrow_ok E w"
  proof
    show ok': "escrow_ok E w'" using ok assms flat_grown [OF assms(3)] by (auto simp: escrow_ok_def intro: record_ok_grown)
    show "squares E w w'" by (rule squares_flat [OF escrow_okD(2) [OF ok] escrow_okD(2) [OF ok'] assms(3)]) (simp add: assms(2))
  qed
  then show ?thesis using assms by (simp add: estep_def)
qed

text \<open>One record changes, and only holds that belong to it.\<close>

lemma escrow_ok_put:
  assumes ok: "escrow_ok E w" and c: "core_ok E w'"
    and es: "mapGet (escrows w') = (mapGet (escrows w))(eid \<mapsto> r)" "escrow_id (contract r) = eid"
    and r: "record_ok E (wal w') r"
    and others: "\<And>e2 r2. e2 \<noteq> eid \<Longrightarrow> mapGet (escrows w) e2 = Some r2 \<Longrightarrow> refsOf r \<inter> refsOf r2 = {} \<and>
      (\<forall>i \<in> refsOf r2. mapGet (holds (wal w')) i = mapGet (holds (wal w)) i)"
  shows "escrow_ok E w'"
proof -
  have keep: "record_ok E (wal w') r2" if "e2 \<noteq> eid" "mapGet (escrows w) e2 = Some r2" for e2 r2
    using record_ok_cong [OF escrow_okD(4) [OF ok that(2)]] others [OF that] by blast
  show ?thesis
    unfolding escrow_ok_def using c es r keep others escrow_okD(3,5) [OF ok]
    by (auto simp: Int_commute split: if_splits)
qed

lemma estep_own:
  assumes c: "core_ok E w \<Longrightarrow> core_ok E w'" and g: "wallet_ok E (wal w) \<Longrightarrow> noGain E (wal w) (wal w')"
    and sq: "escrow_ok E w \<Longrightarrow> squares E w w'"
    and old: "mapGet (escrows w) eid = Some r"
    and es: "mapGet (escrows w') = (mapGet (escrows w))(eid \<mapsto> r')" and con: "contract r' = contract r"
    and r: "record_ok E (wal w) r \<Longrightarrow> record_ok E (wal w') r'"
    and refs: "refsOf r' \<subseteq> refsOf r"
    and hs: "\<And>i. i \<notin> refsOf r \<Longrightarrow> mapGet (holds (wal w')) i = mapGet (holds (wal w)) i"
    and life: "\<And>mid rt. escrow_ok E w \<Longrightarrow> mapGet (runtimes r) mid = Some rt \<Longrightarrow>
      \<exists>rt'. mapGet (runtimes r') mid = Some rt' \<and> evolves (rt_state rt) (rt_state rt')"
  shows "estep E w w'"
proof -
  have "escrow_ok E w' \<and> noGain E (wal w) (wal w') \<and> squares E w w' \<and> advances (escrows w) (escrows w')"
    if ok: "escrow_ok E w"
  proof (intro conjI)
    show "squares E w w'" by (rule sq [OF ok])
    show "escrow_ok E w'"
    proof (rule escrow_ok_put [OF ok c [OF escrow_okD(1) [OF ok]] es])
      show "escrow_id (contract r') = eid" using con escrow_okD(3) [OF ok old] by simp
      show "record_ok E (wal w') r'" using r escrow_okD(4) [OF ok old] by blast
      show "refsOf r' \<inter> refsOf r2 = {} \<and> (\<forall>i\<in>refsOf r2. mapGet (holds (wal w')) i = mapGet (holds (wal w)) i)"
        if "e2 \<noteq> eid" "mapGet (escrows w) e2 = Some r2" for e2 r2
        using escrow_okD(5) [OF ok old that(2,1)] refs hs by blast
    qed
    show "noGain E (wal w) (wal w')" using g escrow_okD(2) [OF ok] by blast
    show "advances (escrows w) (escrows w')"
      using es con old life [OF ok] by (auto simp: advances_def)
  qed
  then show ?thesis by (simp add: estep_def)
qed

section \<open>Operations that leave the escrows alone\<close>

lemma g_quiet:
  assumes "keeps (core_ok E) m" "frames wal m" "frames escrows m"
  shows "guar (estep E) P m whatever"
proof (rule guarI)
  fix w
  have "wal (snd (m w)) = wal w" "escrows (snd (m w)) = escrows w" using frames_eq [OF assms(2)] frames_eq [OF assms(3)] by simp_all
  then show "estep E w (snd (m w))"
    by (intro estep_grown) (simp_all add: noGain_def keepsD [OF assms(1)])
qed simp

lemma noGain_moves: "rows st' = rows st \<Longrightarrow> noGain E st st'"
  by (simp add: noGain_def worth_def)

lemma core_ok_wal: "core_ok E w \<Longrightarrow> wallet_ok E st \<Longrightarrow> core_ok E (w\<lparr>wal := st\<rparr>)"
  by (simp add: core_ok_def)

lemma g_recordSpend: "guar (estep E) P (inWallet (recordSpend E now d m)) whatever"
proof (rule guarI)
  fix w :: "'b escrow_world_scheme"
  obtain x st where r: "recordSpend E now d m (wal w) = (x, st)" by (metis prod.collapse)
  then have st: "rows st = rows (wal w)" "holds st = holds (wal w)" "drawn st = drawn (wal w)"
    using recordSpend_keeps_rows [of E now d m "wal w"] by simp_all
  show "estep E w (snd (inWallet (recordSpend E now d m) w))"
    unfolding inWallet_app r using st
    by (auto intro!: estep_grown core_ok_wal noGain_moves
        simp: flat_def grown_def balanceAt_def core_okD wallet_ok_cong [OF st])
qed simp

text \<open>A new hold has an id that no record refers to.\<close>

definition newHold :: "string \<Rightarrow> 'a escrow_world_scheme \<Rightarrow> bool" where
  "newHold i w \<longleftrightarrow> (\<exists>h. mapGet (holds (wal w)) i = Some h \<and> h_state h = Active) \<and>
     (\<forall>eid r. mapGet (escrows w) eid = Some r \<longrightarrow> i \<notin> refsOf r)"

lemma hold_noGain:
  assumes ok: "wallet_ok E st" and h: "hold E now d m ref st = (x, st')"
  shows "wallet_ok E st'" "noGain E st st'" "flat E st st'"
proof -
  have "wallet_ok E st' \<and> noGain E st st' \<and> flat E st st'"
  proof (cases rule: hold_out [OF ok, of now d m ref])
    case (1 e s1)
    then show ?thesis using h wmoveD(1) [OF 1(2)] wmoveD(4,5) [OF 1(2)] wmove_worth_0 [OF ok 1(2)]
      by (simp add: noGain_def flat_def grown_def balanceAt_def)
  next
    case (2 v i hr s1)
    then show ?thesis using h wmoveD(1) [OF 2(5)] wmoveD(4,5) [OF 2(5)] wmove_worth [OF ok 2(5)]
      by (auto simp: noGain_def flat_def grown_def balanceAt_def bump_def split: if_splits)
  qed
  then show "wallet_ok E st'" "noGain E st st'" "flat E st st'" by simp_all
qed

lemma g_hold: "guar (estep E) (escrow_ok E) (inWallet (hold E now d m ref)) newHold"
proof (rule guarI)
  fix w :: "'b escrow_world_scheme"
  assume ok: "escrow_ok E w"
  obtain x st where h: "hold E now d m ref (wal w) = (x, st)" by (metis prod.collapse)
  note st = hold_noGain [OF escrow_okD(2) [OF ok] h]
  show "estep E w (snd (inWallet (hold E now d m ref) w))"
    unfolding inWallet_app h using st by (auto intro!: estep_grown core_ok_wal)
next
  fix w :: "'b escrow_world_scheme" and i w'
  assume ok: "escrow_ok E w" and h: "inWallet (hold E now d m ref) w = (Inr i, w')"
  show "newHold i w'"
  proof (cases rule: hold_out [OF escrow_okD(2) [OF ok], of now d m ref])
    case (1 e s1)
    then show ?thesis using h by (simp add: inWallet_app)
  next
    case (2 v j hr s1)
    have "i \<notin> refsOf r" if "mapGet (escrows w) eid = Some r" for eid r
      using escrow_okD(4) [OF ok that] 2 h by (auto simp: record_ok_def inWallet_app)
    then show ?thesis using h 2 by (auto simp: newHold_def inWallet_app)
  qed
qed

section \<open>Resolving a hold\<close>

text \<open>
  A wallet call that fails without effect or resolves the active hold \<open>i\<close> to state \<open>X\<close>; what
  leaves the hold's owner for good goes to \<open>q\<close>, all of it when the hold is captured.
\<close>

lemma bump_neg: "bump k (- v) j = - bump k v j"
  by (simp add: bump_def)

definition pays :: "ext \<Rightarrow> hold_state \<Rightarrow> string \<Rightarrow> hold_row \<Rightarrow> wallet_st \<Rightarrow> wallet_st \<Rightarrow> bool" where
  "pays E X q h st st' \<longleftrightarrow> (\<exists>g. 0 \<le> g \<and> (X = Captured \<longrightarrow> g = bv E (h_amount h)) \<and>
     (\<forall>k. balanceAt E st' k = balanceAt E st k +
        (if X = Released then 0 else bump (walletKey q (h_currency h)) g k - bump (holdKey h) (bv E (h_amount h)) k)))"

definition resolves :: "ext \<Rightarrow> hold_state \<Rightarrow> string \<Rightarrow> string \<Rightarrow> (wallet_st, unit) exec \<Rightarrow> bool" where
  "resolves E X q i m \<longleftrightarrow> (\<forall>st. wallet_ok E st \<longrightarrow>
     (\<exists>e. m st = (Inl e, st)) \<or>
     (\<exists>st' h. m st = (Inr (), st') \<and> wallet_ok E st' \<and> noGain E st st' \<and> mapGet (holds st) i = Some h \<and>
        h_state h = Active \<and> resolvedTo X i st st' \<and> pays E X q h st st'))"

lemma resolvesI:
  assumes "\<And>st. wallet_ok E st \<Longrightarrow> (\<exists>e. m st = (Inl e, st)) \<or>
     (\<exists>st' h. m st = (Inr (), st') \<and> wallet_ok E st' \<and> noGain E st st' \<and> mapGet (holds st) i = Some h \<and>
        h_state h = Active \<and> resolvedTo X i st st' \<and> pays E X q h st st')"
  shows "resolves E X q i m"
  using assms by (simp add: resolves_def)

lemma resolves_capture: "resolves E Captured q i (capture E i q)"
proof (rule resolvesI)
  fix st
  assume ok: "wallet_ok E st"
  show "(\<exists>e. capture E i q st = (Inl e, st)) \<or>
     (\<exists>st' h. capture E i q st = (Inr (), st') \<and> wallet_ok E st' \<and> noGain E st st' \<and> mapGet (holds st) i = Some h \<and>
        h_state h = Active \<and> resolvedTo Captured i st st' \<and> pays E Captured q h st st')"
  proof (cases rule: capture_out [OF ok, of i q])
    case (1 e)
    then show ?thesis by blast
  next
    case (2 h st')
    have "pays E Captured q h st st'"
      unfolding pays_def
      by (rule exI [of _ "bv E (h_amount h)"])
        (use holdAmount(2) [OF ok 2(2)] wmoveD(4,5) [OF 2(5)] in \<open>simp add: balanceAt_def bump_neg\<close>)
    then show ?thesis using 2 wmoveD(1) [OF 2(5)] wmove_worth [OF ok 2(5)] by (simp add: noGain_def keyCurrency_walletKey)
  qed
qed

lemma resolves_release: "resolves E Released q i (release E i)"
proof (rule resolvesI)
  fix st
  assume ok: "wallet_ok E st"
  show "(\<exists>e. release E i st = (Inl e, st)) \<or>
     (\<exists>st' h. release E i st = (Inr (), st') \<and> wallet_ok E st' \<and> noGain E st st' \<and> mapGet (holds st) i = Some h \<and>
        h_state h = Active \<and> resolvedTo Released i st st' \<and> pays E Released q h st st')"
  proof (cases rule: release_out [OF ok, of i])
    case (1 e)
    then show ?thesis by blast
  next
    case (2 h st')
    have "pays E Released q h st st'"
      unfolding pays_def
      by (rule exI [of _ 0]) (use wmoveD(4,5) [OF 2(5)] in \<open>simp add: balanceAt_def bump_def\<close>)
    then show ?thesis using 2 wmoveD(1) [OF 2(5)] wmove_worth [OF ok 2(5)] by (simp add: noGain_def)
  qed
qed

lemma resolves_forfeit:
  assumes six: "six_digits f"
  shows "resolves E Forfeited q i (forfeit E i (Some (q, f)))"
proof (rule resolvesI)
  fix st
  assume ok: "wallet_ok E st"
  have six': "six_digits (burnOf (Some (q, f)))" using six by (simp add: burnOf_def)
  show "(\<exists>e. forfeit E i (Some (q, f)) st = (Inl e, st)) \<or>
     (\<exists>st' h. forfeit E i (Some (q, f)) st = (Inr (), st') \<and> wallet_ok E st' \<and> noGain E st st' \<and>
        mapGet (holds st) i = Some h \<and> h_state h = Active \<and> resolvedTo Forfeited i st st' \<and> pays E Forfeited q h st st')"
  proof (cases rule: forfeit_out [OF ok six', of i])
    case (1 e)
    then show ?thesis by blast
  next
    case 2
    then show ?thesis by blast
  next
    case (3 h st')
    let ?v = "bv E (h_amount h)"
    have v: "0 < ?v" using holdAmount [OF ok 3(2)] by blast
    have f: "0 \<le> f" "f \<le> 1" using 3(5,6) by (simp_all add: burnOf_def)
    have p: "payout (Some (q, f)) (h_currency h) ?v = bump (walletKey q (h_currency h)) (?v - ?v * f)"
      by (simp add: payout_def burnOf_def)
    have "worth E c st' \<le> worth E c st" for c
      using wmove_worth [OF ok, of st' "walletKey q (h_currency h)" "?v - ?v * f" "holdKey h" "- ?v" c] 3(7) f v
      by (simp add: p keyCurrency_walletKey)
    moreover have "pays E Forfeited q h st st'"
      unfolding pays_def
      by (rule exI [of _ "?v - ?v * f"])
        (use wmoveD(4,5) [OF 3(7)] f v in \<open>simp add: p balanceAt_def bump_def mult_left_le\<close>)
    ultimately show ?thesis using 3 wmoveD(1) [OF 3(7)] by (simp add: noGain_def)
  qed
qed

lemma resolvesD:
  assumes "resolves E X q i m" "wallet_ok E st" "m st = (x, st')"
  obtains (fail) e where "x = Inl e" "st' = st"
  | (went) h where "x = Inr ()" "wallet_ok E st'" "noGain E st st'" "mapGet (holds st) i = Some h" "h_state h = Active"
    "resolvedTo X i st st'" "pays E X q h st st'"
  using assms unfolding resolves_def by (metis prod.inject)

lemma resolvedTo_other: "resolvedTo X i st st' \<Longrightarrow> j \<noteq> i \<Longrightarrow> mapGet (holds st') j = mapGet (holds st) j"
  by (auto simp: resolvedTo_def)

lemma resolvedTo_dom: "resolvedTo X i st st' \<Longrightarrow> dom (mapGet (holds st')) = dom (mapGet (holds st))"
  by (auto simp: resolvedTo_def dom_def split: if_splits)

section \<open>Changes of one record\<close>

lemma map_entry_get [simp]:
  "mapGet (AList.map_entry k f m) k' = (if k' = k then map_option f (mapGet m k) else mapGet m k')"
  by (induction m) auto

lemma mapGet_map_entry_fun:
  "mapGet es eid = Some r \<Longrightarrow> mapGet (AList.map_entry eid f es) = (mapGet es)(eid \<mapsto> f r)"
  by (rule HOL.ext) simp

abbreviation withState :: "milestone_state \<Rightarrow> milestone_runtime \<Rightarrow> milestone_runtime" where
  "withState s \<equiv> \<lambda>rt. rt\<lparr>rt_state := s\<rparr>"

lemma refsOf_runtimes [simp]: "refsOf (r\<lparr>runtimes := x\<rparr>) = refsOf r"
  by (simp add: refsOf_def)

lemma separateRefs_runtimes [simp]: "separateRefs (r\<lparr>runtimes := x\<rparr>) = separateRefs r"
  by (simp add: separateRefs_def)

text \<open>The milestone's hold is resolved and its state follows.\<close>

lemma record_ok_settle:
  assumes ok: "record_ok E st r" and i: "mapGet (milestoneHoldIds r) mid = Some i"
    and res: "resolvedTo X i st st'" and fits: "holdFits Y X"
  shows "record_ok E st' (r\<lparr>runtimes := AList.map_entry mid (withState Y) (runtimes r)\<rparr>)"
proof -
  let ?r = "r\<lparr>runtimes := AList.map_entry mid (withState Y) (runtimes r)\<rparr>"
  have sep: "separateRefs r" using ok by (simp add: record_ok_def)
  have ran: "i \<in> ran (mapGet (milestoneHoldIds r))" using i by (rule ranI)
  have "milestoneHeld st' ?r m" if m: "m \<in> set (milestones (contract r))" for m
  proof -
    obtain j rt h where h: "mapGet (milestoneHoldIds r) (ms_id m) = Some j" "mapGet (runtimes r) (ms_id m) = Some rt"
      "mapGet (holds st) j = Some h" "h_did h = es_payer (contract r)"
      "h_currency h = currency (es_amount (contract r))" "uniqueIds (contract r) \<longrightarrow> h_amount h = ms_amount m"
      "holdFits (rt_state rt) (h_state h)"
      using ok m unfolding record_ok_def milestoneHeld_def by blast
    show ?thesis
    proof (cases "ms_id m = mid")
      case True
      then show ?thesis using h i res fits by (auto simp: milestoneHeld_def resolvedTo_def)
    next
      case False
      then have "j \<noteq> i" using sep h(1) i unfolding separateRefs_def by blast
      then show ?thesis using h False resolvedTo_other [OF res, of j] by (simp add: milestoneHeld_def)
    qed
  qed
  moreover have "liveHold st' (stakeHoldId r)"
  proof (cases "stakeHoldId r")
    case (Some j)
    then have "j \<noteq> i" using sep ran by (auto simp: separateRefs_def)
    then show ?thesis using ok Some resolvedTo_other [OF res, of j] by (simp add: record_ok_def liveHold_def)
  qed (simp add: liveHold_def)
  ultimately show ?thesis using ok resolvedTo_dom [OF res] by (simp add: record_ok_def)
qed

text \<open>The stake's or the bond's hold is resolved.\<close>

lemma record_ok_stakeGone:
  assumes ok: "record_ok E st r" and i: "stakeHoldId r = Some i" and res: "resolvedTo X i st st'"
  shows "record_ok E st' (r\<lparr>stakeHoldId := None\<rparr>)"
proof -
  let ?r = "r\<lparr>stakeHoldId := None\<rparr>"
  have sep: "separateRefs r" using ok by (simp add: record_ok_def)
  then have refs: "i \<notin> refsOf ?r" using i by (auto simp: refsOf_def separateRefs_def)
  have "record_ok E st ?r"
    using ok by (auto simp: record_ok_def separateRefs_def liveHold_def milestoneHeld_def refsOf_def)
  then show ?thesis
  proof (rule record_ok_cong)
    show "mapGet (holds st') j = mapGet (holds st) j" if "j \<in> refsOf ?r" for j
      by (rule resolvedTo_other [OF res]) (use that refs in auto)
  qed
qed

lemma record_ok_bondSpent:
  assumes ok: "record_ok E st r" and i: "disputeBondHoldId r = Some i" and res: "resolvedTo X i st st'"
  shows "record_ok E st' r"
proof -
  have sep: "separateRefs r" using ok by (simp add: record_ok_def)
  have other: "mapGet (holds st') j = mapGet (holds st) j"
    if "j \<in> ran (mapGet (milestoneHoldIds r)) \<union> set_option (stakeHoldId r)" for j
  proof (rule resolvedTo_other [OF res])
    show "j \<noteq> i" using that sep i by (auto simp: separateRefs_def)
  qed
  have "milestoneHeld st' r m" if "milestoneHeld st r m" for m
    by (rule milestoneHeld_cong [OF that]) (use other in \<open>simp add: ranI\<close>)
  moreover have "liveHold st' (stakeHoldId r)"
  proof (cases "stakeHoldId r")
    case (Some j)
    then show ?thesis using ok other [of j] by (simp add: record_ok_def liveHold_def)
  qed (simp add: liveHold_def)
  ultimately show ?thesis using ok resolvedTo_dom [OF res] by (simp add: record_ok_def)
qed

section \<open>Steps on one record\<close>

lemma updEscrow_app: "updEscrow eid f w = (Inr (), w\<lparr>escrows := AList.map_entry eid f (escrows w)\<rparr>)"
  by (simp add: updEscrow_def)

lemma updRuntime_app: "updRuntime eid mid f w =
    (Inr (), w\<lparr>escrows := AList.map_entry eid (\<lambda>r. r\<lparr>runtimes := AList.map_entry mid f (runtimes r)\<rparr>) (escrows w)\<rparr>)"
  by (simp add: updRuntime_def updEscrow_app)

lemma recordAt_app: "recordAt eid w = (case mapGet (escrows w) eid of None \<Rightarrow> (Inl JsError, w) | Some r \<Rightarrow> (Inr r, w))"
  by (simp add: recordAt_def exec_simps)

lemma runtimeOf_app: "runtimeOf eid mid w =
    (case mapGet (escrows w) eid of None \<Rightarrow> (Inl JsError, w)
     | Some r \<Rightarrow> (case mapGet (runtimes r) mid of None \<Rightarrow> (Inl JsError, w) | Some rt \<Rightarrow> (Inr rt, w)))"
  by (simp add: runtimeOf_def bindE_app recordAt_app orThrow_app split: option.split)

lemmas record_app = updEscrow_app updRuntime_app recordAt_app runtimeOf_app

lemma estep_refl [simp]: "estep E w w"
  by (rule esc.refl)

lemma evolves_withState:
  assumes "mapGet rts mid' = Some rt'" "\<And>rt. mapGet rts mid = Some rt \<Longrightarrow> lifecycle (rt_state rt) (rt_state (f rt))"
  shows "\<exists>x. mapGet (AList.map_entry mid f rts) mid' = Some x \<and> evolves (rt_state rt') (rt_state x)"
  using assms by (cases "mid' = mid") auto

text \<open>What the accounts should have after a hold is resolved, and what they have.\<close>

lemma paysKey_same:
  assumes old: "mapGet es eid = Some r" and es: "mapGet es' = (mapGet es)(eid \<mapsto> r')"
    and r: "contract r' = contract r" "milestoneHoldIds r' = milestoneHoldIds r"
  shows "paysKey es' i k = paysKey es i k"
proof -
  have "(\<exists>r. mapGet es' e = Some r \<and> i \<in> ran (mapGet (milestoneHoldIds r)) \<and> k = payeeKey (contract r)) \<longleftrightarrow>
      (\<exists>r. mapGet es e = Some r \<and> i \<in> ran (mapGet (milestoneHoldIds r)) \<and> k = payeeKey (contract r))" for e
    unfolding es using old r by (cases "e = eid") auto
  then show ?thesis by (simp add: paysKey_def)
qed

lemma paysKey_new:
  assumes "mapGet es e0 = None" "i \<notin> ran (mapGet (milestoneHoldIds r0))"
  shows "paysKey (mapSet e0 r0 es) i k = paysKey es i k"
  unfolding paysKey_def by (intro iff_exI) (use assms in auto)

lemma paysKey_own:
  assumes ok: "escrow_ok E w" and r: "mapGet (escrows w) eid = Some r" "mapGet (milestoneHoldIds r) mid = Some i"
  shows "paysKey (escrows w) i k \<longleftrightarrow> k = payeeKey (contract r)"
proof
  assume "paysKey (escrows w) i k"
  then obtain e2 r2 where r2: "mapGet (escrows w) e2 = Some r2" "i \<in> ran (mapGet (milestoneHoldIds r2))" "k = payeeKey (contract r2)"
    by (auto simp: paysKey_def)
  have "i \<in> refsOf r" "i \<in> refsOf r2" using r(2) r2(2) by (auto simp: refsOf_def ranI)
  then have "e2 = eid" using escrow_okD(5) [OF ok r(1) r2(1)] by blast
  then show "k = payeeKey (contract r)" using r(1) r2 by simp
next
  assume "k = payeeKey (contract r)"
  then show "paysKey (escrows w) i k" using r(1) ranI [of "mapGet (milestoneHoldIds r)" mid i, OF r(2)] unfolding paysKey_def by blast
qed

lemma standing_resolved:
  assumes ok: "wallet_ok E (wal w)" and es: "\<And>k. paysKey (escrows w') i k = paysKey (escrows w) i k"
      "\<And>j k. paysKey (escrows w') j k = paysKey (escrows w) j k"
    and h: "mapGet (holds (wal w)) i = Some h" "h_state h = Active" and res: "resolvedTo X i (wal w) (wal w')"
  shows "standing E w' k = standing E w k + balanceAt E (wal w') k - balanceAt E (wal w) k
    + (if X = Captured \<or> X = Forfeited then bump (holdKey h) (bv E (h_amount h)) k else 0)
    - (if X = Captured \<and> paysKey (escrows w) i k then bv E (h_amount h) else 0)"
proof -
  have hs: "holds (wal w') = mapSet i (h\<lparr>h_state := X\<rparr>) (holds (wal w))" using res h(1) by (auto simp: resolvedTo_def)
  have key: "holdKey (h\<lparr>h_state := X\<rparr>) = holdKey h" by simp
  note d = sumEntries_mapSet [OF wallet_okD(5) [OF ok]]
  show ?thesis
    unfolding standing_def paidFrom_def earnedBy_def slashedFrom_def hs d using es h key
    by (cases X) (simp_all add: bump_def)
qed

lemma squares_resolved:
  assumes ok: "wallet_ok E (wal w)" and es: "\<And>j k. paysKey (escrows w') j k = paysKey (escrows w) j k"
    and h: "mapGet (holds (wal w)) i = Some h" "h_state h = Active" and res: "resolvedTo X i (wal w) (wal w')"
    and p: "pays E X q h (wal w) (wal w')" and X: "X \<noteq> Active"
    and paid: "X = Captured \<Longrightarrow> (\<And>k. paysKey (escrows w) i k \<longleftrightarrow> k = walletKey q (h_currency h))"
    and slashed: "X = Forfeited \<Longrightarrow> (\<And>cur. partyKey (escrows w') (walletKey q cur))"
  shows "squares E w w'"
proof -
  obtain g where g: "0 \<le> g" "X = Captured \<longrightarrow> g = bv E (h_amount h)"
    "\<And>k. balanceAt E (wal w') k = balanceAt E (wal w) k +
        (if X = Released then 0 else bump (walletKey q (h_currency h)) g k - bump (holdKey h) (bv E (h_amount h)) k)"
    using p by (auto simp: pays_def)
  have st: "standing E w' k = standing E w k + (if X = Forfeited then bump (walletKey q (h_currency h)) g k else 0)" for k
    using standing_resolved [OF ok es es h res, of k] g(2,3) X paid [of k]
    by (cases X) (auto simp: bump_def)
  have hs: "holds (wal w') = mapSet i (h\<lparr>h_state := X\<rparr>) (holds (wal w))" using res h(1) by (auto simp: resolvedTo_def)
  have ids: "slashedIds (wal w') = (if X = Forfeited then insert i (slashedIds (wal w)) else slashedIds (wal w))"
    unfolding slashedIds_def hs using h by auto
  have new: "i \<notin> slashedIds (wal w)" using h by (auto simp: slashedIds_def)
  show ?thesis
    unfolding squares_def ids st using new g(1) slashed by (auto simp: bump_def)
qed

text \<open>A hold is resolved and the record updated, without anything in between.\<close>

lemma estep_resolve:
  assumes i: "resolves E X q i m" and old: "mapGet (escrows w) eid = Some r" and own: "i \<in> refsOf r"
    and con: "contract (f r) = contract r" "refsOf (f r) \<subseteq> refsOf r" "milestoneHoldIds (f r) = milestoneHoldIds r"
    and rec: "\<And>st'. record_ok E (wal w) r \<Longrightarrow> resolvedTo X i (wal w) st' \<Longrightarrow> record_ok E st' (f r)"
    and life: "\<And>mid rt h. escrow_ok E w \<Longrightarrow> mapGet (holds (wal w)) i = Some h \<Longrightarrow> h_state h = Active \<Longrightarrow>
      mapGet (runtimes r) mid = Some rt \<Longrightarrow>
      \<exists>rt'. mapGet (runtimes (f r)) mid = Some rt' \<and> evolves (rt_state rt) (rt_state rt')"
    and X: "X \<noteq> Active"
    and paid: "\<And>h k. X = Captured \<Longrightarrow> escrow_ok E w \<Longrightarrow> mapGet (holds (wal w)) i = Some h \<Longrightarrow>
      paysKey (escrows w) i k \<longleftrightarrow> k = walletKey q (h_currency h)"
    and slashed: "X = Forfeited \<Longrightarrow> q = es_payer (contract r) \<or> q = es_payee (contract r)"
  shows "estep E w (snd (bindE (inWallet m) (\<lambda>_. updEscrow eid f) w))"
proof (cases "wallet_ok E (wal w)")
  case False
  then show ?thesis by (simp add: estep_def escrow_ok_def core_ok_def)
next
  case True
  obtain x st where m: "m (wal w) = (x, st)" by (metis prod.collapse)
  show ?thesis
  proof (cases rule: resolvesD [OF i True m])
    case (1 e)
    then show ?thesis using m by (simp add: bindE_app inWallet_app)
  next
    case (2 h)
    let ?w = "w\<lparr>wal := st, escrows := AList.map_entry eid f (escrows w)\<rparr>"
    have es: "mapGet (escrows ?w) = (mapGet (escrows w))(eid \<mapsto> f r)" by (rule HOL.ext) (simp add: old)
    have "estep E w ?w"
    proof (rule estep_own [OF _ _ _ old es])
      show "core_ok E ?w" if "core_ok E w" using that 2(2) by (simp add: core_ok_def)
      show "mapGet (holds (wal ?w)) j = mapGet (holds (wal w)) j" if "j \<notin> refsOf r" for j
        using resolvedTo_other [OF 2(6), of j] own that by (cases "j = i") auto
      show "\<exists>rt'. mapGet (runtimes (f r)) mid = Some rt' \<and> evolves (rt_state rt) (rt_state rt')"
        if "escrow_ok E w" "mapGet (runtimes r) mid = Some rt" for mid rt
        by (rule life [OF that(1) 2(4,5) that(2)])
      show "squares E w ?w" if ok: "escrow_ok E w"
      proof (rule squares_resolved [OF True _ 2(4,5) _ _ X, where q = q])
        show "paysKey (escrows ?w) j k = paysKey (escrows w) j k" for j k by (rule paysKey_same [OF old es con(1,3)])
        show "partyKey (escrows ?w) (walletKey q cur)" if "X = Forfeited" for cur
          by (rule partyKeyI [of _ eid "f r"]) (use old con(1) slashed [OF that] in simp_all)
      qed (use 2 paid [OF _ ok 2(4)] in simp_all)
    qed (use con 2 rec in simp_all)
    then show ?thesis using m 2 by (simp add: bindE_app inWallet_app updEscrow_app)
  qed
qed

text \<open>An assignment to a record: a field the invariant does not read, or a state along the life cycle.\<close>

lemma estep_upd:
  assumes old: "mapGet (escrows w) eid = Some r" and con: "contract (f r) = contract r" "refsOf (f r) \<subseteq> refsOf r"
      "milestoneHoldIds (f r) = milestoneHoldIds r"
    and rec: "record_ok E (wal w) r \<Longrightarrow> record_ok E (wal w) (f r)"
    and life: "\<And>mid rt. mapGet (runtimes r) mid = Some rt \<Longrightarrow>
      \<exists>rt'. mapGet (runtimes (f r)) mid = Some rt' \<and> evolves (rt_state rt) (rt_state rt')"
  shows "estep E w (snd (updEscrow eid f w))"
  unfolding updEscrow_app snd_conv
proof (rule estep_own [OF _ _ _ old])
  let ?w = "w\<lparr>escrows := AList.map_entry eid f (escrows w)\<rparr>"
  have es: "mapGet (escrows ?w) = (mapGet (escrows w))(eid \<mapsto> f r)" by (rule HOL.ext) (simp add: old)
  then show "mapGet (escrows ?w) = (mapGet (escrows w))(eid \<mapsto> f r)" .
  show "squares E w ?w" if ok: "escrow_ok E w"
    by (rule squares_flat) (use escrow_okD(2) [OF ok] paysKey_same [OF old es con(1,3)] in simp_all)
qed (use con rec life in \<open>simp_all add: core_ok_def noGain_def\<close>)

lemma map_entry_absent: "mapGet m k = None \<Longrightarrow> AList.map_entry k f m = m"
  by (induction m) (auto split: if_splits)

lemma estep_upd_none: "mapGet (escrows w) eid = None \<Longrightarrow> estep E w (snd (updEscrow eid f w))"
  by (simp add: updEscrow_app map_entry_absent)

lemma milestone_runtime_state:
  assumes "escrow_ok E w" "mapGet (escrows w) eid = Some r" "m \<in> set (milestones (contract r))"
    "mapGet (milestoneHoldIds r) (ms_id m) = Some i" "mapGet (runtimes r) (ms_id m) = Some rt"
    "mapGet (holds (wal w)) i = Some h"
  shows "holdFits (rt_state rt) (h_state h)"
proof -
  have "milestoneHeld (wal w) r m" using escrow_okD(4) [OF assms(1,2)] assms(3) by (simp add: record_ok_def)
  then show ?thesis using assms(4-) by (auto simp: milestoneHeld_def)
qed

lemma estep_settle:
  assumes "mapGet (escrows w) eid = Some r" "m \<in> set (milestones (contract r))"
    and i: "mapGet (milestoneHoldIds r) (ms_id m) = Some i" and x: "resolves E X q i p" and fits: "holdFits Y X"
    and Y: "Y = MReleased \<or> Y = MRefunded" and q: "X = Captured \<Longrightarrow> q = es_payee (contract r)"
  shows "estep E w (snd (bindE (inWallet p) (\<lambda>_. updRuntime eid (ms_id m) (withState Y)) w))"
  unfolding updRuntime_def
proof (rule estep_resolve [OF x assms(1)])
  show "i \<in> refsOf r" using i by (auto simp: refsOf_def ranI)
  show "record_ok E st' (r\<lparr>runtimes := AList.map_entry (ms_id m) (withState Y) (runtimes r)\<rparr>)"
    if "record_ok E (wal w) r" "resolvedTo X i (wal w) st'" for st'
    by (rule record_ok_settle [OF that(1) i that(2) fits])
  show "\<exists>rt'. mapGet (runtimes (r\<lparr>runtimes := AList.map_entry (ms_id m) (withState Y) (runtimes r)\<rparr>)) mid = Some rt' \<and>
      evolves (rt_state rt) (rt_state rt')"
    if "escrow_ok E w" "mapGet (holds (wal w)) i = Some h" "h_state h = Active" "mapGet (runtimes r) mid = Some rt" for mid rt h
  proof -
    have "lifecycle (rt_state rt0) Y" if "mapGet (runtimes r) (ms_id m) = Some rt0" for rt0
      using milestone_runtime_state [OF \<open>escrow_ok E w\<close> assms(1,2) i that \<open>mapGet (holds (wal w)) i = Some h\<close>] Y
        \<open>h_state h = Active\<close> by (auto intro: lifecycle.intros simp: settledState_def)
    then show ?thesis using evolves_withState [OF \<open>mapGet (runtimes r) mid = Some rt\<close>, of "ms_id m" "withState Y"] by simp
  qed
  show "paysKey (escrows w) i k \<longleftrightarrow> k = walletKey q (h_currency h)"
    if "X = Captured" "escrow_ok E w" "mapGet (holds (wal w)) i = Some h" for h k
  proof -
    have "milestoneHeld (wal w) r m" using escrow_okD(4) [OF that(2) assms(1)] assms(2) by (simp add: record_ok_def)
    then have "h_currency h = currency (es_amount (contract r))" using that(3) i by (auto simp: milestoneHeld_def)
    then show ?thesis using paysKey_own [OF that(2) assms(1) i] q [OF that(1)] by (simp add: payeeKey_def)
  qed
  show "X \<noteq> Active" using fits Y by (cases X) auto
  show "X = Forfeited \<Longrightarrow> q = es_payer (contract r) \<or> q = es_payee (contract r)" using fits by simp
qed simp_all

section \<open>Routines that work on one record\<close>

named_theorems safe_rules \<open>structural rules for routines on a known escrow\<close>

text \<open>The record exists, under a contract that never changes.\<close>

definition known :: "ext \<Rightarrow> string \<Rightarrow> escrow_contract \<Rightarrow> 'a escrow_world_scheme \<Rightarrow> bool" where
  "known E eid c w \<longleftrightarrow> escrow_ok E w \<and> (\<exists>r. mapGet (escrows w) eid = Some r \<and> contract r = c)"

definition safe :: "ext \<Rightarrow> string \<Rightarrow> escrow_contract \<Rightarrow> ('a escrow_world_scheme, 'r) exec \<Rightarrow> bool" where
  "safe E eid c m \<longleftrightarrow> (\<forall>w. known E eid c w \<longrightarrow> estep E w (snd (m w)))"

lemma known_stable: "known E eid c w \<Longrightarrow> estep E w w' \<Longrightarrow> known E eid c w'"
  using estepD [of E w w'] by (fastforce simp: known_def advances_def)

lemma safeI: "(\<And>w. known E eid c w \<Longrightarrow> estep E w (snd (m w))) \<Longrightarrow> safe E eid c m"
  by (simp add: safe_def)

lemma safeD: "safe E eid c m \<Longrightarrow> known E eid c w \<Longrightarrow> m w = (x, w') \<Longrightarrow> estep E w w' \<and> known E eid c w'"
  using known_stable unfolding safe_def by (metis snd_conv)

lemma safe_guar: "guar (estep E) always m whatever \<Longrightarrow> safe E eid c m"
  by (simp add: safe_def guar_def)

lemma safe_bindE [safe_rules]: "safe E eid c m \<Longrightarrow> (\<And>x. safe E eid c (k x)) \<Longrightarrow> safe E eid c (bindE m k)"
proof (rule safeI)
  fix w :: "'a escrow_world_scheme"
  assume s: "safe E eid c m" "\<And>x. safe E eid c (k x)" and kn: "known E eid c w"
  obtain x w1 where m: "m w = (x, w1)" by (metis prod.collapse)
  note w1 = safeD [OF s(1) kn m]
  show "estep E w (snd (bindE m k w))"
  proof (cases x)
    case (Inl e)
    then show ?thesis using m w1 by (simp add: bindE_app)
  next
    case (Inr y)
    have "estep E w1 (snd (k y w1))" using s(2) w1 by (simp add: safe_def)
    then show ?thesis using m Inr w1 esc.trans by (auto simp: bindE_app)
  qed
qed

text \<open>A pair of steps without the invariant in between.\<close>

lemma safe_pair:
  "safe E eid c (bindE m (\<lambda>_. n)) \<Longrightarrow> safe E eid c k \<Longrightarrow> safe E eid c (bindE m (\<lambda>_. bindE n (\<lambda>_. k)))"
  using safe_bindE [of E eid c "bindE m (\<lambda>_. n)" "\<lambda>_. k"] by (simp add: bindE_assoc)

lemma safe_ret [safe_rules]: "safe E eid c (ret x)"
  by (simp add: safe_def)

lemma safe_throw [safe_rules]: "safe E eid c (throw e)"
  by (simp add: safe_def)

lemma safe_gets [safe_rules]: "safe E eid c (gets f)"
  by (simp add: safe_def)

lemma safe_throwIf [safe_rules]: "safe E eid c (throwIf b e)"
  by (simp add: throwIf_def safe_def)

lemma safe_orThrow [safe_rules]: "safe E eid c (orThrow x e)"
  by (simp add: orThrow_def safe_def split: option.split)

lemma safe_bigE [safe_rules]: "safe E eid c (bigE E a)"
  unfolding bigE_def by (rule safe_orThrow)

lemma safe_if [safe_rules]: "safe E eid c m \<Longrightarrow> safe E eid c n \<Longrightarrow> safe E eid c (if b then m else n)"
  by simp

lemma safe_option [safe_rules]:
  "safe E eid c m \<Longrightarrow> (\<And>v. safe E eid c (k v)) \<Longrightarrow> safe E eid c (case x of None \<Rightarrow> m | Some v \<Rightarrow> k v)"
  by (cases x) simp_all

lemma safe_list [safe_rules]:
  "safe E eid c m \<Longrightarrow> (\<And>v vs. safe E eid c (k v vs)) \<Longrightarrow> safe E eid c (case x of [] \<Rightarrow> m | v # vs \<Rightarrow> k v vs)"
  by (cases x) simp_all

lemma safe_Let [safe_rules]: "safe E eid c (k v) \<Longrightarrow> safe E eid c (Let v k)"
  by simp

lemma safe_forEach [safe_rules]: "(\<And>x. x \<in> set xs \<Longrightarrow> safe E eid c (body x)) \<Longrightarrow> safe E eid c (forEach xs body)"
  by (induction xs) (auto simp del: ret_app intro: safe_ret safe_bindE)

lemma keeps_runtimesOf [keeps_rules]: "keeps P (runtimesOf rts ms)"
  by (induction ms) (auto simp del: ret_app intro!: keeps_rules)

lemma runtimesOf_pure: "snd (runtimesOf rts ms s) = s"
  using keepsD [OF keeps_runtimesOf [of "\<lambda>x. x = s" rts ms]] by simp

lemma safe_runtimesOf [safe_rules]: "safe E eid c (runtimesOf rts ms)"
  by (simp add: safe_def runtimesOf_pure)

lemma safe_runtimeOf [safe_rules]: "safe E eid c (runtimeOf e mid)"
  by (simp add: safe_def runtimeOf_app split: option.split)

lemma safe_recordAt_any: "safe E eid c (recordAt e)"
  by (simp add: safe_def recordAt_app split: option.split)

lemma safe_recordAt [safe_rules]:
  "(\<And>r. contract r = c \<Longrightarrow> safe E eid c (k r)) \<Longrightarrow> safe E eid c (bindE (recordAt eid) k)"
  by (auto simp: safe_def known_def bindE_app recordAt_app)

lemma g_quiet' : "keeps (core_ok E) m \<Longrightarrow> frames wal m \<Longrightarrow> frames escrows m \<Longrightarrow> safe E eid c m"
  by (rule safe_guar) (rule g_quiet)

lemma safe_verifyAs [safe_rules]: "safe E eid c (verifyAs E now skew obj opts)"
  by (rule g_quiet') (intro keeps_rules frames_rules | simp)+

lemma safe_enqueue [safe_rules]: "safe E eid c (inApprovals (enqueue E now a act p))"
  by (rule g_quiet') (intro keeps_rules frames_rules | simp)+

lemma safe_consume [safe_rules]: "safe E eid c (inApprovals (consume E i a act))"
  by (rule g_quiet') (intro keeps_rules frames_rules | simp)+

lemma safe_appendLedger [safe_rules]: "safe E eid c (appendLedger E now k sb p)"
  by (rule g_quiet') (intro keeps_rules frames_rules | simp)+

lemma safe_ingestReceipt [safe_rules]: "safe E eid c (inReputation (ingestReceipt E cs now r))"
  by (rule g_quiet') (intro keeps_rules frames_rules | simp)+

lemma safe_ingestSignal [safe_rules]: "safe E eid c (inReputation (ingestSignal E cs now d k wt))"
  by (rule g_quiet') (intro keeps_rules frames_rules | simp)+

lemma safe_newReceiptId [safe_rules]: "safe E eid c (newReceiptId E)"
  unfolding newReceiptId_def by (rule g_quiet') (intro keeps_rules frames_rules | simp add: core_ok_def)+

lemma safe_recordSpend [safe_rules]: "safe E eid c (inWallet (recordSpend E now d m))"
  by (rule safe_guar) (rule g_recordSpend)

lemma safe_hold [safe_rules]: "safe E eid c (inWallet (hold E now d m ref))"
  by (rule safeI) (rule guarD [OF g_hold _ prod.collapse [symmetric]], simp add: known_def)

text \<open>Assignments to fields that the invariant does not read.\<close>

lemma safe_updEscrow:
  assumes "\<And>r. contract (f r) = contract r" "\<And>r. runtimes (f r) = runtimes r" "\<And>r. milestoneHoldIds (f r) = milestoneHoldIds r"
    "\<And>r. stakeHoldId (f r) = stakeHoldId r" "\<And>r. disputeBondHoldId (f r) = disputeBondHoldId r \<or> disputeBondHoldId (f r) = None"
  shows "safe E eid c (updEscrow eid f)"
proof (rule safeI)
  fix w :: "'a escrow_world_scheme"
  assume "known E eid c w"
  then obtain r where r: "mapGet (escrows w) eid = Some r" by (auto simp: known_def)
  have sub: "set_option (disputeBondHoldId (f r)) \<subseteq> set_option (disputeBondHoldId r)"
    using assms(5) [of r] by auto
  show "estep E w (snd (updEscrow eid f w))"
  proof (rule estep_upd [OF r])
    show "contract (f r) = contract r" by (rule assms(1))
    show "refsOf (f r) \<subseteq> refsOf r" using sub by (auto simp: refsOf_def assms)
    show "milestoneHoldIds (f r) = milestoneHoldIds r" by (rule assms(3))
    show "record_ok E (wal w) (f r)" if "record_ok E (wal w) r"
    proof -
      have "separateRefs (f r)"
        using that sub unfolding record_ok_def separateRefs_def assms(3,4) by blast
      moreover have "milestoneHeld (wal w) (f r) m" if "milestoneHeld (wal w) r m" for m
        using that by (simp add: milestoneHeld_def assms)
      ultimately show ?thesis using that sub by (auto simp: record_ok_def assms refsOf_def)
    qed
    show "\<exists>rt'. mapGet (runtimes (f r)) mid = Some rt' \<and> evolves (rt_state rt) (rt_state rt')"
      if "mapGet (runtimes r) mid = Some rt" for mid rt
      using that by (simp add: assms(2))
  qed
qed

lemma safe_recompute [safe_rules]: "safe E eid c (recomputeEscrowState eid)"
  unfolding recomputeEscrowState_def by (intro safe_rules safe_updEscrow | simp)+

lemma safe_toPublic [safe_rules]: "safe E eid c (toPublic eid)"
  unfolding toPublic_def by (intro safe_rules)

lemma safe_issueMilestoneReceipt [safe_rules]: "safe E eid c (issueMilestoneReceipt E cfg now eid m oc)"
  unfolding issueMilestoneReceipt_def by (intro safe_rules)

section \<open>Payments, refunds, slashing and bonds\<close>

lemma safe_now:
  assumes "\<And>w r. known E eid c w \<Longrightarrow> mapGet (escrows w) eid = Some r \<Longrightarrow> contract r = c \<Longrightarrow> estep E w (snd (k r w))"
  shows "safe E eid c (bindE (recordAt eid) k)"
proof (rule safeI)
  fix w :: "'a escrow_world_scheme"
  assume kn: "known E eid c w"
  then obtain r where "mapGet (escrows w) eid = Some r" "contract r = c" by (auto simp: known_def)
  then show "estep E w (snd (bindE (recordAt eid) k w))" using assms [OF kn] by (simp add: bindE_app recordAt_app)
qed

lemma estep_then:
  assumes kn: "known E eid c w" and a: "estep E w (snd (bindE m (\<lambda>_. n) w))" and k: "safe E eid c k"
  shows "estep E w (snd (bindE m (\<lambda>_. bindE n (\<lambda>_. k)) w))"
proof -
  obtain x w1 where x: "bindE m (\<lambda>_. n) w = (x, w1)" by (metis prod.collapse)
  then have w1: "estep E w w1" "known E eid c w1" using a known_stable [OF kn] by simp_all
  have run: "bindE m (\<lambda>_. bindE n (\<lambda>_. k)) w = bindE (bindE m (\<lambda>_. n)) (\<lambda>_. k) w" by (simp add: bindE_assoc)
  show ?thesis
  proof (cases x)
    case (Inl e)
    then show ?thesis unfolding run using x w1 by (simp add: bindE_app [of "bindE m (\<lambda>_. n)"])
  next
    case (Inr y)
    have "estep E w1 (snd (k w1))" using k w1(2) by (simp add: safe_def)
    then show ?thesis unfolding run using x w1(1) Inr esc.trans by (auto simp: bindE_app [of "bindE m (\<lambda>_. n)"])
  qed
qed

lemma safe_maybeReleaseStake [safe_rules]: "safe E eid c (maybeReleaseStake E eid)"
  unfolding maybeReleaseStake_def
proof (rule safe_now)
  fix w :: "'a escrow_world_scheme" and r
  assume kn: "known E eid c w" and r: "mapGet (escrows w) eid = Some r" "contract r = c"
  have step: "estep E w (snd (bindE (inWallet (release E h)) (\<lambda>_. updEscrow eid (\<lambda>r. r\<lparr>stakeHoldId := None\<rparr>)) w))"
    if h: "stakeHoldId r = Some h" for h
    by (rule estep_resolve [OF resolves_release r(1)])
      (use h record_ok_stakeGone [OF _ h] in \<open>auto simp: refsOf_def\<close>)
  show "estep E w (snd ((case stakeHoldId r of None \<Rightarrow> ret ()
      | Some h \<Rightarrow> bindE (runtimesOf (runtimes r) (milestones (contract r))) (\<lambda>rts.
          if list_all (settledState \<circ> rt_state \<circ> snd) rts
          then bindE (inWallet (release E h)) (\<lambda>_. updEscrow eid (\<lambda>r. r\<lparr>stakeHoldId := None\<rparr>)) else ret ())) w))"
    (is "estep E w (snd (?m w))")
  proof (cases "stakeHoldId r")
    case (Some h)
    obtain x where x: "runtimesOf (runtimes r) (milestones (contract r)) w = (x, w)"
      using runtimesOf_pure by (metis prod.collapse)
    show ?thesis using step [OF Some] x Some by (cases x) (auto simp: bindE_app [of "runtimesOf _ _"])
  qed simp
qed

lemma safe_captureMilestone:
  assumes m: "m \<in> set (milestones c)"
  shows "safe E eid c (captureMilestone E cfg now eid m oc)"
  unfolding captureMilestone_def
proof (rule safe_now)
  fix w :: "'a escrow_world_scheme" and r
  assume kn: "known E eid c w" and r: "mapGet (escrows w) eid = Some r" "contract r = c"
  let ?rest = "bindE (inWallet (recordSpend E now (es_payer (contract r)) (milestoneMoney (contract r) m)))
      (\<lambda>_. bindE (issueMilestoneReceipt E cfg now eid m oc) (\<lambda>_. maybeReleaseStake E eid))"
  have step: "estep E w (snd (bindE (inWallet (capture E h (es_payee (contract r))))
      (\<lambda>_. bindE (updRuntime eid (ms_id m) (withState MReleased)) (\<lambda>_. ?rest)) w))"
    if h: "mapGet (milestoneHoldIds r) (ms_id m) = Some h" for h
    by (rule estep_then [OF kn estep_settle [OF r(1) _ h resolves_capture]])
      (use m r in \<open>auto intro!: safe_rules\<close>)
  show "estep E w (snd (bindE (orThrow (mapGet (milestoneHoldIds r) (ms_id m)) ConflictError) (\<lambda>h.
     bindE (runtimeOf eid (ms_id m)) (\<lambda>rt.
     if rt_state rt = MReleased \<or> rt_state rt = MAccepted then ret ()
     else bindE (inWallet (capture E h (es_payee (contract r))))
       (\<lambda>_. bindE (updRuntime eid (ms_id m) (withState MReleased)) (\<lambda>_. ?rest)))) w))"
    using step r(1)
    by (cases "mapGet (milestoneHoldIds r) (ms_id m)"; cases "mapGet (runtimes r) (ms_id m)")
      (auto simp: bindE_app [of "orThrow _ _"] orThrow_app bindE_app [of "runtimeOf _ _"] runtimeOf_app)
qed

lemma safe_refundMilestone:
  assumes m: "m \<in> set (milestones c)"
  shows "safe E eid c (refundMilestone E cfg now eid m oc)"
  unfolding refundMilestone_def
proof (rule safe_now)
  fix w :: "'a escrow_world_scheme" and r
  assume kn: "known E eid c w" and r: "mapGet (escrows w) eid = Some r" "contract r = c"
  let ?rest = "bindE (issueMilestoneReceipt E cfg now eid m oc) (\<lambda>_. maybeReleaseStake E eid)"
  have step: "estep E w (snd (bindE (inWallet (release E h))
      (\<lambda>_. bindE (updRuntime eid (ms_id m) (withState MRefunded)) (\<lambda>_. ?rest)) w))"
    if h: "mapGet (milestoneHoldIds r) (ms_id m) = Some h" for h
    by (rule estep_then [OF kn estep_settle [OF r(1) _ h resolves_release]])
      (use m r in \<open>auto intro!: safe_rules\<close>)
  show "estep E w (snd (bindE (orThrow (mapGet (milestoneHoldIds r) (ms_id m)) ConflictError) (\<lambda>h.
     bindE (runtimeOf eid (ms_id m)) (\<lambda>rt.
     if rt_state rt = MRefunded then ret ()
     else bindE (inWallet (release E h))
       (\<lambda>_. bindE (updRuntime eid (ms_id m) (withState MRefunded)) (\<lambda>_. ?rest)))) w))"
    using step r(1)
    by (cases "mapGet (milestoneHoldIds r) (ms_id m)"; cases "mapGet (runtimes r) (ms_id m)")
      (auto simp: bindE_app [of "orThrow _ _"] orThrow_app bindE_app [of "runtimeOf _ _"] runtimeOf_app)
qed

text \<open>Documented behaviour of \<open>toFixed(6)\<close>: at most six decimal places.\<close>

definition shares_six :: "ext \<Rightarrow> bool" where
  "shares_six E \<longleftrightarrow> (\<forall>a b. six_digits (bigShare E a b))"

lemma six_digits_0 [simp]: "six_digits 0"
  by (simp add: six_digits_def)

lemma six_burnFraction: "six_digits s \<Longrightarrow> six_digits (burnFraction s)"
  by (auto simp: burnFraction_def six_digits_def max_def min_def left_diff_distrib)

lemma safe_slashProviderStake:
  assumes "shares_six E"
  shows "safe E eid c (slashProviderStake E eid m)"
  unfolding slashProviderStake_def
proof (rule safe_now)
  fix w :: "'a escrow_world_scheme" and r
  assume kn: "known E eid c w" and r: "mapGet (escrows w) eid = Some r" "contract r = c"
  have step: "estep E w (snd (bindE (inWallet (forfeit E h (Some (es_payer (contract r), burnFraction s))))
      (\<lambda>_. updEscrow eid (\<lambda>r. r\<lparr>stakeHoldId := None\<rparr>)) w))"
    if h: "stakeHoldId r = Some h" and s: "six_digits s" for h s
    by (rule estep_resolve [OF resolves_forfeit [OF six_burnFraction [OF s]] r(1)])
      (use h record_ok_stakeGone [OF _ h] in \<open>auto simp: refsOf_def\<close>)
  have six: "six_digits (bigShare E a b)" for a b using assms by (simp add: shares_six_def)
  show "estep E w (snd ((case stakeHoldId r of None \<Rightarrow> ret ()
     | Some h \<Rightarrow> bindE (bigE E (amount (es_amount (contract r)))) (\<lambda>total.
         bindE (if total = 0 then ret 0
                else bindE (bigE E (ms_amount m)) (\<lambda>_. ret (bigShare E (ms_amount m) (amount (es_amount (contract r))))))
           (\<lambda>share. bindE (inWallet (forfeit E h (Some (es_payer (contract r), burnFraction share))))
             (\<lambda>_. updEscrow eid (\<lambda>r. r\<lparr>stakeHoldId := None\<rparr>))))) w))"
    using step six
    by (cases "stakeHoldId r"; cases "bigVal E (amount (es_amount (contract r)))"; cases "bigVal E (ms_amount m)")
      (auto simp: bindE_app [of "bigE _ _"] bindE_app [of "bindE (bigE _ _) _"] bindE_app [of "ret _"])
qed

text \<open>The bond's hold is resolved on its own; its id is cleared later.\<close>

lemma estep_bond:
  assumes x: "resolves E X q i m" and old: "mapGet (escrows w) eid = Some r" and i: "disputeBondHoldId r = Some i"
    and X: "X = Released \<or> X = Forfeited \<and> (q = es_payer (contract r) \<or> q = es_payee (contract r))"
  shows "estep E w (snd (inWallet m w))"
proof -
  have "estep E w (snd (bindE (inWallet m) (\<lambda>_. updEscrow eid (\<lambda>r. r)) w))"
    by (rule estep_resolve [OF x old]) (use i X record_ok_bondSpent [OF _ i] in \<open>auto simp: refsOf_def\<close>)
  moreover have "AList.map_entry eid (\<lambda>r. r) es = es" for es :: "(string, escrow_record) jsmap"
    by (induction es) auto
  ultimately show ?thesis
    by (cases "m (wal w)"; cases "fst (m (wal w))") (simp_all add: bindE_app inWallet_app updEscrow_app)
qed

lemma safe_bondGone [safe_rules]: "safe E eid c (updEscrow eid (\<lambda>r. r\<lparr>disputeBondHoldId := None\<rparr>))"
  by (rule safe_updEscrow) simp_all

lemma estep_seq:
  assumes kn: "known E eid c w" and a: "estep E w (snd (m w))" and k: "\<And>x. safe E eid c (k x)"
  shows "estep E w (snd (bindE m k w))"
proof -
  obtain x w1 where x: "m w = (x, w1)" by (metis prod.collapse)
  then have w1: "estep E w w1" "known E eid c w1" using a known_stable [OF kn] by simp_all
  show ?thesis
  proof (cases x)
    case (Inr y)
    have "estep E w1 (snd (k y w1))" using k w1(2) by (simp add: safe_def)
    then show ?thesis using x w1(1) Inr esc.trans by (auto simp: bindE_app)
  qed (use x w1 in \<open>simp add: bindE_app\<close>)
qed

lemma safe_releaseBond [safe_rules]: "safe E eid c (releaseBond E eid)"
  unfolding releaseBond_def
proof (rule safe_now)
  fix w :: "'a escrow_world_scheme" and r
  assume kn: "known E eid c w" and r: "mapGet (escrows w) eid = Some r" "contract r = c"
  show "estep E w (snd ((case disputeBondHoldId r of None \<Rightarrow> ret ()
     | Some h \<Rightarrow> bindE (inWallet (release E h)) (\<lambda>_. updEscrow eid (\<lambda>r. r\<lparr>disputeBondHoldId := None\<rparr>))) w))"
  proof (cases "disputeBondHoldId r")
    case (Some h)
    have "estep E w (snd (bindE (inWallet (release E h)) (\<lambda>_. updEscrow eid (\<lambda>r. r\<lparr>disputeBondHoldId := None\<rparr>)) w))"
      by (rule estep_seq [OF kn], rule estep_bond [OF resolves_release r(1) Some], simp, rule safe_bondGone)
    then show ?thesis by (simp add: Some)
  qed simp
qed

lemma safe_settleBond [safe_rules]: "safe E eid c (settleBond E cfg now eid c d upheld)"
  unfolding settleBond_def
proof (rule safe_now)
  fix w :: "'a escrow_world_scheme" and r
  assume kn: "known E eid c w" and r: "mapGet (escrows w) eid = Some r" "contract r = c"
  show "estep E w (snd ((case disputeBondHoldId r of None \<Rightarrow> ret ()
     | Some h \<Rightarrow> bindE (if upheld then inWallet (release E h)
                else bindE (inWallet (forfeit E h (Some (otherParty c d, 0))))
                  (\<lambda>_. inReputation (ingestSignal E (escRepSigner cfg) now d ''frivolous_dispute'' 1)))
         (\<lambda>_. updEscrow eid (\<lambda>r. r\<lparr>disputeBondHoldId := None\<rparr>))) w))"
  proof (cases "disputeBondHoldId r")
    case (Some h)
    have a: "estep E w (snd (inWallet (release E h) w))"
      by (rule estep_bond [OF resolves_release r(1) Some]) simp
    have b: "estep E w (snd (bindE (inWallet (forfeit E h (Some (otherParty c d, 0))))
        (\<lambda>_. inReputation (ingestSignal E (escRepSigner cfg) now d ''frivolous_dispute'' 1)) w))"
      by (rule estep_seq [OF kn], rule estep_bond [OF resolves_forfeit [OF six_digits_0] r(1) Some], rule disjI2)
        (use r(2) in \<open>simp add: otherParty_def\<close>, rule safe_ingestSignal)
    show ?thesis unfolding Some option.case
      by (rule estep_seq [OF kn], use a b in simp, rule safe_bondGone)
  qed simp
qed

section \<open>The operations\<close>

lemma safe_requireMilestone [safe_rules]:
  assumes "\<And>m. m \<in> set (milestones c) \<Longrightarrow> ms_id m = mid \<Longrightarrow> safe E eid c (k m)"
  shows "safe E eid c (bindE (requireMilestone c mid) k)"
proof (cases "find (\<lambda>m. ms_id m = mid) (milestones c)")
  case None
  then show ?thesis by (simp add: requireMilestone_def orThrow_def bindE_throw safe_throw)
next
  case (Some m)
  then have "m \<in> set (milestones c)" "ms_id m = mid" by (auto simp: find_Some_iff)
  then show ?thesis using assms Some by (simp add: requireMilestone_def orThrow_def bindE_ret)
qed

lemma safe_runtime_now:
  assumes "\<And>w r rt. known E eid c w \<Longrightarrow> mapGet (escrows w) eid = Some r \<Longrightarrow> contract r = c \<Longrightarrow>
    mapGet (runtimes r) mid = Some rt \<Longrightarrow> estep E w (snd (k rt w))"
  shows "safe E eid c (bindE (runtimeOf eid mid) k)"
proof (rule safeI)
  fix w :: "'a escrow_world_scheme"
  assume kn: "known E eid c w"
  then obtain r where r: "mapGet (escrows w) eid = Some r" "contract r = c" by (auto simp: known_def)
  show "estep E w (snd (bindE (runtimeOf eid mid) k w))"
    using assms [OF kn r] r(1) by (cases "mapGet (runtimes r) mid") (simp_all add: bindE_app runtimeOf_app)
qed

lemma record_ok_retarget:
  assumes ok: "record_ok E st r" and rt: "mapGet (runtimes r) mid = Some rt" "rt_state rt \<noteq> MReleased"
    and f: "rt_state (f rt) = MDelivered \<or> rt_state (f rt) = MDisputed"
  shows "record_ok E st (r\<lparr>runtimes := AList.map_entry mid f (runtimes r)\<rparr>)"
proof -
  have fits: "holdFits (rt_state (f rt)) h" if "holdFits (rt_state rt) h" for h
    using that rt(2) f by (cases h) auto
  have "milestoneHeld st (r\<lparr>runtimes := AList.map_entry mid f (runtimes r)\<rparr>) m" if "milestoneHeld st r m" for m
    using that rt(1) fits by (cases "ms_id m = mid") (auto simp: milestoneHeld_def)
  then show ?thesis using ok by (simp add: record_ok_def)
qed

lemma estep_retarget:
  assumes r: "mapGet (escrows w) eid = Some r" and rt: "mapGet (runtimes r) mid = Some rt" "rt_state rt \<noteq> MReleased"
    and f: "rt_state (f rt) = MDelivered \<or> rt_state (f rt) = MDisputed" and l: "lifecycle (rt_state rt) (rt_state (f rt))"
  shows "estep E w (snd (updRuntime eid mid f w))"
  unfolding updRuntime_def
proof (rule estep_upd [OF r])
  show "record_ok E (wal w) (r\<lparr>runtimes := AList.map_entry mid f (runtimes r)\<rparr>)" if "record_ok E (wal w) r"
    by (rule record_ok_retarget) (use that rt f in simp_all)
  show "\<exists>x. mapGet (runtimes (r\<lparr>runtimes := AList.map_entry mid f (runtimes r)\<rparr>)) k = Some x \<and>
      evolves (rt_state y) (rt_state x)" if "mapGet (runtimes r) k = Some y" for k y
    using evolves_withState [OF that, of mid f] rt(1) l by simp
qed simp_all

text \<open>An operation on an escrow that is open for the parties.\<close>

lemma estep_openish:
  assumes "\<And>r. known E eid (contract r) w \<Longrightarrow> mapGet (escrows w) eid = Some r \<Longrightarrow> \<not> nonActionable (e_state r) \<Longrightarrow>
    estep E w (snd (k r w))"
  shows "estep E w (snd (bindE (requireOpenish eid) k w))"
proof (cases "escrow_ok E w")
  case True
  then show ?thesis using assms
    by (cases "mapGet (escrows w) eid") (auto simp: requireOpenish_def exec_simps known_def)
qed (simp add: estep_def)

lemma estep_safe: "known E eid c w \<Longrightarrow> safe E eid c m \<Longrightarrow> estep E w (snd (m w))"
  by (simp add: safe_def)

lemma safe_deliverBody:
  assumes rest: "safe E eid c rest"
    and f: "\<And>rt. rt_state (f rt) = MDelivered"
  shows "safe E eid c (bindE (runtimeOf eid mid) (\<lambda>rt.
     if rt_state rt = MAccepted \<or> rt_state rt = MReleased then toPublic eid else bindE (updRuntime eid mid f) (\<lambda>_. rest)))"
proof (rule safe_runtime_now)
  fix w :: "'a escrow_world_scheme" and r rt
  assume kn: "known E eid c w" and r: "mapGet (escrows w) eid = Some r" and rt: "mapGet (runtimes r) mid = Some rt"
  show "estep E w (snd ((if rt_state rt = MAccepted \<or> rt_state rt = MReleased then toPublic eid
     else bindE (updRuntime eid mid f) (\<lambda>_. rest)) w))"
  proof (cases "rt_state rt = MAccepted \<or> rt_state rt = MReleased")
    case True
    then show ?thesis using estep_safe [OF kn safe_toPublic] by simp
  next
    case False
    have "estep E w (snd (bindE (updRuntime eid mid f) (\<lambda>_. rest) w))"
    proof (rule estep_seq [OF kn])
      show "estep E w (snd (updRuntime eid mid f w))"
        by (rule estep_retarget [OF r rt]) (use False f in \<open>simp_all add: lifecycle.intros\<close>)
    qed (rule rest)
    then show ?thesis using False by simp
  qed
qed

lemma safe_objective:
  "safe E eid c p \<Longrightarrow> safe E eid c f \<Longrightarrow> safe E eid c u \<Longrightarrow>
   safe E eid c (case x of Pass \<Rightarrow> p | Fail \<Rightarrow> f | Subjective \<Rightarrow> u)"
  by (cases x) simp_all

lemma deliver_step: "estep E w (snd (deliver E cfg now eid input w))"
  unfolding deliver_def
  by (rule estep_openish, erule estep_safe, rule safe_bindE, rule safe_throwIf, rule safe_bindE,
      rule safe_verifyAs, rule safe_requireMilestone, rule safe_deliverBody)
    (rule safe_bindE, rule safe_if, rule safe_objective, rule safe_captureMilestone, assumption,
      rule safe_refundMilestone, assumption, (intro safe_rules)+, simp)

lemma accept_step: "estep E w (snd (accept E cfg now eid input w))"
  unfolding accept_def
  by (rule estep_openish, erule estep_safe) (intro safe_rules safe_captureMilestone)

lemma onTimeout_step: "estep E w (snd (onTimeout E cfg now eid w))"
  unfolding onTimeout_def Let_def escalateTimeout_def
  by (rule estep_openish, erule estep_safe)
    (intro safe_rules safe_updEscrow safe_captureMilestone safe_refundMilestone; auto dest: set_zip_leftD)

lemma safe_refundRemainingPending [safe_rules]: "safe E eid c (refundRemainingPending E cfg now eid c x)"
  unfolding refundRemainingPending_def by (intro safe_rules safe_refundMilestone)

lemma safe_settleDisputeEscalation [safe_rules]:
  "shares_six E \<Longrightarrow> safe E eid c (settleDisputeEscalation E cfg now eid c esl u)"
  unfolding settleDisputeEscalation_def
  by (intro safe_rules safe_captureMilestone safe_slashProviderStake safe_refundMilestone)

lemma safe_settleTimeoutEscalation [safe_rules]: "safe E eid c (settleTimeoutEscalation E cfg now eid c esl u)"
  unfolding settleTimeoutEscalation_def
  by (intro safe_rules safe_captureMilestone safe_refundMilestone)

lemma resolveEscalation_step:
  assumes "shares_six E"
  shows "estep E w (snd (resolveEscalation E cfg now eid input w))"
proof (cases "escrow_ok E w \<and> mapGet (escrows w) eid \<noteq> None")
  case True
  then obtain r where r: "mapGet (escrows w) eid = Some r" by auto
  then have kn: "known E eid (contract r) w" using True by (simp add: known_def)
  show ?thesis
    unfolding resolveEscalation_def Let_def
    by (subst bindE_app, simp only: gets_app prod.case sum.case, subst bindE_app)
      (simp only: r orThrow_app option.case prod.case sum.case, rule estep_safe [OF kn],
       intro safe_rules safe_updEscrow assms; simp)
next
  case False
  then show ?thesis by (auto simp: resolveEscalation_def exec_simps estep_def noGain_def)
qed

text \<open>A bond is a new hold, so it belongs to no record yet.\<close>

lemma record_ok_bondSet:
  assumes ok: "record_ok E st r" and i: "i \<notin> refsOf r" "mapGet (holds st) i = Some h"
  shows "record_ok E st (r\<lparr>disputeBondHoldId := Some i\<rparr>)"
proof -
  have "separateRefs (r\<lparr>disputeBondHoldId := Some i\<rparr>)"
    using ok i(1) by (auto simp: record_ok_def separateRefs_def refsOf_def)
  moreover have "milestoneHeld st (r\<lparr>disputeBondHoldId := Some i\<rparr>) m" if "milestoneHeld st r m" for m
    using that by (simp add: milestoneHeld_def)
  moreover have "refsOf (r\<lparr>disputeBondHoldId := Some i\<rparr>) \<subseteq> insert i (refsOf r)" by (auto simp: refsOf_def)
  ultimately show ?thesis using ok i(2) by (auto simp: record_ok_def)
qed

lemma estep_bondSet:
  assumes n: "newHold i w" and r: "mapGet (escrows w) eid = Some r"
  shows "estep E w (snd (updEscrow eid (\<lambda>r. r\<lparr>disputeBondHoldId := Some i\<rparr>) w))"
proof -
  let ?r = "r\<lparr>disputeBondHoldId := Some i\<rparr>"
  let ?w = "w\<lparr>escrows := AList.map_entry eid (\<lambda>r. r\<lparr>disputeBondHoldId := Some i\<rparr>) (escrows w)\<rparr>"
  have refs: "refsOf ?r \<subseteq> insert i (refsOf r)" by (auto simp: refsOf_def)
  have "escrow_ok E ?w" if ok: "escrow_ok E w"
  proof (rule escrow_ok_put [OF ok])
    show "mapGet (escrows ?w) = (mapGet (escrows w))(eid \<mapsto> ?r)" by (rule HOL.ext) (simp add: r)
    show "record_ok E (wal ?w) ?r"
      using n r escrow_okD(4) [OF ok r] by (auto simp: newHold_def intro: record_ok_bondSet)
    show "refsOf ?r \<inter> refsOf r2 = {} \<and> (\<forall>j\<in>refsOf r2. mapGet (holds (wal ?w)) j = mapGet (holds (wal w)) j)"
      if "e2 \<noteq> eid" "mapGet (escrows w) e2 = Some r2" for e2 r2
      using escrow_okD(5) [OF ok r that(2,1)] refs n that by (auto simp: newHold_def)
  qed (use escrow_okD(1) [OF ok] escrow_okD(3) [OF ok r] in \<open>simp_all add: core_ok_def\<close>)
  moreover have "advances (escrows w) (escrows ?w)" using r by (auto simp: advances_def)
  moreover have "squares E w ?w" if ok: "escrow_ok E w"
  proof (rule squares_flat)
    have es: "mapGet (escrows ?w) = (mapGet (escrows w))(eid \<mapsto> ?r)" by (rule HOL.ext) (simp add: r)
    show "paysKey (escrows ?w) j k = paysKey (escrows w) j k" for j k by (rule paysKey_same [OF r es]) simp_all
  qed (use escrow_okD(2) [OF ok] in simp_all)
  ultimately show ?thesis by (simp add: estep_def noGain_def updEscrow_app)
qed

lemma postBond_step:
  assumes kn: "known E eid c w" and r: "mapGet (escrows w) eid = Some r"
  shows "estep E w (snd (postBond E now eid c m input w)) \<and>
    (\<exists>r'. mapGet (escrows (snd (postBond E now eid c m input w))) eid = Some r' \<and> runtimes r' = runtimes r)"
proof (cases "dp_bond input")
  case None
  then show ?thesis using r by (simp add: postBond_def)
next
  case (Some b)
  let ?ref = "''dispute-bond:'' @ escrow_id c @ '':'' @ ms_id m"
  obtain x w1 where h: "inWallet (hold E now (dp_disputer input) b ?ref) w = (x, w1)" by (metis prod.collapse)
  have ok: "escrow_ok E w" using kn by (simp add: known_def)
  have w1: "estep E w w1" by (rule guarD [OF g_hold ok h])
  have es: "escrows w1 = escrows w" using h by (auto simp: inWallet_app split: prod.splits)
  show ?thesis
  proof (cases x)
    case (Inl e)
    have "postBond E now eid c m input w = (Inl e, w1)"
      unfolding postBond_def Some option.case by (rule bindE_err, rule h [unfolded Inl])
    then show ?thesis using w1 es r by simp
  next
    case (Inr i)
    have run: "postBond E now eid c m input w = updEscrow eid (\<lambda>r. r\<lparr>disputeBondHoldId := Some i\<rparr>) w1"
      unfolding postBond_def Some option.case by (rule bindE_ok, rule h [unfolded Inr])
    have "newHold i w1" by (rule guar_post [OF g_hold ok h [unfolded Inr]])
    then have "estep E w1 (snd (updEscrow eid (\<lambda>r. r\<lparr>disputeBondHoldId := Some i\<rparr>) w1))"
      using r es by (intro estep_bondSet) simp_all
    then show ?thesis unfolding run using esc.trans [OF w1] es r by (simp add: updEscrow_app)
  qed
qed

lemma safe_markDisputed:
  assumes m: "rt_state rt \<noteq> MAccepted" "\<not> settledState (rt_state rt)"
    and kn: "known E eid c w" and r: "mapGet (escrows w) eid = Some r" "mapGet (runtimes r) mid = Some rt"
    and rest: "safe E eid c rest"
  shows "estep E w (snd (bindE (postBond E now eid c ms input) (\<lambda>_.
     bindE (updEscrow eid (\<lambda>r. r\<lparr>e_state := EDisputed, e_disputer := Some d\<rparr>)) (\<lambda>_.
     bindE (updRuntime eid mid (\<lambda>rt. rt\<lparr>rt_state := MDisputed\<rparr>)) (\<lambda>_. rest))) w))"
proof -
  obtain x w1 where p: "postBond E now eid c ms input w = (x, w1)" by (metis prod.collapse)
  obtain r1 where w1: "estep E w w1" "mapGet (escrows w1) eid = Some r1" "runtimes r1 = runtimes r"
    using postBond_step [OF kn r(1), of now ms input] p by auto
  have kn1: "known E eid c w1" by (rule known_stable [OF kn w1(1)])
  show ?thesis
  proof (cases x)
    case (Inl e)
    then show ?thesis using p w1(1) by (simp add: bindE_app)
  next
    case (Inr u)
    let ?f = "\<lambda>r. r\<lparr>e_state := EDisputed, e_disputer := Some d\<rparr>"
    let ?w2 = "w1\<lparr>escrows := AList.map_entry eid ?f (escrows w1)\<rparr>"
    have s: "safe E eid c (updEscrow eid ?f)" by (rule safe_updEscrow) simp_all
    have w2: "estep E w1 ?w2" using estep_safe [OF kn1 s] by (simp add: updEscrow_app)
    have kn2: "known E eid c ?w2" by (rule known_stable [OF kn1 w2])
    have r2: "mapGet (escrows ?w2) eid = Some (?f r1)" "mapGet (runtimes (?f r1)) mid = Some rt"
      using w1(2,3) r(2) by simp_all
    have "estep E ?w2 (snd (updRuntime eid mid (withState MDisputed) ?w2))"
      by (rule estep_retarget [OF r2]) (use m in \<open>auto simp: settledState_def intro: lifecycle.disputed\<close>)
    then have "estep E ?w2 (snd (bindE (updRuntime eid mid (withState MDisputed)) (\<lambda>_. rest) ?w2))"
      by (rule estep_seq [OF kn2]) (rule rest)
    then show ?thesis
      using p Inr esc.trans [OF w1(1) esc.trans [OF w2]] by (simp add: bindE_app [of "postBond _ _ _ _ _ _"] bindE_app [of "updEscrow _ _"] updEscrow_app)
  qed
qed

lemma safe_frivolousDispute:
  assumes m: "m \<in> set (milestones c)"
  shows "safe E eid c (frivolousDispute E cfg now eid c m d)"
  unfolding frivolousDispute_def
proof (rule safe_bindE [OF safe_captureMilestone [OF m]], rule safe_now)
  fix w :: "'a escrow_world_scheme" and r
  assume kn: "known E eid c w" and r: "mapGet (escrows w) eid = Some r" "contract r = c"
  let ?rest = "bindE (inReputation (ingestSignal E (escRepSigner cfg) now d ''frivolous_dispute'' 1)) (\<lambda>_.
     appendLedger E now ''escrow_dispute_resolved'' (Some (escrow_id c))
       (JObj [(''milestone_id'', JStr (ms_id m)), (''ruling'', JStr ''for_provider''), (''slashed'', JStr ''disputer_bond'')]))"
  show "estep E w (snd (bindE (case disputeBondHoldId r of None \<Rightarrow> ret ()
       | Some h \<Rightarrow> bindE (inWallet (forfeit E h (Some (es_payee c, 0))))
           (\<lambda>_. updEscrow eid (\<lambda>r. r\<lparr>disputeBondHoldId := None\<rparr>))) (\<lambda>_. ?rest) w))"
  proof (rule estep_seq [OF kn])
    show "safe E eid c ?rest" by (intro safe_rules)
    show "estep E w (snd ((case disputeBondHoldId r of None \<Rightarrow> ret ()
       | Some h \<Rightarrow> bindE (inWallet (forfeit E h (Some (es_payee c, 0))))
           (\<lambda>_. updEscrow eid (\<lambda>r. r\<lparr>disputeBondHoldId := None\<rparr>))) w))"
    proof (cases "disputeBondHoldId r")
      case (Some h)
      show ?thesis unfolding Some option.case
        by (rule estep_seq [OF kn], rule estep_bond [OF resolves_forfeit [OF six_digits_0] r(1) Some], use r(2) in simp,
            rule safe_bondGone)
    qed simp
  qed
qed

lemma safe_upheldDispute:
  assumes "m \<in> set (milestones c)" "shares_six E"
  shows "safe E eid c (upheldDispute E cfg now eid c m)"
  unfolding upheldDispute_def
  by (intro safe_rules safe_slashProviderStake safe_refundMilestone assms)

lemma safe_escalateDispute: "safe E eid c (escalateDispute E now eid m input)"
  unfolding escalateDispute_def Let_def by (intro safe_rules safe_updEscrow; simp)

lemma estep_throwIf: "(\<not> b \<Longrightarrow> estep E w (snd (k () w))) \<Longrightarrow> estep E w (snd (bindE (throwIf b e) k w))"
  by (simp add: bindE_app throwIf_app)

lemma dispute_step:
  assumes six: "shares_six E"
  shows "estep E w (snd (dispute E cfg now eid input w))"
  unfolding dispute_def Let_def assertWithinDisputeWindow_def
  apply (rule estep_openish, erule estep_safe, rule safe_bindE, rule safe_throwIf, rule safe_bindE,
      rule safe_verifyAs, rule safe_requireMilestone, rule safe_runtime_now)
  apply (rule estep_throwIf, rule estep_throwIf)
  apply (rule safe_markDisputed [rotated 2], assumption, assumption, assumption, rule safe_objective)
    apply (rule safe_bindE, simp add: safe_frivolousDispute)
    apply (rule safe_bindE, rule safe_updEscrow; simp)
    apply (intro safe_rules)
   apply (rule safe_bindE, simp add: safe_upheldDispute six)
   apply (rule safe_bindE, rule safe_updEscrow; simp)
   apply (intro safe_rules)
  apply (rule safe_escalateDispute, simp_all)
  done

section \<open>Opening\<close>

definition balanced :: "ext \<Rightarrow> escrow_contract \<Rightarrow> bool" where
  "balanced E c \<longleftrightarrow> bv E (amount (es_amount c)) = (\<Sum>m\<leftarrow>milestones c. bv E (ms_amount m))"

lemma sumAmounts_ok: "sumAmounts E acc ms s = (Inr t, s') \<Longrightarrow> s' = s \<and> t = acc + (\<Sum>m\<leftarrow>ms. bv E (ms_amount m)) \<and>
    (\<forall>m \<in> set ms. bigVal E (ms_amount m) \<noteq> None)"
  by (induction E acc ms arbitrary: s rule: sumAmounts.induct)
    (fastforce simp: exec_simps bigE_def orThrow_app add.assoc split: option.splits)+

lemma keeps_sumAmounts [keeps_rules]: "keeps P (sumAmounts E acc ms)"
  by (induction E acc ms rule: sumAmounts.induct) (auto simp del: ret_app intro!: keeps_rules)

lemma milestonesSumToTotal_pure: "snd (milestonesSumToTotal E c s) = s"
proof (rule keeps_state)
  show "keeps P (milestonesSumToTotal E c)" for P :: "'a \<Rightarrow> bool"
    unfolding milestonesSumToTotal_def by (intro keeps_rules)
qed

lemma milestonesSumToTotal_true: "milestonesSumToTotal E c s = (Inr True, s') \<Longrightarrow> balanced E c"
  by (auto simp: milestonesSumToTotal_def exec_simps balanced_def bigE_def orThrow_app
      dest!: sumAmounts_ok split: option.splits sum.splits prod.splits)

text \<open>The holds of the milestones of \<open>ms\<close>, collected in \<open>ids\<close>.\<close>

definition heldFor :: "wallet_st \<Rightarrow> escrow_contract \<Rightarrow> milestone list \<Rightarrow> (string, string) jsmap \<Rightarrow> bool" where
  "heldFor st c ms ids \<longleftrightarrow>
     (\<forall>m \<in> set ms. mapGet ids (ms_id m) \<noteq> None) \<and>
     (\<forall>k i. mapGet ids k = Some i \<longrightarrow> (\<exists>m \<in> set ms. ms_id m = k \<and> (\<exists>h. mapGet (holds st) i = Some h \<and>
        h_did h = es_payer c \<and> h_currency h = currency (es_amount c) \<and> h_amount h = ms_amount m \<and> h_state h = Active))) \<and>
     (\<forall>k k' i. mapGet ids k = Some i \<longrightarrow> mapGet ids k' = Some i \<longrightarrow> k = k')"

lemma heldFor_grown: "heldFor st c ms ids \<Longrightarrow> grown st st' \<Longrightarrow> heldFor st' c ms ids"
proof -
  assume hf: "heldFor st c ms ids" and g: "grown st st'"
  have keep: "mapGet (holds st') i = Some h" if "mapGet (holds st) i = Some h" for i h
    using g that by (simp add: grown_def)
  have "\<exists>m \<in> set ms. ms_id m = k \<and> (\<exists>h. mapGet (holds st') i = Some h \<and> h_did h = es_payer c \<and>
      h_currency h = currency (es_amount c) \<and> h_amount h = ms_amount m \<and> h_state h = Active)"
    if "mapGet ids k = Some i" for k i
  proof -
    obtain m h where "m \<in> set ms" "ms_id m = k" "mapGet (holds st) i = Some h" "h_did h = es_payer c"
      "h_currency h = currency (es_amount c)" "h_amount h = ms_amount m" "h_state h = Active"
      using hf \<open>mapGet ids k = Some i\<close> unfolding heldFor_def by blast
    then show ?thesis using keep by (intro bexI [of _ m] conjI exI [of _ h]) simp_all
  qed
  then show ?thesis using hf by (simp add: heldFor_def)
qed

lemma heldFor_add:
  assumes hf: "heldFor st c ms ids" and i: "mapGet (holds st) i = None" and g: "grown st st'"
    and h: "mapGet (holds st') i = Some h" "h_did h = es_payer c" "h_currency h = currency (es_amount c)"
      "h_amount h = ms_amount m" "h_state h = Active"
  shows "heldFor st' c (ms @ [m]) (mapSet (ms_id m) i ids)"
proof -
  have old: "mapGet (holds st) j \<noteq> None" if "mapGet ids k = Some j" for k j
    using hf that unfolding heldFor_def by blast
  then have ni: "j \<noteq> i" if "mapGet ids k = Some j" for k j using i that by blast
  have keep: "mapGet (holds st') j = mapGet (holds st) j" if "mapGet ids k = Some j" for k j
    using g old [OF that] by (simp add: grown_def)
  show ?thesis
    unfolding heldFor_def
  proof (intro conjI allI impI)
    show "\<forall>x \<in> set (ms @ [m]). mapGet (mapSet (ms_id m) i ids) (ms_id x) \<noteq> None"
      using hf by (auto simp: heldFor_def)
    show "\<exists>x \<in> set (ms @ [m]). ms_id x = k \<and> (\<exists>h. mapGet (holds st') j = Some h \<and> h_did h = es_payer c \<and>
        h_currency h = currency (es_amount c) \<and> h_amount h = ms_amount x \<and> h_state h = Active)"
      if k: "mapGet (mapSet (ms_id m) i ids) k = Some j" for k j
    proof (cases "k = ms_id m")
      case True
      then show ?thesis using k h by auto
    next
      case False
      then have "mapGet ids k = Some j" using k by simp
      then show ?thesis using hf keep unfolding heldFor_def by fastforce
    qed
    show "k = k'" if "mapGet (mapSet (ms_id m) i ids) k = Some j" "mapGet (mapSet (ms_id m) i ids) k' = Some j" for k k' j
      using that ni hf unfolding heldFor_def by (auto split: if_splits)
  qed
qed

text \<open>What locking the milestones does to the wallet; nothing else of the state changes.\<close>

definition locks :: "ext \<Rightarrow> escrow_contract \<Rightarrow> rat \<Rightarrow> wallet_st \<Rightarrow> wallet_st \<Rightarrow> bool" where
  "locks E c v st st' \<longleftrightarrow> wallet_ok E st' \<and> flat E st st' \<and> (\<forall>x. worth E x st' = worth E x st) \<and>
     (\<forall>k. availAt E (rows st') k = availAt E (rows st) k -
        (if k = walletKey (es_payer c) (currency (es_amount c)) then v else 0)) \<and>
     (0 < v \<longrightarrow> (\<exists>i h. mapGet (holds st) i = None \<and> mapGet (holds st') i = Some h \<and> h_state h = Active))"

lemma holdMilestones_out:
  assumes "wallet_ok E (wal w)" "heldFor (wal w) c before ids"
  shows "\<exists>x st v. holdMilestones E now c ms ids w = (x, w\<lparr>wal := st\<rparr>) \<and> locks E c v (wal w) st \<and> 0 \<le> v \<and>
    (\<forall>ids'. x = Inr ids' \<longrightarrow> heldFor st c (before @ ms) ids' \<and> v = (\<Sum>m\<leftarrow>ms. bv E (ms_amount m)) \<and>
       ran (mapGet ids') \<subseteq> ran (mapGet ids) \<union> {i. mapGet (holds (wal w)) i = None})"
  using assms
proof (induction ms arbitrary: w ids before)
  case Nil
  show ?case
    by (rule exI [of _ "Inr ids"], rule exI [of _ "wal w"], rule exI [of _ 0]) (use Nil in \<open>simp add: locks_def\<close>)
next
  case (Cons m ms)
  let ?ref = "''escrow:'' @ escrow_id c @ '':'' @ ms_id m" and ?k = "walletKey (es_payer c) (currency (es_amount c))"
  show ?case
  proof (cases rule: hold_out [OF Cons.prems(1), of now "es_payer c" "milestoneMoney c m" ?ref])
    case (1 e s1)
    have "holdMilestones E now c (m # ms) ids w = (Inl e, w\<lparr>wal := s1\<rparr>)"
      using 1(1) by (simp add: bindE_app inWallet_app)
    moreover have "locks E c 0 (wal w) s1"
      using wmoveD [OF 1(2)] wmove_worth_0 [OF Cons.prems(1) 1(2)] hold_noGain(3) [OF Cons.prems(1) 1(1)]
      by (auto simp: locks_def)
    ultimately show ?thesis by (intro exI [of _ "Inl e"] exI [of _ s1] exI [of _ 0]) simp
  next
    case (2 v i h s1)
    let ?w1 = "w\<lparr>wal := s1\<rparr>" and ?ids = "mapSet (ms_id m) i ids"
    have f: "flat E (wal w) s1" by (rule hold_noGain(3) [OF Cons.prems(1) 2(1)])
    then have g: "grown (wal w) s1" by (rule flat_grown)
    have wo: "wallet_ok E (wal ?w1)" using wmoveD(1) [OF 2(5)] by simp
    have hf: "heldFor (wal ?w1) c (before @ [m]) ?ids"
      by (rule heldFor_add [OF Cons.prems(2) 2(8), where h = h]) (use g 2 in \<open>simp_all add: milestoneMoney_def\<close>)
    from Cons.IH [OF wo hf]
    obtain x st u where r: "holdMilestones E now c ms ?ids ?w1 = (x, ?w1\<lparr>wal := st\<rparr>)" "locks E c u (wal ?w1) st" "0 \<le> u"
      and ids: "\<forall>ids'. x = Inr ids' \<longrightarrow> heldFor st c ((before @ [m]) @ ms) ids' \<and> u = (\<Sum>m\<leftarrow>ms. bv E (ms_amount m)) \<and>
         ran (mapGet ids') \<subseteq> ran (mapGet ?ids) \<union> {i. mapGet (holds (wal ?w1)) i = None}"
      by (elim exE conjE)
    have v: "v = bv E (ms_amount m)" using 2(2) by (simp add: milestoneMoney_def)
    have run: "holdMilestones E now c (m # ms) ids w = (x, w\<lparr>wal := st\<rparr>)"
      using 2(1) r(1) by (simp add: bindE_app inWallet_app)
    have l: "locks E c (v + u) (wal w) st"
    proof -
      have "mapGet (holds st) i = Some h" using r(2) 2(9) by (simp add: locks_def flat_def grown_def)
      then have "\<exists>i h. mapGet (holds (wal w)) i = None \<and> mapGet (holds st) i = Some h \<and> h_state h = Active"
        using 2(8,10) by auto
      then show ?thesis
        using r(2) wmoveD(4) [OF 2(5)] wmove_worth [OF Cons.prems(1) 2(5)] flat_trans [OF f, of st]
        by (auto simp: locks_def milestoneMoney_def bump_def)
    qed
    have "ran (mapGet ?ids) \<subseteq> insert i (ran (mapGet ids))" by (auto simp: ran_def)
    then have "ran (mapGet ids') \<subseteq> ran (mapGet ids) \<union> {i. mapGet (holds (wal w)) i = None}" if "x = Inr ids'" for ids'
      using ids that 2(8) g by (fastforce simp: grown_def)
    then show ?thesis using run l r(3) ids v 2(3)
      by (intro exI [of _ x] exI [of _ st] exI [of _ "v + u"]) simp
  qed
qed

lemma freshRuntimes_get: "mapGet (freshRuntimes ms) k = (if k \<in> ms_id ` set ms then Some freshRuntime else None)"
proof -
  have "mapGet (foldl (\<lambda>mp m. mapSet (ms_id m) freshRuntime mp) mp0 ms) k =
      (if k \<in> ms_id ` set ms then Some freshRuntime else mapGet mp0 k)" for mp0
    by (induction ms arbitrary: mp0) auto
  from this [of "[]"] show ?thesis by (simp add: freshRuntimes_def)
qed

lemma unique_by_id: "distinct (map f ms) \<Longrightarrow> a \<in> set ms \<Longrightarrow> b \<in> set ms \<Longrightarrow> f a = f b \<Longrightarrow> a = b"
  by (metis distinct_map inj_on_def)

lemma openRecord_ok:
  assumes hf: "heldFor st c (milestones c) ids" and b: "balanced E c"
    and stk: "\<And>i. stk = Some i \<Longrightarrow> (\<exists>h. mapGet (holds st) i = Some h \<and> h_state h = Active) \<and> i \<notin> ran (mapGet ids)"
  shows "record_ok E st (openRecord E now c ids stk)"
proof -
  let ?r = "openRecord E now c ids stk"
  have "milestoneHeld st ?r m" if m: "m \<in> set (milestones c)" for m
  proof -
    obtain i where i: "mapGet ids (ms_id m) = Some i" using hf m unfolding heldFor_def by fastforce
    then obtain m' h where h: "m' \<in> set (milestones c)" "ms_id m' = ms_id m" "mapGet (holds st) i = Some h"
      "h_did h = es_payer c" "h_currency h = currency (es_amount c)" "h_amount h = ms_amount m'" "h_state h = Active"
      using hf unfolding heldFor_def by metis
    have "h_amount h = ms_amount m" if "uniqueIds c"
      using unique_by_id [of ms_id "milestones c" m' m] that h(1,2,6) m by (simp add: uniqueIds_def)
    then show ?thesis
      using i h m by (simp add: milestoneHeld_def openRecord_def freshRuntimes_get freshRuntime_def)
  qed
  moreover have "ran (mapGet ids) \<subseteq> dom (mapGet (holds st))"
    using hf unfolding heldFor_def ran_def dom_def by fastforce
  moreover have "separateRefs ?r"
    using hf stk by (auto simp: heldFor_def separateRefs_def openRecord_def)
  ultimately show ?thesis using b stk
    by (cases stk) (auto simp: record_ok_def openRecord_def balanced_def liveHold_def refsOf_def)
qed

lemma runtimesOf_ok:
  "\<forall>m \<in> set ms. mapGet rts (ms_id m) \<noteq> None \<Longrightarrow>
   runtimesOf rts ms s = (Inr (map (\<lambda>m. (ms_id m, the (mapGet rts (ms_id m)))) ms), s)"
  by (induction ms) (auto simp: exec_simps)

definition stakeOf :: "ext \<Rightarrow> escrow_contract \<Rightarrow> rat" where
  "stakeOf E c = (if slashable (provider_stake c) then max 0 (bv E (ps_amount (provider_stake c))) else 0)"

lemma holdStake_out:
  assumes ok: "wallet_ok E (wal w)"
  obtains (fail) e st where "holdStake E now c w = (Inl e, w\<lparr>wal := st\<rparr>)" "wallet_ok E st" "flat E (wal w) st"
    "\<forall>x. worth E x st = worth E x (wal w)" "\<forall>k. availAt E (rows st) k = availAt E (rows (wal w)) k"
  | (held) stk st where "holdStake E now c w = (Inr stk, w\<lparr>wal := st\<rparr>)" "wallet_ok E st" "flat E (wal w) st"
    "\<forall>x. worth E x st = worth E x (wal w)"
    "\<forall>k. availAt E (rows st) k = availAt E (rows (wal w)) k -
       (if k = walletKey (es_payee c) (ps_currency (provider_stake c)) then stakeOf E c else 0)"
    "\<And>i. stk = Some i \<Longrightarrow> mapGet (holds (wal w)) i = None \<and> (\<exists>h. mapGet (holds st) i = Some h \<and> h_state h = Active)"
proof -
  let ?ps = "provider_stake c" and ?ref = "''escrow-stake:'' @ escrow_id c"
  let ?m = "\<lparr>amount = ps_amount ?ps, currency = ps_currency ?ps\<rparr>"
  consider (no) "\<not> slashable ?ps" | (bad) "slashable ?ps" "bigVal E (ps_amount ?ps) = None"
    | (zero) v where "slashable ?ps" "bigVal E (ps_amount ?ps) = Some v" "v \<le> 0"
    | (pos) v where "slashable ?ps" "bigVal E (ps_amount ?ps) = Some v" "0 < v"
    by (cases "slashable ?ps"; cases "bigVal E (ps_amount ?ps)"; cases "0 < the (bigVal E (ps_amount ?ps))")
      (auto simp: not_less)
  then show ?thesis
  proof cases
    case no
    then show ?thesis using ok by (intro held [of None "wal w"]) (simp_all add: holdStake_def Let_def stakeOf_def)
  next
    case bad
    then show ?thesis using ok by (intro fail [of JsError "wal w"]) (simp_all add: holdStake_def Let_def bindE_app)
  next
    case zero
    then show ?thesis using ok by (intro held [of None "wal w"]) (simp_all add: holdStake_def Let_def bindE_app stakeOf_def)
  next
    case pos
    show ?thesis
    proof (cases rule: hold_out [OF ok, of now "es_payee c" ?m ?ref])
      case (1 e s1)
      then have run: "holdStake E now c w = (Inl e, w\<lparr>wal := s1\<rparr>)"
        using pos by (simp add: holdStake_def Let_def bindE_app [of "bigE _ _"] bindE_app [of "inWallet _"] inWallet_app)
      show ?thesis
        by (rule fail [OF run]) (use wmoveD [OF 1(2)] wmove_worth_0 [OF ok 1(2)] hold_noGain(3) [OF ok 1(1)] in auto)
    next
      case (2 v' i h s1)
      then have run: "holdStake E now c w = (Inr (Some i), w\<lparr>wal := s1\<rparr>)"
        using pos by (simp add: holdStake_def Let_def bindE_app [of "bigE _ _"] bindE_app [of "inWallet _"] inWallet_app)
      have "v' = v" using 2(2) pos(2) by simp
      then show ?thesis
        by (intro held [OF run]) (use pos 2(8,9,10) wmoveD(1,4) [OF 2(5)] wmove_worth [OF ok 2(5)] hold_noGain(3) [OF ok 2(1)] in
            \<open>auto simp: stakeOf_def bump_def\<close>)
    qed
  qed
qed

text \<open>
  Locking the funds: it succeeds and stores the record, or a hold fails and the holds made before it
  stay.
\<close>

lemma lockFunds_out:
  assumes ok: "escrow_ok E w" and new: "mapGet (escrows w) (escrow_id c) = None" and b: "balanced E c"
  obtains (short) e st v where "lockFunds E now c w = (Inl e, w\<lparr>wal := st\<rparr>)" "locks E c v (wal w) st" "0 \<le> v"
  | (unstaked) e st where "lockFunds E now c w = (Inl e, w\<lparr>wal := st\<rparr>)"
      "locks E c (bv E (amount (es_amount c))) (wal w) st"
  | (opened) p ids stk st en where
      "lockFunds E now c w = (Inr (EscrowIs p), w\<lparr>wal := st, escrows := mapSet (escrow_id c) (openRecord E now c ids stk) (escrows w),
         led := led w @ [en]\<rparr>)"
      "escrow_ok E (snd (lockFunds E now c w))" "flat E (wal w) st" "\<forall>x. worth E x st = worth E x (wal w)"
      "\<forall>k. availAt E (rows st) k = availAt E (rows (wal w)) k
         - (if k = walletKey (es_payer c) (currency (es_amount c)) then bv E (amount (es_amount c)) else 0)
         - (if k = walletKey (es_payee c) (ps_currency (provider_stake c)) then stakeOf E c else 0)"
      "pub_state p = EOpen" "ran (mapGet ids) \<subseteq> {i. mapGet (holds (wal w)) i = None}"
proof -
  have wo: "wallet_ok E (wal w)" by (rule escrow_okD(2) [OF ok])
  have hf0: "heldFor (wal w) c [] []" by (simp add: heldFor_def)
  from holdMilestones_out [OF wo hf0, of now "milestones c"]
  obtain x st v where r: "holdMilestones E now c (milestones c) [] w = (x, w\<lparr>wal := st\<rparr>)" "locks E c v (wal w) st" "0 \<le> v"
    and ids: "\<forall>ids'. x = Inr ids' \<longrightarrow> heldFor st c ([] @ milestones c) ids' \<and> v = (\<Sum>m\<leftarrow>milestones c. bv E (ms_amount m)) \<and>
       ran (mapGet ids') \<subseteq> ran (mapGet ([] :: (string, string) jsmap)) \<union> {i. mapGet (holds (wal w)) i = None}"
    by (elim exE conjE)
  show ?thesis
  proof (cases x)
    case (Inl e)
    then show ?thesis using short [of e st v] r by (simp add: lockFunds_def bindE_app)
  next
    case (Inr ids')
    let ?w1 = "w\<lparr>wal := st\<rparr>"
    have hf: "heldFor st c (milestones c) ids'" and v: "v = bv E (amount (es_amount c))"
      and fr: "ran (mapGet ids') \<subseteq> {i. mapGet (holds (wal w)) i = None}"
      using ids Inr b by (simp_all add: balanced_def)
    have wo1: "wallet_ok E (wal ?w1)" using r(2) by (simp add: locks_def)
    show ?thesis
    proof (cases rule: holdStake_out [OF wo1, of now c])
      case (1 e s1)
      have "lockFunds E now c w = (Inl e, w\<lparr>wal := s1\<rparr>)"
        using r(1) Inr 1(1) by (simp add: lockFunds_def bindE_app)
      moreover have "locks E c v (wal w) s1"
      proof -
        have "\<exists>i h. mapGet (holds (wal w)) i = None \<and> mapGet (holds s1) i = Some h \<and> h_state h = Active" if pos: "0 < v"
        proof -
          obtain i h where h: "mapGet (holds (wal w)) i = None" "mapGet (holds st) i = Some h" "h_state h = Active"
            using r(2) pos by (auto simp: locks_def)
          then have "mapGet (holds s1) i = Some h" using 1(3) by (simp add: flat_def grown_def)
          with h show ?thesis by blast
        qed
        then show ?thesis using r(2) 1 flat_trans [of E "wal w" st s1] by (auto simp: locks_def)
      qed
      ultimately show ?thesis using unstaked [of e s1] v by simp
    next
      case (2 stk s1)
      let ?rec = "openRecord E now c ids' stk" and ?P = "JObj (contractObj c)"
      let ?w2 = "w\<lparr>wal := s1, escrows := mapSet (escrow_id c) ?rec (escrows w)\<rparr>"
      obtain en where en: "appendLedger E now ''escrow_open'' (Some (escrow_id c)) ?P ?w2 = (Inr (), ?w2\<lparr>led := led ?w2 @ [en]\<rparr>)"
        by (rule appendLedger_out)
      let ?w3 = "?w2\<lparr>led := led w @ [en]\<rparr>"
      have rts: "runtimesOf (runtimes ?rec) (milestones c) ?w3 =
          (Inr (map (\<lambda>m. (ms_id m, the (mapGet (runtimes ?rec) (ms_id m)))) (milestones c)), ?w3)"
        by (rule runtimesOf_ok) (simp add: openRecord_def freshRuntimes_get)
      obtain p where p: "toPublic (escrow_id c) ?w3 = (Inr (EscrowIs p), ?w3)" "pub_state p = EOpen"
        using rts by (auto simp: toPublic_def bindE_app recordAt_app openRecord_def)
      have rid: "escrow_id (contract ?rec) = escrow_id c" by (simp add: openRecord_def)
      have run: "lockFunds E now c w = (Inr (EscrowIs p), ?w3)"
        using r(1) Inr 2(1) en p(1) rid by (simp add: lockFunds_def bindE_app putEscrow_def)
      have f: "flat E (wal w) s1" using r(2) 2(3) flat_trans [of E "wal w" st s1] by (simp add: locks_def)
      then have g: "grown (wal w) s1" by (rule flat_grown)
      have refs: "refsOf ?rec \<subseteq> {i. mapGet (holds (wal w)) i = None}"
        using fr 2(6) r(2) by (cases stk) (auto simp: refsOf_def openRecord_def locks_def flat_def grown_def)
      have hf1: "heldFor s1 c (milestones c) ids'"
        by (rule heldFor_grown [OF hf]) (use 2(3) in \<open>simp add: flat_grown\<close>)
      have rec: "record_ok E s1 ?rec"
        by (rule openRecord_ok [OF hf1 b]) (use 2(6) hf in \<open>fastforce simp: heldFor_def ran_def\<close>)
      have "core_ok E ?w2" using escrow_okD(1) [OF ok] 2(2) by (simp add: core_ok_def)
      then have core: "core_ok E ?w3"
        using keepsD [OF keeps_appendLedger [of E now "''escrow_open''" "Some (escrow_id c)" ?P], of ?w2] en by simp
      have ok3: "escrow_ok E ?w3"
      proof (rule escrow_ok_put [OF ok core])
        show "mapGet (escrows ?w3) = (mapGet (escrows w))(escrow_id c \<mapsto> ?rec)" by (rule HOL.ext) simp
        show "record_ok E (wal ?w3) ?rec" using rec by simp
        show "refsOf ?rec \<inter> refsOf r2 = {} \<and> (\<forall>i\<in>refsOf r2. mapGet (holds (wal ?w3)) i = mapGet (holds (wal w)) i)"
          if "mapGet (escrows w) e2 = Some r2" for e2 r2
        proof -
          have "refsOf r2 \<subseteq> dom (mapGet (holds (wal w)))" using escrow_okD(4) [OF ok that] by (simp add: record_ok_def)
          then show ?thesis using refs g by (auto simp: grown_def)
        qed
      qed (rule rid)
      show ?thesis
        by (rule opened [OF run _ f]) (use ok3 run 2 r(2) v p(2) fr in \<open>simp_all add: locks_def\<close>)
    qed
  qed
qed

text \<open>An open call: refused or parked with nothing locked, or agreed by both parties and the policy.\<close>

definition openOpts :: "escrow_contract \<Rightarrow> verify_opts" where
  "openOpts c = \<lparr>signerDid = es_payer c, sigField = ''sig_payer'', omitFields = CONTRACT_OMIT, keyId = None, skipNonce = False\<rparr>"

definition payeeSigned :: "ext \<Rightarrow> open_input \<Rightarrow> 'a escrow_world_scheme \<Rightarrow> bool" where
  "payeeSigned E i w \<longleftrightarrow> (\<exists>pk. publicKeyFor (resolverOf E (idn w)) (es_payee i) None = Some pk \<and>
     verifyDetached E (JObj (stripForSigning (openObj i) CONTRACT_OMIT)) (sig_payee i) pk)"

lemma toContract_sel [simp]:
  "escrow_id (toContract i) = escrow_id i" "es_payer (toContract i) = es_payer i" "es_payee (toContract i) = es_payee i"
  "es_amount (toContract i) = es_amount i" "milestones (toContract i) = milestones i"
  "provider_stake (toContract i) = provider_stake i" "contractObj (toContract i) = contractObj i"
  by (simp_all add: toContract_def escrow_contract.truncate_def contractObj_def)

text \<open>The parts of the state that a check before the funds leaves alone.\<close>

definition settled_parts :: "'a escrow_world_scheme \<Rightarrow>
    wallet_st \<times> (string, escrow_record) jsmap \<times> ledger_st \<times> reputation_st \<times> identity_st" where
  "settled_parts w = (wal w, escrows w, led w, rep w, idn w)"

lemma quiet_escrow_ok:
  "escrow_ok E w \<Longrightarrow> settled_parts w' = settled_parts w \<Longrightarrow> core_ok E w' \<Longrightarrow> escrow_ok E w'"
  by (simp add: settled_parts_def escrow_ok_def)

lemma verifyAs_quiet:
  assumes "verifyAs E now skew obj opts w = (r, w')"
  shows "settled_parts w' = settled_parts w" "escrow_ok E w \<Longrightarrow> escrow_ok E w'"
proof -
  show q: "settled_parts w' = settled_parts w"
    by (rule frames_out [OF frames_verifyAs assms]) (simp add: settled_parts_def)
  show "escrow_ok E w'" if "escrow_ok E w"
    using quiet_escrow_ok [OF that q] keepsD [OF keeps_verifyAs [of E now skew obj opts] escrow_okD(1) [OF that]] assms
    by simp
qed

lemma signWithinPolicy_quiet:
  assumes "signWithinPolicy E now d p act ap w = (r, w')"
  shows "settled_parts w' = settled_parts w" "escrow_ok E w \<Longrightarrow> escrow_ok E w'"
proof -
  show q: "settled_parts w' = settled_parts w"
    by (rule frames_out [OF frames_signWithinPolicy assms]) (simp add: settled_parts_def)
  show "escrow_ok E w'" if "escrow_ok E w"
    using quiet_escrow_ok [OF that q] keepsD [OF keeps_signWithinPolicy [of E now d p act ap] escrow_okD(1) [OF that]] assms
    by simp
qed

lemma parkOrDeny_quiet:
  assumes "parkOrDeny E now dec c w = (r, w')"
  shows "settled_parts w' = settled_parts w" "escrow_ok E w \<Longrightarrow> escrow_ok E w'" "r \<noteq> Inr (EscrowIs p)"
proof -
  have fr: "frames settled_parts (parkOrDeny E now dec c)"
    unfolding parkOrDeny_def by (intro frames_rules) (simp add: settled_parts_def)
  show q: "settled_parts w' = settled_parts w" by (rule frames_out [OF fr assms])
  have kp: "keeps (core_ok E) (parkOrDeny E now dec c)"
    unfolding parkOrDeny_def by (cases dec) (auto intro!: keeps_rules simp del: ret_app)
  show "escrow_ok E w'" if "escrow_ok E w"
    using quiet_escrow_ok [OF that q] keepsD [OF kp escrow_okD(1) [OF that]] assms by simp
  show "r \<noteq> Inr (EscrowIs p)"
    using assms by (cases dec) (auto simp: parkOrDeny_def exec_simps split: prod.splits sum.splits)
qed

lemma openEscrow_door:
  assumes "milestonesSumToTotal E (toContract i) w = (b, w)"
    "\<not> (b = Inr True \<and> (\<exists>t. bigVal E (amount (es_amount i)) = Some t \<and> 0 < t) \<and> mapGet (escrows w) (escrow_id i) = None)"
  shows "\<exists>e. openEscrow E cfg now i w = (Inl e, w)"
  using assms by (cases b; cases "bigVal E (amount (es_amount i))"; cases "mapGet (escrows w) (escrow_id i)")
    (auto simp: openEscrow_def Let_def bindE_app [of "milestonesSumToTotal _ _"] bindE_app [of "throwIf _ _"]
      bindE_app [of "bigE _ _"] bindE_app [of "gets _"] throwIf_app)

lemma openEscrow_cases:
  assumes ok: "escrow_ok E w"
  obtains (refused) x w' where "openEscrow E cfg now i w = (x, w')" "settled_parts w' = settled_parts w" "escrow_ok E w'"
      "\<And>p. x \<noteq> Inr (EscrowIs p)"
  | (agreed) w0 w1 t sg where "openEscrow E cfg now i w = lockFunds E now (toContract i) w1"
      "settled_parts w1 = settled_parts w" "escrow_ok E w1" "mapGet (escrows w1) (escrow_id i) = None"
      "balanced E (toContract i)" "bigVal E (amount (es_amount i)) = Some t" "0 < t"
      "verifyAs E now (escSkew cfg) (openObj i) (openOpts (toContract i)) w = (Inr (), w0)" "payeeSigned E i w"
      "signWithinPolicy E now (es_payer i) (JObj (contractObj i)) (commitAction (toContract i)) (oi_approval i) w0 =
         (Inr (Signed sg), w1)"
proof -
  let ?c = "toContract i" and ?R = "openEscrow E cfg now i w"
  have stop: thesis if "?R = (Inl e, w')" "settled_parts w' = settled_parts w" "escrow_ok E w'" for e w'
    by (rule refused [OF that]) simp
  obtain b where b: "milestonesSumToTotal E ?c w = (b, w)" using milestonesSumToTotal_pure by (metis prod.collapse)
  obtain v w0 where v: "verifyAs E now (escSkew cfg) (openObj i) (openOpts ?c) w = (v, w0)" by (metis prod.collapse)
  note q0 = verifyAs_quiet [OF v]
  obtain s w1 where s: "signWithinPolicy E now (es_payer i) (JObj (contractObj i)) (commitAction ?c) (oi_approval i) w0 = (s, w1)"
    by (metis prod.collapse)
  note q1 = signWithinPolicy_quiet [OF s]
  have idn: "idn w0 = idn w" "escrows w0 = escrows w" "escrows w1 = escrows w"
    using q0(1) q1(1) by (simp_all add: settled_parts_def)
  show ?thesis
  proof (cases "b = Inr True \<and> (\<exists>t. bigVal E (amount (es_amount i)) = Some t \<and> 0 < t) \<and> mapGet (escrows w) (escrow_id i) = None")
    case False
    then have "\<exists>e. ?R = (Inl e, w)" by (intro openEscrow_door [OF b])
    then show ?thesis using stop ok by blast
  next
    case True
    then obtain t where t: "b = Inr True" "bigVal E (amount (es_amount i)) = Some t" "0 < t" "mapGet (escrows w) (escrow_id i) = None"
      by blast
    have run: "?R = bindE (verifyAs E now (escSkew cfg) (openObj i) (openOpts ?c)) (\<lambda>_.
        bindE (verifyContractSig E ?c i) (\<lambda>_.
        bindE (signWithinPolicy E now (es_payer i) (JObj (contractObj i)) (commitAction ?c) (oi_approval i)) (\<lambda>signed.
        case signed of Refused decision \<Rightarrow> parkOrDeny E now decision ?c | Signed _ \<Rightarrow> lockFunds E now ?c))) w"
      using b t by (simp add: openEscrow_def Let_def openOpts_def bindE_app [of "milestonesSumToTotal _ _"]
          bindE_app [of "throwIf _ _"] bindE_app [of "bigE _ _"] bindE_app [of "gets _"] throwIf_app)
    show ?thesis
    proof (cases "v = Inr () \<and> payeeSigned E i w")
      case False
      then have "\<exists>e. ?R = (Inl e, w0)"
        using v idn by (cases v; cases "publicKeyFor (resolverOf E (idn w)) (es_payee i) None")
          (auto simp: run bindE_app [of "verifyAs _ _ _ _ _"] verifyContractSig_def exec_simps payeeSigned_def)
      then show ?thesis using stop q0 ok by blast
    next
      case True
      then have run2: "?R = (case s of Inl e \<Rightarrow> (Inl e, w1)
          | Inr (Refused decision) \<Rightarrow> parkOrDeny E now decision ?c w1 | Inr (Signed _) \<Rightarrow> lockFunds E now ?c w1)"
        using v s idn by (auto simp: run bindE_app [of "verifyAs _ _ _ _ _"] bindE_app [of "verifyContractSig _ _ _"]
            bindE_app [of "signWithinPolicy _ _ _ _ _ _"] verifyContractSig_def exec_simps payeeSigned_def
            split: sum.split sign_result.split)
      have q: "settled_parts w1 = settled_parts w" "escrow_ok E w1" using q0 q1 ok by simp_all
      show ?thesis
      proof (cases s)
        case (Inl e)
        then show ?thesis using stop run2 q by simp
      next
        case (Inr y)
        show ?thesis
        proof (cases y)
          case (Signed sg)
          show ?thesis
            by (rule agreed [of w1 t w0 sg])
              (use run2 Inr Signed q t idn True v s b milestonesSumToTotal_true in \<open>simp_all add: Let_def\<close>)
        next
          case (Refused d)
          obtain x w2 where p: "parkOrDeny E now d ?c w1 = (x, w2)" by (metis prod.collapse)
          note p2 = parkOrDeny_quiet [OF p]
          show ?thesis by (rule refused [of x w2]) (use run2 Inr Refused p p2 q in simp_all)
        qed
      qed
    qed
  qed
qed

lemma noGain_refl [simp]: "noGain E st st"
  by (simp add: noGain_def)

lemma estep_quiet: "settled_parts w' = settled_parts w \<Longrightarrow> (escrow_ok E w \<Longrightarrow> escrow_ok E w') \<Longrightarrow> estep E w w'"
  using squares_flat [of E w w'] by (auto simp: estep_def settled_parts_def dest: escrow_okD(2))

lemma estep_locks: "locks E c v (wal w) st \<Longrightarrow> estep E w (w\<lparr>wal := st\<rparr>)"
  by (rule estep_grown) (auto simp: locks_def noGain_def core_ok_wal)

lemma lockFunds_step:
  assumes ok: "escrow_ok E w" and new: "mapGet (escrows w) (escrow_id c) = None" and b: "balanced E c"
  shows "estep E w (snd (lockFunds E now c w))"
proof (cases rule: lockFunds_out [OF ok new b, of now])
  case (1 e st v)
  then show ?thesis using estep_locks by simp
next
  case (2 e st)
  then show ?thesis using estep_locks by simp
next
  case (3 p ids stk st en)
  have "advances (escrows w) (mapSet (escrow_id c) (openRecord E now c ids stk) (escrows w))"
    using new by (auto simp: advances_def)
  moreover have "squares E w (snd (lockFunds E now c w))"
  proof (rule squares_flat)
    show "paysKey (escrows (snd (lockFunds E now c w))) i k = paysKey (escrows w) i k" if "mapGet (holds (wal w)) i \<noteq> None" for i k
    proof -
      have "i \<notin> ran (mapGet ids)" using subsetD [OF 3(7), of i] that by auto
      then show ?thesis using 3(1) paysKey_new [OF new, of i "openRecord E now c ids stk"] by (simp add: openRecord_def)
    qed
    show "wallet_ok E (wal (snd (lockFunds E now c w)))" by (rule escrow_okD(2) [OF 3(2)])
    show "flat E (wal w) (wal (snd (lockFunds E now c w)))" using 3(1,3) by simp
  qed (rule escrow_okD(2) [OF ok])
  ultimately show ?thesis using 3(1,2,4) by (simp add: estep_def noGain_def)
qed

lemma openEscrow_step: "estep E w (snd (openEscrow E cfg now i w))"
proof (cases "escrow_ok E w")
  case True
  show ?thesis
  proof (cases rule: openEscrow_cases [OF True, of cfg now i])
    case (1 x w')
    then show ?thesis by (simp add: estep_quiet)
  next
    case (2 w0 w1 t sg)
    have "estep E w w1" using 2 by (simp add: estep_quiet)
    moreover have "estep E w1 (snd (lockFunds E now (toContract i) w1))"
      by (rule lockFunds_step) (use 2 in simp_all)
    ultimately show ?thesis using 2(1) esc.trans by simp
  qed
qed (simp add: estep_def)

section \<open>Sequences of operations\<close>

datatype escrow_op =
    OpOpen open_input
  | OpDeliver string deliver_input
  | OpAccept string accept_input
  | OpDispute string dispute_input
  | OpExpire string
  | OpResolve string resolve_input

fun runEscrow :: "ext \<Rightarrow> esc_cfg \<Rightarrow> int \<Rightarrow> escrow_op \<Rightarrow> ('a escrow_world_scheme, escrow_mutation) exec" where
  "runEscrow E cfg now (OpOpen i) = openEscrow E cfg now i"
| "runEscrow E cfg now (OpDeliver e i) = deliver E cfg now e i"
| "runEscrow E cfg now (OpAccept e i) = accept E cfg now e i"
| "runEscrow E cfg now (OpDispute e i) = dispute E cfg now e i"
| "runEscrow E cfg now (OpExpire e) = onTimeout E cfg now e"
| "runEscrow E cfg now (OpResolve e i) = resolveEscalation E cfg now e i"

text \<open>Each call at its own time; a call that throws leaves the state it reached.\<close>

fun runEscrows :: "ext \<Rightarrow> esc_cfg \<Rightarrow> (int \<times> escrow_op) list \<Rightarrow> 'a escrow_world_scheme \<Rightarrow> 'a escrow_world_scheme" where
  "runEscrows E cfg [] w = w"
| "runEscrows E cfg ((now, op) # ops) w = runEscrows E cfg ops (snd (runEscrow E cfg now op w))"

lemma runEscrow_step: "shares_six E \<Longrightarrow> estep E w (snd (runEscrow E cfg now op w))"
  by (cases op) (simp_all add: openEscrow_step deliver_step accept_step dispute_step onTimeout_step resolveEscalation_step)

lemma runEscrows_step: "shares_six E \<Longrightarrow> estep E w (runEscrows E cfg ops w)"
  by (induction E cfg ops w rule: runEscrows.induct) (auto intro: esc.trans [OF runEscrow_step])

end
