(* ===== verification/Escrow_Spec.thy ===== *)
theory Escrow_Spec
  imports Escrow_Laws Facilitator_Spec
begin

text \<open>
  What escrow promises: the funds of a contract are accounted for to the last unit in every state
  that any sequence of calls can reach, milestones follow their life cycle, opening locks exactly
  the total, and objective delivery decides who is paid. The last part shows where funds stay
  locked: milestones left over by an objective dispute, and holds of an open call that fails.
\<close>

section \<open>Accounting\<close>

text \<open>The part of a record's milestone funds whose holds are in state \<open>x\<close>.\<close>

definition milestoneFunds :: "ext \<Rightarrow> wallet_st \<Rightarrow> escrow_record \<Rightarrow> hold_state \<Rightarrow> milestone \<Rightarrow> rat" where
  "milestoneFunds E st r x m =
     (case mapGet (milestoneHoldIds r) (ms_id m) of
        None \<Rightarrow> 0
      | Some i \<Rightarrow> (case mapGet (holds st) i of
          None \<Rightarrow> 0
        | Some h \<Rightarrow> if h_state h = x \<and> h_did h = es_payer (contract r) \<and> h_currency h = currency (es_amount (contract r))
            then bv E (h_amount h) else 0))"

definition fundsIn :: "ext \<Rightarrow> wallet_st \<Rightarrow> escrow_record \<Rightarrow> hold_state \<Rightarrow> rat" where
  "fundsIn E st r x = (\<Sum>m\<leftarrow>milestones (contract r). milestoneFunds E st r x m)"

lemma milestoneFunds_split:
  assumes "milestoneHeld st r m" "uniqueIds (contract r)"
  shows "milestoneFunds E st r Active m + milestoneFunds E st r Captured m + milestoneFunds E st r Released m =
    bv E (ms_amount m)"
proof -
  obtain i h and rt :: milestone_runtime where h: "mapGet (milestoneHoldIds r) (ms_id m) = Some i" "mapGet (holds st) i = Some h"
    "h_did h = es_payer (contract r)" "h_currency h = currency (es_amount (contract r))" "h_amount h = ms_amount m"
    "holdFits (rt_state rt) (h_state h)"
    using assms by (auto simp: milestoneHeld_def)
  then have "h_state h \<noteq> Forfeited" by auto
  then show ?thesis using h by (cases "h_state h") (simp_all add: milestoneFunds_def)
qed

lemma fundsIn_total:
  assumes "record_ok E st r" "uniqueIds (contract r)"
  shows "fundsIn E st r Active + fundsIn E st r Captured + fundsIn E st r Released = bv E (amount (es_amount (contract r)))"
proof -
  have "fundsIn E st r Active + fundsIn E st r Captured + fundsIn E st r Released =
      (\<Sum>m\<leftarrow>milestones (contract r). milestoneFunds E st r Active m + milestoneFunds E st r Captured m +
         milestoneFunds E st r Released m)"
    by (simp add: fundsIn_def sum_list_addf)
  also have "\<dots> = (\<Sum>m\<leftarrow>milestones (contract r). bv E (ms_amount m))"
    by (rule arg_cong [where f = sum_list])
      (use assms in \<open>auto simp: record_ok_def intro!: map_cong [OF refl] milestoneFunds_split\<close>)
  finally show ?thesis using assms(1) by (simp add: record_ok_def)
qed

text \<open>
  What an account has after a run, by the holds alone: what it had, less what was paid
  from holds made on it, more the milestones captured for its owner as the provider of a contract, less
  what was slashed.
\<close>

definition expectedAt :: "ext \<Rightarrow> 'a escrow_world_scheme \<Rightarrow> 'a escrow_world_scheme \<Rightarrow> string \<Rightarrow> rat" where
  "expectedAt E w w' k = balanceAt E (wal w) k
     - (paidFrom E (wal w') k - paidFrom E (wal w) k)
     + (earnedBy E (escrows w') (wal w') k - earnedBy E (escrows w) (wal w) k)
     - (slashedFrom E (wal w') k - slashedFrom E (wal w) k)"

lemma squares_expected:
  assumes "squares E w w'"
  shows "expectedAt E w w' k \<le> balanceAt E (wal w') k"
    "slashedIds (wal w') = slashedIds (wal w) \<or> \<not> partyKey (escrows w') k \<Longrightarrow> balanceAt E (wal w') k = expectedAt E w w' k"
proof -
  have *: "standing E w' k = standing E w k \<or>
      standing E w k \<le> standing E w' k \<and> slashedIds (wal w') \<noteq> slashedIds (wal w) \<and> partyKey (escrows w') k"
    using assms by (simp add: squares_def)
  show "expectedAt E w w' k \<le> balanceAt E (wal w') k" using * by (auto simp: expectedAt_def standing_def)
  show "balanceAt E (wal w') k = expectedAt E w w' k"
    if "slashedIds (wal w') = slashedIds (wal w) \<or> \<not> partyKey (escrows w') k"
    using * that by (auto simp: expectedAt_def standing_def)
qed

text \<open>No call creates funds; only a slashed stake is burned.\<close>

lemma escrow_never_mints:
  "escrow_ok E w \<Longrightarrow> shares_six E \<Longrightarrow> worth E c (wal (runEscrows E cfg ops w)) \<le> worth E c (wal w)"
  using estepD(2) runEscrows_step by blast

text \<open>
  Claim C2. Every unit of an escrow is accounted for. Whatever calls the parties, the scheduler
  and the arbiter make, in whatever order and with whatever failures, in the state reached the
  payer's funds that are still locked, that were captured and that came back to the payer
  add up exactly to the contract's total, for every escrow whose milestone ids are distinct. And the
  money went where that says: every account has exactly what it had before, less the holds captured
  on it, plus the captured milestones of the contracts in which its owner is the provider, less the slashed holds, except
  that an account of a party may have more when a stake or a bond was slashed in the run (its
  compensation); over all accounts no currency gains anything.
\<close>

theorem escrow_funds_accounted:
  fixes w :: "'a escrow_world_scheme" and cfg :: esc_cfg and ops :: "(int \<times> escrow_op) list"
  assumes "escrow_ok E w" "shares_six E"
  defines "w' \<equiv> runEscrows E cfg ops w"
  shows "(\<forall>eid r. mapGet (escrows w') eid = Some r \<longrightarrow> uniqueIds (contract r) \<longrightarrow>
      fundsIn E (wal w') r Active + fundsIn E (wal w') r Captured + fundsIn E (wal w') r Released =
        bv E (amount (es_amount (contract r)))) \<and>
    (\<forall>k. expectedAt E w w' k \<le> balanceAt E (wal w') k \<and>
      (slashedIds (wal w') = slashedIds (wal w) \<or> \<not> partyKey (escrows w') k \<longrightarrow>
        balanceAt E (wal w') k = expectedAt E w w' k)) \<and>
    (\<forall>c. worth E c (wal w') \<le> worth E c (wal w))"
proof -
  note st = runEscrows_step [OF assms(2), of w cfg ops, folded w'_def]
  have "fundsIn E (wal w') r Active + fundsIn E (wal w') r Captured + fundsIn E (wal w') r Released =
      bv E (amount (es_amount (contract r)))"
    if "mapGet (escrows w') eid = Some r" "uniqueIds (contract r)" for eid r
    using fundsIn_total [OF escrow_okD(4) [OF estepD(1) [OF st assms(1)] that(1)] that(2)] .
  then show ?thesis using squares_expected [OF estepD(4) [OF st assms(1)]] estepD(2) [OF st assms(1)] by blast
qed

text \<open>
  Claim C4. The life cycle is respected: over any sequence of calls a contract never changes and
  every milestone only moves along \<open>lifecycle\<close>; in particular a milestone that was paid out stays
  paid out.
\<close>

theorem escrow_refines_lifecycle:
  assumes "escrow_ok E w" "shares_six E" "mapGet (escrows w) eid = Some r" "mapGet (runtimes r) mid = Some rt"
  shows "\<exists>r' rt'. mapGet (escrows (runEscrows E cfg ops w)) eid = Some r' \<and> contract r' = contract r \<and>
    mapGet (runtimes r') mid = Some rt' \<and> evolves (rt_state rt) (rt_state rt')"
  using estepD(3) [OF runEscrows_step [OF assms(2)] assms(1), of cfg ops] assms(3,4)
  unfolding advances_def by blast

section \<open>What an operation on one escrow leaves alone\<close>

lemma frames_updEscrow_other:
  "(\<And>w. f (w\<lparr>escrows := AList.map_entry eid g (escrows w)\<rparr>) = f w) \<Longrightarrow> frames f (updEscrow eid g)"
  unfolding updEscrow_def by (rule frames_modify)

lemma frames_recordAt [frames_rules]: "frames f (recordAt eid)"
  unfolding recordAt_def by (intro frames_rules)

lemma frames_runtimeOf [frames_rules]: "frames f (runtimeOf eid mid)"
  unfolding runtimeOf_def by (intro frames_rules)

lemma frames_runtimesOf [frames_rules]: "frames f (runtimesOf rts ms)"
  by (simp add: frames_def keeps_runtimesOf)

lemma frames_requireMilestone [frames_rules]: "frames f (requireMilestone c mid)"
  unfolding requireMilestone_def by (intro frames_rules)

lemma frames_requireOpenish [frames_rules]: "frames f (requireOpenish eid)"
  unfolding requireOpenish_def by (intro frames_rules)

lemma frames_toPublic [frames_rules]: "frames f (toPublic eid)"
  unfolding toPublic_def by (intro frames_rules)

text \<open>An observation of the escrows only, that updates of one record's fields leave alone.\<close>

definition escrowView :: "((string, escrow_record) jsmap \<Rightarrow> 'v) \<Rightarrow> 'a escrow_world_scheme \<Rightarrow> 'v" where
  "escrowView g w = g (escrows w)"

lemma escrowView_sel [simp]:
  "escrowView g (w\<lparr>non := n\<rparr>) = escrowView g w" "escrowView g (w\<lparr>wal := s\<rparr>) = escrowView g w"
  "escrowView g (w\<lparr>apr := a\<rparr>) = escrowView g w" "escrowView g (w\<lparr>led := l\<rparr>) = escrowView g w"
  "escrowView g (w\<lparr>rep := p\<rparr>) = escrowView g w" "escrowView g (w\<lparr>rcpDrawn := k\<rparr>) = escrowView g w"
  by (simp_all add: escrowView_def)

definition blindTo :: "((string, escrow_record) jsmap \<Rightarrow> 'v) \<Rightarrow> string \<Rightarrow> (escrow_record \<Rightarrow> escrow_record) \<Rightarrow> bool" where
  "blindTo g eid f \<longleftrightarrow> (\<forall>es. g (AList.map_entry eid f es) = g es)"

lemma frames_updEscrow_view: "blindTo g eid f \<Longrightarrow> frames (escrowView g) (updEscrow eid f)"
  by (rule frames_updEscrow_other) (simp add: escrowView_def blindTo_def)

lemma frames_newReceiptId_view [frames_rules]: "frames (escrowView g) (newReceiptId E)"
  unfolding newReceiptId_def by (intro frames_rules) simp

text \<open>Observations that see neither the record's own fields nor the runtime of milestone \<open>mid\<close>.\<close>

definition blindView :: "((string, escrow_record) jsmap \<Rightarrow> 'v) \<Rightarrow> string \<Rightarrow> string \<Rightarrow> bool" where
  "blindView g eid mid \<longleftrightarrow>
     (\<forall>f. (\<forall>r. runtimes (f r) = runtimes r \<and> contract (f r) = contract r \<and> milestoneHoldIds (f r) = milestoneHoldIds r) \<longrightarrow>
        blindTo g eid f) \<and>
     (\<forall>f. blindTo g eid (\<lambda>r. r\<lparr>runtimes := AList.map_entry mid f (runtimes r)\<rparr>))"

lemma frames_cosmetic [frames_rules]:
  "blindView g eid mid \<Longrightarrow> (\<And>r. runtimes (f r) = runtimes r) \<Longrightarrow> (\<And>r. contract (f r) = contract r) \<Longrightarrow>
   (\<And>r. milestoneHoldIds (f r) = milestoneHoldIds r) \<Longrightarrow> frames (escrowView g) (updEscrow eid f)"
  by (rule frames_updEscrow_view) (simp add: blindView_def)

lemma frames_retarget [frames_rules]: "blindView g eid mid \<Longrightarrow> frames (escrowView g) (updRuntime eid mid f)"
  unfolding updRuntime_def by (rule frames_updEscrow_view) (simp add: blindView_def)

lemma frames_issueMilestoneReceipt [frames_rules]: "frames (escrowView g) (issueMilestoneReceipt E cfg now eid m oc)"
  unfolding issueMilestoneReceipt_def Let_def by (intro frames_rules; simp)

lemma frames_maybeReleaseStake [frames_rules]: "blindView g eid mid \<Longrightarrow> frames (escrowView g) (maybeReleaseStake E eid)"
  unfolding maybeReleaseStake_def by (intro frames_rules; (assumption | simp))

lemma frames_captureMilestone [frames_rules]:
  "blindView g eid (ms_id m) \<Longrightarrow> frames (escrowView g) (captureMilestone E cfg now eid m oc)"
  unfolding captureMilestone_def by (intro frames_rules; (assumption | simp))

lemma frames_refundMilestone [frames_rules]:
  "blindView g eid (ms_id m) \<Longrightarrow> frames (escrowView g) (refundMilestone E cfg now eid m oc)"
  unfolding refundMilestone_def by (intro frames_rules; (assumption | simp))

lemma frames_slashProviderStake [frames_rules]: "blindView g eid mid \<Longrightarrow> frames (escrowView g) (slashProviderStake E eid m)"
  unfolding slashProviderStake_def by (intro frames_rules; (assumption | simp))

lemma frames_releaseBond [frames_rules]: "blindView g eid mid \<Longrightarrow> frames (escrowView g) (releaseBond E eid)"
  unfolding releaseBond_def by (intro frames_rules; (assumption | simp))

lemma frames_settleBond [frames_rules]: "blindView g eid mid \<Longrightarrow> frames (escrowView g) (settleBond E cfg now eid c d u)"
  unfolding settleBond_def by (intro frames_rules; (assumption | simp))

lemma frames_recompute [frames_rules]: "blindView g eid mid \<Longrightarrow> frames (escrowView g) (recomputeEscrowState eid)"
  unfolding recomputeEscrowState_def Let_def by (intro frames_rules; (assumption | simp))

lemma frames_postBond [frames_rules]: "blindView g eid mid \<Longrightarrow> frames (escrowView g) (postBond E now eid c m i)"
  unfolding postBond_def by (intro frames_rules; (assumption | simp))

lemma frames_escalateDispute [frames_rules]: "blindView g eid mid \<Longrightarrow> frames (escrowView g) (escalateDispute E now eid m i)"
  unfolding escalateDispute_def Let_def by (intro frames_rules; (assumption | simp))

lemma frames_frivolousDispute [frames_rules]:
  "blindView g eid (ms_id m) \<Longrightarrow> frames (escrowView g) (frivolousDispute E cfg now eid c m d)"
  unfolding frivolousDispute_def by (intro frames_rules; (assumption | simp))

lemma frames_upheldDispute [frames_rules]:
  "blindView g eid (ms_id m) \<Longrightarrow> frames (escrowView g) (upheldDispute E cfg now eid c m)"
  unfolding upheldDispute_def by (intro frames_rules; (assumption | simp))

text \<open>A look-up that returns: what is known of the milestone found.\<close>

lemma frames_milestone:
  "(\<And>m. ms_id m = mid \<Longrightarrow> frames f (k m)) \<Longrightarrow> frames f (bindE (requireMilestone c mid) k)"
proof (cases "find (\<lambda>m. ms_id m = mid) (milestones c)")
  case (Some m)
  then have "ms_id m = mid" by (auto simp: find_Some_iff)
  moreover assume "\<And>m. ms_id m = mid \<Longrightarrow> frames f (k m)"
  ultimately show ?thesis using Some by (simp add: requireMilestone_def orThrow_def bindE_ret)
qed (simp add: requireMilestone_def orThrow_def bindE_throw frames_throw)

lemma frames_objective [frames_rules]:
  "frames f p \<Longrightarrow> frames f q \<Longrightarrow> frames f u \<Longrightarrow> frames f (case x of Pass \<Rightarrow> p | Fail \<Rightarrow> q | Subjective \<Rightarrow> u)"
  by (cases x) simp_all

lemma frames_dispute:
  assumes "blindView g eid (dp_milestone i)"
  shows "frames (escrowView g) (dispute E cfg now eid i)"
  unfolding dispute_def Let_def assertWithinDisputeWindow_def
  by (rule frames_bindE, rule frames_requireOpenish, rule frames_bindE, rule frames_throwIf, rule frames_bindE,
      rule frames_verifyAs, simp, rule frames_milestone)
    (intro frames_rules; use assms in simp)

section \<open>Closed escrows\<close>

definition closed :: "escrow_record \<Rightarrow> bool" where
  "closed r \<longleftrightarrow> nonActionable (e_state r) \<and> e_state r \<noteq> EDisputed"

fun targetOf :: "escrow_op \<Rightarrow> string" where
  "targetOf (OpOpen i) = escrow_id i"
| "targetOf (OpDeliver e i) = e"
| "targetOf (OpAccept e i) = e"
| "targetOf (OpDispute e i) = e"
| "targetOf (OpExpire e) = e"
| "targetOf (OpResolve e i) = e"

abbreviation recordView :: "string \<Rightarrow> (string, escrow_record) jsmap \<Rightarrow> escrow_record option" where
  "recordView eid \<equiv> \<lambda>es. mapGet es eid"

lemma blindView_other: "eid \<noteq> e0 \<Longrightarrow> blindView (recordView e0) eid mid"
  by (simp add: blindView_def blindTo_def)

lemma frames_holdMilestones [frames_rules]:
  "(\<And>w s. f (w\<lparr>wal := s\<rparr>) = f w) \<Longrightarrow> frames f (holdMilestones E now c ms ids)"
  by (induction ms arbitrary: ids) (auto simp del: ret_app intro!: frames_rules)

lemma frames_holdStake [frames_rules]: "(\<And>w s. f (w\<lparr>wal := s\<rparr>) = f w) \<Longrightarrow> frames f (holdStake E now c)"
  unfolding holdStake_def Let_def by (intro frames_rules)

lemma frames_lockFunds_other: "escrow_id c \<noteq> e0 \<Longrightarrow> frames (escrowView (recordView e0)) (lockFunds E now c)"
  unfolding lockFunds_def putEscrow_def by (intro frames_rules; simp add: escrowView_def openRecord_def)

lemma frames_milestonesSumToTotal [frames_rules]: "frames f (milestonesSumToTotal E c)"
  unfolding milestonesSumToTotal_def by (intro frames_rules) (simp add: frames_def keeps_sumAmounts)

lemma frames_openEscrow_other: "escrow_id i \<noteq> e0 \<Longrightarrow> frames (escrowView (recordView e0)) (openEscrow E cfg now i)"
  unfolding openEscrow_def Let_def verifyContractSig_def parkOrDeny_def
  by (intro frames_rules frames_lockFunds_other; simp)

lemma frames_refundRemaining [frames_rules]:
  "(\<And>mid. blindView g eid mid) \<Longrightarrow> frames (escrowView g) (refundRemainingPending E cfg now eid c x)"
  unfolding refundRemainingPending_def by (intro frames_rules; (assumption | simp))

lemma frames_settleDispute [frames_rules]:
  "(\<And>mid. blindView g eid mid) \<Longrightarrow> frames (escrowView g) (settleDisputeEscalation E cfg now eid c esl u)"
  unfolding settleDisputeEscalation_def by (intro frames_rules; (assumption | simp))

lemma frames_settleTimeout [frames_rules]:
  "(\<And>mid. blindView g eid mid) \<Longrightarrow> frames (escrowView g) (settleTimeoutEscalation E cfg now eid c esl u)"
  unfolding settleTimeoutEscalation_def by (intro frames_rules; (assumption | simp))

lemma frames_runEscrow_other:
  assumes "targetOf op \<noteq> e0"
  shows "frames (escrowView (recordView e0)) (runEscrow E cfg now op)"
proof (cases op)
  case (OpOpen i)
  then show ?thesis using assms by (simp add: frames_openEscrow_other)
next
  case (OpDeliver e i)
  then have "e \<noteq> e0" using assms by simp
  then show ?thesis unfolding OpDeliver runEscrow.simps deliver_def
    by (intro frames_rules blindView_other; simp)
next
  case (OpAccept e i)
  then have "e \<noteq> e0" using assms by simp
  then show ?thesis unfolding OpAccept runEscrow.simps accept_def
    by (intro frames_rules blindView_other; simp)
next
  case (OpDispute e i)
  then have "e \<noteq> e0" using assms by simp
  then show ?thesis unfolding OpDispute runEscrow.simps by (intro frames_dispute blindView_other)
next
  case (OpExpire e)
  then have "e \<noteq> e0" using assms by simp
  then show ?thesis unfolding OpExpire runEscrow.simps onTimeout_def Let_def escalateTimeout_def
    by (intro frames_rules blindView_other; simp)
next
  case (OpResolve e i)
  then have "e \<noteq> e0" using assms by simp
  then show ?thesis unfolding OpResolve runEscrow.simps resolveEscalation_def Let_def
    by (intro frames_rules blindView_other; simp)
qed

lemma requireOpenish_closed: "mapGet (escrows w) eid = Some r \<Longrightarrow> nonActionable (e_state r) \<Longrightarrow>
    bindE (requireOpenish eid) k w = (Inl ConflictError, w)"
  by (simp add: requireOpenish_def exec_simps)

text \<open>Every call on a closed escrow throws and changes nothing at all.\<close>

lemma closed_refuses:
  assumes r: "mapGet (escrows w) eid = Some r" and c: "closed r" and op: "targetOf op = eid"
  shows "\<exists>e. runEscrow E cfg now op w = (Inl e, w)"
proof (cases op)
  case (OpOpen i)
  obtain b where b: "milestonesSumToTotal E (toContract i) w = (b, w)" using milestonesSumToTotal_pure by (metis prod.collapse)
  show ?thesis using openEscrow_door [OF b] r op OpOpen by simp
next
  case (OpResolve e i)
  then show ?thesis using r op c by (simp add: resolveEscalation_def Let_def exec_simps closed_def)
qed (use r c op in \<open>simp_all add: deliver_def accept_def dispute_def onTimeout_def requireOpenish_closed closed_def\<close>)

lemma closed_step:
  assumes r: "mapGet (escrows w) eid = Some r" and c: "closed r"
  shows "mapGet (escrows (snd (runEscrow E cfg now op w))) eid = Some r"
proof (cases "targetOf op = eid")
  case True
  then show ?thesis using closed_refuses [OF r c, of op E cfg now] r by auto
next
  case False
  show ?thesis using frames_eq [OF frames_runEscrow_other [OF False, of E cfg now], of w] r by (simp add: escrowView_def)
qed

lemma closed_final:
  "mapGet (escrows w) eid = Some r \<Longrightarrow> closed r \<Longrightarrow> mapGet (escrows (runEscrows E cfg ops w)) eid = Some r"
  by (induction E cfg ops w rule: runEscrows.induct) (simp_all add: closed_step)

section \<open>Milestone states after a settlement\<close>

definition stateView :: "string \<Rightarrow> string \<Rightarrow> (string, escrow_record) jsmap \<Rightarrow> milestone_state option" where
  "stateView eid k es = (case mapGet es eid of None \<Rightarrow> None | Some r \<Rightarrow> map_option rt_state (mapGet (runtimes r) k))"

lemma blindView_state: "eid \<noteq> e0 \<or> mid \<noteq> k \<Longrightarrow> blindView (stateView e0 k) eid mid"
  by (auto simp: blindView_def blindTo_def stateView_def split: option.split)

lemma blindView_state_fresh: "blindView (stateView eid k) eid (CHR ''x'' # k)"
  by (rule blindView_state) simp

lemma frames_stake_state: "frames (escrowView (stateView eid k)) (maybeReleaseStake E eid)"
  by (rule frames_maybeReleaseStake [OF blindView_state_fresh])

lemma stateView_upd: "stateView eid k (escrows w) \<noteq> None \<Longrightarrow>
    stateView eid k (escrows (snd (updRuntime eid k (withState Y) w))) = Some Y"
  by (auto simp: stateView_def updRuntime_app split: option.splits)

text \<open>After the state is set, only books are kept.\<close>

lemma settled_then:
  assumes run: "bindE (inWallet p) (\<lambda>_. bindE (updRuntime eid k (withState Y)) (\<lambda>_. rest)) w = (Inr u, w')"
    and fr: "frames (escrowView (stateView eid k)) rest" and some: "stateView eid k (escrows w) \<noteq> None"
  shows "stateView eid k (escrows w') = Some Y"
proof -
  obtain y st where p: "p (wal w) = (y, st)" by (metis prod.collapse)
  let ?w1 = "w\<lparr>wal := st\<rparr>" and ?w2 = "snd (updRuntime eid k (withState Y) (w\<lparr>wal := st\<rparr>))"
  have "rest ?w2 = (Inr u, w')"
    using run p by (cases y) (simp_all add: bindE_app inWallet_app updRuntime_app)
  then have "stateView eid k (escrows w') = stateView eid k (escrows ?w2)"
    using frames_out [OF fr, of ?w2] by (simp add: escrowView_def)
  then show ?thesis using stateView_upd [of eid k ?w1 Y] some by simp
qed

lemma capture_marks:
  assumes run: "captureMilestone E cfg now eid m oc w = (Inr u, w')"
    and s: "stateView eid (ms_id m) (escrows w) \<noteq> Some MAccepted"
  shows "stateView eid (ms_id m) (escrows w') = Some MReleased"
proof -
  obtain r h rt where r: "mapGet (escrows w) eid = Some r" "mapGet (milestoneHoldIds r) (ms_id m) = Some h"
    "mapGet (runtimes r) (ms_id m) = Some rt"
    using run by (auto simp: captureMilestone_def bindE_app [of "recordAt _"] bindE_app [of "orThrow _ _"]
        bindE_app [of "runtimeOf _ _"] recordAt_app orThrow_app runtimeOf_app split: option.splits)
  show ?thesis
  proof (cases "rt_state rt = MReleased")
    case True
    then have "w' = w" using run r by (simp add: captureMilestone_def bindE_app recordAt_app orThrow_app runtimeOf_app)
    then show ?thesis using r True by (simp add: stateView_def)
  next
    case False
    have na: "rt_state rt \<noteq> MAccepted" using s r by (auto simp: stateView_def)
    have "bindE (inWallet (capture E h (es_payee (contract r)))) (\<lambda>_.
       bindE (updRuntime eid (ms_id m) (withState MReleased)) (\<lambda>_.
       bindE (inWallet (recordSpend E now (es_payer (contract r)) (milestoneMoney (contract r) m))) (\<lambda>_.
       bindE (issueMilestoneReceipt E cfg now eid m oc) (\<lambda>_. maybeReleaseStake E eid)))) w = (Inr u, w')"
      using run r False na by (simp add: captureMilestone_def bindE_app [of "recordAt _"] bindE_app [of "orThrow _ _"]
        bindE_app [of "runtimeOf _ _"] recordAt_app orThrow_app runtimeOf_app)
    then show ?thesis
    proof (rule settled_then)
      show "stateView eid (ms_id m) (escrows w) \<noteq> None" using r by (simp add: stateView_def)
    qed (intro frames_stake_state frames_rules; simp)
  qed
qed

lemma refund_marks:
  assumes run: "refundMilestone E cfg now eid m oc w = (Inr u, w')"
  shows "stateView eid (ms_id m) (escrows w') = Some MRefunded"
proof -
  obtain r h rt where r: "mapGet (escrows w) eid = Some r" "mapGet (milestoneHoldIds r) (ms_id m) = Some h"
    "mapGet (runtimes r) (ms_id m) = Some rt"
    using run by (auto simp: refundMilestone_def bindE_app [of "recordAt _"] bindE_app [of "orThrow _ _"]
        bindE_app [of "runtimeOf _ _"] recordAt_app orThrow_app runtimeOf_app split: option.splits)
  show ?thesis
  proof (cases "rt_state rt = MRefunded")
    case True
    then have "w' = w" using run r by (simp add: refundMilestone_def bindE_app recordAt_app orThrow_app runtimeOf_app)
    then show ?thesis using r True by (simp add: stateView_def)
  next
    case False
    have "bindE (inWallet (release E h)) (\<lambda>_.
       bindE (updRuntime eid (ms_id m) (withState MRefunded)) (\<lambda>_.
       bindE (issueMilestoneReceipt E cfg now eid m oc) (\<lambda>_. maybeReleaseStake E eid))) w = (Inr u, w')"
      using run r False by (simp add: refundMilestone_def bindE_app [of "recordAt _"] bindE_app [of "orThrow _ _"]
        bindE_app [of "runtimeOf _ _"] recordAt_app orThrow_app runtimeOf_app)
    then show ?thesis
    proof (rule settled_then)
      show "stateView eid (ms_id m) (escrows w) \<noteq> None" using r by (simp add: stateView_def)
    qed (intro frames_stake_state frames_rules; simp)
  qed
qed

text \<open>The state of a milestone tells where its funds are.\<close>

lemma state_funds:
  assumes ok: "escrow_ok E w" and r: "mapGet (escrows w) eid = Some r" and m: "m \<in> set (milestones (contract r))"
    and u: "uniqueIds (contract r)"
    and s: "stateView eid (ms_id m) (escrows w) = Some s" "s = MReleased \<and> x = Captured \<or> s = MRefunded \<and> x = Released \<or>
       s = MPending \<and> x = Active"
  shows "milestoneFunds E (wal w) r x m = bv E (ms_amount m)"
proof -
  have "milestoneHeld (wal w) r m" using escrow_okD(4) [OF ok r] m by (simp add: record_ok_def)
  then obtain i h and rt :: milestone_runtime where h: "mapGet (milestoneHoldIds r) (ms_id m) = Some i"
    "mapGet (holds (wal w)) i = Some h" "h_did h = es_payer (contract r)" "h_currency h = currency (es_amount (contract r))"
    "h_amount h = ms_amount m" "holdFits (rt_state rt) (h_state h)" "mapGet (runtimes r) (ms_id m) = Some rt"
    using u by (auto simp: milestoneHeld_def)
  then have "rt_state rt = s" using s(1) r by (simp add: stateView_def)
  then have "h_state h = x" using h(6) s(2) by (cases "h_state h") auto
  then show ?thesis using h by (simp add: milestoneFunds_def)
qed

section \<open>Delivery against a checksum\<close>

lemma recompute_state: "frames (escrowView (stateView eid k)) (recomputeEscrowState eid)"
  by (rule frames_recompute [OF blindView_state_fresh])

lemma recompute_effect:
  assumes r: "mapGet (escrows w) eid = Some r" and run: "recomputeEscrowState eid w = (Inr u, w')"
  obtains s where "mapGet (escrows w') eid = Some (r\<lparr>e_state := s\<rparr>)" "s = e_state r \<or> s = EResolved \<or> s = EReleased"
proof -
  obtain y where y: "runtimesOf (runtimes r) (milestones (contract r)) w = (y, w)"
    using runtimesOf_pure by (metis prod.collapse)
  obtain rts where rts: "y = Inr rts" using run r y by (cases y) (auto simp: recomputeEscrowState_def bindE_app recordAt_app)
  let ?states = "map (rt_state \<circ> snd) rts"
  have "snd (recomputeEscrowState eid w) =
      (if list_all (\<lambda>s. s = MReleased) ?states then w\<lparr>escrows := AList.map_entry eid (\<lambda>r. r\<lparr>e_state := EReleased\<rparr>) (escrows w)\<rparr>
       else if list_all settledState ?states then w\<lparr>escrows := AList.map_entry eid
          (\<lambda>r. r\<lparr>e_state := if list_ex (\<lambda>s. s = MRefunded) ?states then EResolved else EReleased\<rparr>) (escrows w)\<rparr>
       else w)"
    using r y rts by (simp add: recomputeEscrowState_def bindE_app recordAt_app Let_def updEscrow_app)
  then have w': "w' = \<dots>" using run by simp
  consider (rel) "list_all (\<lambda>s. s = MReleased) ?states" | (settled) "\<not> list_all (\<lambda>s. s = MReleased) ?states" "list_all settledState ?states"
    | (none) "\<not> list_all (\<lambda>s. s = MReleased) ?states" "\<not> list_all settledState ?states" by blast
  then show ?thesis
  proof cases
    case rel
    then show ?thesis using that [of EReleased] r unfolding w' by simp
  next
    case settled
    then show ?thesis
      using that [of "if list_ex (\<lambda>s. s = MRefunded) ?states then EResolved else EReleased"] r unfolding w' by simp
  next
    case none
    then show ?thesis using that [of "e_state r"] r unfolding w' by simp
  qed
qed

text \<open>A delivery taken apart: the state before the decision, the settlement, and the books after it.\<close>

lemma deliver_parts:
  assumes r: "mapGet (escrows w) eid = Some r" "find (\<lambda>m. ms_id m = dl_milestone input) (milestones (contract r)) = Some m"
    and a: "acc_type (acceptance m) = Checksum" "expected (acceptance m) = Some x" "x \<noteq> []"
    and rt: "mapGet (runtimes r) (dl_milestone input) = Some rt" "rt_state rt \<noteq> MReleased" "rt_state rt \<noteq> MAccepted"
    and run: "deliver E cfg now eid input w = (Inr res, w')"
  obtains w2 w3 u r2 rt2 where "wal w2 = wal w" "mapGet (escrows w2) eid = Some r2" "contract r2 = contract r"
    "milestoneHoldIds r2 = milestoneHoldIds r" "stakeHoldId r2 = stakeHoldId r"
    "mapGet (runtimes r2) (ms_id m) = Some rt2" "rt_state rt2 = MDelivered"
    "(if dl_resultHash input = x then captureMilestone E cfg now eid m Delivered
       else refundMilestone E cfg now eid m Refunded) w2 = (Inr u, w3)"
    "bindE (recomputeEscrowState eid) (\<lambda>_. toPublic eid) w3 = (Inr res, w')"
proof -
  have mid: "ms_id m = dl_milestone input" using r(2) by (auto simp: find_Some_iff)
  let ?f = "\<lambda>rt. rt\<lparr>resultHash := Some (dl_resultHash input), resultSchemaRef := dl_schemaRef input,
       deliveredAt := Some (isoOf E now), rt_state := MDelivered\<rparr>"
  let ?act = "if dl_resultHash input = x then captureMilestone E cfg now eid m Delivered
       else refundMilestone E cfg now eid m Refunded"
  obtain v w1 where v: "verifyAs E now (escSkew cfg) (deliverObj input) (sigOpts (es_payee (contract r))) w = (v, w1)"
    by (metis prod.collapse)
  have es: "escrows w1 = escrows w" "wal w1 = wal w" using verifyAs_quiet(1) [OF v] by (simp_all add: settled_parts_def)
  let ?w2 = "w1\<lparr>escrows := AList.map_entry eid (\<lambda>r. r\<lparr>runtimes := AList.map_entry (dl_milestone input) ?f (runtimes r)\<rparr>) (escrows w1)\<rparr>"
  have op: "requireOpenish eid w = (Inr r, w)"
    using run r(1) by (auto simp: deliver_def requireOpenish_def exec_simps split: if_splits)
  have rm: "requireMilestone (contract r) (dl_milestone input) w1 = (Inr m, w1)"
    using r(2) by (simp add: requireMilestone_def orThrow_app)
  have ob: "objectivePass (acceptance m) (dl_resultHash input) = (if dl_resultHash input = x then Pass else Fail)"
    using a by (simp add: objectivePass_def)
  have "bindE ?act (\<lambda>_. bindE (recomputeEscrowState eid) (\<lambda>_. toPublic eid)) ?w2 = (Inr res, w')"
    using run op v rm r(1) rt a es ob
    by (cases v)
      (simp_all add: deliver_def bindE_app [of "requireOpenish _"] bindE_app [of "throwIf _ _"] bindE_app [of "verifyAs _ _ _ _ _"]
        bindE_app [of "requireMilestone _ _"] bindE_app [of "runtimeOf _ _"] bindE_app [of "updRuntime _ _ _"]
        throwIf_app runtimeOf_app updRuntime_app split: if_splits)
  then obtain u w3 where act: "?act ?w2 = (Inr u, w3)"
    and rest: "bindE (recomputeEscrowState eid) (\<lambda>_. toPublic eid) w3 = (Inr res, w')"
    by (rule bindE_InrE)
  let ?r2 = "r\<lparr>runtimes := AList.map_entry (dl_milestone input) ?f (runtimes r)\<rparr>"
  show ?thesis by (rule that [of ?w2 ?r2 "?f rt", OF _ _ _ _ _ _ _ act rest]) (use es r(1) rt(1) mid in simp_all)
qed

lemma deliver_settles:
  assumes r: "mapGet (escrows w) eid = Some r" "find (\<lambda>m. ms_id m = dl_milestone input) (milestones (contract r)) = Some m"
    and a: "acc_type (acceptance m) = Checksum" "expected (acceptance m) = Some x" "x \<noteq> []"
    and rt: "mapGet (runtimes r) (dl_milestone input) = Some rt" "rt_state rt \<noteq> MReleased" "rt_state rt \<noteq> MAccepted"
    and run: "deliver E cfg now eid input w = (Inr res, w')"
  shows "stateView eid (ms_id m) (escrows w') = Some (if dl_resultHash input = x then MReleased else MRefunded)"
proof (rule deliver_parts [OF assms])
  fix w2 :: "'a escrow_world_scheme" and w3 u r2 rt2
  assume r2: "mapGet (escrows w2) eid = Some r2" "mapGet (runtimes r2) (ms_id m) = Some rt2" "rt_state rt2 = MDelivered"
    and act: "(if dl_resultHash input = x then captureMilestone E cfg now eid m Delivered
       else refundMilestone E cfg now eid m Refunded) w2 = (Inr u, w3)"
    and rest: "bindE (recomputeEscrowState eid) (\<lambda>_. toPublic eid) w3 = (Inr res, w')"
  have s2: "stateView eid (ms_id m) (escrows w2) = Some MDelivered" using r2 by (simp add: stateView_def)
  have s3: "stateView eid (ms_id m) (escrows w3) = Some (if dl_resultHash input = x then MReleased else MRefunded)"
  proof (cases "dl_resultHash input = x")
    case True
    then have "captureMilestone E cfg now eid m Delivered w2 = (Inr u, w3)" using act by simp
    from capture_marks [OF this] s2 True show ?thesis by simp
  next
    case False
    then have "refundMilestone E cfg now eid m Refunded w2 = (Inr u, w3)" using act by simp
    from refund_marks [OF this] False show ?thesis by simp
  qed
  have "frames (escrowView (stateView eid (ms_id m))) (bindE (recomputeEscrowState eid) (\<lambda>_. toPublic eid))"
    by (intro frames_bindE recompute_state frames_toPublic)
  from frames_out [OF this rest] s3 show ?thesis by (simp add: escrowView_def)
qed

text \<open>
  What the settlement of one milestone moves: its own hold, and the provider's stake when that comes back
  because no milestone is left.
\<close>

definition stakeBack :: "ext \<Rightarrow> wallet_st \<Rightarrow> escrow_record \<Rightarrow> escrow_record \<Rightarrow> string \<Rightarrow> rat" where
  "stakeBack E st r r' k =
     (case stakeHoldId r of
        None \<Rightarrow> 0
      | Some i \<Rightarrow>
          (if stakeHoldId r' \<noteq> None then 0
           else (case mapGet (holds st) i of None \<Rightarrow> 0 | Some h \<Rightarrow> bump (holdKey h) (bv E (h_amount h)) k)))"

definition movesTo :: "ext \<Rightarrow> wallet_st \<Rightarrow> wallet_st \<Rightarrow> string \<Rightarrow> string \<Rightarrow> rat \<Rightarrow> (string \<Rightarrow> rat) \<Rightarrow> bool" where
  "movesTo E st st' src dst v back \<longleftrightarrow> (\<forall>k.
     availAt E (rows st') k = availAt E (rows st) k + (if k = dst then v else 0) + back k \<and>
     heldAt E (rows st') k = heldAt E (rows st) k - (if k = src then v else 0) - back k)"

lemma movesTo_wmove: "wmove E st st' (bump dst v) (bump src (- v)) \<Longrightarrow> movesTo E st st' src dst v (\<lambda>_. 0)"
  using wmoveD(4,5) [of E st st' "bump dst v" "bump src (- v)"] by (simp add: movesTo_def bump_def)

lemma movesTo_then: "movesTo E st st1 src dst v (\<lambda>_. 0) \<Longrightarrow> rows st2 = rows st1 \<Longrightarrow> movesTo E st2 st3 k k 0 back \<Longrightarrow>
    movesTo E st st3 src dst v back"
  by (simp add: movesTo_def)

lemma stake_moves:
  assumes ok: "wallet_ok E (wal w)" and r: "mapGet (escrows w) eid = Some r" and run: "maybeReleaseStake E eid w = (Inr u, w')"
  obtains r' where "mapGet (escrows w') eid = Some r'" "movesTo E (wal w) (wal w') k k 0 (stakeBack E (wal w) r r')"
proof (cases "stakeHoldId r")
  case None
  then have "w' = w" using run r by (simp add: maybeReleaseStake_def bindE_app recordAt_app)
  then show ?thesis using that [of r] r None by (simp add: movesTo_def stakeBack_def)
next
  case (Some i)
  obtain y where y: "runtimesOf (runtimes r) (milestones (contract r)) w = (y, w)" using runtimesOf_pure by (metis prod.collapse)
  obtain rts where rts: "y = Inr rts"
    using run r y Some by (cases y) (simp_all add: maybeReleaseStake_def bindE_app recordAt_app)
  show ?thesis
  proof (cases "list_all (settledState \<circ> rt_state \<circ> snd) rts")
    case False
    then have "w' = w" using run r y rts Some by (simp add: maybeReleaseStake_def bindE_app recordAt_app)
    then show ?thesis using that [of r] r Some by (simp add: movesTo_def stakeBack_def)
  next
    case True
    then have rel: "bindE (inWallet (release E i)) (\<lambda>_. updEscrow eid (\<lambda>r. r\<lparr>stakeHoldId := None\<rparr>)) w = (Inr u, w')"
      using run r y rts Some by (simp add: maybeReleaseStake_def bindE_app [of "recordAt _"] bindE_app [of "runtimesOf _ _"] recordAt_app)
    show ?thesis
    proof (cases rule: release_out [OF ok, of i])
      case (1 e)
      then show ?thesis using rel by (simp add: bindE_app inWallet_app)
    next
      case (2 h st)
      have w': "w' = w\<lparr>wal := st, escrows := AList.map_entry eid (\<lambda>r. r\<lparr>stakeHoldId := None\<rparr>) (escrows w)\<rparr>"
        using rel 2(1) by (simp add: bindE_app inWallet_app updEscrow_app)
      show ?thesis
        by (rule that [of "r\<lparr>stakeHoldId := None\<rparr>"])
          (use r Some 2(2) wmoveD(4,5) [OF 2(5)] in \<open>simp_all add: w' movesTo_def stakeBack_def bump_neg\<close>)
    qed
  qed
qed

definition walletBooks :: "'a escrow_world_scheme \<Rightarrow>
    (string, wallet_row) jsmap \<times> (string, hold_row) jsmap \<times> nat" where
  "walletBooks w = (rows (wal w), holds (wal w), drawn (wal w))"

lemma frames_books [frames_rules]:
  "frames walletBooks (inWallet (recordSpend E now d m))" "frames walletBooks (issueMilestoneReceipt E cfg now eid ms oc)"
proof -
  show "frames walletBooks (inWallet (recordSpend E now d m))"
    unfolding frames_def by (intro allI keepsI)
      (auto simp: walletBooks_def inWallet_app recordSpend_keeps_rows split: prod.split dest: arg_cong [where f = snd])
  show "frames walletBooks (issueMilestoneReceipt E cfg now eid ms oc)"
    unfolding issueMilestoneReceipt_def Let_def newReceiptId_def by (intro frames_rules; simp add: walletBooks_def)
qed

lemma settle_moves:
  assumes p: "p (wal w) = (Inr (), st)" "wmove E (wal w) st (bump dst v) (bump src (- v))" "resolvedTo X i (wal w) st"
    and r: "mapGet (escrows w) eid = Some r" "stakeHoldId r \<noteq> Some i"
    and run: "bindE (inWallet p) (\<lambda>_. bindE (updRuntime eid mid f) (\<lambda>_. bindE books (\<lambda>_. maybeReleaseStake E eid))) w = (Inr u, w')"
    and fr: "frames walletBooks books" "frames (escrowView (recordView eid)) books"
  obtains r' where "mapGet (escrows w') eid = Some r'" "movesTo E (wal w) (wal w') src dst v (stakeBack E (wal w) r r')"
proof -
  let ?r2 = "r\<lparr>runtimes := AList.map_entry mid f (runtimes r)\<rparr>"
  let ?w2 = "w\<lparr>wal := st, escrows := AList.map_entry eid (\<lambda>r. r\<lparr>runtimes := AList.map_entry mid f (runtimes r)\<rparr>) (escrows w)\<rparr>"
  have "bindE books (\<lambda>_. maybeReleaseStake E eid) ?w2 = (Inr u, w')"
    using run p(1) by (simp add: bindE_app [of "inWallet _"] bindE_app [of "updRuntime _ _ _"] inWallet_app updRuntime_app)
  then obtain y w3 where w3: "books ?w2 = (Inr y, w3)" "maybeReleaseStake E eid w3 = (Inr u, w')" by (rule bindE_InrE)
  have b: "rows (wal w3) = rows st" "holds (wal w3) = holds st" "drawn (wal w3) = drawn st"
    using frames_out [OF fr(1) w3(1)] by (simp_all add: walletBooks_def)
  have r3: "mapGet (escrows w3) eid = Some ?r2" using frames_out [OF fr(2) w3(1)] r(1) by (simp add: escrowView_def)
  have ok: "wallet_ok E (wal w3)" using wmoveD(1) [OF p(2)] wallet_ok_cong [OF b] by simp
  obtain r' where r': "mapGet (escrows w') eid = Some r'"
    "movesTo E (wal w3) (wal w') src src 0 (stakeBack E (wal w3) ?r2 r')"
    by (rule stake_moves [OF ok r3 w3(2)])
  have "stakeBack E (wal w3) ?r2 r' = stakeBack E (wal w) r r'"
  proof (rule HOL.ext)
    fix k
    have "mapGet (holds (wal w3)) j = mapGet (holds (wal w)) j" if "stakeHoldId r = Some j" for j
      using resolvedTo_other [OF p(3), of j] r(2) that b(2) by auto
    then show "stakeBack E (wal w3) ?r2 r' k = stakeBack E (wal w) r r' k"
      by (cases "stakeHoldId r") (simp_all add: stakeBack_def)
  qed
  then show ?thesis using that [OF r'(1)] movesTo_then [OF movesTo_wmove [OF p(2)] b(1)] r'(2) by simp
qed

lemma capture_moves:
  assumes ok: "wallet_ok E (wal w)" and r: "mapGet (escrows w) eid = Some r" "mapGet (milestoneHoldIds r) (ms_id m) = Some i"
      "mapGet (runtimes r) (ms_id m) = Some rt" "rt_state rt = MDelivered" "stakeHoldId r \<noteq> Some i"
    and h: "mapGet (holds (wal w)) i = Some h" and run: "captureMilestone E cfg now eid m oc w = (Inr u, w')"
  obtains r' where "mapGet (escrows w') eid = Some r'" "movesTo E (wal w) (wal w') (holdKey h)
     (walletKey (es_payee (contract r)) (h_currency h)) (bv E (h_amount h)) (stakeBack E (wal w) r r')"
proof -
  let ?p = "capture E i (es_payee (contract r))"
  have run': "bindE (inWallet ?p) (\<lambda>_. bindE (updRuntime eid (ms_id m) (withState MReleased)) (\<lambda>_.
      bindE (bindE (inWallet (recordSpend E now (es_payer (contract r)) (milestoneMoney (contract r) m)))
        (\<lambda>_. issueMilestoneReceipt E cfg now eid m oc)) (\<lambda>_. maybeReleaseStake E eid))) w = (Inr u, w')"
    using run r by (simp add: captureMilestone_def bindE_app [of "recordAt _"] bindE_app [of "orThrow _ _"]
        bindE_app [of "runtimeOf _ _"] recordAt_app orThrow_app runtimeOf_app bindE_assoc)
  show ?thesis
  proof (cases rule: capture_out [OF ok, of i "es_payee (contract r)"])
    case (1 e)
    then show ?thesis using run' by (simp add: bindE_app [of "inWallet _"] inWallet_app)
  next
    case (2 h' st)
    have eq: "h' = h" using 2(2) h by simp
    obtain r' where "mapGet (escrows w') eid = Some r'" "movesTo E (wal w) (wal w') (holdKey h')
       (walletKey (es_payee (contract r)) (h_currency h')) (bv E (h_amount h')) (stakeBack E (wal w) r r')"
      by (rule settle_moves [OF 2(1,5,4) r(1,5) run']) (intro frames_rules; simp)+
    then show ?thesis using that eq by simp
  qed
qed

lemma refund_moves:
  assumes ok: "wallet_ok E (wal w)" and r: "mapGet (escrows w) eid = Some r" "mapGet (milestoneHoldIds r) (ms_id m) = Some i"
      "mapGet (runtimes r) (ms_id m) = Some rt" "rt_state rt = MDelivered" "stakeHoldId r \<noteq> Some i"
    and h: "mapGet (holds (wal w)) i = Some h" and run: "refundMilestone E cfg now eid m oc w = (Inr u, w')"
  obtains r' where "mapGet (escrows w') eid = Some r'"
    "movesTo E (wal w) (wal w') (holdKey h) (holdKey h) (bv E (h_amount h)) (stakeBack E (wal w) r r')"
proof -
  have run': "bindE (inWallet (release E i)) (\<lambda>_. bindE (updRuntime eid (ms_id m) (withState MRefunded)) (\<lambda>_.
      bindE (issueMilestoneReceipt E cfg now eid m oc) (\<lambda>_. maybeReleaseStake E eid))) w = (Inr u, w')"
    using run r by (simp add: refundMilestone_def bindE_app [of "recordAt _"] bindE_app [of "orThrow _ _"]
        bindE_app [of "runtimeOf _ _"] recordAt_app orThrow_app runtimeOf_app)
  show ?thesis
  proof (cases rule: release_out [OF ok, of i])
    case (1 e)
    then show ?thesis using run' by (simp add: bindE_app [of "inWallet _"] inWallet_app)
  next
    case (2 h' st)
    have eq: "h' = h" using 2(2) h by simp
    obtain r' where "mapGet (escrows w') eid = Some r'"
      "movesTo E (wal w) (wal w') (holdKey h') (holdKey h') (bv E (h_amount h')) (stakeBack E (wal w) r r')"
      by (rule settle_moves [OF 2(1,5,4) r(1,5) run']) (intro frames_rules; simp)+
    then show ?thesis using that eq by simp
  qed
qed

text \<open>The books after the settlement touch no account and not the stake.\<close>

lemma books_same:
  assumes r: "mapGet (escrows w) eid = Some r" and run: "bindE (recomputeEscrowState eid) (\<lambda>_. toPublic eid) w = (Inr res, w')"
  obtains s where "mapGet (escrows w') eid = Some (r\<lparr>e_state := s\<rparr>)" "wal w' = wal w"
proof -
  obtain u w1 where w1: "recomputeEscrowState eid w = (Inr u, w1)" "toPublic eid w1 = (Inr res, w')"
    using run by (rule bindE_InrE)
  have fr: "frames wal (recomputeEscrowState eid)"
    unfolding recomputeEscrowState_def Let_def by (intro frames_rules frames_updEscrow_other; simp)
  have "wal w1 = wal w" by (rule frames_out [OF fr w1(1)])
  moreover have "w' = w1" by (rule frames_out [OF frames_toPublic w1(2), where f = "\<lambda>w. w"])
  ultimately show ?thesis using recompute_effect [OF r w1(1)] that by metis
qed

definition payerKey :: "escrow_contract \<Rightarrow> string" where
  "payerKey c = walletKey (es_payer c) (currency (es_amount c))"

lemma deliver_moves:
  assumes ok: "escrow_ok E w" and r: "mapGet (escrows w) eid = Some r" and u: "uniqueIds (contract r)"
    and fd: "find (\<lambda>m. ms_id m = dl_milestone input) (milestones (contract r)) = Some m"
    and a: "acc_type (acceptance m) = Checksum" "expected (acceptance m) = Some x" "x \<noteq> []"
    and rt: "mapGet (runtimes r) (dl_milestone input) = Some rt" "rt_state rt \<noteq> MReleased" "rt_state rt \<noteq> MAccepted"
    and run: "deliver E cfg now eid input w = (Inr res, w')"
  obtains r' where "mapGet (escrows w') eid = Some r'" "movesTo E (wal w) (wal w') (payerKey (contract r))
      (if dl_resultHash input = x then payeeKey (contract r) else payerKey (contract r)) (bv E (ms_amount m))
      (stakeBack E (wal w) r r')"
proof -
  have m: "m \<in> set (milestones (contract r))" using fd by (auto simp: find_Some_iff)
  have rok: "record_ok E (wal w) r" by (rule escrow_okD(4) [OF ok r])
  then have "milestoneHeld (wal w) r m" using m by (simp add: record_ok_def)
  then obtain i h where h: "mapGet (milestoneHoldIds r) (ms_id m) = Some i" "mapGet (holds (wal w)) i = Some h"
    "h_did h = es_payer (contract r)" "h_currency h = currency (es_amount (contract r))" "h_amount h = ms_amount m"
    using u by (auto simp: milestoneHeld_def)
  have st: "stakeHoldId r \<noteq> Some i" using rok ranI [of "mapGet (milestoneHoldIds r)", OF h(1)]
    by (auto simp: record_ok_def separateRefs_def)
  have wok: "wallet_ok E (wal w)" by (rule escrow_okD(2) [OF ok])
  show ?thesis
  proof (rule deliver_parts [OF r fd a rt run])
    fix w2 :: "'a escrow_world_scheme" and w3 uu r2 rt2
    assume w2: "wal w2 = wal w" "mapGet (escrows w2) eid = Some r2" "contract r2 = contract r"
        "milestoneHoldIds r2 = milestoneHoldIds r" "stakeHoldId r2 = stakeHoldId r"
        "mapGet (runtimes r2) (ms_id m) = Some rt2" "rt_state rt2 = MDelivered"
      and act: "(if dl_resultHash input = x then captureMilestone E cfg now eid m Delivered
         else refundMilestone E cfg now eid m Refunded) w2 = (Inr uu, w3)"
      and rest: "bindE (recomputeEscrowState eid) (\<lambda>_. toPublic eid) w3 = (Inr res, w')"
    have sb: "stakeBack E (wal w2) r2 r' = stakeBack E (wal w) r r'" for r'
      by (rule HOL.ext) (simp add: stakeBack_def w2)
    obtain r3 where r3: "mapGet (escrows w3) eid = Some r3" "movesTo E (wal w) (wal w3) (payerKey (contract r))
      (if dl_resultHash input = x then payeeKey (contract r) else payerKey (contract r)) (bv E (ms_amount m))
      (stakeBack E (wal w) r r3)"
    proof (cases "dl_resultHash input = x")
      case True
      then have c: "captureMilestone E cfg now eid m Delivered w2 = (Inr uu, w3)" using act by simp
      show ?thesis
        by (rule capture_moves [OF _ w2(2) _ w2(6,7) _ _ c, of i h]; (rule that, assumption)?)
          (use w2 wok h st True sb in \<open>simp_all add: payerKey_def payeeKey_def\<close>)
    next
      case False
      then have c: "refundMilestone E cfg now eid m Refunded w2 = (Inr uu, w3)" using act by simp
      show ?thesis
        by (rule refund_moves [OF _ w2(2) _ w2(6,7) _ _ c, of i h]; (rule that, assumption)?)
          (use w2 wok h st False sb in \<open>simp_all add: payerKey_def payeeKey_def\<close>)
    qed
    obtain s where s: "mapGet (escrows w') eid = Some (r3\<lparr>e_state := s\<rparr>)" "wal w' = wal w3" by (rule books_same [OF r3(1) rest])
    have "stakeBack E (wal w) r (r3\<lparr>e_state := s\<rparr>) = stakeBack E (wal w) r r3"
      by (cases "stakeHoldId r") (simp_all add: stakeBack_def fun_eq_iff)
    then show ?thesis using that [OF s(1)] r3(2) s(2) by simp
  qed
qed


section \<open>Opening\<close>

text \<open>What opening locks on an account: the total on the payer's, the slashable stake on the provider's.\<close>

definition openLocks :: "ext \<Rightarrow> open_input \<Rightarrow> string \<Rightarrow> rat" where
  "openLocks E i k = (if k = payerKey (toContract i) then bv E (amount (es_amount i)) else 0)
     + (if k = walletKey (es_payee i) (ps_currency (provider_stake i)) then stakeOf E (toContract i) else 0)"

text \<open>
  Claim C12. Opening locks exactly the total. A call that answers with the open escrow has
  moved the contract's total from the payer's available to its held funds and, when the contract
  declares the provider's stake slashable, that stake (when it is positive) from the provider's available to its held
  funds, and has changed no other balance. A stake that is not slashable is not taken.
\<close>

theorem open_locks_total:
  assumes "escrow_ok E w" "openEscrow E cfg now i w = (Inr (EscrowIs p), w')"
  shows "availAt E (rows (wal w')) k = availAt E (rows (wal w)) k - openLocks E i k \<and>
    heldAt E (rows (wal w')) k = heldAt E (rows (wal w)) k + openLocks E i k"
proof (cases rule: openEscrow_cases [OF assms(1), of cfg now i])
  case (1 x w1)
  then show ?thesis using assms(2) by auto
next
  case (2 w0 w1 t sg)
  note run = 2(1)
  have wal: "wal w1 = wal w" using 2(2) by (simp add: settled_parts_def)
  have new: "mapGet (escrows w1) (escrow_id (toContract i)) = None" using 2(4) by simp
  show ?thesis
  proof (cases rule: lockFunds_out [OF 2(3) new 2(5), of now])
    case (3 q ids stk st en)
    have w': "wal w' = st" using assms(2) run 3(1) by auto
    have "availAt E (rows st) k = availAt E (rows (wal w)) k - openLocks E i k"
      using 3(5) wal by (simp add: openLocks_def payerKey_def)
    moreover have "balanceAt E st k = balanceAt E (wal w) k" using 3(3) wal by (simp add: flat_def)
    ultimately show ?thesis using w' by (simp add: balanceAt_def)
  qed (use assms(2) run in auto)
qed

text \<open>What the evaluator checked of a commitment that it did not deny.\<close>

lemma commit_allowed:
  assumes ev: "evaluate E dl act us s = (Inr d, s')" and k: "a_kind act = KEscrow" and a: "a_amount act = Some a"
    and d: "\<And>rs. d \<noteq> Deny rs"
  shows "gateOpen (policy dl) act" "may_commit (escrow_pol (policy dl))"
    "currency a = currency (max_escrow (escrow_pol (policy dl)))"
    "bv E (amount a) \<le> bv E (amount (max_escrow (escrow_pol (policy dl))))"
    "overThreshold E (policy dl) a \<Longrightarrow> d \<noteq> Allow"
proof -
  let ?mx = "max_escrow (escrow_pol (policy dl))" and ?th = "require_human_approval_over (policy dl)"
  show g: "gateOpen (policy dl) act" using evaluate_gate [of dl act E us s] ev d by fastforce
  then have ev': "evaluateEscrow E dl act s = (Inr d, s')" using ev by (simp add: evaluate_open(2) [OF g k])
  show c: "may_commit (escrow_pol (policy dl))" "currency a = currency ?mx"
    using ev' a d by (auto simp: evaluateEscrow_def Let_def split: if_splits)
  obtain over s1 where o: "mGt E a ?mx s = (Inr over, s1)"
    using ev' a c by (cases "mGt E a ?mx s") (auto simp: evaluateEscrow_def Let_def bindE_app split: sum.splits)
  then obtain x y where xy: "bigVal E (amount a) = Some x" "bigVal E (amount ?mx) = Some y" "over = (y < x)" "s1 = s"
    by (rule mGt_InrE)
  have tail: "\<not> over" "approvalTail E a ?th s = (Inr d, s')"
    using ev' a c o xy(4) d by (auto simp: evaluateEscrow_def Let_def bindE_app split: if_splits)
  then show "bv E (amount a) \<le> bv E (amount ?mx)" using xy by simp
  show "d \<noteq> Allow" if over: "overThreshold E (policy dl) a"
  proof -
    have cur: "currency a = currency ?th" "bv E (amount ?th) < bv E (amount a)" using over by (simp_all add: overThreshold_def)
    obtain b s2 where b: "mGt E a ?th s = (Inr b, s2)"
      using tail(2) cur(1) by (cases "mGt E a ?th s") (auto simp: approvalTail_def bindE_app split: sum.splits)
    then obtain x' y' where "bigVal E (amount a) = Some x'" "bigVal E (amount ?th) = Some y'" "b = (y' < x')" by (rule mGt_InrE)
    then have b using cur(2) by simp
    then show ?thesis using tail(2) cur(1) b by (auto simp: approvalTail_def bindE_app)
  qed
qed

text \<open>What a signed commitment presupposes.\<close>

lemma commit_signed:
  assumes ok: "approvals_ok E (apr w)" and s: "signWithinPolicy E now d p act ap w = (Inr (Signed sg), w')"
    and act: "a_kind act = KEscrow" "a_amount act = Some a"
  shows "\<exists>dl pass k ks sk. activeDelegation E now d (idn w) = Some dl \<and>
      \<not> List.member (revokedDids (idn w)) d \<and> \<not> delegationIsExpired E dl (isoOf E now) \<and>
      gateOpen (policy dl) act \<and> may_commit (escrow_pol (policy dl)) \<and>
      currency a = currency (max_escrow (escrow_pol (policy dl))) \<and>
      bv E (amount a) \<le> bv E (amount (max_escrow (escrow_pol (policy dl)))) \<and>
      (overThreshold E (policy dl) a \<longrightarrow> approvalUsed E d act ap (apr w) (apr w')) \<and>
      mapGet (passports (idn w)) d = Some pass \<and> keys pass = k # ks \<and> mapGet (keystore (idn w)) (d @ key_id k) = Some sk \<and>
      signWithKey E (idn w) d p = Signed (signDetached E p sk (d @ key_id k))"
  using ok s
proof (rule signed_cases)
  fix dl u dec
  assume dl: "activeDelegation E now d (idn w) = Some dl" "\<not> List.member (revokedDids (idn w)) d"
      "\<not> delegationIsExpired E dl (isoOf E now)"
    and ev: "evaluate E dl act (usageTotals u) w = (Inr dec, w)"
    and dec: "dec = Allow \<and> w' = w \<or> (\<exists>t rs. dec = NeedsApproval t rs) \<and>
      approvalUsed E d act ap (apr w) (apr w') \<and> w' = w\<lparr>apr := apr w'\<rparr>"
    and sig: "signWithKey E (idn w) d p = Signed sg"
  have "\<And>rs. dec \<noteq> Deny rs" using dec by auto
  note allowed = commit_allowed [OF ev act this]
  show ?thesis using signWithKey_Signed [OF sig] sig dl allowed dec by blast
qed

text \<open>
  Claim C13. An escrow opens only with both signatures and the policy's consent: an answer with
  the open escrow means that the signature of the payer over the request and that of the payee over
  the contract verify against their registered keys; that the payer has an active delegation, neither revoked nor
  expired, whose policy admits the counterparty and escrow commitments and whose escrow
  cap is in the contract's currency and not below its total; that, when the total is over the
  human-approval threshold, an approval that was granted to the payer was presented and is used up by this call; and that the
  policy signer signed the contract with the private key that the keystore holds under the first key of the payer's passport.
\<close>

theorem open_needs_consent:
  assumes "escrow_ok E w" "openEscrow E cfg now i w = (Inr (EscrowIs p), w')"
  shows "(\<exists>pk sg. publicKeyFor (resolverOf E (idn w)) (es_payer i) None = Some pk \<and>
      field (openObj i) ''sig_payer'' = Some sg \<and>
      verifyDetached E (JObj (stripForSigning (openObj i) CONTRACT_OMIT)) sg pk) \<and>
    payeeSigned E i w \<and>
    (\<exists>dl pass k ks sk. activeDelegation E now (es_payer i) (idn w) = Some dl \<and>
      \<not> List.member (revokedDids (idn w)) (es_payer i) \<and> \<not> delegationIsExpired E dl (isoOf E now) \<and>
      gateOpen (policy dl) (commitAction (toContract i)) \<and> may_commit (escrow_pol (policy dl)) \<and>
      currency (es_amount i) = currency (max_escrow (escrow_pol (policy dl))) \<and>
      bv E (amount (es_amount i)) \<le> bv E (amount (max_escrow (escrow_pol (policy dl)))) \<and>
      (overThreshold E (policy dl) (es_amount i) \<longrightarrow>
         approvalUsed E (es_payer i) (commitAction (toContract i)) (oi_approval i) (apr w) (apr w')) \<and>
      mapGet (passports (idn w)) (es_payer i) = Some pass \<and> keys pass = k # ks \<and>
      mapGet (keystore (idn w)) (es_payer i @ key_id k) = Some sk \<and>
      signWithKey E (idn w) (es_payer i) (JObj (contractObj i)) =
        Signed (signDetached E (JObj (contractObj i)) sk (es_payer i @ key_id k)))"
proof (cases rule: openEscrow_cases [OF assms(1), of cfg now i])
  case (1 x w1)
  then have False using assms(2) by auto
  then show ?thesis ..
next
  case (2 w0 w1 t sg)
  note v = 2(8)
  let ?act = "commitAction (toContract i)"
  have idn: "idn w0 = idn w" using verifyAs_quiet(1) [OF v] by (simp add: settled_parts_def)
  have apr0: "apr w0 = apr w" by (rule frames_out [OF frames_verifyAs v]) simp
  have "frames apr (lockFunds E now (toContract i))"
    unfolding lockFunds_def putEscrow_def by (intro frames_rules; simp)
  then have apr1: "apr w' = apr w1" using frames_out [of apr _ w1] assms(2) 2(1) by metis
  have ok0: "escrow_ok E w0" using verifyAs_quiet(2) [OF v] assms(1) by simp
  obtain n where vo: "verifySignedObject E now (escSkew cfg) (resolverOf E (idn w)) (openObj i) (openOpts (toContract i)) (non w) = (Inr (), n)"
    using v by (auto simp: verifyAs_def zoom_app split: prod.splits)
  have "approvals_ok E (apr w0)" using escrow_okD(1) [OF ok0] by (simp add: core_ok_def)
  note consent = commit_signed [OF this 2(10), of "es_amount i", unfolded idn apr0, folded apr1]
  have "a_kind ?act = KEscrow" "a_amount ?act = Some (es_amount i)" by (simp_all add: commitAction_def)
  note consent = consent [OF this]
  have "\<exists>pk sg. publicKeyFor (resolverOf E (idn w)) (es_payer i) None = Some pk \<and> field (openObj i) ''sig_payer'' = Some sg \<and>
      verifyDetached E (JObj (stripForSigning (openObj i) CONTRACT_OMIT)) sg pk"
    using verify_signature [OF vo] by (auto simp: openOpts_def)
  then show ?thesis using 2(9) consent by (intro conjI)
qed

section \<open>Funds that stay locked\<close>

text \<open>A dispute that is not escalated leaves a closed record.\<close>

lemma yields_seq: "(\<And>x. yields (\<lambda>_. True) (k x) Q) \<Longrightarrow> yields (\<lambda>_. True) (bindE m k) Q"
  by (rule yields_bindE [of _ _ "\<lambda>_ _. True"]) (simp_all add: yields_def)

definition isClosed :: "string \<Rightarrow> escrow_mutation \<Rightarrow> 'a escrow_world_scheme \<Rightarrow> bool" where
  "isClosed eid x w \<longleftrightarrow> (\<forall>p. x = EscrowIs p \<longrightarrow> (\<exists>r. mapGet (escrows w) eid = Some r \<and> closed r))"

lemma resolved_isClosed:
  "yields (\<lambda>_. True) (bindE (updEscrow eid (\<lambda>r. r\<lparr>e_state := EResolved, e_disputer := None\<rparr>))
     (\<lambda>_. bindE (recomputeEscrowState eid) (\<lambda>_. toPublic eid))) (isClosed eid)"
  unfolding yields_def
proof (intro allI impI)
  fix w :: "'a escrow_world_scheme" and x w'
  let ?f = "\<lambda>r. r\<lparr>e_state := EResolved, e_disputer := None\<rparr>"
  let ?w1 = "w\<lparr>escrows := AList.map_entry eid ?f (escrows w)\<rparr>"
  assume "bindE (updEscrow eid ?f) (\<lambda>_. bindE (recomputeEscrowState eid) (\<lambda>_. toPublic eid)) w = (Inr x, w')"
  then have run: "bindE (recomputeEscrowState eid) (\<lambda>_. toPublic eid) ?w1 = (Inr x, w')"
    by (simp add: bindE_app [of "updEscrow _ _"] updEscrow_app)
  obtain r where r: "mapGet (escrows w) eid = Some r"
    using run by (cases "mapGet (escrows w) eid") (auto simp: recomputeEscrowState_def bindE_app recordAt_app)
  obtain u w2 where rc: "recomputeEscrowState eid ?w1 = (Inr u, w2)" and tp: "toPublic eid w2 = (Inr x, w')"
    using run by (rule bindE_InrE)
  have "w' = w2" by (rule frames_out [OF frames_toPublic tp, where f = "\<lambda>w. w"])
  moreover obtain s where "mapGet (escrows w2) eid = Some ((?f r)\<lparr>e_state := s\<rparr>)" "s = EResolved \<or> s = EReleased"
    by (rule recompute_effect [OF _ rc, of "?f r"]) (use r in auto)
  ultimately have "\<exists>s. nonActionable s \<and> s \<noteq> EDisputed \<and> mapGet (escrows w') eid = Some ((?f r)\<lparr>e_state := s\<rparr>)"
    by (auto simp: nonActionable_def)
  then show "isClosed eid x w'" by (auto simp: isClosed_def closed_def)
qed

lemma yields_throwIf: "yields (\<lambda>_. True) (throwIf b e) (\<lambda>_ _. True)"
  by (simp add: yields_def)

lemma dispute_isClosed: "yields (\<lambda>_. True) (dispute E cfg now eid i) (isClosed eid)"
proof -
  have esc: "yields (\<lambda>_. True) (escalateDispute E now eid m i) (isClosed eid)" for m
    unfolding escalateDispute_def Let_def by (intro yields_seq) (auto simp: yields_def isClosed_def)
  show ?thesis unfolding dispute_def Let_def
    by (intro yields_seq) (auto split: objective.split intro!: esc yields_seq [OF resolved_isClosed])
qed

text \<open>
  Claim C39. An objective dispute strands the rest of the escrow. When a dispute over one
  milestone is decided on the spot, the escrow is closed although other milestones may still be
  pending; the whole amount of such a milestone then stays locked for ever: no sequence of escrow calls,
  by anyone and at any time, pays it out or returns it.
\<close>

theorem objective_dispute_strands:
  assumes "escrow_ok E w" "shares_six E" "mapGet (escrows w) eid = Some r" "uniqueIds (contract r)"
    "m \<in> set (milestones (contract r))" "ms_id m \<noteq> dp_milestone input"
    "mapGet (runtimes r) (ms_id m) = Some rt" "rt_state rt = MPending"
    "dispute E cfg now eid input w = (Inr (EscrowIs p), w')"
  shows "\<exists>r'. mapGet (escrows (runEscrows E cfg ops w')) eid = Some r' \<and>
    milestoneFunds E (wal (runEscrows E cfg ops w')) r' Active m = bv E (ms_amount m)"
proof -
  have st: "estep E w w'" using dispute_step [OF assms(2), of w cfg now eid input] assms(9) by simp
  note ok' = estepD(1) [OF st assms(1)]
  obtain r' where r': "mapGet (escrows w') eid = Some r'" "closed r'"
    using dispute_isClosed [of E cfg now eid input] assms(9) unfolding yields_def isClosed_def by blast
  have c: "contract r' = contract r"
    using estepD(3) [OF st assms(1)] assms(3) r'(1) unfolding advances_def by fastforce
  have "stateView eid (ms_id m) (escrows w') = stateView eid (ms_id m) (escrows w)"
    using frames_out [OF frames_dispute [OF blindView_state] assms(9)] assms(6) by (simp add: escrowView_def)
  then have s: "stateView eid (ms_id m) (escrows w') = Some MPending" using assms(3,7,8) by (simp add: stateView_def)
  let ?v = "runEscrows E cfg ops w'"
  have fin: "mapGet (escrows ?v) eid = Some r'" by (rule closed_final [OF r'])
  have ok: "escrow_ok E ?v" using estepD(1) [OF runEscrows_step [OF assms(2)] ok'] .
  have "stateView eid (ms_id m) (escrows ?v) = Some MPending" using fin s r'(1) by (simp add: stateView_def)
  then show ?thesis using state_funds [OF ok fin, of m MPending Active] c assms(4,5) fin by simp
qed

text \<open>
  Opening is not atomic. When an open call throws after the payer's available funds
  have already gone down, the missing funds sit in an active hold that is new and that no escrow
  record refers to, so no escrow operation can release it.
\<close>

theorem failed_open_strands:
  assumes "escrow_ok E w" "openEscrow E cfg now i w = (Inl e, w')" "availAt E (rows (wal w')) k \<noteq> availAt E (rows (wal w)) k"
  shows "\<exists>j h. mapGet (holds (wal w)) j = None \<and> mapGet (holds (wal w')) j = Some h \<and> h_state h = Active \<and>
    (\<forall>eid r. mapGet (escrows w') eid = Some r \<longrightarrow> j \<notin> refsOf r)"
proof -
  have orphan: ?thesis
    if l: "locks E (toContract i) v (wal w) (wal w')" and es: "escrows w' = escrows w" and v: "0 \<le> v" for v
  proof -
    have "v \<noteq> 0" using l assms(3) by (auto simp: locks_def)
    then obtain j h where j: "mapGet (holds (wal w)) j = None" "mapGet (holds (wal w')) j = Some h" "h_state h = Active"
      using l v by (auto simp: locks_def)
    have "j \<notin> refsOf r" if "mapGet (escrows w') eid = Some r" for eid r
      using escrow_okD(4) [OF assms(1), of eid r] that es j(1) by (auto simp: record_ok_def)
    then show ?thesis using j by blast
  qed
  show ?thesis
  proof (cases rule: openEscrow_cases [OF assms(1), of cfg now i])
    case (1 x w1)
    then show ?thesis using assms(2,3) by (simp add: settled_parts_def)
  next
    case (2 w0 w1 t sg)
    note op = 2(1) and total = 2(6,7)
    have wal: "wal w1 = wal w" "escrows w1 = escrows w" using 2(2) by (simp_all add: settled_parts_def)
    have new: "mapGet (escrows w1) (escrow_id (toContract i)) = None" using 2(4) by simp
    show ?thesis
    proof (cases rule: lockFunds_out [OF 2(3) new 2(5), of now])
      case (1 e' st v)
      then show ?thesis using orphan [of v] assms(2) op wal by auto
    next
      case (2 e' st)
      then show ?thesis using orphan [of t] assms(2) op wal total by auto
    next
      case (3 p ids stk st en)
      then show ?thesis using assms(2) op by simp
    qed
  qed
qed

section \<open>Calls that go through\<close>

lemma verifyAs_same:
  assumes "idn w1 = idn w2" "non w1 = non w2"
  shows "fst (verifyAs E now skew obj opts w1) = fst (verifyAs E now skew obj opts w2)"
  using assms by (simp add: verifyAs_def zoom_app split: prod.split)

lemma milestoneReceipt_sel [simp]:
  "payee (milestoneReceipt E cfg now c m rt oc rid) = es_payee c" "payer (milestoneReceipt E cfg now c m rt oc rid) = es_payer c"
  "r_amount (milestoneReceipt E cfg now c m rt oc rid) = milestoneMoney c m"
  by (simp_all add: milestoneReceipt_def signReceipt_def)

lemma issueMilestoneReceipt_ok:
  assumes E: "big_exact E" and r: "mapGet (escrows w) eid = Some r" "mapGet (runtimes r) (ms_id m) = Some rt"
    and acc: "repAccepts E (rep w) (es_payee (contract r)) (currency (es_amount (contract r)))"
    and p: "es_payer (contract r) \<noteq> ''''" and v: "bigVal E (ms_amount m) = Some v"
  shows "\<exists>w'. issueMilestoneReceipt E cfg now eid m oc w = (Inr (), w')"
proof -
  let ?w1 = "w\<lparr>rcpDrawn := Suc (rcpDrawn w)\<rparr>"
  define rc where "rc = milestoneReceipt E cfg now (contract r) m rt oc (''rcp_'' @ ulid E (rcpDrawn w))"
  obtain en where a: "appendLedger E now ''receipt'' (Some (es_payee (contract r))) (JObj (receiptObj rc)) ?w1 =
      (Inr (), ?w1\<lparr>led := led ?w1 @ [en]\<rparr>)"
    by (rule appendLedger_out)
  have "\<exists>st. ingestReceipt E (escRepSigner cfg) now rc (rep w) = (Inr (), st)"
    by (rule ingest_accepts [OF E]) (use acc p v in \<open>simp_all add: rc_def milestoneMoney_def\<close>)
  then obtain st where "ingestReceipt E (escRepSigner cfg) now rc (rep w) = (Inr (), st)" by blast
  then show ?thesis
    using a r by (simp add: issueMilestoneReceipt_def bindE_app recordAt_app runtimeOf_app newReceiptId_def rc_def [symmetric]
        inReputation_app Let_def del: append_Cons)
qed

lemma refund_goes_through:
  assumes ok: "escrow_ok E w" and r: "mapGet (escrows w) eid = Some r" "mapGet (runtimes r) (ms_id m) = Some rt"
    and s: "rt_state rt \<noteq> MRefunded" "stakeHoldId r = None"
    and h: "mapGet (milestoneHoldIds r) (ms_id m) = Some i" "mapGet (holds (wal w)) i = Some h" "h_state h = Active"
    and acc: "repAccepts E (rep w) (es_payee (contract r)) (currency (es_amount (contract r)))"
    and p: "es_payer (contract r) \<noteq> ''''" and v: "bigVal E (ms_amount m) = Some v"
  shows "\<exists>w'. refundMilestone E cfg now eid m oc w = (Inr (), w') \<and> mapGet (escrows w') eid =
    Some (r\<lparr>runtimes := AList.map_entry (ms_id m) (withState MRefunded) (runtimes r)\<rparr>)"
proof -
  have E: "big_exact E" using wallet_okD(1) [OF escrow_okD(2) [OF ok]] .
  obtain st where st: "release E i (wal w) = (Inr (), st)"
    using resolves_release [of E i] escrow_okD(2) [OF ok] h
    by (cases rule: release_out [OF escrow_okD(2) [OF ok], of i]) (auto simp: deadHold_def)
  let ?r = "r\<lparr>runtimes := AList.map_entry (ms_id m) (withState MRefunded) (runtimes r)\<rparr>"
  let ?w = "w\<lparr>wal := st, escrows := AList.map_entry eid (\<lambda>r. r\<lparr>runtimes := AList.map_entry (ms_id m) (withState MRefunded) (runtimes r)\<rparr>) (escrows w)\<rparr>"
  have g: "mapGet (escrows ?w) eid = Some ?r" "mapGet (runtimes ?r) (ms_id m) = Some (withState MRefunded rt)" using r by simp_all
  have "\<exists>w'. issueMilestoneReceipt E cfg now eid m oc ?w = (Inr (), w')"
    by (rule issueMilestoneReceipt_ok [OF E g]) (use acc p v in simp_all)
  then obtain w' where w': "issueMilestoneReceipt E cfg now eid m oc ?w = (Inr (), w')" by blast
  have "escrowView (recordView eid) w' = escrowView (recordView eid) ?w" by (rule frames_out [OF frames_issueMilestoneReceipt w'])
  then have r': "mapGet (escrows w') eid = Some ?r" using g by (simp add: escrowView_def)
  then have "maybeReleaseStake E eid w' = (Inr (), w')" using s(2) by (simp add: maybeReleaseStake_def bindE_app recordAt_app)
  then show ?thesis
    using st r s(1) h(1) w' r' by (simp add: refundMilestone_def bindE_app recordAt_app orThrow_app runtimeOf_app inWallet_app updRuntime_app)
qed

lemma capture_goes_through:
  assumes ok: "escrow_ok E w" and r: "mapGet (escrows w) eid = Some r" "mapGet (runtimes r) (ms_id m) = Some rt"
    and s: "rt_state rt \<noteq> MReleased" "rt_state rt \<noteq> MAccepted" "stakeHoldId r = None"
    and h: "mapGet (milestoneHoldIds r) (ms_id m) = Some i" "mapGet (holds (wal w)) i = Some h" "h_state h = Active"
    and acc: "repAccepts E (rep w) (es_payee (contract r)) (currency (es_amount (contract r)))"
    and sp: "spendRowsOk E (wal w)"
    and p: "es_payer (contract r) \<noteq> ''''" and v: "bigVal E (ms_amount m) = Some v" "0 < v"
  shows "\<exists>w'. captureMilestone E cfg now eid m oc w = (Inr (), w')"
proof -
  have E: "big_exact E" using wallet_okD(1) [OF escrow_okD(2) [OF ok]] .
  let ?d = "es_payee (contract r)"
  have "\<exists>st. capture E i ?d (wal w) = (Inr (), st) \<and> spends st = spends (wal w)"
  proof (cases rule: capture_out [OF escrow_okD(2) [OF ok], of i ?d])
    case (1 e)
    then show ?thesis using h by (simp add: deadHold_def)
  next
    case (2 hr st')
    then show ?thesis using wmoveD(3) [OF 2(5)] by blast
  qed
  then obtain st where st: "capture E i ?d (wal w) = (Inr (), st)" "spends st = spends (wal w)" by blast
  then have "spendRowsOk E st" using sp by (simp add: spendRowsOk_def)
  then have "\<exists>s'. recordSpend E now (es_payer (contract r)) (milestoneMoney (contract r) m) st = (Inr (), s')"
    using recordSpend_accepts [OF E, of st "milestoneMoney (contract r) m" v] v by (simp add: milestoneMoney_def)
  then obtain s' where s': "recordSpend E now (es_payer (contract r)) (milestoneMoney (contract r) m) st = (Inr (), s')" by blast
  let ?r = "r\<lparr>runtimes := AList.map_entry (ms_id m) (withState MReleased) (runtimes r)\<rparr>"
  let ?w = "w\<lparr>escrows := AList.map_entry eid (\<lambda>r. r\<lparr>runtimes := AList.map_entry (ms_id m) (withState MReleased) (runtimes r)\<rparr>) (escrows w),
    wal := s'\<rparr>"
  have g: "mapGet (escrows ?w) eid = Some ?r" "mapGet (runtimes ?r) (ms_id m) = Some (withState MReleased rt)" using r by simp_all
  have "\<exists>w'. issueMilestoneReceipt E cfg now eid m oc ?w = (Inr (), w')"
    by (rule issueMilestoneReceipt_ok [OF E g]) (use acc p v in simp_all)
  then obtain w' where w': "issueMilestoneReceipt E cfg now eid m oc ?w = (Inr (), w')" by blast
  have "escrowView (recordView eid) w' = escrowView (recordView eid) ?w" by (rule frames_out [OF frames_issueMilestoneReceipt w'])
  then have "mapGet (escrows w') eid = Some ?r" using g by (simp add: escrowView_def)
  then have "maybeReleaseStake E eid w' = (Inr (), w')" using s(3) by (simp add: maybeReleaseStake_def bindE_app recordAt_app)
  then show ?thesis
    using st(1) s' r s h(1) w'
    by (simp add: captureMilestone_def bindE_app recordAt_app orThrow_app runtimeOf_app inWallet_app updRuntime_app)
qed

lemma books_close:
  assumes ok: "escrow_ok E w" and r: "mapGet (escrows w) eid = Some r"
  shows "\<exists>p w'. bindE (recomputeEscrowState eid) (\<lambda>_. toPublic eid) w = (Inr (EscrowIs p), w')"
proof -
  have rts: "runtimesOf (runtimes r) (milestones (contract r)) s =
      (Inr (map (\<lambda>m. (ms_id m, the (mapGet (runtimes r) (ms_id m)))) (milestones (contract r))), s)" for s :: "'a escrow_world_scheme"
    by (rule runtimesOf_ok) (use escrow_okD(4) [OF ok r] in \<open>fastforce simp: record_ok_def milestoneHeld_def\<close>)
  have "\<exists>w1. recomputeEscrowState eid w = (Inr (), w1)"
    using r rts [of w] by (simp add: recomputeEscrowState_def bindE_app recordAt_app Let_def updEscrow_app)
  then obtain w1 where w1: "recomputeEscrowState eid w = (Inr (), w1)" by blast
  obtain s where "mapGet (escrows w1) eid = Some (r\<lparr>e_state := s\<rparr>)" using recompute_effect [OF r w1] by metis
  then have "\<exists>p. toPublic eid w1 = (Inr (EscrowIs p), w1)"
    using rts [of w1] by (simp add: toPublic_def bindE_app recordAt_app)
  then show ?thesis using w1 by (auto simp: bindE_app)
qed

end
