(* ===== verification/Stake.thy ===== *)
theory Stake
  imports Guarantee
begin

text \<open>
  Stakes and tips, \<open>src/features/settlement/stake/service.ts\<close>, with the rows of
  \<open>MemoryStakeRepo\<close>. A stake is a hold on the agent's own funds, recorded as a row; the bonded
  total is pushed to the reputation engine through the callback that \<open>src/container.ts\<close> binds,
  which catches what the engine throws.
\<close>

section \<open>Requests, rows and results\<close>

record stake_input =
  st_agent :: string
  st_amount :: money
  st_listing :: "string option"
  st_nonce :: string
  st_iat :: string
  st_exp :: string
  st_sig :: string
  st_approval :: "string option"

record tip_input =
  tip_from :: string
  tip_to :: string
  tip_amount :: money
  tip_note :: "string option"
  tip_nonce :: string
  tip_iat :: string
  tip_exp :: string
  tip_sig :: string
  tip_approval :: "string option"

datatype stake_state = Bonded | StakeReleased | StakeSlashed

record stake_row =
  stakeId :: string
  sk_did :: string
  sk_holdId :: string
  sk_amount :: string
  sk_currency :: string
  sk_state :: stake_state
  sk_createdAt :: string

datatype stake_outcome = Staked stake_row money | StakeParked string money "string list"

datatype tip_outcome =
    Tipped string string string money string
  | TipParked string money "string list"

record stake_cfg =
  stkRepSigner :: core_signer
  stkSkew :: int

record stake_world = core +
  stakes :: "(string, stake_row) jsmap"
  stkDrawn :: nat
  tipDrawn :: nat

definition stakeObj :: "stake_input \<Rightarrow> (string \<times> json) list" where
  "stakeObj i = [(''agent'', JStr (st_agent i)), (''amount'', moneyJson (st_amount i))]
     @ optField ''listing_ref'' (st_listing i)
     @ [(''nonce'', JStr (st_nonce i)), (''iat'', JStr (st_iat i)), (''exp'', JStr (st_exp i)),
        (''sig'', JStr (st_sig i))] @ optField ''approval_id'' (st_approval i)"

definition tipObj :: "tip_input \<Rightarrow> (string \<times> json) list" where
  "tipObj i = [(''from'', JStr (tip_from i)), (''to'', JStr (tip_to i)), (''amount'', moneyJson (tip_amount i))]
     @ optField ''note'' (tip_note i)
     @ [(''nonce'', JStr (tip_nonce i)), (''iat'', JStr (tip_iat i)), (''exp'', JStr (tip_exp i)),
        (''sig'', JStr (tip_sig i))] @ optField ''approval_id'' (tip_approval i)"

definition stakeAction :: "stake_input \<Rightarrow> policy_action" where
  "stakeAction i = \<lparr>a_kind = KStake, a_agent = st_agent i, a_amount = Some (st_amount i), a_category = None,
     a_counterparty = st_listing i, a_subKind = None\<rparr>"

definition tipAction :: "tip_input \<Rightarrow> policy_action" where
  "tipAction i = \<lparr>a_kind = KTip, a_agent = tip_from i, a_amount = Some (tip_amount i), a_category = None,
     a_counterparty = Some (tip_to i), a_subKind = None\<rparr>"

section \<open>The service\<close>

definition putStake :: "stake_row \<Rightarrow> ('a stake_world_scheme, unit) exec" where
  "putStake r = modify (\<lambda>w. w\<lparr>stakes := mapSet (stakeId r) r (stakes w)\<rparr>)"

definition stakesOf :: "string \<Rightarrow> 'a stake_world_scheme \<Rightarrow> stake_row list" where
  "stakesOf d w = filter (\<lambda>r. sk_did r = d) (mapValues (stakes w))"

definition newStakeId :: "ext \<Rightarrow> ('a stake_world_scheme, string) exec" where
  "newStakeId E = bindE (gets stkDrawn) (\<lambda>n.
     bindE (modify (\<lambda>w. w\<lparr>stkDrawn := Suc n\<rparr>)) (\<lambda>_. ret (''stk_'' @ ulid E n)))"

definition newTipId :: "ext \<Rightarrow> ('a stake_world_scheme, string) exec" where
  "newTipId E = bindE (gets tipDrawn) (\<lambda>n.
     bindE (modify (\<lambda>w. w\<lparr>tipDrawn := Suc n\<rparr>)) (\<lambda>_. ret (''tip_'' @ ulid E n)))"

text \<open>\<open>reduce((acc, r) => acc.plus(r.amount), new Big(0))\<close>, as decimal strings.\<close>

fun sumStakes :: "ext \<Rightarrow> string \<Rightarrow> stake_row list \<Rightarrow> ('s, string) exec" where
  "sumStakes E acc [] = ret acc"
| "sumStakes E acc (r # rs) = bindE (plusE E acc (sk_amount r)) (\<lambda>t. sumStakes E t rs)"

definition totalBonded :: "ext \<Rightarrow> string \<Rightarrow> string \<Rightarrow> ('a stake_world_scheme, money) exec" where
  "totalBonded E d c =
     bindE (gets (stakesOf d)) (\<lambda>rs.
     bindE (sumStakes E ''0'' (filter (\<lambda>r. sk_state r = Bonded \<and> sk_currency r = c) rs)) (\<lambda>t.
     ret \<lparr>amount = t, currency = c\<rparr>))"

text \<open>The callback: \<open>void setStake(did, total).catch(log)\<close>.\<close>

definition onStakeChanged :: "ext \<Rightarrow> core_signer \<Rightarrow> int \<Rightarrow> string \<Rightarrow> string \<Rightarrow> ('a core_scheme, unit) exec" where
  "onStakeChanged E cs now d tot = (\<lambda>w. (Inr (), snd (inReputation (setStake E cs now d tot) w)))"

definition parkOrRefuse ::
    "ext \<Rightarrow> int \<Rightarrow> policy_decision \<Rightarrow> policy_action \<Rightarrow> json \<Rightarrow> (string \<Rightarrow> money \<Rightarrow> string list \<Rightarrow> 'r) \<Rightarrow>
     ('a core_scheme, 'r) exec" where
  "parkOrRefuse E now decision act p res =
     (case decision of
        NeedsApproval threshold rs \<Rightarrow>
          bindE (inApprovals (enqueue E now (a_agent act) act p)) (\<lambda>pending. ret (res (approvalId pending) threshold rs))
      | _ \<Rightarrow> throw ForbiddenError)"

text \<open>The bond, once the signer has agreed.\<close>

definition bond :: "ext \<Rightarrow> stake_cfg \<Rightarrow> int \<Rightarrow> stake_input \<Rightarrow> ('a stake_world_scheme, stake_outcome) exec" where
  "bond E cfg now i =
     bindE (inWallet (hold E now (st_agent i) (st_amount i) (''stake:'' @ st_agent i))) (\<lambda>h.
     bindE (newStakeId E) (\<lambda>sid.
     let row = \<lparr>stakeId = sid, sk_did = st_agent i, sk_holdId = h, sk_amount = amount (st_amount i),
       sk_currency = currency (st_amount i), sk_state = Bonded, sk_createdAt = isoOf E now\<rparr> in
     bindE (putStake row) (\<lambda>_.
     bindE (appendLedger E now ''stake_bonded'' (Some (st_agent i))
       (JObj [(''stake_id'', JStr sid), (''amount'', moneyJson (st_amount i)), (''listing_ref'', nullable (st_listing i))])) (\<lambda>_.
     bindE (totalBonded E (st_agent i) (currency (st_amount i))) (\<lambda>tot.
     bindE (onStakeChanged E (stkRepSigner cfg) now (st_agent i) (amount tot)) (\<lambda>_.
     ret (Staked row tot)))))))"

definition putStakeFor :: "ext \<Rightarrow> stake_cfg \<Rightarrow> int \<Rightarrow> stake_input \<Rightarrow> ('a stake_world_scheme, stake_outcome) exec" where
  "putStakeFor E cfg now i =
     bindE (verifyAs E now (stkSkew cfg) (stakeObj i) (sigOpts (st_agent i))) (\<lambda>_.
     bindE (signWithinPolicy E now (st_agent i) (JObj (stakeObj i)) (stakeAction i) (st_approval i)) (\<lambda>signed.
     case signed of
       Refused decision \<Rightarrow> parkOrRefuse E now decision (stakeAction i) (JObj (stakeObj i)) StakeParked
     | Signed _ \<Rightarrow> bond E cfg now i))"

definition payTip :: "ext \<Rightarrow> int \<Rightarrow> tip_input \<Rightarrow> ('a stake_world_scheme, tip_outcome) exec" where
  "payTip E now i =
     bindE (inWallet (debit E (tip_from i) (tip_amount i))) (\<lambda>_.
     bindE (inWallet (credit E (tip_to i) (tip_amount i))) (\<lambda>_.
     bindE (inWallet (recordSpend E now (tip_from i) (tip_amount i))) (\<lambda>_.
     bindE (newTipId E) (\<lambda>t.
     bindE (appendLedger E now ''tip'' (Some (tip_to i))
       (JObj [(''tip_id'', JStr t), (''from'', JStr (tip_from i)), (''to'', JStr (tip_to i)),
         (''amount'', moneyJson (tip_amount i))])) (\<lambda>_.
     ret (Tipped t (tip_from i) (tip_to i) (tip_amount i) (isoOf E now)))))))"

definition sendTip :: "ext \<Rightarrow> stake_cfg \<Rightarrow> int \<Rightarrow> tip_input \<Rightarrow> ('a stake_world_scheme, tip_outcome) exec" where
  "sendTip E cfg now i =
     bindE (verifyAs E now (stkSkew cfg) (tipObj i) (sigOpts (tip_from i))) (\<lambda>_.
     bindE (signWithinPolicy E now (tip_from i) (JObj (tipObj i)) (tipAction i) (tip_approval i)) (\<lambda>signed.
     case signed of
       Refused decision \<Rightarrow> parkOrRefuse E now decision (tipAction i) (JObj (tipObj i)) TipParked
     | Signed _ \<Rightarrow> payTip E now i))"

section \<open>A tip is never paid\<close>

lemma evaluate_tip: "\<exists>rs. evaluate E dl (tipAction i) us w = (Inr (Deny rs), w)"
  by (simp add: evaluate_def evaluateSpend_def tipAction_def Let_def)

lemma signTip:
  "\<exists>x. signWithinPolicy E now d p (tipAction i) ap w = (x, w) \<and> (\<forall>y. x = Inr y \<longrightarrow> (\<exists>rs. y = Refused (Deny rs)))"
proof -
  obtain u where u: "usage E now d (wal w) = (u, wal w)" using usage_state by (metis prod.collapse)
  have ev: "\<exists>rs. evaluate E dl (tipAction i) us w = (Inr (Deny rs), w)" for dl us by (rule evaluate_tip)
  show ?thesis
  proof (cases "activeDelegation E now d (idn w)")
    case None
    then show ?thesis by (simp add: signWithinPolicy_def exec_simps)
  next
    case (Some dl)
    show ?thesis
    proof (cases u)
      case (Inl e)
      then show ?thesis using Some u by (simp add: signWithinPolicy_def exec_simps core_app)
    next
      case (Inr us)
      obtain rs where "evaluate E dl (tipAction i) (usageTotals us) w = (Inr (Deny rs), w)" using ev by blast
      then show ?thesis using Some u Inr by (simp add: signWithinPolicy_def exec_simps core_app)
    qed
  qed
qed

lemma tip_fails:
  "\<exists>e. sendTip E cfg now i w = (Inl e, snd (verifyAs E now (stkSkew cfg) (tipObj i) (sigOpts (tip_from i)) w))"
proof -
  obtain v n where v: "verifyAs E now (stkSkew cfg) (tipObj i) (sigOpts (tip_from i)) w = (v, w\<lparr>non := n\<rparr>)"
    by (rule verifyAs_out)
  obtain x where x: "signWithinPolicy E now (tip_from i) (JObj (tipObj i)) (tipAction i) (tip_approval i) (w\<lparr>non := n\<rparr>) = (x, w\<lparr>non := n\<rparr>)"
    "\<forall>y. x = Inr y \<longrightarrow> (\<exists>rs. y = Refused (Deny rs))" using signTip by blast
  show ?thesis
  proof (cases v)
    case (Inl e)
    then show ?thesis using v by (simp add: sendTip_def bindE_app)
  next
    case (Inr u)
    show ?thesis
    proof (cases x)
      case (Inl e)
      then show ?thesis using v x(1) Inr by (simp add: sendTip_def bindE_app)
    next
      case (Inr y)
      then obtain rs where "x = Inr (Refused (Deny rs))" using x(2) by blast
      then show ?thesis using v x(1) \<open>v = Inr u\<close> by (simp add: sendTip_def bindE_app parkOrRefuse_def)
    qed
  qed
qed

text \<open>
  A tip is never paid: whatever the delegation allows and whatever approval is
  presented, the call throws, because the action a tip puts before the policy has no category and
  the policy denies every spend without one.
\<close>

theorem tip_never_settles:
  "\<exists>e w'. sendTip E cfg now i w = (Inl e, w') \<and> wal w' = wal w"
proof -
  obtain e where "sendTip E cfg now i w = (Inl e, snd (verifyAs E now (stkSkew cfg) (tipObj i) (sigOpts (tip_from i)) w))"
    using tip_fails by blast
  moreover have "wal (snd (verifyAs E now (stkSkew cfg) (tipObj i) (sigOpts (tip_from i)) w)) = wal w"
    by (rule verifyAs_out [of E now "stkSkew cfg" "tipObj i" "sigOpts (tip_from i)" w]) simp
  ultimately show ?thesis by blast
qed

section \<open>Stakes are backed by held funds\<close>

definition sumOver :: "('k \<times> 'v \<Rightarrow> rat) \<Rightarrow> ('k, 'v) jsmap \<Rightarrow> 'k list \<Rightarrow> rat" where
  "sumOver f m ks = (\<Sum>k\<leftarrow>ks. case mapGet m k of None \<Rightarrow> 0 | Some v \<Rightarrow> f (k, v))"

lemma sumOver_le:
  assumes "distinctKeys m" "\<And>p. p \<in> set m \<Longrightarrow> 0 \<le> f p" "distinct ks"
  shows "sumOver f m ks \<le> sumEntries f m"
proof -
  let ?g = "\<lambda>k. case mapGet m k of None \<Rightarrow> 0 | Some v \<Rightarrow> f (k, v)"
  have pos: "0 \<le> ?g k" for k using assms(2) by (auto split: option.split dest: map_of_SomeD)
  have "sumEntries f m = (\<Sum>k\<leftarrow>map fst m. ?g k)"
    unfolding sumEntries_def map_map by (rule arg_cong [where f = sum_list], rule map_cong) (use assms(1) in auto)
  also have "\<dots> = sum ?g (fst ` set m)" using assms(1) by (subst sum_list_distinct_conv_sum_set) simp_all
  finally have tot: "sumEntries f m = sum ?g (fst ` set m)" .
  have "sumOver f m ks = sum ?g (set ks)" unfolding sumOver_def by (rule sum_list_distinct_conv_sum_set) (rule assms)
  also have "\<dots> = sum ?g (set ks \<inter> fst ` set m)"
    by (rule sum.mono_neutral_right) (auto simp: mapGet_None_iff [THEN iffD2])
  also have "\<dots> \<le> sum ?g (fst ` set m)" by (rule sum_mono2) (use pos in auto)
  finally show ?thesis unfolding tot .
qed

text \<open>A row and the hold that backs it.\<close>

definition backs :: "stake_row \<Rightarrow> hold_row \<Rightarrow> bool" where
  "backs r h \<longleftrightarrow> h_state h = Active \<and> h_did h = sk_did r \<and> h_currency h = sk_currency r \<and> h_amount h = sk_amount r"

definition stake_ok :: "ext \<Rightarrow> 'a stake_world_scheme \<Rightarrow> bool" where
  "stake_ok E w \<longleftrightarrow> core_ok E w \<and> distinctKeys (stakes w) \<and>
     (\<forall>r \<in> set (mapValues (stakes w)). \<exists>h. mapGet (holds (wal w)) (sk_holdId r) = Some h \<and> backs r h) \<and>
     distinct (map sk_holdId (mapValues (stakes w))) \<and>
     (\<forall>n \<ge> stkDrawn w. ''stk_'' @ ulid E n \<notin> fst ` set (stakes w))"

definition bondedSum :: "ext \<Rightarrow> 'a stake_world_scheme \<Rightarrow> string \<Rightarrow> string \<Rightarrow> rat" where
  "bondedSum E w d c = (\<Sum>r\<leftarrow>filter (\<lambda>r. sk_state r = Bonded \<and> sk_currency r = c) (stakesOf d w). bv E (sk_amount r))"

lemma bonded_le_held:
  assumes ok: "stake_ok E w"
  shows "bondedSum E w d c \<le> heldAt E (rows (wal w)) (walletKey d c)"
proof -
  let ?H = "holds (wal w)" and ?R = "filter (\<lambda>r. sk_state r = Bonded \<and> sk_currency r = c) (stakesOf d w)"
  let ?f = "\<lambda>(i, h). if h_state h = Active \<and> holdKey h = walletKey d c then bv E (h_amount h) else 0"
  have w: "wallet_ok E (wal w)" using ok by (simp add: stake_ok_def core_ok_def)
  have nonneg: "0 \<le> ?f p" if p: "p \<in> set ?H" for p
  proof -
    obtain i h where ih: "p = (i, h)" by (cases p)
    then have "holdOk E i h" using wallet_okD(5,6) [OF w] p by (metis map_of_is_SomeI)
    then show ?thesis using ih by (auto simp: holdOk_def)
  qed
  have sub: "set ?R \<subseteq> set (mapValues (stakes w))" by (auto simp: stakesOf_def)
  have one: "(case mapGet ?H (sk_holdId r) of None \<Rightarrow> 0 | Some v \<Rightarrow> ?f (sk_holdId r, v)) = bv E (sk_amount r)"
    if r: "r \<in> set ?R" for r
  proof -
    have "r \<in> set (mapValues (stakes w))" using sub r by blast
    then obtain h where h: "mapGet ?H (sk_holdId r) = Some h" "backs r h"
      using ok unfolding stake_ok_def by blast
    moreover have "sk_did r = d" "sk_currency r = c" using r by (auto simp: stakesOf_def)
    ultimately show ?thesis by (simp add: backs_def)
  qed
  have "bondedSum E w d c = sumOver ?f ?H (map sk_holdId ?R)"
    unfolding bondedSum_def sumOver_def map_map by (rule arg_cong [where f = sum_list], rule map_cong [OF refl]) (use one in simp)
  also have "\<dots> \<le> sumEntries ?f ?H"
  proof (rule sumOver_le)
    show "distinctKeys ?H" by (rule wallet_okD(5) [OF w])
    have "distinct (map sk_holdId (mapValues (stakes w)))" using ok by (simp add: stake_ok_def)
    then show "distinct (map sk_holdId ?R)" unfolding stakesOf_def by (intro distinct_map_filter)
  qed (rule nonneg)
  also have "\<dots> = heldAt E (rows (wal w)) (walletKey d c)" using wallet_okD(8) [OF w] by (simp add: activeSum_def)
  finally show ?thesis .
qed

definition stakeParts :: "'a stake_world_scheme \<Rightarrow> (string, stake_row) jsmap \<times> wallet_st \<times> nat" where
  "stakeParts w = (stakes w, wal w, stkDrawn w)"

lemma stake_quiet:
  fixes m :: "('a stake_world_scheme, 'r) exec"
  assumes "keeps (core_ok E) m" "frames stakeParts m"
  shows "keeps (stake_ok E) m"
proof (rule keepsI)
  fix w :: "'a stake_world_scheme"
  assume "stake_ok E w"
  moreover have "stakeParts (snd (m w)) = stakeParts w" by (rule frames_eq [OF assms(2)])
  ultimately show "stake_ok E (snd (m w))"
    using keepsD [OF assms(1), of w] by (auto simp: stake_ok_def stakeParts_def)
qed

lemma stakeParts_sel [simp]:
  "stakeParts (w\<lparr>non := n\<rparr>) = stakeParts w" "stakeParts (w\<lparr>apr := a\<rparr>) = stakeParts w"
  "stakeParts (w\<lparr>led := l\<rparr>) = stakeParts w" "stakeParts (w\<lparr>rep := p\<rparr>) = stakeParts w"
  by (simp_all add: stakeParts_def)

lemma keeps_stake_verifyAs [keeps_rules]: "keeps (stake_ok E) (verifyAs E now skew obj opts)"
  by (rule stake_quiet) (intro keeps_rules frames_rules; simp)+

lemma keeps_stake_sign [keeps_rules]: "keeps (stake_ok E) (signWithinPolicy E now d p act ap)"
  by (rule stake_quiet) (intro keeps_rules frames_rules; simp)+

lemma keeps_stake_park [keeps_rules]: "keeps (stake_ok E) (parkOrRefuse E now dec act p res)"
  by (rule stake_quiet; cases dec) (auto simp: parkOrRefuse_def intro!: keeps_rules frames_rules simp del: ret_app)

lemma keeps_stake_ledger [keeps_rules]: "keeps (stake_ok E) (appendLedger E now k sb p)"
  by (rule stake_quiet) (intro keeps_rules frames_rules; simp)+

lemma keeps_onStakeChanged [keeps_rules]: "keeps (stake_ok E) (onStakeChanged E cs now d tot)"
proof (rule stake_quiet)
  have "keeps (core_ok E) (inReputation (setStake E cs now d tot))" by (intro keeps_rules)
  then show "keeps (core_ok E) (onStakeChanged E cs now d tot)" by (simp add: keeps_def onStakeChanged_def)
  have "frames stakeParts (inReputation (setStake E cs now d tot))" by (intro frames_rules) simp
  then show "frames stakeParts (onStakeChanged E cs now d tot)" by (simp add: frames_def keeps_def onStakeChanged_def)
qed

lemma keeps_sumStakes [keeps_rules]: "keeps P (sumStakes E acc rs)"
  by (induction E acc rs rule: sumStakes.induct) (auto intro!: keeps_rules simp del: ret_app)

lemma keeps_totalBonded [keeps_rules]: "keeps P (totalBonded E d c)"
  unfolding totalBonded_def by (intro keeps_rules)

lemma stake_ok_add:
  assumes ok: "stake_ok E w" and core: "core_ok E w'" and h: "mapGet (holds (wal w)) i = None"
    "holds (wal w') = mapSet i h (holds (wal w))"
    and r: "sk_holdId r = i" "backs r h" "stakeId r = ''stk_'' @ ulid E (stkDrawn w)"
    and s: "stakes w' = mapSet (stakeId r) r (stakes w)" "stkDrawn w' = Suc (stkDrawn w)"
  shows "stake_ok E w'"
proof -
  have E: "ulid_fresh E" using ok wallet_okD(3) by (auto simp: stake_ok_def core_ok_def)
  have new: "stakeId r \<notin> fst ` set (stakes w)" using ok r(3) by (simp add: stake_ok_def)
  then have st: "stakes w' = stakes w @ [(stakeId r, r)]" using s(1) mapSet_new by metis
  have "i \<noteq> sk_holdId q" if "q \<in> set (mapValues (stakes w))" for q
    using ok that h(1) unfolding stake_ok_def by fastforce
  then have "distinct (map sk_holdId (mapValues (stakes w')))" using ok r(1) by (auto simp: st stake_ok_def)
  moreover have "\<exists>h. mapGet (holds (wal w')) (sk_holdId q) = Some h \<and> backs q h" if "q \<in> set (mapValues (stakes w'))" for q
  proof (cases "q = r")
    case True
    then show ?thesis using r h(2) by simp
  next
    case False
    then have q: "q \<in> set (mapValues (stakes w))" using that by (auto simp: st)
    then obtain g where "mapGet (holds (wal w)) (sk_holdId q) = Some g" "backs q g" using ok unfolding stake_ok_def by blast
    then show ?thesis using h by auto
  qed
  moreover have "''stk_'' @ ulid E n \<notin> fst ` set (stakes w')" if "stkDrawn w' \<le> n" for n
    using ok that s(2) r(3) ulid_fresh_eq [OF E] by (auto simp: st stake_ok_def)
  moreover have "distinctKeys (stakes w')" using ok new by (auto simp: st stake_ok_def)
  ultimately show ?thesis using core by (simp add: stake_ok_def)
qed

lemma newStakeId_app: "newStakeId E w = (Inr (''stk_'' @ ulid E (stkDrawn w)), w\<lparr>stkDrawn := Suc (stkDrawn w)\<rparr>)"
  by (simp add: newStakeId_def bindE_app)

lemma putStake_app: "putStake r w = (Inr (), w\<lparr>stakes := mapSet (stakeId r) r (stakes w)\<rparr>)"
  by (simp add: putStake_def)

lemma keeps_bond [keeps_rules]: "keeps (stake_ok E) (bond E cfg now i)"
proof (rule keepsI)
  fix w :: "'a stake_world_scheme"
  assume ok: "stake_ok E w"
  then have core: "core_ok E w" by (simp add: stake_ok_def)
  show "stake_ok E (snd (bond E cfg now i w))"
  proof (cases rule: hold_out [OF core_okD(1) [OF core], of now "st_agent i" "st_amount i" "''stake:'' @ st_agent i"])
    case (1 e st)
    have "stake_ok E (w\<lparr>wal := st\<rparr>)" using ok 1(2,3) by (auto simp: stake_ok_def core_ok_def wmove_def)
    then show ?thesis using 1(1) by (simp add: bond_def bindE_app [of "inWallet _"] core_app)
  next
    case (2 v j h st)
    let ?row = "\<lparr>stakeId = ''stk_'' @ ulid E (stkDrawn w), sk_did = st_agent i, sk_holdId = j, sk_amount = amount (st_amount i),
       sk_currency = currency (st_amount i), sk_state = Bonded, sk_createdAt = isoOf E now\<rparr>"
    let ?w' = "w\<lparr>wal := st, stkDrawn := Suc (stkDrawn w), stakes := mapSet (stakeId ?row) ?row (stakes w)\<rparr>"
    have "stake_ok E ?w'"
      by (rule stake_ok_add [OF ok _ 2(8), of _ h ?row]) (use core 2 in \<open>auto simp: core_ok_def wmove_def backs_def\<close>)
    then have "stake_ok E (snd (bindE (appendLedger E now ''stake_bonded'' (Some (st_agent i))
       (JObj [(''stake_id'', JStr (stakeId ?row)), (''amount'', moneyJson (st_amount i)), (''listing_ref'', nullable (st_listing i))])) (\<lambda>_.
     bindE (totalBonded E (st_agent i) (currency (st_amount i))) (\<lambda>tot.
     bindE (onStakeChanged E (stkRepSigner cfg) now (st_agent i) (amount tot)) (\<lambda>_.
     ret (Staked ?row tot)))) ?w'))"
      by (intro keepsD [of "stake_ok E"] keeps_rules)
    then show ?thesis using 2(1)
      by (simp add: bond_def bindE_app [of "inWallet _"] core_app bindE_app [of "newStakeId _"] newStakeId_app
          bindE_app [of "putStake _"] putStake_app Let_def del: ret_app append_Cons)
  qed
qed

lemma keeps_putStakeFor: "keeps (stake_ok E) (putStakeFor E cfg now i)"
  unfolding putStakeFor_def by (intro keeps_rules) (auto split: sign_result.split intro!: keeps_rules)

lemma keeps_tip: "keeps (stake_ok E) (sendTip E cfg now i)"
proof (rule keepsI)
  fix w :: "'a stake_world_scheme"
  assume "stake_ok E w"
  then have "stake_ok E (snd (verifyAs E now (stkSkew cfg) (tipObj i) (sigOpts (tip_from i)) w))"
    by (intro keepsD [OF keeps_stake_verifyAs])
  moreover obtain e where "sendTip E cfg now i w = (Inl e, snd (verifyAs E now (stkSkew cfg) (tipObj i) (sigOpts (tip_from i)) w))"
    using tip_fails by blast
  ultimately show "stake_ok E (snd (sendTip E cfg now i w))" by simp
qed

datatype stake_op = OpStake stake_input | OpTip tip_input

fun runStake :: "ext \<Rightarrow> stake_cfg \<Rightarrow> int \<Rightarrow> stake_op \<Rightarrow> 'a stake_world_scheme \<Rightarrow> 'a stake_world_scheme" where
  "runStake E cfg now (OpStake i) w = snd (putStakeFor E cfg now i w)"
| "runStake E cfg now (OpTip i) w = snd (sendTip E cfg now i w)"

fun runStakes :: "ext \<Rightarrow> stake_cfg \<Rightarrow> (int \<times> stake_op) list \<Rightarrow> 'a stake_world_scheme \<Rightarrow> 'a stake_world_scheme" where
  "runStakes E cfg [] w = w"
| "runStakes E cfg ((now, op) # ops) w = runStakes E cfg ops (runStake E cfg now op w)"

lemma runStakes_ok: "stake_ok E w \<Longrightarrow> stake_ok E (runStakes E cfg ops w)"
proof (induction E cfg ops w rule: runStakes.induct)
  case (2 E cfg now op ops w)
  have "stake_ok E (runStake E cfg now op w)"
    using 2(2) by (cases op) (auto intro: keepsD [OF keeps_putStakeFor] keepsD [OF keeps_tip])
  then show ?case using 2(1) by simp
qed simp

lemma sumStakes_total:
  "big_exact E \<Longrightarrow> sumStakes E acc rs s = (Inr x, s') \<Longrightarrow> bigVal E acc = Some v \<Longrightarrow>
     bv E x = v + (\<Sum>r\<leftarrow>rs. bv E (sk_amount r))"
proof (induction rs arbitrary: acc v)
  case (Cons r rs)
  then obtain y where y: "bigVal E (sk_amount r) = Some y"
    by (cases "bigVal E (sk_amount r)") (auto simp: bindE_app plusE_def)
  then have "sumStakes E (bigPlus E acc (sk_amount r)) rs s = (Inr x, s')"
    using Cons.prems by (simp add: bindE_app plusE_ok)
  then show ?case using Cons.IH [OF Cons.prems(1)] big_exact_plus [OF Cons.prems(1,3) y] y by fastforce
qed simp

lemma totalBonded_sum:
  assumes "big_exact E" "totalBonded E d c w = (Inr t, w')"
  shows "currency t = c \<and> bv E (amount t) = bondedSum E w d c"
  using assms(2) sumStakes_total [OF assms(1) _ big_exact_zero [OF assms(1)]]
  by (auto simp: totalBonded_def bindE_app bondedSum_def split: prod.splits sum.splits)

text \<open>
  Claim C28. A published stake is backed: after any sequence of stake and tip calls, the total that
  the service reports to the reputation engine for an agent and a currency is the sum of the amounts
  of the agent's bonded rows in that currency, and at least that much is locked in the agent's own
  wallet.
\<close>

theorem stake_backed:
  assumes "stake_ok E w" "totalBonded E d c (runStakes E cfg ops w) = (Inr t, w')"
  shows "currency t = c \<and>
    bv E (amount t) = (\<Sum>r\<leftarrow>filter (\<lambda>r. sk_did r = d \<and> sk_currency r = c \<and> sk_state r = Bonded)
      (mapValues (stakes (runStakes E cfg ops w))). bv E (sk_amount r)) \<and>
    bv E (amount t) \<le> heldAt E (rows (wal (runStakes E cfg ops w))) (walletKey d c)"
proof -
  let ?w = "runStakes E cfg ops w"
  have ok: "stake_ok E ?w" by (rule runStakes_ok [OF assms(1)])
  then have E: "big_exact E" using wallet_okD(1) by (auto simp: stake_ok_def core_ok_def)
  have "filter (\<lambda>r. sk_state r = Bonded \<and> sk_currency r = c) (stakesOf d ?w) =
      filter (\<lambda>r. sk_did r = d \<and> sk_currency r = c \<and> sk_state r = Bonded) (mapValues (stakes ?w))"
    unfolding stakesOf_def filter_filter by (rule filter_cong) auto
  then show ?thesis using totalBonded_sum [OF E assms(2)] bonded_le_held [OF ok, of d c]
    by (simp add: bondedSum_def)
qed

section \<open>The properties at concrete inputs\<close>

definition sampleStakeWorld :: stake_world where
  "sampleStakeWorld = core.extend (sampleCore\<lparr>wal := snd (credit demo ''did:a'' (usdc ''100'') emptyWallet)\<rparr>)
     \<lparr>stakes = [], stkDrawn = 0, tipDrawn = 0\<rparr>"

definition sampleStakeCfg :: stake_cfg where
  "sampleStakeCfg = \<lparr>stkRepSigner = sampleSigner, stkSkew = 2\<rparr>"

lemma sampleStakeWorld_ok: "stake_ok demo sampleStakeWorld"
proof -
  have w: "wallet_ok demo (snd (credit demo ''did:a'' (usdc ''100'') emptyWallet))"
    by (rule keepsD [OF keeps_credit wallet_ok_empty [OF demo_lib_ok]])
  show ?thesis
    using sampleCore_ok(1) w by (simp add: stake_ok_def core_ok_def sampleStakeWorld_def core.defs Let_def)
qed
definition sampleRow :: stake_row where
  "sampleRow = \<lparr>stakeId = ''stk_0'', sk_did = ''did:a'', sk_holdId = ''hold_0'', sk_amount = ''30'', sk_currency = ''USDC'',
     sk_state = Bonded, sk_createdAt = ''5''\<rparr>"

text \<open>The same with one bonded stake.\<close>

definition stakedWorld :: stake_world where
  "stakedWorld = sampleStakeWorld\<lparr>wal := snd (hold demo 5 ''did:a'' (usdc ''30'') ''stake:did:a'' (wal sampleStakeWorld)),
     stakes := [(''stk_0'', sampleRow)], stkDrawn := 1\<rparr>"

definition sampleTip :: tip_input where
  "sampleTip = (let i = \<lparr>tip_from = ''did:a'', tip_to = ''did:b'', tip_amount = usdc ''1'', tip_note = None, tip_nonce = ''n1'',
       tip_iat = ''4'', tip_exp = ''50'', tip_sig = [], tip_approval = None\<rparr>
     in i\<lparr>tip_sig := signDetached demo (JObj (stripForSigning (tipObj i) [''sig''])) ''K'' ''k''\<rparr>)"

lemma stakedWorld_ok: "stake_ok demo stakedWorld"
proof (rule stake_ok_add [OF sampleStakeWorld_ok])
  let ?w = "wal sampleStakeWorld" and ?h = "\<lparr>holdId = ''hold_0'', h_did = ''did:a'', h_amount = ''30'', h_currency = ''USDC'',
      h_ref = ''stake:did:a'', h_state = Active, h_createdAt = ''5''\<rparr>"
  show "mapGet (holds ?w) ''hold_0'' = None" by code_simp
  show "holds (wal stakedWorld) = mapSet ''hold_0'' ?h (holds ?w)" by code_simp
  show "backs sampleRow ?h" by (simp add: backs_def sampleRow_def)
  have "wallet_ok demo (wal stakedWorld)"
    using keepsD [OF keeps_hold, of demo ?w] sampleStakeWorld_ok by (simp add: stakedWorld_def stake_ok_def core_ok_def)
  then show "core_ok demo stakedWorld" using sampleStakeWorld_ok by (simp add: stakedWorld_def stake_ok_def core_ok_def)
  have "stkDrawn sampleStakeWorld = 0" "stakes sampleStakeWorld = []" "showNat 0 = ''0''" by code_simp+
  then show "stakeId sampleRow = ''stk_'' @ ulid demo (stkDrawn sampleStakeWorld)"
    "stakes stakedWorld = mapSet (stakeId sampleRow) sampleRow (stakes sampleStakeWorld)"
    "stkDrawn stakedWorld = Suc (stkDrawn sampleStakeWorld)"
    by (simp_all add: sampleRow_def stakedWorld_def)
qed (simp add: sampleRow_def)

lemma stakedWorld_total:
  "fst (totalBonded demo ''did:a'' ''USDC'' (runStakes demo sampleStakeCfg [(5, OpTip sampleTip)] stakedWorld)) = Inr (usdc ''30'')"
  by code_simp

lemma stake_backed_witness:
  "\<exists>w. w = runStakes demo sampleStakeCfg [(5, OpTip sampleTip)] stakedWorld \<and>
     (\<Sum>r\<leftarrow>filter (\<lambda>r. sk_did r = ''did:a'' \<and> sk_currency r = ''USDC'' \<and> sk_state r = Bonded) (mapValues (stakes w)).
        bv demo (sk_amount r)) = 30 \<and>
     30 \<le> heldAt demo (rows (wal w)) (walletKey ''did:a'' ''USDC'')"
proof -
  let ?w = "runStakes demo sampleStakeCfg [(5, OpTip sampleTip)] stakedWorld"
  have t: "totalBonded demo ''did:a'' ''USDC'' ?w = (Inr (usdc ''30''), snd (totalBonded demo ''did:a'' ''USDC'' ?w))"
    using stakedWorld_total by (metis prod.collapse)
  have "bv demo (amount (usdc ''30'')) = 30" by code_simp
  then show ?thesis using stake_backed [OF stakedWorld_ok t] by (intro exI [of _ ?w]) simp
qed

end
