(* ===== verification/Mailroom.thy ===== *)
theory Mailroom
  imports Guarantee
begin

text \<open>
  The mailroom, \<open>src/features/mailroom/service.ts\<close>, with the thread machine of
  \<open>src/domain/message.ts\<close> and the in-memory repositories. A message costs postage, a hold on the
  sender's funds that the recipient releases or forfeits by flagging; replies move a thread's
  state; an accept is turned into a signed agreement. Message bodies are JSON objects that the
  service reads field by field.
\<close>

section \<open>Messages and threads\<close>

datatype message_type =
    MInquiry | MQuoteRequest | MQuote | MOffer | MCounter | MAccept | MReject | MDelegate | MStatus | MReceiptRef

datatype thread_state = TOpen | TQuoting | TOffered | TAgreed | TCommitted | TClosed

fun messageTypeText :: "message_type \<Rightarrow> string" where
  "messageTypeText MInquiry = ''INQUIRY''"
| "messageTypeText MQuoteRequest = ''QUOTE_REQUEST''"
| "messageTypeText MQuote = ''QUOTE''"
| "messageTypeText MOffer = ''OFFER''"
| "messageTypeText MCounter = ''COUNTER''"
| "messageTypeText MAccept = ''ACCEPT''"
| "messageTypeText MReject = ''REJECT''"
| "messageTypeText MDelegate = ''DELEGATE''"
| "messageTypeText MStatus = ''STATUS''"
| "messageTypeText MReceiptRef = ''RECEIPT_REF''"

definition isTerminalThreadState :: "thread_state \<Rightarrow> bool" where
  "isTerminalThreadState s \<longleftrightarrow> s = TClosed"

definition nextThreadState :: "thread_state \<Rightarrow> message_type \<Rightarrow> thread_state" where
  "nextThreadState current t =
     (if t = MReject then TClosed
      else (case current of
        TOpen \<Rightarrow> if t = MQuoteRequest \<or> t = MInquiry then TQuoting
                 else if t = MOffer \<or> t = MQuote then TOffered else current
      | TQuoting \<Rightarrow> if t = MQuote \<or> t = MOffer then TOffered else current
      | TOffered \<Rightarrow> if t = MCounter then TOffered else if t = MAccept then TAgreed else current
      | TAgreed \<Rightarrow> if t = MStatus \<or> t = MReceiptRef then TCommitted else current
      | TCommitted \<Rightarrow> if t = MReceiptRef then TClosed else current
      | TClosed \<Rightarrow> current))"

text \<open>A nullish field: absent, null, or a string.\<close>

type_synonym nullish = "string option option"

fun nullishField :: "string \<Rightarrow> nullish \<Rightarrow> (string \<times> json) list" where
  "nullishField k None = []"
| "nullishField k (Some v) = [(k, nullable v)]"

record message_refs =
  rf_listing :: nullish
  rf_quote :: nullish
  rf_job :: nullish

record message_postage =
  po_amount :: string
  po_currency :: string
  po_escrow :: string

record message =
  msg_id :: string
  thread_id :: string
  in_reply_to :: "string option"
  m_from :: string
  m_to :: string
  m_type :: message_type
  m_body :: "(string \<times> json) list"
  m_refs :: "message_refs option"
  m_postage :: "message_postage option"
  m_nonce :: string
  m_iat :: string
  m_exp :: string
  m_sig :: string

record stored_message =
  cursor :: nat
  smsg :: message

record thread_record =
  th_id :: string
  th_state :: thread_state
  th_opener :: string
  th_counterparty :: string
  negotiated :: "string option"
  th_listing :: "string option"
  th_updatedAt :: string

record webhook_record =
  webhook_id :: string
  wb_owner :: string
  wb_url :: string
  registered_at :: string

datatype flag_outcome = FlagReleased | FlagForfeited

section \<open>Requests and results\<close>

record send_input =
  mi_msgId :: string
  mi_thread :: "string option"
  mi_replyTo :: nullish
  mi_from :: string
  mi_to :: string
  mi_refs :: "message_refs option"
  mi_postage :: "message_postage option"
  mi_nonce :: string
  mi_iat :: string
  mi_exp :: string
  mi_sig :: string
  mi_type :: message_type
  mi_body :: "(string \<times> json) list"

record inbox_query =
  iq_recipient :: string
  iq_since :: nat
  iq_limit :: nat
  iq_nonce :: string
  iq_iat :: string
  iq_exp :: string
  iq_sig :: string

record webhook_input =
  wi_owner :: string
  wi_url :: string
  wi_nonce :: string
  wi_iat :: string
  wi_exp :: string
  wi_sig :: string

datatype flag_kind = Legit | Spam

record flag_input =
  fi_flagger :: string
  fi_kind :: flag_kind
  fi_nonce :: string
  fi_iat :: string
  fi_exp :: string
  fi_sig :: string

text \<open>Agreed terms carry the values of the quote as they stand; an absent field is \<open>None\<close>.\<close>

record term_milestone =
  tm_id :: string
  tm_amount :: "json option"
  tm_currency :: "json option"
  tm_description :: "string option"

record agreed_terms =
  at_amount :: "json option"
  at_currency :: "json option"
  at_per :: "json option"
  at_milestones :: "term_milestone list"

record agreement =
  agreement_id :: string
  ag_thread :: string
  ag_listing :: "string option"
  ag_quote :: string
  ag_requester :: string
  ag_provider :: string
  ag_terms :: agreed_terms
  agreed_at :: string
  ag_issuer :: string
  ag_sig :: string

record send_response =
  sr_msgId :: string
  sr_thread :: string
  sr_state :: thread_state
  sr_cursor :: nat
  sr_postage :: message_postage
  sr_agreement :: "agreement option"

record inbox_response =
  ir_recipient :: string
  ir_messages :: "stored_message list"
  next_cursor :: nat

record mail_cfg =
  mailSigner :: core_signer
  mailRepSigner :: core_signer
  mailSkew :: int
  postageAmount :: string
  postageCurrency :: string
  postageBurn :: rat
  spamWeight :: rat

text \<open>The constructor's defaults for the optional settings.\<close>

definition mailConfig ::
    "core_signer \<Rightarrow> core_signer \<Rightarrow> int \<Rightarrow> string option \<Rightarrow> string option \<Rightarrow> rat option \<Rightarrow> rat option \<Rightarrow> mail_cfg" where
  "mailConfig cs rs skew am cur burn weight =
     \<lparr>mailSigner = cs, mailRepSigner = rs, mailSkew = skew,
      postageAmount = (case am of None \<Rightarrow> ''0.001'' | Some a \<Rightarrow> a),
      postageCurrency = (case cur of None \<Rightarrow> ''USDC'' | Some c \<Rightarrow> c),
      postageBurn = (case burn of None \<Rightarrow> 1 / 2 | Some f \<Rightarrow> f),
      spamWeight = (case weight of None \<Rightarrow> 1 | Some x \<Rightarrow> x)\<rparr>"

record mail_world = core +
  mlog :: "stored_message list"
  mById :: "(string, stored_message) jsmap"
  mByRecipient :: "(string, stored_message list) jsmap"
  nextCursor :: nat
  threads :: "(string, thread_record) jsmap"
  postageTotals :: "(string, string) jsmap"
  webhooks :: "(string, webhook_record list) jsmap"
  flagged :: "(string, flag_outcome) jsmap"
  mailDrawn :: nat

section \<open>The objects that are signed\<close>

definition refsObj :: "message_refs \<Rightarrow> json" where
  "refsObj r = JObj (nullishField ''listing_ref'' (rf_listing r) @ nullishField ''quote_id'' (rf_quote r)
     @ nullishField ''job_ref'' (rf_job r))"

definition postageObj :: "message_postage \<Rightarrow> json" where
  "postageObj p = JObj [(''amount'', JStr (po_amount p)), (''currency'', JStr (po_currency p)), (''escrow_id'', JStr (po_escrow p))]"

definition sendObj :: "send_input \<Rightarrow> (string \<times> json) list" where
  "sendObj i = (''msg_id'', JStr (mi_msgId i)) # optField ''thread_id'' (mi_thread i)
     @ nullishField ''in_reply_to'' (mi_replyTo i)
     @ [(''from'', JStr (mi_from i)), (''to'', JStr (mi_to i))]
     @ (case mi_refs i of None \<Rightarrow> [] | Some r \<Rightarrow> [(''refs'', refsObj r)])
     @ (case mi_postage i of None \<Rightarrow> [] | Some p \<Rightarrow> [(''postage'', postageObj p)])
     @ [(''nonce'', JStr (mi_nonce i)), (''iat'', JStr (mi_iat i)), (''exp'', JStr (mi_exp i)), (''sig'', JStr (mi_sig i)),
        (''type'', JStr (messageTypeText (mi_type i))), (''body'', JObj (mi_body i))]"

definition inboxObj :: "inbox_query \<Rightarrow> (string \<times> json) list" where
  "inboxObj q = [(''recipient'', JStr (iq_recipient q)), (''since'', JNum (of_nat (iq_since q))),
     (''limit'', JNum (of_nat (iq_limit q))), (''nonce'', JStr (iq_nonce q)), (''iat'', JStr (iq_iat q)),
     (''exp'', JStr (iq_exp q)), (''sig'', JStr (iq_sig q))]"

definition webhookObj :: "webhook_input \<Rightarrow> (string \<times> json) list" where
  "webhookObj i = [(''owner'', JStr (wi_owner i)), (''url'', JStr (wi_url i)), (''nonce'', JStr (wi_nonce i)),
     (''iat'', JStr (wi_iat i)), (''exp'', JStr (wi_exp i)), (''sig'', JStr (wi_sig i))]"

fun flagKindText :: "flag_kind \<Rightarrow> string" where
  "flagKindText Legit = ''legit''"
| "flagKindText Spam = ''spam''"

definition flagObj :: "flag_input \<Rightarrow> (string \<times> json) list" where
  "flagObj i = [(''flagger'', JStr (fi_flagger i)), (''kind'', JStr (flagKindText (fi_kind i))), (''nonce'', JStr (fi_nonce i)),
     (''iat'', JStr (fi_iat i)), (''exp'', JStr (fi_exp i)), (''sig'', JStr (fi_sig i))]"

definition optJson :: "string \<Rightarrow> json option \<Rightarrow> (string \<times> json) list" where
  "optJson k v = (case v of None \<Rightarrow> [] | Some j \<Rightarrow> [(k, j)])"

definition termMilestoneObj :: "term_milestone \<Rightarrow> json" where
  "termMilestoneObj m = JObj ([(''id'', JStr (tm_id m)),
       (''amount'', JObj (optJson ''amount'' (tm_amount m) @ optJson ''currency'' (tm_currency m)))]
     @ optField ''description'' (tm_description m))"

definition termsObj :: "agreed_terms \<Rightarrow> json" where
  "termsObj t = JObj [(''price'', JObj (optJson ''amount'' (at_amount t) @ optJson ''currency'' (at_currency t)
       @ optJson ''per'' (at_per t))), (''milestones'', JArr (map termMilestoneObj (at_milestones t)))]"

text \<open>The agreement as it is signed, without the signature.\<close>

definition agreementObj :: "agreement \<Rightarrow> (string \<times> json) list" where
  "agreementObj a = [(''agreement_id'', JStr (agreement_id a)), (''thread_id'', JStr (ag_thread a)),
     (''listing_ref'', nullable (ag_listing a)), (''quote_id'', JStr (ag_quote a)),
     (''parties'', JObj [(''requester'', JStr (ag_requester a)), (''provider'', JStr (ag_provider a))]),
     (''terms'', termsObj (ag_terms a)), (''agreed_at'', JStr (agreed_at a)), (''iat'', JStr (agreed_at a)),
     (''issuer'', JStr (ag_issuer a))]"

section \<open>The repositories\<close>

definition appendMessage :: "message \<Rightarrow> ('a mail_world_scheme, nat) exec" where
  "appendMessage m =
     bindE (gets nextCursor) (\<lambda>c.
     let s = \<lparr>cursor = c, smsg = m\<rparr> in
     bindE (modify (\<lambda>w. w\<lparr>nextCursor := Suc c, mlog := mlog w @ [s], mById := mapSet (msg_id m) s (mById w),
       mByRecipient := mapSet (m_to m) ((case mapGet (mByRecipient w) (m_to m) of None \<Rightarrow> [] | Some b \<Rightarrow> b) @ [s])
         (mByRecipient w)\<rparr>)) (\<lambda>_.
     ret c))"

text \<open>The loop of \<open>inbox\<close>: it stops as soon as \<open>limit\<close> messages are collected.\<close>

fun inboxLoop :: "nat \<Rightarrow> nat \<Rightarrow> stored_message list \<Rightarrow> stored_message list \<Rightarrow> stored_message list" where
  "inboxLoop since limit out [] = out"
| "inboxLoop since limit out (s # ss) =
     (if since < cursor s then
        (let out' = out @ [s] in if limit \<le> length out' then out' else inboxLoop since limit out' ss)
      else inboxLoop since limit out ss)"

definition bucketOf :: "string \<Rightarrow> 'a mail_world_scheme \<Rightarrow> stored_message list" where
  "bucketOf d w = (case mapGet (mByRecipient w) d of None \<Rightarrow> [] | Some b \<Rightarrow> b)"

definition inboxOf :: "string \<Rightarrow> nat \<Rightarrow> nat \<Rightarrow> 'a mail_world_scheme \<Rightarrow> stored_message list" where
  "inboxOf d since limit w = inboxLoop since limit [] (bucketOf d w)"

definition putThread :: "thread_record \<Rightarrow> ('a mail_world_scheme, unit) exec" where
  "putThread t = modify (\<lambda>w. w\<lparr>threads := mapSet (th_id t) t (threads w)\<rparr>)"

definition postageKey :: "string \<Rightarrow> string \<Rightarrow> string" where
  "postageKey sender day = sender @ ''::'' @ day"

definition spentOnDay :: "string \<Rightarrow> string \<Rightarrow> 'a mail_world_scheme \<Rightarrow> string" where
  "spentOnDay sender day w = (case mapGet (postageTotals w) (postageKey sender day) of None \<Rightarrow> ''0'' | Some t \<Rightarrow> t)"

definition recordHold :: "ext \<Rightarrow> string \<Rightarrow> string \<Rightarrow> string \<Rightarrow> ('a mail_world_scheme, unit) exec" where
  "recordHold E sender day am =
     bindE (gets (spentOnDay sender day)) (\<lambda>current.
     bindE (plusE E current am) (\<lambda>t.
     modify (\<lambda>w. w\<lparr>postageTotals := mapSet (postageKey sender day) t (postageTotals w)\<rparr>)))"

definition putWebhook :: "webhook_record \<Rightarrow> ('a mail_world_scheme, unit) exec" where
  "putWebhook r = modify (\<lambda>w. w\<lparr>webhooks := mapSet (wb_owner r)
     ((case mapGet (webhooks w) (wb_owner r) of None \<Rightarrow> [] | Some b \<Rightarrow> b) @ [r]) (webhooks w)\<rparr>)"

definition webhooksOf :: "string \<Rightarrow> 'a mail_world_scheme \<Rightarrow> webhook_record list" where
  "webhooksOf d w = (case mapGet (webhooks w) d of None \<Rightarrow> [] | Some b \<Rightarrow> b)"

definition recordFlag :: "string \<Rightarrow> flag_outcome \<Rightarrow> ('a mail_world_scheme, unit) exec" where
  "recordFlag i oc = modify (\<lambda>w. w\<lparr>flagged := mapSet i oc (flagged w)\<rparr>)"

definition newMailId :: "ext \<Rightarrow> string \<Rightarrow> ('a mail_world_scheme, string) exec" where
  "newMailId E prefix = bindE (gets mailDrawn) (\<lambda>n.
     bindE (modify (\<lambda>w. w\<lparr>mailDrawn := Suc n\<rparr>)) (\<lambda>_. ret (prefix @ ''_'' @ ulid E n)))"

section \<open>Threads\<close>

text \<open>Types that may open a thread without moving it out of \<open>OPEN\<close>.\<close>

definition opensThread :: "message_type \<Rightarrow> bool" where
  "opensThread t \<longleftrightarrow> t = MInquiry \<or> t = MQuoteRequest \<or> t = MQuote \<or> t = MOffer \<or> t = MDelegate"

definition isLegalSelfTransition :: "thread_state \<Rightarrow> message_type \<Rightarrow> bool" where
  "isLegalSelfTransition s t \<longleftrightarrow> s = TOffered \<and> t = MCounter \<or> s = TCommitted \<and> t = MStatus"

text \<open>Release the hold, then throw.\<close>

definition refundThen :: "ext \<Rightarrow> string \<Rightarrow> app_error \<Rightarrow> ('a core_scheme, 'r) exec" where
  "refundThen E h e = bindE (inWallet (release E h)) (\<lambda>_. throw e)"

definition resolveReply ::
    "ext \<Rightarrow> send_input \<Rightarrow> string \<Rightarrow> string \<Rightarrow> ('a mail_world_scheme, string \<times> thread_state) exec" where
  "resolveReply E i parentId h =
     bindE (gets (\<lambda>w. mapGet (mById w) parentId)) (\<lambda>parent.
     case parent of
       None \<Rightarrow> refundThen E h NotFoundError
     | Some p \<Rightarrow>
         bindE (gets (\<lambda>w. mapGet (threads w) (thread_id (smsg p)))) (\<lambda>thread.
         case thread of
           None \<Rightarrow> refundThen E h NotFoundError
         | Some th \<Rightarrow>
             if isTerminalThreadState (th_state th) then refundThen E h ConflictError
             else
               (let next_st = nextThreadState (th_state th) (mi_type i) in
                if next_st = th_state th \<and> \<not> isLegalSelfTransition (th_state th) (mi_type i)
                then refundThen E h ConflictError
                else ret (thread_id (smsg p), next_st))))"

definition resolveOpener :: "ext \<Rightarrow> send_input \<Rightarrow> string \<Rightarrow> ('a mail_world_scheme, string \<times> thread_state) exec" where
  "resolveOpener E i h =
     bindE (case mi_thread i of None \<Rightarrow> newMailId E ''thr'' | Some t \<Rightarrow> ret t) (\<lambda>t.
     let next_st = nextThreadState TOpen (mi_type i) in
     if next_st = TOpen \<and> \<not> opensThread (mi_type i) then refundThen E h ConflictError
     else ret (t, next_st))"

text \<open>\<open>if (!input.in_reply_to)\<close>: absent, null and the empty string all open a thread.\<close>

fun replyTarget :: "nullish \<Rightarrow> string option" where
  "replyTarget (Some (Some p)) = (if p = '''' then None else Some p)"
| "replyTarget _ = None"

definition resolveThread :: "ext \<Rightarrow> send_input \<Rightarrow> string \<Rightarrow> ('a mail_world_scheme, string \<times> thread_state) exec" where
  "resolveThread E i h =
     (case replyTarget (mi_replyTo i) of None \<Rightarrow> resolveOpener E i h | Some p \<Rightarrow> resolveReply E i p h)"

section \<open>Quotes in message bodies\<close>

record quote_ref =
  qr_quote :: string
  qr_listing :: string
  qr_price :: "json option"

definition tryExtractQuote :: "(string \<times> json) list \<Rightarrow> quote_ref option" where
  "tryExtractQuote body =
     (case mapGet body ''quote'' of
        Some (JObj q) \<Rightarrow>
          (case (field q ''quote_id'', field q ''listing_id'') of
             (Some i, Some l) \<Rightarrow> Some \<lparr>qr_quote = i, qr_listing = l, qr_price = mapGet q ''price''\<rparr>
           | _ \<Rightarrow> None)
      | _ \<Rightarrow> None)"

text \<open>A property access \<open>v.k\<close>: on undefined and null it throws.\<close>

definition propOf :: "json option \<Rightarrow> string \<Rightarrow> ('s, json option) exec" where
  "propOf v k =
     (case v of
        None \<Rightarrow> throw JsError
      | Some JNull \<Rightarrow> throw JsError
      | Some (JObj o1) \<Rightarrow> ret (mapGet o1 k)
      | Some _ \<Rightarrow> ret None)"

text \<open>\<open>typeof v === 'object'\<close>, which holds of null and of arrays too.\<close>

fun isObjectLike :: "json option \<Rightarrow> bool" where
  "isObjectLike (Some JNull) = True"
| "isObjectLike (Some (JObj _)) = True"
| "isObjectLike (Some (JArr _)) = True"
| "isObjectLike _ = False"

fun milestoneTerms :: "json list \<Rightarrow> ('s, term_milestone list) exec" where
  "milestoneTerms [] = ret []"
| "milestoneTerms (JObj m # ms) =
     (case field m ''id'' of
        None \<Rightarrow> milestoneTerms ms
      | Some i \<Rightarrow>
          if \<not> isObjectLike (mapGet m ''amount'') then milestoneTerms ms
          else
            bindE (propOf (mapGet m ''amount'') ''amount'') (\<lambda>a.
            bindE (propOf (mapGet m ''amount'') ''currency'') (\<lambda>c.
            bindE (milestoneTerms ms) (\<lambda>rest.
            ret (\<lparr>tm_id = i, tm_amount = a, tm_currency = c, tm_description = field m ''description''\<rparr> # rest)))))"
| "milestoneTerms (_ # ms) = milestoneTerms ms"

definition normalizeMilestones :: "json option \<Rightarrow> ('s, term_milestone list) exec" where
  "normalizeMilestones raw = (case raw of Some (JArr ms) \<Rightarrow> milestoneTerms ms | _ \<Rightarrow> ret [])"

definition termsFrom :: "message \<Rightarrow> quote_ref \<Rightarrow> ('s, agreed_terms) exec" where
  "termsFrom m q =
     bindE (propOf (qr_price q) ''amount'') (\<lambda>a.
     bindE (propOf (qr_price q) ''currency'') (\<lambda>c.
     bindE (propOf (qr_price q) ''per'') (\<lambda>p.
     bindE (normalizeMilestones (mapGet (m_body m) ''milestones'')) (\<lambda>ms.
     ret \<lparr>at_amount = a, at_currency = c, at_per = p, at_milestones = ms\<rparr>))))"

text \<open>The first quote message of an inbox page that carries the quote.\<close>

definition carries :: "string \<Rightarrow> stored_message \<Rightarrow> bool" where
  "carries quoteId s \<longleftrightarrow> m_type (smsg s) = MQuote \<and>
     (case tryExtractQuote (m_body (smsg s)) of None \<Rightarrow> False | Some q \<Rightarrow> qr_quote q = quoteId)"

definition deriveAgreedTerms :: "string \<Rightarrow> string \<Rightarrow> string \<Rightarrow> ('a mail_world_scheme, agreed_terms) exec" where
  "deriveAgreedTerms partyA partyB quoteId =
     bindE (gets (\<lambda>w. find (carries quoteId) (inboxOf partyA 0 1000 w @ inboxOf partyB 0 1000 w))) (\<lambda>hit.
     bindE (orThrow hit ConflictError) (\<lambda>s.
     bindE (orThrow (tryExtractQuote (m_body (smsg s))) ConflictError) (\<lambda>q.
     termsFrom (smsg s) q)))"

definition buildAgreement :: "ext \<Rightarrow> mail_cfg \<Rightarrow> int \<Rightarrow> message \<Rightarrow> string \<Rightarrow> ('a mail_world_scheme, agreement) exec" where
  "buildAgreement E cfg now m t =
     bindE (gets (\<lambda>w. mapGet (threads w) t)) (\<lambda>found.
     bindE (orThrow found ConflictError) (\<lambda>th.
     bindE (orThrow (negotiated th) ConflictError) (\<lambda>q.
     bindE (throwIf (q = '''') ConflictError) (\<lambda>_.
     bindE (throwIf (field (m_body m) ''accepts_quote_id'' \<noteq> Some q) ConflictError) (\<lambda>_.
     bindE (deriveAgreedTerms (m_to m) (m_from m) q) (\<lambda>ts.
     bindE (newMailId E ''agr'') (\<lambda>i.
     let a = \<lparr>agreement_id = i, ag_thread = t, ag_listing = th_listing th, ag_quote = q,
           ag_requester = th_opener th, ag_provider = th_counterparty th, ag_terms = ts, agreed_at = isoOf E now,
           ag_issuer = cs_did (mailSigner cfg), ag_sig = ''''\<rparr> in
     ret (a\<lparr>ag_sig := signDetached E (JObj (agreementObj a)) (cs_sk (mailSigner cfg)) (cs_kid (mailSigner cfg))\<rparr>))))))))"

section \<open>Sending\<close>

definition persistThreadState ::
    "ext \<Rightarrow> int \<Rightarrow> message \<Rightarrow> string \<Rightarrow> thread_state \<Rightarrow> ('a mail_world_scheme, unit) exec" where
  "persistThreadState E now m t next_st =
     bindE (gets (\<lambda>w. mapGet (threads w) t)) (\<lambda>existing.
     bindE (if m_type m = MQuote then
              bindE (orThrow (tryExtractQuote (m_body m)) ValidationError) (\<lambda>q.
              ret (Some (qr_quote q),
                (case m_refs m of
                   Some r \<Rightarrow> (case rf_listing r of Some (Some l) \<Rightarrow> Some l | _ \<Rightarrow> Some (qr_listing q))
                 | None \<Rightarrow> Some (qr_listing q))))
            else ret (Option.bind existing negotiated, Option.bind existing th_listing)) (\<lambda>(q, l).
     putThread \<lparr>th_id = t, th_state = next_st,
       th_opener = (case existing of None \<Rightarrow> m_from m | Some x \<Rightarrow> th_opener x),
       th_counterparty = (case existing of None \<Rightarrow> m_to m | Some x \<Rightarrow> th_counterparty x),
       negotiated = q, th_listing = l, th_updatedAt = isoOf E now\<rparr>))"

definition messageAction :: "mail_cfg \<Rightarrow> send_input \<Rightarrow> policy_action" where
  "messageAction cfg i = \<lparr>a_kind = KMessage, a_agent = mi_from i,
     a_amount = Some \<lparr>amount = postageAmount cfg, currency = postageCurrency cfg\<rparr>, a_category = None,
     a_counterparty = Some (mi_to i), a_subKind = None\<rparr>"

text \<open>Steps 1 to 3: who may send, and the postage of the day. The result is the spent total so far.\<close>

definition admit :: "ext \<Rightarrow> mail_cfg \<Rightarrow> int \<Rightarrow> send_input \<Rightarrow> ('a mail_world_scheme, unit) exec" where
  "admit E cfg now i =
     bindE (verifyAs E now (mailSkew cfg) (sendObj i) (sigOpts (mi_from i))) (\<lambda>_.
     bindE (gets (\<lambda>w. List.member (revokedDids (idn w)) (mi_from i))) (\<lambda>killed.
     bindE (throwIf killed ForbiddenError) (\<lambda>_.
     bindE (gets (\<lambda>w. activeDelegation E now (mi_from i) (idn w))) (\<lambda>del.
     bindE (orThrow del ForbiddenError) (\<lambda>dl.
     bindE (gets (spentOnDay (mi_from i) (utcDayBucket E now))) (\<lambda>spentToday.
     bindE (evaluate E dl (messageAction cfg i)
       \<lparr>u_daily = \<lparr>amount = spentToday, currency = postageCurrency cfg\<rparr>,
        u_total = \<lparr>amount = ''0'', currency = postageCurrency cfg\<rparr>\<rparr>) (\<lambda>decision.
     bindE (throwIf (decision \<noteq> Allow) ForbiddenError) (\<lambda>_.
     bindE (plusE E spentToday (postageAmount cfg)) (\<lambda>projected.
     bindE (ltE E (max_postage_per_day (messaging (policy dl))) projected) (\<lambda>over.
     throwIf over PaymentRequiredError))))))))))"

definition messageOf :: "mail_cfg \<Rightarrow> send_input \<Rightarrow> string \<Rightarrow> string \<Rightarrow> message" where
  "messageOf cfg i t h =
     \<lparr>msg_id = mi_msgId i, thread_id = t, in_reply_to = (case mi_replyTo i of None \<Rightarrow> None | Some v \<Rightarrow> v),
      m_from = mi_from i, m_to = mi_to i, m_type = mi_type i, m_body = mi_body i, m_refs = mi_refs i,
      m_postage = Some \<lparr>po_amount = postageAmount cfg, po_currency = postageCurrency cfg, po_escrow = h\<rparr>,
      m_nonce = mi_nonce i, m_iat = mi_iat i, m_exp = mi_exp i, m_sig = mi_sig i\<rparr>"

text \<open>Steps 4 and 5: the thread, the message and, for an accept, the agreement.\<close>

definition deliverMessage :: "ext \<Rightarrow> mail_cfg \<Rightarrow> int \<Rightarrow> send_input \<Rightarrow> string \<Rightarrow> ('a mail_world_scheme, send_response) exec" where
  "deliverMessage E cfg now i h =
     bindE (resolveThread E i h) (\<lambda>(t, next_st).
     let m = messageOf cfg i t h in
     bindE (appendMessage m) (\<lambda>c.
     bindE (persistThreadState E now m t next_st) (\<lambda>_.
     bindE (if mi_type i = MAccept then bindE (buildAgreement E cfg now m t) (\<lambda>a. ret (Some a)) else ret None) (\<lambda>a.
     ret \<lparr>sr_msgId = msg_id m, sr_thread = t, sr_state = next_st, sr_cursor = c,
          sr_postage = \<lparr>po_amount = postageAmount cfg, po_currency = postageCurrency cfg, po_escrow = h\<rparr>,
          sr_agreement = a\<rparr>))))"

definition send :: "ext \<Rightarrow> mail_cfg \<Rightarrow> int \<Rightarrow> send_input \<Rightarrow> ('a mail_world_scheme, send_response) exec" where
  "send E cfg now i =
     bindE (admit E cfg now i) (\<lambda>_.
     bindE (inWallet (hold E now (mi_from i) \<lparr>amount = postageAmount cfg, currency = postageCurrency cfg\<rparr>
       (''postage:'' @ mi_msgId i))) (\<lambda>h.
     bindE (recordHold E (mi_from i) (utcDayBucket E now) (postageAmount cfg)) (\<lambda>_.
     deliverMessage E cfg now i h)))"

section \<open>Reading, webhooks and flags\<close>

definition inbox :: "ext \<Rightarrow> mail_cfg \<Rightarrow> int \<Rightarrow> inbox_query \<Rightarrow> ('a mail_world_scheme, inbox_response) exec" where
  "inbox E cfg now q =
     bindE (verifyAs E now (mailSkew cfg) (inboxObj q) (sigOpts (iq_recipient q))) (\<lambda>_.
     bindE (gets (inboxOf (iq_recipient q) (iq_since q) (iq_limit q))) (\<lambda>ms.
     ret \<lparr>ir_recipient = iq_recipient q, ir_messages = ms,
          next_cursor = (if ms = [] then iq_since q else cursor (last ms))\<rparr>))"

definition registerWebhook :: "ext \<Rightarrow> mail_cfg \<Rightarrow> int \<Rightarrow> webhook_input \<Rightarrow> ('a mail_world_scheme, webhook_record) exec" where
  "registerWebhook E cfg now i =
     bindE (verifyAs E now (mailSkew cfg) (webhookObj i) (sigOpts (wi_owner i))) (\<lambda>_.
     bindE (newMailId E ''wh'') (\<lambda>wid.
     let r = \<lparr>webhook_id = wid, wb_owner = wi_owner i, wb_url = wi_url i, registered_at = isoOf E now\<rparr> in
     bindE (putWebhook r) (\<lambda>_. ret r)))"

definition settleFlag :: "ext \<Rightarrow> mail_cfg \<Rightarrow> int \<Rightarrow> string \<Rightarrow> flag_kind \<Rightarrow> message \<Rightarrow> string \<Rightarrow> ('a mail_world_scheme, flag_outcome) exec" where
  "settleFlag E cfg now i kd m h =
     (if kd = Legit then
        bindE (inWallet (release E h)) (\<lambda>_. bindE (recordFlag i FlagReleased) (\<lambda>_. ret FlagReleased))
      else
        bindE (inWallet (forfeit E h (Some (m_to m, postageBurn cfg)))) (\<lambda>_.
        bindE (inReputation (ingestSignal E (mailRepSigner cfg) now (m_from m) ''message_spam'' (spamWeight cfg))) (\<lambda>_.
        bindE (recordFlag i FlagForfeited) (\<lambda>_. ret FlagForfeited))))"

definition flagMessage ::
    "ext \<Rightarrow> mail_cfg \<Rightarrow> int \<Rightarrow> string \<Rightarrow> flag_input \<Rightarrow> ('a mail_world_scheme, flag_outcome) exec" where
  "flagMessage E cfg now i input =
     bindE (verifyAs E now (mailSkew cfg) (flagObj input) (sigOpts (fi_flagger input))) (\<lambda>_.
     bindE (gets (\<lambda>w. mapGet (mById w) i)) (\<lambda>found.
     bindE (orThrow found NotFoundError) (\<lambda>s.
     bindE (throwIf (m_to (smsg s) \<noteq> fi_flagger input) ForbiddenError) (\<lambda>_.
     bindE (orThrow (m_postage (smsg s)) ValidationError) (\<lambda>po.
     bindE (throwIf (po_escrow po = '''') ValidationError) (\<lambda>_.
     bindE (gets (\<lambda>w. mapGet (flagged w) i)) (\<lambda>prior.
     case prior of
       Some oc \<Rightarrow> ret oc
     | None \<Rightarrow> settleFlag E cfg now i (fi_kind input) (smsg s) (po_escrow po))))))))"

end
