(* ===== verification/Mailroom_Spec.thy ===== *)
theory Mailroom_Spec
  imports Mailroom
begin

text \<open>
  What the mailroom guarantees: replies move a thread along the machine \<open>threadStep\<close>, a message that
  is accepted was authorised and has locked its postage, polling an inbox loses and repeats nothing,
  a flag settles the postage once. Two properties show what the code does not guarantee: the terms
  of an agreement need not be those the counterparty quoted, and an opening message can take over an
  existing thread.
\<close>

section \<open>The thread machine\<close>

text \<open>The moves of a thread that is not closed.\<close>

inductive threadStep :: "thread_state \<Rightarrow> message_type \<Rightarrow> thread_state \<Rightarrow> bool" where
  reject: "s \<noteq> TClosed \<Longrightarrow> threadStep s MReject TClosed"
| ask: "t = MInquiry \<or> t = MQuoteRequest \<Longrightarrow> threadStep TOpen t TQuoting"
| propose: "s = TOpen \<or> s = TQuoting \<Longrightarrow> t = MQuote \<or> t = MOffer \<Longrightarrow> threadStep s t TOffered"
| counter: "threadStep TOffered MCounter TOffered"
| agree: "threadStep TOffered MAccept TAgreed"
| commit: "t = MStatus \<or> t = MReceiptRef \<Longrightarrow> threadStep TAgreed t TCommitted"
| progress: "threadStep TCommitted MStatus TCommitted"
| settle: "threadStep TCommitted MReceiptRef TClosed"

inductive_simps threadStep_simps: "threadStep s t s'"
inductive_cases threadStep_closedE: "threadStep TClosed t s'"

lemma closed_is_final: "\<not> threadStep TClosed t s'"
  by (auto elim: threadStep_closedE)

text \<open>The code's test lets through exactly the moves of the machine, to the state it computes.\<close>

lemma threadStep_code:
  "threadStep s t s' \<longleftrightarrow> \<not> isTerminalThreadState s \<and> s' = nextThreadState s t \<and>
     \<not> (nextThreadState s t = s \<and> \<not> isLegalSelfTransition s t)"
  unfolding threadStep_simps isTerminalThreadState_def nextThreadState_def isLegalSelfTransition_def
  by (cases s; cases t) auto

lemma threadStep_functional: "threadStep s t s' \<Longrightarrow> threadStep s t s'' \<Longrightarrow> s' = s''"
  by (simp add: threadStep_code)

section \<open>What a send does\<close>

lemma refundThen_throws [simp]: "refundThen E h e w \<noteq> (Inr x, w')"
  by (cases "inWallet (release E h) w") (auto simp: refundThen_def bindE_app split: sum.split)

lemma resolveReply_ok:
  assumes "resolveReply E i p h w = (Inr (t, s'), w')"
  obtains pm th where "w' = w" "mapGet (mById w) p = Some pm" "thread_id (smsg pm) = t" "mapGet (threads w) t = Some th"
    "threadStep (th_state th) (mi_type i) s'"
proof -
  obtain pm where pm: "mapGet (mById w) p = Some pm"
    using assms by (cases "mapGet (mById w) p") (auto simp: resolveReply_def exec_simps)
  obtain th where th: "mapGet (threads w) (thread_id (smsg pm)) = Some th"
    using assms pm
    by (cases "mapGet (threads w) (thread_id (smsg pm))") (auto simp: resolveReply_def exec_simps)
  show ?thesis
  proof (rule that [OF _ pm _ _])
    show "w' = w" "thread_id (smsg pm) = t" "threadStep (th_state th) (mi_type i) s'" "mapGet (threads w) t = Some th"
      using assms pm th
      by (auto simp: resolveReply_def exec_simps threadStep_code Let_def split: if_splits)
  qed
qed

lemma newMailId_app: "newMailId E p w = (Inr (p @ ''_'' @ ulid E (mailDrawn w)), w\<lparr>mailDrawn := Suc (mailDrawn w)\<rparr>)"
  by (simp add: newMailId_def bindE_app)

lemma resolveOpener_ok:
  assumes "resolveOpener E i h w = (Inr (t, s'), w')"
  shows "\<exists>n. w' = w\<lparr>mailDrawn := n\<rparr>" "s' = nextThreadState TOpen (mi_type i)" "mi_thread i = Some t0 \<Longrightarrow> t = t0"
proof -
  obtain t1 n where d: "(case mi_thread i of None \<Rightarrow> newMailId E ''thr'' | Some t \<Rightarrow> ret t) w = (Inr t1, w\<lparr>mailDrawn := n\<rparr>)"
    "mi_thread i = Some t0 \<Longrightarrow> t1 = t0"
  proof (cases "mi_thread i")
    case None
    then show ?thesis by (intro that [of "''thr_'' @ ulid E (mailDrawn w)" "Suc (mailDrawn w)"]) (simp_all add: newMailId_app)
  next
    case (Some t)
    then show ?thesis by (intro that [of t "mailDrawn w"]) simp_all
  qed
  have "t1 = t \<and> s' = nextThreadState TOpen (mi_type i) \<and> w' = w\<lparr>mailDrawn := n\<rparr>"
    using assms d(1) by (auto simp: resolveOpener_def bindE_app [of "case_option _ _ _"] Let_def split: if_splits)
  then show "\<exists>n. w' = w\<lparr>mailDrawn := n\<rparr>" "s' = nextThreadState TOpen (mi_type i)" "mi_thread i = Some t0 \<Longrightarrow> t = t0"
    using d(2) by auto
qed

text \<open>The opening of a thread, or the move of an existing one.\<close>

lemma resolveThread_ok:
  assumes "resolveThread E i h w = (Inr (t, s'), w')"
  shows "\<exists>n. w' = w\<lparr>mailDrawn := n\<rparr>"
    "replyTarget (mi_replyTo i) = Some p \<Longrightarrow> \<exists>pm th. mapGet (mById w) p = Some pm \<and> thread_id (smsg pm) = t \<and>
       mapGet (threads w) t = Some th \<and> threadStep (th_state th) (mi_type i) s'"
    "replyTarget (mi_replyTo i) = None \<Longrightarrow> s' = nextThreadState TOpen (mi_type i) \<and> (\<forall>t0. mi_thread i = Some t0 \<longrightarrow> t = t0)"
proof -
  show "\<exists>n. w' = w\<lparr>mailDrawn := n\<rparr>"
  proof (cases "replyTarget (mi_replyTo i)")
    case None
    then show ?thesis using assms resolveOpener_ok(1) by (simp add: resolveThread_def)
  next
    case (Some q)
    then have "resolveReply E i q h w = (Inr (t, s'), w')" using assms by (simp add: resolveThread_def)
    then have "w' = w" by (rule resolveReply_ok)
    then show ?thesis by (intro exI [of _ "mailDrawn w"]) simp
  qed
  show "\<exists>pm th. mapGet (mById w) p = Some pm \<and> thread_id (smsg pm) = t \<and>
       mapGet (threads w) t = Some th \<and> threadStep (th_state th) (mi_type i) s'" if "replyTarget (mi_replyTo i) = Some p"
  proof -
    have "resolveReply E i p h w = (Inr (t, s'), w')" using assms that by (simp add: resolveThread_def)
    then show ?thesis by (rule resolveReply_ok) blast
  qed
  show "s' = nextThreadState TOpen (mi_type i) \<and> (\<forall>t0. mi_thread i = Some t0 \<longrightarrow> t = t0)" if "replyTarget (mi_replyTo i) = None"
  proof -
    have "resolveOpener E i h w = (Inr (t, s'), w')" using assms that by (simp add: resolveThread_def)
    then show ?thesis using resolveOpener_ok(2,3) by blast
  qed
qed

lemma appendMessage_app: "appendMessage m w = (Inr (nextCursor w),
    w\<lparr>nextCursor := Suc (nextCursor w), mlog := mlog w @ [\<lparr>cursor = nextCursor w, smsg = m\<rparr>],
      mById := mapSet (msg_id m) \<lparr>cursor = nextCursor w, smsg = m\<rparr> (mById w),
      mByRecipient := mapSet (m_to m) (bucketOf (m_to m) w @ [\<lparr>cursor = nextCursor w, smsg = m\<rparr>]) (mByRecipient w)\<rparr>)"
  by (simp add: appendMessage_def bindE_app Let_def bucketOf_def)

lemma persistThreadState_ok:
  assumes "persistThreadState E now m t s' w = (Inr u, w')"
  shows "\<exists>th. w' = w\<lparr>threads := mapSet t th (threads w)\<rparr> \<and> th_id th = t \<and> th_state th = s' \<and>
    th_opener th = (case mapGet (threads w) t of None \<Rightarrow> m_from m | Some x \<Rightarrow> th_opener x) \<and>
    th_counterparty th = (case mapGet (threads w) t of None \<Rightarrow> m_to m | Some x \<Rightarrow> th_counterparty x)"
proof -
  have put: "\<exists>th. w' = w\<lparr>threads := mapSet t th (threads w)\<rparr> \<and> th_id th = t \<and> th_state th = s' \<and>
      th_opener th = o1 \<and> th_counterparty th = c1"
    if "putThread \<lparr>th_id = t, th_state = s', th_opener = o1, th_counterparty = c1, negotiated = q, th_listing = l,
      th_updatedAt = d\<rparr> w = (Inr u, w')" for o1 c1 q l d
    using that by (auto simp: putThread_def)
  show ?thesis
  proof (cases "m_type m = MQuote")
    case True
    then show ?thesis using assms put
      by (cases "tryExtractQuote (m_body m)") (simp_all add: persistThreadState_def exec_simps)
  next
    case False
    then show ?thesis using assms put by (simp add: persistThreadState_def exec_simps)
  qed
qed

lemma keeps_propOf [keeps_rules]: "keeps P (propOf v k)"
  unfolding propOf_def by (auto split: option.split json.split intro: keeps_rules simp del: ret_app)

lemma keeps_milestoneTerms [keeps_rules]: "keeps P (milestoneTerms ms)"
  by (induction ms rule: milestoneTerms.induct) (auto split: option.split intro!: keeps_rules simp del: ret_app)

lemma keeps_normalizeMilestones [keeps_rules]: "keeps P (normalizeMilestones raw)"
  unfolding normalizeMilestones_def by (auto split: option.split json.split intro: keeps_rules simp del: ret_app)

lemma keeps_deriveAgreedTerms [keeps_rules]: "keeps P (deriveAgreedTerms a b q)"
  unfolding deriveAgreedTerms_def termsFrom_def by (intro keeps_rules)

lemma deriveAgreedTerms_pure: "deriveAgreedTerms a b q w = (fst (deriveAgreedTerms a b q w), w)"
  using keepsD [OF keeps_deriveAgreedTerms, of "\<lambda>x. x = w" w a b q] by (metis prod.collapse)

lemma buildAgreement_only:
  assumes "buildAgreement E cfg now m t w = (r, w')"
  shows "w'\<lparr>mailDrawn := 0\<rparr> = w\<lparr>mailDrawn := 0\<rparr>"
proof -
  have d: "frames f (deriveAgreedTerms a b q)" for f :: "'a mail_world_scheme \<Rightarrow> 'v" and a b q
    by (simp add: frames_def keeps_deriveAgreedTerms)
  have n: "frames (\<lambda>w. w\<lparr>mailDrawn := 0\<rparr>) (newMailId E p :: ('a mail_world_scheme, string) exec)" for p
    unfolding newMailId_def by (intro frames_rules) simp
  have "frames (\<lambda>w. w\<lparr>mailDrawn := 0\<rparr>) (buildAgreement E cfg now m t :: ('a mail_world_scheme, agreement) exec)"
    unfolding buildAgreement_def by (intro frames_rules d n)
  from frames_out [OF this assms] show ?thesis .
qed

text \<open>What a send that returns has done after the postage was held.\<close>

lemma deliverMessage_ok:
  assumes "deliverMessage E cfg now i h w = (Inr r, w')"
  shows "wal w' = wal w" "idn w' = idn w"
    "\<exists>th. mapGet (threads w') (sr_thread r) = Some th \<and> th_state th = sr_state r \<and>
      th_opener th = (case mapGet (threads w) (sr_thread r) of None \<Rightarrow> mi_from i | Some x \<Rightarrow> th_opener x) \<and>
      th_counterparty th = (case mapGet (threads w) (sr_thread r) of None \<Rightarrow> mi_to i | Some x \<Rightarrow> th_counterparty x)"
    "replyTarget (mi_replyTo i) = Some p \<Longrightarrow> \<exists>pm th. mapGet (mById w) p = Some pm \<and> thread_id (smsg pm) = sr_thread r \<and>
       mapGet (threads w) (sr_thread r) = Some th \<and> threadStep (th_state th) (mi_type i) (sr_state r)"
    "replyTarget (mi_replyTo i) = None \<Longrightarrow> sr_state r = nextThreadState TOpen (mi_type i) \<and>
       (\<forall>t0. mi_thread i = Some t0 \<longrightarrow> sr_thread r = t0)"
    "mapGet (mById w') (mi_msgId i) = Some \<lparr>cursor = sr_cursor r, smsg = messageOf cfg i (sr_thread r) h\<rparr>"
    "sr_postage r = \<lparr>po_amount = postageAmount cfg, po_currency = postageCurrency cfg, po_escrow = h\<rparr>"
proof -
  obtain t s' w1 where rt: "resolveThread E i h w = (Inr (t, s'), w1)"
    using assms unfolding deliverMessage_def by (elim bindE_InrE) (auto split: prod.splits)
  obtain n where w1: "w1 = w\<lparr>mailDrawn := n\<rparr>" using resolveThread_ok(1) [OF rt] by blast
  let ?m = "messageOf cfg i t h"
  let ?w2 = "snd (appendMessage ?m w1)"
  let ?agree = "if mi_type i = MAccept then bindE (buildAgreement E cfg now ?m t) (\<lambda>a. ret (Some a)) else ret None"
  let ?resp = "\<lambda>a. \<lparr>sr_msgId = msg_id ?m, sr_thread = t, sr_state = s', sr_cursor = nextCursor w1,
          sr_postage = \<lparr>po_amount = postageAmount cfg, po_currency = postageCurrency cfg, po_escrow = h\<rparr>,
          sr_agreement = a\<rparr>"
  have tail: "bindE (persistThreadState E now ?m t s') (\<lambda>_. bindE ?agree (\<lambda>a. ret (?resp a))) ?w2 = (Inr r, w')"
    using assms by (simp add: deliverMessage_def bindE_app [of "resolveThread _ _ _"] rt bindE_app [of "appendMessage _"]
        appendMessage_app Let_def)
  obtain u w3 where pt: "persistThreadState E now ?m t s' ?w2 = (Inr u, w3)"
    and rest: "bindE ?agree (\<lambda>a. ret (?resp a)) w3 = (Inr r, w')"
    using tail by (rule bindE_InrE)
  obtain a where ag: "?agree w3 = (Inr a, w')" and rr: "r = ?resp a"
    using rest by (rule bindE_InrE) simp
  obtain th where th: "w3 = ?w2\<lparr>threads := mapSet t th (threads ?w2)\<rparr>" "th_id th = t" "th_state th = s'"
    "th_opener th = (case mapGet (threads ?w2) t of None \<Rightarrow> m_from ?m | Some x \<Rightarrow> th_opener x)"
    "th_counterparty th = (case mapGet (threads ?w2) t of None \<Rightarrow> m_to ?m | Some x \<Rightarrow> th_counterparty x)"
    using persistThreadState_ok [OF pt] by blast
  have fin: "w'\<lparr>mailDrawn := 0\<rparr> = w3\<lparr>mailDrawn := 0\<rparr>"
  proof (cases "mi_type i = MAccept")
    case True
    then have "bindE (buildAgreement E cfg now ?m t) (\<lambda>a. ret (Some a)) w3 = (Inr a, w')" using ag by simp
    then obtain b where "buildAgreement E cfg now ?m t w3 = (Inr b, w')" by (rule bindE_InrE) simp
    then show ?thesis by (rule buildAgreement_only)
  next
    case False
    then show ?thesis using ag by simp
  qed
  have r: "sr_thread r = t" "sr_state r = s'" "sr_cursor r = nextCursor w1"
      "sr_postage r = \<lparr>po_amount = postageAmount cfg, po_currency = postageCurrency cfg, po_escrow = h\<rparr>"
    by (simp_all add: rr)
  have same: "wal w' = wal w3" "idn w' = idn w3" "threads w' = threads w3" "mById w' = mById w3"
    using arg_cong [OF fin, of wal] arg_cong [OF fin, of idn] arg_cong [OF fin, of threads] arg_cong [OF fin, of mById] by simp_all
  show "wal w' = wal w" "idn w' = idn w" using same th(1) w1 by (simp_all add: appendMessage_app)
  show "\<exists>th. mapGet (threads w') (sr_thread r) = Some th \<and> th_state th = sr_state r \<and>
      th_opener th = (case mapGet (threads w) (sr_thread r) of None \<Rightarrow> mi_from i | Some x \<Rightarrow> th_opener x) \<and>
      th_counterparty th = (case mapGet (threads w) (sr_thread r) of None \<Rightarrow> mi_to i | Some x \<Rightarrow> th_counterparty x)"
    using same th w1 r by (simp add: appendMessage_app messageOf_def cong: option.case_cong)
  show "mapGet (mById w') (mi_msgId i) = Some \<lparr>cursor = sr_cursor r, smsg = messageOf cfg i (sr_thread r) h\<rparr>"
    using same th(1) w1 r by (simp add: appendMessage_app messageOf_def)
  show "replyTarget (mi_replyTo i) = Some p \<Longrightarrow> \<exists>pm th. mapGet (mById w) p = Some pm \<and> thread_id (smsg pm) = sr_thread r \<and>
       mapGet (threads w) (sr_thread r) = Some th \<and> threadStep (th_state th) (mi_type i) (sr_state r)"
    using resolveThread_ok(2) [OF rt] r by simp
  show "replyTarget (mi_replyTo i) = None \<Longrightarrow> sr_state r = nextThreadState TOpen (mi_type i) \<and>
       (\<forall>t0. mi_thread i = Some t0 \<longrightarrow> sr_thread r = t0)"
    using resolveThread_ok(3) [OF rt] r by simp
  show "sr_postage r = \<lparr>po_amount = postageAmount cfg, po_currency = postageCurrency cfg, po_escrow = h\<rparr>" by (rule r(4))
qed

section \<open>The message log\<close>

definition mailLog :: "'a mail_world_scheme \<Rightarrow> stored_message list \<times> (string, stored_message list) jsmap \<times> nat" where
  "mailLog w = (mlog w, mByRecipient w, nextCursor w)"

definition logged_ok :: "stored_message list \<Rightarrow> (string, stored_message list) jsmap \<Rightarrow> nat \<Rightarrow> bool" where
  "logged_ok ms bs n \<longleftrightarrow> 0 < n \<and> sorted_wrt (<) (map cursor ms) \<and> (\<forall>s \<in> set ms. 0 < cursor s \<and> cursor s < n) \<and>
     (\<forall>d. (case mapGet bs d of None \<Rightarrow> [] | Some b \<Rightarrow> b) = filter (\<lambda>s. m_to (smsg s) = d) ms)"

text \<open>Cursors increase along the log and every bucket is the log restricted to its recipient.\<close>

definition log_ok :: "'a mail_world_scheme \<Rightarrow> bool" where
  "log_ok w \<longleftrightarrow> (case mailLog w of (ms, bs, n) \<Rightarrow> logged_ok ms bs n)"

lemma log_ok_app: "log_ok w \<longleftrightarrow> logged_ok (mlog w) (mByRecipient w) (nextCursor w)"
  by (simp add: log_ok_def mailLog_def)

lemma log_okD:
  assumes "log_ok w"
  shows "bucketOf d w = filter (\<lambda>s. m_to (smsg s) = d) (mlog w)" "sorted_wrt (<) (map cursor (mlog w))"
    "s \<in> set (mlog w) \<Longrightarrow> 0 < cursor s"
  using assms by (auto simp: log_ok_app logged_ok_def bucketOf_def)

lemma log_quiet: "frames mailLog m \<Longrightarrow> keeps log_ok m"
  unfolding log_ok_def [abs_def] by (rule frames_keeps)

lemma mailLog_sel [simp]:
  "mailLog (w\<lparr>non := n\<rparr>) = mailLog w" "mailLog (w\<lparr>wal := a\<rparr>) = mailLog w" "mailLog (w\<lparr>rep := p\<rparr>) = mailLog w"
  "mailLog (w\<lparr>threads := tt\<rparr>) = mailLog w" "mailLog (w\<lparr>postageTotals := q\<rparr>) = mailLog w"
  "mailLog (w\<lparr>webhooks := hs\<rparr>) = mailLog w" "mailLog (w\<lparr>flagged := fl\<rparr>) = mailLog w"
  "mailLog (w\<lparr>mailDrawn := k\<rparr>) = mailLog w"
  by (simp_all add: mailLog_def)

lemma sorted_wrt_snoc: "sorted_wrt R (xs @ [x]) \<longleftrightarrow> sorted_wrt R xs \<and> (\<forall>y \<in> set xs. R y x)"
  by (simp add: sorted_wrt_append)

lemma keeps_appendMessage: "keeps log_ok (appendMessage m)"
  by (intro keepsI) (auto simp: appendMessage_app log_ok_app logged_ok_def bucketOf_def sorted_wrt_snoc less_Suc_eq)

lemma frames_plusE [frames_rules]: "frames f (plusE E a b)"
  by (simp add: frames_def keeps_plusE)

lemma frames_mail_utils [frames_rules]:
  "(\<And>w n. f (w\<lparr>mailDrawn := n\<rparr>) = f w) \<Longrightarrow> frames f (newMailId E p)"
  "(\<And>w t. f (w\<lparr>threads := t\<rparr>) = f w) \<Longrightarrow> frames f (putThread r)"
  "(\<And>w s. f (w\<lparr>wal := s\<rparr>) = f w) \<Longrightarrow> frames f (refundThen E h e)"
  "(\<And>w q. f (w\<lparr>postageTotals := q\<rparr>) = f w) \<Longrightarrow> frames f (recordHold E d day a)"
  "(\<And>w q. f (w\<lparr>flagged := q\<rparr>) = f w) \<Longrightarrow> frames f (recordFlag i oc)"
  "(\<And>w q. f (w\<lparr>webhooks := q\<rparr>) = f w) \<Longrightarrow> frames f (putWebhook wr)"
  unfolding newMailId_def putThread_def refundThen_def recordHold_def recordFlag_def putWebhook_def
  by (intro frames_rules; simp)+

lemma frames_resolveThread [frames_rules]:
  assumes "\<And>w s. f (w\<lparr>wal := s\<rparr>) = f w" "\<And>w n. f (w\<lparr>mailDrawn := n\<rparr>) = f w"
  shows "frames f (resolveThread E i h)"
proof -
  have "frames f (resolveReply E i p h)" for p
    unfolding resolveReply_def by (intro frames_rules assms)
  moreover have "frames f (resolveOpener E i h)"
    unfolding resolveOpener_def by (intro frames_rules assms)
  ultimately show ?thesis by (simp add: resolveThread_def split: option.split)
qed

lemma frames_persist [frames_rules]:
  "(\<And>w t. f (w\<lparr>threads := t\<rparr>) = f w) \<Longrightarrow> frames f (persistThreadState E now m t s')"
  unfolding persistThreadState_def by (intro frames_rules)

lemma frames_buildAgreement [frames_rules]:
  assumes "\<And>w n. f (w\<lparr>mailDrawn := n\<rparr>) = f w"
  shows "frames f (buildAgreement E cfg now m t)"
proof -
  have "frames f (deriveAgreedTerms a b q)" for a b q by (simp add: frames_def keeps_deriveAgreedTerms)
  then show ?thesis unfolding buildAgreement_def by (intro frames_rules assms)
qed

lemma frames_admit [frames_rules]: "(\<And>w s. f (w\<lparr>non := s\<rparr>) = f w) \<Longrightarrow> frames f (admit E cfg now i)"
  unfolding admit_def by (intro frames_rules)

section \<open>Runs of the mailroom\<close>

datatype mail_op =
    OpSend send_input
  | OpInbox inbox_query
  | OpWebhook webhook_input
  | OpFlag string flag_input

fun runMail :: "ext \<Rightarrow> mail_cfg \<Rightarrow> int \<Rightarrow> mail_op \<Rightarrow> 'a mail_world_scheme \<Rightarrow> 'a mail_world_scheme" where
  "runMail E cfg now (OpSend i) w = snd (send E cfg now i w)"
| "runMail E cfg now (OpInbox q) w = snd (inbox E cfg now q w)"
| "runMail E cfg now (OpWebhook i) w = snd (registerWebhook E cfg now i w)"
| "runMail E cfg now (OpFlag m i) w = snd (flagMessage E cfg now m i w)"

fun runMails :: "ext \<Rightarrow> mail_cfg \<Rightarrow> (int \<times> mail_op) list \<Rightarrow> 'a mail_world_scheme \<Rightarrow> 'a mail_world_scheme" where
  "runMails E cfg [] w = w"
| "runMails E cfg ((now, op) # ops) w = runMails E cfg ops (runMail E cfg now op w)"

text \<open>A predicate that no operation breaks holds after any run.\<close>

lemma runMails_keep:
  fixes w :: "'a mail_world_scheme"
  assumes P: "\<And>now i. keeps P (send E cfg now i)" "\<And>now q. keeps P (inbox E cfg now q)"
    "\<And>now i. keeps P (registerWebhook E cfg now i)" "\<And>now m i. keeps P (flagMessage E cfg now m i)"
  shows "P w \<Longrightarrow> P (runMails E cfg ops w)"
proof (induction ops arbitrary: w)
  case (Cons x ops)
  obtain now op where x: "x = (now, op)" by (cases x)
  have "P (runMail E cfg now op w)" using Cons.prems by (cases op) (simp_all add: P [THEN keepsD])
  then show ?case using Cons.IH x by simp
qed simp

lemma keeps_deliverMessage: "keeps log_ok (deliverMessage E cfg now i h)"
  unfolding deliverMessage_def Let_def
  by (intro keeps_rules keeps_appendMessage log_quiet frames_rules) simp_all

lemma keeps_log_send: "keeps log_ok (send E cfg now i)"
  unfolding send_def by (intro keeps_rules keeps_deliverMessage log_quiet frames_rules) simp_all

lemma frames_inbox: "(\<And>w s. f (w\<lparr>non := s\<rparr>) = f w) \<Longrightarrow> frames f (inbox E cfg now q)"
  unfolding inbox_def by (intro frames_rules)

lemma frames_registerWebhook:
  assumes "\<And>w s. f (w\<lparr>non := s\<rparr>) = f w" "\<And>w n. f (w\<lparr>mailDrawn := n\<rparr>) = f w"
    "\<And>w q. f (w\<lparr>webhooks := q\<rparr>) = f w"
  shows "frames f (registerWebhook E cfg now i)"
  unfolding registerWebhook_def Let_def by (intro frames_rules assms)

lemma frames_flagMessage:
  assumes "\<And>w s. f (w\<lparr>non := s\<rparr>) = f w" "\<And>w s. f (w\<lparr>wal := s\<rparr>) = f w" "\<And>w s. f (w\<lparr>rep := s\<rparr>) = f w"
    "\<And>w q. f (w\<lparr>flagged := q\<rparr>) = f w"
  shows "frames f (flagMessage E cfg now m i)"
  unfolding flagMessage_def settleFlag_def by (intro frames_rules assms)

lemma runMails_log_ok: "log_ok w \<Longrightarrow> log_ok (runMails E cfg ops w)"
  by (rule runMails_keep [of log_ok])
    (intro keeps_log_send log_quiet frames_inbox frames_registerWebhook frames_flagMessage; simp)+

section \<open>Polling an inbox\<close>

text \<open>What the loop appends to the messages already collected.\<close>

lemma inboxLoop_take:
  "length out < limit \<or> out = [] \<Longrightarrow> inboxLoop since limit out b =
     out @ take (max 1 limit - length out) (filter (\<lambda>s. since < cursor s) b)"
proof (induction since limit out b rule: inboxLoop.induct)
  case (2 since limit out s ss)
  show ?case
  proof (cases "since < cursor s \<and> \<not> limit \<le> Suc (length out)")
    case True
    then have "inboxLoop since limit (out @ [s]) ss =
        (out @ [s]) @ take (max 1 limit - length (out @ [s])) (filter (\<lambda>s. since < cursor s) ss)"
      by (intro 2(1)) auto
    moreover have "max 1 limit - length out = Suc (max 1 limit - Suc (length out))"
      using True by (simp add: max_def Suc_diff_Suc)
    ultimately show ?thesis using True by simp
  next
    case False
    then consider "\<not> since < cursor s" | "since < cursor s" "limit \<le> Suc (length out)" by blast
    then show ?thesis
    proof cases
      case 1
      then show ?thesis using 2 by simp
    next
      case 2
      then have "max 1 limit - length out = 1" using "2.prems" by auto
      then show ?thesis using 2 by simp
    qed
  qed
qed simp

corollary inboxOf_take: "inboxOf d since limit w = take (max 1 limit) (filter (\<lambda>s. since < cursor s) (bucketOf d w))"
  by (simp add: inboxOf_def inboxLoop_take)

text \<open>A client that polls until a page is empty, passing \<open>next_cursor\<close> on as \<open>since\<close>.\<close>

function pollInbox :: "string \<Rightarrow> nat \<Rightarrow> nat \<Rightarrow> 'a mail_world_scheme \<Rightarrow> stored_message list" where
  "pollInbox d limit since w =
     (let page = inboxOf d since limit w in
      if page = [] then [] else page @ pollInbox d limit (cursor (last page)) w)"
  by pat_completeness auto

termination
proof (relation "measure (\<lambda>(d, limit, since, w). length (filter (\<lambda>s. since < cursor s) (bucketOf d w)))", goal_cases)
  case (2 d limit since w page)
  let ?new = "\<lambda>n. filter (\<lambda>s. n < cursor s) (bucketOf d w)"
  have "set page \<subseteq> set (?new since)" unfolding 2(1) inboxOf_take by (rule set_take_subset)
  then have "last page \<in> set (?new since)" using last_in_set [OF 2(2)] by blast
  then have l: "last page \<in> set (bucketOf d w)" "since < cursor (last page)" by auto
  have "length (filter (\<lambda>s. cursor (last page) < cursor s) (?new since)) < length (?new since)"
    by (rule length_filter_less [of "last page"]) (use l in auto)
  moreover have "filter (\<lambda>s. cursor (last page) < cursor s) (?new since) = ?new (cursor (last page))"
    unfolding filter_filter by (rule filter_cong) (use l(2) in auto)
  ultimately show ?case by simp
qed simp

declare pollInbox.simps [simp del]

lemma pollInbox_all:
  fixes w :: "'a mail_world_scheme"
  assumes srt: "sorted_wrt (<) (map cursor (bucketOf d w))"
  shows "pollInbox d limit since w = filter (\<lambda>s. since < cursor s) (bucketOf d w)"
  using srt
proof (induction d limit since w rule: pollInbox.induct)
  case (1 d limit since w)
  let ?new = "filter (\<lambda>s. since < cursor s) (bucketOf d w)" and ?k = "max 1 limit"
  let ?page = "inboxOf d since limit w"
  have pg: "?page = take ?k ?new" by (rule inboxOf_take)
  show ?case
  proof (cases "?page = []")
    case True
    then show ?thesis using pg by (simp add: pollInbox.simps)
  next
    case False
    let ?c = "cursor (last ?page)"
    have s: "sorted_wrt (<) (map cursor ?new)" using 1(2) by (simp add: sorted_wrt_map sorted_wrt_filter)
    have ne: "?page @ drop ?k ?new = ?new" by (simp add: pg)
    have split: "sorted_wrt (<) (map cursor (?page @ drop ?k ?new))" using s ne by simp
    have above: "?c < cursor x" if "x \<in> set (drop ?k ?new)" for x
      using split that last_in_set [OF False] by (auto simp: sorted_wrt_append)
    have below: "cursor x \<le> ?c" if x: "x \<in> set ?page" for x
    proof -
      have "sorted_wrt (<) (map cursor (butlast ?page @ [last ?page]))" using split False by (simp add: sorted_wrt_append)
      moreover have "x \<in> set (butlast ?page) \<or> x = last ?page"
        using x False by (metis append_butlast_last_id in_set_conv_decomp_last set_append UnE empty_iff list.set(1) set_ConsD)
      ultimately show ?thesis by (auto simp: sorted_wrt_append)
    qed
    have lc: "since < ?c" using last_in_set [OF False] pg by (auto dest: in_set_takeD)
    have "filter (\<lambda>s. ?c < cursor s) (bucketOf d w) = filter (\<lambda>s. ?c < cursor s) ?new"
      unfolding filter_filter by (rule filter_cong) (use lc in auto)
    also have "\<dots> = filter (\<lambda>s. ?c < cursor s) (?page @ drop ?k ?new)" by (simp only: ne)
    also have "\<dots> = drop ?k ?new" using above below by (auto simp: filter_empty_conv filter_id_conv leD)
    finally have rest: "filter (\<lambda>s. ?c < cursor s) (bucketOf d w) = drop ?k ?new" .
    have "pollInbox d limit since w = ?page @ pollInbox d limit ?c w" using False by (simp add: pollInbox.simps [of d limit since] Let_def)
    also have "\<dots> = ?page @ drop ?k ?new" using 1(1) [OF refl False 1(2)] rest by simp
    finally show ?thesis using ne by simp
  qed
qed

text \<open>
  Claim C17. Polling is complete: from any consistent mailroom, after any run of operations, a client
  that reads its inbox page by page, passing \<open>next_cursor\<close> back as \<open>since\<close>, terminates with exactly
  the messages of the log that are addressed to it, in order, none lost and none repeated, whatever
  the page size.
\<close>

theorem inbox_polling_complete:
  assumes "log_ok w"
  shows "pollInbox d limit 0 (runMails E cfg ops w) = filter (\<lambda>s. m_to (smsg s) = d) (mlog (runMails E cfg ops w))"
proof -
  let ?w = "runMails E cfg ops w"
  have ok: "log_ok ?w" by (rule runMails_log_ok [OF assms])
  have "sorted_wrt (<) (map cursor (bucketOf d ?w))"
    using log_okD(2) [OF ok] by (simp add: log_okD(1) [OF ok] sorted_wrt_map sorted_wrt_filter)
  then have "pollInbox d limit 0 ?w = filter (\<lambda>s. 0 < cursor s) (bucketOf d ?w)" by (rule pollInbox_all)
  also have "\<dots> = bucketOf d ?w" by (rule filter_True) (use log_okD(3) [OF ok] in \<open>auto simp: log_okD(1) [OF ok]\<close>)
  finally show ?thesis by (simp add: log_okD(1) [OF ok])
qed

section \<open>Messages are authorised and paid for\<close>

definition maySend :: "ext \<Rightarrow> int \<Rightarrow> send_input \<Rightarrow> delegation \<Rightarrow> 'a core_scheme \<Rightarrow> bool" where
  "maySend E now i dl w \<longleftrightarrow> activeDelegation E now (mi_from i) (idn w) = Some dl \<and>
     \<not> List.member (revokedDids (idn w)) (mi_from i) \<and> send_allowed (messaging (policy dl)) \<and>
     counterpartyAllowed (mi_to i) (counterparties_allow (policy dl)) (counterparties_deny (policy dl))"

lemma evaluate_message:
  "evaluate E dl (messageAction cfg i) us s = (Inr d, s') \<longleftrightarrow> s' = s \<and>
     d = (if \<not> counterpartyAllowed (mi_to i) (counterparties_allow (policy dl)) (counterparties_deny (policy dl))
          then Deny [if list_ex (\<lambda>p. matchTaxonomy p (mi_to i)) (counterparties_deny (policy dl))
                     then ''counterparty denied: '' @ mi_to i else ''counterparty not allowed: '' @ mi_to i]
          else evaluateMessage dl)"
  by (auto simp: evaluate_def messageAction_def Let_def)

lemma plusE_InrD: "plusE E a b s = (Inr t, s') \<Longrightarrow> s' = s \<and> t = bigPlus E a b \<and> (\<exists>x y. bigVal E a = Some x \<and> bigVal E b = Some y)"
  by (auto simp: plusE_def bigE_def exec_simps split: option.splits)

lemma ltE_InrD: "ltE E a b s = (Inr t, s') \<Longrightarrow> s' = s \<and> t = (bv E a < bv E b)"
  by (auto simp: ltE_def bigE_def exec_simps split: option.splits)

lemma bigE_pure: "bigE E a s = (Inr t, s') \<Longrightarrow> s' = s"
  by (auto simp: bigE_def exec_simps split: option.splits)

lemma admit_ok:
  assumes "admit E cfg now i w = (Inr u, w1)" "big_exact E"
  shows "w1 = w\<lparr>non := non w1\<rparr>"
    "\<exists>dl. maySend E now i dl w \<and>
       (\<exists>a b. bigVal E (spentOnDay (mi_from i) (utcDayBucket E now) w) = Some a \<and> bigVal E (postageAmount cfg) = Some b \<and>
         a + b \<le> bv E (max_postage_per_day (messaging (policy dl))))"
proof -
  let ?day = "utcDayBucket E now"
  obtain n where v: "verifyAs E now (mailSkew cfg) (sendObj i) (sigOpts (mi_from i)) w = (Inr (), w\<lparr>non := n\<rparr>)"
    using assms(1) by (cases rule: verifyAs_out [of E now "mailSkew cfg" "sendObj i" "sigOpts (mi_from i)" w])
      (auto simp: admit_def bindE_app [of "verifyAs _ _ _ _ _"] split: sum.splits)
  let ?w = "w\<lparr>non := n\<rparr>"
  have sp: "spentOnDay (mi_from i) ?day ?w = spentOnDay (mi_from i) ?day w" by (simp add: spentOnDay_def)
  from assms(1) v obtain dl where dl: "activeDelegation E now (mi_from i) (idn w) = Some dl"
    "\<not> List.member (revokedDids (idn w)) (mi_from i)"
    by (auto simp: admit_def bindE_app [of "verifyAs _ _ _ _ _"] bindE_app [of "gets _"] bindE_app [of "throwIf _ _"]
        bindE_app [of "orThrow _ _"] throwIf_app orThrow_app split: if_splits option.splits)
  have tail: "bindE (evaluate E dl (messageAction cfg i)
       \<lparr>u_daily = \<lparr>amount = spentOnDay (mi_from i) ?day w, currency = postageCurrency cfg\<rparr>,
        u_total = \<lparr>amount = ''0'', currency = postageCurrency cfg\<rparr>\<rparr>) (\<lambda>decision.
     bindE (throwIf (decision \<noteq> Allow) ForbiddenError) (\<lambda>_.
     bindE (plusE E (spentOnDay (mi_from i) ?day w) (postageAmount cfg)) (\<lambda>projected.
     bindE (ltE E (max_postage_per_day (messaging (policy dl))) projected) (\<lambda>over.
     throwIf over PaymentRequiredError)))) ?w = (Inr u, w1)"
    using assms(1) dl v sp by (simp add: admit_def bindE_app [of "verifyAs _ _ _ _ _"] bindE_app [of "gets _"]
        bindE_app [of "throwIf _ _"] bindE_app [of "orThrow _ _"] throwIf_app orThrow_app)
  obtain d w2 where d: "evaluate E dl (messageAction cfg i)
       \<lparr>u_daily = \<lparr>amount = spentOnDay (mi_from i) ?day w, currency = postageCurrency cfg\<rparr>,
        u_total = \<lparr>amount = ''0'', currency = postageCurrency cfg\<rparr>\<rparr> ?w = (Inr d, w2)"
    and t1: "bindE (throwIf (d \<noteq> Allow) ForbiddenError) (\<lambda>_.
     bindE (plusE E (spentOnDay (mi_from i) ?day w) (postageAmount cfg)) (\<lambda>projected.
     bindE (ltE E (max_postage_per_day (messaging (policy dl))) projected) (\<lambda>over.
     throwIf over PaymentRequiredError))) w2 = (Inr u, w1)"
    using tail by (rule bindE_InrE)
  have al: "w2 = ?w" "d = Allow" using d t1 by (auto simp: evaluate_message bindE_app [of "throwIf _ _"] throwIf_app split: if_splits)
  have "bindE (plusE E (spentOnDay (mi_from i) ?day w) (postageAmount cfg)) (\<lambda>projected.
     bindE (ltE E (max_postage_per_day (messaging (policy dl))) projected) (\<lambda>over.
     throwIf over PaymentRequiredError)) ?w = (Inr u, w1)" using t1 al by (simp add: bindE_app [of "throwIf _ _"] throwIf_app)
  then obtain p w3 where p: "plusE E (spentOnDay (mi_from i) ?day w) (postageAmount cfg) ?w = (Inr p, w3)"
    and t2: "bindE (ltE E (max_postage_per_day (messaging (policy dl))) p) (\<lambda>over. throwIf over PaymentRequiredError) w3 = (Inr u, w1)"
    by (rule bindE_InrE)
  obtain b w4 where l: "ltE E (max_postage_per_day (messaging (policy dl))) p w3 = (Inr b, w4)"
    and t3: "throwIf b PaymentRequiredError w4 = (Inr u, w1)" using t2 by (rule bindE_InrE)
  obtain x y where xy: "w3 = ?w" "p = bigPlus E (spentOnDay (mi_from i) ?day w) (postageAmount cfg)"
    "bigVal E (spentOnDay (mi_from i) ?day w) = Some x" "bigVal E (postageAmount cfg) = Some y"
    using plusE_InrD [OF p] by blast
  have "w4 = w3" "b = (bv E (max_postage_per_day (messaging (policy dl))) < bv E p)" using ltE_InrD [OF l] by simp_all
  with t3 xy(1) have w1: "w1 = ?w" and le: "\<not> bv E (max_postage_per_day (messaging (policy dl))) < bv E p"
    by (auto simp: throwIf_app split: if_splits)
  have "bv E p = x + y" using big_exact_plus [OF assms(2) xy(3,4)] xy(2) by simp
  moreover have "maySend E now i dl w"
    using d al(2) dl by (auto simp: maySend_def evaluate_message evaluateMessage_def split: if_splits)
  ultimately show "\<exists>dl. maySend E now i dl w \<and>
       (\<exists>a b. bigVal E (spentOnDay (mi_from i) ?day w) = Some a \<and> bigVal E (postageAmount cfg) = Some b \<and>
         a + b \<le> bv E (max_postage_per_day (messaging (policy dl))))" using le xy(3,4) by auto
  show "w1 = w\<lparr>non := non w1\<rparr>" using w1 by simp
qed

lemma recordHold_ok:
  assumes "bigVal E (spentOnDay d day w) = Some x" "bigVal E a = Some y"
  shows "recordHold E d day a w = (Inr (), w\<lparr>postageTotals := mapSet (postageKey d day)
     (bigPlus E (spentOnDay d day w) a) (postageTotals w)\<rparr>)"
  using assms by (simp add: recordHold_def bindE_app plusE_ok)

text \<open>The three steps of a send that returns.\<close>

lemma send_parts:
  assumes ok: "core_ok E w" and run: "send E cfg now i w = (Inr r, w')"
  obtains dl h st n w2 where "maySend E now i dl w"
    "hold E now (mi_from i) \<lparr>amount = postageAmount cfg, currency = postageCurrency cfg\<rparr> (''postage:'' @ mi_msgId i) (wal w)
       = (Inr h, st)"
    "w2 = w\<lparr>non := n, wal := st, postageTotals := mapSet (postageKey (mi_from i) (utcDayBucket E now))
       (bigPlus E (spentOnDay (mi_from i) (utcDayBucket E now) w) (postageAmount cfg)) (postageTotals w)\<rparr>"
    "deliverMessage E cfg now i h w2 = (Inr r, w')"
    "bv E (bigPlus E (spentOnDay (mi_from i) (utcDayBucket E now) w) (postageAmount cfg)) =
       bv E (spentOnDay (mi_from i) (utcDayBucket E now) w) + bv E (postageAmount cfg)"
    "bv E (spentOnDay (mi_from i) (utcDayBucket E now) w) + bv E (postageAmount cfg) \<le>
       bv E (max_postage_per_day (messaging (policy dl)))"
proof -
  let ?m = "\<lparr>amount = postageAmount cfg, currency = postageCurrency cfg\<rparr>" and ?day = "utcDayBucket E now"
  have E: "big_exact E" using wallet_okD(1) core_okD(1) [OF ok] by blast
  obtain u w1 where ad: "admit E cfg now i w = (Inr u, w1)"
    and t1: "bindE (inWallet (hold E now (mi_from i) ?m (''postage:'' @ mi_msgId i))) (\<lambda>h.
     bindE (recordHold E (mi_from i) ?day (postageAmount cfg)) (\<lambda>_. deliverMessage E cfg now i h)) w1 = (Inr r, w')"
    using run unfolding send_def by (rule bindE_InrE)
  obtain dl a b where dl: "maySend E now i dl w" "bigVal E (spentOnDay (mi_from i) ?day w) = Some a"
    "bigVal E (postageAmount cfg) = Some b" "a + b \<le> bv E (max_postage_per_day (messaging (policy dl)))"
    using admit_ok(2) [OF ad E] by blast
  obtain n where w1: "w1 = w\<lparr>non := n\<rparr>" using admit_ok(1) [OF ad E] by blast
  obtain h w2 where hd: "inWallet (hold E now (mi_from i) ?m (''postage:'' @ mi_msgId i)) w1 = (Inr h, w2)"
    and t2: "bindE (recordHold E (mi_from i) ?day (postageAmount cfg)) (\<lambda>_. deliverMessage E cfg now i h) w2 = (Inr r, w')"
    using t1 by (rule bindE_InrE)
  obtain st where st: "hold E now (mi_from i) ?m (''postage:'' @ mi_msgId i) (wal w) = (Inr h, st)" "w2 = w\<lparr>non := n, wal := st\<rparr>"
    using hd w1 by (auto simp: core_app split: prod.splits)
  have sp: "spentOnDay (mi_from i) ?day w2 = spentOnDay (mi_from i) ?day w" using st(2) by (simp add: spentOnDay_def)
  have rh: "bigVal E (spentOnDay (mi_from i) ?day w2) = Some a" using sp dl(2) by simp
  have rr: "recordHold E (mi_from i) ?day (postageAmount cfg) w2 = (Inr (), w2\<lparr>postageTotals := mapSet (postageKey (mi_from i) ?day)
     (bigPlus E (spentOnDay (mi_from i) ?day w2) (postageAmount cfg)) (postageTotals w2)\<rparr>)"
    by (rule recordHold_ok [OF rh dl(3)])
  show ?thesis
  proof (rule that [OF dl(1) st(1) refl])
    show "deliverMessage E cfg now i h (w\<lparr>non := n, wal := st, postageTotals := mapSet (postageKey (mi_from i) ?day)
       (bigPlus E (spentOnDay (mi_from i) ?day w) (postageAmount cfg)) (postageTotals w)\<rparr>) = (Inr r, w')"
      using t2 sp by (simp add: bindE_app [of "recordHold _ _ _ _"] rr) (simp add: st(2))
    show "bv E (bigPlus E (spentOnDay (mi_from i) ?day w) (postageAmount cfg)) =
       bv E (spentOnDay (mi_from i) ?day w) + bv E (postageAmount cfg)"
      using big_exact_plus [OF E dl(2,3)] dl(2,3) by simp
    show "bv E (spentOnDay (mi_from i) ?day w) + bv E (postageAmount cfg) \<le> bv E (max_postage_per_day (messaging (policy dl)))"
      using dl by simp
  qed
qed

lemma frames_append [frames_rules]:
  "(\<And>w. f (snd (appendMessage m w)) = f w) \<Longrightarrow> frames f (appendMessage m)"
  unfolding frames_def by (intro allI keepsI) simp

lemma deliver_quiet:
  fixes w :: "'a mail_world_scheme"
  assumes "deliverMessage E cfg now i h w = (Inr r, w')"
  shows "postageTotals w' = postageTotals w" "flagged w' = flagged w"
proof -
  obtain t s' w1 where rt: "resolveThread E i h w = (Inr (t, s'), w1)"
    using assms unfolding deliverMessage_def by (elim bindE_InrE) (auto split: prod.splits)
  then obtain n where w1: "w1 = w\<lparr>mailDrawn := n\<rparr>" using resolveThread_ok(1) [OF rt] by blast
  let ?m = "messageOf cfg i t h"
  have fr: "frames (\<lambda>w. (postageTotals w, flagged w)) (bindE (appendMessage ?m) (\<lambda>c.
     bindE (persistThreadState E now ?m t s') (\<lambda>_.
     bindE (if mi_type i = MAccept then bindE (buildAgreement E cfg now ?m t) (\<lambda>a. ret (Some a)) else ret None) (\<lambda>a.
     ret \<lparr>sr_msgId = msg_id ?m, sr_thread = t, sr_state = s', sr_cursor = c,
          sr_postage = \<lparr>po_amount = postageAmount cfg, po_currency = postageCurrency cfg, po_escrow = h\<rparr>,
          sr_agreement = a\<rparr>))))"
    by (intro frames_rules) (simp_all add: appendMessage_app)
  have "(postageTotals w', flagged w') = (postageTotals w1, flagged w1)"
    by (rule frames_out [OF fr]) (use assms rt in \<open>simp add: deliverMessage_def bindE_app [of "resolveThread _ _ _"] Let_def\<close>)
  then show "postageTotals w' = postageTotals w" "flagged w' = flagged w" by (simp_all add: w1)
qed

lemma send_effects:
  assumes ok: "core_ok E w" and run: "send E cfg now i w = (Inr r, w')"
  defines "k \<equiv> walletKey (mi_from i) (postageCurrency cfg)" and "p \<equiv> bv E (postageAmount cfg)"
    and "day \<equiv> utcDayBucket E now"
  shows "\<exists>dl. maySend E now i dl w \<and> bv E (spentOnDay (mi_from i) day w') \<le> bv E (max_postage_per_day (messaging (policy dl)))"
    "bv E (spentOnDay (mi_from i) day w') = bv E (spentOnDay (mi_from i) day w) + p \<and> 0 < p"
    "availAt E (rows (wal w')) k = availAt E (rows (wal w)) k - p \<and> heldAt E (rows (wal w')) k = heldAt E (rows (wal w)) k + p"
    "\<exists>h. mapGet (holds (wal w)) (po_escrow (sr_postage r)) = None \<and>
       mapGet (holds (wal w')) (po_escrow (sr_postage r)) = Some h \<and> h_state h = Active \<and> h_did h = mi_from i \<and>
       h_amount h = postageAmount cfg \<and> h_currency h = postageCurrency cfg"
proof -
  obtain dl h st n w2 where s: "maySend E now i dl w"
    "hold E now (mi_from i) \<lparr>amount = postageAmount cfg, currency = postageCurrency cfg\<rparr> (''postage:'' @ mi_msgId i) (wal w)
       = (Inr h, st)"
    "w2 = w\<lparr>non := n, wal := st, postageTotals := mapSet (postageKey (mi_from i) (utcDayBucket E now))
       (bigPlus E (spentOnDay (mi_from i) (utcDayBucket E now) w) (postageAmount cfg)) (postageTotals w)\<rparr>"
    "deliverMessage E cfg now i h w2 = (Inr r, w')"
    "bv E (bigPlus E (spentOnDay (mi_from i) (utcDayBucket E now) w) (postageAmount cfg)) =
       bv E (spentOnDay (mi_from i) (utcDayBucket E now) w) + bv E (postageAmount cfg)"
    "bv E (spentOnDay (mi_from i) (utcDayBucket E now) w) + bv E (postageAmount cfg) \<le>
       bv E (max_postage_per_day (messaging (policy dl)))"
    by (rule send_parts [OF ok run])
  have tot: "bv E (spentOnDay (mi_from i) day w') = bv E (spentOnDay (mi_from i) day w) + p"
    using deliver_quiet(1) [OF s(4)] s(3,5) by (simp add: spentOnDay_def day_def p_def)
  have same: "wal w' = st" "po_escrow (sr_postage r) = h"
    using deliverMessage_ok(1,7) [OF s(4)] s(3) by simp_all
  show "\<exists>dl. maySend E now i dl w \<and> bv E (spentOnDay (mi_from i) day w') \<le> bv E (max_postage_per_day (messaging (policy dl)))"
    using s(1,6) tot by (auto simp: day_def p_def)
  note hc = hold_out [OF core_okD(1) [OF ok], of now "mi_from i" "\<lparr>amount = postageAmount cfg, currency = postageCurrency cfg\<rparr>"
      "''postage:'' @ mi_msgId i"]
  show "bv E (spentOnDay (mi_from i) day w') = bv E (spentOnDay (mi_from i) day w) + p \<and> 0 < p"
    by (cases rule: hc) (use s(2) tot in \<open>auto simp: p_def\<close>)
  show "availAt E (rows (wal w')) k = availAt E (rows (wal w)) k - p \<and> heldAt E (rows (wal w')) k = heldAt E (rows (wal w)) k + p"
    by (cases rule: hc) (use s(2) same in \<open>auto simp: p_def k_def wmoveD(4,5)\<close>)
  show "\<exists>h. mapGet (holds (wal w)) (po_escrow (sr_postage r)) = None \<and>
       mapGet (holds (wal w')) (po_escrow (sr_postage r)) = Some h \<and> h_state h = Active \<and> h_did h = mi_from i \<and>
       h_amount h = postageAmount cfg \<and> h_currency h = postageCurrency cfg"
    by (cases rule: hc) (use s(2) same in auto)
qed

text \<open>The message that is stored names the hold that the reply names.\<close>

lemma send_stored:
  assumes "core_ok E w" "send E cfg now i w = (Inr r, w')"
  shows "\<exists>sm. mapGet (mById w') (mi_msgId i) = Some sm \<and> m_postage (smsg sm) = Some (sr_postage r)"
proof -
  obtain h w2 where d: "deliverMessage E cfg now i h w2 = (Inr r, w')"
    by (rule send_parts [OF assms]) simp
  show ?thesis using deliverMessage_ok(6,7) [OF d] by (simp add: messageOf_def)
qed

text \<open>
  Claim C15. A message that is accepted was allowed and is paid for: the sender has an active
  delegation that allows sending to that recipient and is not revoked, the day's postage including
  this message is within the delegation's cap and is what the books then show, and exactly the
  postage has moved from the sender's free balance into a new active hold, the one that both the
  stored message and the reply name.
\<close>

theorem send_authorised_and_paid:
  assumes "core_ok E w" "send E cfg now i w = (Inr r, w')"
  shows "\<exists>dl h sm. maySend E now i dl w \<and>
     bv E (spentOnDay (mi_from i) (utcDayBucket E now) w') =
       bv E (spentOnDay (mi_from i) (utcDayBucket E now) w) + bv E (postageAmount cfg) \<and> 0 < bv E (postageAmount cfg) \<and>
     bv E (spentOnDay (mi_from i) (utcDayBucket E now) w') \<le> bv E (max_postage_per_day (messaging (policy dl))) \<and>
     availAt E (rows (wal w')) (walletKey (mi_from i) (postageCurrency cfg)) =
       availAt E (rows (wal w)) (walletKey (mi_from i) (postageCurrency cfg)) - bv E (postageAmount cfg) \<and>
     heldAt E (rows (wal w')) (walletKey (mi_from i) (postageCurrency cfg)) =
       heldAt E (rows (wal w)) (walletKey (mi_from i) (postageCurrency cfg)) + bv E (postageAmount cfg) \<and>
     mapGet (holds (wal w)) (po_escrow (sr_postage r)) = None \<and>
     mapGet (holds (wal w')) (po_escrow (sr_postage r)) = Some h \<and> h_state h = Active \<and> h_did h = mi_from i \<and>
     h_amount h = postageAmount cfg \<and> h_currency h = postageCurrency cfg \<and>
     mapGet (mById w') (mi_msgId i) = Some sm \<and> m_postage (smsg sm) = Some (sr_postage r)"
proof -
  obtain dl where "maySend E now i dl w"
    "bv E (spentOnDay (mi_from i) (utcDayBucket E now) w') \<le> bv E (max_postage_per_day (messaging (policy dl)))"
    using send_effects(1) [OF assms] by blast
  moreover obtain h where "mapGet (holds (wal w)) (po_escrow (sr_postage r)) = None"
    "mapGet (holds (wal w')) (po_escrow (sr_postage r)) = Some h" "h_state h = Active" "h_did h = mi_from i"
    "h_amount h = postageAmount cfg" "h_currency h = postageCurrency cfg"
    using send_effects(4) [OF assms] by blast
  moreover obtain sm where "mapGet (mById w') (mi_msgId i) = Some sm" "m_postage (smsg sm) = Some (sr_postage r)"
    using send_stored [OF assms] by blast
  ultimately show ?thesis using send_effects(2,3) [OF assms] by blast
qed

text \<open>
  Claim C16. A reply follows the thread machine: when a message that answers another is accepted,
  the thread of the answered message was open, its state takes exactly one step of \<open>threadStep\<close> under
  the message's type, to the state the reply reports, the message is stored in that thread, and the
  parties of the thread stay the same.
\<close>

theorem reply_follows_machine:
  assumes ok: "core_ok E w" and run: "send E cfg now i w = (Inr r, w')" and p: "replyTarget (mi_replyTo i) = Some p"
  shows "\<exists>pm th th' sm. mapGet (mById w) p = Some pm \<and> thread_id (smsg pm) = sr_thread r \<and>
     mapGet (threads w) (sr_thread r) = Some th \<and> mapGet (threads w') (sr_thread r) = Some th' \<and>
     threadStep (th_state th) (mi_type i) (th_state th') \<and> th_state th' = sr_state r \<and>
     th_opener th' = th_opener th \<and> th_counterparty th' = th_counterparty th \<and>
     mapGet (mById w') (mi_msgId i) = Some sm \<and> thread_id (smsg sm) = sr_thread r"
proof -
  obtain h w2 where d: "deliverMessage E cfg now i h w2 = (Inr r, w')" "mById w2 = mById w" "threads w2 = threads w"
    by (rule send_parts [OF ok run]) simp
  obtain pm th where pm: "mapGet (mById w) p = Some pm" "thread_id (smsg pm) = sr_thread r"
    "mapGet (threads w) (sr_thread r) = Some th" "threadStep (th_state th) (mi_type i) (sr_state r)"
    using deliverMessage_ok(4) [OF d(1) p] d(2,3) by auto
  obtain th' where "mapGet (threads w') (sr_thread r) = Some th'" "th_state th' = sr_state r"
    "th_opener th' = th_opener th" "th_counterparty th' = th_counterparty th"
    using deliverMessage_ok(3) [OF d(1)] d(3) pm(3) by auto
  moreover have "mapGet (mById w') (mi_msgId i) = Some \<lparr>cursor = sr_cursor r, smsg = messageOf cfg i (sr_thread r) h\<rparr>"
    by (rule deliverMessage_ok(6) [OF d(1)])
  ultimately show ?thesis using pm by (auto simp: messageOf_def)
qed

section \<open>Agreements\<close>

lemma throwIf_InrD: "throwIf b e s = (Inr u, s') \<Longrightarrow> \<not> b \<and> s' = s"
  by (auto simp: throwIf_app split: if_splits)

lemma orThrow_InrD: "orThrow x e s = (Inr v, s') \<Longrightarrow> x = Some v \<and> s' = s"
  by (auto simp: orThrow_app split: option.splits)

lemma propOf_InrD: "propOf (Some (JObj ms)) k s = (Inr v, s') \<Longrightarrow> v = mapGet ms k"
  by (simp add: propOf_def)

text \<open>The field \<open>k\<close> of a quoted price, as the property access reads it.\<close>

fun priceField :: "json option \<Rightarrow> string \<Rightarrow> json option" where
  "priceField (Some (JObj ms)) k = mapGet ms k"
| "priceField _ _ = None"

lemma propOf_price: "propOf v k s = (Inr x, s') \<Longrightarrow> x = priceField v k \<and> s' = s"
  by (cases "(v, k)" rule: priceField.cases) (auto simp: propOf_def split: json.splits)

lemma termsFrom_ok:
  assumes "termsFrom m q s = (Inr tz, s')"
  shows "at_amount tz = priceField (qr_price q) ''amount''" "at_currency tz = priceField (qr_price q) ''currency''"
proof -
  obtain a s1 where a: "propOf (qr_price q) ''amount'' s = (Inr a, s1)"
    and t1: "bindE (propOf (qr_price q) ''currency'') (\<lambda>c. bindE (propOf (qr_price q) ''per'') (\<lambda>p.
     bindE (normalizeMilestones (mapGet (m_body m) ''milestones'')) (\<lambda>ms.
     ret \<lparr>at_amount = a, at_currency = c, at_per = p, at_milestones = ms\<rparr>))) s1 = (Inr tz, s')"
    using assms unfolding termsFrom_def by (rule bindE_InrE)
  obtain c s2 where c: "propOf (qr_price q) ''currency'' s1 = (Inr c, s2)"
    and t2: "bindE (propOf (qr_price q) ''per'') (\<lambda>p.
     bindE (normalizeMilestones (mapGet (m_body m) ''milestones'')) (\<lambda>ms.
     ret \<lparr>at_amount = a, at_currency = c, at_per = p, at_milestones = ms\<rparr>)) s2 = (Inr tz, s')"
    using t1 by (rule bindE_InrE)
  obtain p s3 where t3: "bindE (normalizeMilestones (mapGet (m_body m) ''milestones'')) (\<lambda>ms.
     ret \<lparr>at_amount = a, at_currency = c, at_per = p, at_milestones = ms\<rparr>) s3 = (Inr tz, s')"
    using t2 by (rule bindE_InrE)
  then obtain ms s4 where "ret \<lparr>at_amount = a, at_currency = c, at_per = p, at_milestones = ms\<rparr> s4 = (Inr tz, s')"
    by (rule bindE_InrE)
  then show "at_amount tz = priceField (qr_price q) ''amount''" "at_currency tz = priceField (qr_price q) ''currency''"
    using propOf_price [OF a] propOf_price [OF c] by auto
qed

lemma deriveAgreedTerms_ok:
  assumes "deriveAgreedTerms a b q w = (Inr tz, w')"
  shows "\<exists>s qr. find (carries q) (inboxOf a 0 1000 w @ inboxOf b 0 1000 w) = Some s \<and>
    tryExtractQuote (m_body (smsg s)) = Some qr \<and> at_amount tz = priceField (qr_price qr) ''amount'' \<and>
    at_currency tz = priceField (qr_price qr) ''currency''"
proof -
  let ?hit = "find (carries q) (inboxOf a 0 1000 w @ inboxOf b 0 1000 w)"
  have "bindE (orThrow ?hit ConflictError) (\<lambda>s. bindE (orThrow (tryExtractQuote (m_body (smsg s))) ConflictError) (\<lambda>qr.
     termsFrom (smsg s) qr)) w = (Inr tz, w')"
    using assms by (simp add: deriveAgreedTerms_def bindE_app [of "gets _"])
  then obtain s w1 where s: "orThrow ?hit ConflictError w = (Inr s, w1)"
    and t1: "bindE (orThrow (tryExtractQuote (m_body (smsg s))) ConflictError) (\<lambda>qr. termsFrom (smsg s) qr) w1 = (Inr tz, w')"
    by (rule bindE_InrE)
  obtain qr w2 where qr: "orThrow (tryExtractQuote (m_body (smsg s))) ConflictError w1 = (Inr qr, w2)"
    and t2: "termsFrom (smsg s) qr w2 = (Inr tz, w')"
    using t1 by (rule bindE_InrE)
  show ?thesis using orThrow_InrD [OF s] orThrow_InrD [OF qr] termsFrom_ok [OF t2] by auto
qed

definition termsSource :: "string \<Rightarrow> string \<Rightarrow> string \<Rightarrow> agreed_terms \<Rightarrow> 'a mail_world_scheme \<Rightarrow> bool" where
  "termsSource a b q tz w \<longleftrightarrow> (\<exists>s qr. find (carries q) (inboxOf a 0 1000 w @ inboxOf b 0 1000 w) = Some s \<and>
    tryExtractQuote (m_body (smsg s)) = Some qr \<and> at_amount tz = priceField (qr_price qr) ''amount'' \<and>
    at_currency tz = priceField (qr_price qr) ''currency'')"

lemma buildAgreement_ok:
  assumes "buildAgreement E cfg now m t w = (Inr a, w')"
  shows "\<exists>th q. mapGet (threads w) t = Some th \<and> negotiated th = Some q \<and>
    field (m_body m) ''accepts_quote_id'' = Some q \<and> ag_quote a = q \<and> ag_thread a = t \<and> ag_requester a = th_opener th \<and>
    ag_provider a = th_counterparty th \<and> termsSource (m_to m) (m_from m) q (ag_terms a) w \<and>
    ag_sig a = signDetached E (JObj (agreementObj a)) (cs_sk (mailSigner cfg)) (cs_kid (mailSigner cfg))"
proof -
  let ?sign = "\<lambda>i th q tz. let a = \<lparr>agreement_id = i, ag_thread = t, ag_listing = th_listing th, ag_quote = q,
           ag_requester = th_opener th, ag_provider = th_counterparty th, ag_terms = tz, agreed_at = isoOf E now,
           ag_issuer = cs_did (mailSigner cfg), ag_sig = ''''\<rparr> in
     ret (a\<lparr>ag_sig := signDetached E (JObj (agreementObj a)) (cs_sk (mailSigner cfg)) (cs_kid (mailSigner cfg))\<rparr>)"
  have run: "bindE (orThrow (mapGet (threads w) t) ConflictError) (\<lambda>th.
     bindE (orThrow (negotiated th) ConflictError) (\<lambda>q.
     bindE (throwIf (q = '''') ConflictError) (\<lambda>_.
     bindE (throwIf (field (m_body m) ''accepts_quote_id'' \<noteq> Some q) ConflictError) (\<lambda>_.
     bindE (deriveAgreedTerms (m_to m) (m_from m) q) (\<lambda>tz.
     bindE (newMailId E ''agr'') (\<lambda>i. ?sign i th q tz)))))) w = (Inr a, w')"
    using assms by (simp add: buildAgreement_def bindE_app [of "gets _"])
  obtain th where th: "mapGet (threads w) t = Some th" using run by (cases "mapGet (threads w) t") (simp_all add: bindE_app [of "orThrow _ _"] orThrow_app)
  obtain q where q: "negotiated th = Some q" using run th by (cases "negotiated th") (simp_all add: bindE_app [of "orThrow _ _"] orThrow_app)
  have b: "field (m_body m) ''accepts_quote_id'' = Some q" "q \<noteq> ''''"
    using run th q by (auto simp: bindE_app [of "orThrow _ _"] orThrow_app bindE_app [of "throwIf _ _"] throwIf_app split: if_splits)
  have "bindE (deriveAgreedTerms (m_to m) (m_from m) q) (\<lambda>tz. bindE (newMailId E ''agr'') (\<lambda>i. ?sign i th q tz)) w = (Inr a, w')"
    using run th q b by (simp add: bindE_app [of "orThrow _ _"] orThrow_app bindE_app [of "throwIf _ _"] throwIf_app)
  then obtain tz w1 where tz: "deriveAgreedTerms (m_to m) (m_from m) q w = (Inr tz, w1)"
    and t1: "bindE (newMailId E ''agr'') (\<lambda>i. ?sign i th q tz) w1 = (Inr a, w')" by (rule bindE_InrE)
  obtain i where "?sign i th q tz w' = (Inr a, w')"
    using t1 by (auto simp: bindE_app [of "newMailId _ _"] newMailId_app Let_def)
  then show ?thesis using th q b deriveAgreedTerms_ok [OF tz]
    by (auto simp: Let_def termsSource_def agreementObj_def)
qed

lemma termsSource_cong: "mByRecipient w' = mByRecipient w \<Longrightarrow> termsSource a b q tz w' = termsSource a b q tz w"
  by (simp add: termsSource_def inboxOf_def bucketOf_def)

text \<open>An accept that returns has built its agreement on the thread as it then stands.\<close>

lemma accept_ok:
  fixes w :: "'a mail_world_scheme"
  assumes run: "deliverMessage E cfg now i h w = (Inr r, w')" and ty: "mi_type i = MAccept"
  shows "\<exists>a th q. sr_agreement r = Some a \<and> mapGet (threads w') (sr_thread r) = Some th \<and> negotiated th = Some q \<and>
    field (mi_body i) ''accepts_quote_id'' = Some q \<and> ag_quote a = q \<and> ag_thread a = sr_thread r \<and> ag_requester a = th_opener th \<and>
    ag_provider a = th_counterparty th \<and> termsSource (mi_to i) (mi_from i) q (ag_terms a) w' \<and>
    ag_sig a = signDetached E (JObj (agreementObj a)) (cs_sk (mailSigner cfg)) (cs_kid (mailSigner cfg))"
proof -
  obtain t s' w1 where rt: "resolveThread E i h w = (Inr (t, s'), w1)"
    using run unfolding deliverMessage_def by (elim bindE_InrE) (auto split: prod.splits)
  let ?m = "messageOf cfg i t h"
  let ?resp = "\<lambda>a. \<lparr>sr_msgId = msg_id ?m, sr_thread = t, sr_state = s', sr_cursor = nextCursor w1,
          sr_postage = \<lparr>po_amount = postageAmount cfg, po_currency = postageCurrency cfg, po_escrow = h\<rparr>,
          sr_agreement = a\<rparr>"
  have "bindE (persistThreadState E now ?m t s') (\<lambda>_. bindE (bindE (buildAgreement E cfg now ?m t) (\<lambda>a. ret (Some a)))
      (\<lambda>a. ret (?resp a))) (snd (appendMessage ?m w1)) = (Inr r, w')"
    using run by (simp add: deliverMessage_def bindE_app [of "resolveThread _ _ _"] rt bindE_app [of "appendMessage _"]
        appendMessage_app Let_def ty)
  then obtain u w3 where "bindE (bindE (buildAgreement E cfg now ?m t) (\<lambda>a. ret (Some a))) (\<lambda>a. ret (?resp a)) w3 = (Inr r, w')"
    by (rule bindE_InrE)
  then obtain x w4 where x: "bindE (buildAgreement E cfg now ?m t) (\<lambda>a. ret (Some a)) w3 = (Inr x, w4)"
      "ret (?resp x) w4 = (Inr r, w')" by (rule bindE_InrE)
  from x(1) obtain a w5 where a: "buildAgreement E cfg now ?m t w3 = (Inr a, w5)" "ret (Some a) w5 = (Inr x, w4)"
    by (rule bindE_InrE)
  have w': "w' = w5" "x = Some a" "sr_agreement r = Some a" "sr_thread r = t" using x(2) a(2) by auto
  have "frames (\<lambda>w. (threads w, mByRecipient w)) (buildAgreement E cfg now ?m t :: ('a mail_world_scheme, agreement) exec)"
    by (intro frames_rules) simp
  from frames_out [OF this a(1)] have same: "threads w3 = threads w'" "mByRecipient w3 = mByRecipient w'" using w'(1) by simp_all
  show ?thesis using buildAgreement_ok [OF a(1)] w' termsSource_cong [OF same(2)] same(1)
    by (auto simp: messageOf_def)
qed

text \<open>
  Where the terms of an agreement come from: an accept that returns names the quote the
  thread negotiates, and the price of the signed agreement is the price in the first QUOTE message
  carrying that quote id in the inbox of the accept's recipient, or else of the accepter. Nothing
  relates that message to the provider, the listing or the thread: at the witness it is one the
  accepter sent itself, and the agreement is signed at the accepter's price.
\<close>

theorem agreement_takes_first_quote:
  assumes "core_ok E w" "send E cfg now i w = (Inr r, w')" "mi_type i = MAccept"
  shows "\<exists>a th q s qr. sr_agreement r = Some a \<and> mapGet (threads w') (sr_thread r) = Some th \<and>
    negotiated th = Some q \<and> field (mi_body i) ''accepts_quote_id'' = Some q \<and> ag_quote a = q \<and>
    ag_requester a = th_opener th \<and> ag_provider a = th_counterparty th \<and>
    find (carries q) (inboxOf (mi_to i) 0 1000 w' @ inboxOf (mi_from i) 0 1000 w') = Some s \<and>
    tryExtractQuote (m_body (smsg s)) = Some qr \<and> at_amount (ag_terms a) = priceField (qr_price qr) ''amount'' \<and>
    ag_sig a = signDetached E (JObj (agreementObj a)) (cs_sk (mailSigner cfg)) (cs_kid (mailSigner cfg))"
proof -
  obtain h w2 where "deliverMessage E cfg now i h w2 = (Inr r, w')"
    by (rule send_parts [OF assms(1,2)]) simp
  from accept_ok [OF this assms(3)] show ?thesis by (auto simp: termsSource_def)
qed

section \<open>Opening messages\<close>

text \<open>
  An opening message takes over the thread it names: when a message that answers nothing
  is accepted with the id of an existing thread, the thread's state is replaced by the state of a
  new thread after this message, whatever it was (a closed thread reopens, an agreed one is closed by
  a REJECT), although the sender need be no party of it; its parties stay as they were.
\<close>

theorem opener_hijacks_thread:
  assumes "core_ok E w" "send E cfg now i w = (Inr r, w')" "replyTarget (mi_replyTo i) = None"
    "mi_thread i = Some t" "mapGet (threads w) t = Some th"
  shows "\<exists>th'. mapGet (threads w') t = Some th' \<and> th_state th' = nextThreadState TOpen (mi_type i) \<and>
    th_opener th' = th_opener th \<and> th_counterparty th' = th_counterparty th"
proof -
  obtain h w2 where d: "deliverMessage E cfg now i h w2 = (Inr r, w')" "threads w2 = threads w"
    by (rule send_parts [OF assms(1,2)]) simp
  have "sr_state r = nextThreadState TOpen (mi_type i)" "sr_thread r = t"
    using deliverMessage_ok(5) [OF d(1) assms(3)] assms(4) by auto
  then show ?thesis using deliverMessage_ok(3) [OF d(1)] d(2) assms(5) by auto
qed

section \<open>Flags\<close>

lemma flagMessage_again:
  assumes "mapGet (flagged w) i = Some oc"
  shows "\<exists>x n. flagMessage E cfg now i input w = (x, w\<lparr>non := n\<rparr>) \<and> (\<forall>y. x = Inr y \<longrightarrow> y = oc)"
proof -
  obtain r n where v: "verifyAs E now (mailSkew cfg) (flagObj input) (sigOpts (fi_flagger input)) w = (r, w\<lparr>non := n\<rparr>)"
    by (rule verifyAs_out)
  show ?thesis
  proof (intro exI conjI)
    show "flagMessage E cfg now i input w = (fst (flagMessage E cfg now i input w), w\<lparr>non := n\<rparr>)"
      using assms v by (cases r; cases "mapGet (mById w) i")
        (auto simp: flagMessage_def exec_simps split: option.split)
    show "\<forall>y. fst (flagMessage E cfg now i input w) = Inr y \<longrightarrow> y = oc"
      using assms v by (cases r; cases "mapGet (mById w) i")
        (auto simp: flagMessage_def exec_simps split: option.split)
  qed
qed

lemma settleFlag_records: "settleFlag E cfg now i kd m h w = (Inr oc, w') \<Longrightarrow> mapGet (flagged w') i = Some oc"
  by (auto simp: settleFlag_def recordFlag_def bindE_app split: if_splits prod.splits sum.splits)

lemma flagMessage_records:
  assumes "flagMessage E cfg now i input w = (Inr oc, w')"
  shows "mapGet (flagged w') i = Some oc"
proof -
  obtain r n where v: "verifyAs E now (mailSkew cfg) (flagObj input) (sigOpts (fi_flagger input)) w = (r, w\<lparr>non := n\<rparr>)"
    by (rule verifyAs_out)
  show ?thesis
    using assms v settleFlag_records by (cases r; cases "mapGet (mById w) i"; cases "mapGet (flagged w) i")
      (auto simp: flagMessage_def exec_simps split: option.splits if_splits)
qed

lemma keeps_flagged:
  fixes w :: "'a mail_world_scheme"
  assumes "mapGet (flagged w) i = Some oc"
  shows "mapGet (flagged (runMails E cfg ops w)) i = Some oc"
proof (rule runMails_keep [where P = "\<lambda>w :: 'a mail_world_scheme. mapGet (flagged w) i = Some oc"])
  let ?P = "\<lambda>w :: 'a mail_world_scheme. mapGet (flagged w) i = Some oc"
  have q: "frames flagged m \<Longrightarrow> keeps ?P m" for m :: "('a mail_world_scheme, 'r) exec" by (rule frames_keeps)
  show "keeps ?P (send E cfg now i)" for now i
    unfolding send_def deliverMessage_def Let_def by (intro q frames_rules) (simp_all add: appendMessage_app)
  show "keeps ?P (inbox E cfg now x)" "keeps ?P (registerWebhook E cfg now y)" for now x y
    by (intro q frames_inbox frames_registerWebhook; simp)+
  have rec: "keeps ?P (recordFlag j x)" if "j \<noteq> i" for j x
    unfolding recordFlag_def by (rule keeps_modify) (use that in simp)
  have settle: "keeps ?P (settleFlag E cfg now j kd m h)" if "j \<noteq> i" for now j kd m h
    unfolding settleFlag_def by (intro keeps_rules rec that q frames_inWallet frames_inReputation) simp_all
  show "keeps ?P (flagMessage E cfg now j input)" for now j input
  proof (cases "j = i")
    case False
    then show ?thesis unfolding flagMessage_def
      by (intro keeps_rules settle) (auto intro!: q frames_rules)
  next
    case True
    show ?thesis unfolding True
    proof (rule keepsI)
      fix v :: "'a mail_world_scheme"
      assume v: "mapGet (flagged v) i = Some oc"
      show "mapGet (flagged (snd (flagMessage E cfg now i input v))) i = Some oc"
        using flagMessage_again [OF v, of E cfg now input] v by auto
    qed
  qed
qed (rule assms)

text \<open>
  A flag settles the postage once: after a flag on a message has returned an outcome, any
  later flag on it that returns gives the same outcome, whatever it asks for and whatever ran in
  between, and moves neither money nor reputation.
\<close>

theorem flag_settles_once:
  assumes "flagMessage E cfg now i input w = (Inr oc, w1)"
    "flagMessage E cfg now' i input' (runMails E cfg ops w1) = (Inr x, w')"
  shows "x = oc \<and> wal w' = wal (runMails E cfg ops w1) \<and> rep w' = rep (runMails E cfg ops w1)"
proof -
  have "mapGet (flagged (runMails E cfg ops w1)) i = Some oc"
    by (rule keeps_flagged [OF flagMessage_records [OF assms(1)]])
  from flagMessage_again [OF this, of E cfg now' input'] assms(2) show ?thesis by auto
qed

end
