(* ===== verification/Ranking.thy ===== *)
theory Ranking
  imports Prelude "HOL-Library.Multiset"
begin

text \<open>
  Two-stage discovery as the board and the registry share it: a hard filter removes candidates, a
  comparator orders the rest, and a page of the result is returned. \<open>sortBy\<close> is
  \<open>Array.prototype.sort\<close>, which is stable; \<open>le a b\<close> stands for \<open>compare(a, b) <= 0\<close>. The locale
  \<open>discovery\<close> states what a client may rely on: what is returned, in which order, and that nothing
  better is left out.
\<close>

section \<open>Stable sorting with a comparator\<close>

fun insertBy :: "('a \<Rightarrow> 'a \<Rightarrow> bool) \<Rightarrow> 'a \<Rightarrow> 'a list \<Rightarrow> 'a list" where
  "insertBy le x [] = [x]"
| "insertBy le x (y # ys) = (if le x y then x # y # ys else y # insertBy le x ys)"

definition sortBy :: "('a \<Rightarrow> 'a \<Rightarrow> bool) \<Rightarrow> 'a list \<Rightarrow> 'a list" where
  "sortBy le xs = foldr (insertBy le) xs []"

lemma sortBy_simps [simp]: "sortBy le [] = []" "sortBy le (x # xs) = insertBy le x (sortBy le xs)"
  by (simp_all add: sortBy_def)

lemma mset_insertBy: "mset (insertBy le x xs) = add_mset x (mset xs)"
  by (induction xs) auto

lemma mset_sortBy [simp]: "mset (sortBy le xs) = mset xs"
  by (induction xs) (simp_all add: mset_insertBy)

lemma set_sortBy [simp]: "set (sortBy le xs) = set xs"
  by (rule mset_eq_setD) simp

lemma length_sortBy [simp]: "length (sortBy le xs) = length xs"
  by (rule mset_eq_length) simp

text \<open>A comparator that compares a key sorts by that key.\<close>

lemma insertBy_key:
  "(\<And>y. y \<in> set ys \<Longrightarrow> le x y \<longleftrightarrow> k x \<le> k y) \<Longrightarrow> insertBy le x ys = insort_key k x ys"
  by (induction ys) auto

lemma sortBy_key:
  "(\<And>x y. x \<in> set xs \<Longrightarrow> y \<in> set xs \<Longrightarrow> le x y \<longleftrightarrow> k x \<le> k y) \<Longrightarrow> sortBy le xs = sort_key k xs"
proof (induction xs)
  case (Cons x xs)
  have "sortBy le xs = sort_key k xs" by (rule Cons.IH) (use Cons.prems in auto)
  moreover have "insertBy le x (sort_key k xs) = insort_key k x (sort_key k xs)"
    by (rule insertBy_key) (use Cons.prems in auto)
  ultimately show ?case by simp
qed simp

section \<open>Values and comparisons\<close>

text \<open>Comparisons of numbers that may be \<open>NaN\<close> are false then.\<close>

fun ltNum :: "('n :: linorder) option \<Rightarrow> 'n option \<Rightarrow> bool" where
  "ltNum (Some x) (Some y) = (x < y)"
| "ltNum _ _ = False"

text \<open>\<open>[...new Set(xs)]\<close>: the distinct values in the order of their first occurrence.\<close>

definition distinctFirst :: "'b list \<Rightarrow> 'b list" where
  "distinctFirst xs = rev (remdups (rev xs))"

section \<open>Rank keys\<close>

text \<open>Higher scores come first; the tie-breaking part decides among equal scores.\<close>

datatype 'b rank_key = RankKey (rank_score: rat) (rank_tie: 'b)

instantiation rank_key :: (linorder) linorder
begin

definition less_eq_rank_key :: "'a rank_key \<Rightarrow> 'a rank_key \<Rightarrow> bool" where
  "less_eq_rank_key a b \<longleftrightarrow> rank_score b < rank_score a \<or> rank_score a = rank_score b \<and> rank_tie a \<le> rank_tie b"

definition less_rank_key :: "'a rank_key \<Rightarrow> 'a rank_key \<Rightarrow> bool" where
  "less_rank_key a b \<longleftrightarrow> rank_score b < rank_score a \<or> rank_score a = rank_score b \<and> rank_tie a < rank_tie b"

instance
  by standard (auto simp: less_eq_rank_key_def less_rank_key_def rank_key.expand)

end

lemma rank_key_le [simp]:
  "RankKey s a \<le> RankKey t b \<longleftrightarrow> t < s \<or> s = t \<and> a \<le> b"
  by (simp add: less_eq_rank_key_def)

section \<open>The contract of discovery\<close>

locale discovery =
  fixes keep :: "'a \<Rightarrow> bool"
    and score :: "'a \<Rightarrow> 'r"
    and item :: "'r \<Rightarrow> 'a"
    and le :: "'r \<Rightarrow> 'r \<Rightarrow> bool"
    and key :: "'r \<Rightarrow> 'k :: linorder"
  assumes item_score: "keep a \<Longrightarrow> item (score a) = a"
    and le_key: "keep a \<Longrightarrow> keep b \<Longrightarrow> le (score a) (score b) \<longleftrightarrow> key (score a) \<le> key (score b)"
begin

definition page :: "nat \<Rightarrow> 'a list \<Rightarrow> 'r list" where
  "page n xs = take n (sortBy le (map score (filter keep xs)))"

lemma page_sorts: "page n xs = take n (sort_key key (map score (filter keep xs)))"
proof -
  have "sortBy le (map score (filter keep xs)) = sort_key key (map score (filter keep xs))"
    by (rule sortBy_key) (use le_key in auto)
  then show ?thesis by (simp add: page_def)
qed

text \<open>Every result is a candidate that passed the filter, with its own score.\<close>

lemma page_sound: "r \<in> set (page n xs) \<Longrightarrow> item r \<in> set xs \<and> keep (item r) \<and> r = score (item r)"
  by (auto simp: page_sorts item_score dest!: in_set_takeD)

lemma page_sorted: "sorted (map key (page n xs))"
  by (simp add: page_sorts take_map [symmetric] sorted_wrt_take)

lemma page_length: "length (page n xs) = min n (length (filter keep xs))"
  by (simp add: page_def)

text \<open>Nothing is repeated, and nothing that is left out ranks before a result.\<close>

lemma mset_ranked: "mset (map item (sort_key key (map score (filter keep xs)))) = mset (filter keep xs)"
proof -
  have "mset (map item (sort_key key ys)) = mset (map item ys)" for ys by simp
  also have "map item (map score (filter keep xs)) = filter keep xs"
    unfolding map_map by (rule map_idI) (simp add: item_score)
  finally show ?thesis by simp
qed

lemma page_distinct:
  assumes "distinct xs"
  shows "distinct (map item (page n xs))"
proof -
  have "distinct (map item (sort_key key (map score (filter keep xs))))"
    using assms mset_eq_imp_distinct_iff [OF mset_ranked] by (simp add: distinct_filter)
  then show ?thesis by (simp only: page_sorts take_map [symmetric] distinct_take)
qed

lemma page_best:
  assumes "a \<in> set xs" "keep a" "score a \<notin> set (page n xs)" "r \<in> set (page n xs)"
  shows "key r \<le> key (score a)"
proof -
  let ?s = "sort_key key (map score (filter keep xs))"
  have "score a \<in> set (take n ?s) \<union> set (drop n ?s)" using assms(1,2) by (metis (no_types, lifting) append_take_drop_id
      image_eqI list.set_map mem_Collect_eq set_append set_filter set_sort)
  then have "score a \<in> set (drop n ?s)" using assms(3) by (simp add: page_sorts)
  moreover have "sorted (map key (take n ?s) @ map key (drop n ?s))" unfolding map_append [symmetric] by simp
  ultimately show ?thesis using assms(4) by (fastforce simp: page_sorts sorted_append simp del: map_append)
qed

lemma page_all:
  assumes "length (filter keep xs) \<le> n"
  shows "mset (map item (page n xs)) = mset (filter keep xs)"
proof -
  have "page n xs = sort_key key (map score (filter keep xs))" using assms by (simp add: page_sorts)
  then show ?thesis by (simp only: mset_ranked)
qed

end

end
