(* ===== verification/Board.thy ===== *)
theory Board
  imports Guarantee Ranking
begin

text \<open>
  The board, \<open>src/features/board\<close>: signed posts in an append-only log linked by hashes, a posting fee
  held on every post but work records, tombstones, flags, and the two-stage query of
  \<open>ranking.ts\<close>. Weights and scores are rationals; \<open>None\<close> is \<open>NaN\<close>, which the trust of an author
  can be.
\<close>

section \<open>Posts\<close>

record price_from =
  pf_amount :: string
  pf_currency :: string
  pf_per :: string

record post_stake =
  pst_amount :: string
  pst_currency :: string
  pst_slashable :: bool

record rfp_spec =
  rs_input :: "string option"
  rs_output :: "string option"
  rs_volume :: "nat option"

record offer_fields =
  of_capability :: string
  of_listing :: string
  of_price :: price_from
  of_regions :: "string list"
  of_expires :: string
  of_stake :: post_stake

record rfp_fields =
  rp_capability :: string
  rp_spec :: rfp_spec
  rp_budget :: money
  rp_deadline :: string
  rp_acceptance :: string
  rp_bidVia :: string

record announcement_fields =
  an_subject :: string
  an_change :: string
  an_effective :: string

record work_fields =
  wr_receipt :: string
  wr_counterparty :: string
  wr_outcome :: string
  wr_latency :: nat
  wr_cosig :: string

record tombstone_fields =
  tb_target :: string
  tb_reason :: string

datatype post_body =
    Offer offer_fields
  | Rfp rfp_fields
  | Announcement announcement_fields
  | WorkRecord work_fields
  | TombstonePost tombstone_fields

datatype post_type = OfferType | RfpType | AnnouncementType | WorkRecordType | TombstoneType

text \<open>The chain fields of an inbound post hold whatever the author sent; the server replaces them.\<close>

record board_post =
  bp_id :: string
  bp_author :: string
  bp_created :: string
  bp_body :: post_body
  bp_seq :: nat
  bp_prev :: string
  bp_hash :: string
  bp_nonce :: string
  bp_iat :: string
  bp_exp :: string
  bp_sig :: string

fun postType :: "post_body \<Rightarrow> post_type" where
  "postType (Offer _) = OfferType"
| "postType (Rfp _) = RfpType"
| "postType (Announcement _) = AnnouncementType"
| "postType (WorkRecord _) = WorkRecordType"
| "postType (TombstonePost _) = TombstoneType"

fun postTypeText :: "post_type \<Rightarrow> string" where
  "postTypeText OfferType = ''OFFER''"
| "postTypeText RfpType = ''RFP''"
| "postTypeText AnnouncementType = ''ANNOUNCEMENT''"
| "postTypeText WorkRecordType = ''WORK_RECORD''"
| "postTypeText TombstoneType = ''TOMBSTONE''"

definition optNum :: "string \<Rightarrow> nat option \<Rightarrow> (string \<times> json) list" where
  "optNum k v = (case v of None \<Rightarrow> [] | Some n \<Rightarrow> [(k, JNum (of_nat n))])"

fun postFields :: "post_body \<Rightarrow> (string \<times> json) list" where
  "postFields (Offer f) =
     [(''capability'', JStr (of_capability f)), (''listing_ref'', JStr (of_listing f)),
      (''price_from'', JObj [(''amount'', JStr (pf_amount (of_price f))), (''currency'', JStr (pf_currency (of_price f))),
         (''per'', JStr (pf_per (of_price f)))]),
      (''regions'', JArr (map JStr (of_regions f))), (''expires'', JStr (of_expires f)),
      (''stake'', JObj [(''amount'', JStr (pst_amount (of_stake f))), (''currency'', JStr (pst_currency (of_stake f))),
         (''slashable'', JBool (pst_slashable (of_stake f)))])]"
| "postFields (Rfp f) =
     [(''capability'', JStr (rp_capability f)),
      (''spec'', JObj (optField ''input_schema_ref'' (rs_input (rp_spec f)) @ optField ''output_schema_ref'' (rs_output (rp_spec f))
         @ optNum ''volume'' (rs_volume (rp_spec f)))),
      (''budget'', moneyJson (rp_budget f)), (''deadline'', JStr (rp_deadline f)),
      (''acceptance'', JObj [(''type'', JStr (rp_acceptance f))]), (''bid_via'', JStr (rp_bidVia f))]"
| "postFields (Announcement f) =
     [(''subject'', JStr (an_subject f)), (''change'', JStr (an_change f)), (''effective'', JStr (an_effective f))]"
| "postFields (WorkRecord f) =
     [(''receipt_ref'', JStr (wr_receipt f)), (''counterparty'', JStr (wr_counterparty f)), (''outcome'', JStr (wr_outcome f)),
      (''latency_ms'', JNum (of_nat (wr_latency f))), (''counterparty_sig'', JStr (wr_cosig f))]"
| "postFields (TombstonePost f) =
     [(''target_post_id'', JStr (tb_target f)), (''reason'', JStr (tb_reason f))]"

definition postObj :: "board_post \<Rightarrow> (string \<times> json) list" where
  "postObj p = [(''type'', JStr (postTypeText (postType (bp_body p)))), (''post_id'', JStr (bp_id p)),
       (''author'', JStr (bp_author p)), (''created'', JStr (bp_created p))]
     @ postFields (bp_body p)
     @ [(''seq'', JNum (of_nat (bp_seq p))), (''prev_hash'', JStr (bp_prev p)), (''post_hash'', JStr (bp_hash p)),
        (''nonce'', JStr (bp_nonce p)), (''iat'', JStr (bp_iat p)), (''exp'', JStr (bp_exp p)), (''sig'', JStr (bp_sig p))]"

definition CHAIN_FIELDS :: "string list" where
  "CHAIN_FIELDS = [''seq'', ''prev_hash'', ''post_hash'']"

definition AUTHOR_OMIT :: "string list" where
  "AUTHOR_OMIT = ''sig'' # CHAIN_FIELDS"

definition WORK_RECORD_AUTHOR_OMIT :: "string list" where
  "WORK_RECORD_AUTHOR_OMIT = [''sig'', ''counterparty_sig''] @ CHAIN_FIELDS"

text \<open>The body of a post: what is signed and hashed.\<close>

definition bodyOf :: "board_post \<Rightarrow> (string \<times> json) list" where
  "bodyOf p = stripForSigning (postObj p) CHAIN_FIELDS"

definition POST_FEE_AMOUNT :: string where
  "POST_FEE_AMOUNT = ''0.01''"

definition POST_FEE_CURRENCY :: string where
  "POST_FEE_CURRENCY = ''USDC''"

definition FLAG_FORFEIT_THRESHOLD :: nat where
  "FLAG_FORFEIT_THRESHOLD = 2"

definition ANCHOR_EVERY :: nat where
  "ANCHOR_EVERY = 1"

section \<open>Requests and state\<close>

record subscribe_input =
  sb_subscriber :: string
  sb_topics :: "string list"
  sb_webhook :: "string option"
  sb_nonce :: string
  sb_iat :: string
  sb_exp :: string
  sb_sig :: string

record subscription =
  subscription_id :: string
  su_subscriber :: string
  su_topics :: "string list"
  su_webhook :: "string option"
  su_created :: string

record tombstone_input =
  ti_author :: string
  ti_reason :: string
  ti_nonce :: string
  ti_iat :: string
  ti_exp :: string
  ti_sig :: string

datatype flag_category = SpamFlag | FraudFlag | InjectionFlag | MalwareFlag | OtherFlag

fun categoryText :: "flag_category \<Rightarrow> string" where
  "categoryText SpamFlag = ''spam''"
| "categoryText FraudFlag = ''fraud''"
| "categoryText InjectionFlag = ''injection''"
| "categoryText MalwareFlag = ''malware''"
| "categoryText OtherFlag = ''other''"

record flag_request =
  fr_flagger :: string
  fr_reason :: string
  fr_category :: flag_category
  fr_nonce :: string
  fr_iat :: string
  fr_exp :: string
  fr_sig :: string

record flag_record =
  fg_post :: string
  fg_flagger :: string
  fg_reason :: string
  fg_category :: flag_category
  fg_created :: string

record flag_result =
  fs_post :: string
  fs_flagger :: string
  flag_count :: nat
  upheld :: bool

record board_query =
  bq_type :: "post_type option"
  bq_capability :: "string option"
  bq_author :: "string option"
  bq_region :: "string option"
  bq_since :: "string option"
  bq_until :: "string option"
  bq_minTrust :: "rat option"
  bq_maxPrice :: "string option"
  bq_cursor :: "nat option"
  bq_limit :: nat

record board_cfg =
  brdSkew :: int
  brdRepSigner :: core_signer

record board_world = core +
  plog :: "board_post list"
  pById :: "(string, board_post) jsmap"
  headRef :: "(nat \<times> string) option"
  subscriptions :: "(string, subscription) jsmap"
  postFlags :: "(string, (string, flag_record) jsmap) jsmap"
  forfeitedPosts :: "string list"
  brdDrawn :: nat

definition subscribeObj :: "subscribe_input \<Rightarrow> (string \<times> json) list" where
  "subscribeObj i = [(''subscriber'', JStr (sb_subscriber i)), (''topics'', JArr (map JStr (sb_topics i)))]
     @ optField ''webhook_url'' (sb_webhook i)
     @ [(''nonce'', JStr (sb_nonce i)), (''iat'', JStr (sb_iat i)), (''exp'', JStr (sb_exp i)), (''sig'', JStr (sb_sig i))]"

definition tombstoneObj :: "tombstone_input \<Rightarrow> (string \<times> json) list" where
  "tombstoneObj i = [(''author'', JStr (ti_author i)), (''reason'', JStr (ti_reason i)), (''nonce'', JStr (ti_nonce i)),
     (''iat'', JStr (ti_iat i)), (''exp'', JStr (ti_exp i)), (''sig'', JStr (ti_sig i))]"

definition flagRequestObj :: "flag_request \<Rightarrow> (string \<times> json) list" where
  "flagRequestObj i = [(''flagger'', JStr (fr_flagger i)), (''reason'', JStr (fr_reason i)),
     (''category'', JStr (categoryText (fr_category i))), (''nonce'', JStr (fr_nonce i)), (''iat'', JStr (fr_iat i)),
     (''exp'', JStr (fr_exp i)), (''sig'', JStr (fr_sig i))]"

section \<open>The repositories\<close>

definition headSeq :: "'a board_world_scheme \<Rightarrow> nat" where
  "headSeq w = (case headRef w of None \<Rightarrow> 0 | Some (n, _) \<Rightarrow> n)"

definition headHash :: "'a board_world_scheme \<Rightarrow> string" where
  "headHash w = (case headRef w of None \<Rightarrow> GENESIS_PREV_HASH | Some (_, h) \<Rightarrow> h)"

definition appendPost :: "board_post \<Rightarrow> ('a board_world_scheme, unit) exec" where
  "appendPost p =
     bindE (gets (\<lambda>w. mapGet (pById w) (bp_id p))) (\<lambda>old.
     bindE (throwIf (old \<noteq> None) ConflictError) (\<lambda>_.
     bindE (gets headSeq) (\<lambda>n.
     bindE (throwIf (bp_seq p \<noteq> n + 1) ConflictError) (\<lambda>_.
     modify (\<lambda>w. w\<lparr>plog := plog w @ [p], pById := mapSet (bp_id p) p (pById w), headRef := Some (bp_seq p, bp_hash p)\<rparr>)))))"

definition postHashes :: "'a board_world_scheme \<Rightarrow> string list" where
  "postHashes w = map bp_hash (plog w)"

definition putSubscription :: "subscription \<Rightarrow> ('a board_world_scheme, unit) exec" where
  "putSubscription s = modify (\<lambda>w. w\<lparr>subscriptions := mapSet (subscription_id s) s (subscriptions w)\<rparr>)"

definition flaggersOf :: "string \<Rightarrow> 'a board_world_scheme \<Rightarrow> (string, flag_record) jsmap" where
  "flaggersOf i w = (case mapGet (postFlags w) i of None \<Rightarrow> [] | Some fs \<Rightarrow> fs)"

definition addFlag :: "flag_record \<Rightarrow> ('a board_world_scheme, bool) exec" where
  "addFlag f =
     bindE (gets (flaggersOf (fg_post f))) (\<lambda>fs.
     if mapGet fs (fg_flagger f) \<noteq> None
     then bindE (modify (\<lambda>w. w\<lparr>postFlags := mapSet (fg_post f) fs (postFlags w)\<rparr>)) (\<lambda>_. ret False)
     else bindE (modify (\<lambda>w. w\<lparr>postFlags := mapSet (fg_post f) (mapSet (fg_flagger f) f fs) (postFlags w)\<rparr>)) (\<lambda>_. ret True))"

definition countFor :: "string \<Rightarrow> 'a board_world_scheme \<Rightarrow> nat" where
  "countFor i w = length (flaggersOf i w)"

definition markForfeited :: "string \<Rightarrow> ('a board_world_scheme, unit) exec" where
  "markForfeited i = modify (\<lambda>w. w\<lparr>forfeitedPosts := List.insert i (forfeitedPosts w)\<rparr>)"

definition newBoardId :: "ext \<Rightarrow> string \<Rightarrow> ('a board_world_scheme, string) exec" where
  "newBoardId E prefix = bindE (gets brdDrawn) (\<lambda>n.
     bindE (modify (\<lambda>w. w\<lparr>brdDrawn := Suc n\<rparr>)) (\<lambda>_. ret (prefix @ ''_'' @ ulid E n)))"

section \<open>Publishing\<close>

definition postAction :: "string \<Rightarrow> post_type \<Rightarrow> policy_action" where
  "postAction author t = \<lparr>a_kind = KPost, a_agent = author, a_amount = None, a_category = None, a_counterparty = None,
     a_subKind = Some (if t = OfferType then ''offer'' else if t = RfpType then ''rfp'' else ''other'')\<rparr>"

definition enforcePostPolicy :: "ext \<Rightarrow> int \<Rightarrow> string \<Rightarrow> post_type \<Rightarrow> ('a board_world_scheme, unit) exec" where
  "enforcePostPolicy E now author t =
     bindE (gets (\<lambda>w. activeDelegation E now author (idn w))) (\<lambda>del.
     bindE (orThrow del ForbiddenError) (\<lambda>dl.
     bindE (evaluate E dl (postAction author t)
       \<lparr>u_daily = \<lparr>amount = ''0'', currency = POST_FEE_CURRENCY\<rparr>, u_total = \<lparr>amount = ''0'', currency = POST_FEE_CURRENCY\<rparr>\<rparr>)
       (\<lambda>decision. throwIf (decision \<noteq> Allow) ForbiddenError)))"

text \<open>The receipt entries of the ledger; the first payload with the id counts.\<close>

definition isReceipt :: "string \<Rightarrow> json \<Rightarrow> bool" where
  "isReceipt i p = (case p of JObj ms \<Rightarrow> field ms ''receipt_id'' = Some i | _ \<Rightarrow> False)"

definition receiptEntries :: "ext \<Rightarrow> ledger_st \<Rightarrow> json list" where
  "receiptEntries E l = map payload
     (list_entries E \<lparr>f_kind = Some ''receipt'', f_subject = None, f_since = None, f_until = None, f_from = None\<rparr> l)"

definition receiptParties :: "json \<Rightarrow> string option list" where
  "receiptParties p = (case p of JObj ms \<Rightarrow> [field ms ''payer'', field ms ''payee''] | _ \<Rightarrow> [])"

definition verifyWorkRecord :: "ext \<Rightarrow> board_post \<Rightarrow> work_fields \<Rightarrow> ('a board_world_scheme, unit) exec" where
  "verifyWorkRecord E p f =
     bindE (gets (\<lambda>w. find (isReceipt (wr_receipt f)) (receiptEntries E (led w)))) (\<lambda>found.
     bindE (orThrow found ValidationError) (\<lambda>receipt.
     bindE (throwIf (\<not> List.member (receiptParties receipt) (Some (bp_author p))
         \<or> \<not> List.member (receiptParties receipt) (Some (wr_counterparty f))
         \<or> bp_author p = wr_counterparty f) ForbiddenError) (\<lambda>_.
     bindE (gets (\<lambda>w. publicKeyFor (resolverOf E (idn w)) (wr_counterparty f) None)) (\<lambda>key.
     bindE (orThrow key ForbiddenError) (\<lambda>cpKey.
     throwIf (\<not> verifyDetached E (JObj (stripForSigning (bodyOf p) [''sig'', ''counterparty_sig''])) (wr_cosig f) cpKey)
       ForbiddenError)))))"

definition maybeAnchor :: "ext \<Rightarrow> int \<Rightarrow> nat \<Rightarrow> ('a board_world_scheme, string) exec" where
  "maybeAnchor E now sq =
     bindE (gets (\<lambda>w. merkleRoot E (postHashes w))) (\<lambda>root.
     bindE (if sq mod ANCHOR_EVERY = 0
            then appendLedger E now ''board_anchor'' None (JObj [(''merkle_root'', JStr root), (''seq'', JNum (of_nat sq))])
            else ret ()) (\<lambda>_.
     ret root))"

text \<open>The chain fields the server assigns.\<close>

definition linked :: "ext \<Rightarrow> board_post \<Rightarrow> 'a board_world_scheme \<Rightarrow> board_post" where
  "linked E p w = p\<lparr>bp_seq := headSeq w + 1, bp_prev := headHash w, bp_hash := hashChain E (headHash w) (JObj (bodyOf p))\<rparr>"

definition postFee :: "ext \<Rightarrow> ('s, money) exec" where
  "postFee E = mFromString E POST_FEE_AMOUNT POST_FEE_CURRENCY"

definition postOpts :: "board_post \<Rightarrow> verify_opts" where
  "postOpts p = \<lparr>signerDid = bp_author p, sigField = ''sig'',
     omitFields = (if postType (bp_body p) = WorkRecordType then WORK_RECORD_AUTHOR_OMIT else AUTHOR_OMIT),
     keyId = None, skipNonce = False\<rparr>"

text \<open>Steps 4 and 5 of \<open>post\<close>: the chain fields, the fee, the append and the anchor.\<close>

definition appendLinked :: "ext \<Rightarrow> int \<Rightarrow> board_post \<Rightarrow> ('a board_world_scheme, board_post \<times> string) exec" where
  "appendLinked E now p =
     bindE (gets (linked E p)) (\<lambda>stored.
     bindE (if postType (bp_body p) \<noteq> WorkRecordType
            then bindE (postFee E) (\<lambda>fee.
                 bindE (inWallet (hold E now (bp_author p) fee (bp_id stored))) (\<lambda>_. ret ()))
            else ret ()) (\<lambda>_.
     bindE (appendPost stored) (\<lambda>_.
     bindE (maybeAnchor E now (bp_seq stored)) (\<lambda>root.
     ret (stored, root)))))"

definition publishPost :: "ext \<Rightarrow> board_cfg \<Rightarrow> int \<Rightarrow> board_post \<Rightarrow> ('a board_world_scheme, board_post \<times> string) exec" where
  "publishPost E cfg now p =
     bindE (verifyAs E now (brdSkew cfg) (bodyOf p) (postOpts p)) (\<lambda>_.
     bindE (enforcePostPolicy E now (bp_author p) (postType (bp_body p))) (\<lambda>_.
     bindE (case bp_body p of WorkRecord f \<Rightarrow> verifyWorkRecord E p f | _ \<Rightarrow> ret ()) (\<lambda>_.
     appendLinked E now p)))"

section \<open>Subscriptions, tombstones and flags\<close>

definition subscribe :: "ext \<Rightarrow> board_cfg \<Rightarrow> int \<Rightarrow> subscribe_input \<Rightarrow> ('a board_world_scheme, subscription) exec" where
  "subscribe E cfg now i =
     bindE (verifyAs E now (brdSkew cfg) (subscribeObj i) (sigOpts (sb_subscriber i))) (\<lambda>_.
     bindE (newBoardId E ''sub'') (\<lambda>sid.
     let s = \<lparr>subscription_id = sid, su_subscriber = sb_subscriber i, su_topics = sb_topics i, su_webhook = sb_webhook i,
              su_created = isoOf E now\<rparr> in
     bindE (putSubscription s) (\<lambda>_. ret s)))"

definition tombstone :: "ext \<Rightarrow> board_cfg \<Rightarrow> int \<Rightarrow> string \<Rightarrow> tombstone_input \<Rightarrow>
    ('a board_world_scheme, board_post \<times> string) exec" where
  "tombstone E cfg now postId i =
     bindE (gets (\<lambda>w. mapGet (pById w) postId)) (\<lambda>found.
     bindE (orThrow found NotFoundError) (\<lambda>target.
     bindE (throwIf (bp_author target \<noteq> ti_author i) ForbiddenError) (\<lambda>_.
     bindE (verifyAs E now (brdSkew cfg) (tombstoneObj i) (sigOpts (ti_author i))) (\<lambda>_.
     bindE (newBoardId E ''pst'') (\<lambda>pid.
     let t = \<lparr>bp_id = pid, bp_author = ti_author i, bp_created = isoOf E now,
              bp_body = TombstonePost \<lparr>tb_target = postId, tb_reason = ti_reason i\<rparr>, bp_seq = 0, bp_prev = '''', bp_hash = '''',
              bp_nonce = ti_nonce i, bp_iat = ti_iat i, bp_exp = ti_exp i, bp_sig = ti_sig i\<rparr> in
     bindE (gets (linked E t)) (\<lambda>stored.
     bindE (appendPost stored) (\<lambda>_.
     bindE (maybeAnchor E now (bp_seq stored)) (\<lambda>root.
     ret (stored, root)))))))))"

text \<open>An upheld flag forfeits the hold whose id is the id of the post.\<close>

definition slashPost :: "ext \<Rightarrow> board_cfg \<Rightarrow> int \<Rightarrow> string \<Rightarrow> board_post \<Rightarrow> ('a board_world_scheme, unit) exec" where
  "slashPost E cfg now postId target =
     bindE (inWallet (forfeit E postId None)) (\<lambda>_.
     bindE (inReputation (ingestSignal E (brdRepSigner cfg) now (bp_author target) ''post_flag'' 1)) (\<lambda>_.
     markForfeited postId))"

definition flagPost :: "ext \<Rightarrow> board_cfg \<Rightarrow> int \<Rightarrow> string \<Rightarrow> flag_request \<Rightarrow> ('a board_world_scheme, flag_result) exec" where
  "flagPost E cfg now postId i =
     bindE (gets (\<lambda>w. mapGet (pById w) postId)) (\<lambda>found.
     bindE (orThrow found NotFoundError) (\<lambda>target.
     bindE (verifyAs E now (brdSkew cfg) (flagRequestObj i) (sigOpts (fr_flagger i))) (\<lambda>_.
     bindE (addFlag \<lparr>fg_post = postId, fg_flagger = fr_flagger i, fg_reason = fr_reason i, fg_category = fr_category i,
       fg_created = isoOf E now\<rparr>) (\<lambda>_.
     bindE (gets (countFor postId)) (\<lambda>n.
     let up = fr_category i \<noteq> OtherFlag \<and> FLAG_FORFEIT_THRESHOLD \<le> n in
     bindE (gets (\<lambda>w. List.member (forfeitedPosts w) postId)) (\<lambda>gone.
     bindE (if up \<and> \<not> gone then slashPost E cfg now postId target else ret ()) (\<lambda>_.
     ret \<lparr>fs_post = postId, fs_flagger = fr_flagger i, flag_count = n, upheld = up\<rparr>)))))))"

definition boardRoot :: "ext \<Rightarrow> 'a board_world_scheme \<Rightarrow> string \<times> nat" where
  "boardRoot E w = (merkleRoot E (postHashes w), headSeq w)"

section \<open>The query\<close>

definition capabilityOf :: "board_post \<Rightarrow> string option" where
  "capabilityOf p = (case bp_body p of Offer f \<Rightarrow> Some (of_capability f) | Rfp f \<Rightarrow> Some (rp_capability f) | _ \<Rightarrow> None)"

definition regionsOf :: "board_post \<Rightarrow> string list" where
  "regionsOf p = (case bp_body p of Offer f \<Rightarrow> of_regions f | _ \<Rightarrow> [])"

text \<open>The amount of a priced post, before \<open>Number\<close>; \<open>None\<close> is null.\<close>

definition priceAmountOf :: "board_post \<Rightarrow> string option" where
  "priceAmountOf p = (case bp_body p of Offer f \<Rightarrow> Some (pf_amount (of_price f)) | Rfp f \<Rightarrow> Some (amount (rp_budget f)) | _ \<Rightarrow> None)"

definition tombstonedIds :: "board_post list \<Rightarrow> string list" where
  "tombstonedIds ps = concat (map (\<lambda>p. case bp_body p of TombstonePost f \<Rightarrow> [tb_target f] | _ \<Rightarrow> []) ps)"

definition survives :: "ext \<Rightarrow> board_query \<Rightarrow> (string \<Rightarrow> rat option) \<Rightarrow> string list \<Rightarrow> board_post \<Rightarrow> bool" where
  "survives E q trustFor dead p =
     (if postType (bp_body p) = TombstoneType then False
      else if List.member dead (bp_id p) then False
      else if bp_seq p \<le> (case bq_cursor q of None \<Rightarrow> 0 | Some c \<Rightarrow> c) then False
      else if (case bq_type q of None \<Rightarrow> False | Some t \<Rightarrow> postType (bp_body p) \<noteq> t) then False
      else if (case bq_author q of None \<Rightarrow> False | Some a \<Rightarrow> bp_author p \<noteq> a) then False
      else if (case bq_capability q of None \<Rightarrow> False | Some c \<Rightarrow> capabilityOf p \<noteq> Some c) then False
      else if (case bq_region q of None \<Rightarrow> False | Some r \<Rightarrow> \<not> List.member (regionsOf p) r) then False
      else if (case bq_since q of None \<Rightarrow> False | Some s \<Rightarrow> ltNum (dateMs E (bp_created p)) (dateMs E s)) then False
      else if (case bq_until q of None \<Rightarrow> False | Some u \<Rightarrow> ltNum (dateMs E u) (dateMs E (bp_created p))) then False
      else if (case bq_minTrust q of None \<Rightarrow> False | Some m \<Rightarrow> ltNum (trustFor (bp_author p)) (Some m)) then False
      else (case bq_maxPrice q of
         None \<Rightarrow> True
       | Some m \<Rightarrow> (case priceAmountOf p of None \<Rightarrow> False | Some a \<Rightarrow> \<not> ltNum (numberOf E m) (numberOf E a))))"

record rank_signals =
  sg_recency :: rat
  sg_trust :: "rat option"
  sg_price :: rat

record ranked_post =
  rk_post :: board_post
  rk_score :: "rat option"
  rk_signals :: rank_signals
  rk_notes :: "string list"

definition RECENCY_HORIZON_MS :: int where
  "RECENCY_HORIZON_MS = 7 * 24 * 60 * 60 * 1000"

definition PRICE_SATURATION :: rat where
  "PRICE_SATURATION = 100"

definition recencyScore :: "ext \<Rightarrow> string \<Rightarrow> int \<Rightarrow> rat" where
  "recencyScore E created now =
     (case dateMs E created of
        None \<Rightarrow> 0
      | Some t \<Rightarrow> if now - t \<le> 0 then 1 else clamp01 (1 - of_int (now - t) / of_int RECENCY_HORIZON_MS))"

definition priceScore :: "ext \<Rightarrow> board_post \<Rightarrow> rat" where
  "priceScore E p =
     (case priceAmountOf p of
        None \<Rightarrow> 1
      | Some a \<Rightarrow> (case numberOf E a of None \<Rightarrow> 1 | Some x \<Rightarrow> clamp01 (1 - x / PRICE_SATURATION)))"

definition isPriced :: "board_post \<Rightarrow> bool" where
  "isPriced p \<longleftrightarrow> postType (bp_body p) = OfferType \<or> postType (bp_body p) = RfpType"

definition rankPost :: "ext \<Rightarrow> int \<Rightarrow> (string \<Rightarrow> rat option) \<Rightarrow> board_post \<Rightarrow> ranked_post" where
  "rankPost E now trustFor p =
     (let recency = recencyScore E (bp_created p) now;
          trust = map_option clamp01 (trustFor (bp_author p));
          price = priceScore E p
      in \<lparr>rk_post = p,
          rk_score = map_option (\<lambda>t. (40 / 100) * recency + (45 / 100) * t + (15 / 100) * price) trust,
          rk_signals = \<lparr>sg_recency = recency, sg_trust = trust, sg_price = price\<rparr>,
          rk_notes = (if trust = Some 0 then [''author has no measured standing (cold start)''] else [])
            @ (if 99 / 100 \<le> recency then [''freshly posted''] else [])
            @ (if \<not> isPriced p then [''price signal not applicable''] else [])\<rparr>)"

text \<open>\<open>compare(a, b) <= 0\<close>; a comparison with \<open>NaN\<close> counts as equal.\<close>

definition rankBefore :: "ranked_post \<Rightarrow> ranked_post \<Rightarrow> bool" where
  "rankBefore a b =
     (case (rk_score a, rk_score b) of
        (Some s, Some t) \<Rightarrow> if t \<noteq> s then t < s else bp_seq (rk_post b) \<le> bp_seq (rk_post a)
      | _ \<Rightarrow> True)"

definition rankPosts :: "ext \<Rightarrow> int \<Rightarrow> (string \<Rightarrow> rat option) \<Rightarrow> board_post list \<Rightarrow> ranked_post list" where
  "rankPosts E now trustFor ps = sortBy rankBefore (map (rankPost E now trustFor) ps)"

text \<open>The trust of each distinct author, resolved once; no snapshot counts as 0.\<close>

fun resolveTrusts :: "ext \<Rightarrow> board_cfg \<Rightarrow> int \<Rightarrow> string list \<Rightarrow> ('a board_world_scheme, (string, rat option) jsmap) exec" where
  "resolveTrusts E cfg now [] = ret []"
| "resolveTrusts E cfg now (a # as) =
     bindE (inReputation (getSnapshot E (brdRepSigner cfg) now a)) (\<lambda>snap.
     bindE (resolveTrusts E cfg now as) (\<lambda>rest.
     ret ((a, case snap of None \<Rightarrow> Some 0 | Some s \<Rightarrow> sn_trust s) # rest)))"

definition trustIn :: "(string, rat option) jsmap \<Rightarrow> string \<Rightarrow> rat option" where
  "trustIn m d = (case mapGet m d of None \<Rightarrow> Some 0 | Some t \<Rightarrow> t)"

definition boardPage :: "ext \<Rightarrow> int \<Rightarrow> board_query \<Rightarrow> (string \<Rightarrow> rat option) \<Rightarrow> board_post list \<Rightarrow> ranked_post list" where
  "boardPage E now q trustFor ps =
     take (bq_limit q) (rankPosts E now trustFor (filter (survives E q trustFor (tombstonedIds ps)) ps))"

definition nextBoardCursor :: "board_query \<Rightarrow> ranked_post list \<Rightarrow> nat option" where
  "nextBoardCursor q page =
     (if length page = bq_limit q then Some (foldl (\<lambda>m r. max m (bp_seq (rk_post r))) 0 page) else None)"

definition queryBoard :: "ext \<Rightarrow> board_cfg \<Rightarrow> int \<Rightarrow> board_query \<Rightarrow>
    ('a board_world_scheme, ranked_post list \<times> nat option) exec" where
  "queryBoard E cfg now q =
     bindE (gets plog) (\<lambda>ps.
     bindE (resolveTrusts E cfg now (distinctFirst (map bp_author ps))) (\<lambda>ts.
     let page = boardPage E now q (trustIn ts) ps in
     ret (page, nextBoardCursor q page)))"

end
