(* ===== verification/Board_Spec.thy ===== *)
theory Board_Spec
  imports Board
begin

text \<open>
  What the board guarantees: its log only grows and stays linked, a query returns the best of what
  passes the filter, a work record is backed by a receipt of its two parties. Three properties show
  what it does not: anybody's tombstone hides a post, a flag slashes by the id of the post whatever
  hold has that id, and paging can lose posts.
\<close>

section \<open>The log\<close>

interpretation brd: hash_log bp_prev bp_hash "\<lambda>p. hashChain E (bp_prev p) (JObj (bodyOf p))" GENESIS_PREV_HASH for E .

type_synonym board_parts = "board_post list \<times> (string, board_post) jsmap \<times> (nat \<times> string) option"

definition boardParts :: "'a board_world_scheme \<Rightarrow> board_parts" where
  "boardParts w = (plog w, pById w, headRef w)"

definition partsOk :: "ext \<Rightarrow> board_parts \<Rightarrow> bool" where
  "partsOk E = (\<lambda>(ps, byId, hd).
     brd.linkedFrom E GENESIS_PREV_HASH ps \<and> (\<forall>i < length ps. bp_seq (ps ! i) = i + 1) \<and>
     hd = (if ps = [] then None else Some (bp_seq (last ps), bp_hash (last ps))) \<and>
     distinct (map bp_id ps) \<and> (\<forall>i p. mapGet byId i = Some p \<longleftrightarrow> p \<in> set ps \<and> bp_id p = i))"

definition board_ok :: "ext \<Rightarrow> 'a board_world_scheme \<Rightarrow> bool" where
  "board_ok E w \<longleftrightarrow> partsOk E (boardParts w)"

lemma board_okD:
  assumes "board_ok E w"
  shows "brd.linkedFrom E GENESIS_PREV_HASH (plog w)" "i < length (plog w) \<Longrightarrow> bp_seq (plog w ! i) = i + 1"
    "headRef w = (if plog w = [] then None else Some (bp_seq (last (plog w)), bp_hash (last (plog w))))"
    "distinct (map bp_id (plog w))" "mapGet (pById w) k = Some p \<longleftrightarrow> p \<in> set (plog w) \<and> bp_id p = k"
  using assms by (simp_all add: board_ok_def partsOk_def boardParts_def)

lemma board_ok_head:
  assumes "board_ok E w"
  shows "headSeq w = length (plog w)" "headHash w = brd.tip GENESIS_PREV_HASH (plog w)"
proof -
  have "plog w \<noteq> [] \<Longrightarrow> bp_seq (last (plog w)) = length (plog w)"
    using board_okD(2) [OF assms, of "length (plog w) - 1"] by (simp add: last_conv_nth)
  then show "headSeq w = length (plog w)" "headHash w = brd.tip GENESIS_PREV_HASH (plog w)"
    using board_okD(3) [OF assms] by (auto simp: headSeq_def headHash_def brd.tip_def)
qed

text \<open>The body does not depend on the chain fields, so the hash can be recomputed from the stored post.\<close>

lemma bodyOf_linked [simp]: "bodyOf (linked E p w) = bodyOf p"
  by (simp add: bodyOf_def linked_def postObj_def stripForSigning_def CHAIN_FIELDS_def)

lemma linked_sel [simp]:
  "bp_id (linked E p w) = bp_id p" "bp_author (linked E p w) = bp_author p" "bp_body (linked E p w) = bp_body p"
  "bp_seq (linked E p w) = headSeq w + 1" "bp_prev (linked E p w) = headHash w"
  "bp_hash (linked E p w) = hashChain E (headHash w) (JObj (bodyOf p))" "bp_created (linked E p w) = bp_created p"
  by (simp_all add: linked_def)

lemma appendPost_linked:
  assumes ok: "board_ok E w" and new: "mapGet (pById w) (bp_id p) = None"
  shows "board_ok E (w\<lparr>plog := plog w @ [linked E p w], pById := mapSet (bp_id p) (linked E p w) (pById w),
    headRef := Some (headSeq w + 1, bp_hash (linked E p w))\<rparr>)"
proof -
  note ok' = board_okD [OF ok] and hd = board_ok_head [OF ok]
  have fresh: "\<forall>x \<in> set (plog w). bp_id x \<noteq> bp_id p" using new ok'(5) by (metis option.distinct(1))
  have id: "mapGet (mapSet (bp_id p) (linked E p w) (pById w)) k = Some x \<longleftrightarrow>
      x \<in> set (plog w @ [linked E p w]) \<and> bp_id x = k" for k x
    using ok'(5) [of k x] fresh by auto
  have sq: "\<forall>i < length (plog w @ [linked E p w]). bp_seq ((plog w @ [linked E p w]) ! i) = i + 1"
    using ok'(2) hd(1) by (auto simp: nth_append less_Suc_eq)
  show ?thesis
    using ok'(1,4) hd(2) fresh sq id by (auto simp add: board_ok_def partsOk_def boardParts_def brd.linkedFrom_snoc)
qed

section \<open>Every operation only appends\<close>

definition grows :: "ext \<Rightarrow> 'a board_world_scheme \<Rightarrow> 'a board_world_scheme \<Rightarrow> bool" where
  "grows E w w' \<longleftrightarrow> (board_ok E w \<longrightarrow> board_ok E w') \<and> (\<exists>ps. plog w' = plog w @ ps)"

interpretation bg: guarantee "grows E" for E
  by standard (auto simp: grows_def)

lemma grows_quiet: "boardParts w' = boardParts w \<Longrightarrow> grows E w w'"
  by (simp add: grows_def board_ok_def) (simp add: boardParts_def)

lemma boardParts_sel [simp]:
  "boardParts (w\<lparr>non := n\<rparr>) = boardParts w" "boardParts (w\<lparr>wal := a\<rparr>) = boardParts w"
  "boardParts (w\<lparr>led := l\<rparr>) = boardParts w" "boardParts (w\<lparr>rep := p\<rparr>) = boardParts w"
  "boardParts (w\<lparr>subscriptions := s\<rparr>) = boardParts w" "boardParts (w\<lparr>postFlags := f\<rparr>) = boardParts w"
  "boardParts (w\<lparr>forfeitedPosts := g\<rparr>) = boardParts w" "boardParts (w\<lparr>brdDrawn := k\<rparr>) = boardParts w"
  by (simp_all add: boardParts_def)

lemma frames_postFee [frames_rules]: "frames f (postFee E)"
  unfolding postFee_def mFromString_def by (intro frames_rules)

lemma frames_newBoardId [frames_rules]: "(\<And>w n. f (w\<lparr>brdDrawn := n\<rparr>) = f w) \<Longrightarrow> frames f (newBoardId E p)"
  unfolding newBoardId_def by (intro frames_rules)

lemma frames_maybeAnchor [frames_rules]: "(\<And>w s. f (w\<lparr>led := s\<rparr>) = f w) \<Longrightarrow> frames f (maybeAnchor E now sq)"
  unfolding maybeAnchor_def by (intro frames_rules)

lemma frames_enforcePostPolicy [frames_rules]: "frames f (enforcePostPolicy E now a t)"
  unfolding enforcePostPolicy_def by (intro frames_rules)

lemma frames_verifyWorkRecord [frames_rules]: "frames f (verifyWorkRecord E p g)"
  unfolding verifyWorkRecord_def by (intro frames_rules)

lemma frames_case_body [frames_rules]:
  "(\<And>g. frames f (m g)) \<Longrightarrow> frames f n \<Longrightarrow> frames f (case b of WorkRecord g \<Rightarrow> m g | _ \<Rightarrow> n)"
  by (simp split: post_body.split)

lemma frames_addFlag [frames_rules]: "(\<And>w s. f (w\<lparr>postFlags := s\<rparr>) = f w) \<Longrightarrow> frames f (addFlag g)"
  unfolding addFlag_def by (intro frames_rules)

lemma frames_slashPost [frames_rules]:
  assumes "\<And>w s. f (w\<lparr>wal := s\<rparr>) = f w" "\<And>w s. f (w\<lparr>rep := s\<rparr>) = f w" "\<And>w s. f (w\<lparr>forfeitedPosts := s\<rparr>) = f w"
  shows "frames f (slashPost E cfg now i p)"
  unfolding slashPost_def markForfeited_def by (intro frames_rules assms)

lemma frames_resolveTrusts [frames_rules]: "(\<And>w s. f (w\<lparr>rep := s\<rparr>) = f w) \<Longrightarrow> frames f (resolveTrusts E cfg now as)"
  by (induction as) (auto intro!: frames_rules simp del: ret_app)

text \<open>
  The append of a post linked to the head it was linked against: whatever happens, the log grows by
  at most that post.
\<close>

lemma appendPost_out:
  assumes "boardParts w1 = boardParts w"
  shows "(\<exists>e. appendPost (linked E p w) w1 = (Inl e, w1)) \<or>
    appendPost (linked E p w) w1 = (Inr (), w1\<lparr>plog := plog w @ [linked E p w],
      pById := mapSet (bp_id p) (linked E p w) (pById w), headRef := Some (headSeq w + 1, bp_hash (linked E p w))\<rparr>) \<and>
    mapGet (pById w) (bp_id p) = None"
  using assms by (auto simp: appendPost_def exec_simps boardParts_def headSeq_def)

lemma appendPost_grows:
  assumes "boardParts w1 = boardParts w"
  shows "grows E w1 (snd (appendPost (linked E p w) w1))"
proof -
  have l: "linked E p w = linked E p w1" using assms by (simp add: linked_def boardParts_def headSeq_def headHash_def)
  have b: "plog w = plog w1" "pById w = pById w1" "headSeq w = headSeq w1" using assms by (simp_all add: boardParts_def headSeq_def)
  show ?thesis
    using appendPost_out [OF assms, of E p] appendPost_linked [of E w1 p]
    unfolding l b by (auto simp: grows_def)
qed

lemma appended_grows:
  assumes m: "frames boardParts m" and k: "\<And>x. frames boardParts (k x)"
  shows "grows E w (snd (bindE m (\<lambda>_. bindE (appendPost (linked E p w)) k) w))"
proof -
  obtain r w1 where m1: "m w = (r, w1)" by (cases "m w")
  have p1: "boardParts w1 = boardParts w" using frames_out [OF m m1] .
  show ?thesis
  proof (cases r)
    case (Inl e)
    then show ?thesis using m1 grows_quiet [OF p1] by (simp add: bindE_app)
  next
    case (Inr x)
    obtain s w2 where a: "appendPost (linked E p w) w1 = (s, w2)" by (cases "appendPost (linked E p w) w1")
    have g: "grows E w1 w2" using appendPost_grows [OF p1, of E p] a by simp
    have "grows E w2 (snd (k y w2))" for y by (rule grows_quiet) (rule frames_eq [OF k])
    then have "grows E w1 (snd (bindE (appendPost (linked E p w)) k w1))"
      using a g bg.trans [OF g] by (cases s) (auto simp: bindE_app)
    then show ?thesis using m1 Inr bg.trans [OF grows_quiet [OF p1]] by (simp add: bindE_app [of m])
  qed
qed

lemma appendLinked_grows: "grows E w (snd (appendLinked E now p w))"
proof -
  let ?fee = "if postType (bp_body p) \<noteq> WorkRecordType
            then bindE (postFee E) (\<lambda>fee. bindE (inWallet (hold E now (bp_author p) fee (bp_id (linked E p w)))) (\<lambda>_. ret ()))
            else ret ()"
  have "frames boardParts ?fee" by (intro frames_rules) simp
  moreover have "frames boardParts (bindE (maybeAnchor E now n) (\<lambda>root. ret (linked E p w, root)))" for n
    by (intro frames_rules) simp
  ultimately show ?thesis
    unfolding appendLinked_def bindE_app [of "gets _"] gets_app prod.case sum.case by (rule appended_grows)
qed

lemma grows_after:
  assumes "frames boardParts m" "\<And>x w. grows E w (snd (k x w))"
  shows "grows E w (snd (bindE m k w))"
proof -
  obtain r w1 where m1: "m w = (r, w1)" by (cases "m w")
  then show ?thesis using bg.trans [OF grows_quiet [OF frames_out [OF assms(1) m1]] assms(2)]
      grows_quiet [OF frames_out [OF assms(1) m1]] by (cases r) (auto simp: bindE_app)
qed

lemma publishPost_grows: "grows E w (snd (publishPost E cfg now p w))"
  unfolding publishPost_def
  by (intro grows_after appendLinked_grows frames_rules) simp

lemma tombstone_grows: "grows E w (snd (tombstone E cfg now i t w))"
proof -
  have "grows E w (snd (bindE (gets (linked E p)) (\<lambda>stored. bindE (appendPost stored) (\<lambda>_.
     bindE (maybeAnchor E now (bp_seq stored)) (\<lambda>root. ret (stored, root)))) w))" for p and w :: "'a board_world_scheme"
  proof -
    have "frames boardParts (bindE (maybeAnchor E now (bp_seq (linked E p w))) (\<lambda>root. ret (linked E p w, root)))"
      by (intro frames_rules) simp
    from appended_grows [OF frames_ret [of _ "()"] this, of E w p] show ?thesis
      by (simp add: bindE_app [of "gets _"] bindE_ret del: linked_sel)
  qed
  note step = this
  show ?thesis unfolding tombstone_def Let_def
    by (rule step | (rule grows_after, (intro frames_rules; simp)[1]))+
qed

datatype board_op =
    OpPost board_post
  | OpQuery board_query
  | OpSubscribe subscribe_input
  | OpTombstone string tombstone_input
  | OpFlagPost string flag_request

fun runBoard :: "ext \<Rightarrow> board_cfg \<Rightarrow> int \<Rightarrow> board_op \<Rightarrow> 'a board_world_scheme \<Rightarrow> 'a board_world_scheme" where
  "runBoard E cfg now (OpPost p) w = snd (publishPost E cfg now p w)"
| "runBoard E cfg now (OpQuery q) w = snd (queryBoard E cfg now q w)"
| "runBoard E cfg now (OpSubscribe i) w = snd (subscribe E cfg now i w)"
| "runBoard E cfg now (OpTombstone i t) w = snd (tombstone E cfg now i t w)"
| "runBoard E cfg now (OpFlagPost i f) w = snd (flagPost E cfg now i f w)"

fun runBoards :: "ext \<Rightarrow> board_cfg \<Rightarrow> (int \<times> board_op) list \<Rightarrow> 'a board_world_scheme \<Rightarrow> 'a board_world_scheme" where
  "runBoards E cfg [] w = w"
| "runBoards E cfg ((now, op) # ops) w = runBoards E cfg ops (runBoard E cfg now op w)"

lemma runBoard_grows:
  fixes w :: "'a board_world_scheme"
  shows "grows E w (runBoard E cfg now op w)"
proof -
  have q: "frames boardParts (queryBoard E cfg now q :: ('a board_world_scheme, _) exec)" for q
    unfolding queryBoard_def Let_def by (intro frames_rules) simp
  have s: "frames boardParts (subscribe E cfg now i :: ('a board_world_scheme, _) exec)" for i
    unfolding subscribe_def Let_def putSubscription_def by (intro frames_rules) simp_all
  have f: "frames boardParts (flagPost E cfg now i g :: ('a board_world_scheme, _) exec)" for i g
    unfolding flagPost_def Let_def by (intro frames_rules) simp_all
  show ?thesis
    using publishPost_grows tombstone_grows grows_quiet [OF frames_eq [OF q]] grows_quiet [OF frames_eq [OF s]]
      grows_quiet [OF frames_eq [OF f]] by (cases op) simp_all
qed

lemma runBoards_grows: "grows E w (runBoards E cfg ops w)"
proof (induction ops arbitrary: w)
  case (Cons x ops)
  obtain now op where "x = (now, op)" by (cases x)
  then show ?case using bg.trans [OF runBoard_grows Cons.IH] by simp
qed (simp add: bg.refl)

text \<open>
  Claim C18. The board is append-only and verifiable: after any run of operations, whatever their
  outcome, the posts that were on it are still there, in their places and unchanged, every post
  carries its position and the hash of its predecessor, and its own hash is recomputed from its
  signed body.
\<close>

theorem board_append_only:
  assumes "board_ok E w"
  shows "(\<exists>ps. plog (runBoards E cfg ops w) = plog w @ ps) \<and>
    (\<forall>i < length (plog (runBoards E cfg ops w)). let p = plog (runBoards E cfg ops w) ! i in
       bp_seq p = i + 1 \<and> bp_hash p = hashChain E (bp_prev p) (JObj (bodyOf p)) \<and>
       bp_prev p = (if i = 0 then GENESIS_PREV_HASH else bp_hash (plog (runBoards E cfg ops w) ! (i - 1))))"
proof -
  let ?ps = "plog (runBoards E cfg ops w)"
  have g: "grows E w (runBoards E cfg ops w)" by (rule runBoards_grows)
  have ok: "board_ok E (runBoards E cfg ops w)" using g assms by (simp add: grows_def)
  have link: "bp_hash (?ps ! i) = hashChain E (bp_prev (?ps ! i)) (JObj (bodyOf (?ps ! i))) \<and>
      bp_prev (?ps ! i) = (if i = 0 then GENESIS_PREV_HASH else bp_hash (?ps ! (i - 1)))" if i: "i < length ?ps" for i
  proof -
    have "take (Suc i) ?ps = take i ?ps @ [?ps ! i]" using i by (rule take_Suc_conv_app_nth)
    then have "brd.linkedFrom E GENESIS_PREV_HASH (take i ?ps @ [?ps ! i])"
      using brd.linkedFrom_take [OF board_okD(1) [OF ok], of "Suc i"] by simp
    then have "bp_prev (?ps ! i) = brd.tip GENESIS_PREV_HASH (take i ?ps)"
      "bp_hash (?ps ! i) = hashChain E (bp_prev (?ps ! i)) (JObj (bodyOf (?ps ! i)))"
      by (simp_all add: brd.linkedFrom_snoc)
    moreover have "last (take i ?ps) = ?ps ! (i - 1)" if "i \<noteq> 0"
      using that i by (cases i) (simp_all add: take_Suc_conv_app_nth)
    ultimately show ?thesis using i by (auto simp: brd.tip_def)
  qed
  show ?thesis using g link board_okD(2) [OF ok] by (auto simp: grows_def Let_def)
qed

section \<open>The query\<close>

text \<open>The key by which the comparator sorts when no score is \<open>NaN\<close>: score, then position, newest first.\<close>

definition boardKey :: "ranked_post \<Rightarrow> int rank_key" where
  "boardKey r = RankKey (case rk_score r of None \<Rightarrow> 0 | Some s \<Rightarrow> s) (- int (bp_seq (rk_post r)))"

lemma rankPost_sel [simp]: "rk_post (rankPost E now tf p) = p"
  by (simp add: rankPost_def Let_def)

lemma rankPost_score: "rk_score (rankPost E now (\<lambda>d. Some (t d)) p) =
    Some ((40 / 100) * recencyScore E (bp_created p) now + (45 / 100) * clamp01 (t (bp_author p)) + (15 / 100) * priceScore E p)"
  by (simp add: rankPost_def Let_def)

interpretation bdq: discovery "survives E q (\<lambda>d. Some (t d)) dead" "rankPost E now (\<lambda>d. Some (t d))" rk_post rankBefore boardKey
  for E q t dead now
proof
  fix a b
  show "rankBefore (rankPost E now (\<lambda>d. Some (t d)) a) (rankPost E now (\<lambda>d. Some (t d)) b) \<longleftrightarrow>
      boardKey (rankPost E now (\<lambda>d. Some (t d)) a) \<le> boardKey (rankPost E now (\<lambda>d. Some (t d)) b)"
    by (auto simp: rankBefore_def boardKey_def rankPost_score)
qed simp

lemma boardPage_is: "boardPage E now q (\<lambda>d. Some (t d)) ps = bdq.page E q t (tombstonedIds ps) now (bq_limit q) ps"
  by (simp add: boardPage_def rankPosts_def bdq.page_def)

lemma queryBoard_ok:
  assumes "queryBoard E cfg now q w = (Inr (page, c), w')"
  shows "\<exists>tz. resolveTrusts E cfg now (distinctFirst (map bp_author (plog w))) w = (Inr tz, w') \<and>
    page = boardPage E now q (trustIn tz) (plog w) \<and> c = nextBoardCursor q page"
proof -
  have "bindE (resolveTrusts E cfg now (distinctFirst (map bp_author (plog w)))) (\<lambda>tz.
     let page = boardPage E now q (trustIn tz) (plog w) in ret (page, nextBoardCursor q page)) w = (Inr (page, c), w')"
    using assms by (simp add: queryBoard_def bindE_app [of "gets _"])
  then obtain tz w1 where "resolveTrusts E cfg now (distinctFirst (map bp_author (plog w))) w = (Inr tz, w1)"
    "(let page = boardPage E now q (trustIn tz) (plog w) in ret (page, nextBoardCursor q page)) w1 = (Inr (page, c), w')"
    by (rule bindE_InrE)
  then show ?thesis by (auto simp: Let_def)
qed

text \<open>
  Claim C20. A query is exact, for authors whose trust is a number: the page holds only posts of the
  board that pass the filter, none twice, each with its own score; it is sorted by score and, among
  equal scores, newest first; it is full whenever enough posts pass; and no post that passes and is
  left out ranks before one that is returned.
\<close>

theorem board_query_exact:
  assumes "board_ok E w" "queryBoard E cfg now q w = (Inr (page, c), w')"
    and "resolveTrusts E cfg now (distinctFirst (map bp_author (plog w))) w = (Inr tz, w')" "\<forall>d. trustIn tz d = Some (t d)"
  shows "distinct (map rk_post page) \<and>
    length page = min (bq_limit q) (length (filter (survives E q (trustIn tz) (tombstonedIds (plog w))) (plog w))) \<and>
    (\<forall>r \<in> set page. rk_post r \<in> set (plog w) \<and> survives E q (trustIn tz) (tombstonedIds (plog w)) (rk_post r) \<and>
       r = rankPost E now (trustIn tz) (rk_post r)) \<and>
    sorted (map boardKey page) \<and>
    (\<forall>p \<in> set (plog w). survives E q (trustIn tz) (tombstonedIds (plog w)) p \<longrightarrow> p \<notin> rk_post ` set page \<longrightarrow>
       (\<forall>r \<in> set page. boardKey r \<le> boardKey (rankPost E now (trustIn tz) p)))"
proof -
  have tf: "trustIn tz = (\<lambda>d. Some (t d))" using assms(4) by auto
  let ?dead = "tombstonedIds (plog w)" and ?rank = "rankPost E now (\<lambda>d. Some (t d))"
  let ?page = "bdq.page E q t ?dead now (bq_limit q) (plog w)"
  have pg: "page = ?page" using queryBoard_ok [OF assms(2)] assms(3) by (auto simp: tf boardPage_is)
  have d: "distinct (plog w)" using board_okD(4) [OF assms(1)] by (simp add: distinct_map)
  have out: "boardKey r \<le> boardKey (?rank p)"
    if "p \<in> set (plog w)" "survives E q (\<lambda>d. Some (t d)) ?dead p" "p \<notin> rk_post ` set ?page" "r \<in> set ?page" for p r
  proof (rule bdq.page_best [OF that(1,2) _ that(4)])
    show "?rank p \<notin> set ?page" using that(3) by (metis image_eqI rankPost_sel)
  qed
  show ?thesis unfolding pg tf
    by (intro conjI ballI impI bdq.page_distinct [OF d] bdq.page_length bdq.page_sorted out)
      (use bdq.page_sound in blast)+
qed

section \<open>Tombstones\<close>

lemma appendLinked_ok:
  assumes "appendLinked E now p w = (Inr (stored, rt), w')"
  shows "stored = linked E p w" "plog w' = plog w @ [linked E p w]"
proof -
  let ?fee = "if postType (bp_body p) \<noteq> WorkRecordType
            then bindE (postFee E) (\<lambda>fee. bindE (inWallet (hold E now (bp_author p) fee (bp_id (linked E p w)))) (\<lambda>_. ret ()))
            else ret ()"
  let ?tail = "bindE (maybeAnchor E now (bp_seq (linked E p w))) (\<lambda>rt. ret (linked E p w, rt))"
  have "bindE ?fee (\<lambda>_. bindE (appendPost (linked E p w)) (\<lambda>_. ?tail)) w = (Inr (stored, rt), w')"
    using assms unfolding appendLinked_def bindE_app [of "gets _"] gets_app prod.case sum.case .
  then obtain x w1 where f: "?fee w = (Inr x, w1)"
    and t1: "bindE (appendPost (linked E p w)) (\<lambda>_. ?tail) w1 = (Inr (stored, rt), w')" by (rule bindE_InrE)
  have "frames boardParts ?fee" by (intro frames_rules) simp
  from frames_out [OF this f] have p1: "boardParts w1 = boardParts w" .
  obtain y w2 where a: "appendPost (linked E p w) w1 = (Inr y, w2)" and t2: "?tail w2 = (Inr (stored, rt), w')"
    using t1 by (rule bindE_InrE)
  obtain z w3 where "maybeAnchor E now (bp_seq (linked E p w)) w2 = (Inr z, w3)" and t3: "ret (linked E p w, z) w3 = (Inr (stored, rt), w')"
    using t2 by (rule bindE_InrE)
  have "frames boardParts ?tail" by (intro frames_rules) simp
  from frames_out [OF this t2] have "plog w' = plog w2" by (simp add: boardParts_def)
  moreover have "plog w2 = plog w @ [linked E p w]" using appendPost_out [OF p1, of E p] a by auto
  ultimately show "stored = linked E p w" "plog w' = plog w @ [linked E p w]" using t3 by auto
qed

text \<open>What the steps before the append leave behind.\<close>

lemma publishPost_parts:
  assumes "publishPost E cfg now p w = (Inr (stored, rt), w')"
  obtains w1 w2 where "verifyAs E now (brdSkew cfg) (bodyOf p) (postOpts p) w = (Inr (), w1)"
    "boardParts w1 = boardParts w" "led w1 = led w" "idn w1 = idn w"
    "(case bp_body p of WorkRecord f \<Rightarrow> verifyWorkRecord E p f | _ \<Rightarrow> ret ()) w1 = (Inr (), w1)"
    "appendLinked E now p w1 = (Inr (stored, rt), w')"
proof -
  obtain u w1 where v: "verifyAs E now (brdSkew cfg) (bodyOf p) (postOpts p) w = (Inr u, w1)"
    and t1: "bindE (enforcePostPolicy E now (bp_author p) (postType (bp_body p))) (\<lambda>_.
     bindE (case bp_body p of WorkRecord f \<Rightarrow> verifyWorkRecord E p f | _ \<Rightarrow> ret ()) (\<lambda>_. appendLinked E now p)) w1
       = (Inr (stored, rt), w')"
    using assms unfolding publishPost_def by (rule bindE_InrE)
  obtain x w2 where e: "enforcePostPolicy E now (bp_author p) (postType (bp_body p)) w1 = (Inr x, w2)"
    and t2: "bindE (case bp_body p of WorkRecord f \<Rightarrow> verifyWorkRecord E p f | _ \<Rightarrow> ret ()) (\<lambda>_. appendLinked E now p) w2
       = (Inr (stored, rt), w')"
    using t1 by (rule bindE_InrE)
  obtain y w3 where c: "(case bp_body p of WorkRecord f \<Rightarrow> verifyWorkRecord E p f | _ \<Rightarrow> ret ()) w2 = (Inr y, w3)"
    and t3: "appendLinked E now p w3 = (Inr (stored, rt), w')"
    using t2 by (rule bindE_InrE)
  have "w2 = w1" using frames_out [OF frames_enforcePostPolicy e, of "\<lambda>x. x"] by simp
  moreover have "frames (\<lambda>x. x) (case bp_body p of WorkRecord f \<Rightarrow> verifyWorkRecord E p f | _ \<Rightarrow> ret ())"
    by (intro frames_rules)
  then have "w3 = w2" using c by (rule frames_out)
  moreover have "frames boardParts (verifyAs E now (brdSkew cfg) (bodyOf p) (postOpts p))" by (intro frames_rules) simp
  then have "boardParts w1 = boardParts w" using v by (rule frames_out)
  moreover have "frames led (verifyAs E now (brdSkew cfg) (bodyOf p) (postOpts p))" by (intro frames_rules) simp
  then have "led w1 = led w" using v by (rule frames_out)
  moreover have "idn w1 = idn w" by (rule verifyAs_idn [OF v])
  ultimately show ?thesis using that [of w1] v c t3 by simp
qed

lemma tombstonedIds_append [simp]: "tombstonedIds (ps @ rs) = tombstonedIds ps @ tombstonedIds rs"
  by (simp add: tombstonedIds_def)

lemma boardPage_survives:
  "r \<in> set (boardPage E now q tf ps) \<Longrightarrow> rk_post r \<in> set ps \<and> survives E q tf (tombstonedIds ps) (rk_post r)"
  by (auto simp: boardPage_def rankPosts_def dest!: in_set_takeD)

lemma survives_not_dead: "survives E q tf dead p \<Longrightarrow> bp_id p \<notin> set dead"
  by (auto simp: survives_def split: if_splits)

text \<open>
  Claim C40. A tombstone needs no authority over its target: when a post of type TOMBSTONE has been
  published through the ordinary post endpoint, whoever signed it, no query ever returns the post it
  names again, whatever is published later and whatever the query asks for.
\<close>

theorem foreign_tombstone_hides:
  assumes "publishPost E cfg now p w = (Inr (stored, rt), w1)" "bp_body p = TombstonePost f"
    "queryBoard E cfg later q (runBoards E cfg ops w1) = (Inr (page, c), w2)"
  shows "\<forall>r \<in> set page. bp_id (rk_post r) \<noteq> tb_target f"
proof
  fix r
  assume r: "r \<in> set page"
  obtain wa where a: "appendLinked E now p wa = (Inr (stored, rt), w1)" by (rule publishPost_parts [OF assms(1)])
  obtain rs where rs: "plog (runBoards E cfg ops w1) = plog w1 @ rs" using runBoards_grows [of E w1 cfg ops] by (auto simp: grows_def)
  have "tb_target f \<in> set (tombstonedIds [linked E p wa])" using assms(2) by (simp add: tombstonedIds_def)
  then have dead: "tb_target f \<in> set (tombstonedIds (plog (runBoards E cfg ops w1)))"
    unfolding rs appendLinked_ok(2) [OF a] tombstonedIds_append by simp
  obtain tf where "page = boardPage E later q tf (plog (runBoards E cfg ops w1))" using queryBoard_ok [OF assms(3)] by blast
  then have "survives E q tf (tombstonedIds (plog (runBoards E cfg ops w1))) (rk_post r)"
    using r boardPage_survives by blast
  then have "bp_id (rk_post r) \<notin> set (tombstonedIds (plog (runBoards E cfg ops w1)))" by (rule survives_not_dead)
  then show "bp_id (rk_post r) \<noteq> tb_target f" using dead by auto
qed

section \<open>Paging\<close>

lemma foldl_max_ge: "a \<le> foldl (\<lambda>m r. max m (f r)) a rs" "x \<in> set rs \<Longrightarrow> f x \<le> foldl (\<lambda>m r. max m (f r)) (a :: nat) rs"
proof (induction rs arbitrary: a)
  case (Cons r rs)
  { case 1 then show ?case using Cons.IH(1) [of "max a (f r)"] by simp }
  { case 2 then show ?case using Cons.IH [of "max a (f r)"] by auto }
qed simp_all

text \<open>
  The cursor of a page is its highest position, although the page is ordered by score: a query that
  continues from it never returns a post at a lower position, returned before or not.
\<close>

lemma paging_skips:
  assumes "queryBoard E cfg now q w = (Inr (page, Some c), w1)" "bq_cursor q' = Some c"
    "queryBoard E cfg later q' w2 = (Inr (page', c'), w3)"
  shows "(\<forall>r \<in> set page. bp_seq (rk_post r) \<le> c) \<and> (\<forall>r \<in> set page'. c < bp_seq (rk_post r))"
proof -
  have "c = foldl (\<lambda>m r. max m (bp_seq (rk_post r))) 0 page"
    using queryBoard_ok [OF assms(1)] by (auto simp: nextBoardCursor_def split: if_splits)
  then have "\<forall>r \<in> set page. bp_seq (rk_post r) \<le> c" using foldl_max_ge(2) [of _ page "\<lambda>r. bp_seq (rk_post r)" 0] by simp
  moreover obtain tf where pg: "page' = boardPage E later q' tf (plog w2)" using queryBoard_ok [OF assms(3)] by blast
  have "c < bp_seq (rk_post r)" if "r \<in> set page'" for r
    using boardPage_survives [of r E later q' tf "plog w2"] that assms(2) unfolding pg by (auto simp: survives_def split: if_splits)
  ultimately show ?thesis by blast
qed

section \<open>Flags\<close>

lemma slashPost_ok:
  assumes ok: "core_ok E w" and run: "slashPost E cfg now i p w = (Inr u, w')"
  shows "\<exists>h. mapGet (holds (wal w)) i = Some h \<and> h_state h = Active \<and> holds (wal w') = mapSet i (h\<lparr>h_state := Forfeited\<rparr>) (holds (wal w))"
proof -
  obtain x w1 where f: "inWallet (forfeit E i None) w = (Inr x, w1)"
    and t: "bindE (inReputation (ingestSignal E (brdRepSigner cfg) now (bp_author p) ''post_flag'' 1)) (\<lambda>_. markForfeited i) w1 = (Inr u, w')"
    using run unfolding slashPost_def by (rule bindE_InrE)
  have "frames wal (bindE (inReputation (ingestSignal E (brdRepSigner cfg) now (bp_author p) ''post_flag'' 1)) (\<lambda>_. markForfeited i))"
    unfolding markForfeited_def by (intro frames_rules) simp_all
  then have same: "wal w' = wal w1" using t by (rule frames_out)
  obtain st where st: "forfeit E i None (wal w) = (Inr x, st)" "w1 = w\<lparr>wal := st\<rparr>"
    using f by (auto simp: core_app split: prod.splits)
  have "six_digits (burnOf None)" by (simp add: burnOf_def)
  from forfeit_out [OF core_okD(1) [OF ok] this, of i] show ?thesis
  proof cases
    case (3 h st')
    then show ?thesis using st same by (auto simp: resolvedTo_def)
  qed (use st in auto)
qed

text \<open>
  What an upheld flag slashes: when a flag that upholds the abuse returns for the first
  time, the hold that is forfeited is the one whose id is the id of the post, whoever owns it and
  whatever it was locked for, and every other hold, the posting fee of the post among them, stays as
  it was. In particular the call throws when no active hold has the post's id.
\<close>

theorem flag_slashes_by_post_id:
  assumes ok: "core_ok E w" and run: "flagPost E cfg now i input w = (Inr res, w')"
    and up: "upheld res" and first: "\<not> List.member (forfeitedPosts w) i"
  shows "\<exists>h. mapGet (holds (wal w)) i = Some h \<and> h_state h = Active \<and>
    mapGet (holds (wal w')) i = Some (h\<lparr>h_state := Forfeited\<rparr>) \<and>
    (\<forall>j. j \<noteq> i \<longrightarrow> mapGet (holds (wal w')) j = mapGet (holds (wal w)) j)"
proof -
  let ?rec = "\<lparr>fg_post = i, fg_flagger = fr_flagger input, fg_reason = fr_reason input, fg_category = fr_category input,
       fg_created = isoOf E now\<rparr>"
  let ?up = "\<lambda>n. fr_category input \<noteq> OtherFlag \<and> FLAG_FORFEIT_THRESHOLD \<le> n"
  obtain target where t: "mapGet (pById w) i = Some target"
    using run by (cases "mapGet (pById w) i") (simp_all add: flagPost_def bindE_app [of "gets _"] bindE_app [of "orThrow _ _"] orThrow_app)
  let ?tail = "\<lambda>n. bindE (gets (\<lambda>w. List.member (forfeitedPosts w) i)) (\<lambda>gone.
     bindE (if ?up n \<and> \<not> gone then slashPost E cfg now i target else ret ()) (\<lambda>_.
     ret \<lparr>fs_post = i, fs_flagger = fr_flagger input, flag_count = n, upheld = ?up n\<rparr>))"
  have "bindE (verifyAs E now (brdSkew cfg) (flagRequestObj input) (sigOpts (fr_flagger input))) (\<lambda>_.
     bindE (addFlag ?rec) (\<lambda>_. bindE (gets (countFor i)) ?tail)) w = (Inr res, w')"
    using run t by (simp add: flagPost_def bindE_app [of "gets (\<lambda>w. mapGet (pById w) i)"] bindE_app [of "orThrow _ _"] orThrow_app Let_def)
  then obtain u w1 where v: "verifyAs E now (brdSkew cfg) (flagRequestObj input) (sigOpts (fr_flagger input)) w = (Inr u, w1)"
    and t1: "bindE (addFlag ?rec) (\<lambda>_. bindE (gets (countFor i)) ?tail) w1 = (Inr res, w')" by (rule bindE_InrE)
  obtain b w2 where a: "addFlag ?rec w1 = (Inr b, w2)" and t2: "bindE (gets (countFor i)) ?tail w2 = (Inr res, w')"
    using t1 by (rule bindE_InrE)
  have k: "keeps (core_ok E) (addFlag ?rec)" unfolding addFlag_def by (intro keeps_rules) (simp_all add: core_ok_def)
  have ok2: "core_ok E w2" by (rule keepsD_pair [OF k keepsD_pair [OF keeps_verifyAs ok v] a])
  have "frames (\<lambda>w. (wal w, forfeitedPosts w)) (verifyAs E now (brdSkew cfg) (flagRequestObj input) (sigOpts (fr_flagger input)))"
    by (intro frames_rules) simp
  from frames_out [OF this v] have s1: "wal w1 = wal w" "forfeitedPosts w1 = forfeitedPosts w" by simp_all
  have "frames (\<lambda>w. (wal w, forfeitedPosts w)) (addFlag ?rec)" by (intro frames_rules) simp
  from frames_out [OF this a] have same: "wal w2 = wal w" "forfeitedPosts w2 = forfeitedPosts w" by (simp_all add: s1)
  let ?n = "countFor i w2"
  have t3: "bindE (if ?up ?n then slashPost E cfg now i target else ret ()) (\<lambda>_.
     ret \<lparr>fs_post = i, fs_flagger = fr_flagger input, flag_count = ?n, upheld = ?up ?n\<rparr>) w2 = (Inr res, w')"
    using t2 first same(2) by (simp add: bindE_app [of "gets _"])
  then obtain y w3 where s: "(if ?up ?n then slashPost E cfg now i target else ret ()) w2 = (Inr y, w3)"
    and e: "ret \<lparr>fs_post = i, fs_flagger = fr_flagger input, flag_count = ?n, upheld = ?up ?n\<rparr> w3 = (Inr res, w')"
    by (rule bindE_InrE)
  have "?up ?n" using e up by auto
  then have "slashPost E cfg now i target w2 = (Inr y, w')" using s e by simp
  from slashPost_ok [OF ok2 this] show ?thesis by (auto simp: same)
qed

section \<open>Work records\<close>

text \<open>
  Claim C19. Track records are not fabricated: a work record is published only if the ledger holds a
  receipt with the id it names, the author and the counterparty are the two different parties of that
  receipt, and both have signed the body of the post, each under the key of its own passport.
\<close>

theorem work_record_backed:
  assumes "publishPost E cfg now p w = (Inr (stored, rt), w')" "bp_body p = WorkRecord f"
  shows "\<exists>rc pk cpk. rc \<in> set (receiptEntries E (led w)) \<and> isReceipt (wr_receipt f) rc \<and>
    bp_author p \<noteq> wr_counterparty f \<and> Some (bp_author p) \<in> set (receiptParties rc) \<and>
    Some (wr_counterparty f) \<in> set (receiptParties rc) \<and>
    publicKeyFor (resolverOf E (idn w)) (bp_author p) None = Some pk \<and>
    verifyDetached E (JObj (stripForSigning (bodyOf p) WORK_RECORD_AUTHOR_OMIT)) (bp_sig p) pk \<and>
    publicKeyFor (resolverOf E (idn w)) (wr_counterparty f) None = Some cpk \<and>
    verifyDetached E (JObj (stripForSigning (bodyOf p) [''sig'', ''counterparty_sig''])) (wr_cosig f) cpk"
proof -
  obtain w1 where v: "verifyAs E now (brdSkew cfg) (bodyOf p) (postOpts p) w = (Inr (), w1)"
    and same: "led w1 = led w" "idn w1 = idn w" and wr: "verifyWorkRecord E p f w1 = (Inr (), w1)"
    by (rule publishPost_parts [OF assms(1)]) (use assms(2) in simp)
  obtain rc where rc: "find (isReceipt (wr_receipt f)) (receiptEntries E (led w)) = Some rc"
    using wr same by (cases "find (isReceipt (wr_receipt f)) (receiptEntries E (led w))")
      (simp_all add: verifyWorkRecord_def bindE_app [of "gets _"] bindE_app [of "orThrow _ _"] orThrow_app)
  obtain cpk where cpk: "publicKeyFor (resolverOf E (idn w)) (wr_counterparty f) None = Some cpk"
    using wr same rc by (cases "publicKeyFor (resolverOf E (idn w)) (wr_counterparty f) None")
      (auto simp: verifyWorkRecord_def exec_simps split: if_splits)
  have rest: "bp_author p \<noteq> wr_counterparty f" "Some (bp_author p) \<in> set (receiptParties rc)"
    "Some (wr_counterparty f) \<in> set (receiptParties rc)"
    "verifyDetached E (JObj (stripForSigning (bodyOf p) [''sig'', ''counterparty_sig''])) (wr_cosig f) cpk"
    using wr same rc cpk by (auto simp: verifyWorkRecord_def exec_simps split: if_splits)
  obtain seen' where acc: "verifySignedObject E now (brdSkew cfg) (resolverOf E (idn w)) (bodyOf p) (postOpts p) (non w) = (Inr (), seen')"
    using verifyAs_ok(2) [OF v] by blast
  have opts: "\<not> skipNonce (postOpts p)" "sigField (postOpts p) = ''sig''" "signerDid (postOpts p) = bp_author p" "keyId (postOpts p) = None"
    "omitFields (postOpts p) = WORK_RECORD_AUTHOR_OMIT" using assms(2) by (simp_all add: postOpts_def)
  have sg: "field (bodyOf p) ''sig'' = Some (bp_sig p)"
    by (simp add: assms(2) bodyOf_def postObj_def stripForSigning_def CHAIN_FIELDS_def)
  have mem: "rc \<in> set (receiptEntries E (led w))" "isReceipt (wr_receipt f) rc"
    using rc by (auto simp: find_Some_iff)
  show ?thesis
  proof (rule verify_accepts [OF acc opts(1)])
    fix sgn pk
    assume "field (bodyOf p) (sigField (postOpts p)) = Some sgn"
      "publicKeyFor (resolverOf E (idn w)) (signerDid (postOpts p)) (keyId (postOpts p)) = Some pk"
      "verifyDetached E (JObj (stripForSigning (bodyOf p) (omitFields (postOpts p)))) sgn pk"
    then show ?thesis using mem rest cpk sg by (intro exI [of _ rc] exI [of _ pk] exI [of _ cpk]) (simp add: opts)
  qed
qed

end
