(* ===== verification/Similarity.thy ===== *)
theory Similarity
  imports Prelude
begin

text \<open>
  The lexical similarity of capability descriptions, \<open>descriptionSimilarity\<close> of
  \<open>src/features/registry/ranking.ts\<close>: the cosine of the term frequencies of two texts, a real
  number here. The test against the threshold is decided by an equation without roots, proved from
  the definition and used to evaluate it.
\<close>

section \<open>Tokens\<close>

text \<open>\<open>toLowerCase\<close> on the letters that can occur in a token; every other character separates tokens.\<close>

definition toLower :: "char \<Rightarrow> char" where
  "toLower c = (let n = of_char c :: nat in if 65 \<le> n \<and> n \<le> 90 then char_of (n + 32) else c)"

definition isTokenChar :: "char \<Rightarrow> bool" where
  "isTokenChar c \<longleftrightarrow> (let n = of_char c :: nat in 97 \<le> n \<and> n \<le> 122 \<or> 48 \<le> n \<and> n \<le> 57)"

text \<open>Pieces between separators; a run of separators leaves empty pieces, which are too short to count.\<close>

fun splitText :: "string \<Rightarrow> string list" where
  "splitText [] = [[]]"
| "splitText (c # cs) =
     (if isTokenChar c then (case splitText cs of [] \<Rightarrow> [[c]] | t # ts' \<Rightarrow> (c # t) # ts') else [] # splitText cs)"

definition tokenize :: "string \<Rightarrow> string list" where
  "tokenize text = filter (\<lambda>t. 1 < length t) (splitText (map toLower text))"

definition countTerm :: "(string, nat) jsmap \<Rightarrow> string \<Rightarrow> (string, nat) jsmap" where
  "countTerm tf t = mapSet t ((case mapGet tf t of None \<Rightarrow> 0 | Some n \<Rightarrow> n) + 1) tf"

definition termFrequencies :: "string list \<Rightarrow> (string, nat) jsmap" where
  "termFrequencies tokens = foldl countTerm [] tokens"

section \<open>Similarity\<close>

definition dotProduct :: "(string, nat) jsmap \<Rightarrow> (string, nat) jsmap \<Rightarrow> nat" where
  "dotProduct tfA tfB = sum_list (map (\<lambda>(t, a). case mapGet tfB t of None \<Rightarrow> 0 | Some b \<Rightarrow> a * b) tfA)"

definition normSquare :: "(string, nat) jsmap \<Rightarrow> nat" where
  "normSquare tf = sum_list (map (\<lambda>(t, f). f * f) tf)"

definition descriptionSimilarity :: "string \<Rightarrow> string \<Rightarrow> real" where
  "descriptionSimilarity a b =
     (let tfA = termFrequencies (tokenize a); tfB = termFrequencies (tokenize b) in
      if tfA = [] \<or> tfB = [] then 0
      else
        (let dot = dotProduct tfA tfB in
         if dot = 0 then 0 else real dot / (sqrt (real (normSquare tfA)) * sqrt (real (normSquare tfB)))))"

definition SEMANTIC_SIMILARITY_THRESHOLD :: real where
  "SEMANTIC_SIMILARITY_THRESHOLD = 1 / 2"

definition similarEnough :: "string \<Rightarrow> string \<Rightarrow> bool" where
  "similarEnough a b \<longleftrightarrow> SEMANTIC_SIMILARITY_THRESHOLD \<le> descriptionSimilarity a b"

section \<open>Term frequencies count\<close>

lemma termFrequencies_snoc: "termFrequencies (xs @ [t]) = countTerm (termFrequencies xs) t"
  by (simp add: termFrequencies_def)

lemma termFrequencies_distinct: "distinctKeys (termFrequencies xs)"
  by (induction xs rule: rev_induct) (simp_all add: termFrequencies_snoc countTerm_def, simp add: termFrequencies_def)

lemma termFrequencies_count:
  "mapGet (termFrequencies xs) t = (if t \<in> set xs then Some (count_list xs t) else None)"
proof (induction xs rule: rev_induct)
  case (snoc x xs)
  then show ?case by (auto simp: termFrequencies_snoc countTerm_def)
qed (simp add: termFrequencies_def)

lemma termFrequencies_keys: "fst ` set (termFrequencies xs) = set xs"
proof -
  have "dom (mapGet (termFrequencies xs)) = set xs" by (auto simp: termFrequencies_count split: if_splits)
  then show ?thesis by (simp add: dom_map_of_conv_image_fst)
qed

lemma sum_entries:
  assumes "distinctKeys m"
  shows "sum_list (map (\<lambda>(k, v). h k v) m) = (\<Sum>k \<in> fst ` set m. h k (the (mapGet m k)))"
proof -
  have "map (\<lambda>(k, v). h k v) m = map (\<lambda>k. h k (the (mapGet m k))) (map fst m)"
    using assms by (auto intro!: map_cong simp: map_of_eq_Some_iff)
  then show ?thesis using assms by (simp only: sum_list_distinct_conv_sum_set) simp
qed

text \<open>Both sums run over the terms of the texts; a term that does not occur has the frequency 0.\<close>

lemma normSquare_sum:
  assumes "finite S" "set xs \<subseteq> S"
  shows "normSquare (termFrequencies xs) = (\<Sum>t \<in> S. count_list xs t * count_list xs t)"
proof -
  have "normSquare (termFrequencies xs) = (\<Sum>t \<in> set xs. count_list xs t * count_list xs t)"
    unfolding normSquare_def sum_entries [OF termFrequencies_distinct] termFrequencies_keys
    by (rule sum.cong) (simp_all add: termFrequencies_count)
  also have "\<dots> = (\<Sum>t \<in> S. count_list xs t * count_list xs t)"
    using assms by (intro sum.mono_neutral_left) auto
  finally show ?thesis .
qed

lemma dotProduct_sum:
  assumes "finite S" "set xs \<subseteq> S"
  shows "dotProduct (termFrequencies xs) (termFrequencies ys) = (\<Sum>t \<in> S. count_list xs t * count_list ys t)"
proof -
  have "dotProduct (termFrequencies xs) (termFrequencies ys) = (\<Sum>t \<in> set xs. count_list xs t * count_list ys t)"
    unfolding dotProduct_def sum_entries [OF termFrequencies_distinct] termFrequencies_keys
    by (rule sum.cong) (auto simp: termFrequencies_count count_list_0_iff)
  also have "\<dots> = (\<Sum>t \<in> S. count_list xs t * count_list ys t)"
    using assms by (intro sum.mono_neutral_left) auto
  finally show ?thesis .
qed

lemma termFrequencies_Nil_iff: "termFrequencies xs = [] \<longleftrightarrow> xs = []"
  using termFrequencies_keys [of xs] by (cases xs) (auto simp: termFrequencies_def)

lemma normSquare_pos: "xs \<noteq> [] \<Longrightarrow> 0 < normSquare (termFrequencies xs)"
  unfolding normSquare_sum [OF finite_set order_refl]
  by (cases xs) (auto intro!: sum_pos2 [of _ "hd xs"])

text \<open>The Cauchy-Schwarz inequality for finite sums.\<close>

lemma cauchy_schwarz:
  fixes f g :: "'b \<Rightarrow> real"
  assumes "finite S"
  shows "(\<Sum>x \<in> S. f x * g x)\<^sup>2 \<le> (\<Sum>x \<in> S. f x * f x) * (\<Sum>x \<in> S. g x * g x)"
proof -
  have "0 \<le> (\<Sum>x \<in> S. \<Sum>y \<in> S. (f x * g y - f y * g x)\<^sup>2)" by (intro sum_nonneg) simp
  also have "\<dots> = (\<Sum>x \<in> S. \<Sum>y \<in> S. (f x * f x) * (g y * g y)) + (\<Sum>x \<in> S. \<Sum>y \<in> S. (g x * g x) * (f y * f y))
      - 2 * (\<Sum>x \<in> S. \<Sum>y \<in> S. (f x * g x) * (f y * g y))"
    by (simp add: power2_eq_square algebra_simps sum.distrib sum_subtractf sum_distrib_left)
  also have "\<dots> = 2 * ((\<Sum>x \<in> S. f x * f x) * (\<Sum>x \<in> S. g x * g x)) - 2 * (\<Sum>x \<in> S. f x * g x)\<^sup>2"
    unfolding sum_product [symmetric] by (simp add: power2_eq_square mult.commute)
  finally show ?thesis by simp
qed

lemma dot_le_norms:
  "(dotProduct (termFrequencies xs) (termFrequencies ys))\<^sup>2 \<le> normSquare (termFrequencies xs) * normSquare (termFrequencies ys)"
proof -
  let ?S = "set xs \<union> set ys"
  let ?f = "\<lambda>t. real (count_list xs t)" and ?g = "\<lambda>t. real (count_list ys t)"
  have s: "finite ?S" "set xs \<subseteq> ?S" "set ys \<subseteq> ?S" by auto
  have "real ((dotProduct (termFrequencies xs) (termFrequencies ys))\<^sup>2) = (\<Sum>t \<in> ?S. ?f t * ?g t)\<^sup>2"
    by (simp add: dotProduct_sum [OF s(1,2)])
  also have "\<dots> \<le> (\<Sum>t \<in> ?S. ?f t * ?f t) * (\<Sum>t \<in> ?S. ?g t * ?g t)" by (rule cauchy_schwarz [OF s(1)])
  also have "\<dots> = real (normSquare (termFrequencies xs) * normSquare (termFrequencies ys))"
    by (simp add: normSquare_sum [OF s(1,2)] normSquare_sum [OF s(1,3)])
  finally show ?thesis by (simp only: of_nat_le_iff)
qed

section \<open>The threshold and the bounds\<close>

lemma half_le_ratio:
  assumes "0 < d" "0 < m" "0 < n"
  shows "1 / 2 \<le> real d / (sqrt (real m) * sqrt (real n)) \<longleftrightarrow> m * n \<le> 4 * d * d"
proof -
  let ?p = "sqrt (real m) * sqrt (real n)"
  have p: "0 < ?p" "?p * ?p = real (m * n)" using assms by (simp_all add: algebra_simps real_sqrt_mult [symmetric])
  have "1 / 2 \<le> real d / ?p \<longleftrightarrow> ?p \<le> 2 * real d" using p(1) by (simp add: field_simps)
  also have "\<dots> \<longleftrightarrow> ?p * ?p \<le> (2 * real d) * (2 * real d)"
    using p(1) abs_le_square_iff [of ?p "2 * real d"] by (simp add: power2_eq_square)
  also have "\<dots> \<longleftrightarrow> real (m * n) \<le> real (4 * d * d)" unfolding p(2) by (simp add: mult.assoc)
  also have "\<dots> \<longleftrightarrow> m * n \<le> 4 * d * d" by (simp only: of_nat_le_iff)
  finally show ?thesis .
qed

lemma similarEnough_code [code]:
  "similarEnough a b =
     (let tfA = termFrequencies (tokenize a); tfB = termFrequencies (tokenize b); dot = dotProduct tfA tfB in
      dot \<noteq> 0 \<and> normSquare tfA * normSquare tfB \<le> 4 * dot * dot)"
proof (cases "tokenize a = [] \<or> tokenize b = []")
  case True
  then show ?thesis
    by (auto simp: similarEnough_def SEMANTIC_SIMILARITY_THRESHOLD_def descriptionSimilarity_def Let_def termFrequencies_Nil_iff
        dotProduct_def termFrequencies_def)
next
  case False
  then show ?thesis using half_le_ratio normSquare_pos
    by (auto simp: similarEnough_def SEMANTIC_SIMILARITY_THRESHOLD_def descriptionSimilarity_def Let_def termFrequencies_Nil_iff)
qed

lemma descriptionSimilarity_sym: "descriptionSimilarity a b = descriptionSimilarity b a"
proof -
  let ?S = "set (tokenize a) \<union> set (tokenize b)"
  have "dotProduct (termFrequencies (tokenize a)) (termFrequencies (tokenize b)) =
      dotProduct (termFrequencies (tokenize b)) (termFrequencies (tokenize a))"
    using dotProduct_sum [of ?S "tokenize a" "tokenize b"] dotProduct_sum [of ?S "tokenize b" "tokenize a"]
    by (simp add: mult.commute)
  then show ?thesis by (simp add: descriptionSimilarity_def Let_def mult.commute disj_commute)
qed

lemma descriptionSimilarity_le_1: "descriptionSimilarity a b \<le> 1"
proof -
  let ?A = "termFrequencies (tokenize a)" and ?B = "termFrequencies (tokenize b)"
  let ?d = "dotProduct ?A ?B" and ?p = "sqrt (real (normSquare ?A)) * sqrt (real (normSquare ?B))"
  have "real (?d * ?d) \<le> real (normSquare ?A * normSquare ?B)"
    using dot_le_norms [of "tokenize a" "tokenize b"] by (simp only: of_nat_le_iff power2_eq_square)
  moreover have "?p\<^sup>2 = real (normSquare ?A * normSquare ?B)" by (simp add: power_mult_distrib)
  ultimately have "(real ?d)\<^sup>2 \<le> ?p\<^sup>2" by (simp add: power2_eq_square)
  then have "real ?d \<le> ?p" by (rule power2_le_imp_le) simp
  then show ?thesis by (auto simp: descriptionSimilarity_def Let_def divide_le_eq_1 not_less)
qed

lemma descriptionSimilarity_self: "tokenize a \<noteq> [] \<Longrightarrow> descriptionSimilarity a a = 1"
proof -
  assume "tokenize a \<noteq> []"
  moreover have "dotProduct (termFrequencies xs) (termFrequencies xs) = normSquare (termFrequencies xs)" for xs
    by (simp add: dotProduct_sum [OF finite_set order_refl] normSquare_sum [OF finite_set order_refl])
  ultimately show ?thesis using normSquare_pos [of "tokenize a"]
    by (simp add: descriptionSimilarity_def Let_def termFrequencies_Nil_iff)
qed

text \<open>
  The similarity of two descriptions is a cosine: it lies between 0 and 1, does not
  depend on the order of the two, is 1 for a text with itself and 0 when the texts share no token;
  and the test against the threshold is decided exactly by integers, with no square root.
\<close>

theorem similarity_is_cosine:
  "0 \<le> descriptionSimilarity a b \<and> descriptionSimilarity a b \<le> 1 \<and> descriptionSimilarity a b = descriptionSimilarity b a \<and>
   descriptionSimilarity a a = (if tokenize a = [] then 0 else 1) \<and>
   (descriptionSimilarity a b = 0 \<longleftrightarrow> set (tokenize a) \<inter> set (tokenize b) = {}) \<and>
   (SEMANTIC_SIMILARITY_THRESHOLD \<le> descriptionSimilarity a b \<longleftrightarrow>
     (let tfA = termFrequencies (tokenize a); tfB = termFrequencies (tokenize b); dot = dotProduct tfA tfB in
      dot \<noteq> 0 \<and> normSquare tfA * normSquare tfB \<le> 4 * dot * dot))"
proof -
  have nn: "0 \<le> descriptionSimilarity a b" by (simp add: descriptionSimilarity_def Let_def)
  have "dotProduct (termFrequencies xs) (termFrequencies ys) = 0 \<longleftrightarrow> set xs \<inter> set ys = {}" for xs ys
    unfolding dotProduct_sum [OF finite_set order_refl] by (auto simp: count_list_0_iff)
  then have zero: "descriptionSimilarity a b = 0 \<longleftrightarrow> set (tokenize a) \<inter> set (tokenize b) = {}"
    using normSquare_pos [of "tokenize a"] normSquare_pos [of "tokenize b"]
    by (auto simp: descriptionSimilarity_def Let_def termFrequencies_Nil_iff)
  have self: "descriptionSimilarity a a = (if tokenize a = [] then 0 else 1)"
    using descriptionSimilarity_self by (simp add: descriptionSimilarity_def Let_def termFrequencies_Nil_iff)
  show ?thesis using nn descriptionSimilarity_le_1 descriptionSimilarity_sym self zero similarEnough_code [of a b]
    by (simp only: similarEnough_def)
qed

end
