(* ===== verification/Registry.thy ===== *)
theory Registry
  imports Facilitator Ranking Similarity "HOL-Library.List_Lexorder" "HOL-Library.Char_ord"
begin

text \<open>
  The service registry, \<open>src/features/registry\<close>: provider-signed listings, the two-stage capability
  query of \<open>ranking.ts\<close> with a signed quote per match, and the dry run. A function that may throw
  without touching the state returns a sum. Weights and scores are rationals, \<open>None\<close> is \<open>NaN\<close>; the
  notes of an explanation are texts for the reader and left out.
\<close>

section \<open>Listings\<close>

datatype listing_status = Active_Listing | Deprecated | Suspended | Retired

datatype pricing_model = PerCall | Metered | PerOutcome | Session

datatype listing_acceptance_type = LaSchema | LaChecksum | LaSchemaChecksum | LaOracle

record li_capability =
  lc_taxonomy :: string
  lc_title :: string
  lc_description :: string
  lc_tags :: "string list"

record li_limits =
  ll_bytes :: "nat option"
  ll_pages :: "nat option"

record li_io =
  lio_input :: string
  lio_output :: string
  lio_limits :: "li_limits option"

record li_pricing =
  lp_model :: pricing_model
  lp_unit :: string
  lp_amount :: string
  lp_currency :: string
  lp_quoteRequired :: bool
  lp_rails :: "string list"

record li_sla =
  ls_p50 :: rat
  ls_p95 :: rat
  ls_uptime :: rat
  ls_maxTimeout :: nat
  ls_throughput :: rat

record li_auth =
  lh_audience :: string
  lh_claims :: "string list"

record li_endpoint =
  le_protocol :: string
  le_url :: string
  le_method :: string
  le_mcpTool :: "string option"

record li_dry_run =
  ld_supported :: bool
  ld_price :: string
  ld_fixture :: string

record li_acceptance =
  lac_type :: listing_acceptance_type
  lac_schema :: "string option"
  lac_expected :: "string option"

record li_terms =
  lt_refund :: string
  lt_window :: nat
  lt_retention :: string
  lt_acceptance :: li_acceptance

record li_stake =
  lk_amount :: string
  lk_currency :: string
  lk_slashable :: bool

record li_attestations =
  la_snapshot :: "string option"
  la_stake :: li_stake

record li_sample =
  lsm_request :: "json option"
  lsm_response :: "json option"

record li_provenance =
  lv_created :: string
  lv_updated :: string
  lv_expires :: string
  lv_sig :: string

text \<open>The fields shared by a stored listing and a publish request, which may lack the id.\<close>

record listing_body =
  l_schemaVersion :: string
  l_provider :: string
  l_version :: string
  l_status :: listing_status
  l_capability :: li_capability
  l_io :: li_io
  l_pricing :: li_pricing
  l_sla :: li_sla
  l_auth :: li_auth
  l_endpoint :: li_endpoint
  l_dryRun :: li_dry_run
  l_terms :: li_terms
  l_attestations :: li_attestations
  l_sample :: "li_sample option"
  l_provenance :: li_provenance

record listing = listing_body +
  l_id :: string

record publish_input = listing_body +
  pub_id :: "string option"

fun statusText :: "listing_status \<Rightarrow> string" where
  "statusText Active_Listing = ''active''"
| "statusText Deprecated = ''deprecated''"
| "statusText Suspended = ''suspended''"
| "statusText Retired = ''retired''"

fun modelText :: "pricing_model \<Rightarrow> string" where
  "modelText PerCall = ''per_call''"
| "modelText Metered = ''metered''"
| "modelText PerOutcome = ''outcome''"
| "modelText Session = ''session''"

fun listingAcceptanceText :: "listing_acceptance_type \<Rightarrow> string" where
  "listingAcceptanceText LaSchema = ''schema''"
| "listingAcceptanceText LaChecksum = ''checksum''"
| "listingAcceptanceText LaSchemaChecksum = ''schema+checksum''"
| "listingAcceptanceText LaOracle = ''oracle''"

definition optJsonField :: "string \<Rightarrow> json option \<Rightarrow> (string \<times> json) list" where
  "optJsonField k v = (case v of None \<Rightarrow> [] | Some j \<Rightarrow> [(k, j)])"

abbreviation jnum :: "nat \<Rightarrow> json" where
  "jnum n \<equiv> JNum (of_nat n)"

definition ioObj :: "li_io \<Rightarrow> json" where
  "ioObj io = JObj ([(''input_schema'', JObj [(''$ref'', JStr (lio_input io))]),
       (''output_schema'', JObj [(''$ref'', JStr (lio_output io))])]
     @ optJsonField ''limits'' (map_option (\<lambda>l. JObj (optJsonField ''max_input_bytes'' (map_option jnum (ll_bytes l))
         @ optJsonField ''max_pages'' (map_option jnum (ll_pages l)))) (lio_limits io)))"

definition termsJson :: "li_terms \<Rightarrow> json" where
  "termsJson t = JObj [(''refund_policy'', JStr (lt_refund t)), (''dispute_window_ms'', jnum (lt_window t)),
     (''result_retention'', JStr (lt_retention t)),
     (''acceptance'', JObj ([(''type'', JStr (listingAcceptanceText (lac_type (lt_acceptance t))))]
        @ optField ''schema_ref'' (lac_schema (lt_acceptance t)) @ optField ''expected'' (lac_expected (lt_acceptance t))))]"

definition provenanceObj :: "li_provenance \<Rightarrow> (string \<times> json) list" where
  "provenanceObj v = [(''created'', JStr (lv_created v)), (''updated'', JStr (lv_updated v)),
     (''expires'', JStr (lv_expires v)), (''sig'', JStr (lv_sig v))]"

text \<open>The object a provider signs: the listing as submitted, without the signature in its provenance.\<close>

definition listingPayload :: "publish_input \<Rightarrow> (string \<times> json) list" where
  "listingPayload i =
     (let c = l_capability i; p = l_pricing i; s = l_sla i; e = l_endpoint i; d = l_dryRun i; a = l_attestations i in
      optField ''listing_id'' (pub_id i)
      @ [(''schema_version'', JStr (l_schemaVersion i)), (''provider'', JStr (l_provider i)), (''version'', JStr (l_version i)),
         (''status'', JStr (statusText (l_status i))),
         (''capability'', JObj [(''taxonomy'', JStr (lc_taxonomy c)), (''title'', JStr (lc_title c)),
            (''description'', JStr (lc_description c)), (''tags'', JArr (map JStr (lc_tags c)))]),
         (''io'', ioObj (l_io i)),
         (''pricing'', JObj [(''model'', JStr (modelText (lp_model p))), (''unit'', JStr (lp_unit p)), (''amount'', JStr (lp_amount p)),
            (''currency'', JStr (lp_currency p)), (''quote_required'', JBool (lp_quoteRequired p)), (''rails'', JArr (map JStr (lp_rails p)))]),
         (''sla'', JObj [(''latency_ms'', JObj [(''p50'', JNum (ls_p50 s)), (''p95'', JNum (ls_p95 s))]),
            (''uptime_target'', JNum (ls_uptime s)), (''max_timeout_ms'', jnum (ls_maxTimeout s)), (''throughput_rps'', JNum (ls_throughput s))]),
         (''auth'', JObj [(''scheme'', JStr ''did-jws''), (''audience'', JStr (lh_audience (l_auth i))),
            (''required_claims'', JArr (map JStr (lh_claims (l_auth i))))]),
         (''endpoint'', JObj ([(''protocol'', JStr (le_protocol e)), (''url'', JStr (le_url e)), (''method'', JStr (le_method e))]
            @ optField ''mcp_tool'' (le_mcpTool e))),
         (''dry_run'', JObj [(''supported'', JBool (ld_supported d)), (''price'', JStr (ld_price d)), (''fixture_ref'', JStr (ld_fixture d)),
            (''returns'', JStr ''signed-result+checksum'')]),
         (''terms'', termsJson (l_terms i)),
         (''attestations'', JObj [(''reputation_snapshot_ref'', nullable (la_snapshot a)),
            (''stake'', JObj [(''amount'', JStr (lk_amount (la_stake a))), (''currency'', JStr (lk_currency (la_stake a))),
               (''slashable'', JBool (lk_slashable (la_stake a)))])])]
      @ optJsonField ''sample'' (map_option (\<lambda>s. JObj (optJsonField ''request'' (lsm_request s) @ optJsonField ''response'' (lsm_response s)))
          (l_sample i))
      @ [(''provenance'', JObj (stripForSigning (provenanceObj (l_provenance i)) [''sig'']))])"

definition listingIsActive :: "ext \<Rightarrow> 'a listing_body_scheme \<Rightarrow> string \<Rightarrow> bool" where
  "listingIsActive E l nowIso \<longleftrightarrow>
     l_status l = Active_Listing \<and> ltNum (dateMs E nowIso) (dateMs E (lv_expires (l_provenance l)))"

section \<open>Queries\<close>

record io_requirements =
  ir_input :: "string option"
  ir_output :: "string option"
  ir_validate :: "bool option"

record price_ceiling =
  pc_amount :: string
  pc_currency :: string
  pc_per :: string

record query_constraints =
  qc_ceiling :: "price_ceiling option"
  qc_latency :: "rat option"
  qc_minTrust :: "rat option"
  qc_minJobs :: "nat option"
  qc_regions :: "string list option"
  qc_tags :: "string list option"

record ranking_prefs =
  wp_price :: "rat option"
  wp_latency :: "rat option"
  wp_trust :: "rat option"
  wp_schema :: "rat option"
  wp_stake :: "rat option"

record capability_query =
  cq_id :: string
  cq_requester :: string
  cq_taxonomy :: string
  cq_description :: "string option"
  cq_semantic :: "bool option"
  cq_io :: "io_requirements option"
  cq_constraints :: "query_constraints option"
  cq_prefs :: "ranking_prefs option"
  cq_max :: nat
  cq_nonce :: string
  cq_iat :: string
  cq_exp :: string
  cq_sig :: string

definition constraintsJson :: "query_constraints \<Rightarrow> json" where
  "constraintsJson c = JObj (
     optJsonField ''price_ceiling'' (map_option (\<lambda>p. JObj [(''amount'', JStr (pc_amount p)), (''currency'', JStr (pc_currency p)),
        (''per'', JStr (pc_per p))]) (qc_ceiling c))
     @ optJsonField ''latency_target_ms'' (map_option (\<lambda>t. JObj [(''p95'', JNum t)]) (qc_latency c))
     @ optJsonField ''min_trust'' (map_option JNum (qc_minTrust c))
     @ optJsonField ''min_completed_jobs'' (map_option jnum (qc_minJobs c))
     @ optJsonField ''regions_allowed'' (map_option (\<lambda>xs. JArr (map JStr xs)) (qc_regions c))
     @ optJsonField ''compliance_tags'' (map_option (\<lambda>xs. JArr (map JStr xs)) (qc_tags c)))"

definition capabilityQueryObj :: "capability_query \<Rightarrow> (string \<times> json) list" where
  "capabilityQueryObj q =
     [(''query_id'', JStr (cq_id q)), (''requester'', JStr (cq_requester q)),
      (''capability'', JObj ([(''taxonomy'', JStr (cq_taxonomy q))] @ optField ''description'' (cq_description q)
         @ optJsonField ''semantic'' (map_option JBool (cq_semantic q))))]
     @ optJsonField ''io_requirements'' (map_option (\<lambda>r. JObj (optField ''input_schema_ref'' (ir_input r)
         @ optField ''output_schema_ref'' (ir_output r) @ optJsonField ''must_validate'' (map_option JBool (ir_validate r)))) (cq_io q))
     @ optJsonField ''constraints'' (map_option constraintsJson (cq_constraints q))
     @ optJsonField ''ranking_prefs'' (map_option (\<lambda>p. JObj (optJsonField ''weight_price'' (map_option JNum (wp_price p))
         @ optJsonField ''weight_latency'' (map_option JNum (wp_latency p)) @ optJsonField ''weight_trust'' (map_option JNum (wp_trust p))
         @ optJsonField ''weight_schema'' (map_option JNum (wp_schema p)) @ optJsonField ''weight_stake'' (map_option JNum (wp_stake p)))) (cq_prefs q))
     @ [(''max_results'', jnum (cq_max q)), (''nonce'', JStr (cq_nonce q)), (''iat'', JStr (cq_iat q)), (''exp'', JStr (cq_exp q)),
        (''sig'', JStr (cq_sig q))]"

section \<open>The hard filter\<close>

record provider_rep =
  pr_trust :: "rat option"
  pr_jobs :: nat
  pr_history :: rat
  pr_lastSettled :: "int option"

definition capabilityMatches :: "capability_query \<Rightarrow> 'a listing_body_scheme \<Rightarrow> bool" where
  "capabilityMatches q l =
     (if lc_taxonomy (l_capability l) = cq_taxonomy q then True
      else if cq_semantic q = Some True \<and> nonEmpty (cq_description q)
      then similarEnough (the (cq_description q)) (lc_description (l_capability l))
      else False)"

definition schemaDrop :: "capability_query \<Rightarrow> 'a listing_body_scheme \<Rightarrow> string option" where
  "schemaDrop q l =
     (case cq_io q of
        None \<Rightarrow> None
      | Some r \<Rightarrow>
          if ir_validate r = Some True then
            (if ir_input r \<noteq> None \<and> Some (lio_input (l_io l)) \<noteq> ir_input r then Some ''input schema ref mismatch''
             else if ir_output r \<noteq> None \<and> Some (lio_output (l_io l)) \<noteq> ir_output r then Some ''output schema ref mismatch''
             else None)
          else None)"

definition priceDrop :: "ext \<Rightarrow> query_constraints \<Rightarrow> 'a listing_body_scheme \<Rightarrow> app_error + string option" where
  "priceDrop E c l =
     (case qc_ceiling c of
        None \<Rightarrow> Inr None
      | Some pc \<Rightarrow>
          if lp_currency (l_pricing l) \<noteq> pc_currency pc then Inr (Some ''price currency mismatch'')
          else (case bigVal E (lp_amount (l_pricing l)) of
                  None \<Rightarrow> Inl JsError
                | Some x \<Rightarrow> (case bigVal E (pc_amount pc) of
                    None \<Rightarrow> Inl JsError
                  | Some y \<Rightarrow> Inr (if y < x then Some ''price over ceiling'' else None))))"

text \<open>A bound on a number that may be absent is not violated then; a comparison with \<open>NaN\<close> is false.\<close>

definition constraintDrop :: "query_constraints \<Rightarrow> provider_rep \<Rightarrow> 'a listing_body_scheme \<Rightarrow> string option" where
  "constraintDrop c r l =
     (if (case qc_latency c of None \<Rightarrow> False | Some t \<Rightarrow> t < ls_p95 (l_sla l)) then Some ''p95 latency over target''
      else if (case qc_tags c of None \<Rightarrow> False | Some tags \<Rightarrow> List.member tags ''no-pii-retention'')
         \<and> lt_retention (l_terms l) \<noteq> ''none'' then Some ''no-pii-retention required but listing retains results''
      else if (case qc_minTrust c of None \<Rightarrow> False | Some m \<Rightarrow> ltNum (pr_trust r) (Some m)) then Some ''trust below min_trust''
      else if (case qc_minJobs c of None \<Rightarrow> False | Some m \<Rightarrow> pr_jobs r < m) then Some ''jobs below min_completed_jobs''
      else None)"

definition noConstraints :: query_constraints where
  "noConstraints = \<lparr>qc_ceiling = None, qc_latency = None, qc_minTrust = None, qc_minJobs = None, qc_regions = None, qc_tags = None\<rparr>"

text \<open>The reason a listing is removed for, \<open>None\<close> for a survivor; an absent \<open>constraints\<close> has no field.\<close>

definition dropReason ::
    "ext \<Rightarrow> capability_query \<Rightarrow> string \<Rightarrow> (string \<Rightarrow> provider_rep) \<Rightarrow> 'a listing_body_scheme \<Rightarrow> app_error + string option" where
  "dropReason E q nowIso repFor l =
     (let c = (case cq_constraints q of None \<Rightarrow> noConstraints | Some c \<Rightarrow> c) in
      if \<not> listingIsActive E l nowIso then Inr (Some ''not active or expired'')
      else if \<not> capabilityMatches q l then Inr (Some ''capability taxonomy mismatch'')
      else if schemaDrop q l \<noteq> None then Inr (schemaDrop q l)
      else (case priceDrop E c l of
              Inl e \<Rightarrow> Inl e
            | Inr (Some r) \<Rightarrow> Inr (Some r)
            | Inr None \<Rightarrow> Inr (constraintDrop c (repFor (l_provider l)) l)))"

fun hardFilter ::
    "ext \<Rightarrow> capability_query \<Rightarrow> string \<Rightarrow> (string \<Rightarrow> provider_rep) \<Rightarrow> listing list \<Rightarrow>
     app_error + listing list \<times> (string \<times> string) list" where
  "hardFilter E q nowIso repFor [] = Inr ([], [])"
| "hardFilter E q nowIso repFor (l # ls) =
     (case dropReason E q nowIso repFor l of
        Inl e \<Rightarrow> Inl e
      | Inr d \<Rightarrow> (case hardFilter E q nowIso repFor ls of
          Inl e \<Rightarrow> Inl e
        | Inr (keep, removed) \<Rightarrow>
            (case d of None \<Rightarrow> Inr (l # keep, removed) | Some r \<Rightarrow> Inr (keep, (l_id l, r) # removed))))"

section \<open>The soft rank\<close>

record rank_weights =
  w_price :: rat
  w_latency :: rat
  w_trust :: rat
  w_schema :: rat
  w_stake :: rat

definition DEFAULT_WEIGHTS :: rank_weights where
  "DEFAULT_WEIGHTS = \<lparr>w_price = 40 / 100, w_latency = 20 / 100, w_trust = 40 / 100, w_schema = 15 / 100, w_stake = 15 / 100\<rparr>"

definition orElse :: "'b option \<Rightarrow> 'b \<Rightarrow> 'b" where
  "orElse x d = (case x of None \<Rightarrow> d | Some v \<Rightarrow> v)"

definition resolveWeights :: "capability_query \<Rightarrow> rank_weights" where
  "resolveWeights q =
     (case cq_prefs q of
        None \<Rightarrow> DEFAULT_WEIGHTS
      | Some p \<Rightarrow> \<lparr>w_price = orElse (wp_price p) (w_price DEFAULT_WEIGHTS), w_latency = orElse (wp_latency p) (w_latency DEFAULT_WEIGHTS),
          w_trust = orElse (wp_trust p) (w_trust DEFAULT_WEIGHTS), w_schema = orElse (wp_schema p) (w_schema DEFAULT_WEIGHTS),
          w_stake = orElse (wp_stake p) (w_stake DEFAULT_WEIGHTS)\<rparr>)"

definition schemaMatchScore :: "capability_query \<Rightarrow> 'a listing_body_scheme \<Rightarrow> rat" where
  "schemaMatchScore q l =
     (case cq_io q of
        None \<Rightarrow> 1
      | Some r \<Rightarrow>
          (let wants = length (filter (\<lambda>x. x \<noteq> None) [ir_input r, ir_output r]);
               hits = (if ir_input r \<noteq> None \<and> Some (lio_input (l_io l)) = ir_input r then 1 else 0)
                    + (if ir_output r \<noteq> None \<and> Some (lio_output (l_io l)) = ir_output r then 1 else 0)
           in if wants = 0 then 1 else hits / of_nat wants))"

definition ceilingOf :: "capability_query \<Rightarrow> price_ceiling option" where
  "ceilingOf q = (case cq_constraints q of None \<Rightarrow> None | Some c \<Rightarrow> qc_ceiling c)"

definition priceHeadroomScore :: "ext \<Rightarrow> capability_query \<Rightarrow> 'a listing_body_scheme \<Rightarrow> app_error + rat" where
  "priceHeadroomScore E q l =
     (case ceilingOf q of
        None \<Rightarrow> Inr (1 / 2)
      | Some pc \<Rightarrow> (case bigVal E (pc_amount pc) of
          None \<Rightarrow> Inl JsError
        | Some ceil \<Rightarrow>
            if ceil \<le> 0 then Inr 0
            else (case bigVal E (lp_amount (l_pricing l)) of
                    None \<Rightarrow> Inl JsError
                  | Some _ \<Rightarrow> Inr (clamp01 (bigRatio E (bigMinus E (pc_amount pc) (lp_amount (l_pricing l))) (pc_amount pc))))))"

definition latencyScore :: "capability_query \<Rightarrow> 'a listing_body_scheme \<Rightarrow> rat" where
  "latencyScore q l =
     (case cq_constraints q of
        None \<Rightarrow> 1 / 2
      | Some c \<Rightarrow> (case qc_latency c of None \<Rightarrow> 1 / 2 | Some target \<Rightarrow> clamp01 (target / max (ls_p95 (l_sla l)) 1)))"

definition STAKE_SATURATION :: string where
  "STAKE_SATURATION = ''250''"

definition stakeScore :: "ext \<Rightarrow> 'a listing_body_scheme \<Rightarrow> app_error + rat" where
  "stakeScore E l =
     (let st = la_stake (l_attestations l) in
      if \<not> lk_slashable st then Inr 0
      else (case bigVal E (lk_amount st) of
              None \<Rightarrow> Inl JsError
            | Some _ \<Rightarrow> Inr (clamp01 (bigRatio E (lk_amount st) STAKE_SATURATION))))"

definition FRESHNESS_HORIZON_MS :: int where
  "FRESHNESS_HORIZON_MS = 30 * 24 * 60 * 60 * 1000"

definition freshnessScore :: "int option \<Rightarrow> int option \<Rightarrow> rat option" where
  "freshnessScore lastSettledMs nowMs =
     (case lastSettledMs of
        None \<Rightarrow> Some 0
      | Some s \<Rightarrow> map_option (\<lambda>n. clamp01 (1 - of_int (max 0 (n - s)) / of_int FRESHNESS_HORIZON_MS)) nowMs)"

record match_signals =
  sig_schema :: rat
  sig_price :: rat
  sig_latency :: rat
  sig_trust :: "rat option"
  sig_stake :: rat
  sig_history :: rat
  sig_fresh :: "rat option"

record scored_listing =
  sl_listing :: listing
  sl_score :: "rat option"
  sl_signals :: match_signals

definition coreScore :: "rank_weights \<Rightarrow> match_signals \<Rightarrow> rat \<Rightarrow> rat" where
  "coreScore w s trust =
     (let weightSum = w_price w + w_latency w + w_trust w + w_schema w + w_stake w;
          denom = (if weightSum > 0 then weightSum else 1)
      in (w_price w * sig_price s + w_latency w * sig_latency s + w_trust w * trust + w_schema w * sig_schema s
          + w_stake w * sig_stake s) / denom)"

definition scoreSignals :: "capability_query \<Rightarrow> match_signals \<Rightarrow> rat option" where
  "scoreSignals q s =
     (case (sig_trust s, sig_fresh s) of
        (Some t, Some f) \<Rightarrow> Some (clamp01 (coreScore (resolveWeights q) s t + ((5 / 100) * sig_history s + (5 / 100) * f)))
      | _ \<Rightarrow> None)"

definition scoreListing ::
    "ext \<Rightarrow> capability_query \<Rightarrow> string \<Rightarrow> (string \<Rightarrow> provider_rep) \<Rightarrow> listing \<Rightarrow> app_error + scored_listing" where
  "scoreListing E q nowIso repFor l =
     (case priceHeadroomScore E q l of
        Inl e \<Rightarrow> Inl e
      | Inr price \<Rightarrow> (case stakeScore E l of
          Inl e \<Rightarrow> Inl e
        | Inr stk \<Rightarrow>
            (let r = repFor (l_provider l);
                 s = \<lparr>sig_schema = schemaMatchScore q l, sig_price = price, sig_latency = latencyScore q l,
                      sig_trust = map_option clamp01 (pr_trust r), sig_stake = stk, sig_history = clamp01 (pr_history r),
                      sig_fresh = freshnessScore (pr_lastSettled r) (dateMs E nowIso)\<rparr>
             in Inr \<lparr>sl_listing = l, sl_score = scoreSignals q s, sl_signals = s\<rparr>)))"

fun scoreAll ::
    "ext \<Rightarrow> capability_query \<Rightarrow> string \<Rightarrow> (string \<Rightarrow> provider_rep) \<Rightarrow> listing list \<Rightarrow> app_error + scored_listing list" where
  "scoreAll E q nowIso repFor [] = Inr []"
| "scoreAll E q nowIso repFor (l # ls) =
     (case scoreListing E q nowIso repFor l of
        Inl e \<Rightarrow> Inl e
      | Inr s \<Rightarrow> (case scoreAll E q nowIso repFor ls of Inl e \<Rightarrow> Inl e | Inr ss \<Rightarrow> Inr (s # ss)))"

text \<open>\<open>compare(a, b) <= 0\<close>: the higher score first, then the smaller id.\<close>

definition listingBefore :: "scored_listing \<Rightarrow> scored_listing \<Rightarrow> bool" where
  "listingBefore a b =
     (case (sl_score a, sl_score b) of
        (Some s, Some t) \<Rightarrow> if t \<noteq> s then t < s else l_id (sl_listing a) \<le> l_id (sl_listing b)
      | _ \<Rightarrow> True)"

definition rankSurvivors ::
    "ext \<Rightarrow> capability_query \<Rightarrow> string \<Rightarrow> (string \<Rightarrow> provider_rep) \<Rightarrow> listing list \<Rightarrow> app_error + scored_listing list" where
  "rankSurvivors E q nowIso repFor ls =
     (case scoreAll E q nowIso repFor ls of Inl e \<Rightarrow> Inl e | Inr ss \<Rightarrow> Inr (sortBy listingBefore ss))"

section \<open>The service\<close>

record reg_cfg =
  regSkew :: int
  regSigner :: core_signer
  regRepSigner :: core_signer

record reg_world = core +
  listings :: "(string, listing) jsmap"
  regQuotes :: "(string, quote) jsmap"
  regDrawn :: nat

definition newRegId :: "ext \<Rightarrow> string \<Rightarrow> ('a reg_world_scheme, string) exec" where
  "newRegId E prefix = bindE (gets regDrawn) (\<lambda>n.
     bindE (modify (\<lambda>w. w\<lparr>regDrawn := Suc n\<rparr>)) (\<lambda>_. ret (prefix @ ''_'' @ ulid E n)))"

definition putListing :: "listing \<Rightarrow> ('a reg_world_scheme, unit) exec" where
  "putListing l = modify (\<lambda>w. w\<lparr>listings := mapSet (l_id l) l (listings w)\<rparr>)"

definition putQuote :: "quote \<Rightarrow> ('a reg_world_scheme, unit) exec" where
  "putQuote q = modify (\<lambda>w. w\<lparr>regQuotes := mapSet (quote_id q) q (regQuotes w)\<rparr>)"

text \<open>The listing that is stored: the input under the id; a sample without a value has the value undefined.\<close>

definition listingOf :: "string \<Rightarrow> publish_input \<Rightarrow> listing" where
  "listingOf i p = listing_body.extend (listing_body.truncate p) (listing.fields i)"

text \<open>The tests on the dates of the provenance and on its signature.\<close>

definition checkProvenance :: "ext \<Rightarrow> int \<Rightarrow> publish_input \<Rightarrow> ('a auth_scheme, unit) exec" where
  "checkProvenance E now i =
     bindE (orThrow (dateMs E (lv_expires (l_provenance i))) ValidationError) (\<lambda>expiresMs.
     bindE (throwIf (expiresMs \<le> now) ValidationError) (\<lambda>_.
     bindE (throwIf (dateMs E (lv_updated (l_provenance i)) = None \<or> dateMs E (lv_created (l_provenance i)) = None) ValidationError) (\<lambda>_.
     bindE (gets (\<lambda>w. publicKeyFor (resolverOf E (idn w)) (l_provider i) None)) (\<lambda>key.
     bindE (orThrow key AuthError) (\<lambda>providerKey.
     throwIf (\<not> verifyDetached E (JObj (listingPayload i)) (lv_sig (l_provenance i)) providerKey) AuthError)))))"

definition listingIdFor :: "ext \<Rightarrow> publish_input \<Rightarrow> ('a reg_world_scheme, string) exec" where
  "listingIdFor E i =
     (case pub_id i of
        Some lid \<Rightarrow>
          bindE (gets (\<lambda>w. mapGet (listings w) lid)) (\<lambda>old.
          bindE (orThrow old NotFoundError) (\<lambda>existing.
          bindE (throwIf (l_provider existing \<noteq> l_provider i) ConflictError) (\<lambda>_.
          ret lid)))
      | None \<Rightarrow> newRegId E ''lst'')"

definition publishListing :: "ext \<Rightarrow> int \<Rightarrow> publish_input \<Rightarrow> ('a reg_world_scheme, listing) exec" where
  "publishListing E now i =
     bindE (checkProvenance E now i) (\<lambda>_.
     bindE (listingIdFor E i) (\<lambda>lid.
     bindE (putListing (listingOf lid i)) (\<lambda>_.
     ret (listingOf lid i))))"

definition getListing :: "string \<Rightarrow> ('a reg_world_scheme, listing) exec" where
  "getListing lid = bindE (gets (\<lambda>w. mapGet (listings w) lid)) (\<lambda>x. orThrow x NotFoundError)"

definition parseLastSettled :: "ext \<Rightarrow> string option \<Rightarrow> int option" where
  "parseLastSettled E text = (case text of None \<Rightarrow> None | Some s \<Rightarrow> dateMs E s)"

definition repOfMetrics :: "ext \<Rightarrow> rat option \<Rightarrow> metrics \<Rightarrow> provider_rep" where
  "repOfMetrics E t m = \<lparr>pr_trust = t, pr_jobs = m_jobs m, pr_history = 0, pr_lastSettled = parseLastSettled E (last_settled m)\<rparr>"

definition resolveReputation :: "ext \<Rightarrow> core_signer \<Rightarrow> int \<Rightarrow> string \<Rightarrow> (reputation_st, provider_rep) exec" where
  "resolveReputation E cs now d =
     bindE (getSnapshot E cs now d) (\<lambda>snap.
     case snap of
       Some s \<Rightarrow> ret (repOfMetrics E (sn_trust s) (sn_metrics s))
     | None \<Rightarrow>
         bindE (gets (getRaw d)) (\<lambda>raw.
         case raw of
           Some m \<Rightarrow> ret (repOfMetrics E (computeTrust E m) m)
         | None \<Rightarrow> ret \<lparr>pr_trust = computeTrust E emptyMetrics, pr_jobs = 0, pr_history = 0, pr_lastSettled = None\<rparr>))"

fun resolveReputations :: "ext \<Rightarrow> core_signer \<Rightarrow> int \<Rightarrow> string list \<Rightarrow> (reputation_st, (string, provider_rep) jsmap) exec" where
  "resolveReputations E cs now [] = ret []"
| "resolveReputations E cs now (d # ds) =
     bindE (resolveReputation E cs now d) (\<lambda>r.
     bindE (resolveReputations E cs now ds) (\<lambda>rest. ret ((d, r) # rest)))"

definition reputationIn :: "(string, provider_rep) jsmap \<Rightarrow> string \<Rightarrow> provider_rep" where
  "reputationIn m d = orElse (mapGet m d) \<lparr>pr_trust = Some 0, pr_jobs = 0, pr_history = 0, pr_lastSettled = None\<rparr>"

definition QUOTE_TTL_MS :: int where
  "QUOTE_TTL_MS = 5 * 60 * 1000"

definition unsignedQuote :: "ext \<Rightarrow> int \<Rightarrow> string \<Rightarrow> listing \<Rightarrow> string \<Rightarrow> string \<Rightarrow> quote" where
  "unsignedQuote E now qid l firstRail rq =
     \<lparr>quote_id = qid, q_listing_id = l_id l, listing_version = l_version l, q_amount = lp_amount (l_pricing l),
      q_currency = lp_currency (l_pricing l), q_per = lp_unit (l_pricing l), q_rail = firstRail, requester = rq,
      q_issued = isoOf E now, q_expires = isoOf E (now + QUOTE_TTL_MS), q_sig = []\<rparr>"

definition signQuote :: "ext \<Rightarrow> core_signer \<Rightarrow> quote \<Rightarrow> quote" where
  "signQuote E cs q = q\<lparr>q_sig := signDetached E (JObj (stripForSigning (quoteObj q) [''sig''])) (cs_sk cs) (cs_kid cs)\<rparr>"

definition issueQuote :: "ext \<Rightarrow> core_signer \<Rightarrow> int \<Rightarrow> listing \<Rightarrow> string \<Rightarrow> ('a reg_world_scheme, quote) exec" where
  "issueQuote E cs now l rq =
     (case lp_rails (l_pricing l) of
        [] \<Rightarrow> throw ValidationError
      | firstRail # _ \<Rightarrow>
          bindE (newRegId E ''qt'') (\<lambda>qid.
          let q = signQuote E cs (unsignedQuote E now qid l firstRail rq) in
          bindE (putQuote q) (\<lambda>_. ret q)))"

record ranked_match =
  rm_listing :: string
  rm_provider :: string
  rm_price :: money
  rm_quote :: quote
  rm_score :: "rat option"
  rm_signals :: match_signals

definition matchOf :: "scored_listing \<Rightarrow> quote \<Rightarrow> ranked_match" where
  "matchOf s q = \<lparr>rm_listing = l_id (sl_listing s), rm_provider = l_provider (sl_listing s),
     rm_price = \<lparr>amount = lp_amount (l_pricing (sl_listing s)), currency = lp_currency (l_pricing (sl_listing s))\<rparr>,
     rm_quote = q, rm_score = sl_score s, rm_signals = sl_signals s\<rparr>"

fun issueMatches :: "ext \<Rightarrow> core_signer \<Rightarrow> int \<Rightarrow> string \<Rightarrow> scored_listing list \<Rightarrow> ('a reg_world_scheme, ranked_match list) exec" where
  "issueMatches E cs now rq [] = ret []"
| "issueMatches E cs now rq (s # ss) =
     bindE (issueQuote E cs now (sl_listing s) rq) (\<lambda>q.
     bindE (issueMatches E cs now rq ss) (\<lambda>ms. ret (matchOf s q # ms)))"

text \<open>A sum as a computation that leaves the state alone.\<close>

definition liftSum :: "app_error + 'r \<Rightarrow> ('s, 'r) exec" where
  "liftSum x = (case x of Inl e \<Rightarrow> throw e | Inr v \<Rightarrow> ret v)"

text \<open>The filter and the ranking, up to the cut at \<open>max_results\<close>.\<close>

definition discover ::
    "ext \<Rightarrow> capability_query \<Rightarrow> string \<Rightarrow> (string \<Rightarrow> provider_rep) \<Rightarrow> listing list \<Rightarrow> app_error + scored_listing list" where
  "discover E q nowIso repFor ls =
     (case hardFilter E q nowIso repFor ls of
        Inl e \<Rightarrow> Inl e
      | Inr (survivors, removed) \<Rightarrow>
          (case rankSurvivors E q nowIso repFor survivors of Inl e \<Rightarrow> Inl e | Inr ss \<Rightarrow> Inr (take (cq_max q) ss)))"

definition queryRegistry :: "ext \<Rightarrow> reg_cfg \<Rightarrow> int \<Rightarrow> capability_query \<Rightarrow> ('a reg_world_scheme, string \<times> ranked_match list) exec" where
  "queryRegistry E cfg now q =
     bindE (verifyAs E now (regSkew cfg) (capabilityQueryObj q) (sigOpts (cq_requester q))) (\<lambda>_.
     bindE (gets (\<lambda>w. mapValues (listings w))) (\<lambda>all.
     bindE (inReputation (resolveReputations E (regRepSigner cfg) now (distinctFirst (map l_provider all)))) (\<lambda>reps.
     bindE (liftSum (discover E q (isoOf E now) (reputationIn reps) all)) (\<lambda>ranked.
     bindE (issueMatches E (regSigner cfg) now (cq_requester q) ranked) (\<lambda>matches.
     ret (cq_id q, matches))))))"

section \<open>The dry run\<close>

record signed_dry_run =
  dr_listing :: string
  dr_fixture :: string
  dr_schema :: string
  dr_output :: json
  dr_checksum :: string
  dr_issued :: string
  dr_issuer :: string
  dr_sig :: string

definition dryRunObj :: "signed_dry_run \<Rightarrow> (string \<times> json) list" where
  "dryRunObj r = [(''listing_id'', JStr (dr_listing r)), (''fixture_ref'', JStr (dr_fixture r)), (''output_schema_ref'', JStr (dr_schema r)),
     (''output'', dr_output r), (''checksum'', JStr (dr_checksum r)), (''issued'', JStr (dr_issued r)), (''issuer'', JStr (dr_issuer r))]"

definition dryRunOutput :: "'a listing_body_scheme \<Rightarrow> json" where
  "dryRunOutput l =
     (let echo = JObj [(''schema'', JStr (lio_output (l_io l))), (''fixture_ref'', JStr (ld_fixture (l_dryRun l))), (''rows'', JArr [])] in
      case l_sample l of
        None \<Rightarrow> echo
      | Some s \<Rightarrow> (case lsm_response s of None \<Rightarrow> echo | Some j \<Rightarrow> if j = JNull then echo else j))"

definition dryRun :: "ext \<Rightarrow> core_signer \<Rightarrow> int \<Rightarrow> string \<Rightarrow> ('a reg_world_scheme, signed_dry_run) exec" where
  "dryRun E cs now lid =
     bindE (getListing lid) (\<lambda>l.
     bindE (throwIf (\<not> ld_supported (l_dryRun l)) ValidationError) (\<lambda>_.
     bindE (throwIf (dryRunOutput l = JNull \<or> dryRunOutput l = JArr []) ValidationError) (\<lambda>_.
     let u = \<lparr>dr_listing = l_id l, dr_fixture = ld_fixture (l_dryRun l), dr_schema = lio_output (l_io l), dr_output = dryRunOutput l,
              dr_checksum = sha256Tagged E (canon E (dryRunOutput l)), dr_issued = isoOf E now, dr_issuer = cs_did cs, dr_sig = []\<rparr>
     in ret (u\<lparr>dr_sig := signDetached E (JObj (dryRunObj u)) (cs_sk cs) (cs_kid cs)\<rparr>))))"

end
