(* ===== verification/Registry_Spec.thy ===== *)
theory Registry_Spec
  imports Registry Facilitator_Spec Guarantee
begin

text \<open>
  What the registry guarantees: a query returns the best of the listings that pass its hard
  constraints, each with a quote that the facilitator honours until it expires; every stored listing
  was signed by its provider, who never changes; a dry run can be checked by anyone. And what it
  does not: an old listing can be replayed over a newer one, and a single listing with a malformed
  stake makes every query that matches it fail.
\<close>

lemma listingOf_sel [simp]:
  "l_id (listingOf i p) = i" "l_provider (listingOf i p) = l_provider p" "l_provenance (listingOf i p) = l_provenance p"
  "l_attestations (listingOf i p) = l_attestations p"
  by (simp_all add: listingOf_def listing.defs listing_body.defs)

section \<open>Filter and score as functions\<close>

lemma hardFilter_ok:
  assumes "hardFilter E q nowIso rf ls = Inr (keep, removed)"
  shows "keep = filter (\<lambda>l. dropReason E q nowIso rf l = Inr None) ls" "\<forall>l \<in> set ls. \<exists>d. dropReason E q nowIso rf l = Inr d"
  using assms by (induction ls arbitrary: keep removed)
    (auto split: sum.splits option.splits prod.splits)

definition scored :: "ext \<Rightarrow> capability_query \<Rightarrow> string \<Rightarrow> (string \<Rightarrow> provider_rep) \<Rightarrow> listing \<Rightarrow> scored_listing" where
  "scored E q nowIso rf l = projr (scoreListing E q nowIso rf l)"

lemma scoreAll_ok:
  assumes "scoreAll E q nowIso rf ls = Inr ss"
  shows "ss = map (scored E q nowIso rf) ls" "\<forall>l \<in> set ls. scoreListing E q nowIso rf l = Inr (scored E q nowIso rf l)"
  using assms by (induction ls arbitrary: ss) (auto simp: scored_def split: sum.splits)

lemma discover_ok:
  assumes "discover E q nowIso rf ls = Inr ranked"
  shows "ranked = take (cq_max q) (sortBy listingBefore (map (scored E q nowIso rf)
      (filter (\<lambda>l. dropReason E q nowIso rf l = Inr None) ls)))"
    "l \<in> set ls \<Longrightarrow> dropReason E q nowIso rf l = Inr None \<Longrightarrow> scoreListing E q nowIso rf l = Inr (scored E q nowIso rf l)"
proof -
  obtain keep removed ss where f: "hardFilter E q nowIso rf ls = Inr (keep, removed)"
    and s: "scoreAll E q nowIso rf keep = Inr ss" and r: "ranked = take (cq_max q) (sortBy listingBefore ss)"
    using assms by (auto simp: discover_def rankSurvivors_def split: sum.splits prod.splits)
  show "ranked = take (cq_max q) (sortBy listingBefore (map (scored E q nowIso rf)
      (filter (\<lambda>l. dropReason E q nowIso rf l = Inr None) ls)))"
    unfolding r scoreAll_ok(1) [OF s] hardFilter_ok(1) [OF f] ..
  show "scoreListing E q nowIso rf l = Inr (scored E q nowIso rf l)"
    if "l \<in> set ls" "dropReason E q nowIso rf l = Inr None"
    using that scoreAll_ok(2) [OF s] unfolding hardFilter_ok(1) [OF f] by simp
qed

lemma scoreListing_sel:
  assumes "scoreListing E q nowIso rf l = Inr s"
  shows "sl_listing s = l"
    "pr_trust (rf (l_provider l)) \<noteq> None \<Longrightarrow> dateMs E nowIso \<noteq> None \<Longrightarrow> \<exists>x. sl_score s = Some x \<and> 0 \<le> x \<and> x \<le> 1"
  using assms
  by (auto simp: scoreListing_def Let_def scoreSignals_def freshnessScore_def clamp01_def split: sum.splits option.splits)

section \<open>Discovery\<close>

text \<open>The order of the page when every score is a number: score first, then the id.\<close>

definition listingKey :: "scored_listing \<Rightarrow> string rank_key" where
  "listingKey s = RankKey (case sl_score s of None \<Rightarrow> 0 | Some x \<Rightarrow> x) (l_id (sl_listing s))"

definition eligible :: "ext \<Rightarrow> capability_query \<Rightarrow> string \<Rightarrow> (string \<Rightarrow> provider_rep) \<Rightarrow> listing \<Rightarrow> bool" where
  "eligible E q nowIso rf l \<longleftrightarrow> dropReason E q nowIso rf l = Inr None \<and>
     (\<exists>s. scoreListing E q nowIso rf l = Inr s \<and> sl_score s \<noteq> None)"

lemma scored_eq: "scoreListing E q nowIso rf l = Inr s \<Longrightarrow> scored E q nowIso rf l = s"
  by (simp add: scored_def)

lemma scored_listing: "eligible E q nowIso rf l \<Longrightarrow> sl_listing (scored E q nowIso rf l) = l"
  using scoreListing_sel(1) by (auto simp: eligible_def scored_eq)

interpretation rdq: discovery "eligible E q nowIso rf" "scored E q nowIso rf" sl_listing listingBefore listingKey
  for E q nowIso rf
proof
  fix a b
  assume a: "eligible E q nowIso rf a" and b: "eligible E q nowIso rf b"
  obtain x y where "sl_score (scored E q nowIso rf a) = Some x" "sl_score (scored E q nowIso rf b) = Some y"
    using a b by (auto simp: eligible_def scored_eq)
  then show "listingBefore (scored E q nowIso rf a) (scored E q nowIso rf b) \<longleftrightarrow>
      listingKey (scored E q nowIso rf a) \<le> listingKey (scored E q nowIso rf b)"
    by (auto simp: listingBefore_def listingKey_def)
qed (rule scored_listing)

lemma discover_page:
  assumes run: "discover E q nowIso rf ls = Inr ranked"
    and num: "\<forall>d. pr_trust (rf d) \<noteq> None" "dateMs E nowIso \<noteq> None"
  shows "ranked = rdq.page E q nowIso rf (cq_max q) ls"
    "l \<in> set ls \<Longrightarrow> eligible E q nowIso rf l \<longleftrightarrow> dropReason E q nowIso rf l = Inr None"
proof -
  have el: "eligible E q nowIso rf l \<longleftrightarrow> dropReason E q nowIso rf l = Inr None" if "l \<in> set ls" for l
    using discover_ok(2) [OF run that] scoreListing_sel(2) num by (fastforce simp: eligible_def)
  then show "l \<in> set ls \<Longrightarrow> eligible E q nowIso rf l \<longleftrightarrow> dropReason E q nowIso rf l = Inr None" .
  have "filter (\<lambda>l. dropReason E q nowIso rf l = Inr None) ls = filter (eligible E q nowIso rf) ls"
    by (rule filter_cong) (simp_all add: el)
  then show "ranked = rdq.page E q nowIso rf (cq_max q) ls" using discover_ok(1) [OF run] by (simp add: rdq.page_def)
qed

section \<open>What a query does\<close>

lemma issueQuote_ok:
  assumes "issueQuote E cs now l rq w = (Inr q, w')"
  shows "\<exists>r rs. lp_rails (l_pricing l) = r # rs \<and> q = signQuote E cs (unsignedQuote E now (''qt_'' @ ulid E (regDrawn w)) l r rq) \<and>
    w' = w\<lparr>regDrawn := Suc (regDrawn w), regQuotes := mapSet (quote_id q) q (regQuotes w)\<rparr>"
  using assms by (auto simp: issueQuote_def newRegId_def putQuote_def exec_simps Let_def split: list.splits)

lemma issueMatches_ok:
  assumes "issueMatches E cs now rq ss w = (Inr ms, w')"
  shows "map rm_listing ms = map (l_id \<circ> sl_listing) ss" "map rm_score ms = map sl_score ss"
    "length ms = length ss" "\<And>i. i < length ss \<Longrightarrow> ms ! i = matchOf (ss ! i) (rm_quote (ms ! i))"
proof -
  have "map rm_listing ms = map (l_id \<circ> sl_listing) ss \<and> map rm_score ms = map sl_score ss \<and>
      length ms = length ss \<and> (\<forall>i < length ss. ms ! i = matchOf (ss ! i) (rm_quote (ms ! i)))"
    using assms
  proof (induction ss arbitrary: ms w)
    case (Cons s ss)
    obtain q w1 where "bindE (issueMatches E cs now rq ss) (\<lambda>ms. ret (matchOf s q # ms)) w1 = (Inr ms, w')"
      using Cons.prems unfolding issueMatches.simps by (rule bindE_InrE)
    then obtain ms' w2 where "issueMatches E cs now rq ss w1 = (Inr ms', w2)" "ret (matchOf s q # ms') w2 = (Inr ms, w')"
      by (rule bindE_InrE)
    then have IH: "map rm_listing ms' = map (l_id \<circ> sl_listing) ss \<and> map rm_score ms' = map sl_score ss \<and>
      length ms' = length ss \<and> (\<forall>i < length ss. ms' ! i = matchOf (ss ! i) (rm_quote (ms' ! i)))"
      and ms: "ms = matchOf s q # ms'" using Cons.IH by auto
    show ?case using IH unfolding ms by (auto simp: matchOf_def nth_Cons split: nat.splits)
  qed simp
  then show "map rm_listing ms = map (l_id \<circ> sl_listing) ss" "map rm_score ms = map sl_score ss"
    "length ms = length ss" "\<And>i. i < length ss \<Longrightarrow> ms ! i = matchOf (ss ! i) (rm_quote (ms ! i))" by auto
qed

lemma frames_issueMatches [frames_rules]:
  "(\<And>w n. f (w\<lparr>regDrawn := n\<rparr>) = f w) \<Longrightarrow> (\<And>w s. f (w\<lparr>regQuotes := s\<rparr>) = f w) \<Longrightarrow> frames f (issueMatches E cs now rq ss)"
  by (induction ss) (auto simp: issueQuote_def newRegId_def putQuote_def Let_def intro!: frames_rules simp del: ret_app)

lemma frames_liftSum [frames_rules]: "frames f (liftSum x)"
  unfolding liftSum_def by (cases x) (simp_all add: frames_ret frames_throw)

lemma frames_newRegId [frames_rules]: "(\<And>w n. f (w\<lparr>regDrawn := n\<rparr>) = f w) \<Longrightarrow> frames f (newRegId E p)"
  unfolding newRegId_def by (intro frames_rules)

abbreviation stored :: "'a reg_world_scheme \<Rightarrow> listing list" where
  "stored w \<equiv> mapValues (listings w)"

lemma queryRegistry_ok:
  assumes "queryRegistry E cfg now q w = (Inr (qid, ms), w')"
    and reps: "resolveReputations E (regRepSigner cfg) now (distinctFirst (map l_provider (stored w))) (rep w) = (Inr reps, rp)"
  obtains n ranked where "verifyAs E now (regSkew cfg) (capabilityQueryObj q) (sigOpts (cq_requester q)) w = (Inr (), w\<lparr>non := n\<rparr>)"
    "discover E q (isoOf E now) (reputationIn reps) (stored w) = Inr ranked"
    "issueMatches E (regSigner cfg) now (cq_requester q) ranked (w\<lparr>non := n, rep := rp\<rparr>) = (Inr ms, w')" "qid = cq_id q"
proof -
  obtain r n where v: "verifyAs E now (regSkew cfg) (capabilityQueryObj q) (sigOpts (cq_requester q)) w = (r, w\<lparr>non := n\<rparr>)"
    by (rule verifyAs_out)
  then have r: "r = Inr ()" using assms(1) by (cases r) (simp_all add: queryRegistry_def bindE_app [of "verifyAs _ _ _ _ _"])
  let ?d = "discover E q (isoOf E now) (reputationIn reps) (stored w)"
  have "bindE (liftSum ?d) (\<lambda>ranked. bindE (issueMatches E (regSigner cfg) now (cq_requester q) ranked)
      (\<lambda>matches. ret (cq_id q, matches))) (w\<lparr>non := n, rep := rp\<rparr>) = (Inr (qid, ms), w')"
    using assms(1) v r reps
    by (simp add: queryRegistry_def bindE_app [of "verifyAs _ _ _ _ _"] bindE_app [of "gets _"] bindE_app [of "inReputation _"] core_app)
  then obtain ranked w1 where l: "liftSum ?d (w\<lparr>non := n, rep := rp\<rparr>) = (Inr ranked, w1)"
    and t: "bindE (issueMatches E (regSigner cfg) now (cq_requester q) ranked) (\<lambda>matches. ret (cq_id q, matches)) w1 = (Inr (qid, ms), w')"
    by (rule bindE_InrE)
  have d: "?d = Inr ranked" "w1 = w\<lparr>non := n, rep := rp\<rparr>" using l by (auto simp: liftSum_def split: sum.splits)
  obtain ms' w2 where "issueMatches E (regSigner cfg) now (cq_requester q) ranked w1 = (Inr ms', w2)"
    "ret (cq_id q, ms') w2 = (Inr (qid, ms), w')" using t by (rule bindE_InrE)
  then show ?thesis using that [OF v [unfolded r] d(1)] d(2) by auto
qed

section \<open>The stored listings\<close>

text \<open>\<open>i\<close> was signed, as submitted in \<open>p\<close>, by the key that the passport of its provider names.\<close>

definition attested :: "ext \<Rightarrow> identity_st \<Rightarrow> string \<Rightarrow> listing \<Rightarrow> bool" where
  "attested E ids i l \<longleftrightarrow> (\<exists>p pk. l = listingOf i p \<and> (pub_id p = None \<or> pub_id p = Some i) \<and>
     publicKeyFor (resolverOf E ids) (l_provider l) None = Some pk \<and>
     verifyDetached E (JObj (listingPayload p)) (lv_sig (l_provenance l)) pk)"

definition registry_ok :: "ext \<Rightarrow> 'a reg_world_scheme \<Rightarrow> bool" where
  "registry_ok E w \<longleftrightarrow> distinctKeys (listings w) \<and> (\<forall>(i, l) \<in> set (listings w). attested E (idn w) i l)"

lemma attested_id: "attested E ids i l \<Longrightarrow> l_id l = i"
  by (auto simp: attested_def)

lemma registry_ok_ids:
  assumes "registry_ok E w"
  shows "map l_id (stored w) = map fst (listings w)" "distinct (map l_id (stored w))" "distinct (stored w)"
    "l \<in> set (stored w) \<Longrightarrow> mapGet (listings w) (l_id l) = Some l"
proof -
  have at: "attested E (idn w) i l" if "(i, l) \<in> set (listings w)" for i l using assms that by (auto simp: registry_ok_def)
  then show ids: "map l_id (stored w) = map fst (listings w)" by (auto intro: attested_id [OF at])
  show d: "distinct (map l_id (stored w))" unfolding ids using assms by (simp add: registry_ok_def)
  then show "distinct (stored w)" by (simp only: distinct_map)
  show "mapGet (listings w) (l_id l) = Some l" if "l \<in> set (stored w)"
    using that assms by (auto simp: registry_ok_def map_of_eq_Some_iff dest!: attested_id bspec)
qed

definition matchKey :: "ranked_match \<Rightarrow> string rank_key" where
  "matchKey m = RankKey (case rm_score m of None \<Rightarrow> 0 | Some x \<Rightarrow> x) (rm_listing m)"

lemma issueMatches_keys:
  assumes "issueMatches E cs now rq ss w = (Inr ms, w')"
  shows "map matchKey ms = map listingKey ss"
proof (rule nth_equalityI)
  show "length (map matchKey ms) = length (map listingKey ss)" using issueMatches_ok(3) [OF assms] by simp
  fix i
  assume "i < length (map matchKey ms)"
  then have i: "i < length ss" using issueMatches_ok(3) [OF assms] by simp
  have "matchKey (matchOf (ss ! i) q) = listingKey (ss ! i)" for q by (simp add: matchKey_def listingKey_def matchOf_def)
  then show "map matchKey ms ! i = map listingKey ss ! i"
    using i issueMatches_ok(3) [OF assms] issueMatches_ok(4) [OF assms i] by (metis nth_map)
qed

text \<open>
  Claim C21. A capability query is exact: the matches are listings of the index that violate no hard
  constraint, none twice, as many as there are up to \<open>max_results\<close>; each carries the score of its
  listing, a number between 0 and 1; they come in the order of their scores, equal scores in the
  order of the ids; and no listing that passes and is left out ranks before one that is returned. The
  trust scores the reputation engine returns are numbers (the sort of the program is not defined on NaN).
\<close>

theorem capability_query_exact:
  assumes "registry_ok E w" "queryRegistry E cfg now q w = (Inr (qid, ms), w')"
    and "resolveReputations E (regRepSigner cfg) now (distinctFirst (map l_provider (mapValues (listings w)))) (rep w) = (Inr reps, rp)"
    and "\<forall>d. pr_trust (reputationIn reps d) \<noteq> None" "dateMs E (isoOf E now) \<noteq> None"
  shows "distinct (map rm_listing ms) \<and>
    length ms = min (cq_max q) (length (filter (\<lambda>l. dropReason E q (isoOf E now) (reputationIn reps) l = Inr None) (mapValues (listings w)))) \<and>
    (\<forall>m \<in> set ms. \<exists>l s x. mapGet (listings w) (rm_listing m) = Some l \<and>
       dropReason E q (isoOf E now) (reputationIn reps) l = Inr None \<and>
       scoreListing E q (isoOf E now) (reputationIn reps) l = Inr s \<and> rm_score m = sl_score s \<and> rm_score m = Some x \<and> 0 \<le> x \<and> x \<le> 1) \<and>
    sorted (map matchKey ms) \<and>
    (\<forall>l \<in> set (mapValues (listings w)). dropReason E q (isoOf E now) (reputationIn reps) l = Inr None \<longrightarrow> l_id l \<notin> rm_listing ` set ms \<longrightarrow>
       (\<forall>m \<in> set ms. matchKey m \<le> listingKey (scored E q (isoOf E now) (reputationIn reps) l)))"
proof -
  let ?ls = "stored w" and ?iso = "isoOf E now" and ?rf = "reputationIn reps"
  obtain n ranked where d: "discover E q ?iso ?rf ?ls = Inr ranked"
    and m: "issueMatches E (regSigner cfg) now (cq_requester q) ranked (w\<lparr>non := n, rep := rp\<rparr>) = (Inr ms, w')"
    by (rule queryRegistry_ok [OF assms(2,3)])
  note pg = discover_page [OF d assms(4,5)]
  note ids = registry_ok_ids [OF assms(1)]
  have keys: "map matchKey ms = map listingKey ranked" by (rule issueMatches_keys [OF m])
  have lids: "map rm_listing ms = map (l_id \<circ> sl_listing) ranked" by (rule issueMatches_ok(1) [OF m])
  have fl: "filter (eligible E q ?iso ?rf) ?ls = filter (\<lambda>l. dropReason E q ?iso ?rf l = Inr None) ?ls"
    by (rule filter_cong) (simp_all add: pg(2))
  have src: "sl_listing r \<in> set ?ls \<and> eligible E q ?iso ?rf (sl_listing r) \<and> r = scored E q ?iso ?rf (sl_listing r)"
    if "r \<in> set ranked" for r using that rdq.page_sound unfolding pg(1) by blast
  have "distinct (map sl_listing ranked)" unfolding pg(1) by (rule rdq.page_distinct [OF ids(3)])
  moreover have "inj_on l_id (set (map sl_listing ranked))"
  proof (rule inj_on_subset)
    show "inj_on l_id (set ?ls)" using ids(2) by (simp only: distinct_map)
    show "set (map sl_listing ranked) \<subseteq> set ?ls" using src by auto
  qed
  ultimately have 1: "distinct (map rm_listing ms)" unfolding lids map_map [symmetric] by (simp only: distinct_map)
  have 2: "length ms = min (cq_max q) (length (filter (\<lambda>l. dropReason E q ?iso ?rf l = Inr None) ?ls))"
    using issueMatches_ok(3) [OF m] unfolding pg(1) rdq.page_length fl by simp
  have 3: "\<exists>l s x. mapGet (listings w) (rm_listing x') = Some l \<and> dropReason E q ?iso ?rf l = Inr None \<and>
       scoreListing E q ?iso ?rf l = Inr s \<and> rm_score x' = sl_score s \<and> rm_score x' = Some x \<and> 0 \<le> x \<and> x \<le> 1"
    if mem: "x' \<in> set ms" for x'
  proof -
    obtain i where "i < length ms" and x': "x' = ms ! i" using mem unfolding in_set_conv_nth by blast
    then have i: "i < length ranked" using issueMatches_ok(3) [OF m] by simp
    have x'_eq: "x' = matchOf (ranked ! i) (rm_quote x')" using issueMatches_ok(4) [OF m i] unfolding x' .
    let ?l = "sl_listing (ranked ! i)"
    have r: "?l \<in> set ?ls" "dropReason E q ?iso ?rf ?l = Inr None" using src [of "ranked ! i"] i by (auto simp: eligible_def)
    have s: "scoreListing E q ?iso ?rf ?l = Inr (ranked ! i)"
      using discover_ok(2) [OF d r] src [of "ranked ! i"] i by simp
    obtain x where "sl_score (ranked ! i) = Some x" "0 \<le> x" "x \<le> 1"
      using scoreListing_sel(2) [OF s] assms(4,5) by auto
    moreover have "rm_listing x' = l_id ?l" "rm_score x' = sl_score (ranked ! i)" by (subst x'_eq, simp add: matchOf_def)+
    ultimately show ?thesis using ids(4) [OF r(1)] r(2) s by (intro exI [of _ ?l] exI [of _ "ranked ! i"] exI [of _ x]) simp
  qed
  have 4: "sorted (map matchKey ms)" unfolding keys pg(1) by (rule rdq.page_sorted)
  have 5: "matchKey x \<le> listingKey (scored E q ?iso ?rf l)"
    if l: "l \<in> set ?ls" "dropReason E q ?iso ?rf l = Inr None" "l_id l \<notin> rm_listing ` set ms" and x: "x \<in> set ms" for l x
  proof -
    have el: "eligible E q ?iso ?rf l" using pg(2) l by simp
    have "scored E q ?iso ?rf l \<notin> set ranked"
    proof
      assume "scored E q ?iso ?rf l \<in> set ranked"
      then have "l_id l \<in> set (map (l_id \<circ> sl_listing) ranked)" using scored_listing [OF el] by force
      then show False using l(3) unfolding lids [symmetric] by auto
    qed
    moreover have "matchKey x \<in> set (map listingKey ranked)" using x unfolding keys [symmetric] by simp
    then obtain r where "r \<in> set ranked" "matchKey x = listingKey r" by auto
    ultimately show ?thesis using rdq.page_best [OF l(1) el] unfolding pg(1) by simp
  qed
  show ?thesis using 1 2 3 4 5 by blast
qed

section \<open>Publishing\<close>

lemma checkProvenance_ok:
  "checkProvenance E now i w = (Inr u, w') \<longleftrightarrow> w' = w \<and>
     (\<exists>x pk. dateMs E (lv_expires (l_provenance i)) = Some x \<and> now < x \<and>
        dateMs E (lv_updated (l_provenance i)) \<noteq> None \<and> dateMs E (lv_created (l_provenance i)) \<noteq> None \<and>
        publicKeyFor (resolverOf E (idn w)) (l_provider i) None = Some pk \<and>
        verifyDetached E (JObj (listingPayload i)) (lv_sig (l_provenance i)) pk)"
  by (auto simp: checkProvenance_def exec_simps split: option.split)

lemma frames_checkProvenance [frames_rules]: "frames f (checkProvenance E now i)"
  unfolding checkProvenance_def by (intro frames_rules)

lemma frames_listingIdFor [frames_rules]: "(\<And>w n. f (w\<lparr>regDrawn := n\<rparr>) = f w) \<Longrightarrow> frames f (listingIdFor E i)"
  unfolding listingIdFor_def by (intro frames_rules)

lemma listingIdFor_ok:
  assumes "listingIdFor E i w = (Inr lid, w')"
  obtains (update) old where "pub_id i = Some lid" "mapGet (listings w) lid = Some old" "l_provider old = l_provider i" "w' = w"
  | (create) "pub_id i = None" "lid = ''lst_'' @ ulid E (regDrawn w)" "w' = w\<lparr>regDrawn := Suc (regDrawn w)\<rparr>"
proof -
  have "(\<exists>old. pub_id i = Some lid \<and> mapGet (listings w) lid = Some old \<and> l_provider old = l_provider i \<and> w' = w) \<or>
      (pub_id i = None \<and> lid = ''lst_'' @ ulid E (regDrawn w) \<and> w' = w\<lparr>regDrawn := Suc (regDrawn w)\<rparr>)"
    using assms by (auto simp: listingIdFor_def newRegId_def exec_simps split: option.splits if_splits)
  then show ?thesis using that by blast
qed

lemma publishListing_ok:
  assumes "publishListing E now i w = (Inr l, w')"
  obtains lid w1 where "checkProvenance E now i w = (Inr (), w)" "listingIdFor E i w = (Inr lid, w1)" "l = listingOf lid i"
    "w' = w1\<lparr>listings := mapSet lid l (listings w1)\<rparr>"
proof -
  obtain u w1 where c: "checkProvenance E now i w = (Inr u, w1)"
    and t: "bindE (listingIdFor E i) (\<lambda>lid. bindE (putListing (listingOf lid i)) (\<lambda>_. ret (listingOf lid i))) w1 = (Inr l, w')"
    using assms unfolding publishListing_def by (rule bindE_InrE)
  have same: "w1 = w" using c by (simp add: checkProvenance_ok)
  obtain lid w2 where "listingIdFor E i w1 = (Inr lid, w2)"
    "bindE (putListing (listingOf lid i)) (\<lambda>_. ret (listingOf lid i)) w2 = (Inr l, w')" using t by (rule bindE_InrE)
  then show ?thesis using that c unfolding same by (auto simp: putListing_def exec_simps)
qed

lemma publishListing_fails:
  assumes "publishListing E now i w = (Inl e, w')"
  shows "idn w' = idn w \<and> listings w' = listings w \<and> regDrawn w \<le> regDrawn w'"
proof -
  obtain r w1 where c: "checkProvenance E now i w = (r, w1)" by (cases "checkProvenance E now i w")
  have w1: "w1 = w" using frames_out [OF frames_checkProvenance c, of "\<lambda>x. x"] by simp
  obtain s w2 where i: "listingIdFor E i w = (s, w2)" by (cases "listingIdFor E i w")
  have "frames (\<lambda>w. (idn w, listings w)) (listingIdFor E i)" by (intro frames_rules) simp
  then have f: "(idn w2, listings w2) = (idn w, listings w)" using i by (rule frames_out)
  have d: "regDrawn w \<le> regDrawn w2"
    using i by (cases "pub_id i"; cases "mapGet (listings w) (the (pub_id i))") (auto simp: listingIdFor_def newRegId_def exec_simps split: if_splits)
  show ?thesis using assms c i w1 f d
    by (cases r; cases s) (auto simp: publishListing_def bindE_app [of "checkProvenance _ _ _"] bindE_app [of "listingIdFor _ _"]
        putListing_def exec_simps)
qed

section \<open>Every operation keeps the index authentic\<close>

datatype reg_op = OpPublish publish_input | OpCapability capability_query | OpDryRun string

fun runReg :: "ext \<Rightarrow> reg_cfg \<Rightarrow> int \<Rightarrow> reg_op \<Rightarrow> 'a reg_world_scheme \<Rightarrow> 'a reg_world_scheme" where
  "runReg E cfg now (OpPublish i) w = snd (publishListing E now i w)"
| "runReg E cfg now (OpCapability q) w = snd (queryRegistry E cfg now q w)"
| "runReg E cfg now (OpDryRun lid) w = snd (dryRun E (regSigner cfg) now lid w)"

fun runRegs :: "ext \<Rightarrow> reg_cfg \<Rightarrow> (int \<times> reg_op) list \<Rightarrow> 'a reg_world_scheme \<Rightarrow> 'a reg_world_scheme" where
  "runRegs E cfg [] w = w"
| "runRegs E cfg ((now, op) # ops) w = runRegs E cfg ops (runReg E cfg now op w)"

text \<open>Listing ids are draws of the generator, so a new listing never takes the id of another.\<close>

definition drawnId :: "ext \<Rightarrow> nat \<Rightarrow> string \<Rightarrow> bool" where
  "drawnId E n i \<longleftrightarrow> (\<exists>k < n. i = ''lst_'' @ ulid E k)"

lemma drawnId_mono: "drawnId E m i \<Longrightarrow> m \<le> n \<Longrightarrow> drawnId E n i"
  unfolding drawnId_def by (blast intro: less_le_trans)

lemma drawnId_next: "drawnId E (Suc n) (''lst_'' @ ulid E n)" "ulid_fresh E \<Longrightarrow> \<not> drawnId E n (''lst_'' @ ulid E n)"
  by (auto simp: drawnId_def ulid_fresh_eq)

definition index_ok :: "ext \<Rightarrow> 'a reg_world_scheme \<Rightarrow> bool" where
  "index_ok E w \<longleftrightarrow> registry_ok E w \<and> ulid_fresh E \<and> (\<forall>i \<in> fst ` set (listings w). drawnId E (regDrawn w) i)"

definition keepsIndex :: "ext \<Rightarrow> 'a reg_world_scheme \<Rightarrow> 'a reg_world_scheme \<Rightarrow> bool" where
  "keepsIndex E w w' \<longleftrightarrow> idn w' = idn w \<and> (index_ok E w \<longrightarrow> index_ok E w' \<and>
     (\<forall>i l. mapGet (listings w) i = Some l \<longrightarrow> (\<exists>l'. mapGet (listings w') i = Some l' \<and> l_provider l' = l_provider l)))"

interpretation rg: guarantee "keepsIndex E" for E
  by standard (auto simp: keepsIndex_def, metis)

lemma keepsIndex_quiet:
  "idn w' = idn w \<Longrightarrow> listings w' = listings w \<Longrightarrow> regDrawn w \<le> regDrawn w' \<Longrightarrow> keepsIndex E w w'"
  unfolding keepsIndex_def index_ok_def registry_ok_def by (auto intro: drawnId_mono)

lemma publish_keepsIndex:
  assumes "publishListing E now i w = (Inr l, w')"
  shows "keepsIndex E w w'"
proof -
  obtain lid w1 where c: "checkProvenance E now i w = (Inr (), w)" and f: "listingIdFor E i w = (Inr lid, w1)"
    and l: "l = listingOf lid i" and w': "w' = w1\<lparr>listings := mapSet lid l (listings w1)\<rparr>" by (rule publishListing_ok [OF assms])
  have same: "idn w1 = idn w" "listings w1 = listings w" "regDrawn w \<le> regDrawn w1" "pub_id i = None \<or> pub_id i = Some lid"
    using f by (cases rule: listingIdFor_ok; simp)+
  have at: "attested E (idn w) lid l" using c same(4) unfolding attested_def l checkProvenance_ok by auto
  have "index_ok E w' \<and> (\<forall>j x. mapGet (listings w) j = Some x \<longrightarrow> (\<exists>x'. mapGet (listings w') j = Some x' \<and> l_provider x' = l_provider x))"
    if ok: "index_ok E w"
  proof
    have id: "drawnId E (regDrawn w1) lid"
      using f
    proof (cases rule: listingIdFor_ok)
      case (update old)
      then have "lid \<in> fst ` set (listings w)" by (force dest: map_of_SomeD)
      then show ?thesis using ok update(4) by (auto simp: index_ok_def)
    next
      case create
      then show ?thesis using drawnId_next(1) by simp
    qed
    have sub: "(a, b) = (lid, l) \<or> (a, b) \<in> set (listings w)" if "(a, b) \<in> set (mapSet lid l (listings w))" for a b
      using that set_mapSet_subset [of lid l "listings w"] by blast
    have "drawnId E (regDrawn w1) a" if "(a, b) \<in> set (listings w)" for a b
      using that ok drawnId_mono [OF _ same(3)] by (fastforce simp: index_ok_def)
    then show "index_ok E w'" using ok id at same(1,2) sub unfolding index_ok_def registry_ok_def w' by fastforce
    show "\<forall>j x. mapGet (listings w) j = Some x \<longrightarrow> (\<exists>x'. mapGet (listings w') j = Some x' \<and> l_provider x' = l_provider x)"
    proof (intro allI impI)
      fix j x
      assume x: "mapGet (listings w) j = Some x"
      have "l_provider l = l_provider x" if "j = lid"
        using f
      proof (cases rule: listingIdFor_ok)
        case create
        then have "lid \<notin> fst ` set (listings w)" using ok drawnId_next(2) [of E "regDrawn w"] by (auto simp: index_ok_def)
        then show ?thesis using x that map_of_SomeD by force
      qed (use x that l in simp)
      then show "\<exists>x'. mapGet (listings w') j = Some x' \<and> l_provider x' = l_provider x" using x same by (auto simp: w')
    qed
  qed
  then show ?thesis using same by (simp add: keepsIndex_def w')
qed

lemma issueMatches_drawn: "regDrawn w \<le> regDrawn (snd (issueMatches E cs now rq ss w))"
proof (induction ss arbitrary: w)
  case (Cons s ss)
  obtain r w1 where q: "issueQuote E cs now (sl_listing s) rq w = (r, w1)" by (cases "issueQuote E cs now (sl_listing s) rq w")
  have "regDrawn w \<le> regDrawn w1"
    using q by (auto simp: issueQuote_def newRegId_def putQuote_def exec_simps Let_def split: list.splits)
  moreover have "regDrawn w1 \<le> regDrawn (snd (issueMatches E cs now rq ss w1))" by (rule Cons.IH)
  ultimately show ?case using q
    by (cases r) (auto simp: bindE_app [of "issueQuote _ _ _ _ _"] bindE_app [of "issueMatches _ _ _ _ _"] split: prod.split sum.split)
qed simp

lemma snd_bindE_ret: "snd (bindE m (\<lambda>x. ret (f x)) s) = snd (m s)"
  by (simp add: bindE_app split: prod.split sum.split)

lemma queryRegistry_drawn: "regDrawn w \<le> regDrawn (snd (queryRegistry E cfg now q w))"
proof -
  obtain r n where v: "verifyAs E now (regSkew cfg) (capabilityQueryObj q) (sigOpts (cq_requester q)) w = (r, w\<lparr>non := n\<rparr>)"
    by (rule verifyAs_out)
  obtain s rp where p: "resolveReputations E (regRepSigner cfg) now (distinctFirst (map l_provider (stored w))) (rep w) = (s, rp)"
    by (cases "resolveReputations E (regRepSigner cfg) now (distinctFirst (map l_provider (stored w))) (rep w)")
  have i: "regDrawn w \<le> regDrawn (snd (issueMatches E (regSigner cfg) now (cq_requester q) ss (w\<lparr>non := n, rep := rp\<rparr>)))" for ss
    using issueMatches_drawn [of "w\<lparr>non := n, rep := rp\<rparr>"] by simp
  show ?thesis using v p i
    by (cases r; cases s) (simp_all add: queryRegistry_def bindE_app [of "verifyAs _ _ _ _ _"] bindE_app [of "gets _"]
        bindE_app [of "inReputation _"] bindE_app [of "liftSum _"] core_app liftSum_def snd_bindE_ret bindE_throw bindE_ret split: sum.split)
qed

lemma runReg_keepsIndex:
  fixes w :: "'a reg_world_scheme"
  shows "keepsIndex E w (runReg E cfg now op w)"
proof (cases op)
  case (OpPublish i)
  obtain r w' where p: "publishListing E now i w = (r, w')" by (cases "publishListing E now i w")
  then show ?thesis using OpPublish publish_keepsIndex publishListing_fails [of E now i w _ w']
    by (cases r) (auto intro: keepsIndex_quiet)
next
  case (OpCapability q)
  have "frames (\<lambda>w. (idn w, listings w)) (queryRegistry E cfg now q :: ('a reg_world_scheme, _) exec)"
    unfolding queryRegistry_def by (intro frames_rules) simp_all
  from frames_eq [OF this, of w] have same: "idn (snd (queryRegistry E cfg now q w)) = idn w"
    "listings (snd (queryRegistry E cfg now q w)) = listings w" by simp_all
  have "regDrawn w \<le> regDrawn (snd (queryRegistry E cfg now q w))" by (rule queryRegistry_drawn)
  then show ?thesis using same OpCapability by (auto intro: keepsIndex_quiet)
next
  case (OpDryRun lid)
  have "frames (\<lambda>x. x) (dryRun E (regSigner cfg) now lid :: ('a reg_world_scheme, _) exec)"
    unfolding dryRun_def getListing_def Let_def by (intro frames_rules)
  from frames_eq [OF this, of w] show ?thesis using OpDryRun by (simp add: rg.refl)
qed

lemma runRegs_keepsIndex: "keepsIndex E w (runRegs E cfg ops w)"
proof (induction ops arbitrary: w)
  case (Cons x ops)
  obtain now op where "x = (now, op)" by (cases x)
  then show ?case using rg.trans [OF runReg_keepsIndex Cons.IH] by simp
qed (simp add: rg.refl)

text \<open>
  Claim C23. The index stays authentic: in every state that the registry reaches, each stored
  listing is filed under its own id and is exactly what its provider signed, with the key its
  passport names; no listing ever disappears, and none ever passes to another provider. The operations are
  those of the registry; keys are those of the passports at the start, which these operations do not change.
\<close>

theorem index_stays_authentic:
  assumes "index_ok E w"
  shows "(\<forall>i l. mapGet (listings (runRegs E cfg ops w)) i = Some l \<longrightarrow> l_id l = i \<and>
      (\<exists>p pk. l = listingOf i p \<and> (pub_id p = None \<or> pub_id p = Some i) \<and> publicKeyFor (resolverOf E (idn w)) (l_provider l) None = Some pk \<and>
         verifyDetached E (JObj (listingPayload p)) (lv_sig (l_provenance l)) pk)) \<and>
    (\<forall>i l. mapGet (listings w) i = Some l \<longrightarrow>
      (\<exists>l'. mapGet (listings (runRegs E cfg ops w)) i = Some l' \<and> l_provider l' = l_provider l))"
proof -
  have k: "keepsIndex E w (runRegs E cfg ops w)" by (rule runRegs_keepsIndex)
  then have ok: "registry_ok E (runRegs E cfg ops w)" and ids: "idn (runRegs E cfg ops w) = idn w"
    using assms by (simp_all add: keepsIndex_def index_ok_def)
  have "attested E (idn w) i l" if "mapGet (listings (runRegs E cfg ops w)) i = Some l" for i l
    using ok map_of_SomeD [OF that] ids by (auto simp: registry_ok_def)
  then have "l_id l = i" "\<exists>p pk. l = listingOf i p \<and> (pub_id p = None \<or> pub_id p = Some i) \<and>
      publicKeyFor (resolverOf E (idn w)) (l_provider l) None = Some pk \<and>
      verifyDetached E (JObj (listingPayload p)) (lv_sig (l_provenance l)) pk"
    if "mapGet (listings (runRegs E cfg ops w)) i = Some l" for i l
    using that attested_id by (blast, simp add: attested_def)
  then show ?thesis using k assms unfolding keepsIndex_def by blast
qed

section \<open>Quotes\<close>

text \<open>Every match carries a quote of its own, signed by the registry and kept in the store.\<close>

definition quotedBy :: "ext \<Rightarrow> core_signer \<Rightarrow> int \<Rightarrow> string \<Rightarrow> nat \<Rightarrow> scored_listing list \<Rightarrow> ranked_match \<Rightarrow> bool" where
  "quotedBy E cs now rq n ss m \<longleftrightarrow> (\<exists>s \<in> set ss. \<exists>k r rs. n \<le> k \<and> lp_rails (l_pricing (sl_listing s)) = r # rs \<and>
     m = matchOf s (signQuote E cs (unsignedQuote E now (''qt_'' @ ulid E k) (sl_listing s) r rq)))"

lemma quotedBy_mono: "quotedBy E cs now rq n ss m \<Longrightarrow> k \<le> n \<Longrightarrow> set ss \<subseteq> set ss' \<Longrightarrow> quotedBy E cs now rq k ss' m"
  unfolding quotedBy_def by (blast intro: le_trans)

lemma signQuote_sel [simp]: "quote_id (signQuote E cs q) = quote_id q"
  by (simp add: signQuote_def)

lemma issueMatches_quotes:
  assumes "ulid_fresh E" "issueMatches E cs now rq ss w = (Inr ms, w')"
  shows "\<forall>m \<in> set ms. quotedBy E cs now rq (regDrawn w) ss m \<and> mapGet (regQuotes w') (quote_id (rm_quote m)) = Some (rm_quote m)"
    "\<forall>k < regDrawn w. mapGet (regQuotes w') (''qt_'' @ ulid E k) = mapGet (regQuotes w) (''qt_'' @ ulid E k)"
proof -
  have "(\<forall>m \<in> set ms. quotedBy E cs now rq (regDrawn w) ss m \<and> mapGet (regQuotes w') (quote_id (rm_quote m)) = Some (rm_quote m)) \<and>
    (\<forall>k < regDrawn w. mapGet (regQuotes w') (''qt_'' @ ulid E k) = mapGet (regQuotes w) (''qt_'' @ ulid E k))"
    using assms(2)
  proof (induction ss arbitrary: ms w)
    case (Cons s ss)
    obtain q w1 where q: "issueQuote E cs now (sl_listing s) rq w = (Inr q, w1)"
      and t: "bindE (issueMatches E cs now rq ss) (\<lambda>ms. ret (matchOf s q # ms)) w1 = (Inr ms, w')"
      using Cons.prems unfolding issueMatches.simps by (rule bindE_InrE)
    obtain ms' w2 where i2: "issueMatches E cs now rq ss w1 = (Inr ms', w2)" and r2: "ret (matchOf s q # ms') w2 = (Inr ms, w')"
      using t by (rule bindE_InrE)
    have i: "issueMatches E cs now rq ss w1 = (Inr ms', w')" and r: "ms = matchOf s q # ms'" using i2 r2 by simp_all
    obtain rl rs where rl: "lp_rails (l_pricing (sl_listing s)) = rl # rs"
      "q = signQuote E cs (unsignedQuote E now (''qt_'' @ ulid E (regDrawn w)) (sl_listing s) rl rq)"
      "w1 = w\<lparr>regDrawn := Suc (regDrawn w), regQuotes := mapSet (quote_id q) q (regQuotes w)\<rparr>"
      using issueQuote_ok [OF q] by blast
    have id: "quote_id q = ''qt_'' @ ulid E (regDrawn w)" by (simp add: rl(2) unsignedQuote_def)
    have IH: "\<forall>m \<in> set ms'. quotedBy E cs now rq (Suc (regDrawn w)) ss m \<and> mapGet (regQuotes w') (quote_id (rm_quote m)) = Some (rm_quote m)"
      "\<forall>k < Suc (regDrawn w). mapGet (regQuotes w') (''qt_'' @ ulid E k) = mapGet (regQuotes w1) (''qt_'' @ ulid E k)"
      using Cons.IH [OF i] rl(3) by auto
    have new: "mapGet (regQuotes w') (quote_id q) = Some q" using IH(2) unfolding id by (simp add: rl(3) id)
    have old: "\<forall>k < regDrawn w. mapGet (regQuotes w') (''qt_'' @ ulid E k) = mapGet (regQuotes w) (''qt_'' @ ulid E k)"
      using IH(2) assms(1) by (simp add: rl(3) id ulid_fresh_eq)
    have here: "quotedBy E cs now rq (regDrawn w) (s # ss) (matchOf s q)" unfolding quotedBy_def rl(2) using rl(1) by auto
    have there: "quotedBy E cs now rq (regDrawn w) (s # ss) m" if "m \<in> set ms'" for m
      using IH(1) that by (auto intro: quotedBy_mono)
    have "rm_quote (matchOf s q) = q" by (simp add: matchOf_def)
    then show ?case using here there new old IH(1) r by auto
  qed simp
  then show "\<forall>m \<in> set ms. quotedBy E cs now rq (regDrawn w) ss m \<and> mapGet (regQuotes w') (quote_id (rm_quote m)) = Some (rm_quote m)"
    "\<forall>k < regDrawn w. mapGet (regQuotes w') (''qt_'' @ ulid E k) = mapGet (regQuotes w) (''qt_'' @ ulid E k)" by blast+
qed

lemma discover_source:
  assumes "discover E q nowIso rf ls = Inr ranked" "s \<in> set ranked"
  shows "sl_listing s \<in> set ls"
proof -
  obtain l where "l \<in> set ls" "dropReason E q nowIso rf l = Inr None" "s = scored E q nowIso rf l"
    using assms(2) unfolding discover_ok(1) [OF assms(1)] by (auto dest!: in_set_takeD)
  then show ?thesis using scoreListing_sel(1) [OF discover_ok(2) [OF assms(1)]] by simp
qed

text \<open>The facilitator's test of a quote: no nonce, no dates of an envelope, only the key.\<close>

lemma verifyAs_quote:
  assumes "q_sig x \<noteq> ''''" "publicKeyFor (resolverOf E (idn w)) d None = Some pk" "\<not> isRevokedAt (resolverOf E (idn w)) d"
    and "verifyDetached E (JObj (stripForSigning (quoteObj x) [''sig''])) (q_sig x) pk"
  shows "verifyAs E now skew (quoteObj x) ((sigOpts d)\<lparr>skipNonce := True\<rparr>) w = (Inr (), w)"
proof -
  have f: "field (quoteObj x) ''sig'' = Some (q_sig x)" "field (quoteObj x) ''iat'' = None" "field (quoteObj x) ''exp'' = None"
    by (simp_all add: quoteObj_def)
  show ?thesis using assms f
    by (simp add: verifyAs_def zoom_app verifySignedObject_def sigOpts_def checkIat_def checkExp_def nonEmpty_def checkSigner_def exec_simps)
qed

lemma signDetached_nonempty: "signDetached E p sk kid \<noteq> ''''"
  by (simp add: signDetached_def Let_def)

lemma validateQuote_signed:
  assumes lib: "jws_lib_ok E (cs_sk cs) pk" and dates: "\<forall>t. dateMs E (isoOf E t) = Some t"
    and key: "publicKeyFor (resolverOf E (idn fw)) (registryDid fcfg) None = Some pk" "\<not> isRevokedAt (resolverOf E (idn fw)) (registryDid fcfg)"
    and x: "x = signQuote E cs (unsignedQuote E now qid l r rq)"
  shows "later < now + QUOTE_TTL_MS \<Longrightarrow> validateQuote E fcfg later x (l_id l) fw = (Inr (), fw)"
    "now + QUOTE_TTL_MS \<le> later \<Longrightarrow> validateQuote E fcfg later x (l_id l) fw = (Inl PaymentRequiredError, fw)"
proof -
  have exp: "quoteIsExpired E x (isoOf E later) \<longleftrightarrow> now + QUOTE_TTL_MS \<le> later"
    using dates by (simp add: x quoteIsExpired_def msLe_def signQuote_def unsignedQuote_def)
  have lid: "q_listing_id x = l_id l" by (simp add: x signQuote_def unsignedQuote_def)
  have "stripForSigning (quoteObj x) [''sig''] = stripForSigning (quoteObj (unsignedQuote E now qid l r rq)) [''sig'']"
    by (simp add: x signQuote_def quoteObj_def stripForSigning_def)
  moreover have "q_sig x = signDetached E (JObj (stripForSigning (quoteObj (unsignedQuote E now qid l r rq)) [''sig''])) (cs_sk cs) (cs_kid cs)"
    by (simp add: x signQuote_def)
  ultimately have ver: "verifyDetached E (JObj (stripForSigning (quoteObj x) [''sig''])) (q_sig x) pk" "q_sig x \<noteq> ''''"
    using verify_signDetached [OF lib] signDetached_nonempty by simp_all
  show "validateQuote E fcfg later x (l_id l) fw = (Inr (), fw)" if "later < now + QUOTE_TTL_MS"
    using that exp lid verifyAs_quote [OF ver(2) key ver(1)] by (simp add: validateQuote_def exec_simps)
  show "validateQuote E fcfg later x (l_id l) fw = (Inl PaymentRequiredError, fw)" if "now + QUOTE_TTL_MS \<le> later"
    using that exp lid by (simp add: validateQuote_def exec_simps)
qed

text \<open>
  Claim C22. Quotes are honoured, and no longer than promised: each match of a query carries a quote
  for the current version, price and first rail of its listing and for this requester; it is in the
  quote store; the facilitator, which knows the registry's key, accepts it for that listing until five
  minutes after the query, and refuses it from then on.
\<close>

theorem quotes_are_honoured:
  assumes "index_ok E w" "queryRegistry E cfg now q w = (Inr (qid, ms), w')" "m \<in> set ms"
    and "jws_lib_ok E (cs_sk (regSigner cfg)) pk" "\<forall>t. dateMs E (isoOf E t) = Some t"
    and "publicKeyFor (resolverOf E (idn fw)) (registryDid fcfg) None = Some pk" "\<not> isRevokedAt (resolverOf E (idn fw)) (registryDid fcfg)"
  shows "\<exists>l rs. mapGet (listings w) (rm_listing m) = Some l \<and> rm_provider m = l_provider l \<and>
    quoteMatchesListingVersion (rm_quote m) (l_version l) \<and> lp_rails (l_pricing l) = q_rail (rm_quote m) # rs \<and>
    q_amount (rm_quote m) = lp_amount (l_pricing l) \<and> q_currency (rm_quote m) = lp_currency (l_pricing l) \<and>
    rm_price m = \<lparr>amount = q_amount (rm_quote m), currency = q_currency (rm_quote m)\<rparr> \<and>
    requester (rm_quote m) = cq_requester q \<and> mapGet (regQuotes w') (quote_id (rm_quote m)) = Some (rm_quote m) \<and>
    (\<forall>later. validateQuote E fcfg later (rm_quote m) (rm_listing m) fw =
       (if later < now + QUOTE_TTL_MS then Inr () else Inl PaymentRequiredError, fw))"
proof -
  obtain r rp where "resolveReputations E (regRepSigner cfg) now (distinctFirst (map l_provider (stored w))) (rep w) = (r, rp)"
    by (cases "resolveReputations E (regRepSigner cfg) now (distinctFirst (map l_provider (stored w))) (rep w)")
  moreover obtain reps where "r = Inr reps"
  proof (cases r)
    case (Inl e)
    obtain r' n where "verifyAs E now (regSkew cfg) (capabilityQueryObj q) (sigOpts (cq_requester q)) w = (r', w\<lparr>non := n\<rparr>)" by (rule verifyAs_out)
    then show ?thesis using assms(2) calculation Inl
      by (cases r') (simp_all add: queryRegistry_def bindE_app [of "verifyAs _ _ _ _ _"] bindE_app [of "gets _"] bindE_app [of "inReputation _"] core_app)
  qed
  ultimately have reps: "resolveReputations E (regRepSigner cfg) now (distinctFirst (map l_provider (stored w))) (rep w) = (Inr reps, rp)" by simp
  obtain n ranked where d: "discover E q (isoOf E now) (reputationIn reps) (stored w) = Inr ranked"
    and i: "issueMatches E (regSigner cfg) now (cq_requester q) ranked (w\<lparr>non := n, rep := rp\<rparr>) = (Inr ms, w')"
    by (rule queryRegistry_ok [OF assms(2) reps])
  have fresh: "ulid_fresh E" and ok: "registry_ok E w" using assms(1) by (simp_all add: index_ok_def)
  obtain s k rl rs where s: "s \<in> set ranked" "lp_rails (l_pricing (sl_listing s)) = rl # rs"
    and m: "m = matchOf s (signQuote E (regSigner cfg) (unsignedQuote E now (''qt_'' @ ulid E k) (sl_listing s) rl (cq_requester q)))"
    and st: "mapGet (regQuotes w') (quote_id (rm_quote m)) = Some (rm_quote m)"
    using issueMatches_quotes(1) [OF fresh i] assms(3) unfolding quotedBy_def by blast
  have l: "mapGet (listings w) (l_id (sl_listing s)) = Some (sl_listing s)"
    by (rule registry_ok_ids(4) [OF ok discover_source [OF d s(1)]])
  have q: "rm_quote m = signQuote E (regSigner cfg) (unsignedQuote E now (''qt_'' @ ulid E k) (sl_listing s) rl (cq_requester q))"
    by (simp add: m matchOf_def)
  have "rm_listing m = l_id (sl_listing s)" by (simp add: m matchOf_def)
  moreover have "validateQuote E fcfg later (rm_quote m) (l_id (sl_listing s)) fw =
       (if later < now + QUOTE_TTL_MS then Inr () else Inl PaymentRequiredError, fw)" for later
    using validateQuote_signed [OF assms(4-7) q] by simp
  ultimately show ?thesis using l st s(2)
    by (intro exI [of _ "sl_listing s"] exI [of _ rs]) (simp add: m matchOf_def signQuote_def unsignedQuote_def quoteMatchesListingVersion_def)
qed

section \<open>Replay, and a listing that breaks queries\<close>

text \<open>
  A listing update has neither a nonce nor an order: a signed update that was accepted once
  is accepted again at any later time before its expiry, whoever sends it and whatever the provider
  has published since, and puts the old version back.
\<close>

theorem stale_listing_replayed:
  assumes "publishListing E now i w = (Inr l, w1)" "pub_id i = Some lid" "index_ok E w"
    and "dateMs E (lv_expires (l_provenance i)) = Some x" "later < x"
  shows "\<exists>w2. publishListing E later i (runRegs E cfg ops w1) = (Inr l, w2) \<and> mapGet (listings w2) lid = Some l"
proof -
  let ?w = "runRegs E cfg ops w1"
  obtain lid' w0 where c: "checkProvenance E now i w = (Inr (), w)" and f: "listingIdFor E i w = (Inr lid', w0)"
    and l: "l = listingOf lid' i" "w1 = w0\<lparr>listings := mapSet lid' l (listings w0)\<rparr>" by (rule publishListing_ok [OF assms(1)])
  have lid: "lid' = lid" using f assms(2) by (cases rule: listingIdFor_ok) simp_all
  have k1: "keepsIndex E w w1" by (rule publish_keepsIndex [OF assms(1)])
  have k: "keepsIndex E w ?w" by (rule rg.trans [OF k1 runRegs_keepsIndex])
  then have ids: "idn ?w = idn w" by (simp add: keepsIndex_def)
  have "mapGet (listings w1) lid = Some l" by (simp add: l lid)
  moreover have "index_ok E w1" using k1 assms(3) by (simp add: keepsIndex_def)
  ultimately obtain old where old: "mapGet (listings ?w) lid = Some old" "l_provider old = l_provider l"
    using runRegs_keepsIndex [of E w1 cfg ops] unfolding keepsIndex_def by blast
  have "checkProvenance E later i ?w = (Inr (), ?w)" using c assms(4,5) ids unfolding checkProvenance_ok by auto
  moreover have "listingIdFor E i ?w = (Inr lid, ?w)" using old assms(2) by (simp add: listingIdFor_def exec_simps l)
  ultimately have "publishListing E later i ?w = (Inr l, ?w\<lparr>listings := mapSet lid l (listings ?w)\<rparr>)"
    by (simp add: publishListing_def putListing_def exec_simps l lid)
  then show ?thesis by auto
qed

text \<open>
  One listing can break discovery: amounts are checked nowhere, and the score of a listing
  whose slashable stake is not a number throws. So once such a listing is stored, every query that it
  passes fails, whatever else the index holds.
\<close>

theorem malformed_stake_breaks_queries:
  assumes "publishListing E now i w = (Inr l, w1)"
    and "lk_slashable (la_stake (l_attestations i))" "bigVal E (lk_amount (la_stake (l_attestations i))) = None"
    and "\<forall>rf. dropReason E q (isoOf E later) rf l = Inr None"
  shows "\<exists>e w2. queryRegistry E cfg later q w1 = (Inl e, w2)"
proof (cases "queryRegistry E cfg later q w1")
  case (Pair r w2)
  have lin: "l \<in> set (stored w1)"
  proof -
    obtain lid w0 where "w1 = w0\<lparr>listings := mapSet lid l (listings w0)\<rparr>" by (rule publishListing_ok [OF assms(1)])
    then have "mapGet (listings w1) lid = Some l" by simp
    then show ?thesis by (force dest: map_of_SomeD)
  qed
  have at: "l_attestations l = l_attestations i" by (rule publishListing_ok [OF assms(1)]) simp
  have "\<exists>e. discover E q (isoOf E later) rf (stored w1) = Inl e" for rf
  proof (cases "discover E q (isoOf E later) rf (stored w1)")
    case (Inr ranked)
    have "\<exists>e. scoreListing E q (isoOf E later) rf l = Inl e"
      using assms(2,3) at by (auto simp: scoreListing_def stakeScore_def Let_def split: sum.split)
    then show ?thesis using discover_ok(2) [OF Inr lin] assms(4) by auto
  qed simp
  note fails = this
  obtain v n where v: "verifyAs E later (regSkew cfg) (capabilityQueryObj q) (sigOpts (cq_requester q)) w1 = (v, w1\<lparr>non := n\<rparr>)"
    by (rule verifyAs_out)
  obtain s rp where p: "resolveReputations E (regRepSigner cfg) later (distinctFirst (map l_provider (stored w1))) (rep w1) = (s, rp)"
    by (cases "resolveReputations E (regRepSigner cfg) later (distinctFirst (map l_provider (stored w1))) (rep w1)")
  show ?thesis
  proof (cases v)
    case (Inr u)
    show ?thesis
    proof (cases s)
      case s: (Inr reps)
      obtain e where "discover E q (isoOf E later) (reputationIn reps) (stored w1) = Inl e" using fails by blast
      then show ?thesis using v p Inr s by (simp add: queryRegistry_def bindE_app [of "verifyAs _ _ _ _ _"] bindE_app [of "gets _"]
            bindE_app [of "inReputation _"] core_app liftSum_def bindE_throw)
    qed (use v p Inr in \<open>simp add: queryRegistry_def bindE_app [of "verifyAs _ _ _ _ _"] bindE_app [of "gets _"] bindE_app [of "inReputation _"] core_app\<close>)
  qed (use v in \<open>simp add: queryRegistry_def bindE_app [of "verifyAs _ _ _ _ _"]\<close>)
qed

section \<open>The dry run\<close>

text \<open>
  A dry run can be checked by anyone: when it returns, nothing was changed, the listing
  supports it, the output is not empty, the checksum is the hash of the canonical output that is
  returned, and the registry's signature over all other fields verifies.
\<close>

theorem dry_run_verifiable:
  assumes "dryRun E cs now lid w = (Inr r, w')" "jws_lib_ok E (cs_sk cs) pk"
  shows "w' = w \<and> (\<exists>l. mapGet (listings w) lid = Some l \<and> ld_supported (l_dryRun l) \<and> dr_output r = dryRunOutput l \<and>
      dr_schema r = lio_output (l_io l)) \<and>
    dr_output r \<noteq> JNull \<and> dr_output r \<noteq> JArr [] \<and> dr_checksum r = sha256Tagged E (canon E (dr_output r)) \<and>
    dr_issuer r = cs_did cs \<and> verifyDetached E (JObj (dryRunObj r)) (dr_sig r) pk"
proof -
  obtain l where l: "mapGet (listings w) lid = Some l"
    using assms(1) by (cases "mapGet (listings w) lid") (simp_all add: dryRun_def getListing_def exec_simps)
  let ?u = "\<lparr>dr_listing = l_id l, dr_fixture = ld_fixture (l_dryRun l), dr_schema = lio_output (l_io l), dr_output = dryRunOutput l,
     dr_checksum = sha256Tagged E (canon E (dryRunOutput l)), dr_issued = isoOf E now, dr_issuer = cs_did cs, dr_sig = []\<rparr>"
  have r: "r = ?u\<lparr>dr_sig := signDetached E (JObj (dryRunObj ?u)) (cs_sk cs) (cs_kid cs)\<rparr>" and w': "w' = w"
    and c: "ld_supported (l_dryRun l)" "dryRunOutput l \<noteq> JNull" "dryRunOutput l \<noteq> JArr []"
    using assms(1) l by (auto simp: dryRun_def getListing_def exec_simps Let_def split: if_splits)
  have "dryRunObj r = dryRunObj ?u" "dr_sig r = signDetached E (JObj (dryRunObj ?u)) (cs_sk cs) (cs_kid cs)" unfolding r
    by (simp_all add: dryRunObj_def)
  then have "verifyDetached E (JObj (dryRunObj r)) (dr_sig r) pk" using verify_signDetached [OF assms(2)] by simp
  then show ?thesis using l w' c by (simp add: r)
qed

end
