(* ===== verification/Composition.thy ===== *)
theory Composition
  imports Platform Facilitator_Spec Escrow_Spec Stake Mailroom_Spec Board_Spec Registry_Spec
begin

text \<open>
  The services against the revocation set they share: a call signed by a revoked agent is refused
  by every service before it changes anything but the nonces; the exception is the publication of
  listings, which looks up the key of the provider and not its revocation.
\<close>

section \<open>Refusal before any effect\<close>

definition blocked :: "('a auth_scheme, 'r) exec \<Rightarrow> 'a auth_scheme \<Rightarrow> bool" where
  "blocked m w \<longleftrightarrow> (\<exists>e n. m w = (Inl e, w\<lparr>non := n\<rparr>))"

named_theorems blocked_rules \<open>rules that look for the check that refuses\<close>

lemma blocked_throw: "blocked (throw e) w"
  unfolding blocked_def by (intro exI [of _ e] exI [of _ "non w"]) simp

lemma blocked_head: "blocked m w \<Longrightarrow> blocked (bindE m k) w"
  by (auto simp: blocked_def bindE_app)

lemma blocked_gets [blocked_rules]: "blocked (k (f w)) w \<Longrightarrow> blocked (bindE (gets f) k) w"
  by (simp add: blocked_def bindE_app)

lemma blocked_throwIf [blocked_rules]: "(\<not> b \<Longrightarrow> blocked (k ()) w) \<Longrightarrow> blocked (bindE (throwIf b e) k) w"
  using blocked_head [OF blocked_throw] by (auto simp: blocked_def bindE_app throwIf_def)

lemma blocked_orThrow [blocked_rules]:
  "(\<And>v. x = Some v \<Longrightarrow> blocked (k v) w) \<Longrightarrow> blocked (bindE (orThrow x e) k) w"
  using blocked_throw [of e w] by (cases x) (auto simp: blocked_def bindE_app orThrow_def)

lemma blocked_reads:
  assumes "frames (\<lambda>x. x) m" "\<And>x. m w = (Inr x, w) \<Longrightarrow> blocked (k x) w"
  shows "blocked (bindE m k) w"
proof -
  obtain r where r: "m w = (r, w)" using frames_eq [OF assms(1), of w] by (metis prod.collapse)
  show ?thesis
  proof (cases r)
    case (Inl e)
    then show ?thesis using r unfolding blocked_def
      by (intro exI [of _ e] exI [of _ "non w"]) (simp add: bindE_app)
  next
    case (Inr x)
    then show ?thesis using assms(2) r by (simp add: blocked_def bindE_app)
  qed
qed

lemma blocked_verify:
  assumes "killed d w" "signerDid opts = d"
  shows "blocked (bindE (verifyAs E now skew obj opts) k) w"
proof -
  obtain r n where v: "verifyAs E now skew obj opts w = (r, w\<lparr>non := n\<rparr>)" by (rule verifyAs_out)
  moreover obtain e where "r = Inl e"
    using killed_unverified [OF assms, of E now skew obj] v by auto
  ultimately show ?thesis by (auto simp: blocked_def bindE_app)
qed

lemma blocked_sigOpts: "killed d w \<Longrightarrow> blocked (bindE (verifyAs E now skew obj (sigOpts d)) k) w"
  by (rule blocked_verify) (simp_all add: sigOpts_def)

section \<open>The services\<close>

lemma settle_blocked:
  "killed (p_from p) w \<Longrightarrow> blocked (settle E cfg t0 t1 q p payeeDid res approval) w"
  unfolding settle_def by (rule blocked_sigOpts)

lemma openEscrow_blocked: "killed (es_payer input) w \<Longrightarrow> blocked (openEscrow E cfg now input) w"
  unfolding openEscrow_def Let_def
  by (rule blocked_reads blocked_rules frames_milestonesSumToTotal frames_bigE blocked_verify
      | simp add: toContract_def escrow_contract.defs)+

lemma deliver_blocked: "killed (dl_provider i) w \<Longrightarrow> blocked (deliver E cfg now eid i) w"
  unfolding deliver_def requireOpenish_def
  by (rule blocked_reads, intro frames_rules, rule blocked_throwIf, rule blocked_sigOpts) simp

lemma accept_blocked: "killed (ac_payer i) w \<Longrightarrow> blocked (accept E cfg now eid i) w"
  unfolding accept_def requireOpenish_def
  by (rule blocked_reads, intro frames_rules, rule blocked_throwIf, rule blocked_sigOpts) simp

lemma dispute_blocked: "killed (dp_disputer i) w \<Longrightarrow> blocked (dispute E cfg now eid i) w"
  unfolding dispute_def requireOpenish_def Let_def
  by (rule blocked_reads, intro frames_rules, rule blocked_throwIf, rule blocked_sigOpts)

lemma stake_blocked:
  "killed (st_agent i) w \<Longrightarrow> blocked (putStakeFor E cfg now i) w"
  "killed (tip_from j) w \<Longrightarrow> blocked (sendTip E cfg now j) w"
  unfolding putStakeFor_def sendTip_def by (rule blocked_sigOpts, assumption)+

lemma mailroom_blocked:
  "killed (mi_from i) w \<Longrightarrow> blocked (send E cfg now i) w"
  "killed (iq_recipient q) w \<Longrightarrow> blocked (inbox E cfg now q) w"
  "killed (wi_owner h) w \<Longrightarrow> blocked (registerWebhook E cfg now h) w"
  "killed (fi_flagger f) w \<Longrightarrow> blocked (flagMessage E cfg now mid f) w"
  unfolding send_def admit_def inbox_def registerWebhook_def flagMessage_def
  by (rule blocked_head, rule blocked_sigOpts, assumption) (rule blocked_sigOpts, assumption)+

lemma board_blocked:
  "killed (bp_author p) w \<Longrightarrow> blocked (publishPost E cfg now p) w"
  "killed (sb_subscriber s) w \<Longrightarrow> blocked (subscribe E cfg now s) w"
  "killed (ti_author t) w \<Longrightarrow> blocked (tombstone E cfg now pid t) w"
  "killed (fr_flagger f) w \<Longrightarrow> blocked (flagPost E cfg now pid f) w"
  unfolding publishPost_def subscribe_def tombstone_def flagPost_def
  by (rule blocked_verify, assumption, simp add: postOpts_def)
    (rule blocked_rules | (rule blocked_sigOpts, assumption))+

lemma query_blocked: "killed (cq_requester q) w \<Longrightarrow> blocked (queryRegistry E cfg now q) w"
  unfolding queryRegistry_def by (rule blocked_sigOpts)

text \<open>A step that changes nothing but the nonces.\<close>

definition inert :: "('a auth_scheme, 'r) exec \<Rightarrow> 'a auth_scheme \<Rightarrow> bool" where
  "inert m w \<longleftrightarrow> (\<exists>r n. m w = (r, w\<lparr>non := n\<rparr>))"

lemma inert_blocked: "blocked m w \<Longrightarrow> inert m w"
  by (auto simp: blocked_def inert_def)

lemma inert_frames: "frames (\<lambda>x. x) m \<Longrightarrow> inert m w"
  using frames_eq [of "\<lambda>x. x" m w] unfolding inert_def
  by (intro exI [of _ "fst (m w)"] exI [of _ "non w"]) (simp add: prod_eq_iff)

lemma inert_verify: "inert (verifyAs E now skew obj opts) w"
  unfolding inert_def by (cases rule: verifyAs_out [of E now skew obj opts w]) auto

lemma inert_bindE:
  assumes "inert m w" "\<And>x n. inert (k x) (w\<lparr>non := n\<rparr>)"
  shows "inert (bindE m k) w"
proof -
  obtain r n where r: "m w = (r, w\<lparr>non := n\<rparr>)" using assms(1) by (auto simp: inert_def)
  show ?thesis
  proof (cases r)
    case (Inl e)
    then show ?thesis using r by (auto simp: inert_def bindE_app)
  next
    case (Inr x)
    obtain r' n' where "k x (w\<lparr>non := n\<rparr>) = (r', w\<lparr>non := n\<rparr>\<lparr>non := n'\<rparr>)"
      using assms(2) [of x n] unfolding inert_def by blast
    then show ?thesis using r Inr by (auto simp: inert_def bindE_app)
  qed
qed

lemma killed_non [simp]: "killed d (w\<lparr>non := n\<rparr>) = killed d w"
  by (simp add: killed_def)

text \<open>A call that answers an error or a value with property \<open>A\<close>, and changes nothing but the nonces.\<close>

definition answers :: "('r \<Rightarrow> bool) \<Rightarrow> ('a auth_scheme, 'r) exec \<Rightarrow> 'a auth_scheme \<Rightarrow> bool" where
  "answers A m w \<longleftrightarrow> (\<exists>n. (\<exists>e. m w = (Inl e, w\<lparr>non := n\<rparr>)) \<or> (\<exists>x. A x \<and> m w = (Inr x, w\<lparr>non := n\<rparr>)))"

lemma answers_blocked: "blocked m w \<Longrightarrow> answers A m w"
  by (auto simp: blocked_def answers_def)

lemma answers_bindE:
  assumes "inert m w" "\<And>x n. answers A (k x) (w\<lparr>non := n\<rparr>)"
  shows "answers A (bindE m k) w"
proof -
  obtain r n where r: "m w = (r, w\<lparr>non := n\<rparr>)" using assms(1) by (auto simp: inert_def)
  show ?thesis
  proof (cases r)
    case (Inl e)
    then show ?thesis using r by (auto simp: answers_def bindE_app)
  next
    case (Inr x)
    have "answers A (bindE m k) w = answers A (\<lambda>_. k x (w\<lparr>non := n\<rparr>)) w"
      using r Inr by (simp add: answers_def bindE_app)
    then show ?thesis using assms(2) [of x n] by (auto simp: answers_def)
  qed
qed

lemma answers_throwIf:
  assumes "\<not> b \<Longrightarrow> answers A (k ()) w"
  shows "answers A (bindE (throwIf b e) k) w"
proof (cases b)
  case True
  have "blocked (bindE (throwIf b e) k) w" by (rule blocked_throwIf) (simp add: True)
  then show ?thesis by (rule answers_blocked)
next
  case False
  then show ?thesis using assms by (simp add: answers_def bindE_app throwIf_app)
qed

text \<open>An idempotent call whose side effect is refused answers an error or what its key holds.\<close>

lemma answers_execute:
  assumes fn: "blocked fn w" and hit: "\<And>r. mapGet (get w) (composite s k) = Some r \<Longrightarrow> A (f r)"
  shows "answers A (bindE (execute get upd s k fn) (\<lambda>r. ret (f r))) w"
proof (cases "mapGet (get w) (composite s k)")
  case None
  have "blocked (execute get upd s k fn) w"
    using blocked_head [OF fn] None by (simp add: execute_def Let_def blocked_def bindE_app [of "gets _"])
  then show ?thesis by (rule answers_blocked [OF blocked_head])
next
  case (Some r)
  have "bindE (execute get upd s k fn) (\<lambda>r. ret (f r)) w = (Inr (f r), w)"
    by (simp add: bindE_app execute_hit [of get, OF Some])
  moreover have "w = w\<lparr>non := non w\<rparr>" by simp
  ultimately show ?thesis using hit [OF Some] unfolding answers_def by metis
qed

text \<open>What the settlement cache holds for a key and a quote, as the answer to a payment.\<close>

definition answeredBefore :: "(string, pay_result) jsmap \<Rightarrow> string option \<Rightarrow> quote \<Rightarrow> pay_outcome \<Rightarrow> bool" where
  "answeredBefore cache key q x \<longleftrightarrow> (\<exists>k res. key = Some k \<and> mapGet cache (composite ''pay'' (k @ '':'' @ quote_id q)) = Some res \<and>
     x = (case res of Parked i threshold rs \<Rightarrow> AwaitsApproval i threshold rs | Settled r \<Rightarrow> GotReceipt r))"

lemma pay_answers:
  assumes "killed d w" "b_payment body = Some p" "p_from p = d"
  shows "answers (answeredBefore (payCache w) key (b_quote body)) (pay E cfg t0 t1 lid key body) w"
proof -
  have run: "answers (answeredBefore (payCache w) key (b_quote body))
      (bindE (execute payCache payCache_update ''pay'' (the key @ '':'' @ quote_id (b_quote body))
        (settle E cfg t0 t1 (b_quote body) p (b_payee body) (b_result body) (b_approval body)))
       (\<lambda>res. ret (case res of Parked i threshold rs \<Rightarrow> AwaitsApproval i threshold rs | Settled r \<Rightarrow> GotReceipt r))) v"
    if "\<not> (key = None \<or> key = Some [])" "killed d v" "payCache v = payCache w" for v
  proof (rule answers_execute)
    show "blocked (settle E cfg t0 t1 (b_quote body) p (b_payee body) (b_result body) (b_approval body)) v"
      by (rule settle_blocked) (simp add: assms(3) that(2))
    show "answeredBefore (payCache w) key (b_quote body)
        (case r of Parked i threshold rs \<Rightarrow> AwaitsApproval i threshold rs | Settled r \<Rightarrow> GotReceipt r)"
      if r: "mapGet (payCache v) (composite ''pay'' (the key @ '':'' @ quote_id (b_quote body))) = Some r" for r
      using r \<open>\<not> (key = None \<or> key = Some [])\<close> \<open>payCache v = payCache w\<close> by (auto simp: answeredBefore_def)
  qed
  have quote: "inert (validateQuote E cfg t0 q lid) w" for q
    unfolding validateQuote_def by (intro inert_bindE inert_frames frames_throwIf inert_verify)
  show ?thesis
    unfolding pay_def Let_def assms(2) option.case
    by (rule answers_bindE [OF quote], rule answers_throwIf,
        rule answers_bindE [OF inert_frames [OF frames_assertPayloadConsistent]], rule run) (simp_all add: assms(1))
qed

section \<open>Properties\<close>

text \<open>
  Claim C7. A revoked agent cannot act: once its DID is in the revocation set, every call to a service that it
  signs (a payment, opening, delivering, accepting or disputing an escrow, a bond, a tip, a
  message, reading its inbox, a webhook, a message flag, a post, a subscription, a tombstone, a post flag,
  a capability query) is refused with an error, and nothing but the nonces changes. A payment is either
  refused in the same way or answered with the result that the settlement cache already holds for
  its idempotency key and its quote.
\<close>

theorem killed_agent_cannot_act:
  assumes "killed d wp" "killed d we" "killed d ws" "killed d wm" "killed d wb" "killed d wr"
  shows "(\<exists>n. (\<exists>e. pay E pc t t' lid key (body\<lparr>b_payment := Some (p\<lparr>p_from := d\<rparr>)\<rparr>) wp = (Inl e, wp\<lparr>non := n\<rparr>)) \<or>
      (\<exists>x. answeredBefore (payCache wp) key (b_quote body) x \<and>
        pay E pc t t' lid key (body\<lparr>b_payment := Some (p\<lparr>p_from := d\<rparr>)\<rparr>) wp = (Inr x, wp\<lparr>non := n\<rparr>))) \<and>
    blocked (openEscrow E ec t (oi\<lparr>es_payer := d\<rparr>)) we \<and> blocked (deliver E ec t eid (di\<lparr>dl_provider := d\<rparr>)) we \<and>
    blocked (accept E ec t eid (ai\<lparr>ac_payer := d\<rparr>)) we \<and> blocked (dispute E ec t eid (dpi\<lparr>dp_disputer := d\<rparr>)) we \<and>
    blocked (putStakeFor E sc t (si\<lparr>st_agent := d\<rparr>)) ws \<and> blocked (sendTip E sc t (ti\<lparr>tip_from := d\<rparr>)) ws \<and>
    blocked (send E mc t (mi\<lparr>mi_from := d\<rparr>)) wm \<and> blocked (inbox E mc t (iq\<lparr>iq_recipient := d\<rparr>)) wm \<and>
    blocked (registerWebhook E mc t (hi\<lparr>wi_owner := d\<rparr>)) wm \<and>
    blocked (flagMessage E mc t mid (fi\<lparr>fi_flagger := d\<rparr>)) wm \<and>
    blocked (publishPost E bc t (bp\<lparr>bp_author := d\<rparr>)) wb \<and> blocked (subscribe E bc t (bs\<lparr>sb_subscriber := d\<rparr>)) wb \<and>
    blocked (tombstone E bc t bid (bt\<lparr>ti_author := d\<rparr>)) wb \<and> blocked (flagPost E bc t bid (bf\<lparr>fr_flagger := d\<rparr>)) wb \<and>
    blocked (queryRegistry E rc t (rq\<lparr>cq_requester := d\<rparr>)) wr"
proof -
  have "answers (answeredBefore (payCache wp) key (b_quote body))
      (pay E pc t t' lid key (body\<lparr>b_payment := Some (p\<lparr>p_from := d\<rparr>)\<rparr>)) wp"
    using pay_answers [OF assms(1), of "body\<lparr>b_payment := Some (p\<lparr>p_from := d\<rparr>)\<rparr>" "p\<lparr>p_from := d\<rparr>"] by simp
  note pays = this [unfolded answers_def]
  show ?thesis using assms
    by (intro conjI pays openEscrow_blocked deliver_blocked accept_blocked dispute_blocked stake_blocked mailroom_blocked
        board_blocked query_blocked) simp_all
qed

text \<open>
  The exception is the registry: a listing that is accepted from a provider is accepted all the
  same after the supervisor has killed that provider, and stands in the index; only the key of
  the provider is looked up, not its revocation.
\<close>

theorem killed_provider_still_publishes:
  assumes "publishListing E t i w = (Inr l, w1)"
  shows "\<exists>w2. publishListing E t i (snd (kill E now (l_provider i) w)) = (Inr l, w2) \<and>
    killed (l_provider i) w2 \<and> mapGet (listings w2) (l_id l) = Some l"
proof -
  let ?d = "l_provider i"
  obtain lid w0 where pub: "checkProvenance E t i w = (Inr (), w)" "listingIdFor E i w = (Inr lid, w0)" "l = listingOf lid i"
    by (rule publishListing_ok [OF assms])
  obtain e where k: "snd (kill E now ?d w) =
      w\<lparr>idn := (idn w)\<lparr>revokedDids := List.insert ?d (revokedDids (idn w))\<rparr>, led := led w @ [e]\<rparr>" (is "_ = ?w")
    by (cases rule: kill_out [of E now ?d w]) auto
  have prov: "checkProvenance E t i ?w = (Inr (), ?w)"
    using pub(1) by (simp add: checkProvenance_ok resolverOf_def)
  obtain n where lid: "listingIdFor E i ?w = (Inr lid, ?w\<lparr>regDrawn := n\<rparr>)"
  proof (cases rule: listingIdFor_ok [OF pub(2)])
    case (1 old)
    then show ?thesis using that [of "regDrawn w"] by (simp add: listingIdFor_def exec_simps)
  next
    case 2
    then show ?thesis using that [of "Suc (regDrawn w)"] by (simp add: listingIdFor_def newRegId_def exec_simps)
  qed
  have "publishListing E t i ?w = (Inr l, ?w\<lparr>regDrawn := n, listings := mapSet (l_id l) l (listings w)\<rparr>)"
    using prov lid pub(3) by (simp add: publishListing_def putListing_def exec_simps)
  then show ?thesis unfolding k by (simp add: killed_def)
qed

end
