(* ===== verification/Services.thy ===== *)
theory Services
  imports Composition
begin

text \<open>
  No handler of a service writes the registry: each is a \<open>serves\<close> step of the platform, so what a
  kill establishes survives any of them.
\<close>

section \<open>Payments, bonds, tips\<close>

lemma idn_pay: "frames idn (pay E cfg t0 t1 l k body)"
  unfolding pay_def settle_def validateQuote_def execute_def Let_def
  by (intro frames_rules frames_charge) simp_all

lemma idn_sumStakes: "frames idn (sumStakes E a rs)"
  by (induction E a rs rule: sumStakes.induct) (auto intro!: frames_rules simp del: ret_app)

lemma idn_onStakeChanged: "frames idn (onStakeChanged E cs now d a)"
  using frames_inReputation [of idn "setStake E cs now d a"]
  by (simp add: onStakeChanged_def frames_def keeps_def)

lemma idn_stake: "frames idn (putStakeFor E cfg now i)"
  unfolding putStakeFor_def bond_def parkOrRefuse_def newStakeId_def putStake_def totalBonded_def Let_def
  by (intro frames_rules idn_sumStakes idn_onStakeChanged) simp_all

lemma idn_tip: "frames idn (sendTip E cfg now i)"
  unfolding sendTip_def payTip_def parkOrRefuse_def newTipId_def Let_def
  by (intro frames_rules) simp_all

section \<open>Board, registry, mailroom\<close>

lemma idn_publishPost: "frames idn (publishPost E cfg now p)"
  unfolding publishPost_def appendLinked_def appendPost_def Let_def
  by (intro frames_rules) simp_all

lemma idn_queryRegistry: "frames idn (queryRegistry E cfg now q)"
  unfolding queryRegistry_def by (intro frames_rules) simp_all

lemma idn_publishListing: "frames idn (publishListing E now i)"
  unfolding publishListing_def putListing_def by (intro frames_rules) simp_all

lemma idn_subscribe: "frames idn (subscribe E bc t bs)"
  unfolding subscribe_def putSubscription_def Let_def by (intro frames_rules) simp_all

lemma idn_tombstone: "frames idn (tombstone E bc t x bs)"
  unfolding tombstone_def appendPost_def Let_def by (intro frames_rules) simp_all

lemma idn_flagPost: "frames idn (flagPost E bc t x bs)"
  unfolding flagPost_def Let_def by (intro frames_rules) simp_all

lemma idn_queryBoard: "frames idn (queryBoard E bc t x)"
  unfolding queryBoard_def Let_def by (intro frames_rules) simp_all

lemma idn_inbox: "frames idn (inbox E bc t x)"
  unfolding inbox_def Let_def by (intro frames_rules) simp_all

lemma idn_webhook: "frames idn (registerWebhook E bc t x)"
  unfolding registerWebhook_def putWebhook_def Let_def by (intro frames_rules) simp_all

lemma idn_flagMessage: "frames idn (flagMessage E bc t m x)"
  unfolding flagMessage_def settleFlag_def recordFlag_def Let_def by (intro frames_rules) simp_all

lemma idn_send: "frames idn (send E bc t x)"
  unfolding send_def deliverMessage_def recordHold_def Let_def by (intro frames_rules) (simp_all add: appendMessage_app)

section \<open>Escrow\<close>

lemma idn_openEscrow: "frames idn (openEscrow E cfg now i)"
  unfolding openEscrow_def lockFunds_def verifyContractSig_def parkOrDeny_def putEscrow_def Let_def
  by (intro frames_rules) simp_all

lemma idn_updates: "frames idn (updEscrow eid f)" "frames idn (updRuntime eid mid g)"
  unfolding updRuntime_def updEscrow_def by (intro frames_rules; simp)+

lemma idn_receipt: "frames idn (issueMilestoneReceipt E cfg now eid m oc)"
  unfolding issueMilestoneReceipt_def newReceiptId_def Let_def by (intro frames_rules idn_updates) simp_all

lemma idn_stakes: "frames idn (maybeReleaseStake E eid)" "frames idn (slashProviderStake E eid m)"
    "frames idn (releaseBond E eid)"
  unfolding maybeReleaseStake_def slashProviderStake_def releaseBond_def by (intro frames_rules idn_updates; simp)+

lemma idn_milestones: "frames idn (captureMilestone E cfg now eid m oc)" "frames idn (refundMilestone E cfg now eid m oc)"
  unfolding captureMilestone_def refundMilestone_def
  by (intro frames_rules idn_updates idn_stakes idn_receipt; simp)+

lemma idn_recompute: "frames idn (recomputeEscrowState eid)"
  unfolding recomputeEscrowState_def Let_def by (intro frames_rules idn_updates)

lemmas idn_parts = idn_updates idn_receipt idn_stakes idn_milestones idn_recompute

lemma idn_settleBond: "frames idn (settleBond E cfg now eid c d u)"
  unfolding settleBond_def Let_def by (intro frames_rules idn_parts; simp)

lemma idn_postBond: "frames idn (postBond E now eid c m i)"
  unfolding postBond_def Let_def by (intro frames_rules idn_parts; simp)

lemma idn_escalate: "frames idn (escalateDispute E now eid m j)"
  unfolding escalateDispute_def Let_def by (intro frames_rules idn_parts; simp)

lemma idn_frivolous: "frames idn (frivolousDispute E cfg now eid c m d)"
  unfolding frivolousDispute_def Let_def by (intro frames_rules idn_parts idn_settleBond; simp)

lemma idn_upheld: "frames idn (upheldDispute E cfg now eid c m)"
  unfolding upheldDispute_def Let_def by (intro frames_rules idn_parts idn_settleBond; simp)

lemma idn_remaining: "frames idn (refundRemainingPending E cfg now eid c x)"
  unfolding refundRemainingPending_def Let_def by (intro frames_rules idn_parts; simp)

lemma idn_settleDispute: "frames idn (settleDisputeEscalation E cfg now eid c esl u)"
  unfolding settleDisputeEscalation_def Let_def by (intro frames_rules idn_parts idn_settleBond idn_remaining; simp)

lemma idn_settleTimeout: "frames idn (settleTimeoutEscalation E cfg now eid c esl u)"
  unfolding settleTimeoutEscalation_def Let_def by (intro frames_rules idn_parts idn_remaining; simp)

lemmas idn_outcomes = idn_settleBond idn_postBond idn_escalate idn_frivolous idn_upheld idn_remaining
  idn_settleDispute idn_settleTimeout

lemma idn_deliver: "frames idn (deliver E cfg now eid i)"
  unfolding deliver_def Let_def by (intro frames_rules idn_parts idn_outcomes; simp)

lemma idn_accept: "frames idn (accept E cfg now eid i)"
  unfolding accept_def Let_def by (intro frames_rules idn_parts idn_outcomes; simp)

lemma idn_dispute: "frames idn (dispute E cfg now eid i)"
  unfolding dispute_def assertWithinDisputeWindow_def Let_def by (intro frames_rules idn_parts idn_outcomes; simp)

lemma idn_escalateTimeout: "frames idn (escalateTimeout E now eid c ms)"
  unfolding escalateTimeout_def Let_def by (intro frames_rules idn_parts; simp)

lemma idn_onTimeout: "frames idn (onTimeout E cfg now eid)"
  unfolding onTimeout_def Let_def by (intro frames_rules idn_parts idn_outcomes idn_escalateTimeout; simp)

lemma idn_resolveEscalation: "frames idn (resolveEscalation E cfg now eid i)"
  unfolding resolveEscalation_def Let_def by (intro frames_rules idn_parts idn_outcomes; simp)

section \<open>Steps\<close>

lemma service_step:
  assumes "frames idn m"
  shows "platform_step E w (snd (m w))"
proof -
  have "frames idn (bindE m (\<lambda>_. ret ()))" using assms by (intro frames_bindE frames_ret)
  from platform_step.serves [OF this, of E w] show ?thesis by (simp only: snd_bind_ret)
qed

lemmas service_steps =
  idn_pay [THEN service_step] idn_stake [THEN service_step] idn_tip [THEN service_step]
  idn_openEscrow [THEN service_step] idn_deliver [THEN service_step] idn_accept [THEN service_step]
  idn_dispute [THEN service_step] idn_onTimeout [THEN service_step] idn_resolveEscalation [THEN service_step]
  idn_send [THEN service_step] idn_inbox [THEN service_step] idn_webhook [THEN service_step]
  idn_flagMessage [THEN service_step] idn_publishPost [THEN service_step] idn_subscribe [THEN service_step]
  idn_tombstone [THEN service_step] idn_flagPost [THEN service_step] idn_queryBoard [THEN service_step]
  idn_publishListing [THEN service_step] idn_queryRegistry [THEN service_step]

end
