(* ===== verification/Boot.thy ===== *)
theory Boot
  imports Frames
begin

text \<open>
  The composition root, \<open>src/container.ts\<close>: the four signing identities of the platform are made from fresh
  key pairs and seeded into the registry, the modules start on empty stores, and the two ports that
  close a cycle between modules are bound after both ends exist. A key pair is what
  \<open>generateKeyPair\<close> returned, private key first.
\<close>

section \<open>Core signers\<close>

record core_identity =
  ci_did :: string
  ci_kid :: string
  ci_priv :: string
  ci_pub :: string

record core_signers =
  sg_reputation :: core_identity
  sg_registry :: core_identity
  sg_facilitator :: core_identity
  sg_mailroom :: core_identity

definition makeCoreSigner :: "ext \<Rightarrow> string \<times> string \<Rightarrow> core_identity" where
  "makeCoreSigner E kp =
     (let d = didFromPublicKey E (snd kp) RCore
      in \<lparr>ci_did = d, ci_kid = d @ ''#sign-1'', ci_priv = fst kp, ci_pub = snd kp\<rparr>)"

definition makeCoreSigners ::
    "ext \<Rightarrow> string \<times> string \<Rightarrow> string \<times> string \<Rightarrow> string \<times> string \<Rightarrow> string \<times> string \<Rightarrow> core_signers" where
  "makeCoreSigners E k1 k2 k3 k4 =
     \<lparr>sg_reputation = makeCoreSigner E k1, sg_registry = makeCoreSigner E k2,
      sg_facilitator = makeCoreSigner E k3, sg_mailroom = makeCoreSigner E k4\<rparr>"

text \<open>\<open>Object.values(coreSigners)\<close>.\<close>

definition signerValues :: "core_signers \<Rightarrow> core_identity list" where
  "signerValues cs = [sg_reputation cs, sg_registry cs, sg_facilitator cs, sg_mailroom cs]"

definition seedSigner :: "ext \<Rightarrow> core_identity \<Rightarrow> ('a auth_scheme, unit) exec" where
  "seedSigner E s =
     bindE (onIdentity (seedCoreIdentity E (ci_did s) (ci_did s) (ci_kid s) (ci_pub s) (ci_priv s))) (\<lambda>_. ret ())"

section \<open>The development faucet\<close>

text \<open>\<open>currency ? {amount, currency} : amount\<close>: an empty currency is as good as none.\<close>

definition faucet :: "ext \<Rightarrow> string \<Rightarrow> money \<Rightarrow> string option \<Rightarrow> (wallet_st, unit) exec" where
  "faucet E d m cur =
     credit E d (case cur of Some c \<Rightarrow> if c \<noteq> [] then \<lparr>amount = amount m, currency = c\<rparr> else m | None \<Rightarrow> m)"

lemma keeps_faucet: "keeps (wallet_ok E) (faucet E d m cur)"
  by (simp add: faucet_def keeps_credit)

section \<open>Lazily bound ports\<close>

type_synonym 'w usage_port = "int \<Rightarrow> string \<Rightarrow> ('w, spend_usage) exec"

record 'w approval_port =
  port_enqueue :: "int \<Rightarrow> string \<Rightarrow> policy_action \<Rightarrow> json \<Rightarrow> ('w, approval) exec"
  port_status :: "string \<Rightarrow> ('w, approval option) exec"
  port_consume :: "string \<Rightarrow> string \<Rightarrow> policy_action \<Rightarrow> ('w, approval) exec"

definition lazily :: "'p option \<Rightarrow> ('p \<Rightarrow> ('w, 'r) exec) \<Rightarrow> ('w, 'r) exec" where
  "lazily impl call = (case impl of None \<Rightarrow> throw JsError | Some p \<Rightarrow> call p)"

definition makeLazyUsage :: "'w usage_port option \<Rightarrow> 'w usage_port" where
  "makeLazyUsage impl = (\<lambda>now d. lazily impl (\<lambda>u. u now d))"

definition makeLazyApprovals :: "'w approval_port option \<Rightarrow> 'w approval_port" where
  "makeLazyApprovals impl =
     \<lparr>port_enqueue = (\<lambda>now agent act p. lazily impl (\<lambda>q. port_enqueue q now agent act p)),
      port_status = (\<lambda>i. lazily impl (\<lambda>q. port_status q i)),
      port_consume = (\<lambda>i agent act. lazily impl (\<lambda>q. port_consume q i agent act))\<rparr>"

text \<open>What the two modules provide: the wallet its usage, the governance plane its queue.\<close>

definition settlementUsage :: "ext \<Rightarrow> 'a core_scheme usage_port" where
  "settlementUsage E = (\<lambda>now d. inWallet (usage E now d))"

definition governanceApprovals :: "ext \<Rightarrow> 'a core_scheme approval_port" where
  "governanceApprovals E =
     \<lparr>port_enqueue = (\<lambda>now agent act p. inApprovals (enqueue E now agent act p)),
      port_status = (\<lambda>i. gets (\<lambda>w. status_of i (apr w))),
      port_consume = (\<lambda>i agent act. inApprovals (consume E i agent act))\<rparr>"

section \<open>The container\<close>

text \<open>The variables \<open>impl\<close> of the two lazy ports are state: unset until the port is bound.\<close>

record container =
  c_state :: core
  c_signers :: core_signers
  c_usageImpl :: "core usage_port option"
  c_approvalsImpl :: "core approval_port option"

text \<open>The port objects that the modules are given read \<open>impl\<close> when they are called.\<close>

definition usagePort :: "container \<Rightarrow> core usage_port" where
  "usagePort c = makeLazyUsage (c_usageImpl c)"

definition approvalsPort :: "container \<Rightarrow> core approval_port" where
  "approvalsPort c = makeLazyApprovals (c_approvalsImpl c)"

definition bindUsage :: "core usage_port \<Rightarrow> container \<Rightarrow> container" where
  "bindUsage impl c = c\<lparr>c_usageImpl := Some impl\<rparr>"

definition bindApprovals :: "core approval_port \<Rightarrow> container \<Rightarrow> container" where
  "bindApprovals impl c = c\<lparr>c_approvalsImpl := Some impl\<rparr>"

text \<open>Up to the policy module: the signers are seeded, the two ports exist and are unbound.\<close>

definition seededContainer ::
    "ext \<Rightarrow> string \<times> string \<Rightarrow> string \<times> string \<Rightarrow> string \<times> string \<Rightarrow> string \<times> string \<Rightarrow> container" where
  "seededContainer E k1 k2 k3 k4 =
     (let cs = makeCoreSigners E k1 k2 k3 k4;
          w = snd (forEach (signerValues cs) (seedSigner E) emptyCore)
      in \<lparr>c_state = w, c_signers = cs, c_usageImpl = None, c_approvalsImpl = None\<rparr>)"

text \<open>Settlement is built and its usage bound, then governance and its queue.\<close>

definition withSettlement :: "ext \<Rightarrow> container \<Rightarrow> container" where
  "withSettlement E c = bindUsage (settlementUsage E) c"

definition withGovernance :: "ext \<Rightarrow> container \<Rightarrow> container" where
  "withGovernance E c = bindApprovals (governanceApprovals E) c"

definition buildContainer ::
    "ext \<Rightarrow> string \<times> string \<Rightarrow> string \<times> string \<Rightarrow> string \<times> string \<Rightarrow> string \<times> string \<Rightarrow> container" where
  "buildContainer E k1 k2 k3 k4 = withGovernance E (withSettlement E (seededContainer E k1 k2 k3 k4))"

section \<open>Lemmas\<close>

lemma lazily_bound [simp]: "lazily (Some p) call = call p"
  by (simp add: lazily_def)

lemma lazily_unbound: "lazily None call w = (Inl JsError, w)"
  by (simp add: lazily_def)

lemma makeLazyUsage_bound [simp]: "makeLazyUsage (Some u) = u"
  by (simp add: makeLazyUsage_def)

lemma makeLazyApprovals_bound [simp]: "makeLazyApprovals (Some q) = q"
  by (simp add: makeLazyApprovals_def)

definition seeded :: "ext \<Rightarrow> core_identity \<Rightarrow> identity_st \<Rightarrow> bool" where
  "seeded E s st \<longleftrightarrow>
     publicKeyFor (resolverOf E st) (ci_did s) None = Some (b64uBytes E (b64uOf E (ci_pub s))) \<and>
     mapGet (keystore st) (ci_kid s) = Some (ci_priv s)"

lemma seedSigner_run:
  "seedSigner E s w = (Inr (), w\<lparr>idn := snd (seedCoreIdentity E (ci_did s) (ci_did s) (ci_kid s) (ci_pub s) (ci_priv s) (idn w))\<rparr>)"
  by (simp add: seedSigner_def onIdentity_app seedCoreIdentity_def putPassport_def registerKey_def exec_simps Let_def)

lemma seedSigner_seeds: "seeded E s (idn (snd (seedSigner E s w)))"
  by (simp add: seedSigner_run seeded_def seedCoreIdentity_def putPassport_def registerKey_def exec_simps Let_def
      resolverOf_def passportSigningKey_def)

lemma seedSigner_keeps:
  assumes "seeded E s (idn w)" "ci_did s \<noteq> ci_did s'" "ci_kid s \<noteq> ci_kid s'"
  shows "seeded E s (idn (snd (seedSigner E s' w)))"
  using assms by (simp add: seedSigner_run seeded_def seedCoreIdentity_def putPassport_def registerKey_def exec_simps Let_def
      resolverOf_def)

lemma forEach_seedSigner:
  assumes "distinct (map ci_did ss)" "distinct (map ci_kid ss)"
    and "\<And>s'. s' \<in> set ss \<Longrightarrow> s' \<noteq> s \<Longrightarrow> ci_did s \<noteq> ci_did s' \<and> ci_kid s \<noteq> ci_kid s'"
    and "s \<in> set ss \<or> seeded E s (idn w)"
  shows "seeded E s (idn (snd (forEach ss (seedSigner E) w)))"
  using assms
proof (induction ss arbitrary: w)
  case (Cons x xs)
  have run: "snd (forEach (x # xs) (seedSigner E) w) = snd (forEach xs (seedSigner E) (snd (seedSigner E x w)))"
    by (simp add: bindE_app seedSigner_run)
  have "s \<in> set xs \<or> seeded E s (idn (snd (seedSigner E x w)))"
  proof (cases "x = s")
    case True
    then show ?thesis by (simp add: seedSigner_seeds)
  next
    case False
    then show ?thesis using seedSigner_keeps [of E s w x] Cons.prems(3) [of x] Cons.prems(4) by auto
  qed
  then show ?case unfolding run using Cons.prems by (intro Cons.IH) auto
qed simp

lemma seeding_frames:
  "(\<And>w s. f (w\<lparr>idn := s\<rparr>) = f w) \<Longrightarrow> frames f (forEach ss (seedSigner E))"
  unfolding seedSigner_def onIdentity_def by (intro frames_rules frames_zoom)

lemma seeding_revokes: "frames (\<lambda>w. revokedDids (idn w)) (forEach ss (seedSigner E))"
proof (intro frames_forEach)
  fix s
  show "frames (\<lambda>w. revokedDids (idn w)) (seedSigner E s)"
    by (simp add: frames_def keeps_def seedSigner_run seedCoreIdentity_def putPassport_def registerKey_def exec_simps Let_def)
qed

lemmas build_defs = buildContainer_def withGovernance_def withSettlement_def bindApprovals_def bindUsage_def seededContainer_def

lemma buildContainer_sel:
  "c_signers (buildContainer E k1 k2 k3 k4) = makeCoreSigners E k1 k2 k3 k4"
  "c_state (buildContainer E k1 k2 k3 k4) =
     snd (forEach (signerValues (makeCoreSigners E k1 k2 k3 k4)) (seedSigner E) emptyCore)"
  by (simp_all add: build_defs Let_def)

text \<open>The ports at the three stages of the wiring.\<close>

definition portsThrow :: "container \<Rightarrow> bool" where
  "portsThrow c \<longleftrightarrow> (\<forall>v now agent act p i.
     port_enqueue (approvalsPort c) now agent act p v = (Inl JsError, v) \<and>
     port_status (approvalsPort c) i v = (Inl JsError, v) \<and>
     port_consume (approvalsPort c) i agent act v = (Inl JsError, v))"

lemma wiring:
  "usagePort (seededContainer E k1 k2 k3 k4) now d v = (Inl JsError, v)" "portsThrow (seededContainer E k1 k2 k3 k4)"
  "usagePort (withSettlement E (seededContainer E k1 k2 k3 k4)) = settlementUsage E"
  "portsThrow (withSettlement E (seededContainer E k1 k2 k3 k4))"
  "usagePort (buildContainer E k1 k2 k3 k4) = settlementUsage E"
  "approvalsPort (buildContainer E k1 k2 k3 k4) = governanceApprovals E"
  by (simp_all add: build_defs Let_def usagePort_def approvalsPort_def portsThrow_def makeLazyApprovals_def
      makeLazyUsage_def lazily_unbound)

text \<open>
  An object without time fields, with the signature of a seeded signer appended, passes the check of
  signed objects.
\<close>

definition signedBy :: "ext \<Rightarrow> string \<Rightarrow> string \<Rightarrow> (string \<times> json) list \<Rightarrow> (string \<times> json) list" where
  "signedBy E sk kid obj = obj @ [(''sig'', JStr (signDetached E (JObj (stripForSigning obj [''sig''])) sk kid))]"

lemma signedBy_passes:
  assumes "jws_lib_ok E sk pk" "publicKeyFor (resolverOf E (idn w)) d None = Some pk"
    "\<not> isRevokedAt (resolverOf E (idn w)) d" "\<And>k. k \<in> {''sig'', ''iat'', ''exp''} \<Longrightarrow> mapGet obj k = None"
  shows "verifyAs E now skew (signedBy E sk kid obj) ((sigOpts d)\<lparr>skipNonce := True\<rparr>) w = (Inr (), w)"
proof -
  let ?o = "signedBy E sk kid obj" and ?sg = "signDetached E (JObj (stripForSigning obj [''sig''])) sk kid"
  have f: "field ?o ''sig'' = Some ?sg" "field ?o ''iat'' = None" "field ?o ''exp'' = None"
    using assms(4) by (simp_all add: signedBy_def map_add_def)
  have "stripForSigning ?o [''sig''] = stripForSigning obj [''sig'']" by (simp add: signedBy_def stripForSigning_def)
  then have v: "verifyDetached E (JObj (stripForSigning ?o [''sig''])) ?sg pk"
    using verify_signDetached [OF assms(1)] by simp
  have ne: "?sg \<noteq> []" by (simp add: signDetached_def Let_def)
  show ?thesis using assms(2,3) f v ne
    by (simp add: verifyAs_def zoom_app verifySignedObject_def sigOpts_def checkIat_def checkExp_def nonEmpty_def
        checkSigner_def exec_simps)
qed

section \<open>Properties\<close>

text \<open>
  Claim C37. The platform boots ready, when the four key pairs give four different DIDs: the core
  signers resolve in the registry to the public keys they were made with, none is revoked, the
  keystore holds their private keys under their key ids, and an object that has neither time fields nor a signature
  yet and that one of them signs with that key passes the check of signed objects on the booted state, provided that
  the signature library accepts the signatures of that key pair; the stores satisfy their invariants.
  The two lazily bound ports throw on every call and change nothing until they are bound: the usage
  port before settlement is built, the approval port before governance is; after that they are the
  services themselves.
\<close>

theorem boot_signers_ready:
  assumes "lib_ok E" "s \<in> set (signerValues (c_signers c))" "c = buildContainer E k1 k2 k3 k4"
    and "distinct (map ci_did (signerValues (c_signers c)))" "jws_lib_ok E (ci_priv s) (ci_pub s)"
    and "mapGet obj ''sig'' = None" "mapGet obj ''iat'' = None" "mapGet obj ''exp'' = None"
  shows "publicKeyFor (resolverOf E (idn (c_state c))) (ci_did s) None = Some (ci_pub s) \<and>
    \<not> isRevokedAt (resolverOf E (idn (c_state c))) (ci_did s) \<and>
    mapGet (keystore (idn (c_state c))) (ci_kid s) = Some (ci_priv s) \<and>
    verifyAs E now skew (signedBy E (the (mapGet (keystore (idn (c_state c))) (ci_kid s))) (ci_kid s) obj)
      ((sigOpts (ci_did s))\<lparr>skipNonce := True\<rparr>) (c_state c) = (Inr (), c_state c) \<and>
    core_ok E (c_state c) \<and>
    usagePort (seededContainer E k1 k2 k3 k4) t d v = (Inl JsError, v) \<and> portsThrow (seededContainer E k1 k2 k3 k4) \<and>
    usagePort (withSettlement E (seededContainer E k1 k2 k3 k4)) = settlementUsage E \<and>
    portsThrow (withSettlement E (seededContainer E k1 k2 k3 k4)) \<and>
    usagePort c = settlementUsage E \<and> approvalsPort c = governanceApprovals E"
proof -
  let ?ss = "signerValues (c_signers c)"
  have st: "c_state c = snd (forEach ?ss (seedSigner E) emptyCore)"
    by (simp add: assms(3) buildContainer_sel)
  have kid: "\<And>x. x \<in> set ?ss \<Longrightarrow> ci_kid x = ci_did x @ ''#sign-1''"
    by (auto simp: assms(3) buildContainer_sel Let_def signerValues_def makeCoreSigners_def makeCoreSigner_def)
  have "map ci_kid ?ss = map (\<lambda>d. d @ ''#sign-1'') (map ci_did ?ss)" using kid by simp
  then have "distinct (map ci_kid ?ss)" using assms(4) by (simp add: distinct_map inj_on_def)
  moreover have "ci_did s \<noteq> ci_did x \<and> ci_kid s \<noteq> ci_kid x" if "x \<in> set ?ss" "x \<noteq> s" for x
    using that assms(2,4) kid by (auto simp: distinct_map inj_on_def)
  ultimately have "seeded E s (idn (c_state c))"
    unfolding st using assms(2,4) by (intro forEach_seedSigner) auto
  then have ready: "publicKeyFor (resolverOf E (idn (c_state c))) (ci_did s) None = Some (ci_pub s)"
      "mapGet (keystore (idn (c_state c))) (ci_kid s) = Some (ci_priv s)"
    using assms(5) by (simp_all add: seeded_def jws_lib_ok_def)
  have "revokedDids (idn (c_state c)) = []"
    unfolding st by (subst frames_eq [OF seeding_revokes]) (simp add: emptyCore_def)
  then have live: "\<not> isRevokedAt (resolverOf E (idn (c_state c))) (ci_did s)" by (simp add: resolverOf_def)
  have "(wal (c_state c), apr (c_state c), led (c_state c), rep (c_state c), non (c_state c)) =
      (wal emptyCore, apr emptyCore, led emptyCore, rep emptyCore, non emptyCore)"
    unfolding st by (rule frames_eq [OF seeding_frames]) simp
  then have "core_ok E (c_state c)"
    using wallet_ok_empty [OF assms(1)] emptyApprovals_ok [of E] emptyReputation_ok assms(1)
    by (simp add: core_ok_def emptyCore_def verifyChain_def lib_ok_def)
  moreover have "verifyAs E now skew (signedBy E (ci_priv s) (ci_kid s) obj)
      ((sigOpts (ci_did s))\<lparr>skipNonce := True\<rparr>) (c_state c) = (Inr (), c_state c)"
    by (rule signedBy_passes [OF assms(5) ready(1) live]) (use assms(6-8) in auto)
  ultimately show ?thesis using ready live wiring by (simp add: assms(3))
qed

lemma boot_signers_ready_witness:
  "\<exists>c s. c = buildContainer demo (''K1'', ''K1'') (''K2'', ''K2'') (''K3'', ''K3'') (''K4'', ''K4'') \<and>
     s = sg_registry (c_signers c) \<and> publicKeyFor (resolverOf demo (idn (c_state c))) (ci_did s) None = Some ''K2'' \<and>
     verifyAs demo 7 0 (signedBy demo ''K2'' (ci_kid s) [(''quote_id'', JStr ''q'')])
       ((sigOpts (ci_did s))\<lparr>skipNonce := True\<rparr>) (c_state c) = (Inr (), c_state c)"
proof -
  let ?c = "buildContainer demo (''K1'', ''K1'') (''K2'', ''K2'') (''K3'', ''K3'') (''K4'', ''K4'')"
  let ?s = "sg_registry (c_signers ?c)" and ?o = "[(''quote_id'', JStr ''q'')]"
  have m: "?s \<in> set (signerValues (c_signers ?c))" by (simp add: signerValues_def)
  have d: "distinct (map ci_did (signerValues (c_signers ?c)))" by code_simp
  have k: "ci_priv ?s = ''K2''" "ci_pub ?s = ''K2''"
    by (simp_all add: buildContainer_sel makeCoreSigners_def makeCoreSigner_def Let_def)
  have o: "mapGet ?o ''sig'' = None" "mapGet ?o ''iat'' = None" "mapGet ?o ''exp'' = None" by simp_all
  have j: "jws_lib_ok demo (ci_priv ?s) (ci_pub ?s)" using demo_jws by (simp add: k)
  note ready = boot_signers_ready [OF demo_lib_ok m refl d j o, where now = 7 and skew = 0]
  have key: "mapGet (keystore (idn (c_state ?c))) (ci_kid ?s) = Some ''K2''"
    "publicKeyFor (resolverOf demo (idn (c_state ?c))) (ci_did ?s) None = Some ''K2''"
    using ready unfolding k by blast+
  have "verifyAs demo 7 0 (signedBy demo ''K2'' (ci_kid ?s) ?o) ((sigOpts (ci_did ?s))\<lparr>skipNonce := True\<rparr>) (c_state ?c) =
      (Inr (), c_state ?c)"
    using ready unfolding key option.sel by blast
  then show ?thesis using key(2) by blast
qed

end
