(* ===== verification/Web.thy ===== *)
theory Web
  imports Platform Facilitator_Spec Escrow_Spec Stake Mailroom Board Registry
begin

text \<open>
  The HTTP surface: the error boundary of \<open>src/shared/http/errors.ts\<close> and the route plugins
  (\<open>routes.ts\<close> of the modules), each a service call whose outcome becomes a status and a body. Requests
  arrive parsed by their schemas. The base64 copies of a body in the x402 headers and the texts of
  errors are not modelled.
\<close>

section \<open>Replies\<close>

fun errorCode :: "app_error \<Rightarrow> string" where
  "errorCode ValidationError = ''validation_error''"
| "errorCode AuthError = ''auth_error''"
| "errorCode ForbiddenError = ''forbidden''"
| "errorCode NotFoundError = ''not_found''"
| "errorCode ConflictError = ''conflict''"
| "errorCode PolicyViolationError = ''policy_violation''"
| "errorCode PaymentRequiredError = ''payment_required''"
| "errorCode ReplayError = ''replay_detected''"
| "errorCode RailError = ''rail_error''"
| "errorCode JsError = ''internal_error''"

record error_body =
  eb_status :: nat
  eb_code :: string

datatype 'b http_reply = Reply nat 'b | ErrorReply nat error_body

definition toBody :: "app_error \<Rightarrow> error_body" where
  "toBody e = \<lparr>eb_status = httpStatus e, eb_code = errorCode e\<rparr>"

text \<open>A plain \<open>Error\<close> carries no status and is answered 500.\<close>

definition errorHandler :: "app_error \<Rightarrow> 'b http_reply" where
  "errorHandler e = ErrorReply (httpStatus e) (toBody e)"

definition serve :: "('s, 'r) exec \<Rightarrow> ('r \<Rightarrow> 'b http_reply) \<Rightarrow> 's \<Rightarrow> 'b http_reply \<times> 's" where
  "serve m render w = (case m w of (Inl e, w') \<Rightarrow> (errorHandler e, w') | (Inr x, w') \<Rightarrow> (render x, w'))"

record parked_body =
  pk_approval :: string
  pk_threshold :: money
  pk_reasons :: "string list"

section \<open>Settlement\<close>

datatype pay_response = RequirementsBody requirements | PayParkedBody parked_body | ReceiptBody receipt

fun sendPay :: "pay_outcome \<Rightarrow> pay_response http_reply" where
  "sendPay (Requirements r) = Reply 402 (RequirementsBody r)"
| "sendPay (AwaitsApproval i threshold rs) =
     Reply 402 (PayParkedBody \<lparr>pk_approval = i, pk_threshold = threshold, pk_reasons = rs\<rparr>)"
| "sendPay (GotReceipt r) = Reply 200 (ReceiptBody r)"

definition payRoute ::
    "ext \<Rightarrow> fac_cfg \<Rightarrow> int \<Rightarrow> int \<Rightarrow> string \<Rightarrow> string option \<Rightarrow> pay_body \<Rightarrow> 'a settle_world_scheme \<Rightarrow>
     pay_response http_reply \<times> 'a settle_world_scheme" where
  "payRoute E cfg t0 t1 listingId key body = serve (pay E cfg t0 t1 listingId key body) sendPay"

record stake_response =
  sp_id :: string
  sp_did :: string
  sp_amount :: money
  sp_total :: money
  sp_state :: stake_state

record tip_response =
  tp_id :: string
  tp_from :: string
  tp_to :: string
  tp_amount :: money
  tp_settled :: string

datatype 'b or_parked = DoneBody 'b | ParkedBody parked_body

fun sendStake :: "stake_outcome \<Rightarrow> stake_response or_parked http_reply" where
  "sendStake (StakeParked i threshold rs) =
     Reply 402 (ParkedBody \<lparr>pk_approval = i, pk_threshold = threshold, pk_reasons = rs\<rparr>)"
| "sendStake (Staked row bonded) =
     Reply 200 (DoneBody \<lparr>sp_id = stakeId row, sp_did = sk_did row,
       sp_amount = \<lparr>amount = sk_amount row, currency = sk_currency row\<rparr>, sp_total = bonded,
       sp_state = sk_state row\<rparr>)"

fun sendTipReply :: "tip_outcome \<Rightarrow> tip_response or_parked http_reply" where
  "sendTipReply (TipParked i threshold rs) =
     Reply 402 (ParkedBody \<lparr>pk_approval = i, pk_threshold = threshold, pk_reasons = rs\<rparr>)"
| "sendTipReply (Tipped i f t m s) =
     Reply 200 (DoneBody \<lparr>tp_id = i, tp_from = f, tp_to = t, tp_amount = m, tp_settled = s\<rparr>)"

definition stakeRoute :: "ext \<Rightarrow> stake_cfg \<Rightarrow> int \<Rightarrow> stake_input \<Rightarrow> 'a stake_world_scheme \<Rightarrow>
    stake_response or_parked http_reply \<times> 'a stake_world_scheme" where
  "stakeRoute E cfg now i = serve (putStakeFor E cfg now i) sendStake"

definition tipRoute :: "ext \<Rightarrow> stake_cfg \<Rightarrow> int \<Rightarrow> tip_input \<Rightarrow> 'a stake_world_scheme \<Rightarrow>
    tip_response or_parked http_reply \<times> 'a stake_world_scheme" where
  "tipRoute E cfg now i = serve (sendTip E cfg now i) sendTipReply"

fun sendMutation :: "escrow_mutation \<Rightarrow> public_escrow or_parked http_reply" where
  "sendMutation (EscrowParked i threshold rs) =
     Reply 402 (ParkedBody \<lparr>pk_approval = i, pk_threshold = threshold, pk_reasons = rs\<rparr>)"
| "sendMutation (EscrowIs r) = Reply 200 (DoneBody r)"

datatype escrow_request =
    PostEscrow open_input
  | PostDeliver string deliver_input
  | PostAccept string accept_input
  | PostDispute string dispute_input
  | PostResolve string resolve_input

fun escrowRoute :: "ext \<Rightarrow> esc_cfg \<Rightarrow> int \<Rightarrow> escrow_request \<Rightarrow> 'a escrow_world_scheme \<Rightarrow>
    public_escrow or_parked http_reply \<times> 'a escrow_world_scheme" where
  "escrowRoute E cfg now (PostEscrow i) = serve (openEscrow E cfg now i) sendMutation"
| "escrowRoute E cfg now (PostDeliver eid i) = serve (deliver E cfg now eid i) sendMutation"
| "escrowRoute E cfg now (PostAccept eid i) = serve (accept E cfg now eid i) sendMutation"
| "escrowRoute E cfg now (PostDispute eid i) = serve (dispute E cfg now eid i) sendMutation"
| "escrowRoute E cfg now (PostResolve eid i) = serve (resolveEscalation E cfg now eid i) sendMutation"

section \<open>Identity\<close>

datatype identity_request =
    PostRegister passport_input
  | GetIdentity string
  | PostRotate string rotate_input
  | PostRevoke string "(string \<times> json) list"

datatype identity_response =
    RegisteredBody string string kyc_level
  | PassportBody passport
  | RotatedBody string string string
  | RevokedBody string

text \<open>\<open>active ? active.id : req.body.new_key.id\<close>.\<close>

definition activeKeyId :: "passport \<Rightarrow> rotate_input \<Rightarrow> string" where
  "activeKeyId p b = (case keys p of [] \<Rightarrow> key_id (new_key b) | k # ks \<Rightarrow> key_id (last (k # ks)))"

fun identityRoute :: "ext \<Rightarrow> int \<Rightarrow> int \<Rightarrow> identity_request \<Rightarrow> 'a auth_scheme \<Rightarrow>
    identity_response http_reply \<times> 'a auth_scheme" where
  "identityRoute E now skew (PostRegister i) =
     serve (register E now skew i) (\<lambda>p. Reply 200 (RegisteredBody (did p) (controller p) (kyc_level p)))"
| "identityRoute E now skew (GetIdentity d) = serve (resolvePassport d) (\<lambda>p. Reply 200 (PassportBody p))"
| "identityRoute E now skew (PostRotate d b) =
     serve (rotate E now skew d b) (\<lambda>(p, old). Reply 200 (RotatedBody (did p) (activeKeyId p b) old))"
| "identityRoute E now skew (PostRevoke d body) =
     serve (revoke E now skew d body) (\<lambda>_. Reply 200 (RevokedBody d))"

section \<open>Mailroom, board, registry\<close>

datatype mail_request =
    PostSend send_input
  | GetInbox inbox_query
  | PostWebhook webhook_input
  | PostMailFlag string flag_input

datatype mail_reply =
    SentBody send_response
  | InboxBody inbox_response
  | WebhookBody webhook_record
  | MailFlagBody flag_outcome

fun mailRoute :: "ext \<Rightarrow> mail_cfg \<Rightarrow> int \<Rightarrow> mail_request \<Rightarrow> 'a mail_world_scheme \<Rightarrow>
    mail_reply http_reply \<times> 'a mail_world_scheme" where
  "mailRoute E cfg now (PostSend i) = serve (send E cfg now i) (\<lambda>r. Reply 200 (SentBody r))"
| "mailRoute E cfg now (GetInbox q) = serve (inbox E cfg now q) (\<lambda>r. Reply 200 (InboxBody r))"
| "mailRoute E cfg now (PostWebhook i) = serve (registerWebhook E cfg now i) (\<lambda>r. Reply 200 (WebhookBody r))"
| "mailRoute E cfg now (PostMailFlag i b) = serve (flagMessage E cfg now i b) (\<lambda>r. Reply 200 (MailFlagBody r))"

record post_response =
  po_id :: string
  po_seq :: nat
  po_prev :: string
  po_hash :: string
  po_root :: string

definition postReply :: "board_post \<times> string \<Rightarrow> post_response" where
  "postReply r = (case r of (p, mroot) \<Rightarrow>
     \<lparr>po_id = bp_id p, po_seq = bp_seq p, po_prev = bp_prev p, po_hash = bp_hash p, po_root = mroot\<rparr>)"

datatype board_request =
    PostPost board_post
  | GetPosts board_query
  | GetAnchor
  | PostSubscribe subscribe_input
  | PostTombstone string tombstone_input
  | PostBoardFlag string flag_request

datatype board_reply =
    PostBody post_response
  | MatchesBody "ranked_post list" "nat option"
  | AnchorBody string nat
  | SubscribedBody string string "string list"
  | BoardFlagBody flag_result

fun boardRoute :: "ext \<Rightarrow> board_cfg \<Rightarrow> int \<Rightarrow> board_request \<Rightarrow> 'a board_world_scheme \<Rightarrow>
    board_reply http_reply \<times> 'a board_world_scheme" where
  "boardRoute E cfg now (PostPost p) = serve (publishPost E cfg now p) (\<lambda>r. Reply 200 (PostBody (postReply r)))"
| "boardRoute E cfg now (GetPosts q) = serve (queryBoard E cfg now q) (\<lambda>(ms, c). Reply 200 (MatchesBody ms c))"
| "boardRoute E cfg now GetAnchor = serve (gets (boardRoot E)) (\<lambda>(mroot, n). Reply 200 (AnchorBody mroot n))"
| "boardRoute E cfg now (PostSubscribe i) =
     serve (subscribe E cfg now i)
       (\<lambda>s. Reply 200 (SubscribedBody (subscription_id s) (su_subscriber s) (su_topics s)))"
| "boardRoute E cfg now (PostTombstone i b) =
     serve (tombstone E cfg now i b) (\<lambda>r. Reply 200 (PostBody (postReply r)))"
| "boardRoute E cfg now (PostBoardFlag i b) = serve (flagPost E cfg now i b) (\<lambda>r. Reply 200 (BoardFlagBody r))"

datatype registry_request =
    PostListing publish_input
  | GetListing string
  | PostQuery capability_query
  | PostDryRun string

datatype registry_reply =
    ListedBody string string listing_status
  | ListingBody listing
  | QueryBody string "ranked_match list"
  | DryRunBody signed_dry_run

fun registryRoute :: "ext \<Rightarrow> reg_cfg \<Rightarrow> int \<Rightarrow> registry_request \<Rightarrow> 'a reg_world_scheme \<Rightarrow>
    registry_reply http_reply \<times> 'a reg_world_scheme" where
  "registryRoute E cfg now (PostListing i) =
     serve (publishListing E now i) (\<lambda>l. Reply 200 (ListedBody (l_id l) (l_version l) (l_status l)))"
| "registryRoute E cfg now (GetListing i) = serve (getListing i) (\<lambda>l. Reply 200 (ListingBody l))"
| "registryRoute E cfg now (PostQuery q) =
     serve (queryRegistry E cfg now q) (\<lambda>(i, ms). Reply 200 (QueryBody i ms))"
| "registryRoute E cfg now (PostDryRun i) = serve (dryRun E (regSigner cfg) now i) (\<lambda>r. Reply 200 (DryRunBody r))"

datatype reputation_request =
    GetSnapshotOf string
  | GetRawOf string

datatype reputation_reply =
    SnapshotBody snapshot
  | MetricsBody metrics

text \<open>A read of the snapshot may issue a new one, a read of the metrics changes nothing.\<close>

fun reputationRoute :: "ext \<Rightarrow> core_signer \<Rightarrow> int \<Rightarrow> reputation_request \<Rightarrow> 'a core_scheme \<Rightarrow>
    reputation_reply http_reply \<times> 'a core_scheme" where
  "reputationRoute E cs now (GetSnapshotOf d) =
     serve (bindE (inReputation (getSnapshot E cs now d)) (\<lambda>snap.
            case snap of None \<Rightarrow> throw NotFoundError | Some s \<Rightarrow> ret s))
       (\<lambda>s. Reply 200 (SnapshotBody s))"
| "reputationRoute E cs now (GetRawOf d) =
     serve (bindE (gets (\<lambda>w. getRaw d (rep w))) (\<lambda>m.
            case m of None \<Rightarrow> throw NotFoundError | Some x \<Rightarrow> ret x))
       (\<lambda>x. Reply 200 (MetricsBody x))"

section \<open>The whole surface\<close>

text \<open>\<open>GET /health\<close>.\<close>

definition health :: "ext \<Rightarrow> int \<Rightarrow> 'a core_scheme \<Rightarrow> string \<times> bool \<times> string" where
  "health E now w = (''ok'', verifyChain E (led w), isoOf E now)"

section \<open>What an answer says of the run\<close>

definition returns :: "('s, 'r) exec \<Rightarrow> ('r \<Rightarrow> bool) \<Rightarrow> bool" where
  "returns m Q \<longleftrightarrow> (\<forall>w x w'. m w = (Inr x, w') \<longrightarrow> Q x)"

lemma returns_ret: "Q x \<Longrightarrow> returns (ret x) Q"
  by (simp add: returns_def)

lemma returns_bindE: "(\<And>x. returns (k x) Q) \<Longrightarrow> returns (bindE m k) Q"
  unfolding returns_def by (meson bindE_InrE)

lemma bond_returns: "returns (bond E cfg now i) (\<lambda>x. \<exists>row t. x = Staked row t)"
  unfolding bond_def Let_def by (intro returns_bindE returns_ret) auto

lemma payTip_returns: "returns (payTip E now i) (\<lambda>x. \<exists>a b c d e. x = Tipped a b c d e)"
  unfolding payTip_def by (intro returns_bindE returns_ret) auto

lemma lockFunds_returns: "returns (lockFunds E now c) (\<lambda>x. \<exists>r. x = EscrowIs r)"
  unfolding lockFunds_def toPublic_def by (intro returns_bindE returns_ret) auto

text \<open>
  A handler that parks: an answer outside \<open>Q\<close> means that the run touched nothing \<open>g\<close> observes. The calls
  verify the signature, ask the signer, and then either park or go on; going on answers within \<open>Q\<close>.
\<close>

definition parks :: "('s \<Rightarrow> 'v) \<Rightarrow> ('r \<Rightarrow> bool) \<Rightarrow> ('s, 'r) exec \<Rightarrow> bool" where
  "parks g Q m \<longleftrightarrow> (\<forall>w x w'. m w = (Inr x, w') \<longrightarrow> Q x \<or> g w' = g w)"

named_theorems parks_rules \<open>rules that take a parking handler apart\<close>

lemma parksD: "parks g Q m \<Longrightarrow> m w = (Inr x, w') \<Longrightarrow> \<not> Q x \<Longrightarrow> g w' = g w"
  unfolding parks_def by blast

lemma parks_frames: "frames g m \<Longrightarrow> parks g Q m"
  unfolding parks_def by (meson frames_out)

lemma parks_returns: "returns m Q \<Longrightarrow> parks g Q m"
  unfolding parks_def returns_def by blast

lemma parks_bindE [parks_rules]:
  assumes "frames g m" "\<And>x. parks g Q (k x)"
  shows "parks g Q (bindE m k)"
  unfolding parks_def
proof (intro allI impI)
  fix w x w'
  assume "bindE m k w = (Inr x, w')"
  then obtain y w1 where "m w = (Inr y, w1)" "k y w1 = (Inr x, w')" by (rule bindE_InrE)
  then show "Q x \<or> g w' = g w" using assms(2) frames_out [OF assms(1)] unfolding parks_def by metis
qed

lemma parks_signed [parks_rules]:
  "(\<And>s. parks g Q (m s)) \<Longrightarrow> (\<And>d. parks g Q (k d)) \<Longrightarrow> parks g Q (case x of Signed s \<Rightarrow> m s | Refused d \<Rightarrow> k d)"
  by (simp split: sign_result.split)

lemma putStakeFor_parks:
  "parks (\<lambda>w. (wal w, led w)) (\<lambda>x. \<exists>row t. x = Staked row t) (putStakeFor E cfg now i)"
  unfolding putStakeFor_def parkOrRefuse_def
  by (intro parks_rules frames_rules parks_returns [OF bond_returns] parks_frames) simp_all

lemma sendTip_parks:
  "parks (\<lambda>w. (wal w, led w)) (\<lambda>x. \<exists>a b c d e. x = Tipped a b c d e) (sendTip E cfg now i)"
  unfolding sendTip_def parkOrRefuse_def
  by (intro parks_rules frames_rules parks_returns [OF payTip_returns] parks_frames) simp_all

lemma openEscrow_parks:
  "parks (\<lambda>w. (wal w, led w, escrows w)) (\<lambda>x. \<exists>r. x = EscrowIs r) (openEscrow E cfg now i)"
  unfolding openEscrow_def Let_def verifyContractSig_def parkOrDeny_def
  by (intro parks_rules frames_rules parks_returns [OF lockFunds_returns] parks_frames) simp_all

lemma serve_reply:
  assumes "serve m render w = (Reply n b, w')"
  obtains x where "m w = (Inr x, w')" "render x = Reply n b"
  using assms by (auto simp: serve_def errorHandler_def split: prod.splits sum.splits)

text \<open>
  A subject without a history is answered 404 on both routes and gets no snapshot; every other
  subject is answered 200, from the metrics with the state as it was.
\<close>

lemma reputationRoute_unknown:
  assumes "mapGet (accs (rep w)) d = None"
  shows "reputationRoute E cs now (GetSnapshotOf d) w = (ErrorReply 404 (toBody NotFoundError), w)"
    and "reputationRoute E cs now (GetRawOf d) w = (ErrorReply 404 (toBody NotFoundError), w)"
  using assms
  by (simp_all add: serve_def errorHandler_def getSnapshot_def getRaw_def inReputation_def exec_simps)

lemma reputationRoute_raw:
  assumes "mapGet (accs (rep w)) d = Some a"
  shows "reputationRoute E cs now (GetRawOf d) w = (Reply 200 (MetricsBody (metricsFromAccumulator a)), w)"
  using assms by (simp add: serve_def getRaw_def exec_simps)

lemma stakeRoute_free:
  assumes "stakeRoute E cfg t i w = (Reply n b, w')"
  shows "n = 200 \<or> n = 402 \<and> wal w' = wal w \<and> led w' = led w"
proof -
  obtain x where "putStakeFor E cfg t i w = (Inr x, w')" "sendStake x = Reply n b"
    using assms unfolding stakeRoute_def by (rule serve_reply)
  then show ?thesis using parksD [OF putStakeFor_parks, of E cfg t i w x w'] by (cases x) auto
qed

lemma tipRoute_free:
  assumes "tipRoute E cfg t i w = (Reply n b, w')"
  shows "n = 200 \<or> n = 402 \<and> wal w' = wal w \<and> led w' = led w"
proof -
  obtain x where "sendTip E cfg t i w = (Inr x, w')" "sendTipReply x = Reply n b"
    using assms unfolding tipRoute_def by (rule serve_reply)
  then show ?thesis using parksD [OF sendTip_parks, of E cfg t i w x w'] by (cases x) auto
qed

section \<open>Properties\<close>

text \<open>
  Claim C14. Payment Required is free: a body from the payment route or from the route that opens an
  escrow comes with status 200 or 402, and when it is 402 (the requirements of the payment, or the
  notice that a supervisor must rule first) no balance has changed, nothing was appended to the log and no escrow
  was recorded.
\<close>

theorem payment_required_is_free:
  assumes "core_ok E w" "railsSound E cfg" "payRoute E cfg t t' lid key body w = (Reply n b, w')"
    and "escrowRoute E ecfg t (PostEscrow i) v = (Reply n2 b2, v')"
  shows "(n = 200 \<or> n = 402 \<and> fundsSame E (wal w) (wal w') \<and> led w' = led w) \<and>
    (n2 = 200 \<or> n2 = 402 \<and> wal v' = wal v \<and> led v' = led v \<and> escrows v' = escrows v)"
proof (intro conjI)
  obtain x where "pay E cfg t t' lid key body w = (Inr x, w')" "sendPay x = Reply n b"
    using assms(3) unfolding payRoute_def by (rule serve_reply)
  then show "n = 200 \<or> n = 402 \<and> fundsSame E (wal w) (wal w') \<and> led w' = led w"
    using pay_unpaid_answers_are_free [OF assms(1,2), of t t' lid key body x w'] by (cases x) auto
next
  obtain x where "openEscrow E ecfg t i v = (Inr x, v')" "sendMutation x = Reply n2 b2"
    using assms(4) unfolding escrowRoute.simps by (rule serve_reply)
  then show "n2 = 200 \<or> n2 = 402 \<and> wal v' = wal v \<and> led v' = led v \<and> escrows v' = escrows v"
    using parksD [OF openEscrow_parks, of E ecfg t i v x v'] by (cases x) auto
qed

end
