(* ===== verification/Escrow_Demo.thy ===== *)
theory Escrow_Demo
  imports Escrow_Spec
begin

text \<open>
  The properties of escrow at concrete inputs: a contract of two milestones between a payer with
  funds and a delegation and a provider with a passport, opened, delivered and disputed.
\<close>

section \<open>Sample inputs\<close>

definition sampleContract :: escrow_contract where
  "sampleContract = \<lparr>escrow_id = ''es1'', es_job_ref = ''j1'', es_payer = ''did:a'', es_payee = ''did:b'',
     es_amount = usdc ''30'',
     milestones = [\<lparr>ms_id = ''m1'', ms_amount = ''10'', acceptance = \<lparr>acc_type = Checksum, schema_ref = None, expected = Some ''h1''\<rparr>\<rparr>,
       \<lparr>ms_id = ''m2'', ms_amount = ''20'', acceptance = \<lparr>acc_type = SchemaChecksum, schema_ref = None, expected = Some ''h2''\<rparr>\<rparr>],
     deliver_by = ''50'', on_timeout = TimeoutRefund, dispute_window_ms = 100,
     provider_stake = \<lparr>ps_amount = ''5'', ps_currency = ''USDC'', slashable = False\<rparr>, sig_payer = [], sig_payee = []\<rparr>"

definition sampleOpen :: "escrow_contract \<Rightarrow> open_input" where
  "sampleOpen c = (let i = escrow_contract.extend c \<lparr>oi_nonce = ''n9'', oi_iat = ''4'', oi_exp = ''50'', oi_approval = None\<rparr>;
      b = JObj (stripForSigning (openObj i) CONTRACT_OMIT)
    in i\<lparr>sig_payer := signDetached demo b ''K'' ''k'', sig_payee := signDetached demo b ''B'' ''k''\<rparr>)"

definition sampleEsc :: escrow_world where
  "sampleEsc = (let w = settle_world.extend sampleWorld \<lparr>escrows = []\<rparr>
     in w\<lparr>idn := (idn w)\<lparr>passports := (''did:b'', \<lparr>did = ''did:b'', controller = ''did:b'',
       keys = [\<lparr>key_id = ''#1'', key_pub = ''B''\<rparr>], services = [], delegation_ref = None,
       kyc_level = Unverified, pass_sig = ''s''\<rparr>) # passports (idn w)\<rparr>\<rparr>)"

definition sampleEscCfg :: esc_cfg where
  "sampleEscCfg = \<lparr>escSigner = sampleSigner, escRepSigner = sampleSigner, escSkew = 2\<rparr>"

definition sampleDeliver :: deliver_input where
  "sampleDeliver = (let i = \<lparr>sc_nonce = ''n5'', sc_iat = ''5'', sc_exp = ''50'', sc_sig = [], dl_milestone = ''m1'',
       dl_resultHash = ''h1'', dl_schemaRef = None, dl_provider = ''did:b''\<rparr>
     in i\<lparr>sc_sig := signDetached demo (JObj (stripForSigning (deliverObj i) [''sig''])) ''B'' ''k''\<rparr>)"

definition sampleDispute :: dispute_input where
  "sampleDispute = (let i = \<lparr>sc_nonce = ''n6'', sc_iat = ''5'', sc_exp = ''50'', sc_sig = [], dp_milestone = ''m2'',
       dp_disputer = ''did:a'', dp_reason = ''bad'', dp_bond = None\<rparr>
     in i\<lparr>sc_sig := signDetached demo (JObj (stripForSigning (disputeObj i) [''sig''])) ''K'' ''k''\<rparr>)"

text \<open>The state with the sample contract open, its funds locked.\<close>

definition openedEsc :: escrow_world where
  "openedEsc = snd (lockFunds demo 5 sampleContract sampleEsc)"

lemma demo_shares_six: "shares_six demo"
  by (auto simp: shares_six_def six_digits_def demo_def)

lemma sampleEsc_ok: "escrow_ok demo sampleEsc"
  using sampleWorld_ok(1)
  by (simp add: escrow_ok_def sampleEsc_def settle_world.defs Let_def core_ok_def)

lemma sampleContract_sel [simp]:
  "escrow_id sampleContract = ''es1''" "es_payer sampleContract = ''did:a''" "es_payee sampleContract = ''did:b''"
  "es_amount sampleContract = usdc ''30''" "slashable (provider_stake sampleContract) = False"
  "currency (usdc x) = ''USDC''"
  by (simp_all add: sampleContract_def usdc_def)

lemma sampleContract_unique: "uniqueIds sampleContract"
  by code_simp

lemma sampleContract_balanced: "balanced demo sampleContract"
  by code_simp

lemma lockFunds_sample: "(case fst (lockFunds demo 5 sampleContract sampleEsc) of Inr (EscrowIs _) \<Rightarrow> True | _ \<Rightarrow> False)"
  by code_simp


lemma numbers: "bigVal demo ''10'' = Some 10" "bigVal demo ''20'' = Some 20" "bigVal demo ''30'' = Some 30"
  "bv demo (amount (usdc ''30'')) = 30" "bv demo ''10'' = 10" "bv demo ''20'' = 20"
  by code_simp+

lemma sampleEsc_empty: "escrows sampleEsc = []" "holds (wal sampleEsc) = []"
  by code_simp+



text \<open>The opened state is evaluated once.\<close>

lemma openedEsc_view:
  "(case (openedEsc, ()) of (w, _) \<Rightarrow>
     (mapGet (escrows w) ''es1'', map_option h_state (mapGet (holds (wal w)) ''hold_0''),
      map_option h_state (mapGet (holds (wal w)) ''hold_1''), spends (wal w), accs (rep w))) =
   (Some (openRecord demo 5 sampleContract [(''m1'', ''hold_0''), (''m2'', ''hold_1'')] None),
    Some Active, Some Active, [], [])"
  by code_simp

lemma openedEsc_rec: "mapGet (escrows openedEsc) ''es1'' =
   Some (openRecord demo 5 sampleContract [(''m1'', ''hold_0''), (''m2'', ''hold_1'')] None)"
  using openedEsc_view by simp

lemma openedEsc_only: "e \<noteq> ''es1'' \<Longrightarrow> mapGet (escrows openedEsc) e = None"
  using frames_eq [OF frames_lockFunds_other [of sampleContract e demo 5], of sampleEsc] sampleEsc_empty
  by (simp add: escrowView_def openedEsc_def)

text \<open>A contract whose slashable stake the provider cannot pay.\<close>

definition stakedContract :: escrow_contract where
  "stakedContract = sampleContract\<lparr>provider_stake := \<lparr>ps_amount = ''5'', ps_currency = ''USDC'', slashable = True\<rparr>\<rparr>"

lemma staked_open_fails:
  "(case openEscrow demo sampleEscCfg 5 (sampleOpen stakedContract) sampleEsc of
      (Inl _, w') \<Rightarrow> availAt demo (rows (wal w')) (walletKey ''did:a'' ''USDC'') \<noteq>
         availAt demo (rows (wal sampleEsc)) (walletKey ''did:a'' ''USDC'')
    | _ \<Rightarrow> False)"
  by code_simp

lemma sampleOpen_evals:
  "(case fst (openEscrow demo sampleEscCfg 5 (sampleOpen sampleContract) sampleEsc) of Inr (EscrowIs _) \<Rightarrow> True | _ \<Rightarrow> False)"
  by code_simp
lemma sampleOpen_runs:
  obtains p w' where "openEscrow demo sampleEscCfg 5 (sampleOpen sampleContract) sampleEsc = (Inr (EscrowIs p), w')"
  using sampleOpen_evals that
  by (cases "openEscrow demo sampleEscCfg 5 (sampleOpen sampleContract) sampleEsc") (auto split: sum.splits escrow_mutation.splits)

lemma openedEsc_ok: "escrow_ok demo openedEsc"
  unfolding openedEsc_def
  by (rule estepD(1) [OF lockFunds_step [OF sampleEsc_ok _ sampleContract_balanced] sampleEsc_ok]) (simp add: sampleEsc_empty)

lemma openedEsc_holds: "map_option h_state (mapGet (holds (wal openedEsc)) ''hold_0'') = Some Active"
    "map_option h_state (mapGet (holds (wal openedEsc)) ''hold_1'') = Some Active"
  using openedEsc_view by simp_all

lemma openedEsc_parts: "spends (wal openedEsc) = []" "accs (rep openedEsc) = []"
  using openedEsc_view by simp_all

text \<open>The record of the opened contract.\<close>

definition sampleRecord :: escrow_record where
  "sampleRecord = openRecord demo 5 sampleContract [(''m1'', ''hold_0''), (''m2'', ''hold_1'')] None"

lemma sampleRecord_sel [simp]:
  "contract sampleRecord = sampleContract" "stakeHoldId sampleRecord = None" "disputeBondHoldId sampleRecord = None"
  "milestoneHoldIds sampleRecord = [(''m1'', ''hold_0''), (''m2'', ''hold_1'')]" "e_state sampleRecord = EOpen"
  "mapGet (runtimes sampleRecord) k = (if k = ''m1'' \<or> k = ''m2'' then Some freshRuntime else None)"
  by (simp_all add: sampleRecord_def openRecord_def freshRuntimes_get sampleContract_def)

lemma openedEsc_is: "mapGet (escrows openedEsc) ''es1'' = Some sampleRecord"
  using openedEsc_rec by (simp add: sampleRecord_def)

lemma freshRuntime_state [simp]: "rt_state freshRuntime = MPending"
  by (simp add: freshRuntime_def)

definition firstMilestone :: milestone where
  "firstMilestone = hd (milestones sampleContract)"

definition secondMilestone :: milestone where
  "secondMilestone = hd (tl (milestones sampleContract))"

lemma sampleMilestones:
  "find (\<lambda>m. ms_id m = ''m1'') (milestones sampleContract) = Some firstMilestone"
  "find (\<lambda>m. ms_id m = ''m2'') (milestones sampleContract) = Some secondMilestone"
  "secondMilestone \<in> set (milestones sampleContract)" "ms_id firstMilestone = ''m1''" "ms_id secondMilestone = ''m2''"
  "ms_amount firstMilestone = ''10''" "ms_amount secondMilestone = ''20''"
  "acceptance firstMilestone = \<lparr>acc_type = Checksum, schema_ref = None, expected = Some ''h1''\<rparr>"
  "acceptance secondMilestone = \<lparr>acc_type = SchemaChecksum, schema_ref = None, expected = Some ''h2''\<rparr>"
  by (simp_all add: firstMilestone_def secondMilestone_def sampleContract_def)

section \<open>Accounting and life cycle\<close>

theorem escrow_funds_accounted_witness:
  "\<exists>r w'. w' = runEscrows demo sampleEscCfg [(6, OpDeliver ''es1'' sampleDeliver)] openedEsc \<and>
     mapGet (escrows w') ''es1'' = Some r \<and>
     fundsIn demo (wal w') r Active + fundsIn demo (wal w') r Captured + fundsIn demo (wal w') r Released = 30 \<and>
     expectedAt demo openedEsc w' (walletKey ''did:b'' ''USDC'') \<le> balanceAt demo (wal w') (walletKey ''did:b'' ''USDC'') \<and>
     balanceAt demo (wal w') (walletKey ''did:z'' ''USDC'') = expectedAt demo openedEsc w' (walletKey ''did:z'' ''USDC'')"
proof -
  let ?ops = "[(6, OpDeliver ''es1'' sampleDeliver)]"
  let ?w = "runEscrows demo sampleEscCfg ?ops openedEsc"
  obtain r where r: "mapGet (escrows ?w) ''es1'' = Some r" "contract r = sampleContract"
    using estepD(3) [OF runEscrows_step [OF demo_shares_six] openedEsc_ok, of sampleEscCfg ?ops] openedEsc_is
    unfolding advances_def by (metis sampleRecord_sel(1))
  note all = escrow_funds_accounted [OF openedEsc_ok demo_shares_six, of sampleEscCfg ?ops]
  have "uniqueIds (contract r)" using r(2) sampleContract_unique by simp
  then have "fundsIn demo (wal ?w) r Active + fundsIn demo (wal ?w) r Captured + fundsIn demo (wal ?w) r Released = 30"
    using all r numbers(4) by auto
  moreover have "\<not> partyKey (escrows ?w) (walletKey ''did:z'' ''USDC'')"
  proof -
    have only: "mapGet (escrows ?w) e = None" if "e \<noteq> ''es1''" for e
    proof -
      have "targetOf (OpDeliver ''es1'' sampleDeliver) \<noteq> e" using that by simp
      from frames_eq [OF frames_runEscrow_other [OF this, of demo sampleEscCfg 6], of openedEsc]
      show ?thesis using openedEsc_only [OF that] by (simp add: escrowView_def)
    qed
    have "rr = r" if "mapGet (escrows ?w) e = Some rr" for e rr using only [of e] that r(1) by (cases "e = ''es1''") auto
    then show ?thesis using r(2) by (fastforce simp: partyKey_def walletKey_def)
  qed
  ultimately show ?thesis using all r by blast
qed

theorem escrow_refines_lifecycle_witness:
  "\<exists>r' rt'. mapGet (escrows (runEscrows demo sampleEscCfg [(6, OpDeliver ''es1'' sampleDeliver)] openedEsc)) ''es1'' = Some r' \<and>
     contract r' = sampleContract \<and> mapGet (runtimes r') ''m1'' = Some rt' \<and> evolves MPending (rt_state rt')"
  using escrow_refines_lifecycle [OF openedEsc_ok demo_shares_six openedEsc_is, of "''m1''" freshRuntime sampleEscCfg
      "[(6, OpDeliver ''es1'' sampleDeliver)]"] by simp

section \<open>Opening\<close>

lemma sampleOpen_sel: "es_payer (sampleOpen sampleContract) = ''did:a''" "es_payee (sampleOpen sampleContract) = ''did:b''"
  "es_amount (sampleOpen sampleContract) = usdc ''30''"
  "provider_stake (sampleOpen sampleContract) = \<lparr>ps_amount = ''5'', ps_currency = ''USDC'', slashable = False\<rparr>"
  by (simp_all add: sampleOpen_def sampleContract_def escrow_contract.defs Let_def usdc_def)

theorem open_locks_total_witness:
  "\<exists>p w'. openEscrow demo sampleEscCfg 5 (sampleOpen sampleContract) sampleEsc = (Inr (EscrowIs p), w') \<and>
     availAt demo (rows (wal w')) (walletKey ''did:a'' ''USDC'') =
       availAt demo (rows (wal sampleEsc)) (walletKey ''did:a'' ''USDC'') - 30 \<and>
     heldAt demo (rows (wal w')) (walletKey ''did:a'' ''USDC'') =
       heldAt demo (rows (wal sampleEsc)) (walletKey ''did:a'' ''USDC'') + 30 \<and>
     availAt demo (rows (wal w')) (walletKey ''did:b'' ''USDC'') =
       availAt demo (rows (wal sampleEsc)) (walletKey ''did:b'' ''USDC'')"
proof (rule sampleOpen_runs)
  fix p w' assume r: "openEscrow demo sampleEscCfg 5 (sampleOpen sampleContract) sampleEsc = (Inr (EscrowIs p), w')"
  have l: "openLocks demo (sampleOpen sampleContract) (walletKey ''did:a'' ''USDC'') = 30"
    "openLocks demo (sampleOpen sampleContract) (walletKey ''did:b'' ''USDC'') = 0"
    using numbers(4) by (simp_all add: openLocks_def payerKey_def sampleOpen_sel walletKey_def stakeOf_def usdc_def)
  show ?thesis
    using r open_locks_total [OF sampleEsc_ok r, of "walletKey ''did:a'' ''USDC''"]
      open_locks_total [OF sampleEsc_ok r, of "walletKey ''did:b'' ''USDC''"] l by auto
qed

theorem open_needs_consent_witness:
  "\<exists>p w' dl sk. openEscrow demo sampleEscCfg 5 (sampleOpen sampleContract) sampleEsc = (Inr (EscrowIs p), w') \<and>
    payeeSigned demo (sampleOpen sampleContract) sampleEsc \<and>
    activeDelegation demo 5 ''did:a'' (idn sampleEsc) = Some dl \<and> may_commit (escrow_pol (policy dl)) \<and>
    30 \<le> bv demo (amount (max_escrow (escrow_pol (policy dl)))) \<and>
    (\<exists>k. mapGet (keystore (idn sampleEsc)) (''did:a'' @ k) = Some sk)"
proof (rule sampleOpen_runs)
  fix p w' assume r: "openEscrow demo sampleEscCfg 5 (sampleOpen sampleContract) sampleEsc = (Inr (EscrowIs p), w')"
  from open_needs_consent [OF sampleEsc_ok r] show ?thesis
    using r numbers(4) by (elim conjE exE) (simp only: sampleOpen_sel, blast)
qed

theorem failed_open_strands_witness:
  "\<exists>j h. mapGet (holds (wal (snd (openEscrow demo sampleEscCfg 5 (sampleOpen stakedContract) sampleEsc)))) j = Some h \<and>
     h_state h = Active"
proof -
  let ?run = "openEscrow demo sampleEscCfg 5 (sampleOpen stakedContract) sampleEsc"
  obtain e w' where r: "?run = (Inl e, w')"
    "availAt demo (rows (wal w')) (walletKey ''did:a'' ''USDC'') \<noteq> availAt demo (rows (wal sampleEsc)) (walletKey ''did:a'' ''USDC'')"
    using staked_open_fails by (cases ?run) (auto split: sum.splits)
  from failed_open_strands [OF sampleEsc_ok r] show ?thesis using r(1) by auto
qed

section \<open>Delivery and dispute\<close>

lemma sampleDeliver_signed: "fst (verifyAs demo 6 2 (deliverObj sampleDeliver) (sigOpts ''did:b'') openedEsc) = Inr ()"
  by code_simp

lemma sampleDispute_signed: "fst (verifyAs demo 6 2 (disputeObj sampleDispute) (sigOpts ''did:a'') openedEsc) = Inr ()"
  by code_simp

lemma sampleBooks: "repAccepts demo (rep openedEsc) ''did:b'' ''USDC''" "spendRowsOk demo (wal openedEsc)"
  using openedEsc_parts by (simp_all add: repAccepts_def spendRowsOk_def)

lemma sampleDeliver_runs:
  "\<exists>p w'. deliver demo sampleEscCfg 6 ''es1'' sampleDeliver openedEsc = (Inr (EscrowIs p), w')"
proof -
  let ?V = "verifyAs demo 6 2 (deliverObj sampleDeliver) (sigOpts ''did:b'') openedEsc"
  obtain w1 where v: "?V = (Inr (), w1)" using sampleDeliver_signed by (metis prod.collapse)
  have q: "settled_parts w1 = settled_parts openedEsc" "escrow_ok demo w1" using verifyAs_quiet [OF v] openedEsc_ok by simp_all
  let ?f = "\<lambda>rt. rt\<lparr>resultHash := Some ''h1'', resultSchemaRef := None, deliveredAt := Some (isoOf demo 6), rt_state := MDelivered\<rparr>"
  let ?w2 = "snd (updRuntime ''es1'' ''m1'' ?f w1)"
  have es: "mapGet (escrows w1) ''es1'' = Some sampleRecord" using q(1) openedEsc_is by (simp add: settled_parts_def)
  have st: "estep demo w1 ?w2" by (rule estep_retarget [OF es, of "''m1''" freshRuntime]) (simp_all add: lifecycle.simps)
  have ok2: "escrow_ok demo ?w2" by (rule estepD(1) [OF st q(2)])
  obtain h where h: "mapGet (holds (wal openedEsc)) ''hold_0'' = Some h" "h_state h = Active" using openedEsc_holds(1) by auto
  let ?r = "sampleRecord\<lparr>runtimes := AList.map_entry ''m1'' ?f (runtimes sampleRecord)\<rparr>"
  have cap: "\<exists>w'. captureMilestone demo sampleEscCfg 6 ''es1'' firstMilestone Delivered ?w2 = (Inr (), w')"
    by (rule capture_goes_through [OF ok2, of _ ?r _ "?f freshRuntime" "''hold_0''" h 10])
      (use q(1) h es sampleBooks numbers in \<open>simp_all add: settled_parts_def updRuntime_app sampleMilestones\<close>)
  then obtain w3 where c: "captureMilestone demo sampleEscCfg 6 ''es1'' firstMilestone Delivered ?w2 = (Inr (), w3)" by blast
  have kn: "known demo ''es1'' sampleContract ?w2" using ok2 es by (simp add: known_def updRuntime_app)
  have m: "firstMilestone \<in> set (milestones sampleContract)" by (simp add: firstMilestone_def sampleContract_def)
  have w3: "known demo ''es1'' sampleContract w3" using safeD [OF safe_captureMilestone [OF m] kn c] by simp
  then obtain r3 where r3: "mapGet (escrows w3) ''es1'' = Some r3" "escrow_ok demo w3" by (auto simp: known_def)
  from books_close [OF r3(2,1)]
  obtain p w' where b: "bindE (recomputeEscrowState ''es1'') (\<lambda>_. toPublic ''es1'') w3 = (Inr (EscrowIs p), w')" by blast
  have inp: "dl_provider sampleDeliver = ''did:b''" "dl_milestone sampleDeliver = ''m1''" "dl_resultHash sampleDeliver = ''h1''"
    "dl_schemaRef sampleDeliver = None" "escSkew sampleEscCfg = 2"
    by (simp_all add: sampleDeliver_def sampleEscCfg_def Let_def)
  have "requireOpenish ''es1'' openedEsc = (Inr sampleRecord, openedEsc)"
    using openedEsc_is by (simp add: requireOpenish_def exec_simps nonActionable_def)
  moreover have "requireMilestone sampleContract ''m1'' w1 = (Inr firstMilestone, w1)"
    using sampleMilestones(1) by (simp add: requireMilestone_def orThrow_app)
  moreover have "runtimeOf ''es1'' ''m1'' w1 = (Inr freshRuntime, w1)" using es by (simp add: runtimeOf_app)
  ultimately have "deliver demo sampleEscCfg 6 ''es1'' sampleDeliver openedEsc = (Inr (EscrowIs p), w')"
    using v c b inp
    by (simp add: deliver_def bindE_app [of "requireOpenish _"] bindE_app [of "throwIf _ _"] bindE_app [of "verifyAs _ _ _ _ _"]
        bindE_app [of "requireMilestone _ _"] bindE_app [of "runtimeOf _ _"] bindE_app [of "updRuntime _ _ _"]
        bindE_app [of "captureMilestone _ _ _ _ _ _"] throwIf_app updRuntime_app sampleMilestones objectivePass_def)
  then show ?thesis by blast
qed


text \<open>The second milestone delivered with a wrong hash; the first still pending.\<close>

definition lateEsc :: escrow_world where
  "lateEsc = snd (updRuntime ''es1'' ''m2'' (\<lambda>rt. rt\<lparr>rt_state := MDelivered, resultHash := Some ''bad''\<rparr>) openedEsc)"

definition lateRecord :: escrow_record where
  "lateRecord = sampleRecord\<lparr>runtimes := AList.map_entry ''m2'' (\<lambda>rt. rt\<lparr>rt_state := MDelivered, resultHash := Some ''bad''\<rparr>)
     (runtimes sampleRecord)\<rparr>"

lemma lateEsc_facts: "escrow_ok demo lateEsc" "mapGet (escrows lateEsc) ''es1'' = Some lateRecord" "wal lateEsc = wal openedEsc"
    "rep lateEsc = rep openedEsc" "idn lateEsc = idn openedEsc" "non lateEsc = non openedEsc"
proof -
  have "estep demo openedEsc lateEsc" unfolding lateEsc_def
    by (rule estep_retarget [OF openedEsc_is, of "''m2''" freshRuntime]) (simp_all add: lifecycle.simps)
  then show "escrow_ok demo lateEsc" by (rule estepD(1) [OF _ openedEsc_ok])
qed (use openedEsc_is in \<open>simp_all add: lateEsc_def lateRecord_def updRuntime_app\<close>)

lemma sampleDispute_runs:
  "\<exists>p w'. dispute demo sampleEscCfg 6 ''es1'' sampleDispute lateEsc = (Inr (EscrowIs p), w')"
proof -
  have "fst (verifyAs demo 6 2 (disputeObj sampleDispute) (sigOpts ''did:a'') lateEsc) = Inr ()"
    using verifyAs_same [of lateEsc openedEsc demo 6 2] lateEsc_facts sampleDispute_signed by simp
  then obtain w1 where v: "verifyAs demo 6 2 (disputeObj sampleDispute) (sigOpts ''did:a'') lateEsc = (Inr (), w1)"
    by (metis prod.collapse)
  have q: "settled_parts w1 = settled_parts lateEsc" "escrow_ok demo w1" using verifyAs_quiet [OF v] lateEsc_facts by simp_all
  have es: "mapGet (escrows w1) ''es1'' = Some lateRecord" using q(1) lateEsc_facts by (simp add: settled_parts_def)
  let ?g = "\<lambda>r. r\<lparr>e_state := EDisputed, e_disputer := Some ''did:a''\<rparr>"
  let ?f = "\<lambda>rt. rt\<lparr>rt_state := MDisputed\<rparr>"
  let ?w2 = "snd (updEscrow ''es1'' ?g w1)" and ?w3 = "snd (updRuntime ''es1'' ''m2'' ?f (snd (updEscrow ''es1'' ?g w1)))"
  let ?rt = "freshRuntime\<lparr>rt_state := MDelivered, resultHash := Some ''bad''\<rparr>"
  have e2: "mapGet (escrows ?w2) ''es1'' = Some (?g lateRecord)" using es by (simp add: updEscrow_app)
  have k1: "known demo ''es1'' sampleContract w1" using q(2) es by (simp add: known_def lateRecord_def)
  have "safe demo ''es1'' sampleContract (updEscrow ''es1'' ?g)" by (rule safe_updEscrow) simp_all
  from safeD [OF this k1 updEscrow_app] have ok2: "escrow_ok demo ?w2" by (simp add: known_def updEscrow_app)
  have "estep demo ?w2 ?w3"
    by (rule estep_retarget [OF e2, of "''m2''" ?rt]) (simp_all add: lateRecord_def lifecycle.simps settledState_def)
  then have ok3: "escrow_ok demo ?w3" using ok2 by (rule estepD(1))
  let ?r3 = "(?g lateRecord)\<lparr>runtimes := AList.map_entry ''m2'' ?f (runtimes lateRecord)\<rparr>"
  have e3: "mapGet (escrows ?w3) ''es1'' = Some ?r3" using e2 by (simp add: updRuntime_app)
  obtain h where h: "mapGet (holds (wal openedEsc)) ''hold_1'' = Some h" "h_state h = Active" using openedEsc_holds(2) by auto
  have "\<exists>w'. refundMilestone demo sampleEscCfg 6 ''es1'' secondMilestone Disputed ?w3 = (Inr (), w') \<and>
      mapGet (escrows w') ''es1'' = Some (?r3\<lparr>runtimes := AList.map_entry (ms_id secondMilestone) (withState MRefunded) (runtimes ?r3)\<rparr>)"
    by (rule refund_goes_through [OF ok3 e3, of _ "?f ?rt" "''hold_1''" h 20])
      (use q(1) h lateEsc_facts sampleBooks numbers in
        \<open>simp_all add: settled_parts_def updRuntime_app updEscrow_app sampleMilestones lateRecord_def\<close>)
  then obtain w4 where w4: "refundMilestone demo sampleEscCfg 6 ''es1'' secondMilestone Disputed ?w3 = (Inr (), w4)"
    "mapGet (escrows w4) ''es1'' = Some (?r3\<lparr>runtimes := AList.map_entry (ms_id secondMilestone) (withState MRefunded) (runtimes ?r3)\<rparr>)"
    by blast
  have bond: "releaseBond demo ''es1'' w4 = (Inr (), w4)"
    using w4(2) by (simp add: releaseBond_def bindE_app recordAt_app lateRecord_def)
  have slash: "slashProviderStake demo ''es1'' secondMilestone ?w3 = (Inr (), ?w3)"
    using e3 by (simp add: slashProviderStake_def bindE_app recordAt_app lateRecord_def)
  obtain u w5 where up: "upheldDispute demo sampleEscCfg 6 ''es1'' sampleContract secondMilestone ?w3 = (Inr u, w5)"
  proof -
    obtain en where "appendLedger demo 6 ''escrow_dispute_resolved'' (Some ''es1'')
       (JObj [(''milestone_id'', JStr (ms_id secondMilestone)), (''ruling'', JStr ''for_requester''), (''slashed'', JStr ''provider_stake'')]) w4 =
         (Inr (), w4\<lparr>led := led w4 @ [en]\<rparr>)" by (rule appendLedger_out)
    then have "upheldDispute demo sampleEscCfg 6 ''es1'' sampleContract secondMilestone ?w3 = (Inr (), w4\<lparr>led := led w4 @ [en]\<rparr>)"
      using bond slash w4(1) by (simp add: upheldDispute_def bindE_app [of "slashProviderStake _ _ _"]
        bindE_app [of "refundMilestone _ _ _ _ _ _"] bindE_app [of "releaseBond _ _"])
    then show ?thesis by (rule that)
  qed
  have m: "secondMilestone \<in> set (milestones sampleContract)" by (simp add: sampleMilestones)
  have "known demo ''es1'' sampleContract ?w3" using ok3 e3 by (simp add: known_def lateRecord_def)
  from safeD [OF safe_upheldDispute [OF m demo_shares_six] this up] have k5: "known demo ''es1'' sampleContract w5" by simp
  let ?w6 = "snd (updEscrow ''es1'' (\<lambda>r. r\<lparr>e_state := EResolved, e_disputer := None\<rparr>) w5)"
  have "safe demo ''es1'' sampleContract (updEscrow ''es1'' (\<lambda>r. r\<lparr>e_state := EResolved, e_disputer := None\<rparr>))"
    by (rule safe_updEscrow) simp_all
  from safeD [OF this k5 updEscrow_app] have "known demo ''es1'' sampleContract ?w6" by (simp add: updEscrow_app)
  then obtain r6 where r6: "mapGet (escrows ?w6) ''es1'' = Some r6" "escrow_ok demo ?w6" by (auto simp: known_def)
  from books_close [OF r6(2,1)]
  obtain p w' where b: "bindE (recomputeEscrowState ''es1'') (\<lambda>_. toPublic ''es1'') ?w6 = (Inr (EscrowIs p), w')" by blast
  have inp: "dp_disputer sampleDispute = ''did:a''" "dp_milestone sampleDispute = ''m2''" "dp_bond sampleDispute = None"
    "escSkew sampleEscCfg = 2"
    by (simp_all add: sampleDispute_def sampleEscCfg_def Let_def)
  have "requireOpenish ''es1'' lateEsc = (Inr lateRecord, lateEsc)"
    using lateEsc_facts by (simp add: requireOpenish_def exec_simps nonActionable_def lateRecord_def)
  moreover have "requireMilestone sampleContract ''m2'' w1 = (Inr secondMilestone, w1)"
    using sampleMilestones(2) by (simp add: requireMilestone_def orThrow_app)
  moreover have "runtimeOf ''es1'' ''m2'' w1 = (Inr ?rt, w1)" using es by (simp add: runtimeOf_app lateRecord_def)
  moreover have "assertWithinDisputeWindow demo 6 lateRecord ?rt w1 = (Inr (), w1)" by code_simp
  ultimately have "dispute demo sampleEscCfg 6 ''es1'' sampleDispute lateEsc = (Inr (EscrowIs p), w')"
    using v up b inp
    by (simp add: dispute_def Let_def bindE_app [of "requireOpenish _"] bindE_app [of "throwIf _ _"] bindE_app [of "verifyAs _ _ _ _ _"]
        bindE_app [of "requireMilestone _ _"] bindE_app [of "runtimeOf _ _"] bindE_app [of "updRuntime _ _ _"]
        bindE_app [of "updEscrow _ _"] bindE_app [of "postBond _ _ _ _ _ _"] bindE_app [of "assertWithinDisputeWindow _ _ _ _"]
        bindE_app [of "upheldDispute _ _ _ _ _ _"] throwIf_app updRuntime_app updEscrow_app sampleMilestones objectivePass_def
        postBond_def lateRecord_def settledState_def bindE_ret)
  then show ?thesis by blast
qed

theorem objective_dispute_strands_witness:
  "\<exists>r' w'. w' = snd (dispute demo sampleEscCfg 6 ''es1'' sampleDispute lateEsc) \<and>
     (let v = runEscrows demo sampleEscCfg [(100, OpExpire ''es1'')] w' in
      mapGet (escrows v) ''es1'' = Some r' \<and> milestoneFunds demo (wal v) r' Active firstMilestone = 10)"
proof -
  obtain p w' where r: "dispute demo sampleEscCfg 6 ''es1'' sampleDispute lateEsc = (Inr (EscrowIs p), w')"
    using sampleDispute_runs by blast
  have "\<exists>r'. mapGet (escrows (runEscrows demo sampleEscCfg [(100, OpExpire ''es1'')] w')) ''es1'' = Some r' \<and>
      milestoneFunds demo (wal (runEscrows demo sampleEscCfg [(100, OpExpire ''es1'')] w')) r' Active firstMilestone =
        bv demo (ms_amount firstMilestone)"
    by (rule objective_dispute_strands [OF lateEsc_facts(1) demo_shares_six lateEsc_facts(2) _ _ _ _ _ r, of firstMilestone freshRuntime])
      (simp_all add: lateRecord_def sampleContract_unique sampleMilestones sampleDispute_def Let_def, simp add: firstMilestone_def sampleContract_def)
  then show ?thesis using r numbers(5) by (auto simp: sampleMilestones Let_def)
qed

end
