(* ===== verification/Registry_Demo.thy ===== *)
theory Registry_Demo
  imports Registry_Spec
begin

text \<open>
  The properties of the registry at concrete inputs: the provider \<open>did:b\<close> has one listing,
  \<open>lst_0\<close>, which it updates; the requester \<open>did:a\<close> asks for it; a second listing has a stake that is not a number.
\<close>

section \<open>Sample inputs\<close>

definition rawListing :: "string option \<Rightarrow> string \<Rightarrow> string \<Rightarrow> publish_input" where
  "rawListing i v st = \<lparr>l_schemaVersion = ''1'', l_provider = ''did:b'', l_version = v, l_status = Active_Listing,
     l_capability = \<lparr>lc_taxonomy = ''doc.extract'', lc_title = ''t'', lc_description = ''extract tables'', lc_tags = []\<rparr>,
     l_io = \<lparr>lio_input = ''in'', lio_output = ''out'', lio_limits = None\<rparr>,
     l_pricing = \<lparr>lp_model = PerCall, lp_unit = ''call'', lp_amount = ''4'', lp_currency = ''USDC'', lp_quoteRequired = True, lp_rails = [''x402'']\<rparr>,
     l_sla = \<lparr>ls_p50 = 100, ls_p95 = 400, ls_uptime = 1, ls_maxTimeout = 1000, ls_throughput = 5\<rparr>,
     l_auth = \<lparr>lh_audience = ''aud'', lh_claims = []\<rparr>,
     l_endpoint = \<lparr>le_protocol = ''http'', le_url = ''u'', le_method = ''POST'', le_mcpTool = None\<rparr>,
     l_dryRun = \<lparr>ld_supported = True, ld_price = ''0'', ld_fixture = ''fx''\<rparr>,
     l_terms = \<lparr>lt_refund = ''full'', lt_window = 10, lt_retention = ''none'',
        lt_acceptance = \<lparr>lac_type = LaSchema, lac_schema = None, lac_expected = None\<rparr>\<rparr>,
     l_attestations = \<lparr>la_snapshot = None, la_stake = \<lparr>lk_amount = st, lk_currency = ''USDC'', lk_slashable = True\<rparr>\<rparr>,
     l_sample = None, l_provenance = \<lparr>lv_created = ''1'', lv_updated = ''2'', lv_expires = ''90'', lv_sig = []\<rparr>, pub_id = i\<rparr>"

definition signedListing :: "publish_input \<Rightarrow> publish_input" where
  "signedListing p = p\<lparr>l_provenance := (l_provenance p)\<lparr>lv_sig := signDetached demo (JObj (listingPayload p)) ''B'' ''k''\<rparr>\<rparr>"

definition sampleListing :: "string option \<Rightarrow> string \<Rightarrow> string \<Rightarrow> publish_input" where
  "sampleListing i v st = signedListing (rawListing i v st)"

definition sampleReg :: reg_world where
  "sampleReg = (let w = core.extend sampleCore
         \<lparr>listings = [(''lst_0'', listingOf ''lst_0'' (sampleListing None ''v1'' ''100''))], regQuotes = [], regDrawn = 1\<rparr>
     in w\<lparr>idn := (idn w)\<lparr>passports := (''did:b'', \<lparr>did = ''did:b'', controller = ''did:b'',
         keys = [\<lparr>key_id = ''#1'', key_pub = ''B''\<rparr>], services = [], delegation_ref = None, kyc_level = Unverified,
         pass_sig = ''s''\<rparr>) # passports (idn w)\<rparr>\<rparr>)"

definition registrySigner :: core_signer where
  "registrySigner = \<lparr>cs_did = ''did:r'', cs_kid = ''#1'', cs_sk = ''R''\<rparr>"

definition sampleRegCfg :: reg_cfg where
  "sampleRegCfg = \<lparr>regSkew = 2, regSigner = registrySigner, regRepSigner = sampleSigner\<rparr>"

definition sampleCapQuery :: capability_query where
  "sampleCapQuery = (let q = \<lparr>cq_id = ''q1'', cq_requester = ''did:a'', cq_taxonomy = ''doc.extract'', cq_description = None, cq_semantic = None,
       cq_io = None, cq_constraints = None, cq_prefs = None, cq_max = 5, cq_nonce = ''n1'', cq_iat = ''4'', cq_exp = ''50'', cq_sig = []\<rparr>
     in q\<lparr>cq_sig := signDetached demo (JObj (stripForSigning (capabilityQueryObj q) [''sig''])) ''K'' ''k''\<rparr>)"

section \<open>The index\<close>

lemma signedListing_payload: "listingPayload (signedListing p) = listingPayload p"
  by (simp add: signedListing_def listingPayload_def Let_def provenanceObj_def stripForSigning_def)

lemma sampleListing_sel:
  "l_provider (sampleListing i v st) = ''did:b''" "pub_id (sampleListing i v st) = i"
  "lv_expires (l_provenance (sampleListing i v st)) = ''90''" "lv_updated (l_provenance (sampleListing i v st)) = ''2''"
  "lv_created (l_provenance (sampleListing i v st)) = ''1''"
  "l_attestations (sampleListing i v st) = \<lparr>la_snapshot = None, la_stake = \<lparr>lk_amount = st, lk_currency = ''USDC'', lk_slashable = True\<rparr>\<rparr>"
  by (simp_all add: sampleListing_def signedListing_def rawListing_def)

lemma sampleListing_signed:
  "verifyDetached demo (JObj (listingPayload (sampleListing i v st))) (lv_sig (l_provenance (sampleListing i v st))) ''B''"
  unfolding sampleListing_def signedListing_payload
  by (simp add: signedListing_def verify_signDetached [OF demo_jws])

lemma sampleReg_sel:
  "listings sampleReg = [(''lst_0'', listingOf ''lst_0'' (sampleListing None ''v1'' ''100''))]" "regDrawn sampleReg = 1"
  "non sampleReg = []" "rep sampleReg = emptyReputation" "publicKeyFor (resolverOf demo (idn sampleReg)) ''did:b'' None = Some (showDots ''B'')"
  by (simp_all add: sampleReg_def Let_def core.defs sampleCore_def emptyCore_def resolverOf_def passportSigningKey_def)

lemma dots_B: "showDots ''B'' = ''B''"
  by simp

lemma sampleReg_ok: "index_ok demo sampleReg"
proof -
  have "attested demo (idn sampleReg) ''lst_0'' (listingOf ''lst_0'' (sampleListing None ''v1'' ''100''))"
    unfolding attested_def using sampleListing_signed [of None "''v1''" "''100''"]
    by (intro exI [of _ "sampleListing None ''v1'' ''100''"] exI [of _ "''B''"]) (simp add: sampleListing_sel sampleReg_sel)
  moreover have "showNat 0 = ''0''" by code_simp
  then have "drawnId demo 1 ''lst_0''" unfolding drawnId_def by (intro exI [of _ 0]) simp
  ultimately show ?thesis by (simp add: index_ok_def registry_ok_def sampleReg_sel demo_ulid_fresh)
qed

theorem index_stays_authentic_witness:
  "\<exists>l. mapGet (listings (runRegs demo sampleRegCfg [(5, OpPublish (sampleListing (Some ''lst_0'') ''v2'' ''100''))] sampleReg)) ''lst_0'' = Some l \<and>
     l_provider l = ''did:b''"
proof -
  have "mapGet (listings sampleReg) ''lst_0'' = Some (listingOf ''lst_0'' (sampleListing None ''v1'' ''100''))" by (simp add: sampleReg_sel)
  then obtain l where "mapGet (listings (runRegs demo sampleRegCfg [(5, OpPublish (sampleListing (Some ''lst_0'') ''v2'' ''100''))] sampleReg)) ''lst_0'' = Some l"
    "l_provider l = l_provider (listingOf ''lst_0'' (sampleListing None ''v1'' ''100''))"
    using index_stays_authentic [OF sampleReg_ok, of sampleRegCfg "[(5, OpPublish (sampleListing (Some ''lst_0'') ''v2'' ''100''))]"] by blast
  then show ?thesis by (auto simp: sampleListing_sel)
qed

section \<open>Publishing\<close>

lemma numerals_read: "readInt ''90'' = Some 90" "readInt ''2'' = Some 2" "readInt ''1'' = Some 1"
  by code_simp+

lemma sample_provenance: "now < 90 \<Longrightarrow> idn w = idn sampleReg \<Longrightarrow>
   checkProvenance demo now (sampleListing i v st) w = (Inr (), w)"
  using sampleListing_signed by (simp add: checkProvenance_ok sampleListing_sel numerals_read sampleReg_sel)

lemma sample_update:
  "publishListing demo 5 (sampleListing (Some ''lst_0'') v st) sampleReg =
     (Inr (listingOf ''lst_0'' (sampleListing (Some ''lst_0'') v st)),
      sampleReg\<lparr>listings := [(''lst_0'', listingOf ''lst_0'' (sampleListing (Some ''lst_0'') v st))]\<rparr>)"
  by (simp add: publishListing_def bindE_app [of "checkProvenance _ _ _"] sample_provenance listingIdFor_def exec_simps
      sampleListing_sel sampleReg_sel putListing_def)

theorem stale_listing_replayed_witness:
  "\<exists>l w1 w2. publishListing demo 5 (sampleListing (Some ''lst_0'') ''v1'' ''100'') sampleReg = (Inr l, w1) \<and>
     publishListing demo 7 (sampleListing (Some ''lst_0'') ''v1'' ''100'')
       (runRegs demo sampleRegCfg [(6, OpPublish (sampleListing (Some ''lst_0'') ''v2'' ''100''))] w1) = (Inr l, w2) \<and>
     mapGet (listings w2) ''lst_0'' = Some l"
proof -
  have "dateMs demo (lv_expires (l_provenance (sampleListing (Some ''lst_0'') ''v1'' ''100''))) = Some 90"
    by (simp add: sampleListing_sel numerals_read)
  then show ?thesis
    using stale_listing_replayed [OF sample_update [of "''v1''" "''100''"] sampleListing_sel(2) sampleReg_ok, of 90 7 sampleRegCfg
        "[(6, OpPublish (sampleListing (Some ''lst_0'') ''v2'' ''100''))]"] sample_update [of "''v1''" "''100''"]
    by auto
qed

section \<open>Queries\<close>

lemma issueMatches_runs:
  "\<forall>s \<in> set ss. lp_rails (l_pricing (sl_listing s)) \<noteq> [] \<Longrightarrow> \<exists>ms w'. issueMatches E cs now rq ss w = (Inr ms, w')"
proof (induction ss arbitrary: w)
  case (Cons s ss)
  obtain r rs where "lp_rails (l_pricing (sl_listing s)) = r # rs" using Cons.prems by (cases "lp_rails (l_pricing (sl_listing s))") auto
  then have "\<exists>q w1. issueQuote E cs now (sl_listing s) rq w = (Inr q, w1)"
    by (simp add: issueQuote_def newRegId_def putQuote_def exec_simps Let_def)
  then obtain q w1 where q: "issueQuote E cs now (sl_listing s) rq w = (Inr q, w1)" by blast
  obtain ms w2 where "issueMatches E cs now rq ss w1 = (Inr ms, w2)" using Cons.IH [of w1] Cons.prems by auto
  then show ?case using q by (simp add: bindE_app [of "issueQuote _ _ _ _ _"] bindE_app [of "issueMatches _ _ _ _ _"])
qed simp

lemma queryRegistry_runs:
  assumes "verifyAs E now (regSkew cfg) (capabilityQueryObj q) (sigOpts (cq_requester q)) w = (Inr (), w\<lparr>non := n\<rparr>)"
    and "resolveReputations E (regRepSigner cfg) now (distinctFirst (map l_provider (mapValues (listings w)))) (rep w) = (Inr reps, rp)"
    and "discover E q (isoOf E now) (reputationIn reps) (mapValues (listings w)) = Inr ranked"
    and "\<forall>s \<in> set ranked. lp_rails (l_pricing (sl_listing s)) \<noteq> []"
  shows "\<exists>ms w'. queryRegistry E cfg now q w = (Inr (cq_id q, ms), w')"
proof -
  obtain ms w' where "issueMatches E (regSigner cfg) now (cq_requester q) ranked (w\<lparr>non := n, rep := rp\<rparr>) = (Inr ms, w')"
    using issueMatches_runs [OF assms(4)] by blast
  then show ?thesis using assms(1-3)
    by (simp add: queryRegistry_def bindE_app [of "verifyAs _ _ _ _ _"] bindE_app [of "gets _"] bindE_app [of "inReputation _"] core_app
        liftSum_def bindE_ret bindE_app [of "issueMatches _ _ _ _ _"])
qed

definition coldProvider :: provider_rep where
  "coldProvider = \<lparr>pr_trust = computeTrust demo emptyMetrics, pr_jobs = 0, pr_history = 0, pr_lastSettled = None\<rparr>"

lemma sample_reps:
  "resolveReputations demo cs now (distinctFirst (map l_provider (mapValues (listings sampleReg)))) (rep sampleReg) =
     (Inr [(''did:b'', coldProvider)], emptyReputation)"
  by (simp add: sampleReg_sel sampleListing_sel distinctFirst_def resolveReputation_def getSnapshot_def getRaw_def emptyReputation_def
      exec_simps coldProvider_def)

lemma cold_trusted: "pr_trust (reputationIn [(''did:b'', coldProvider)] d) \<noteq> None"
proof -
  have "readRat ''0'' = Some 0" by code_simp
  then show ?thesis by (simp add: reputationIn_def orElse_def coldProvider_def computeTrust_def emptyMetrics_def demo_def)
qed

lemma sampleQuery_verifies:
  "fst (verifySignedObject demo 5 2 (resolverOf demo (idn sampleReg)) (capabilityQueryObj sampleCapQuery) (sigOpts ''did:a'') []) = Inr ()"
  by code_simp

lemma sample_verified:
  obtains n where "verifyAs demo 5 (regSkew sampleRegCfg) (capabilityQueryObj sampleCapQuery) (sigOpts (cq_requester sampleCapQuery)) sampleReg =
    (Inr (), sampleReg\<lparr>non := n\<rparr>)"
  using sampleQuery_verifies
  by (cases "verifySignedObject demo 5 2 (resolverOf demo (idn sampleReg)) (capabilityQueryObj sampleCapQuery) (sigOpts ''did:a'') []")
    (simp add: verifyAs_def zoom_app sampleReg_sel sampleRegCfg_def sampleCapQuery_def Let_def)

lemma sample_discovered:
  "(case discover demo sampleCapQuery (isoOf demo 5) (reputationIn [(''did:b'', coldProvider)]) (mapValues (listings sampleReg)) of
      Inr ss \<Rightarrow> map (lp_rails \<circ> l_pricing \<circ> sl_listing) ss = [[''x402'']] | Inl e \<Rightarrow> False)"
  by code_simp

lemma sample_query_runs:
  obtains m ms w' where "queryRegistry demo sampleRegCfg 5 sampleCapQuery sampleReg = (Inr (''q1'', m # ms), w')"
proof -
  obtain n where v: "verifyAs demo 5 (regSkew sampleRegCfg) (capabilityQueryObj sampleCapQuery) (sigOpts (cq_requester sampleCapQuery)) sampleReg =
    (Inr (), sampleReg\<lparr>non := n\<rparr>)" by (rule sample_verified)
  obtain ranked where d: "discover demo sampleCapQuery (isoOf demo 5) (reputationIn [(''did:b'', coldProvider)]) (mapValues (listings sampleReg)) = Inr ranked"
    and r: "map (lp_rails \<circ> l_pricing \<circ> sl_listing) ranked = [[''x402'']]"
    using sample_discovered
    by (cases "discover demo sampleCapQuery (isoOf demo 5) (reputationIn [(''did:b'', coldProvider)]) (mapValues (listings sampleReg))") simp_all
  have rails: "\<forall>s \<in> set ranked. lp_rails (l_pricing (sl_listing s)) \<noteq> []"
  proof
    fix s
    assume "s \<in> set ranked"
    then have "(lp_rails \<circ> l_pricing \<circ> sl_listing) s \<in> set [[''x402'']]" unfolding r [symmetric] by (simp only: set_map image_eqI)
    then show "lp_rails (l_pricing (sl_listing s)) \<noteq> []" by auto
  qed
  obtain ms w' where run: "queryRegistry demo sampleRegCfg 5 sampleCapQuery sampleReg = (Inr (cq_id sampleCapQuery, ms), w')"
    using queryRegistry_runs [OF v sample_reps d rails] by blast
  obtain n' ranked' where d': "discover demo sampleCapQuery (isoOf demo 5) (reputationIn [(''did:b'', coldProvider)]) (mapValues (listings sampleReg)) = Inr ranked'"
    "issueMatches demo (regSigner sampleRegCfg) 5 (cq_requester sampleCapQuery) ranked' (sampleReg\<lparr>non := n', rep := emptyReputation\<rparr>) = (Inr ms, w')"
    by (rule queryRegistry_ok [OF run sample_reps])
  have "length ms = length ranked" using issueMatches_ok(3) [OF d'(2)] d d'(1) by simp
  also have "\<dots> = 1" using arg_cong [OF r, of length] by simp
  finally obtain m where "ms = [m]" by (cases ms) auto
  moreover have "cq_id sampleCapQuery = ''q1''" by (simp add: sampleCapQuery_def Let_def)
  ultimately show ?thesis using run that by simp
qed

theorem capability_query_exact_witness:
  "\<exists>m ms w'. queryRegistry demo sampleRegCfg 5 sampleCapQuery sampleReg = (Inr (''q1'', m # ms), w') \<and>
     rm_listing m \<in> fst ` set (listings sampleReg) \<and> sorted (map matchKey (m # ms))"
proof -
  obtain m ms w' where run: "queryRegistry demo sampleRegCfg 5 sampleCapQuery sampleReg = (Inr (''q1'', m # ms), w')"
    by (rule sample_query_runs)
  have ok: "registry_ok demo sampleReg" using sampleReg_ok by (simp add: index_ok_def)
  have iso: "dateMs demo (isoOf demo 5) \<noteq> None" by simp
  note q = capability_query_exact [OF ok run sample_reps _ iso]
  have "sorted (map matchKey (m # ms))" "\<forall>x \<in> set (m # ms). \<exists>l. mapGet (listings sampleReg) (rm_listing x) = Some l"
    using q cold_trusted by blast+
  then have "sorted (map matchKey (m # ms))" "rm_listing m \<in> fst ` set (listings sampleReg)" by (auto dest: map_of_SomeD intro: rev_image_eqI)
  then show ?thesis using run by blast
qed

lemma registryKey: "publicKeyFor (resolverOf demo (idn sampleWorld)) (registryDid sampleCfg) None = Some (cs_sk registrySigner)"
  "\<not> isRevokedAt (resolverOf demo (idn sampleWorld)) (registryDid sampleCfg)"
  by (simp_all add: sampleWorld_def Let_def core.defs sampleCore_def emptyCore_def resolverOf_def passportSigningKey_def sampleCfg_def registrySigner_def)

theorem quotes_are_honoured_witness:
  "\<exists>m ms w'. queryRegistry demo sampleRegCfg 5 sampleCapQuery sampleReg = (Inr (''q1'', m # ms), w') \<and>
     validateQuote demo sampleCfg 100 (rm_quote m) (rm_listing m) sampleWorld = (Inr (), sampleWorld) \<and>
     validateQuote demo sampleCfg 300005 (rm_quote m) (rm_listing m) sampleWorld = (Inl PaymentRequiredError, sampleWorld)"
proof -
  obtain m ms w' where run: "queryRegistry demo sampleRegCfg 5 sampleCapQuery sampleReg = (Inr (''q1'', m # ms), w')"
    by (rule sample_query_runs)
  have cs: "regSigner sampleRegCfg = registrySigner" by (simp add: sampleRegCfg_def)
  have dates: "\<forall>t. dateMs demo (isoOf demo t) = Some t" by simp
  have "\<forall>later. validateQuote demo sampleCfg later (rm_quote m) (rm_listing m) sampleWorld =
       (if later < 5 + QUOTE_TTL_MS then Inr () else Inl PaymentRequiredError, sampleWorld)"
    using quotes_are_honoured [OF sampleReg_ok run list.set_intros(1) _ dates registryKey] demo_jws unfolding cs by blast
  then show ?thesis using run by (simp add: QUOTE_TTL_MS_def)
qed

section \<open>A malformed stake, and the dry run\<close>

lemma sample_create:
  "\<exists>l w1. publishListing demo 5 (sampleListing None ''v1'' ''lots'') sampleReg = (Inr l, w1)"
  by (simp add: publishListing_def bindE_app [of "checkProvenance _ _ _"] sample_provenance listingIdFor_def newRegId_def exec_simps
      sampleListing_sel putListing_def)

lemma sample_passes: "dropReason demo sampleCapQuery (isoOf demo 6) rf (listingOf i (sampleListing None ''v1'' ''lots'')) = Inr None"
proof -
  let ?l = "listingOf i (sampleListing None ''v1'' ''lots'')"
  have l: "l_status ?l = Active_Listing" "lc_taxonomy (l_capability ?l) = ''doc.extract''" "lv_expires (l_provenance ?l) = ''90''"
    by (simp_all add: listingOf_def listing.defs listing_body.defs sampleListing_def signedListing_def rawListing_def)
  then have "listingIsActive demo ?l (isoOf demo 6)" by (simp add: listingIsActive_def numerals_read)
  moreover have "capabilityMatches sampleCapQuery ?l" using l by (simp add: capabilityMatches_def sampleCapQuery_def Let_def)
  moreover have "cq_io sampleCapQuery = None" "cq_constraints sampleCapQuery = None" by (simp_all add: sampleCapQuery_def Let_def)
  ultimately show ?thesis by (simp add: dropReason_def schemaDrop_def priceDrop_def constraintDrop_def noConstraints_def)
qed

theorem malformed_stake_breaks_queries_witness:
  "\<exists>l w1 e w2. publishListing demo 5 (sampleListing None ''v1'' ''lots'') sampleReg = (Inr l, w1) \<and>
     queryRegistry demo sampleRegCfg 6 sampleCapQuery w1 = (Inl e, w2)"
proof -
  obtain l w1 where p: "publishListing demo 5 (sampleListing None ''v1'' ''lots'') sampleReg = (Inr l, w1)" using sample_create by blast
  obtain lid where l: "l = listingOf lid (sampleListing None ''v1'' ''lots'')" by (rule publishListing_ok [OF p])
  have "readRat ''lots'' = None" by code_simp
  then have s: "lk_slashable (la_stake (l_attestations (sampleListing None ''v1'' ''lots'')))"
    "bigVal demo (lk_amount (la_stake (l_attestations (sampleListing None ''v1'' ''lots'')))) = None"
    by (simp_all add: sampleListing_sel)
  have "\<forall>rf. dropReason demo sampleCapQuery (isoOf demo 6) rf l = Inr None" unfolding l using sample_passes by blast
  from malformed_stake_breaks_queries [OF p s this, of sampleRegCfg] p show ?thesis by blast
qed

lemma sample_dry_run: "\<exists>r w'. dryRun demo sampleSigner 5 ''lst_0'' sampleReg = (Inr r, w')"
proof -
  let ?l = "listingOf ''lst_0'' (sampleListing None ''v1'' ''100'')"
  have "ld_supported (l_dryRun ?l)" "l_sample ?l = None"
    by (simp_all add: listingOf_def listing.defs listing_body.defs sampleListing_def signedListing_def rawListing_def)
  then show ?thesis by (simp add: dryRun_def getListing_def exec_simps sampleReg_sel dryRunOutput_def Let_def)
qed

theorem dry_run_verifiable_witness:
  "\<exists>r w'. dryRun demo sampleSigner 5 ''lst_0'' sampleReg = (Inr r, w') \<and>
     verifyDetached demo (JObj (dryRunObj r)) (dr_sig r) (cs_sk sampleSigner)"
proof -
  obtain r w' where "dryRun demo sampleSigner 5 ''lst_0'' sampleReg = (Inr r, w')" using sample_dry_run by blast
  then show ?thesis using dry_run_verifiable [OF _ demo_jws] by blast
qed

end
