(* ===== verification/Mailroom_Demo.thy ===== *)
theory Mailroom_Demo
  imports Mailroom_Spec
begin

text \<open>
  The properties of the mailroom at concrete inputs: the buyer \<open>did:a\<close> negotiates with the provider
  \<open>did:b\<close>, who quoted 100 in the thread \<open>t1\<close>; the buyer has sent the provider a quote of its own with
  the same id in another thread. The thread \<open>t0\<close> of two other agents is closed.
\<close>

section \<open>Sample inputs\<close>

definition quoteBody :: "string \<Rightarrow> (string \<times> json) list" where
  "quoteBody a = [(''quote'', JObj [(''quote_id'', JStr ''q1''), (''listing_id'', JStr ''l1''),
     (''price'', JObj [(''amount'', JStr a), (''currency'', JStr ''USDC'')])])]"

definition sampleMsg :: "string \<Rightarrow> string \<Rightarrow> string \<Rightarrow> string \<Rightarrow> string \<Rightarrow> string \<Rightarrow> message" where
  "sampleMsg i t a b price h = \<lparr>msg_id = i, thread_id = t, in_reply_to = None, m_from = a, m_to = b, m_type = MQuote,
     m_body = quoteBody price, m_refs = None,
     m_postage = Some \<lparr>po_amount = ''2'', po_currency = ''USDC'', po_escrow = h\<rparr>, m_nonce = i, m_iat = ''1'', m_exp = ''50'',
     m_sig = ''s''\<rparr>"

definition sampleThread :: "string \<Rightarrow> thread_state \<Rightarrow> string \<Rightarrow> string \<Rightarrow> thread_record" where
  "sampleThread t s a b = \<lparr>th_id = t, th_state = s, th_opener = a, th_counterparty = b, negotiated = Some ''q1'',
     th_listing = Some ''l1'', th_updatedAt = ''2''\<rparr>"

definition sampleMail :: mail_world where
  "sampleMail = (let q = \<lparr>cursor = 1, smsg = sampleMsg ''m1'' ''t1'' ''did:b'' ''did:a'' ''100'' ''hold_9''\<rparr>;
       f = \<lparr>cursor = 2, smsg = sampleMsg ''m2'' ''t2'' ''did:a'' ''did:b'' ''1'' ''hold_0''\<rparr>;
       pass = \<lparr>did = ''did:b'', controller = ''did:b'', keys = [\<lparr>key_id = ''#1'', key_pub = ''B''\<rparr>], services = [],
         delegation_ref = None, kyc_level = Unverified, pass_sig = ''s''\<rparr>;
       w = core.extend (sampleCore\<lparr>wal := snd (bindE (credit demo ''did:a'' (usdc ''100''))
           (\<lambda>_. hold demo 1 ''did:a'' (usdc ''2'') ''postage:m2'') emptyWallet)\<rparr>)
         \<lparr>mlog = [q, f], mById = [(''m1'', q), (''m2'', f)], mByRecipient = [(''did:a'', [q]), (''did:b'', [f])],
          nextCursor = 3, threads = [(''t0'', sampleThread ''t0'' TClosed ''did:b'' ''did:c''),
            (''t1'', sampleThread ''t1'' TOffered ''did:a'' ''did:b''), (''t2'', sampleThread ''t2'' TOffered ''did:a'' ''did:b'')],
          postageTotals = [], webhooks = [], flagged = [], mailDrawn = 0\<rparr>
     in w\<lparr>idn := (idn w)\<lparr>passports := (''did:b'', pass) # passports (idn w)\<rparr>\<rparr>)"

definition sampleMailCfg :: mail_cfg where
  "sampleMailCfg = mailConfig sampleSigner sampleSigner 2 (Some ''2'') None None None"

definition signedSend :: "send_input \<Rightarrow> send_input" where
  "signedSend i = i\<lparr>mi_sig := signDetached demo (JObj (stripForSigning (sendObj i) [''sig''])) ''K'' ''k''\<rparr>"

definition sampleAccept :: send_input where
  "sampleAccept = signedSend \<lparr>mi_msgId = ''m3'', mi_thread = None, mi_replyTo = Some (Some ''m1''), mi_from = ''did:a'', mi_to = ''did:b'',
     mi_refs = None, mi_postage = None, mi_nonce = ''n3'', mi_iat = ''4'', mi_exp = ''50'', mi_sig = [], mi_type = MAccept,
     mi_body = [(''accepts_quote_id'', JStr ''q1'')]\<rparr>"

definition sampleIntruder :: send_input where
  "sampleIntruder = signedSend \<lparr>mi_msgId = ''m4'', mi_thread = Some ''t0'', mi_replyTo = None, mi_from = ''did:a'', mi_to = ''did:b'',
     mi_refs = None, mi_postage = None, mi_nonce = ''n4'', mi_iat = ''4'', mi_exp = ''50'', mi_sig = [], mi_type = MInquiry,
     mi_body = []\<rparr>"

definition sampleFlag :: "flag_kind \<Rightarrow> string \<Rightarrow> flag_input" where
  "sampleFlag k n = (let i = \<lparr>fi_flagger = ''did:b'', fi_kind = k, fi_nonce = n, fi_iat = ''4'', fi_exp = ''50'', fi_sig = []\<rparr>
     in i\<lparr>fi_sig := signDetached demo (JObj (stripForSigning (flagObj i) [''sig''])) ''B'' ''k''\<rparr>)"

lemma sampleMail_ok: "core_ok demo sampleMail"
proof -
  have "keeps (wallet_ok demo) (bindE (credit demo ''did:a'' (usdc ''100'')) (\<lambda>_. hold demo 1 ''did:a'' (usdc ''2'') ''postage:m2''))"
    by (intro keeps_rules)
  from keepsD [OF this wallet_ok_empty [OF demo_lib_ok]]
  have "wallet_ok demo (snd (bindE (credit demo ''did:a'' (usdc ''100'')) (\<lambda>_. hold demo 1 ''did:a'' (usdc ''2'') ''postage:m2'') emptyWallet))" .
  then show ?thesis using sampleCore_ok(1) by (simp add: core_ok_def sampleMail_def core.defs Let_def)
qed

lemma sampleAccept_price:
  "(case fst (send demo sampleMailCfg 5 sampleAccept sampleMail) of
      Inr r \<Rightarrow> map_option (at_amount \<circ> ag_terms) (sr_agreement r) = Some (Some (JStr ''1'')) | Inl e \<Rightarrow> False)"
  by code_simp

lemma sampleIntruder_runs:
  "(case fst (send demo sampleMailCfg 5 sampleIntruder sampleMail) of Inr r \<Rightarrow> True | Inl e \<Rightarrow> False)"
  by code_simp

section \<open>The flags\<close>

lemma flag_legit_ok:
  assumes v: "verifyAs E now (mailSkew cfg) (flagObj input) (sigOpts (fi_flagger input)) w = (Inr (), w\<lparr>non := n\<rparr>)"
    and m: "mapGet (mById w) i = Some s" "m_to (smsg s) = fi_flagger input" "m_postage (smsg s) = Some po" "po_escrow po \<noteq> ''''"
      "mapGet (flagged w) i = None" "fi_kind input = Legit"
    and r: "release E (po_escrow po) (wal w) = (Inr (), st)"
  shows "flagMessage E cfg now i input w = (Inr FlagReleased, w\<lparr>non := n, wal := st, flagged := mapSet i FlagReleased (flagged w)\<rparr>)"
  using assms by (simp add: flagMessage_def exec_simps settleFlag_def recordFlag_def core_app)

lemma flag_repeat_ok:
  assumes "verifyAs E now (mailSkew cfg) (flagObj input) (sigOpts (fi_flagger input)) w = (Inr (), w\<lparr>non := n\<rparr>)"
    "mapGet (mById w) i = Some s" "m_to (smsg s) = fi_flagger input" "m_postage (smsg s) = Some po" "po_escrow po \<noteq> ''''"
    "mapGet (flagged w) i = Some oc"
  shows "flagMessage E cfg now i input w = (Inr oc, w\<lparr>non := n\<rparr>)"
  using assms by (simp add: flagMessage_def exec_simps)

definition flagVerify :: "int \<Rightarrow> flag_input \<Rightarrow> nonce_st \<Rightarrow> (app_error + unit) \<times> nonce_st" where
  "flagVerify now i = verifySignedObject demo now 2 (resolverOf demo (idn sampleMail)) (flagObj i) (sigOpts (fi_flagger i))"

lemma sampleFlag_verified:
  "(case flagVerify 5 (sampleFlag Legit ''n5'') [] of (Inr _, n) \<Rightarrow> fst (flagVerify 6 (sampleFlag Spam ''n6'') n) = Inr () | _ \<Rightarrow> False)"
  by code_simp

lemma sampleFlag_release: "fst (release demo ''hold_0'' (wal sampleMail)) = Inr ()"
  by code_simp

lemma sampleFlags_run:
  obtains w1 w2 where "flagMessage demo sampleMailCfg 5 ''m2'' (sampleFlag Legit ''n5'') sampleMail = (Inr FlagReleased, w1)"
    "flagMessage demo sampleMailCfg 6 ''m2'' (sampleFlag Spam ''n6'') w1 = (Inr FlagReleased, w2)"
proof -
  obtain n n2 where n: "flagVerify 5 (sampleFlag Legit ''n5'') [] = (Inr (), n)" "flagVerify 6 (sampleFlag Spam ''n6'') n = (Inr (), n2)"
    using sampleFlag_verified by (cases "flagVerify 5 (sampleFlag Legit ''n5'') []") (auto split: sum.splits, metis prod.collapse)
  obtain st where st: "release demo ''hold_0'' (wal sampleMail) = (Inr (), st)" using sampleFlag_release by (metis prod.collapse)
  let ?s = "\<lparr>cursor = 2, smsg = sampleMsg ''m2'' ''t2'' ''did:a'' ''did:b'' ''1'' ''hold_0''\<rparr>"
  let ?p = "\<lparr>po_amount = ''2'', po_currency = ''USDC'', po_escrow = ''hold_0''\<rparr>"
  have parts: "mapGet (mById sampleMail) ''m2'' = Some ?s" "flagged sampleMail = []" "non sampleMail = []" "mailSkew sampleMailCfg = 2"
    by (simp_all add: sampleMail_def Let_def core.defs sampleCore_def emptyCore_def sampleMailCfg_def mailConfig_def)
  have s: "m_to (smsg ?s) = fi_flagger (sampleFlag k x)" "m_postage (smsg ?s) = Some ?p" "fi_kind (sampleFlag k x) = k" for k x
    by (simp_all add: sampleMsg_def sampleFlag_def Let_def)
  let ?w1 = "sampleMail\<lparr>non := n, wal := st, flagged := [(''m2'', FlagReleased)]\<rparr>"
  have v1: "verifyAs demo 5 (mailSkew sampleMailCfg) (flagObj (sampleFlag Legit ''n5'')) (sigOpts (fi_flagger (sampleFlag Legit ''n5'')))
      sampleMail = (Inr (), sampleMail\<lparr>non := n\<rparr>)"
    using n(1) by (simp add: verifyAs_def zoom_app flagVerify_def parts)
  have one: "flagMessage demo sampleMailCfg 5 ''m2'' (sampleFlag Legit ''n5'') sampleMail = (Inr FlagReleased, ?w1)"
    using flag_legit_ok [OF v1 parts(1) s(1,2) _ _ s(3)] st parts(2) by simp
  have v2: "verifyAs demo 6 (mailSkew sampleMailCfg) (flagObj (sampleFlag Spam ''n6'')) (sigOpts (fi_flagger (sampleFlag Spam ''n6'')))
      ?w1 = (Inr (), ?w1\<lparr>non := n2\<rparr>)"
    using n(2) by (simp add: verifyAs_def zoom_app flagVerify_def parts)
  have "flagMessage demo sampleMailCfg 6 ''m2'' (sampleFlag Spam ''n6'') ?w1 = (Inr FlagReleased, ?w1\<lparr>non := n2\<rparr>)"
    by (rule flag_repeat_ok [OF v2 _ s(1,2)]) (simp_all add: parts)
  then show ?thesis using that one by blast
qed

theorem flag_settles_once_witness:
  "\<exists>w1 w2 :: mail_world. flagMessage demo sampleMailCfg 5 ''m2'' (sampleFlag Legit ''n5'') sampleMail = (Inr FlagReleased, w1) \<and>
     flagMessage demo sampleMailCfg 6 ''m2'' (sampleFlag Spam ''n6'') w1 = (Inr FlagReleased, w2) \<and> wal w2 = wal w1"
proof -
  obtain w1 w2 where w: "flagMessage demo sampleMailCfg 5 ''m2'' (sampleFlag Legit ''n5'') sampleMail = (Inr FlagReleased, w1)"
    "flagMessage demo sampleMailCfg 6 ''m2'' (sampleFlag Spam ''n6'') w1 = (Inr FlagReleased, w2)" by (rule sampleFlags_run)
  have "wal w2 = wal w1"
    using flag_settles_once [OF w(1), of 6 "sampleFlag Spam ''n6''" "[]" FlagReleased w2] w(2) by simp
  then show ?thesis using w by blast
qed

section \<open>The messages\<close>

lemma sampleAccept_run:
  obtains r w' a where "send demo sampleMailCfg 5 sampleAccept sampleMail = (Inr r, w')" "sr_agreement r = Some a"
    "at_amount (ag_terms a) = Some (JStr ''1'')"
  using sampleAccept_price that
  by (cases "send demo sampleMailCfg 5 sampleAccept sampleMail") (auto split: sum.splits)

lemma sampleAccept_parts: "mi_type sampleAccept = MAccept" "mi_to sampleAccept = ''did:b''" "mi_from sampleAccept = ''did:a''"
  "mi_replyTo sampleAccept = Some (Some ''m1'')"
  by (simp_all add: sampleAccept_def signedSend_def)

theorem agreement_takes_first_quote_witness:
  "\<exists>r w' a. send demo sampleMailCfg 5 sampleAccept sampleMail = (Inr r, w') \<and> sr_agreement r = Some a \<and>
     at_amount (ag_terms a) = Some (JStr ''1'') \<and>
     (\<exists>s qr. find (carries (ag_quote a)) (inboxOf ''did:b'' 0 1000 w' @ inboxOf ''did:a'' 0 1000 w') = Some s \<and>
       tryExtractQuote (m_body (smsg s)) = Some qr \<and> priceField (qr_price qr) ''amount'' = Some (JStr ''1''))"
proof (rule sampleAccept_run)
  fix r w' a
  assume r: "send demo sampleMailCfg 5 sampleAccept sampleMail = (Inr r, w')" "sr_agreement r = Some a"
    "at_amount (ag_terms a) = Some (JStr ''1'')"
  have "\<exists>s qr. find (carries (ag_quote a)) (inboxOf ''did:b'' 0 1000 w' @ inboxOf ''did:a'' 0 1000 w') = Some s \<and>
       tryExtractQuote (m_body (smsg s)) = Some qr \<and> priceField (qr_price qr) ''amount'' = Some (JStr ''1'')"
    using agreement_takes_first_quote [OF sampleMail_ok r(1) sampleAccept_parts(1)] r(2,3) by (auto simp: sampleAccept_parts)
  then show ?thesis using r by blast
qed

theorem reply_follows_machine_witness:
  "\<exists>r w' pm th th'. send demo sampleMailCfg 5 sampleAccept sampleMail = (Inr r, w') \<and>
     mapGet (mById sampleMail) ''m1'' = Some pm \<and> mapGet (threads sampleMail) (thread_id (smsg pm)) = Some th \<and>
     mapGet (threads w') (thread_id (smsg pm)) = Some th' \<and> threadStep (th_state th) MAccept (th_state th')"
proof (rule sampleAccept_run)
  fix r w' a
  assume r: "send demo sampleMailCfg 5 sampleAccept sampleMail = (Inr r, w')"
  have p: "replyTarget (mi_replyTo sampleAccept) = Some ''m1''" by (simp add: sampleAccept_parts)
  show ?thesis using reply_follows_machine [OF sampleMail_ok r p] r by (auto simp: sampleAccept_parts)
qed

theorem send_authorised_and_paid_witness:
  "\<exists>r w' dl. send demo sampleMailCfg 5 sampleAccept sampleMail = (Inr r, w') \<and> maySend demo 5 sampleAccept dl sampleMail \<and>
     heldAt demo (rows (wal w')) (walletKey ''did:a'' ''USDC'') = heldAt demo (rows (wal sampleMail)) (walletKey ''did:a'' ''USDC'') + 2"
proof (rule sampleAccept_run)
  fix r w' a
  assume r: "send demo sampleMailCfg 5 sampleAccept sampleMail = (Inr r, w')"
  have c: "postageCurrency sampleMailCfg = ''USDC''" "postageAmount sampleMailCfg = ''2''" by (simp_all add: sampleMailCfg_def mailConfig_def)
  have n: "bv demo ''2'' = 2" by code_simp
  show ?thesis using send_authorised_and_paid [OF sampleMail_ok r] r by (auto simp: sampleAccept_parts c n)
qed

theorem opener_hijacks_thread_witness:
  "\<exists>r w' th th'. send demo sampleMailCfg 5 sampleIntruder sampleMail = (Inr r, w') \<and>
     mapGet (threads sampleMail) ''t0'' = Some th \<and> th_state th = TClosed \<and> mi_from sampleIntruder \<notin> {th_opener th, th_counterparty th} \<and>
     mapGet (threads w') ''t0'' = Some th' \<and> th_state th' = TQuoting"
proof -
  obtain r w' where r: "send demo sampleMailCfg 5 sampleIntruder sampleMail = (Inr r, w')"
    using sampleIntruder_runs by (cases "send demo sampleMailCfg 5 sampleIntruder sampleMail") (auto split: sum.splits)
  have i: "replyTarget (mi_replyTo sampleIntruder) = None" "mi_thread sampleIntruder = Some ''t0''" "mi_type sampleIntruder = MInquiry"
    "mi_from sampleIntruder = ''did:a''"
    by (simp_all add: sampleIntruder_def signedSend_def)
  have t: "mapGet (threads sampleMail) ''t0'' = Some (sampleThread ''t0'' TClosed ''did:b'' ''did:c'')"
    by (simp add: sampleMail_def Let_def core.defs)
  show ?thesis using opener_hijacks_thread [OF sampleMail_ok r i(1,2) t] r t
    by (auto simp: i nextThreadState_def sampleThread_def)
qed

theorem inbox_polling_complete_witness:
  "map (msg_id \<circ> smsg) (pollInbox ''did:b'' 1 0 (runMails demo sampleMailCfg [] sampleMail)) = [''m2'']"
proof -
  have l: "mlog sampleMail = [\<lparr>cursor = 1, smsg = sampleMsg ''m1'' ''t1'' ''did:b'' ''did:a'' ''100'' ''hold_9''\<rparr>,
     \<lparr>cursor = 2, smsg = sampleMsg ''m2'' ''t2'' ''did:a'' ''did:b'' ''1'' ''hold_0''\<rparr>]"
    "mByRecipient sampleMail = [(''did:a'', [\<lparr>cursor = 1, smsg = sampleMsg ''m1'' ''t1'' ''did:b'' ''did:a'' ''100'' ''hold_9''\<rparr>]),
       (''did:b'', [\<lparr>cursor = 2, smsg = sampleMsg ''m2'' ''t2'' ''did:a'' ''did:b'' ''1'' ''hold_0''\<rparr>])]" "nextCursor sampleMail = 3"
    by (simp_all add: sampleMail_def Let_def core.defs)
  then have "log_ok sampleMail" by (auto simp: log_ok_app logged_ok_def sampleMsg_def)
  from inbox_polling_complete [OF this, of "''did:b''" 1 demo sampleMailCfg "[]"]
  show ?thesis by (simp add: l(1) sampleMsg_def)
qed

end
