(* ===== verification/Board_Demo.thy ===== *)
theory Board_Demo
  imports Board_Spec
begin

text \<open>
  The properties of the board at concrete inputs: an offer of \<open>did:b\<close>, a tombstone for it that
  \<open>did:a\<close> publishes, a post whose id is the id of a hold of \<open>did:a\<close>, and a work record of the two
  parties of a receipt.
\<close>

section \<open>Sample inputs\<close>

definition sampleBoardCfg :: board_cfg where
  "sampleBoardCfg = \<lparr>brdSkew = 2, brdRepSigner = sampleSigner\<rparr>"

definition emptyBoard :: board_world where
  "emptyBoard = (let w = core.extend (sampleCore\<lparr>wal := snd (bindE (credit demo ''did:a'' (usdc ''100''))
           (\<lambda>_. hold demo 1 ''did:a'' (usdc ''2'') ''r'') emptyWallet)\<rparr>)
         \<lparr>plog = [], pById = [], headRef = None, subscriptions = [], postFlags = [], forfeitedPosts = [], brdDrawn = 0\<rparr>
     in w\<lparr>idn := (idn w)\<lparr>passports := (''did:b'', \<lparr>did = ''did:b'', controller = ''did:b'',
         keys = [\<lparr>key_id = ''#1'', key_pub = ''B''\<rparr>], services = [], delegation_ref = None, kyc_level = Unverified,
         pass_sig = ''s''\<rparr>) # passports (idn w)\<rparr>\<rparr>)"

definition rawPost :: "string \<Rightarrow> string \<Rightarrow> post_body \<Rightarrow> board_post" where
  "rawPost i a b = \<lparr>bp_id = i, bp_author = a, bp_created = ''4'', bp_body = b, bp_seq = 0, bp_prev = [], bp_hash = [],
     bp_nonce = i, bp_iat = ''4'', bp_exp = ''50'', bp_sig = []\<rparr>"

definition signedPost :: "string \<Rightarrow> board_post \<Rightarrow> board_post" where
  "signedPost sk p = p\<lparr>bp_sig := signDetached demo (JObj (stripForSigning (bodyOf p) (omitFields (postOpts p)))) sk ''k''\<rparr>"

definition sampleOffer :: "string \<Rightarrow> board_post" where
  "sampleOffer i = rawPost i ''did:b'' (Offer \<lparr>of_capability = ''doc.extract'', of_listing = ''l1'',
     of_price = \<lparr>pf_amount = ''10'', pf_currency = ''USDC'', pf_per = ''call''\<rparr>, of_regions = [''eu''], of_expires = ''90'',
     of_stake = \<lparr>pst_amount = ''5'', pst_currency = ''USDC'', pst_slashable = True\<rparr>\<rparr>)"

text \<open>The board with one offer, under the id given.\<close>

definition offerBoard :: "string \<Rightarrow> board_world" where
  "offerBoard i = emptyBoard\<lparr>plog := plog emptyBoard @ [linked demo (sampleOffer i) emptyBoard],
     pById := mapSet (bp_id (sampleOffer i)) (linked demo (sampleOffer i) emptyBoard) (pById emptyBoard),
     headRef := Some (headSeq emptyBoard + 1, bp_hash (linked demo (sampleOffer i) emptyBoard))\<rparr>"

definition sampleTombstone :: board_post where
  "sampleTombstone = signedPost ''K'' (rawPost ''p2'' ''did:a'' (TombstonePost \<lparr>tb_target = ''p1'', tb_reason = ''r''\<rparr>))"

definition sampleQuery :: board_query where
  "sampleQuery = \<lparr>bq_type = None, bq_capability = Some ''doc.extract'', bq_author = None, bq_region = Some ''eu'', bq_since = None,
     bq_until = None, bq_minTrust = None, bq_maxPrice = Some ''10'', bq_cursor = None, bq_limit = 5\<rparr>"

lemma emptyBoard_ok: "board_ok demo emptyBoard" "plog emptyBoard = []" "pById emptyBoard = []"
  by (simp_all add: emptyBoard_def Let_def core.defs board_ok_def partsOk_def boardParts_def)

lemma offerBoard_ok: "board_ok demo (offerBoard i)"
  unfolding offerBoard_def by (rule appendPost_linked [OF emptyBoard_ok(1)]) (simp add: emptyBoard_ok)

lemma offerBoard_core: "core_ok demo (offerBoard i)"
proof -
  have "keeps (wallet_ok demo) (bindE (credit demo ''did:a'' (usdc ''100'')) (\<lambda>_. hold demo 1 ''did:a'' (usdc ''2'') ''r''))"
    by (intro keeps_rules)
  from keepsD [OF this wallet_ok_empty [OF demo_lib_ok]]
  have "wallet_ok demo (snd (bindE (credit demo ''did:a'' (usdc ''100'')) (\<lambda>_. hold demo 1 ''did:a'' (usdc ''2'') ''r'') emptyWallet))" .
  then show ?thesis using sampleCore_ok(1) by (simp add: core_ok_def offerBoard_def emptyBoard_def core.defs Let_def)
qed

section \<open>Publishing goes through\<close>

lemma enforcePostPolicy_ok:
  "activeDelegation E now a (idn w) = Some dl \<Longrightarrow> evaluatePost dl (postAction a t) = Allow \<Longrightarrow>
   enforcePostPolicy E now a t w = (Inr (), w)"
  by (simp add: enforcePostPolicy_def exec_simps evaluate_def Let_def postAction_def)

lemma appendLinked_runs:
  assumes "postType (bp_body p) \<noteq> WorkRecordType \<Longrightarrow> \<exists>fee i st. (\<forall>s :: 'a board_world_scheme. postFee E s = (Inr fee, s)) \<and>
      hold E now (bp_author p) fee (bp_id p) (wal w) = (Inr i, st)"
    and new: "mapGet (pById w) (bp_id p) = None"
  shows "\<exists>r w'. appendLinked E now p (w :: 'a board_world_scheme) = (Inr r, w')"
proof -
  let ?fee = "if postType (bp_body p) \<noteq> WorkRecordType
            then bindE (postFee E) (\<lambda>fee. bindE (inWallet (hold E now (bp_author p) fee (bp_id (linked E p w)))) (\<lambda>_. ret ()))
            else ret ()"
  have "\<exists>w1. ?fee w = (Inr (), w1)"
  proof (cases "postType (bp_body p) = WorkRecordType")
    case False
    then show ?thesis using assms(1) by (auto simp: exec_simps core_app)
  qed simp
  then obtain w1 where f: "?fee w = (Inr (), w1)" by blast
  have "frames boardParts ?fee" by (intro frames_rules) simp
  from frames_out [OF this f] have p1: "boardParts w1 = boardParts w" .
  then have a: "\<exists>w2. appendPost (linked E p w) w1 = (Inr (), w2)"
    using new by (simp add: appendPost_def exec_simps boardParts_def headSeq_def)
  then obtain w2 where a: "appendPost (linked E p w) w1 = (Inr (), w2)" by blast
  have "\<exists>rt w3. maybeAnchor E now n w2 = (Inr rt, w3)" for n
    by (cases rule: appendLedger_out [of E now "''board_anchor''" None "JObj [(''merkle_root'', JStr (merkleRoot E (postHashes w2))),
        (''seq'', JNum (of_nat n))]" w2]) (simp add: maybeAnchor_def exec_simps ANCHOR_EVERY_def)
  then obtain rt w3 where "maybeAnchor E now (bp_seq (linked E p w)) w2 = (Inr rt, w3)" by blast
  moreover have "appendLinked E now p w = bindE ?fee (\<lambda>_. bindE (appendPost (linked E p w)) (\<lambda>_.
     bindE (maybeAnchor E now (bp_seq (linked E p w))) (\<lambda>root. ret (linked E p w, root)))) w"
    unfolding appendLinked_def bindE_app [of "gets _"] gets_app prod.case sum.case ..
  ultimately show ?thesis
    using f a by (simp add: bindE_app [of ?fee] bindE_app [of "appendPost _"] bindE_app [of "maybeAnchor _ _ _"] del: linked_sel)
qed

lemma publishPost_runs:
  fixes w :: "'a board_world_scheme"
  assumes v: "verifyAs E now (brdSkew cfg) (bodyOf p) (postOpts p) w = (Inr (), w\<lparr>non := n\<rparr>)"
    and e: "activeDelegation E now (bp_author p) (idn w) = Some dl" "evaluatePost dl (postAction (bp_author p) (postType (bp_body p))) = Allow"
    and b: "(case bp_body p of WorkRecord f \<Rightarrow> verifyWorkRecord E p f | _ \<Rightarrow> ret ()) (w\<lparr>non := n\<rparr>) = (Inr (), w\<lparr>non := n\<rparr>)"
    and h: "postType (bp_body p) \<noteq> WorkRecordType \<Longrightarrow> \<exists>fee i st. (\<forall>s :: 'a board_world_scheme. postFee E s = (Inr fee, s)) \<and>
      hold E now (bp_author p) fee (bp_id p) (wal w) = (Inr i, st)"
    and new: "mapGet (pById w) (bp_id p) = None"
  shows "\<exists>stored rt w'. publishPost E cfg now p w = (Inr (stored, rt), w')"
proof -
  have "enforcePostPolicy E now (bp_author p) (postType (bp_body p)) (w\<lparr>non := n\<rparr>) = (Inr (), w\<lparr>non := n\<rparr>)"
    by (rule enforcePostPolicy_ok [OF _ e(2)]) (simp add: e(1))
  moreover have "\<exists>r w'. appendLinked E now p (w\<lparr>non := n\<rparr>) = (Inr r, w')"
    by (rule appendLinked_runs) (use h new in simp_all)
  moreover have "publishPost E cfg now p w = appendLinked E now p (w\<lparr>non := n\<rparr>)"
    if "enforcePostPolicy E now (bp_author p) (postType (bp_body p)) (w\<lparr>non := n\<rparr>) = (Inr (), w\<lparr>non := n\<rparr>)"
    using v b that by (simp add: publishPost_def bindE_app [of "verifyAs _ _ _ _ _"] bindE_app [of "enforcePostPolicy _ _ _ _"]
        bindE_app [of "case bp_body p of WorkRecord f \<Rightarrow> verifyWorkRecord E p f | _ \<Rightarrow> ret ()"])
  ultimately show ?thesis by auto
qed

lemma demo_fee: "postFee demo s = (Inr (usdc ''1/100''), s)"
proof -
  have v: "readRat ''0.01'' = Some (1 / 100)" and n: "showRat (1 / 100) = ''1/100''" by code_simp+
  have "bigE demo ''0.01'' s = (Inr (1 / 100), s)" using v by (simp add: bigE_def orThrow_app)
  moreover have "bigNorm demo ''0.01'' = ''1/100''" using v n by (simp add: ratOf_def)
  moreover have "mIsValidAmount demo ''0.01''" using v by (simp add: mIsValidAmount_def)
  ultimately show ?thesis
    by (simp add: postFee_def mFromString_def POST_FEE_AMOUNT_def POST_FEE_CURRENCY_def exec_simps usdc_def del: demo_sel)
qed

lemma idn_emptyBoard: "activeDelegation E now d (idn emptyBoard) = activeDelegation E now d (idn sampleCore)"
  by (simp add: emptyBoard_def Let_def core.defs activeDelegation_def sampleCore_def emptyCore_def)

lemma offerBoard_parts: "idn (offerBoard i) = idn emptyBoard" "wal (offerBoard i) = wal emptyBoard" "non (offerBoard i) = []"
  by (simp_all add: offerBoard_def) (simp add: emptyBoard_def Let_def core.defs sampleCore_def emptyCore_def)

text \<open>The wallet of the board: 98 of the 100 USDC of \<open>did:a\<close> are available, 2 are held by \<open>hold_0\<close>.\<close>

lemma emptyBoard_wallet:
  "wallet_ok demo (wal emptyBoard)" "availAt demo (rows (wal emptyBoard)) (walletKey ''did:a'' ''USDC'') = 98"
  "\<exists>h. mapGet (holds (wal emptyBoard)) ''hold_0'' = Some h \<and> h_did h = ''did:a'' \<and> h_state h = Active"
proof -
  have v: "readRat ''100'' = Some 100" "readRat ''2'' = Some 2" by code_simp+
  have ok0: "wallet_ok demo emptyWallet" by (rule wallet_ok_empty [OF demo_lib_ok])
  obtain s1 where s1: "credit demo ''did:a'' (usdc ''100'') emptyWallet = (Inr (), s1)" "wallet_ok demo s1"
    "availAt demo (rows s1) (walletKey ''did:a'' ''USDC'') = 100"
    using wallet_credit_ok [OF ok0, of "usdc ''100''" 100 "''did:a''"] v by (auto simp: usdc_def emptyWallet_def availAt_def)
  obtain i s2 where s2: "hold demo 1 ''did:a'' (usdc ''2'') ''r'' s1 = (Inr i, s2)" "wallet_ok demo s2"
    "availAt demo (rows s2) (walletKey ''did:a'' ''USDC'') = 98" "lockedBy demo s2 i = Some (''did:a'', ''USDC'', 2)"
    using wallet_hold_ok [OF s1(2), of "usdc ''2''" 2 "''did:a''" 1 "''r''"] v s1(3) by (auto simp: usdc_def)
  have d: "drawn s1 = 0"
    by (rule credit_cases [OF wallet_okD(4,1) [OF ok0], of "''did:a''" "usdc ''100''"]) (use s1 in \<open>auto simp: emptyWallet_def\<close>)
  have z: "showNat 0 = ''0''" by code_simp
  have i: "i = ''hold_0''"
    by (rule hold_cases [OF wallet_okD(4,1) [OF s1(2)], of 1 "''did:a''" "usdc ''2''" "''r''"])
      (use s2(1) d z in \<open>auto\<close>)
  have w: "wal emptyBoard = s2"
    using s1(1) s2(1) by (simp add: emptyBoard_def Let_def core.defs bindE_app [of "credit _ _ _"])
  show "wallet_ok demo (wal emptyBoard)" "availAt demo (rows (wal emptyBoard)) (walletKey ''did:a'' ''USDC'') = 98"
    using s2 w by simp_all
  show "\<exists>h. mapGet (holds (wal emptyBoard)) ''hold_0'' = Some h \<and> h_did h = ''did:a'' \<and> h_state h = Active"
    using s2(4) unfolding i w by (auto simp: lockedBy_def split: option.splits if_splits)
qed

lemma tombstone_verifies:
  "fst (verifySignedObject demo 5 2 (resolverOf demo (idn emptyBoard)) (bodyOf sampleTombstone) (postOpts sampleTombstone) []) = Inr ()"
  by code_simp

lemma tombstone_allowed:
  "map_option (\<lambda>dl. evaluatePost dl (postAction ''did:a'' TombstoneType)) (activeDelegation demo 5 ''did:a'' (idn sampleCore)) = Some Allow"
  by code_simp

lemma sampleTombstone_sel: "bp_body sampleTombstone = TombstonePost \<lparr>tb_target = ''p1'', tb_reason = ''r''\<rparr>"
  "bp_author sampleTombstone = ''did:a''" "bp_id sampleTombstone = ''p2''"
  by (simp_all add: sampleTombstone_def signedPost_def rawPost_def)

lemma sampleTombstone_runs:
  obtains stored rt w1 where "publishPost demo sampleBoardCfg 5 sampleTombstone (offerBoard ''p1'') = (Inr (stored, rt), w1)"
proof -
  let ?w = "offerBoard ''p1''"
  obtain n where v: "verifyAs demo 5 2 (bodyOf sampleTombstone) (postOpts sampleTombstone) ?w = (Inr (), ?w\<lparr>non := n\<rparr>)"
    using tombstone_verifies
    by (cases "verifySignedObject demo 5 2 (resolverOf demo (idn emptyBoard)) (bodyOf sampleTombstone) (postOpts sampleTombstone) []")
      (simp add: verifyAs_def zoom_app offerBoard_parts)
  obtain dl where dl: "activeDelegation demo 5 ''did:a'' (idn sampleCore) = Some dl" "evaluatePost dl (postAction ''did:a'' TombstoneType) = Allow"
    using tombstone_allowed by (cases "activeDelegation demo 5 ''did:a'' (idn sampleCore)") simp_all
  have "readRat ''1/100'' = Some (1 / 100)" by code_simp
  then obtain i st where h: "hold demo 5 ''did:a'' (usdc ''1/100'') ''p2'' (wal ?w) = (Inr i, st)"
    using wallet_hold_ok [OF emptyBoard_wallet(1), of "usdc ''1/100''" "1 / 100" "''did:a''" 5 "''p2''"] emptyBoard_wallet(2)
    by (auto simp: offerBoard_parts usdc_def)
  have "mapGet (pById ?w) ''p2'' = None" by (simp add: offerBoard_def emptyBoard_ok sampleOffer_def rawPost_def)
  then have "\<exists>stored rt w'. publishPost demo sampleBoardCfg 5 sampleTombstone ?w = (Inr (stored, rt), w')"
    using v dl h by (intro publishPost_runs [where n = n and dl = dl])
      (auto simp: sampleTombstone_sel sampleBoardCfg_def demo_fee offerBoard_parts idn_emptyBoard)
  then show ?thesis using that by blast
qed

section \<open>The log and the query\<close>

theorem board_append_only_witness:
  "(\<exists>ps. plog (runBoards demo sampleBoardCfg [(5, OpPost sampleTombstone)] (offerBoard ''p1'')) = plog (offerBoard ''p1'') @ ps)"
  using board_append_only [OF offerBoard_ok [of "''p1''"], of sampleBoardCfg "[(5, OpPost sampleTombstone)]"] by blast

lemma offerBoard_authors: "map bp_author (plog (offerBoard i)) = [''did:b'']" "accs (rep (offerBoard i)) = []"
  by (simp_all add: offerBoard_def emptyBoard_ok sampleOffer_def rawPost_def)
    (simp add: emptyBoard_def Let_def core.defs sampleCore_def emptyCore_def emptyReputation_def)

lemma offerBoard_trusts:
  "resolveTrusts demo sampleBoardCfg now (distinctFirst (map bp_author (plog (offerBoard i)))) (offerBoard i) =
     (Inr [(''did:b'', Some 0)], offerBoard i)"
  by (simp add: offerBoard_authors distinctFirst_def exec_simps core_app getSnapshot_def)

lemma sampleQuery_survives: "length (boardPage demo 5 sampleQuery (trustIn [(''did:b'', Some 0)]) (plog (offerBoard ''p1''))) = 1"
  by code_simp

theorem board_query_exact_witness:
  "\<exists>page c w'. queryBoard demo sampleBoardCfg 5 sampleQuery (offerBoard ''p1'') = (Inr (page, c), w') \<and>
     map rk_post page = plog (offerBoard ''p1'') \<and> sorted (map boardKey page)"
proof -
  let ?w = "offerBoard ''p1''" and ?tz = "[(''did:b'', Some 0 :: rat option)]"
  let ?page = "boardPage demo 5 sampleQuery (trustIn ?tz) (plog ?w)"
  have run: "queryBoard demo sampleBoardCfg 5 sampleQuery ?w = (Inr (?page, nextBoardCursor sampleQuery ?page), ?w)"
    by (simp add: queryBoard_def bindE_app offerBoard_trusts Let_def)
  have t: "\<forall>d. trustIn ?tz d = Some ((\<lambda>d. 0) d)" by (simp add: trustIn_def)
  note q = board_query_exact [OF offerBoard_ok run offerBoard_trusts t]
  have one: "plog ?w = [linked demo (sampleOffer ''p1'') emptyBoard]" by (simp add: offerBoard_def emptyBoard_ok)
  obtain r where r: "?page = [r]" using sampleQuery_survives by (cases ?page) auto
  have all: "\<forall>r \<in> set ?page. rk_post r \<in> set (plog ?w)" and sorted: "sorted (map boardKey ?page)" using q by blast+
  have "rk_post r \<in> set (plog ?w)" using all r by (metis list.set_intros(1))
  then have "rk_post r = linked demo (sampleOffer ''p1'') emptyBoard" unfolding one by simp
  then have "map rk_post ?page = plog ?w" using r one by (metis list.map)
  then show ?thesis using sorted run by blast
qed

section \<open>Tombstones and flags\<close>

lemma getSnapshot_returns: "\<exists>s st'. getSnapshot E cs now d st = (Inr s, st')"
  by (simp add: getSnapshot_def issueSnapshot_def exec_simps Let_def split: option.split)

lemma resolveTrusts_returns: "\<exists>tz w'. resolveTrusts E cfg now as w = (Inr tz, w')"
proof (induction as arbitrary: w)
  case (Cons a as)
  obtain s st' where "getSnapshot E (brdRepSigner cfg) now a (rep w) = (Inr s, st')" using getSnapshot_returns by blast
  then show ?case using Cons.IH [of "w\<lparr>rep := st'\<rparr>"] by (auto simp: exec_simps core_app)
qed simp

lemma queryBoard_returns: "\<exists>page c w'. queryBoard E cfg now q w = (Inr (page, c), w')"
  using resolveTrusts_returns [of E cfg now "distinctFirst (map bp_author (plog w))" w]
  by (auto simp: queryBoard_def bindE_app Let_def)

theorem foreign_tombstone_hides_witness:
  "\<exists>res w1 page c w2. publishPost demo sampleBoardCfg 5 sampleTombstone (offerBoard ''p1'') = (Inr res, w1) \<and>
     bp_author sampleTombstone \<noteq> bp_author (sampleOffer ''p1'') \<and>
     queryBoard demo sampleBoardCfg 6 sampleQuery (runBoards demo sampleBoardCfg [] w1) = (Inr (page, c), w2) \<and>
     (\<forall>r \<in> set page. bp_id (rk_post r) \<noteq> ''p1'')"
proof -
  obtain stored rt w1 where p: "publishPost demo sampleBoardCfg 5 sampleTombstone (offerBoard ''p1'') = (Inr (stored, rt), w1)"
    by (rule sampleTombstone_runs)
  obtain page c w2 where q: "queryBoard demo sampleBoardCfg 6 sampleQuery (runBoards demo sampleBoardCfg [] w1) = (Inr (page, c), w2)"
    using queryBoard_returns by blast
  have b: "bp_body sampleTombstone = TombstonePost \<lparr>tb_target = ''p1'', tb_reason = ''r''\<rparr>"
    by (simp add: sampleTombstone_def signedPost_def rawPost_def)
  have "bp_author sampleTombstone \<noteq> bp_author (sampleOffer ''p1'')"
    by (simp add: sampleTombstone_def signedPost_def rawPost_def sampleOffer_def)
  then show ?thesis using foreign_tombstone_hides [OF p b q] p q by auto
qed

lemma ingestFlag_returns: "d \<noteq> '''' \<Longrightarrow> \<exists>st'. ingestSignal E cs now d ''post_flag'' 1 st = (Inr (), st')"
  using saveAcc_out [of E cs now d]
  by (auto simp: ingestSignal_def exec_simps accGetOrCreate_def split: option.split)

lemma flag_upheld_runs:
  assumes t: "mapGet (pById w) i = Some target" "bp_author target \<noteq> ''''"
    and v: "verifyAs E now (brdSkew cfg) (flagRequestObj input) (sigOpts (fr_flagger input)) w = (Inr (), w\<lparr>non := n\<rparr>)"
    and f: "mapGet (flaggersOf i w) (fr_flagger input) = None" "flaggersOf i w \<noteq> []" "fr_category input \<noteq> OtherFlag"
      "\<not> List.member (forfeitedPosts w) i"
    and s: "forfeit E i None (wal w) = (Inr (), st)"
  shows "\<exists>res w'. flagPost E cfg now i input w = (Inr res, w') \<and> upheld res"
proof -
  obtain rp where r: "ingestSignal E (brdRepSigner cfg) now (bp_author target) ''post_flag'' 1 (rep w) = (Inr (), rp)"
    using ingestFlag_returns [OF t(2)] by blast
  have "length (mapSet (fr_flagger input) x (flaggersOf i w)) = Suc (length (flaggersOf i w))" for x
    using mapSet_new [OF mapGet_None_iff [THEN iffD1, OF f(1)]] by simp
  moreover have "1 \<le> length (flaggersOf i w)" using f(2) by (cases "flaggersOf i w") auto
  ultimately show ?thesis using assms r
    by (simp add: flagPost_def exec_simps addFlag_def flaggersOf_def countFor_def slashPost_def core_app
        markForfeited_def FLAG_FORFEIT_THRESHOLD_def Let_def)
qed

text \<open>The offer of \<open>did:b\<close> under the id of a hold of \<open>did:a\<close>, flagged once.\<close>

definition flaggedBoard :: board_world where
  "flaggedBoard = (offerBoard ''hold_0'')\<lparr>postFlags := [(''hold_0'', [(''did:c'', \<lparr>fg_post = ''hold_0'', fg_flagger = ''did:c'',
     fg_reason = ''r'', fg_category = SpamFlag, fg_created = ''4''\<rparr>)])]\<rparr>"

definition sampleFlagReq :: flag_request where
  "sampleFlagReq = (let i = \<lparr>fr_flagger = ''did:b'', fr_reason = ''r'', fr_category = SpamFlag, fr_nonce = ''n7'', fr_iat = ''4'',
       fr_exp = ''50'', fr_sig = []\<rparr>
     in i\<lparr>fr_sig := signDetached demo (JObj (stripForSigning (flagRequestObj i) [''sig''])) ''B'' ''k''\<rparr>)"

lemma flag_pieces:
  "fst (verifyAs demo 5 2 (flagRequestObj sampleFlagReq) (sigOpts ''did:b'') flaggedBoard) = Inr ()"
  "fst (forfeit demo ''hold_0'' None (wal flaggedBoard)) = Inr ()"
  "map_option h_did (mapGet (holds (wal flaggedBoard)) ''hold_0'') = Some ''did:a''"
  by code_simp+

theorem flag_slashes_by_post_id_witness:
  "\<exists>res w' h. flagPost demo sampleBoardCfg 5 ''hold_0'' sampleFlagReq flaggedBoard = (Inr res, w') \<and>
     bp_author (sampleOffer ''hold_0'') = ''did:b'' \<and> h_did h = ''did:a'' \<and>
     mapGet (holds (wal flaggedBoard)) ''hold_0'' = Some h \<and> mapGet (holds (wal w')) ''hold_0'' = Some (h\<lparr>h_state := Forfeited\<rparr>)"
proof -
  have c: "core_ok demo flaggedBoard" using offerBoard_core by (simp add: flaggedBoard_def core_ok_def)
  obtain n where v: "verifyAs demo 5 2 (flagRequestObj sampleFlagReq) (sigOpts ''did:b'') flaggedBoard = (Inr (), flaggedBoard\<lparr>non := n\<rparr>)"
    using flag_pieces(1) by (cases rule: verifyAs_out [of demo 5 2 "flagRequestObj sampleFlagReq" "sigOpts ''did:b''" flaggedBoard]) simp
  obtain st where st: "forfeit demo ''hold_0'' None (wal flaggedBoard) = (Inr (), st)" using flag_pieces(2) by (metis prod.collapse)
  have parts: "mapGet (pById flaggedBoard) ''hold_0'' = Some (linked demo (sampleOffer ''hold_0'') emptyBoard)"
    "forfeitedPosts flaggedBoard = []" "flaggersOf ''hold_0'' flaggedBoard \<noteq> []"
    "mapGet (flaggersOf ''hold_0'' flaggedBoard) ''did:b'' = None"
    by (simp_all add: flaggedBoard_def offerBoard_def flaggersOf_def emptyBoard_ok sampleOffer_def rawPost_def)
      (simp add: emptyBoard_def Let_def core.defs)
  have i: "fr_flagger sampleFlagReq = ''did:b''" "fr_category sampleFlagReq = SpamFlag" "brdSkew sampleBoardCfg = 2"
    "bp_author (sampleOffer ''hold_0'') = ''did:b''"
    by (simp_all add: sampleFlagReq_def Let_def sampleBoardCfg_def sampleOffer_def rawPost_def)
  have nf: "\<not> List.member (forfeitedPosts flaggedBoard) ''hold_0''" by (simp add: parts)
  have "\<exists>res w'. flagPost demo sampleBoardCfg 5 ''hold_0'' sampleFlagReq flaggedBoard = (Inr res, w') \<and> upheld res"
    by (rule flag_upheld_runs [OF parts(1) _ _ _ parts(3) _ nf st]) (use v parts i in simp_all)
  then obtain res w' where run: "flagPost demo sampleBoardCfg 5 ''hold_0'' sampleFlagReq flaggedBoard = (Inr res, w')" "upheld res" by blast
  obtain h where "mapGet (holds (wal flaggedBoard)) ''hold_0'' = Some h"
    "mapGet (holds (wal w')) ''hold_0'' = Some (h\<lparr>h_state := Forfeited\<rparr>)"
    using flag_slashes_by_post_id [OF c run nf] by blast
  then show ?thesis using run(1) flag_pieces(3) i(4) by auto
qed

section \<open>Work records\<close>

definition sampleWork :: board_post where
  "sampleWork = (let raw = (\<lambda>cs. rawPost ''p3'' ''did:a'' (WorkRecord \<lparr>wr_receipt = ''rcp_1'', wr_counterparty = ''did:b'',
       wr_outcome = ''ok'', wr_latency = 7, wr_cosig = cs\<rparr>))
     in signedPost ''K'' (raw (signDetached demo (JObj (stripForSigning (bodyOf (raw [])) [''sig'', ''counterparty_sig''])) ''B'' ''k'')))"

definition receiptBoard :: board_world where
  "receiptBoard = emptyBoard\<lparr>led := [\<lparr>seq = 1, prevHash = GENESIS_PREV_HASH, entryHash = ''h'', ts = ''3'', kind = ''receipt'',
     subj = None, payload = JObj [(''receipt_id'', JStr ''rcp_1''), (''payer'', JStr ''did:a''), (''payee'', JStr ''did:b'')]\<rparr>]\<rparr>"

lemma sampleWork_evals: "(case fst (publishPost demo sampleBoardCfg 5 sampleWork receiptBoard) of Inr r \<Rightarrow> True | Inl e \<Rightarrow> False)"
  by code_simp

theorem work_record_backed_witness:
  "\<exists>res w1. publishPost demo sampleBoardCfg 5 sampleWork receiptBoard = (Inr res, w1) \<and>
     (\<exists>rc \<in> set (receiptEntries demo (led receiptBoard)). isReceipt ''rcp_1'' rc \<and> Some ''did:b'' \<in> set (receiptParties rc))"
proof -
  obtain stored rt w1 where p: "publishPost demo sampleBoardCfg 5 sampleWork receiptBoard = (Inr (stored, rt), w1)"
    using sampleWork_evals by (cases "publishPost demo sampleBoardCfg 5 sampleWork receiptBoard") (auto split: sum.splits)
  obtain f where f: "bp_body sampleWork = WorkRecord f" "wr_receipt f = ''rcp_1''" "wr_counterparty f = ''did:b''"
    by (simp add: sampleWork_def signedPost_def rawPost_def Let_def)
  show ?thesis using work_record_backed [OF p f(1)] p by (auto simp: f)
qed

end
