(* ===== verification/Governance_Demo.thy ===== *)
theory Governance_Demo
  imports Platform
begin

text \<open>The properties of the governance plane at a concrete platform with one delegated agent.\<close>

definition parkedCore :: core where
  "parkedCore = sampleCore\<lparr>apr := sampleApprovals\<rparr>"

lemma parkedCore_ok: "core_ok demo parkedCore"
  using sampleCore_ok(1) sampleApprovals_ok by (simp add: core_ok_def parkedCore_def)

definition demoCs :: core_signer where
  "demoCs = \<lparr>cs_did = ''did:r'', cs_kid = ''did:r#1'', cs_sk = ''RK''\<rparr>"

lemma governance_audited_witness:
  "\<exists>b w' e. governed demo demoCs ''k'' 9 (Some ''Bearer k'') (PostKill ''did:a'') parkedCore = (Inr b, w') \<and>
     led w' = led parkedCore @ [e] \<and> kind e = ''gov_kill'' \<and> subj e = Some ''did:a''"
proof -
  obtain r w' where r: "governed demo demoCs ''k'' 9 (Some ''Bearer k'') (PostKill ''did:a'') parkedCore = (r, w')"
    by (metis prod.collapse)
  obtain b where b: "r = Inr b"
    by (cases rule: kill_out [of demo 9 "''did:a''" parkedCore]) (use r in \<open>auto simp: governed_run exec_simps\<close>)
  from governance_audited [OF parkedCore_ok r] b r show ?thesis
    by (auto simp: trail_def entryMark_def)
qed

lemma ruling_frees_once_witness:
  "\<exists>body w1 w2.
     governed demo demoCs ''k'' 9 (Some ''Bearer k'') (PostApproval ''apr_0'' True None) parkedCore = (Inr body, w1) \<and>
     signWithinPolicy demo 5 ''did:a'' JNull (sampleSpend ''60'') (Some ''apr_0'') w1 =
       (Inr (Signed (signDetached demo JNull ''K'' ''did:a#1'')), w2) \<and>
     redeemed (apr w2) ''apr_0'' \<and>
     signWithinPolicy demo 5 ''did:a'' JNull (sampleSpend ''60'') (Some ''apr_0'') w2 = (Inl ConflictError, w2)"
proof -
  let ?m = "signWithinPolicy demo 5 ''did:a'' JNull (sampleSpend ''60'') None parkedCore"
  have "(case fst ?m of Inr (Refused (NeedsApproval th rs)) \<Rightarrow> True | _ \<Rightarrow> False)" by code_simp
  then obtain th rs w0 where s: "?m = (Inr (Refused (NeedsApproval th rs)), w0)"
    by (cases ?m) (auto split: sum.splits sign_result.splits policy_decision.splits)
  have "(case mapGet (byId (apr parkedCore)) ''apr_0'' of None \<Rightarrow> False
    | Some a \<Rightarrow> status a = Pending \<and> ap_agent a = ''did:a'' \<and> ap_action a = sampleSpend ''60'')"
    by code_simp
  then obtain a where a: "mapGet (byId (apr parkedCore)) ''apr_0'' = Some a" "status a = Pending"
      "ap_agent a = ''did:a''" "ap_action a = sampleSpend ''60''"
    by (auto split: option.splits)
  have n: "\<And>m. a_amount (sampleSpend ''60'') = Some m \<Longrightarrow> bigVal demo (amount m) \<noteq> None"
    using sample_numbers by (auto simp: sampleSpend_def)
  let ?k = "\<lparr>key_id = ''#1'', key_pub = ''K''\<rparr>"
  obtain pass where key: "mapGet (passports (idn parkedCore)) ''did:a'' = Some pass" "keys pass = [?k]"
    "mapGet (keystore (idn parkedCore)) (''did:a'' @ key_id ?k) = Some ''K''"
    by (simp add: parkedCore_def sampleCore_def)
  have act: "activeDelegation demo 5 ''did:a'' (idn parkedCore) \<noteq> None" by code_simp
  have k: "''k'' \<noteq> []" by simp
  from ruling_frees_once [OF parkedCore_ok k s a n key refl act refl act, of demoCs 9 True None]
  show ?thesis by auto
qed

end
