(* ===== verification/Platform_Demo.thy ===== *)
theory Platform_Demo
  imports Services Boot Web Escrow_Demo Registry_Demo Mailroom_Demo Board_Demo Governance_Demo
begin

text \<open>The properties of the whole platform at concrete states.\<close>

lemma payment_required_is_free_witness:
  "fundsSame demo (wal sampleWorld)
     (wal (snd (payRoute demo sampleCfg 5 6 ''doc.extract'' (Some ''key'') (samplePayBody ''60'') sampleWorld)))"
proof (rule samplePark_run)
  fix i th rs w'
  assume r: "pay demo sampleCfg 5 6 ''doc.extract'' (Some ''key'') (samplePayBody ''60'') sampleWorld =
    (Inr (AwaitsApproval i th rs), w')"
  have p: "payRoute demo sampleCfg 5 6 ''doc.extract'' (Some ''key'') (samplePayBody ''60'') sampleWorld =
      (Reply 402 (PayParkedBody \<lparr>pk_approval = i, pk_threshold = th, pk_reasons = rs\<rparr>), w')"
    using r by (simp add: payRoute_def serve_def)
  show ?thesis
  proof (rule sampleOpen_runs)
    fix o' v' assume o: "openEscrow demo sampleEscCfg 5 (sampleOpen sampleContract) sampleEsc = (Inr (EscrowIs o'), v')"
    have e: "escrowRoute demo sampleEscCfg 5 (PostEscrow (sampleOpen sampleContract)) sampleEsc = (Reply 200 (DoneBody o'), v')"
      using o by (simp add: serve_def)
    from payment_required_is_free [OF sampleWorld_ok(1) sampleCfg_sound p e] show ?thesis by (simp add: p)
  qed
qed

text \<open>After the kill: a new policy, a registration, and a payment attempt.\<close>

definition lateSteps :: "settle_world \<Rightarrow> settle_world" where
  "lateSteps w =
     snd (pay demo sampleCfg 12 13 ''doc.extract'' (Some ''key'') (samplePayBody ''60'')
       (snd (runId demo (Update 11 ''did:a'' (Some (policy sampleDelegation)))
         (snd (governed demo demoCs ''k'' 10 (Some ''Bearer k'') (PutPolicy ''did:a'' (Some (policy sampleDelegation))) w)))))"

lemma lateSteps_run: "platform_run demo w (lateSteps w)"
  unfolding lateSteps_def
  by (rule platform_run.go [OF platform_step.governs], rule platform_run.go [OF platform_step.registers],
      rule platform_run.go [OF service_steps(1)], rule platform_run.stop)

lemma kill_switch_final_witness:
  "\<exists>b w1. governed demo demoCs ''k'' 9 (Some ''Bearer k'') (PostKill ''did:a'') sampleWorld = (Inr b, w1) \<and>
     signWithinPolicy demo 14 ''did:a'' JNull (sampleSpend ''30'') None (lateSteps w1) =
       (Inr (Refused (Deny [''no active delegation''])), lateSteps w1) \<and>
     (\<exists>e n. verifyAs demo 14 2 [(''from'', JStr ''did:a'')] ((sigOpts [])\<lparr>signerDid := ''did:a''\<rparr>) (lateSteps w1) =
       (Inl e, (lateSteps w1)\<lparr>non := n\<rparr>))"
proof -
  obtain b w1 where r: "governed demo demoCs ''k'' 9 (Some ''Bearer k'') (PostKill ''did:a'') sampleWorld = (Inr b, w1)"
    by (cases rule: kill_out [of demo 9 "''did:a''" sampleWorld]) (auto simp: governed_run exec_simps)
  from kill_switch_final [OF r lateSteps_run] r show ?thesis by blast
qed

lemma killed_after: "killed d (snd (kill E now d w))"
  by (cases rule: kill_out [of E now d w]) (simp add: killed_def)

lemma killed_agent_cannot_act_witness:
  "(\<exists>n. (\<exists>e. pay demo sampleCfg 10 13 ''doc.extract'' (Some ''key'') ((samplePayBody ''60'')\<lparr>b_payment :=
       Some ((the (b_payment (samplePayBody ''60'')))\<lparr>p_from := ''did:a''\<rparr>)\<rparr>) (snd (kill demo 9 ''did:a'' sampleWorld)) =
       (Inl e, (snd (kill demo 9 ''did:a'' sampleWorld))\<lparr>non := n\<rparr>))) \<and>
   blocked (send demo sampleMailCfg 10 (sampleAccept\<lparr>mi_from := ''did:a''\<rparr>)) (snd (kill demo 9 ''did:a'' sampleMail)) \<and>
   blocked (openEscrow demo sampleEscCfg 10 ((sampleOpen sampleContract)\<lparr>es_payer := ''did:a''\<rparr>))
     (snd (kill demo 9 ''did:a'' sampleEsc)) \<and>
   blocked (publishPost demo sampleBoardCfg 10 (sampleTombstone\<lparr>bp_author := ''did:a''\<rparr>))
     (snd (kill demo 9 ''did:a'' (offerBoard ''did:a''))) \<and>
   blocked (queryRegistry demo sampleRegCfg 10 (sampleCapQuery\<lparr>cq_requester := ''did:a''\<rparr>))
     (snd (kill demo 9 ''did:a'' sampleReg))"
proof -
  note k = killed_after [of "''did:a''" demo 9]
  have uncached: "payCache (snd (kill demo 9 ''did:a'' sampleWorld)) = []"
    by (cases rule: kill_out [of demo 9 "''did:a''" sampleWorld]) (simp add: sampleWorld_def Let_def core.defs)
  note all = killed_agent_cannot_act [OF k [of sampleWorld] k [of sampleEsc] k [of sampleStakeWorld] k [of sampleMail]
      k [of "offerBoard ''did:a''"] k [of sampleReg]]
  from all [where E = demo and t = 10 and ec = sampleEscCfg and oi = "sampleOpen sampleContract"
      and mc = sampleMailCfg and mi = sampleAccept and bc = sampleBoardCfg and bp = sampleTombstone
      and rc = sampleRegCfg and rq = sampleCapQuery
      and pc = sampleCfg and t' = 13 and lid = "''doc.extract''" and key = "Some ''key''" and body = "samplePayBody ''60''"
      and p = "the (b_payment (samplePayBody ''60''))"]
  show ?thesis by (simp add: answeredBefore_def uncached)
qed

lemma killed_provider_still_publishes_witness:
  "\<exists>l w2. publishListing demo 5 (sampleListing None ''v1'' ''lots'')
       (snd (kill demo 4 (l_provider (sampleListing None ''v1'' ''lots'')) sampleReg)) = (Inr l, w2) \<and>
     killed (l_provider (sampleListing None ''v1'' ''lots'')) w2"
proof -
  obtain l w1 where "publishListing demo 5 (sampleListing None ''v1'' ''lots'') sampleReg = (Inr l, w1)"
    using sample_create by blast
  from killed_provider_still_publishes [OF this, of 4] show ?thesis by blast
qed

end
