(* ===== verification/Spec2Isabelle.thy ===== *)
theory Spec2Isabelle
  imports Core Idempotency Platform_Demo
begin

text \<open>
  Praxis is the reference backend of a marketplace whose participants are software agents. Agents
  are identified by DIDs, sign every request, act under a delegation credential of their principal,
  hold balances in a wallet, negotiate by messages, pay for calls, fund escrows, and build a
  reputation from signed receipts. This library models the services under \<open>src/\<close> that make up
  this behaviour and proves what they guarantee.

  Conventions. A handler \<open>m\<close> is a function from the state to an outcome and a state (\<open>exec\<close> of
  \<open>Prelude\<close>): \<open>Inr x\<close> is a value returned, \<open>Inl e\<close> an exception of the class \<open>e\<close>, and an exception
  keeps the writes made before it, as in the program. Composition (\<open>bindE\<close>) follows the order of the
  awaits. A handler runs to its end before the next one starts; where the program is exposed to
  overlapping calls of one handler, the overlap is modelled as an explicit sequence of steps
  (\<open>Idempotency\<close>, \<open>racingCaptures\<close> in \<open>Wallet_Spec\<close>). The clock is read once per handler and is the
  argument \<open>now\<close>, in milliseconds. A \<open>Map\<close> is an association list that keeps the insertion order
  (\<open>jsmap\<close>), decimal strings stay strings and are added by the functions of \<open>big.js\<close>, floating-point
  results are rationals, identifiers drawn from \<open>ulid()\<close> are numbered draws. Error messages, log
  output and the texts of reasons are modelled only where the program branches on them.

  Code outside the repository (\<open>big.js\<close>, \<open>canonicalize\<close>, the hash and signature functions,
  \<open>Date\<close>, \<open>ulid\<close>, base64url and JSON) is the record \<open>ext\<close>, an argument \<open>E\<close> of every definition that uses
  it. What is assumed of it are \<open>big_exact\<close>, \<open>times_exact\<close> (decimal arithmetic is exact within the
  digits kept), \<open>ulid_fresh\<close> (draws differ) and \<open>shares_six\<close> (\<open>toFixed(6)\<close> yields six digits); hash and
  signature functions are unconstrained and statements about tampering name the collision instead. Only the
  boot assumes of one key pair that the signature library accepts what was signed with it (\<open>jws_lib_ok\<close>).
  The instance \<open>demo\<close> of \<open>Samples\<close> satisfies all of these, and the witnesses are run on it.

  Shared code. \<open>Prelude\<close>: the errors of \<open>shared/errors\<close>, the computation combinators, \<open>jsmap\<close>, JSON
  values, the laws of \<open>ext\<close>. \<open>Domain\<close>: \<open>src/domain\<close> (money, taxonomy patterns, delegations,
  passports, quotes, receipts, identifiers). \<open>Ports\<close>: the interfaces of \<open>shared/ports\<close> as locales:
  \<open>value_port\<close> and \<open>hold_port\<close> (value transfer), \<open>single_use\<close> (marks consumed once), \<open>hash_log\<close> (logs
  linked by hashes); each is interpreted on the model's own component in the theory of the provider.
  \<open>Frames\<close> and \<open>Guarantee\<close> are the program logics in which handlers are verified: which part of the state
  a handler leaves alone, and which relation holds between its start and its end on every outcome.

  Core services. \<open>Envelope\<close> (\<open>shared/http/envelope.ts\<close>, \<open>shared/crypto/jws.ts\<close>, the nonce store): a
  signed object is accepted at most once, and only from the holder of the key. \<open>Identity\<close>
  (\<open>core/identity\<close>): registration binds a DID to its key, revocation is final. \<open>Merkle\<close> and \<open>Ledger\<close>
  (\<open>shared/crypto\<close>, \<open>core/ledger\<close>): inclusion proofs verify, a changed log is noticed. \<open>Reputation\<close>
  (\<open>core/reputation\<close>): a receipt counts once, the metrics agree with the counters, trust is bounded and
  monotone. \<open>Policy\<close>, \<open>Signer\<close>, \<open>Approvals\<close> (\<open>core/policy\<close>, \<open>features/governance/approvals\<close>): the
  evaluator refines a declarative verdict, nothing is signed past the caps, an approval is redeemed
  once and for the action it was given for. \<open>Core\<close>: these services over one state, as \<open>container.ts\<close>
  composes them.

  Settlement. \<open>Wallet\<close>, \<open>Wallet_Laws\<close>, \<open>Wallet_Spec\<close> (\<open>features/settlement/wallet\<close>): balances and holds;
  value is conserved and a hold is resolved once. \<open>Rails\<close> (\<open>infrastructure/rail\<close>). \<open>Facilitator\<close>,
  \<open>Facilitator_Spec\<close> (\<open>features/settlement/facilitator\<close>): the payment call; a payment is charged once, a
  receipt means the payee was paid. \<open>Idempotency\<close>: the single-flight store. \<open>Escrow\<close>, \<open>Escrow_Laws\<close>,
  \<open>Escrow_Spec\<close>, \<open>Escrow_Demo\<close> (\<open>features/settlement/escrow\<close>): every operation keeps the funds of a
  contract accounted for, hold by hold and account by account (\<open>standing\<close>: captured milestones went to the
  provider, released ones back to the payer), and moves a milestone along its life cycle. \<open>Stake\<close>
  (\<open>features/settlement/stake\<close>): a published stake is backed by held funds.

  Negotiation. \<open>Mailroom\<close>, \<open>Mailroom_Spec\<close>, \<open>Mailroom_Demo\<close> (\<open>features/mailroom\<close>): postage, threads,
  inboxes, flags and agreements.

  Discovery. \<open>Ranking\<close>: the two stages the board and the registry share, a hard filter and a sort by a
  comparator, with the locale \<open>discovery\<close> that says what a page of results is. \<open>Board\<close>, \<open>Board_Spec\<close>,
  \<open>Board_Demo\<close> (\<open>features/board\<close>): the hash-linked log of posts only grows, a query is exact, a work record
  is backed by a receipt. \<open>Similarity\<close>: the cosine of \<open>features/registry/ranking.ts\<close>, decided without
  roots. \<open>Registry\<close>, \<open>Registry_Spec\<close>, \<open>Registry_Demo\<close> (\<open>features/registry\<close>): listings stay what their providers
  signed, a query is exact, and its quotes are what the facilitator accepts.

  Supervision. \<open>Governance\<close>, \<open>Governance_Spec\<close>, \<open>Governance_Demo\<close> (\<open>features/governance\<close>): the bearer guard with
  its comparison of constant time on 32-bit words admits the configured key and nothing else, every change a
  supervisor makes is on the audit trail. \<open>Platform\<close>: the step relation of everything that can happen
  between two moments (governance requests, registry operations, service calls); a kill survives every
  run of it, a ruling frees the parked action once.

  Composition. \<open>Boot\<close> (\<open>container.ts\<close>): the core signers, the faucet and the lazily bound ports; what the registry, the
  facilitator, the mailroom and the reputation engine sign is verifiable from the first request on. \<open>Web\<close>
  (\<open>shared/http/errors.ts\<close> and the \<open>routes.ts\<close> of the modules): statuses and bodies; a 402 means that nothing
  moved. \<open>Composition\<close> and \<open>Services\<close>: no handler of a service writes the registry, and each refuses a
  revoked agent before it changes anything, except the publication of listings. \<open>Platform_Demo\<close> holds
  the concrete runs.

  Fuel and termination. No definition runs on fuel: loops of the code are recursion on the list they
  walk, the levels of a Merkle tree and the pages of an inbox recurse with a measure; \<open>merkle_rounds\<close>
  says how many rounds the tree takes.

  Properties that hold on every outcome quantify over all states that satisfy the component's
  invariant (\<open>wallet_ok\<close>, \<open>core_ok\<close>, \<open>escrow_ok\<close>, \<open>stake_ok\<close>, \<open>log_ok\<close>, \<open>board_ok\<close>, \<open>index_ok\<close>) and over all runs of its
  operations; the properties marked as errors show, at a concrete run, what the program does and its
  documentation does not say.

  Not modelled: the parsing of requests with zod and the encoding of reply headers, configuration and
  logging, the start of the server, the interfaces of the in-memory repositories beyond what the
  services read and write, the calls to the webhooks that are registered, and tests.
\<close>

end
